(* ===== verification/Js_Prelude.thy ===== *)
theory Js_Prelude
  imports Main "HOL-Library.Log_Nat" "HOL-Library.Char_ord" "HOL-Library.List_Lexorder"
begin

text \<open>
  Shared vocabulary of the development: results with thrown values, JSON values, JavaScript
  numbers as far as the SDK inspects them (finiteness, integrality, the safe range, negative
  zero), text of natural numbers in a base, and the generic lemmas that the component theories
  use.  A JavaScript string is an Isabelle \<^typ>\<open>string\<close>: a list of code units, here of eight bits,
  so that the model covers the strings whose code units are below 256.
\<close>

named_theorems result_simps \<open>evaluation of the result combinators\<close>
named_theorems num_simps \<open>classification of JavaScript numbers\<close>

section \<open>Results: a value or what the code throws\<close>

type_synonym ('e, 'a) res = "'e + 'a"

definition bindR :: "('e, 'a) res \<Rightarrow> ('a \<Rightarrow> ('e, 'b) res) \<Rightarrow> ('e, 'b) res" where
  "bindR r f = (case r of Inl e \<Rightarrow> Inl e | Inr a \<Rightarrow> f a)"

definition guardR :: "bool \<Rightarrow> 'e \<Rightarrow> ('e, unit) res" where
  "guardR b e = (if b then Inr () else Inl e)"

fun traverse :: "('a \<Rightarrow> ('e, 'b) res) \<Rightarrow> 'a list \<Rightarrow> ('e, 'b list) res" where
  "traverse f [] = Inr []"
| "traverse f (x # xs) =
     (case f x of Inl e \<Rightarrow> Inl e
      | Inr y \<Rightarrow> (case traverse f xs of Inl e \<Rightarrow> Inl e | Inr ys \<Rightarrow> Inr (y # ys)))"

lemma bindR_simps [simp, result_simps]:
  "bindR (Inl e) f = Inl e"
  "bindR (Inr a) f = f a"
  by (simp_all add: bindR_def)

lemma bindR_Inr_iff: "bindR r f = Inr b \<longleftrightarrow> (\<exists>a. r = Inr a \<and> f a = Inr b)"
  by (cases r) auto

lemma bindR_Inl_iff: "bindR r f = Inl e \<longleftrightarrow> r = Inl e \<or> (\<exists>a. r = Inr a \<and> f a = Inl e)"
  by (cases r) auto

lemma guardR_simps [simp, result_simps]:
  "guardR b e = Inr u \<longleftrightarrow> b"
  "guardR b e = Inl e' \<longleftrightarrow> \<not> b \<and> e' = e"
  by (auto simp: guardR_def)

lemma bindR_guardR [result_simps]: "bindR (guardR b e) f = (if b then f () else Inl e)"
  by (simp add: guardR_def)

lemma traverse_cong [fundef_cong]:
  "xs = ys \<Longrightarrow> (\<And>x. x \<in> set ys \<Longrightarrow> f x = g x) \<Longrightarrow> traverse f xs = traverse g ys"
  by (induction xs arbitrary: ys) (auto split: sum.splits)

lemma bindR_cong [fundef_cong]:
  "r = r' \<Longrightarrow> (\<And>a. r' = Inr a \<Longrightarrow> f a = g a) \<Longrightarrow> bindR r f = bindR r' g"
  by (cases r') (auto simp: bindR_def)

lemma traverse_Inr_iff:
  "traverse f xs = Inr ys \<longleftrightarrow> list_all2 (\<lambda>x y. f x = Inr y) xs ys"
proof (induction xs arbitrary: ys)
  case Nil
  then show ?case by auto
next
  case (Cons x xs)
  show ?case
    unfolding list_all2_Cons1 Cons.IH [symmetric] by (auto split: sum.splits)
qed

lemma traverse_set: "traverse f xs = Inr ys \<Longrightarrow> y \<in> set ys \<Longrightarrow> \<exists>x \<in> set xs. f x = Inr y"
  by (induction xs arbitrary: ys) (auto split: sum.splits)

lemma traverse_Inl_D:
  "traverse f xs = Inl e \<Longrightarrow> \<exists>x \<in> set xs. f x = Inl e"
  by (induction xs) (auto split: sum.splits)

lemma traverse_map_Inr: "(\<And>x. x \<in> set xs \<Longrightarrow> f x = Inr (g x)) \<Longrightarrow> traverse f xs = Inr (map g xs)"
  by (induction xs) auto

section \<open>JavaScript numbers\<close>

text \<open>
  A JavaScript number is NaN, an infinity, negative zero or a finite value; \<^term>\<open>Fin 0\<close> is
  positive zero.  The finite values are kept as rationals, a superset of the binary64 values.
\<close>

datatype js_number = NaN | PosInf | NegInf | NegZero | Fin rat

definition MAX_SAFE_INTEGER :: int where
  "MAX_SAFE_INTEGER = 2 ^ 53 - 1"

definition is_int_rat :: "rat \<Rightarrow> bool" where
  "is_int_rat r \<longleftrightarrow> of_int \<lfloor>r\<rfloor> = r"

fun isFinite :: "js_number \<Rightarrow> bool" where
  "isFinite (Fin r) = True"
| "isFinite NegZero = True"
| "isFinite _ = False"

fun isInteger :: "js_number \<Rightarrow> bool" where
  "isInteger (Fin r) = is_int_rat r"
| "isInteger NegZero = True"
| "isInteger _ = False"

fun isSafeInteger :: "js_number \<Rightarrow> bool" where
  "isSafeInteger (Fin r) = (is_int_rat r \<and> \<bar>\<lfloor>r\<rfloor>\<bar> \<le> MAX_SAFE_INTEGER)"
| "isSafeInteger NegZero = True"
| "isSafeInteger _ = False"

text \<open>The mathematical value of a finite number; the comparisons below use it.\<close>

fun num_value :: "js_number \<Rightarrow> rat option" where
  "num_value (Fin r) = Some r"
| "num_value NegZero = Some 0"
| "num_value _ = None"

fun num_le :: "js_number \<Rightarrow> js_number \<Rightarrow> bool" where
  "num_le NaN _ = False"
| "num_le _ NaN = False"
| "num_le NegInf _ = True"
| "num_le _ PosInf = True"
| "num_le PosInf _ = False"
| "num_le _ NegInf = False"
| "num_le a b = (the (num_value a) \<le> the (num_value b))"

fun num_less :: "js_number \<Rightarrow> js_number \<Rightarrow> bool" where
  "num_less NaN _ = False"
| "num_less _ NaN = False"
| "num_less PosInf _ = False"
| "num_less _ NegInf = False"
| "num_less NegInf _ = True"
| "num_less _ PosInf = True"
| "num_less a b = (the (num_value a) < the (num_value b))"

text \<open>\<open>===\<close> on numbers: NaN differs from itself, the two zeros are equal.\<close>

fun num_eq :: "js_number \<Rightarrow> js_number \<Rightarrow> bool" where
  "num_eq NaN _ = False"
| "num_eq _ NaN = False"
| "num_eq PosInf b = (b = PosInf)"
| "num_eq NegInf b = (b = NegInf)"
| "num_eq a b = (num_value a = num_value b)"

abbreviation jsInt :: "int \<Rightarrow> js_number" where
  "jsInt n \<equiv> Fin (of_int n)"

text \<open>
  The guard \<open>!Number.isSafeInteger(x) || x <= 0\<close> recurs through the SDK: it passes exactly the
  positive safe integers, which the model then keeps as a \<^typ>\<open>nat\<close>.
\<close>

definition positive_safe :: "js_number \<Rightarrow> nat option" where
  "positive_safe x =
     (if \<not> isSafeInteger x \<or> num_le x (Fin 0) then None
      else map_option (\<lambda>r. nat \<lfloor>r\<rfloor>) (num_value x))"

text \<open>The predicate of \<open>wire.ts\<close> and \<open>validation.ts\<close> for a number that JSON carries unchanged.\<close>

definition safe_json_number :: "js_number \<Rightarrow> bool" where
  "safe_json_number x \<longleftrightarrow>
     \<not> (\<not> isFinite x \<or> x = NegZero \<or> (isInteger x \<and> \<not> isSafeInteger x))"

lemma is_int_rat_of_int [simp]: "is_int_rat (of_int n)"
  by (simp add: is_int_rat_def)

lemma is_int_rat_of_nat [simp]: "is_int_rat (of_nat n)"
  by (simp add: is_int_rat_def)

lemma is_int_rat_numeral [simp]:
  "is_int_rat 0" "is_int_rat 1" "is_int_rat (numeral k)" "is_int_rat (- numeral k)"
  by (simp_all add: is_int_rat_def)

lemma is_int_ratE: "is_int_rat r \<Longrightarrow> (\<And>n. r = of_int n \<Longrightarrow> P) \<Longrightarrow> P"
  unfolding is_int_rat_def by metis

lemma positive_safe_Some_iff:
  "positive_safe x = Some n \<longleftrightarrow> x = jsInt (int n) \<and> 0 < n \<and> int n \<le> MAX_SAFE_INTEGER"
  by (cases x) (auto simp: positive_safe_def num_simps elim!: is_int_ratE)

lemma positive_safe_None_iff:
  "positive_safe x = None \<longleftrightarrow> (\<forall>n. x = jsInt (int n) \<longrightarrow> 0 < n \<longrightarrow> MAX_SAFE_INTEGER < int n)"
  using positive_safe_Some_iff [of x] by (metis not_less option.exhaust_sel option.distinct(1))

lemma safe_json_number_cases:
  "safe_json_number x \<longleftrightarrow>
     (\<exists>r. x = Fin r \<and> (is_int_rat r \<longrightarrow> \<bar>\<lfloor>r\<rfloor>\<bar> \<le> MAX_SAFE_INTEGER))"
  by (cases x) (auto simp: safe_json_number_def)

section \<open>JSON values\<close>

text \<open>
  \<open>WireJsonValue\<close> of \<open>wire.ts\<close>.  An object is the list of its own properties in insertion order.
\<close>

datatype json =
    JNull
  | JBool bool
  | JNum js_number
  | JStr string
  | JArr "json list"
  | JObj "(string \<times> json) list"

text \<open>Property read (\<open>object[name]\<close> and \<open>Object.hasOwn\<close>): \<^term>\<open>None\<close> is \<open>undefined\<close>.\<close>

abbreviation prop_of :: "(string \<times> 'v) list \<Rightarrow> string \<Rightarrow> 'v option" where
  "prop_of \<equiv> map_of"

section \<open>Text of natural numbers in a base\<close>

definition digit_char :: "nat \<Rightarrow> char" where
  "digit_char d = (if d < 10 then char_of (48 + d) else char_of (87 + d))"

fun digits_in :: "nat \<Rightarrow> nat \<Rightarrow> nat list" where
  "digits_in b n = (if b < 2 \<or> n < b then [n] else digits_in b (n div b) @ [n mod b])"

declare digits_in.simps [simp del]

definition nat_text :: "nat \<Rightarrow> nat \<Rightarrow> string" where
  "nat_text b n = map digit_char (digits_in b n)"

definition int_text :: "int \<Rightarrow> string" where
  "int_text n = (if n < 0 then ''-'' @ nat_text 10 (nat (- n)) else nat_text 10 (nat n))"

fun digits_value :: "nat \<Rightarrow> nat list \<Rightarrow> nat" where
  "digits_value b [] = 0"
| "digits_value b (d # ds) = d * b ^ length ds + digits_value b ds"

lemma digits_value_snoc: "digits_value b (ds @ [d]) = digits_value b ds * b + d"
  by (induction ds) (auto simp: algebra_simps)

lemma digits_in_value: "2 \<le> b \<Longrightarrow> digits_value b (digits_in b n) = n"
proof (induction b n rule: digits_in.induct)
  case (1 b n)
  then show ?case
    by (subst digits_in.simps) (auto simp: digits_value_snoc)
qed

lemma digits_in_less: "2 \<le> b \<Longrightarrow> d \<in> set (digits_in b n) \<Longrightarrow> d < b"
proof (induction b n rule: digits_in.induct)
  case (1 b n)
  from "1.prems"(2) show ?case
    by (subst (asm) digits_in.simps) (use 1 in \<open>auto split: if_splits\<close>)
qed

lemma digits_in_not_Nil [simp]: "digits_in b n \<noteq> []"
  by (subst digits_in.simps) simp

lemma digit_char_inj: "d < 36 \<Longrightarrow> e < 36 \<Longrightarrow> digit_char d = digit_char e \<longleftrightarrow> d = e"
  by (auto simp: digit_char_def take_bit_eq_mod
      dest!: arg_cong [where f = "of_char :: char \<Rightarrow> nat"])

lemma nat_text_inj:
  assumes "2 \<le> b" "b \<le> 36" "nat_text b m = nat_text b n"
  shows "m = n"
proof -
  have inj: "inj_on digit_char (set (digits_in b m) \<union> set (digits_in b n))"
  proof (rule inj_onI)
    fix x y
    assume "x \<in> set (digits_in b m) \<union> set (digits_in b n)" "y \<in> set (digits_in b m) \<union> set (digits_in b n)"
      and eq: "digit_char x = digit_char y"
    then have "x < b" "y < b" using digits_in_less [OF assms(1)] by auto
    with assms(2) eq show "x = y" by (simp add: digit_char_inj)
  qed
  have "digits_in b m = digits_in b n"
    using map_inj_on [OF _ inj] assms(3) by (simp add: nat_text_def)
  then show ?thesis using digits_in_value [OF assms(1)] by metis
qed

lemma nat_text_not_Nil [simp]: "nat_text b n \<noteq> []"
  by (simp add: nat_text_def)

lemma digits_in_hd: "2 \<le> b \<Longrightarrow> 0 < n \<Longrightarrow> 0 < hd (digits_in b n)"
proof (induction b n rule: digits_in.induct)
  case (1 b n)
  then show ?case
    by (subst digits_in.simps) (auto simp: hd_append div_greater_zero_iff)
qed

text \<open>A name in single quotes, as the error messages print it.\<close>

definition quoted :: "string \<Rightarrow> string" where
  "quoted s = CHR 0x27 # s @ [CHR 0x27]"

end
