(* ===== verification/Errors.thy ===== *)
theory Errors
  imports Js_Prelude
begin

text \<open>
  The values the SDK throws and rejects with (\<open>errors.ts\<close>, and the error classes of
  \<open>protocol.ts\<close>, \<open>wire.ts\<close>, \<open>envelope.ts\<close> and \<open>validation.ts\<close>), and abort signals.  Each class is
  a constructor, so that \<open>instanceof\<close> is a case distinction.
\<close>

section \<open>Error values\<close>

record wire_error =
  err_code :: js_number
  err_message :: string
  err_data :: "json option"

record validation_issue =
  issue_path :: string
  issue_rule :: string
  issue_message :: string

text \<open>
  \<open>JsError\<close> is any other instance of \<open>Error\<close>, \<open>DOMException\<close> carries its \<open>name\<close>, and
  \<open>ThrownValue\<close> stands for a thrown value that is no \<open>Error\<close>, by its \<open>String(...)\<close>.
\<close>

datatype thrown =
    SessionError string string "thrown option"
  | RemoteError wire_error
  | ProtocolHandlerError wire_error
  | WireJsonError string
  | EnvelopeError string
  | ProtocolValidationError "validation_issue list"
  | DOMException string string
  | JsError string
  | ThrownValue string

type_synonym 'a result = "(thrown, 'a) res"

abbreviation session_error :: "string \<Rightarrow> string \<Rightarrow> thrown" where
  "session_error c m \<equiv> SessionError c m None"

fun join :: "string \<Rightarrow> string list \<Rightarrow> string" where
  "join sep [] = []"
| "join sep [x] = x"
| "join sep (x # y # zs) = x @ sep @ join sep (y # zs)"

text \<open>The message of a \<open>ProtocolValidationError\<close>, as its constructor builds it.\<close>

definition validation_message :: "validation_issue list \<Rightarrow> string" where
  "validation_message issues =
     (if issues = [] then ''protocol validation failed''
      else join ''; '' (map (\<lambda>i. issue_path i @ '': '' @ issue_message i) issues))"

text \<open>\<open>error instanceof Error ? error.message : String(error)\<close>.\<close>

fun error_text :: "thrown \<Rightarrow> string" where
  "error_text (SessionError _ m _) = m"
| "error_text (RemoteError w) = err_message w"
| "error_text (ProtocolHandlerError w) = err_message w"
| "error_text (WireJsonError m) = m"
| "error_text (EnvelopeError m) = m"
| "error_text (ProtocolValidationError is) = validation_message is"
| "error_text (DOMException _ m) = m"
| "error_text (JsError m) = m"
| "error_text (ThrownValue m) = m"

text \<open>The \<open>code\<close> of a \<open>SessionError\<close> instance; \<open>RemoteError\<close> is a subclass with code \<open>remote\<close>.\<close>

fun session_code :: "thrown \<Rightarrow> string option" where
  "session_code (SessionError c _ _) = Some c"
| "session_code (RemoteError _) = Some ''remote''"
| "session_code _ = None"

definition asSessionError :: "thrown \<Rightarrow> string \<Rightarrow> thrown" where
  "asSessionError e code =
     (if session_code e \<noteq> None then e else SessionError code (error_text e) (Some e))"

section \<open>Abort signals\<close>

text \<open>
  What an operation sees of its optional \<open>AbortSignal\<close>: none, a live signal by its identity, or
  one that is aborted with a reason.
\<close>

datatype signal = NoSignal | LiveSignal nat | AbortedSignal thrown

fun aborted :: "signal \<Rightarrow> thrown" where
  "aborted (AbortedSignal r) = SessionError ''aborted'' ''operation aborted'' (Some r)"
| "aborted _ = SessionError ''aborted'' ''operation aborted'' None"

fun throwIfAborted :: "signal \<Rightarrow> unit result" where
  "throwIfAborted (AbortedSignal r) = Inl (aborted (AbortedSignal r))"
| "throwIfAborted _ = Inr ()"

text \<open>\<open>AbortController.abort(cause)\<close> without a cause aborts with a \<open>DOMException\<close>.\<close>

definition abort_reason :: "thrown option \<Rightarrow> thrown" where
  "abort_reason cause =
     (case cause of Some c \<Rightarrow> c
      | None \<Rightarrow> DOMException ''AbortError'' ''This operation was aborted'')"

lemma asSessionError_code:
  "session_code (asSessionError e code) = Some (case session_code e of None \<Rightarrow> code | Some c \<Rightarrow> c)"
  by (auto simp: asSessionError_def split: option.splits)

lemma asSessionError_text [simp]: "error_text (asSessionError e code) = error_text e"
  by (simp add: asSessionError_def)

lemma asSessionError_idem [simp]:
  "asSessionError (asSessionError e c) d = asSessionError e c"
  by (simp add: asSessionError_def)

lemma throwIfAborted_iff: "throwIfAborted s = Inr () \<longleftrightarrow> (\<forall>r. s \<noteq> AbortedSignal r)"
  by (cases s) auto

end
