(* ===== verification/Fifo_Spec.thy ===== *)
theory Fifo_Spec
  imports Main
begin

text \<open>
  The contract of a first-in first-out channel, as its clients use it: the control channels, the
  dispatch queue of a session and the inbound audio queue all rest on it.  \<open>list\<close> is the abstract
  content, \<open>invar\<close> the provider's invariant.
\<close>

fun enq_all :: "('v \<Rightarrow> 'q \<Rightarrow> 'q option) \<Rightarrow> 'v list \<Rightarrow> 'q \<Rightarrow> 'q option" where
  "enq_all enq [] q = Some q"
| "enq_all enq (v # vs) q = (case enq v q of None \<Rightarrow> None | Some q' \<Rightarrow> enq_all enq vs q')"

fun deq_upto :: "('q \<Rightarrow> ('v \<times> 'q) option) \<Rightarrow> nat \<Rightarrow> 'q \<Rightarrow> 'v list \<times> 'q" where
  "deq_upto deq 0 q = ([], q)"
| "deq_upto deq (Suc n) q =
     (case deq q of None \<Rightarrow> ([], q)
      | Some (v, q') \<Rightarrow> (let (vs, q'') = deq_upto deq n q' in (v # vs, q'')))"

locale fifo =
  fixes enq :: "'v \<Rightarrow> 'q \<Rightarrow> 'q option"
    and deq :: "'q \<Rightarrow> ('v \<times> 'q) option"
    and list :: "'q \<Rightarrow> 'v list"
    and invar :: "'q \<Rightarrow> bool"
  assumes enq_list: "invar q \<Longrightarrow> enq v q = Some q' \<Longrightarrow> list q' = list q @ [v]"
    and enq_invar: "invar q \<Longrightarrow> enq v q = Some q' \<Longrightarrow> invar q'"
    and deq_list: "invar q \<Longrightarrow> deq q = Some (v, q') \<Longrightarrow> list q = v # list q'"
    and deq_invar: "invar q \<Longrightarrow> deq q = Some (v, q') \<Longrightarrow> invar q'"
    and deq_None: "invar q \<Longrightarrow> deq q = None \<longleftrightarrow> list q = []"
begin

lemma enq_all_list:
  "invar q \<Longrightarrow> enq_all enq vs q = Some q' \<Longrightarrow> list q' = list q @ vs \<and> invar q'"
proof (induction vs arbitrary: q)
  case (Cons v vs)
  then show ?case
    using enq_list [OF Cons.prems(1)] enq_invar [OF Cons.prems(1)] by (fastforce split: option.splits)
qed simp

lemma deq_upto_list:
  "invar q \<Longrightarrow> deq_upto deq n q = (vs, q') \<Longrightarrow>
   vs = take n (list q) \<and> list q' = drop n (list q) \<and> invar q'"
proof (induction n arbitrary: q vs q')
  case 0
  then show ?case by simp
next
  case (Suc n)
  show ?case
  proof (cases "deq q")
    case None
    with Suc.prems show ?thesis by (auto simp: deq_None)
  next
    case (Some p)
    obtain v q1 where p: "p = (v, q1)" by (cases p)
    obtain ws q2 where rest: "deq_upto deq n q1 = (ws, q2)" by (metis prod.exhaust)
    have "list q = v # list q1" "invar q1"
      using Suc.prems(1) Some p by (auto dest: deq_list deq_invar)
    with Suc.IH [OF _ rest] Suc.prems(2) Some p rest show ?thesis by auto
  qed
qed

lemma transfer:
  assumes "invar q" "enq_all enq vs q = Some q'" "deq_upto deq n q' = (us, q'')"
  shows "us = take n (list q @ vs)" and "list q'' = drop n (list q @ vs)"
  using enq_all_list [OF assms(1,2)] deq_upto_list [OF _ assms(3)] by auto

lemma drain:
  assumes "invar q" "deq_upto deq (length (list q)) q = (us, q')"
  shows "us = list q" and "deq q' = None"
  using deq_upto_list [OF assms] by (auto simp: deq_None)

end

end
