(* ===== verification/Async_Queue.thy ===== *)
theory Async_Queue
  imports Errors Fifo_Spec "HOL-Library.Multiset"
begin

text \<open>
  \<open>async.ts\<close>: the bounded queue behind every in-memory channel, and \<open>withTimeout\<close>.  A promise
  that is still pending is a waiter; settling it is an effect the operation emits, in the order
  in which the code calls \<open>resolve\<close> and \<open>reject\<close>.
\<close>

named_theorems queue_defs \<open>definitions of the queue operations\<close>

section \<open>State\<close>

text \<open>
  A waiter is known by the identity of its promise and of the signal it listens to.  Detaching a
  waiter removes its abort listener; in the model, the waiters that listen are exactly the ones
  in the two waiting lists.
\<close>

record waiter =
  wid :: nat
  wsignal :: "nat option"

record 'v queue =
  capacity :: nat
  items :: "'v list"
  readers :: "waiter list"
  writers :: "(waiter \<times> 'v) list"
  closed :: bool

datatype 'v effect =
    ResolveReader nat 'v
  | RejectReader nat thrown
  | ResolveWriter nat 'v
  | RejectWriter nat thrown

datatype 'a outcome = Returned 'a | Threw thrown | Waiting nat

abbreviation queue_closed :: thrown where
  "queue_closed \<equiv> session_error ''closed'' ''queue is closed''"

fun signal_id :: "signal \<Rightarrow> nat option" where
  "signal_id (LiveSignal s) = Some s"
| "signal_id _ = None"

definition new_queue :: "js_number \<Rightarrow> 'v queue result" where
  "new_queue cap = (case positive_safe cap of
       None \<Rightarrow> Inl (session_error ''configuration'' ''queue capacity must be a positive safe integer'')
     | Some n \<Rightarrow> Inr \<lparr>capacity = n, items = [], readers = [], writers = [], closed = False\<rparr>)"

section \<open>Operations\<close>

definition tryPush :: "'v \<Rightarrow> 'v queue \<Rightarrow> bool \<times> 'v queue \<times> 'v effect list" where
  "tryPush v q =
     (if closed q then (False, q, [])
      else (case readers q of
          r # rs \<Rightarrow> (True, q\<lparr>readers := rs\<rparr>, [ResolveReader (wid r) v])
        | [] \<Rightarrow>
            if capacity q \<le> length (items q) then (False, q, [])
            else (True, q\<lparr>items := items q @ [v]\<rparr>, [])))"

definition push :: "nat \<Rightarrow> 'v \<Rightarrow> signal \<Rightarrow> 'v queue \<Rightarrow> unit outcome \<times> 'v queue \<times> 'v effect list" where
  "push w v sig q =
     (case throwIfAborted sig of
        Inl e \<Rightarrow> (Threw e, q, [])
      | Inr _ \<Rightarrow>
          if closed q then (Threw queue_closed, q, [])
          else (case readers q of
              r # rs \<Rightarrow> (Returned (), q\<lparr>readers := rs\<rparr>, [ResolveReader (wid r) v])
            | [] \<Rightarrow>
                if length (items q) < capacity q
                then (Returned (), q\<lparr>items := items q @ [v]\<rparr>, [])
                else (Waiting w,
                      q\<lparr>writers := writers q @ [(\<lparr>wid = w, wsignal = signal_id sig\<rparr>, v)]\<rparr>, [])))"

definition closeReaders :: "'v queue \<Rightarrow> 'v queue \<times> 'v effect list" where
  "closeReaders q = (q\<lparr>readers := []\<rparr>, map (\<lambda>r. RejectReader (wid r) queue_closed) (readers q))"

definition admitWriter :: "'v queue \<Rightarrow> 'v queue \<times> 'v effect list" where
  "admitWriter q =
     (case writers q of
        [] \<Rightarrow> if closed q \<and> items q = [] then closeReaders q else (q, [])
      | (w, v) # ws \<Rightarrow>
          (case readers q of
             r # rs \<Rightarrow> (q\<lparr>writers := ws, readers := rs\<rparr>,
                        [ResolveReader (wid r) v, ResolveWriter (wid w) v])
           | [] \<Rightarrow> (q\<lparr>writers := ws, items := items q @ [v]\<rparr>, [ResolveWriter (wid w) v])))"

definition shift :: "nat \<Rightarrow> signal \<Rightarrow> 'v queue \<Rightarrow> 'v outcome \<times> 'v queue \<times> 'v effect list" where
  "shift w sig q =
     (case throwIfAborted sig of
        Inl e \<Rightarrow> (Threw e, q, [])
      | Inr _ \<Rightarrow>
          (case items q of
             v # vs \<Rightarrow> (let (q', es) = admitWriter (q\<lparr>items := vs\<rparr>) in (Returned v, q', es))
           | [] \<Rightarrow>
               (case writers q of
                  (x, v) # ws \<Rightarrow> (Returned v, q\<lparr>writers := ws\<rparr>, [ResolveWriter (wid x) v])
                | [] \<Rightarrow>
                    if closed q then (Threw queue_closed, q, [])
                    else (Waiting w,
                          q\<lparr>readers := readers q @ [\<lparr>wid = w, wsignal = signal_id sig\<rparr>]\<rparr>, []))))"

definition close :: "'v queue \<Rightarrow> 'v queue \<times> 'v effect list" where
  "close q =
     (if closed q then (q, [])
      else (let q1 = q\<lparr>closed := True, writers := []\<rparr>;
                es = map (\<lambda>(w, v). RejectWriter (wid w) queue_closed) (writers q)
            in if items q = []
               then (q1\<lparr>readers := []\<rparr>, es @ map (\<lambda>r. RejectReader (wid r) queue_closed) (readers q))
               else (q1, es)))"

text \<open>The loop of \<open>clear\<close>; every turn takes one writer, so it stops.\<close>

lemma admitWriter_writers:
  "writers (fst (admitWriter q)) = tl (writers q)"
  by (auto simp: admitWriter_def closeReaders_def split: list.splits prod.splits)

function admitAll :: "'v queue \<Rightarrow> 'v queue \<times> 'v effect list" where
  "admitAll q =
     (if writers q \<noteq> [] \<and> \<not> closed q
      then (let (q1, es) = admitWriter q; (q2, es') = admitAll q1 in (q2, es @ es'))
      else (q, []))"
  by pat_completeness auto
termination
proof (relation "measure (\<lambda>q. length (writers q))")
  fix q :: "'a queue" and x q1 es
  assume "writers q \<noteq> [] \<and> \<not> closed q" "x = admitWriter q" "(q1, es) = x"
  then show "(q1, q) \<in> measure (\<lambda>q. length (writers q))"
    using admitWriter_writers [of q] by (cases "writers q") (auto dest: sym)
qed simp

declare admitAll.simps [simp del]

definition clear :: "'v queue \<Rightarrow> 'v queue \<times> 'v effect list" where
  "clear q =
     (let (q1, es) = admitAll (q\<lparr>items := []\<rparr>);
          (q2, es') = (if closed q1 then closeReaders q1 else (q1, []))
      in (q2, es @ es'))"

text \<open>
  The abort listeners: when signal \<open>s\<close> aborts, each waiter that listens to it is removed from its
  list and rejected.
\<close>

definition on_abort :: "nat \<Rightarrow> thrown \<Rightarrow> 'v queue \<Rightarrow> 'v queue \<times> 'v effect list" where
  "on_abort s reason q =
     (q\<lparr>readers := filter (\<lambda>r. wsignal r \<noteq> Some s) (readers q),
        writers := filter (\<lambda>(w, v). wsignal w \<noteq> Some s) (writers q)\<rparr>,
      map (\<lambda>r. RejectReader (wid r) (aborted (AbortedSignal reason)))
          (filter (\<lambda>r. wsignal r = Some s) (readers q))
      @ map (\<lambda>(w, v). RejectWriter (wid w) (aborted (AbortedSignal reason)))
          (filter (\<lambda>(w, v). wsignal w = Some s) (writers q)))"

definition length_queue :: "'v queue \<Rightarrow> nat" where
  "length_queue q = length (items q)"

lemmas queue_op_defs [queue_defs] =
  tryPush_def push_def shift_def close_def clear_def on_abort_def admitWriter_def closeReaders_def

section \<open>Runs of a queue\<close>

text \<open>
  An environment calls the operations in any order and aborts signals at any time.  The log keeps
  the values whose \<open>push\<close> was acknowledged (\<open>accepted\<close>), the values that left the queue, handed to
  a reader or dropped by \<open>clear\<close> (\<open>emitted\<close>), and the promises settled so far.
\<close>

datatype 'v op =
    TryPush 'v
  | Push 'v signal
  | Shift signal
  | Close
  | Clear
  | Abort nat thrown

record 'v run_state =
  rq :: "'v queue"
  next_id :: nat
  accepted :: "'v list"
  emitted :: "'v list"
  settled :: "nat list"

definition delivered_by :: "'v effect list \<Rightarrow> 'v list" where
  "delivered_by es = concat (map (\<lambda>e. case e of ResolveReader _ v \<Rightarrow> [v] | _ \<Rightarrow> []) es)"

definition accepted_by :: "'v effect list \<Rightarrow> 'v list" where
  "accepted_by es = concat (map (\<lambda>e. case e of ResolveWriter _ v \<Rightarrow> [v] | _ \<Rightarrow> []) es)"

fun effect_id :: "'v effect \<Rightarrow> nat" where
  "effect_id (ResolveReader w _) = w"
| "effect_id (RejectReader w _) = w"
| "effect_id (ResolveWriter w _) = w"
| "effect_id (RejectWriter w _) = w"

text \<open>An operation gives the directly accepted values, the directly emitted ones, state and effects.\<close>

fun exec_op :: "nat \<Rightarrow> 'v op \<Rightarrow> 'v queue \<Rightarrow> 'v list \<times> 'v list \<times> 'v queue \<times> 'v effect list" where
  "exec_op w (TryPush v) q = (let (ok, q', es) = tryPush v q in (if ok then [v] else [], [], q', es))"
| "exec_op w (Push v sig) q =
     (let (out, q', es) = push w v sig q in (if out = Returned () then [v] else [], [], q', es))"
| "exec_op w (Shift sig) q =
     (let (out, q', es) = shift w sig q in ([], case out of Returned v \<Rightarrow> [v] | _ \<Rightarrow> [], q', es))"
| "exec_op w Close q = (let (q', es) = close q in ([], [], q', es))"
| "exec_op w Clear q = (let (q', es) = clear q in ([], items q, q', es))"
| "exec_op w (Abort s r) q = (let (q', es) = on_abort s r q in ([], [], q', es))"

definition step :: "'v run_state \<Rightarrow> 'v op \<Rightarrow> 'v run_state" where
  "step st opn =
     (let (acc, out, q', es) = exec_op (next_id st) opn (rq st)
      in \<lparr>rq = q', next_id = Suc (next_id st),
          accepted = accepted st @ acc @ accepted_by es,
          emitted = emitted st @ out @ delivered_by es,
          settled = settled st @ map effect_id es\<rparr>)"

definition start :: "nat \<Rightarrow> 'v run_state" where
  "start n = \<lparr>rq = \<lparr>capacity = n, items = [], readers = [], writers = [], closed = False\<rparr>,
     next_id = 0, accepted = [], emitted = [], settled = []\<rparr>"

definition run_ops :: "nat \<Rightarrow> 'v op list \<Rightarrow> 'v run_state" where
  "run_ops n ops = foldl step (start n) ops"

section \<open>The invariant\<close>

text \<open>
  A reader waits only on an empty open queue, a writer only on a full open one.
\<close>

definition queue_inv :: "'v queue \<Rightarrow> bool" where
  "queue_inv q \<longleftrightarrow>
     0 < capacity q
     \<and> (readers q \<noteq> [] \<longrightarrow> items q = [] \<and> writers q = [] \<and> \<not> closed q)
     \<and> (writers q \<noteq> [] \<longrightarrow> capacity q \<le> length (items q) \<and> \<not> closed q)"

definition content :: "'v queue \<Rightarrow> 'v list" where
  "content q = items q @ map snd (writers q)"

abbreviation waiting_ids :: "'v queue \<Rightarrow> nat list" where
  "waiting_ids q \<equiv> map wid (readers q) @ map (wid \<circ> fst) (writers q)"

lemma effects_simps [simp]:
  "delivered_by [] = []" "accepted_by [] = []"
  "delivered_by (es @ fs) = delivered_by es @ delivered_by fs"
  "accepted_by (es @ fs) = accepted_by es @ accepted_by fs"
  "delivered_by (ResolveReader w v # es) = v # delivered_by es"
  "delivered_by (ResolveWriter w v # es) = delivered_by es"
  "delivered_by (RejectReader w e # es) = delivered_by es"
  "delivered_by (RejectWriter w e # es) = delivered_by es"
  "accepted_by (ResolveReader w v # es) = accepted_by es"
  "accepted_by (ResolveWriter w v # es) = v # accepted_by es"
  "accepted_by (RejectReader w e # es) = accepted_by es"
  "accepted_by (RejectWriter w e # es) = accepted_by es"
  by (simp_all add: delivered_by_def accepted_by_def)

lemma reject_reader_effects [simp]:
  "delivered_by (map (\<lambda>r. RejectReader (f r) e) rs) = []"
  "accepted_by (map (\<lambda>r. RejectReader (f r) e) rs) = []"
  by (induction rs) auto

lemma reject_writer_effects [simp]:
  "delivered_by (map (\<lambda>(w, v). RejectWriter (g w) e) ws) = []"
  "accepted_by (map (\<lambda>(w, v). RejectWriter (g w) e) ws) = []"
  by (induction ws) auto

lemma resolve_writer_effects [simp]:
  "delivered_by (map (\<lambda>(w, v). ResolveWriter (g w) v) ws) = []"
  "accepted_by (map (\<lambda>(w, v). ResolveWriter (g w) v) ws) = map snd ws"
  by (induction ws) auto

lemma effect_ids [simp]:
  "effect_id \<circ> (\<lambda>r. RejectReader (f r) e) = f"
  "effect_id \<circ> (\<lambda>(w, v). RejectWriter (g w) e) = g \<circ> fst"
  "effect_id \<circ> (\<lambda>(w, v). ResolveWriter (g w) v) = g \<circ> fst"
  by (auto simp: fun_eq_iff)

lemma admitAll_eq:
  "readers q = [] \<or> writers q = [] \<Longrightarrow> \<not> closed q \<Longrightarrow>
   admitAll q = (q\<lparr>items := items q @ map snd (writers q), writers := []\<rparr>,
                 map (\<lambda>(w, v). ResolveWriter (wid w) v) (writers q))"
proof (induction "writers q" arbitrary: q)
  case Nil
  then show ?case by (simp add: admitAll.simps [of q])
next
  case (Cons x ws)
  obtain w v where x: "x = (w, v)" by (cases x)
  let ?q1 = "q\<lparr>writers := ws, items := items q @ [v]\<rparr>"
  have one: "admitWriter q = (?q1, [ResolveWriter (wid w) v])"
    using Cons.hyps(2) Cons.prems(1) x by (auto simp: admitWriter_def dest: sym split: list.splits)
  have "admitAll ?q1 = (?q1\<lparr>items := items ?q1 @ map snd ws, writers := []\<rparr>,
                        map (\<lambda>(w, v). ResolveWriter (wid w) v) ws)"
    using Cons.hyps(1) [of ?q1] Cons.hyps(2) Cons.prems by auto
  then show ?case
    using Cons.hyps(2) [symmetric] Cons.prems x by (subst admitAll.simps) (simp add: one)
qed

lemma admitAll_closed: "closed q \<Longrightarrow> admitAll q = (q, [])"
  by (simp add: admitAll.simps [of q])

lemma clear_eq:
  assumes "queue_inv q"
  shows "clear q =
    (if closed q then (q\<lparr>items := []\<rparr>, [])
     else (q\<lparr>items := map snd (writers q), writers := []\<rparr>,
           map (\<lambda>(w, v). ResolveWriter (wid w) v) (writers q)))"
proof (cases "closed q")
  case True
  with assms have "readers q = []" by (auto simp: queue_inv_def)
  then have "q\<lparr>items := [], readers := []\<rparr> = q\<lparr>items := []\<rparr>" by (cases q) simp
  with True \<open>readers q = []\<close> show ?thesis
    by (simp add: clear_def admitAll_closed closeReaders_def)
next
  case False
  with assms have "readers (q\<lparr>items := []\<rparr>) = [] \<or> writers (q\<lparr>items := []\<rparr>) = []"
    by (auto simp: queue_inv_def)
  from admitAll_eq [OF this] False show ?thesis by (simp add: clear_def)
qed

text \<open>
  What every operation keeps: the invariant and the capacity, the balance of accepted and emitted
  values, and that the promises it settles or leaves waiting were waiting before or are its own.
\<close>

definition op_keeps :: "nat \<Rightarrow> 'v queue \<Rightarrow> 'v list \<times> 'v list \<times> 'v queue \<times> 'v effect list \<Rightarrow> bool" where
  "op_keeps w q = (\<lambda>(acc, out, q', es).
     queue_inv q' \<and> capacity q' = capacity q
     \<and> items q @ acc @ accepted_by es = out @ delivered_by es @ items q'
     \<and> mset (map effect_id es @ waiting_ids q') \<subseteq># mset (w # waiting_ids q))"

lemma tryPush_keeps: "queue_inv q \<Longrightarrow> op_keeps w q (exec_op w (TryPush v) q)"
  by (auto simp: tryPush_def op_keeps_def queue_inv_def split: list.splits)

lemma push_keeps: "queue_inv q \<Longrightarrow> op_keeps w q (exec_op w (Push v sig) q)"
  by (auto simp: push_def op_keeps_def queue_inv_def split: list.splits sum.splits)

lemma shift_keeps: "queue_inv q \<Longrightarrow> op_keeps w q (exec_op w (Shift sig) q)"
  by (auto simp: shift_def admitWriter_def closeReaders_def op_keeps_def queue_inv_def
      split: list.splits sum.splits if_splits)

lemma close_keeps: "queue_inv q \<Longrightarrow> op_keeps w q (exec_op w Close q)"
  by (auto simp: close_def op_keeps_def queue_inv_def Let_def simp del: mset_map)

lemma clear_keeps: "queue_inv q \<Longrightarrow> op_keeps w q (exec_op w Clear q)"
  by (simp add: clear_eq) (auto simp: op_keeps_def queue_inv_def simp del: mset_map)

lemma mset_filter_split:
  "mset (map f (filter (\<lambda>x. \<not> P x) xs)) + mset (map f (filter P xs)) = mset (map f xs)"
  by (induction xs) auto

lemma abort_mset:
  "mset (map effect_id (snd (on_abort s r q)) @ waiting_ids (fst (on_abort s r q)))
   = mset (waiting_ids q)"
proof -
  have r: "mset (map wid (filter (\<lambda>r. wsignal r \<noteq> Some s) (readers q)))
      + mset (map wid (filter (\<lambda>r. wsignal r = Some s) (readers q))) = mset (map wid (readers q))"
    using mset_filter_split [of wid "\<lambda>r. wsignal r = Some s"] by simp
  have w: "mset (map (wid \<circ> fst) (filter (\<lambda>(w, v). wsignal w \<noteq> Some s) (writers q)))
      + mset (map (wid \<circ> fst) (filter (\<lambda>(w, v). wsignal w = Some s) (writers q)))
      = mset (map (wid \<circ> fst) (writers q))"
    using mset_filter_split [of "wid \<circ> fst" "\<lambda>(w, v). wsignal w = Some s" "writers q"]
    by (simp add: case_prod_unfold)
  show ?thesis
    unfolding mset_append r [symmetric] w [symmetric]
    by (simp add: on_abort_def ac_simps del: mset_map)
qed

lemma abort_keeps: "queue_inv q \<Longrightarrow> op_keeps w q (exec_op w (Abort s r) q)"
  using abort_mset [of s r q]
  by (auto simp: op_keeps_def queue_inv_def on_abort_def simp del: mset_map mset_append)

lemma exec_op_keeps: "queue_inv q \<Longrightarrow> op_keeps w q (exec_op w opn q)"
  by (cases opn)
    (simp_all only: tryPush_keeps push_keeps shift_keeps close_keeps clear_keeps abort_keeps)

section \<open>Reachable states\<close>

definition run_inv :: "'v run_state \<Rightarrow> bool" where
  "run_inv st \<longleftrightarrow>
     queue_inv (rq st)
     \<and> accepted st = emitted st @ items (rq st)
     \<and> distinct (settled st @ waiting_ids (rq st))
     \<and> (\<forall>i \<in> set (settled st @ waiting_ids (rq st)). i < next_id st)"

lemma mset_subset_distinct:
  assumes "mset xs \<subseteq># mset ys" "distinct ys"
  shows "distinct xs" and "set xs \<subseteq> set ys"
proof -
  from assms(1) obtain zs where "mset ys = mset (xs @ zs)"
    by (metis ex_mset mset_append subset_mset.add_diff_inverse)
  then show "distinct xs" "set xs \<subseteq> set ys"
    using assms(2) mset_eq_imp_distinct_iff [of ys "xs @ zs"] mset_eq_setD [of ys "xs @ zs"] by auto
qed

lemma run_inv_start: "0 < n \<Longrightarrow> run_inv (start n)"
  by (simp add: run_inv_def start_def queue_inv_def)

lemma run_inv_step:
  assumes inv: "run_inv st"
  shows "run_inv (step st opn)"
proof -
  let ?q = "rq st"
  obtain acc out q' es where ex: "exec_op (next_id st) opn ?q = (acc, out, q', es)"
    by (metis prod.exhaust)
  have keeps: "op_keeps (next_id st) ?q (acc, out, q', es)"
    using exec_op_keeps [of ?q "next_id st" opn] inv ex by (simp add: run_inv_def)
  let ?new = "map effect_id es @ waiting_ids q'" and ?old = "waiting_ids ?q"
  have sub: "mset ?new \<subseteq># mset (next_id st # ?old)"
    using keeps by (simp add: op_keeps_def del: mset.simps mset_append)
  have old: "distinct (settled st @ next_id st # ?old)"
    using inv by (auto simp: run_inv_def)
  have "mset (settled st @ ?new) \<subseteq># mset (settled st @ next_id st # ?old)"
    using sub by (metis mset_append mset_subset_eq_mono_add_left_cancel)
  note new = mset_subset_distinct [OF this old]
  have "\<forall>i \<in> set (settled st @ next_id st # ?old). i < Suc (next_id st)"
    using inv by (auto simp: run_inv_def intro: less_SucI)
  with new(2) have bound: "\<forall>i \<in> set (settled st @ ?new). i < Suc (next_id st)"
    by blast
  have "accepted st @ acc @ accepted_by es = emitted st @ out @ delivered_by es @ items q'"
    using keeps inv by (simp add: op_keeps_def run_inv_def)
  with keeps new(1) bound show ?thesis
    by (simp add: run_inv_def op_keeps_def step_def ex del: mset_map)
qed

lemma run_inv_run: "0 < n \<Longrightarrow> run_inv (run_ops n ops)"
proof (induction ops rule: rev_induct)
  case Nil
  then show ?case by (simp add: run_ops_def run_inv_start)
next
  case (snoc x xs)
  then show ?case by (simp add: run_ops_def run_inv_step)
qed

lemma capacity_run: "0 < n \<Longrightarrow> capacity (rq (run_ops n ops)) = n"
proof (induction ops rule: rev_induct)
  case Nil
  then show ?case by (simp add: run_ops_def start_def)
next
  case (snoc x xs)
  then have "op_keeps (next_id (run_ops n xs)) (rq (run_ops n xs))
      (exec_op (next_id (run_ops n xs)) x (rq (run_ops n xs)))"
    using run_inv_run [of n xs] by (intro exec_op_keeps) (simp add: run_inv_def)
  with snoc show ?case
    by (auto simp: run_ops_def step_def op_keeps_def split: prod.splits)
qed

section \<open>Properties of the queue\<close>

text \<open>
  Claim C11.  Whatever the operations and aborts, the values whose \<open>push\<close> was acknowledged are, in
  that order, the values that left the queue followed by the values it still stores: nothing
  acknowledged is lost, duplicated or reordered, and nothing unacknowledged is delivered.
\<close>

theorem queue_fifo_exactly_once:
  assumes "0 < n"
  shows "accepted (run_ops n ops) = emitted (run_ops n ops) @ items (rq (run_ops n ops))"
  using run_inv_run [OF assms, of ops] by (simp add: run_inv_def)

theorem queue_fifo_exactly_once_witness:
  "let st = run_ops 1 [Push (7::int) NoSignal, Push 8 (LiveSignal 3), Push 9 NoSignal, Shift NoSignal,
       Abort 3 (JsError ''x''), Shift NoSignal, Close]
   in accepted st = emitted st @ items (rq st) \<and> accepted st = [7, 8, 9] \<and> emitted st = [7, 8]"
  unfolding Let_def by (rule conjI [OF queue_fifo_exactly_once]) (simp, code_simp)

text \<open>
  Claim C12.  No wakeup is lost: in every reachable state a reader waits only while the queue is
  open and nothing is stored or blocked, and a writer waits only while the queue is open and full.
\<close>

theorem queue_no_lost_wakeup:
  assumes "0 < n" and "q = rq (run_ops n ops)"
  shows "(readers q \<noteq> [] \<longrightarrow> content q = [] \<and> \<not> closed q)
    \<and> (writers q \<noteq> [] \<longrightarrow> n \<le> length (items q) \<and> readers q = [] \<and> \<not> closed q)
    \<and> (closed q \<longrightarrow> waiting_ids q = [])"
  using run_inv_run [OF assms(1), of ops] capacity_run [OF assms(1), of ops] assms(2)
  by (auto simp: run_inv_def queue_inv_def content_def)

theorem queue_no_lost_wakeup_witness:
  "let q = rq (run_ops 1 [Push (7::int) NoSignal, Push 8 NoSignal])
   in map snd (writers q) = [8] \<and> 1 \<le> length (items q) \<and> \<not> closed q"
proof -
  let ?q = "rq (run_ops 1 [Push (7::int) NoSignal, Push 8 NoSignal])"
  have w: "map snd (writers ?q) = [8]" by code_simp
  then have "writers ?q \<noteq> []" by force
  with queue_no_lost_wakeup [OF zero_less_one refl, of "[Push (7::int) NoSignal, Push 8 NoSignal]"] w
  show ?thesis unfolding Let_def by blast
qed

text \<open>
  Every promise the queue creates is settled at most once, and a settled promise is no
  longer waiting.
\<close>

theorem queue_settles_once:
  assumes "0 < n"
  shows "distinct (settled (run_ops n ops) @ waiting_ids (rq (run_ops n ops)))"
  using run_inv_run [OF assms, of ops] unfolding run_inv_def by blast

theorem queue_settles_once_witness:
  "let st = run_ops 1 [Shift NoSignal, Shift (LiveSignal 4), Push (7::int) NoSignal,
       Abort 4 (JsError ''x''), Push 8 NoSignal, Push 9 NoSignal]
   in distinct (settled st @ waiting_ids (rq st)) \<and> settled st = [0, 1] \<and> waiting_ids (rq st) = [5]"
  unfolding Let_def by (rule conjI [OF queue_settles_once]) (simp, code_simp)

lemma exec_op_bounded:
  assumes "queue_inv q" "length (items q) \<le> capacity q" "opn \<noteq> Clear"
    and "exec_op w opn q = (acc, out, q', es)"
  shows "length (items q') \<le> capacity q'"
  using assms
  by (cases opn)
    (auto simp: tryPush_def push_def shift_def close_def on_abort_def admitWriter_def closeReaders_def
      Let_def queue_inv_def split: list.splits sum.splits if_splits)

text \<open>
  As long as \<open>clear\<close> is not called, the queue never stores more than its capacity.
\<close>

theorem queue_bounded_without_clear:
  assumes "0 < n" and "Clear \<notin> set ops"
  shows "length (items (rq (run_ops n ops))) \<le> n"
  using assms(2)
proof (induction ops rule: rev_induct)
  case Nil
  then show ?case by (simp add: run_ops_def start_def)
next
  case (snoc x xs)
  let ?st = "run_ops n xs"
  obtain acc out q' es where ex: "exec_op (next_id ?st) x (rq ?st) = (acc, out, q', es)"
    by (metis prod.exhaust)
  have "length (items q') \<le> capacity q'"
    using exec_op_bounded [OF _ _ _ ex] run_inv_run [OF assms(1), of xs] snoc
      capacity_run [OF assms(1), of xs] by (auto simp: run_inv_def)
  moreover have "rq (run_ops n (xs @ [x])) = q'"
    using ex by (simp add: run_ops_def step_def)
  ultimately show ?case using capacity_run [OF assms(1), of "xs @ [x]"] by simp
qed

theorem queue_bounded_without_clear_witness:
  "length (items (rq (run_ops 2 [Push (7::int) NoSignal, TryPush 8, TryPush 9]))) \<le> 2
   \<and> items (rq (run_ops 2 [Push (7::int) NoSignal, TryPush 8, TryPush 9])) = [7, 8]"
  by (rule conjI [OF queue_bounded_without_clear]) (simp, simp, code_simp)

text \<open>
  \<open>clear\<close> drops what is stored and then admits every blocked writer, without looking at the
  capacity.
\<close>

lemma run_pushes:
  assumes "0 < n"
  shows "items (rq (run_ops n (replicate k (Push v NoSignal)))) = replicate (min k n) v
    \<and> map snd (writers (rq (run_ops n (replicate k (Push v NoSignal))))) = replicate (k - n) v
    \<and> readers (rq (run_ops n (replicate k (Push v NoSignal)))) = []
    \<and> \<not> closed (rq (run_ops n (replicate k (Push v NoSignal))))"
proof (induction k)
  case 0
  then show ?case by (simp add: run_ops_def start_def)
next
  case (Suc k)
  let ?st = "run_ops n (replicate k (Push v NoSignal))"
  have "replicate (Suc k) (Push v NoSignal) = replicate k (Push v NoSignal) @ [Push v NoSignal]"
    by (simp add: replicate_append_same)
  then have "run_ops n (replicate (Suc k) (Push v NoSignal)) = step ?st (Push v NoSignal)"
    by (simp only: run_ops_def foldl_append foldl.simps)
  then show ?case
    using Suc.IH capacity_run [OF assms, of "replicate k (Push v NoSignal)"] assms
    by (auto simp: step_def push_def Suc_diff_le min_def replicate_append_same split: list.splits)
qed

text \<open>
  For every capacity some run ends with \<open>clear\<close> leaving more values stored than the
  queue's capacity, so the queue is not bounded by its capacity.
\<close>

theorem clear_exceeds_capacity:
  assumes "0 < n"
  shows "\<exists>ops :: 'v op list. n < length (items (rq (run_ops n (ops @ [Clear]))))"
proof
  let ?v = "undefined :: 'v"
  let ?ops = "replicate (2 * n + 1) (Push ?v NoSignal)"
  let ?q = "rq (run_ops n ?ops)"
  have inv: "queue_inv ?q" using run_inv_run [OF assms, of ?ops] by (simp add: run_inv_def)
  have w: "map snd (writers ?q) = replicate (n + 1) ?v" "\<not> closed ?q"
    using run_pushes [OF assms, of "2 * n + 1" ?v] by simp_all
  have "items (rq (run_ops n (?ops @ [Clear]))) = map snd (writers ?q)"
    using inv w(2) by (simp add: run_ops_def step_def clear_eq split: prod.splits)
  with w(1) show "n < length (items (rq (run_ops n (?ops @ [Clear]))))" by simp
qed

theorem clear_exceeds_capacity_witness:
  "(\<exists>ops :: int op list. 1 < length (items (rq (run_ops 1 (ops @ [Clear])))))
   \<and> items (rq (run_ops 1 [Push (7::int) NoSignal, Push 8 NoSignal, Push 9 NoSignal, Clear])) = [8, 9]"
  by (rule conjI [OF clear_exceeds_capacity]) (simp, code_simp)

section \<open>The queue as a first-in first-out channel\<close>

text \<open>
  Seen by one client that never races with another, \<open>push\<close> and \<open>shift\<close> are the two operations of
  a first-in first-out channel whose content is the stored values followed by the blocked ones.
\<close>

definition enqueue :: "'v \<Rightarrow> 'v queue \<Rightarrow> 'v queue option" where
  "enqueue v q = (case push 0 v NoSignal q of (Threw _, _, _) \<Rightarrow> None | (_, q', _) \<Rightarrow> Some q')"

definition dequeue :: "'v queue \<Rightarrow> ('v \<times> 'v queue) option" where
  "dequeue q = (case shift 0 NoSignal q of (Returned v, q', _) \<Rightarrow> Some (v, q') | _ \<Rightarrow> None)"

definition quiet :: "'v queue \<Rightarrow> bool" where
  "quiet q \<longleftrightarrow> queue_inv q \<and> readers q = []"

lemma quietD: "quiet q \<Longrightarrow> queue_inv q" "quiet q \<Longrightarrow> readers q = []"
  by (simp_all add: quiet_def)

interpretation aq: fifo enqueue dequeue content quiet
proof unfold_locales
  fix q q' :: "'a queue" and v
  assume "quiet q" "enqueue v q = Some q'"
  then show "content q' = content q @ [v]" "quiet q'"
    by (auto simp: enqueue_def push_def quiet_def content_def queue_inv_def split: if_splits)
next
  fix q q' :: "'a queue" and v
  assume "quiet q" "dequeue q = Some (v, q')"
  then show "content q = v # content q'" "quiet q'"
    by (auto simp: dequeue_def shift_def admitWriter_def closeReaders_def quiet_def content_def
        queue_inv_def split: list.splits if_splits)
next
  fix q :: "'a queue"
  assume "quiet q"
  then show "(dequeue q = None) = (content q = [])"
    by (auto simp: dequeue_def shift_def admitWriter_def closeReaders_def quiet_def content_def
        queue_inv_def split: list.splits if_splits)
qed

lemma close_quiet: "queue_inv q \<Longrightarrow> quiet (fst (close q)) \<and> content (fst (close q)) = items q \<and> closed (fst (close q))"
  by (auto simp: close_def Let_def quiet_def queue_inv_def content_def)

lemma dequeue_closed: "dequeue q = Some (v, q') \<Longrightarrow> queue_inv q \<Longrightarrow> closed q' = closed q"
  by (auto simp: dequeue_def shift_def admitWriter_def closeReaders_def queue_inv_def
      split: list.splits if_splits)

lemma deq_upto_closed:
  "queue_inv q \<Longrightarrow> readers q = [] \<Longrightarrow> deq_upto dequeue n q = (vs, q') \<Longrightarrow> closed q' = closed q"
proof (induction n arbitrary: q vs)
  case (Suc n)
  then show ?case
    using aq.deq_invar [of q] dequeue_closed [of q]
    by (auto simp: quiet_def split: option.splits prod.splits)
qed simp

text \<open>
  The queue drains on close: after \<open>close\<close>, \<open>shift\<close> returns exactly the stored values in
  order, blocked writers having been rejected, and then throws \<open>closed\<close>.
\<close>

theorem close_drains:
  assumes "queue_inv q" and "deq_upto dequeue (length (items q)) (fst (close q)) = (vs, q')"
  shows "vs = items q \<and> shift w NoSignal q' = (Threw queue_closed, q', [])"
proof -
  note cq = close_quiet [OF assms(1)]
  have "vs = items q" "dequeue q' = None"
    using aq.drain [of "fst (close q)" vs q'] cq assms(2) by auto
  moreover have "quiet q'" "closed q'"
    using aq.deq_upto_list [OF _ assms(2)] deq_upto_closed [OF _ _ assms(2)] cq by (auto simp: quiet_def)
  ultimately show ?thesis
    using aq.deq_None [of q'] by (auto simp: content_def shift_def)
qed

theorem close_drains_witness:
  "let q = rq (run_ops 2 [Push (7::int) NoSignal, Push 8 NoSignal, Push 9 NoSignal])
   in fst (deq_upto dequeue (length (items q)) (fst (close q))) = [7, 8]"
proof -
  let ?q = "rq (run_ops 2 [Push (7::int) NoSignal, Push 8 NoSignal, Push 9 NoSignal])"
  have "queue_inv ?q" by code_simp
  from close_drains [OF this surjective_pairing] have
    "fst (deq_upto dequeue (length (items ?q)) (fst (close ?q))) = items ?q" by blast
  moreover have "items ?q = [7, 8]" by code_simp
  ultimately show ?thesis unfolding Let_def by (rule trans)
qed

section \<open>Racing a promise against a timer and a signal\<close>

text \<open>
  \<open>withTimeout\<close>: the events that can reach the race, and the state it keeps.  \<open>finish\<close> runs its
  callback only for the first event; it also clears the timer and drops the abort listener.
\<close>

datatype 'a race_event =
    TimerFires
  | SignalAborts thrown
  | PromiseResolves 'a
  | PromiseRejects thrown

record 'a race =
  outcome_of :: "'a result option"
  timer_armed :: bool
  listening :: bool

definition withTimeout_start :: "js_number \<Rightarrow> signal \<Rightarrow> 'a race result" where
  "withTimeout_start timeoutMs sig =
     bindR (throwIfAborted sig) (\<lambda>_.
       if \<not> isFinite timeoutMs \<or> num_le timeoutMs (Fin 0)
       then Inl (session_error ''configuration'' ''timeout must be positive'')
       else Inr \<lparr>outcome_of = None, timer_armed = True, listening = (sig \<noteq> NoSignal)\<rparr>)"

definition finish :: "'a result \<Rightarrow> 'a race \<Rightarrow> 'a race" where
  "finish r s =
     (if outcome_of s \<noteq> None then s
      else s\<lparr>outcome_of := Some r, timer_armed := False, listening := False\<rparr>)"

fun race_result :: "string \<Rightarrow> string \<Rightarrow> 'a race_event \<Rightarrow> 'a result" where
  "race_result code msg TimerFires = Inl (session_error code msg)"
| "race_result code msg (SignalAborts r) = Inl (aborted (AbortedSignal r))"
| "race_result code msg (PromiseResolves v) = Inr v"
| "race_result code msg (PromiseRejects e) = Inl e"

text \<open>A timer that was cleared does not fire and a dropped listener is not called.\<close>

fun race_enabled :: "'a race \<Rightarrow> 'a race_event \<Rightarrow> bool" where
  "race_enabled s TimerFires = timer_armed s"
| "race_enabled s (SignalAborts _) = listening s"
| "race_enabled s _ = True"

definition race_step :: "string \<Rightarrow> string \<Rightarrow> 'a race \<Rightarrow> 'a race_event \<Rightarrow> 'a race" where
  "race_step code msg s ev = (if race_enabled s ev then finish (race_result code msg ev) s else s)"

definition withTimeout :: "js_number \<Rightarrow> string \<Rightarrow> string \<Rightarrow> signal \<Rightarrow> 'a race_event list \<Rightarrow> 'a race result" where
  "withTimeout timeoutMs code msg sig evs =
     bindR (withTimeout_start timeoutMs sig) (\<lambda>s. Inr (foldl (race_step code msg) s evs))"

lemma finish_idem: "outcome_of s = Some r \<Longrightarrow> foldl (race_step code msg) s evs = s"
  by (induction evs) (auto simp: race_step_def finish_def)

text \<open>
  \<open>withTimeout\<close> settles with the first event that reaches it and never changes
  afterwards; when it has settled, its timer is cleared and its listener removed.
\<close>

theorem withTimeout_first_wins:
  assumes "withTimeout_start timeoutMs sig = Inr s" and "race_enabled s ev"
  shows "withTimeout timeoutMs code msg sig (ev # evs) =
    Inr \<lparr>outcome_of = Some (race_result code msg ev), timer_armed = False, listening = False\<rparr>"
proof -
  from assms(1) have "outcome_of s = None"
    by (auto simp: withTimeout_start_def bindR_Inr_iff split: if_splits)
  with assms(2) have s': "race_step code msg s ev =
      \<lparr>outcome_of = Some (race_result code msg ev), timer_armed = False, listening = False\<rparr>"
    by (simp add: race_step_def finish_def)
  with assms(1) show ?thesis
    by (simp add: withTimeout_def finish_idem [of _ "race_result code msg ev"])
qed

theorem withTimeout_first_wins_witness:
  "withTimeout (Fin 10) ''close_timeout'' ''late'' NoSignal [TimerFires, PromiseResolves (3::int)] =
   Inr \<lparr>outcome_of = Some (Inl (session_error ''close_timeout'' ''late'')), timer_armed = False, listening = False\<rparr>"
  by (rule withTimeout_first_wins [where ev = TimerFires, unfolded race_result.simps,
        of _ _ "\<lparr>outcome_of = None, timer_armed = True, listening = False\<rparr>"])
    (simp_all add: withTimeout_start_def)

end
