(* ===== verification/Js_Arith.thy ===== *)
theory Js_Arith
  imports Js_Prelude
begin

text \<open>
  Arithmetic on JavaScript numbers: a binary64 operation is the exact operation followed by
  rounding to the nearest representable value, ties to even.  The same rounding with other
  parameters gives binary32, the element type of \<open>Float32Array\<close>.
\<close>

section \<open>Rounding\<close>

definition round_even :: "rat \<Rightarrow> int" where
  "round_even y =
     (let f = \<lfloor>y\<rfloor>; d = y - of_int f
      in if d < 1 / 2 then f else if 1 / 2 < d then f + 1 else if even f then f else f + 1)"

text \<open>The exponent \<open>k\<close> with \<open>2 ^ k \<le> x < 2 ^ (k + 1)\<close>, for a positive rational.\<close>

definition ilog2 :: "rat \<Rightarrow> int" where
  "ilog2 x =
     (let (p, q) = quotient_of x; k = bitlen p - bitlen q
      in if 2 powi k \<le> x then k else k - 1)"

definition ulp_exp :: "nat \<Rightarrow> int \<Rightarrow> rat \<Rightarrow> int" where
  "ulp_exp prec emin x = max emin (ilog2 \<bar>x\<bar> - int prec + 1)"

definition round_to :: "nat \<Rightarrow> int \<Rightarrow> rat \<Rightarrow> rat" where
  "round_to prec emin x =
     (if x = 0 then 0
      else of_int (round_even (x / 2 powi ulp_exp prec emin x)) * 2 powi ulp_exp prec emin x)"

definition round_ieee :: "nat \<Rightarrow> int \<Rightarrow> int \<Rightarrow> rat \<Rightarrow> js_number" where
  "round_ieee prec emin emax x =
     (let r = round_to prec emin x
      in if 2 powi emax \<le> r then PosInf else if r \<le> - (2 powi emax) then NegInf else Fin r)"

definition to_double :: "rat \<Rightarrow> js_number" where
  "to_double = round_ieee 53 (- 1074) 1024"

definition to_single :: "rat \<Rightarrow> js_number" where
  "to_single = round_ieee 24 (- 149) 128"

section \<open>Error of rounding\<close>

lemma round_even_of_int [simp]: "round_even (of_int n) = n"
  by (simp add: round_even_def)

lemma round_even_error: "\<bar>of_int (round_even y) - y\<bar> \<le> 1 / 2"
proof -
  have "of_int \<lfloor>y\<rfloor> \<le> y" "y < of_int \<lfloor>y\<rfloor> + 1" by linarith+
  then show ?thesis by (auto simp: round_even_def Let_def)
qed

lemma ilog2_bounds:
  assumes "0 < x"
  shows "2 powi ilog2 x \<le> x \<and> x < 2 powi (ilog2 x + 1)"
proof -
  obtain p q where pq: "quotient_of x = (p, q)" by (cases "quotient_of x")
  have q: "0 < q" using pq by (rule quotient_of_denom_pos)
  have x: "x = of_int p / of_int q" using pq by (rule quotient_of_div)
  with assms q have p: "0 < p" by (simp add: zero_less_divide_iff)
  have bounds: "2 powi (bitlen n - 1) \<le> (of_int n :: rat)" "(of_int n :: rat) < 2 powi bitlen n" if "0 < n" for n
  proof -
    have b: "2 ^ nat (bitlen n - 1) \<le> n" "n < 2 ^ nat (bitlen n)"
      using bitlen_bounds [OF that] by auto
    have "0 < bitlen n" using that bitlen_eq_zero_iff [of n] bitlen_nonneg [of n] by linarith
    with b show "2 powi (bitlen n - 1) \<le> (of_int n :: rat)" "(of_int n :: rat) < 2 powi bitlen n"
      by (simp_all add: power_int_def flip: of_int_le_iff of_int_less_iff)
  qed
  define k where "k = bitlen p - bitlen q"
  have up: "x < 2 powi (k + 1)"
  proof -
    have "x < 2 powi bitlen p / of_int q" using bounds(2) [OF p] q x by (simp add: divide_strict_right_mono)
    also have "\<dots> \<le> 2 powi bitlen p / 2 powi (bitlen q - 1)"
      using bounds(1) [OF q] by (intro divide_left_mono) (auto simp: q)
    also have "\<dots> = 2 powi (k + 1)" by (simp add: k_def algebra_simps flip: power_int_diff)
    finally show ?thesis .
  qed
  have lo: "2 powi (k - 1) \<le> x"
  proof -
    have "2 powi (k - 1) = 2 powi (bitlen p - 1) / (2 powi bitlen q :: rat)"
      by (simp add: k_def algebra_simps flip: power_int_diff)
    also have "\<dots> \<le> of_int p / 2 powi bitlen q" using bounds(1) [OF p] by (simp add: divide_right_mono)
    also have "\<dots> \<le> of_int p / of_int q"
      using bounds(2) [OF q] p q by (intro divide_left_mono) auto
    finally show ?thesis by (simp add: x)
  qed
  show ?thesis using up lo by (simp add: ilog2_def pq k_def [symmetric] Let_def)
qed

lemma ilog2_less: "0 < x \<Longrightarrow> x < 2 powi (k + 1) \<Longrightarrow> ilog2 x \<le> k"
proof (rule ccontr)
  assume x: "0 < x" "x < 2 powi (k + 1)" and "\<not> ilog2 x \<le> k"
  then have "(2 :: rat) powi (k + 1) \<le> 2 powi ilog2 x" by (intro power_int_increasing) auto
  with ilog2_bounds [OF x(1)] x(2) show False by simp
qed

lemma round_to_error:
  assumes "x \<noteq> 0"
  shows "\<bar>round_to prec emin x - x\<bar> \<le> 2 powi ulp_exp prec emin x / 2"
proof -
  let ?u = "2 powi ulp_exp prec emin x :: rat"
  have u: "0 < ?u" by simp
  have "round_to prec emin x - x = (of_int (round_even (x / ?u)) - x / ?u) * ?u"
    using assms u by (simp add: round_to_def algebra_simps)
  then have "\<bar>round_to prec emin x - x\<bar> = \<bar>of_int (round_even (x / ?u)) - x / ?u\<bar> * ?u"
    using u by (simp add: abs_mult)
  also have "\<dots> \<le> 1 / 2 * ?u" using round_even_error u by (intro mult_right_mono) auto
  finally show ?thesis by simp
qed

text \<open>Integers up to \<open>2 ^ 53\<close> are represented exactly.\<close>

lemma round_to_multiple:
  assumes "x = of_int m * 2 powi ulp_exp prec emin x"
  shows "round_to prec emin x = x"
proof (cases "x = 0")
  case False
  have "x / 2 powi ulp_exp prec emin x = of_int m"
    by (subst assms) simp
  with False assms show ?thesis by (simp add: round_to_def)
qed (simp add: round_to_def)

lemma round_to_int:
  assumes "\<bar>n\<bar> \<le> 2 ^ 53"
  shows "round_to 53 (- 1074) (of_int n) = of_int n"
proof (cases "n = 0")
  case True
  then show ?thesis by (simp add: round_to_def)
next
  case False
  let ?e = "ulp_exp 53 (- 1074) (of_int n)"
  have pos: "0 < \<bar>of_int n :: rat\<bar>" using False by simp
  show ?thesis
  proof (cases "?e \<le> 0")
    case True
    have "(of_int n :: rat) = of_int (n * 2 ^ nat (- ?e)) * 2 powi ?e"
      using True by (simp add: power_int_def power_one_over)
    then show ?thesis by (rule round_to_multiple)
  next
    case e: False
    then have "53 \<le> ilog2 \<bar>of_int n :: rat\<bar>" by (simp add: ulp_exp_def)
    then have "(2 :: rat) powi 53 \<le> 2 powi ilog2 \<bar>of_int n :: rat\<bar>" by (intro power_int_increasing) auto
    also have "\<dots> \<le> \<bar>of_int n\<bar>" using ilog2_bounds [OF pos] by simp
    finally have "(2 :: rat) ^ 53 \<le> of_int \<bar>n\<bar>" by (simp add: power_int_def)
    then have "2 ^ 53 \<le> \<bar>n\<bar>" by (metis of_int_le_iff of_int_numeral of_int_power)
    with assms have n: "\<bar>n\<bar> = 2 ^ 53" by simp
    then have "\<bar>of_int n :: rat\<bar> < 2 powi (53 + 1)" by (simp add: power_int_def flip: of_int_abs)
    then have "ilog2 \<bar>of_int n :: rat\<bar> \<le> 53" using pos by (intro ilog2_less)
    with e have "?e = 1" by (simp add: ulp_exp_def)
    moreover from n have "n = (sgn n * 2 ^ 52) * 2" by (auto simp: abs_if sgn_if split: if_splits)
    then have "(of_int n :: rat) = of_int (sgn n * 2 ^ 52) * 2 powi 1"
      by (metis of_int_mult of_int_numeral power_int_1_right)
    ultimately show ?thesis by (intro round_to_multiple [of _ "sgn n * 2 ^ 52"]) simp
  qed
qed

lemma to_double_int: "\<bar>n\<bar> \<le> 2 ^ 53 \<Longrightarrow> to_double (of_int n) = jsInt n"
proof -
  assume n: "\<bar>n\<bar> \<le> 2 ^ 53"
  then have "\<bar>of_int n :: rat\<bar> \<le> 2 ^ 53"
    by (metis of_int_abs of_int_le_iff of_int_numeral of_int_power)
  moreover have "(2 :: rat) ^ 53 < 2 powi 1024" by (simp add: power_int_def)
  ultimately have "(of_int n :: rat) < 2 powi 1024" "- (2 powi 1024) < (of_int n :: rat)" by linarith+
  then show ?thesis by (simp add: to_double_def round_ieee_def round_to_int [OF n] Let_def)
qed

lemma to_double_nat: "n \<le> 2 ^ 53 \<Longrightarrow> to_double (of_nat n) = Fin (of_nat n)"
proof -
  assume "n \<le> 2 ^ 53"
  then have "\<bar>int n\<bar> \<le> 2 ^ 53" by (simp add: numeral_power_le_of_nat_cancel_iff flip: of_nat_power_le_of_nat_cancel_iff)
  from to_double_int [OF this] show ?thesis by simp
qed

text \<open>So are the dyadic fractions with a numerator below \<open>2 ^ 53\<close>.\<close>

lemma round_to_dyadic:
  assumes "\<bar>m\<bar> < 2 ^ prec" "- int j \<ge> emin"
  shows "round_to prec emin (of_int m / 2 ^ j) = of_int m / 2 ^ j"
proof (cases "m = 0")
  case True
  then show ?thesis by (simp add: round_to_def)
next
  case False
  let ?x = "of_int m / 2 ^ j :: rat"
  let ?e = "ulp_exp prec emin ?x"
  have "of_int \<bar>m\<bar> < (2 :: rat) ^ prec"
    using assms(1) by (metis of_int_less_iff of_int_numeral of_int_power)
  then have "\<bar>?x\<bar> < 2 ^ prec / 2 ^ j" by (simp add: abs_divide divide_strict_right_mono)
  also have "\<dots> = 2 powi (int prec - int j - 1 + 1)" by (simp add: power_int_diff)
  finally have "ilog2 \<bar>?x\<bar> \<le> int prec - int j - 1" using False by (intro ilog2_less) auto
  with assms(2) have "?e \<le> - int j" by (simp add: ulp_exp_def)
  then have "?e = - int (j + nat (- int j - ?e))" by simp
  then obtain i where e: "?e = - int (j + i)" by blast
  have "?x = of_int (m * 2 ^ i) * 2 powi (- int (j + i))"
    unfolding power_int_minus power_int_of_nat power_add by (simp add: field_simps)
  then have "?x = of_int (m * 2 ^ i) * 2 powi ?e" unfolding e .
  then show ?thesis by (rule round_to_multiple)
qed

lemma to_double_dyadic:
  assumes "\<bar>m\<bar> < 2 ^ 53" "j \<le> 1074"
  shows "to_double (of_int m / 2 ^ j) = Fin (of_int m / 2 ^ j)"
proof -
  let ?x = "of_int m / 2 ^ j :: rat"
  have "\<bar>?x\<bar> \<le> of_int \<bar>m\<bar>" by (simp add: abs_divide field_simps mult_le_cancel_left1)
  also have "\<dots> < (2 :: rat) ^ 53" using assms(1) by (metis of_int_less_iff of_int_numeral of_int_power)
  also have "\<dots> < 2 powi 1024" by (simp add: power_int_def)
  finally have "?x < 2 powi 1024" "- (2 powi 1024) < ?x" by linarith+
  moreover have "round_to 53 (- 1074) ?x = ?x" using assms by (intro round_to_dyadic) auto
  ultimately show ?thesis by (simp add: to_double_def round_ieee_def Let_def)
qed

text \<open>Rounding does not cross a power of two from above.\<close>

lemma round_even_ge: "of_int n \<le> y \<Longrightarrow> n \<le> round_even y"
  by (drule le_floor_iff [THEN iffD2]) (auto simp: round_even_def Let_def)

lemma to_double_ge:
  assumes "(2 :: rat) ^ k \<le> z"
  shows "to_double z = PosInf \<or> (\<exists>r. to_double z = Fin r \<and> 2 ^ k \<le> r)"
proof -
  have z: "0 < z" using assms by (rule less_le_trans [rotated]) simp
  let ?l = "ilog2 z"
  have k: "int k \<le> ?l"
  proof (rule ccontr)
    assume "\<not> int k \<le> ?l"
    then have "(2 :: rat) powi (?l + 1) \<le> 2 powi int k" by (intro power_int_increasing) auto
    with ilog2_bounds [OF z] assms show False by simp
  qed
  have e: "ulp_exp 53 (- 1074) z = ?l - 52" using k z by (simp add: ulp_exp_def)
  have pw: "(2 :: rat) ^ 52 * 2 powi (?l - 52) = 2 powi ?l"
    using power_int_add [of "2 :: rat" "int 52" "?l - 52"] by simp
  then have "of_int (2 ^ 52) * 2 powi (?l - 52) \<le> z"
    using ilog2_bounds [OF z] by simp
  then have "of_int (2 ^ 52) \<le> z / 2 powi (?l - 52)" by (simp add: pos_le_divide_eq)
  then have "2 ^ 52 \<le> round_even (z / 2 powi (?l - 52))" by (rule round_even_ge)
  then have "(2 :: rat) ^ 52 \<le> of_int (round_even (z / 2 powi (?l - 52)))"
    by (metis of_int_le_iff of_int_numeral of_int_power)
  then have "(2 :: rat) ^ 52 * 2 powi (?l - 52) \<le> round_to 53 (- 1074) z"
    using z by (simp add: round_to_def e)
  then have "2 powi ?l \<le> round_to 53 (- 1074) z" by (simp only: pw)
  then have "(2 :: rat) powi int k \<le> round_to 53 (- 1074) z"
    using k by (meson order_trans power_int_increasing one_le_numeral)
  then have ge: "(2 :: rat) ^ k \<le> round_to 53 (- 1074) z" by simp
  then have "0 < round_to 53 (- 1074) z" by (rule less_le_trans [rotated]) simp
  then have "\<not> round_to 53 (- 1074) z \<le> - (2 powi 1024)"
    by (meson less_le_trans neg_0_le_iff_le not_le zero_less_power_int zero_less_numeral order_less_imp_le)
  with ge show ?thesis by (simp add: to_double_def round_ieee_def Let_def)
qed

text \<open>A quotient of safe integers rounds to a number with the same integer part.\<close>

lemma to_double_quotient:
  assumes a: "0 < a" "a < 2 ^ 53" and b: "0 < b" "b < 2 ^ 53"
  shows "\<exists>r. to_double (of_nat a / of_nat b) = Fin r \<and> \<lfloor>r\<rfloor> = int (a div b)"
proof -
  let ?x = "of_nat a / of_nat b :: rat"
  let ?e = "ulp_exp 53 (- 1074) ?x"
  let ?u = "2 powi ?e :: rat"
  let ?r = "round_to 53 (- 1074) ?x"
  have x: "0 < ?x" using a b by simp
  have le: "of_nat n < (2 :: rat) ^ 53" if "n < 2 ^ 53" for n
    using that by (metis of_nat_less_iff of_nat_numeral of_nat_power)
  have bx: "of_nat b * ?x = of_nat a" using b by simp
  have "?x \<le> of_nat a" using b x by (simp add: divide_le_eq mult_le_cancel_left1)
  also have "\<dots> < 2 powi (52 + 1)" using le [OF a(2)] by (simp add: power_int_def)
  finally have x53: "?x < 2 powi (52 + 1)" .
  then have "ilog2 ?x \<le> 52" using x by (intro ilog2_less)
  then have e0: "?e \<le> 0" using x by (simp add: ulp_exp_def)
  have u: "?u / 2 < 1 / of_nat b"
  proof (cases "?e = ilog2 ?x - 52")
    case True
    have "?u / 2 = 2 powi ilog2 ?x / 2 ^ 53" unfolding True by (simp add: power_int_diff)
    also have "\<dots> \<le> ?x / 2 ^ 53" using ilog2_bounds [OF x] by (intro divide_right_mono) auto
    also have "\<dots> < 1 / of_nat b" using le [OF a(2)] b by (simp add: field_simps)
    finally show ?thesis .
  next
    case False
    then have "?e = - 1074" using x by (simp add: ulp_exp_def max_def split: if_splits)
    then have "?u / 2 = 1 / 2 ^ 1075" by (simp add: power_int_def power_one_over field_simps)
    also have "\<dots> < 1 / 2 ^ 53" by (intro divide_strict_left_mono power_strict_increasing) auto
    also have "\<dots> \<le> 1 / of_nat b" using le [OF b(2)] b by (intro divide_left_mono) auto
    finally show ?thesis .
  qed
  have "?r < ?x + 1 / of_nat b" using round_to_error [of ?x 53 "- 1074"] x u by linarith
  also have "\<dots> = of_nat (a + 1) / of_nat b" by (simp add: add_divide_distrib)
  also have "\<dots> \<le> of_nat (a div b + 1)"
  proof -
    have "a + 1 \<le> (a div b + 1) * b" using b(1) by (metis Suc_eq_plus1 Suc_leI add.commute dividend_less_div_times mult.commute mult_Suc)
    then have "of_nat (a + 1) \<le> (of_nat (a div b + 1) * of_nat b :: rat)" by (metis of_nat_le_iff of_nat_mult)
    then show ?thesis using b(1) by (simp add: divide_le_eq)
  qed
  finally have upper: "?r < of_nat (a div b) + 1" by simp
  have k: "of_nat (a div b) \<le> ?x"
  proof -
    have "of_nat (a div b * b) \<le> (of_nat a :: rat)" by (simp only: of_nat_le_iff div_times_less_eq_dividend)
    then show ?thesis using b(1) by (simp add: le_divide_eq)
  qed
  have ku: "of_int (int (a div b) * 2 ^ nat (- ?e)) = (of_nat (a div b) / ?u)"
    using e0 by (simp add: power_int_def power_one_over field_simps)
  also have "\<dots> \<le> ?x / ?u" using k by (intro divide_right_mono) auto
  finally have "int (a div b) * 2 ^ nat (- ?e) \<le> round_even (?x / ?u)" by (rule round_even_ge)
  then have "of_nat (a div b) / ?u \<le> of_int (round_even (?x / ?u))" unfolding ku [symmetric] by (simp only: of_int_le_iff)
  then have "of_nat (a div b) \<le> of_int (round_even (?x / ?u)) * ?u" by (simp only: pos_divide_le_eq zero_less_power_int zero_less_numeral)
  then have lower: "of_nat (a div b) \<le> ?r" using x by (simp only: round_to_def less_imp_neq [OF x, symmetric] if_False)
  have "?r < 2 powi 1024"
  proof -
    have "of_nat (a div b) + 1 \<le> (2 :: rat) ^ 53 + 1" using k x53 by (simp add: power_int_def)
    also have "\<dots> < 2 powi 1024" by (simp add: power_int_def)
    finally show ?thesis using upper by linarith
  qed
  moreover have "\<not> ?r \<le> - (2 powi 1024)"
  proof -
    have "- (2 powi 1024) < (0 :: rat)" by simp
    moreover have "0 \<le> ?r" using lower by (meson of_nat_0_le_iff order_trans)
    ultimately show ?thesis by linarith
  qed
  ultimately have "to_double ?x = Fin ?r" using x by (simp add: to_double_def round_ieee_def Let_def)
  moreover have "\<lfloor>?r\<rfloor> = int (a div b)" using lower upper by (intro floor_unique) auto
  ultimately show ?thesis by blast
qed

end
