(* ===== verification/Transport.thy ===== *)
theory Transport
  imports Errors Js_Arith
begin

text \<open>
  \<open>transport.ts\<close>: media formats, the size of a media frame, and the keepalive policy.
\<close>

section \<open>Media formats\<close>

record media_format =
  encoding :: string
  sampleRate :: js_number
  bitDepth :: js_number
  channels :: js_number
  packetTimeMs :: js_number

abbreviation media_format_error :: "string \<Rightarrow> thrown" where
  "media_format_error m \<equiv> session_error ''media_format'' m"

definition require_positive :: "string \<Rightarrow> js_number \<Rightarrow> nat result" where
  "require_positive name x = (case positive_safe x of
       None \<Rightarrow> Inl (media_format_error (name @ '' must be a positive safe integer''))
     | Some n \<Rightarrow> Inr n)"

text \<open>
  \<open>mediaFrameBytes\<close>: the products and the quotient are binary64 operations, \<open>samples * channels * 2\<close>
  associates to the left.  The guards leave positive safe integers only, so no operand is a zero,
  an infinity or NaN.
\<close>

fun fl_mul :: "js_number \<Rightarrow> nat \<Rightarrow> js_number" where
  "fl_mul (Fin x) n = to_double (x * of_nat n)"
| "fl_mul x n = x"

fun fl_div :: "js_number \<Rightarrow> nat \<Rightarrow> js_number" where
  "fl_div (Fin x) n = to_double (x / of_nat n)"
| "fl_div x n = x"

definition mediaFrameBytes :: "media_format \<Rightarrow> nat result" where
  "mediaFrameBytes f =
     (if encoding f \<noteq> ''L16'' then Inl (media_format_error ''encoding must be L16'')
      else bindR (require_positive ''sample rate'' (sampleRate f)) (\<lambda>sr.
        bindR (require_positive ''channel count'' (channels f)) (\<lambda>ch.
        bindR (require_positive ''packet time'' (packetTimeMs f)) (\<lambda>pt.
        if \<not> num_eq (bitDepth f) (Fin 16) then Inl (media_format_error ''L16 bit depth must be 16'')
        else (case positive_safe (fl_div (fl_mul (sampleRate f) pt) 1000) of
            None \<Rightarrow> Inl (media_format_error ''packet time must contain a whole sample count'')
          | Some samples \<Rightarrow>
              (case positive_safe (fl_mul (fl_mul (Fin (of_nat samples)) ch) 2) of
                 None \<Rightarrow> Inl (media_format_error ''frame byte count is out of range'')
               | Some bytes \<Rightarrow> Inr bytes))))))"

definition sameMediaFormat :: "media_format \<Rightarrow> media_format \<Rightarrow> bool" where
  "sameMediaFormat left right \<longleftrightarrow>
     encoding left = encoding right
     \<and> num_eq (sampleRate left) (sampleRate right)
     \<and> num_eq (bitDepth left) (bitDepth right)
     \<and> num_eq (channels left) (channels right)
     \<and> num_eq (packetTimeMs left) (packetTimeMs right)"

section \<open>Keepalive\<close>

record keepalive_policy =
  intervalMs :: js_number
  timeoutMs :: js_number
  maxMisses :: js_number

definition keepalive_check :: "string \<Rightarrow> js_number \<Rightarrow> unit result" where
  "keepalive_check name x =
     guardR (positive_safe x \<noteq> None)
       (session_error ''configuration'' (''keepalive '' @ name @ '' must be positive''))"

definition validateKeepalive :: "keepalive_policy option \<Rightarrow> unit result" where
  "validateKeepalive p = (case p of None \<Rightarrow> Inr ()
     | Some p \<Rightarrow>
         bindR (keepalive_check ''interval'' (intervalMs p)) (\<lambda>_.
         bindR (keepalive_check ''timeout'' (timeoutMs p)) (\<lambda>_.
         keepalive_check ''max misses'' (maxMisses p))))"

section \<open>Frame size\<close>

lemma require_positive_nat [simp]:
  "require_positive name (Fin (of_nat n)) =
     (if 0 < n \<and> int n \<le> MAX_SAFE_INTEGER then Inr n
      else Inl (media_format_error (name @ '' must be a positive safe integer'')))"
proof -
  have "positive_safe (Fin (of_nat n)) = (if 0 < n \<and> int n \<le> MAX_SAFE_INTEGER then Some n else None)"
    by (simp add: positive_safe_def)
  then show ?thesis by (simp add: require_positive_def)
qed

lemma mediaFrameBytes_positive: "mediaFrameBytes f = Inr n \<Longrightarrow> 0 < n"
  by (auto simp: mediaFrameBytes_def bindR_Inr_iff positive_safe_Some_iff split: if_splits option.splits)

text \<open>
  The quotient by 1000 is decided exactly: for a product of at most \<open>2 ^ 53\<close> the rounded quotient
  is an integer only if the exact one is.
\<close>

lemma to_double_div_1000:
  assumes "0 < p" "p \<le> 2 ^ 53"
  shows "positive_safe (to_double (of_nat p / 1000)) = (if 1000 dvd p then Some (p div 1000) else None)"
proof (cases "1000 dvd p")
  case True
  then obtain m where p: "p = 1000 * m" by blast
  with assms have m: "0 < m" "m \<le> 2 ^ 53" "int m \<le> MAX_SAFE_INTEGER"
    by (auto simp: MAX_SAFE_INTEGER_def)
  have "(of_nat p / 1000 :: rat) = of_nat m" by (simp add: p)
  then have "to_double (of_nat p / 1000) = jsInt (int m)" using to_double_nat [OF m(2)] by simp
  then show ?thesis using True m positive_safe_Some_iff [of "jsInt (int m)" m] p by simp
next
  case False
  let ?x = "of_nat p / 1000 :: rat"
  let ?e = "ulp_exp 53 (- 1074) ?x"
  have x: "0 < ?x" using assms by simp
  have "(of_nat p :: rat) \<le> 2 ^ 53"
    using assms(2) by (metis of_nat_le_iff of_nat_numeral of_nat_power)
  then have "?x \<le> 2 ^ 53 / 1000" by (rule divide_right_mono) simp
  also have "\<dots> < 2 powi (43 + 1)" by (simp add: power_int_def)
  finally have "ilog2 ?x \<le> 43" using x by (intro ilog2_less)
  then have "?e \<le> - 9" using x by (simp add: ulp_exp_def)
  then have "(2 :: rat) powi ?e \<le> 2 powi (- 9)" by (intro power_int_increasing) auto
  then have u: "(2 :: rat) powi ?e / 2 \<le> 1 / 1024" by (simp add: power_int_def power_one_over)
  have err: "\<bar>round_to 53 (- 1074) ?x - ?x\<bar> \<le> 1 / 1024"
    using round_to_error [of ?x 53 "- 1074"] u x by linarith
  show ?thesis
  proof (cases "positive_safe (to_double ?x)")
    case None
    with False show ?thesis by simp
  next
    case (Some m)
    then have "to_double ?x = jsInt (int m)" by (simp add: positive_safe_Some_iff)
    then have "round_to 53 (- 1074) ?x = of_nat m"
      by (auto simp: to_double_def round_ieee_def Let_def split: if_splits)
    with err have "\<bar>of_nat m - ?x\<bar> \<le> 1 / 1024" by simp
    then have "\<bar>of_nat (1000 * m) - of_nat p :: rat\<bar> < 1" by (auto simp: abs_if field_simps split: if_splits)
    then have "of_int \<bar>int (1000 * m) - int p\<bar> < (1 :: rat)" by simp
    then have "\<bar>int (1000 * m) - int p\<bar> < 1" by (simp only: of_int_less_1_iff)
    then have "p = 1000 * m" by linarith
    with False show ?thesis by simp
  qed
qed

lemma positive_safe_nat [simp]:
  "positive_safe (Fin (of_nat n)) = (if 0 < n \<and> int n \<le> MAX_SAFE_INTEGER then Some n else None)"
  by (simp add: positive_safe_def)

lemma positive_safe_large: "2 ^ 53 \<le> r \<Longrightarrow> positive_safe (Fin r) = None"
proof (rule ccontr)
  assume "2 ^ 53 \<le> r" "positive_safe (Fin r) \<noteq> None"
  then obtain n where "r = of_int (int n)" "int n \<le> 2 ^ 53 - 1"
    by (auto simp: positive_safe_Some_iff MAX_SAFE_INTEGER_def)
  with \<open>2 ^ 53 \<le> r\<close> have "of_int (2 ^ 53) \<le> (of_int (int n) :: rat)" by simp
  then have "2 ^ 53 \<le> int n" by (simp only: of_int_le_iff)
  with \<open>int n \<le> 2 ^ 53 - 1\<close> show False by simp
qed

lemma frame_bytes_product:
  assumes "0 < s" "0 < c"
  shows "positive_safe (fl_mul (fl_mul (Fin (of_nat s)) c) 2) =
    (if int (s * c * 2) \<le> MAX_SAFE_INTEGER then Some (s * c * 2) else None)"
proof (cases "s * c \<le> 2 ^ 52")
  case True
  have "s * c \<le> 2 ^ 53" using True by (rule order_trans) simp
  moreover have "s * c * 2 \<le> 2 ^ 53" using mult_le_mono1 [OF True, of 2] by simp
  ultimately have "fl_mul (fl_mul (Fin (of_nat s)) c) 2 = Fin (of_nat (s * c * 2))"
    using to_double_nat [of "s * c"] to_double_nat [of "s * c * 2"] by simp
  moreover have "0 < s * c * 2" using assms by simp
  ultimately show ?thesis by (simp only: positive_safe_nat) simp
next
  case False
  then have big: "2 ^ 52 \<le> s * c" by simp
  have "2 ^ 53 \<le> s * c * 2" using mult_le_mono1 [OF big, of 2] by simp
  then have "int (2 ^ 53) \<le> int (s * c * 2)" by (simp only: of_nat_le_iff)
  then have over: "\<not> int (s * c * 2) \<le> MAX_SAFE_INTEGER"
    unfolding MAX_SAFE_INTEGER_def by (simp only: not_le of_nat_power of_nat_numeral)
  from big have "(2 :: rat) ^ 52 \<le> of_nat s * of_nat c"
    by (metis of_nat_le_iff of_nat_mult of_nat_numeral of_nat_power)
  from to_double_ge [OF this] have "positive_safe (fl_mul (fl_mul (Fin (of_nat s)) c) 2) = None"
  proof (elim disjE exE conjE)
    assume "to_double (of_nat s * of_nat c) = PosInf"
    then show ?thesis by (simp add: positive_safe_def)
  next
    fix r assume r: "to_double (of_nat s * of_nat c) = Fin r" "2 ^ 52 \<le> r"
    then have "(2 :: rat) ^ 53 \<le> r * 2" by simp
    from to_double_ge [OF this] show ?thesis
      using r(1) by (auto simp: positive_safe_large) (simp add: positive_safe_def)
  qed
  with over show ?thesis by simp
qed

definition L16_format :: "nat \<Rightarrow> nat \<Rightarrow> nat \<Rightarrow> media_format" where
  "L16_format sr ch pt = \<lparr>encoding = ''L16'', sampleRate = Fin (of_nat sr), bitDepth = Fin 16,
     channels = Fin (of_nat ch), packetTimeMs = Fin (of_nat pt)\<rparr>"

lemma mediaFrameBytes_L16:
  assumes "0 < sr" "0 < ch" "0 < pt" "int sr \<le> MAX_SAFE_INTEGER" "int ch \<le> MAX_SAFE_INTEGER"
    and "int pt \<le> MAX_SAFE_INTEGER" and "sr * pt \<le> 2 ^ 53"
  shows "mediaFrameBytes (L16_format sr ch pt) =
    (if \<not> 1000 dvd sr * pt then Inl (media_format_error ''packet time must contain a whole sample count'')
     else if int (sr * pt div 1000 * ch * 2) \<le> MAX_SAFE_INTEGER then Inr (sr * pt div 1000 * ch * 2)
     else Inl (media_format_error ''frame byte count is out of range''))"
proof -
  have p: "0 < sr * pt" using assms by simp
  have "fl_mul (Fin (of_nat sr)) pt = Fin (of_nat (sr * pt))"
    using to_double_nat [OF assms(7)] by simp
  then have q: "positive_safe (fl_div (fl_mul (Fin (of_nat sr)) pt) 1000) =
      (if 1000 dvd sr * pt then Some (sr * pt div 1000) else None)"
    using to_double_div_1000 [OF p assms(7)] by simp
  have s: "0 < sr * pt div 1000" if "1000 dvd sr * pt" using that p by (metis div_greater_zero_iff dvd_imp_le zero_less_numeral)
  show ?thesis
    using assms(1-6) frame_bytes_product [OF s assms(2)]
    by (simp add: mediaFrameBytes_def L16_format_def q del: fl_mul.simps fl_div.simps)
qed

text \<open>
  For an L16 format of positive safe integers whose rate times packet time is at most
  \<open>2 ^ 53\<close>, \<open>mediaFrameBytes\<close> in binary64 arithmetic is exact: it returns rate times packet time
  over 1000, times channels, times two, and rejects precisely the formats whose packet is no whole
  number of samples or whose byte count is not a safe integer.
\<close>

theorem mediaFrameBytes_exact:
  assumes "0 < sr" "0 < ch" "0 < pt" "int sr \<le> MAX_SAFE_INTEGER" "int ch \<le> MAX_SAFE_INTEGER"
    and "int pt \<le> MAX_SAFE_INTEGER" and "sr * pt \<le> 2 ^ 53"
  shows "mediaFrameBytes (L16_format sr ch pt) =
    (if \<not> 1000 dvd sr * pt then Inl (media_format_error ''packet time must contain a whole sample count'')
     else if int (sr * pt div 1000 * ch * 2) \<le> MAX_SAFE_INTEGER then Inr (sr * pt div 1000 * ch * 2)
     else Inl (media_format_error ''frame byte count is out of range''))"
  using assms by (rule mediaFrameBytes_L16)

theorem mediaFrameBytes_exact_witness:
  "mediaFrameBytes (L16_format 8000 1 20) = Inr 320
   \<and> mediaFrameBytes (L16_format 44100 1 1) = Inl (media_format_error ''packet time must contain a whole sample count'')"
  using mediaFrameBytes_exact [of 8000 1 20] mediaFrameBytes_exact [of 44100 1 1]
  by (simp add: MAX_SAFE_INTEGER_def)

end
