(* ===== verification/Audio.thy ===== *)
theory Audio
  imports Async_Queue Transport "HOL-Library.Word"
begin

text \<open>
  \<open>audio.ts\<close>: the byte stream of a session over one media channel with frames of a fixed size.
  The media channel is an interface of \<open>transport.ts\<close>; what a stream calls of it, the clock and the
  observer are the operations of \<open>media_env\<close>, on a world \<open>'c\<close> that also decides when signals abort.
\<close>

named_theorems audio_defs \<open>definitions of the audio stream\<close>

section \<open>Frames and channels\<close>

type_synonym byte = "8 word"

record media_frame =
  frame_data :: "byte list"
  frame_ptsMs :: "js_number option"

datatype direction = InDirection | OutDirection

record observed_frame =
  ob_direction :: direction
  ob_data :: "byte list"
  ob_ptsMs :: "js_number option"
  ob_observedAt :: js_number

text \<open>A channel object is known by its identity; \<open>mode\<close> is \<open>native\<close> or anything else.\<close>

record media_channel =
  channel_ref :: nat
  channel_id :: string
  channel_format :: media_format
  channel_native :: bool

record 'c media_env =
  env_writeFrame :: "media_frame \<Rightarrow> 'c \<Rightarrow> 'c \<times> unit result"
  env_clear :: "('c \<Rightarrow> 'c \<times> nat) option"
  env_close :: "'c \<Rightarrow> 'c \<times> unit result"
  env_observe :: "observed_frame \<Rightarrow> 'c \<Rightarrow> 'c \<times> unit result"
  env_now :: "'c \<Rightarrow> js_number"
  env_signal :: "'c \<Rightarrow> signal"

section \<open>The stream\<close>

record audio_stream =
  capacityBytes :: nat
  au_channel :: "media_channel option"
  au_format :: "media_format option"
  au_inbound :: "media_frame queue option"
  au_current :: "byte list option"
  au_currentOffset :: nat
  au_partial :: "byte list"
  au_closed :: bool

definition new_audio :: "js_number option \<Rightarrow> audio_stream result" where
  "new_audio cap =
     (case positive_safe (case cap of None \<Rightarrow> jsInt (1024 * 1024) | Some c \<Rightarrow> c) of
        None \<Rightarrow> Inl (session_error ''configuration'' ''audio buffer capacity must be positive'')
      | Some n \<Rightarrow> Inr \<lparr>capacityBytes = n, au_channel = None, au_format = None, au_inbound = None,
                       au_current = None, au_currentOffset = 0, au_partial = [], au_closed = False\<rparr>)"

definition current_rest :: "audio_stream \<Rightarrow> byte list" where
  "current_rest a = (case au_current a of None \<Rightarrow> [] | Some d \<Rightarrow> drop (au_currentOffset a) d)"

definition bufferedInboundBytes :: "audio_stream \<Rightarrow> nat result" where
  "bufferedInboundBytes a =
     (let n = (case au_current a of None \<Rightarrow> 0 | Some d \<Rightarrow> length d - au_currentOffset a) in
      case (au_format a, au_inbound a) of
        (Some f, Some q) \<Rightarrow> bindR (mediaFrameBytes f) (\<lambda>fb. Inr (n + length_queue q * fb))
      | _ \<Rightarrow> Inr n)"

text \<open>\<open>Math.max(1, Math.floor(capacityBytes / frameBytes))\<close>, a binary64 quotient.\<close>

definition inbound_frames :: "nat \<Rightarrow> nat \<Rightarrow> nat" where
  "inbound_frames cap fb =
     (case to_double (of_nat cap / of_nat fb) of Fin r \<Rightarrow> max 1 (nat \<lfloor>r\<rfloor>) | _ \<Rightarrow> 1)"

definition bind_audio :: "media_channel \<Rightarrow> audio_stream \<Rightarrow> audio_stream \<times> unit result" where
  "bind_audio ch a =
     (if au_closed a then (a, Inl (session_error ''closed'' ''audio stream is closed''))
      else case mediaFrameBytes (channel_format ch) of
        Inl e \<Rightarrow> (a, Inl e)
      | Inr fb \<Rightarrow>
          if (case au_format a of None \<Rightarrow> False | Some f \<Rightarrow> \<not> sameMediaFormat f (channel_format ch))
          then (a, Inl (session_error ''media_format'' ''audio format is already negotiated''))
          else (case au_channel a of
              Some c \<Rightarrow>
                if channel_ref c \<noteq> channel_ref ch
                then (a, Inl (session_error ''media_duplicate'' ''audio is already bound''))
                else (a, Inr ())
            | None \<Rightarrow>
                (let a1 = a\<lparr>au_channel := Some ch, au_format := Some (channel_format ch)\<rparr> in
                 if channel_native ch then (a1, Inr ())
                 else case new_queue (Fin (of_nat (inbound_frames (capacityBytes a) fb))) of
                     Inl e \<Rightarrow> (a1, Inl e)
                   | Inr q \<Rightarrow> (a1\<lparr>au_inbound := Some q\<rparr>, Inr ()))))"

definition requireChannel :: "audio_stream \<Rightarrow> media_channel result" where
  "requireChannel a =
     (if au_closed a then Inl (session_error ''closed'' ''audio stream is closed'')
      else case au_channel a of
          None \<Rightarrow> Inl (session_error ''media_unbound'' ''audio is not negotiated'')
        | Some ch \<Rightarrow>
            if channel_native ch
            then Inl (session_error ''media_native''
              ''audio uses a native browser track; use BrowserAudioDevice instead of raw frame I/O'')
            else Inr ch)"

definition requireInbound :: "audio_stream \<Rightarrow> media_frame queue result" where
  "requireInbound a =
     bindR (requireChannel a) (\<lambda>_. case au_inbound a of
         None \<Rightarrow> Inl (session_error ''media_unbound'' ''audio is not negotiated'')
       | Some q \<Rightarrow> Inr q)"

section \<open>Writing\<close>

text \<open>
  The loop of \<open>write\<close>: whole frames leave while there are enough bytes.  A frame size of zero
  cannot occur (\<open>mediaFrameBytes\<close>); the loop of the code would not end there.
\<close>

function write_frames ::
  "'c media_env \<Rightarrow> nat \<Rightarrow> byte list \<Rightarrow> 'c \<Rightarrow> 'c \<times> byte list result" where
  "write_frames env fb combined c =
     (if 0 < fb \<and> fb \<le> length combined then
        (case throwIfAborted (env_signal env c) of
           Inl e \<Rightarrow> (c, Inl e)
         | Inr _ \<Rightarrow>
             (let frame = take fb combined; pts = env_now env c in
              case env_writeFrame env \<lparr>frame_data = frame, frame_ptsMs = Some pts\<rparr> c of
                (c1, Inl e) \<Rightarrow> (c1, Inl e)
              | (c1, Inr _) \<Rightarrow>
                  (case env_observe env \<lparr>ob_direction = OutDirection, ob_data = frame, ob_ptsMs = Some pts,
                                         ob_observedAt = env_now env c1\<rparr> c1 of
                     (c2, Inl e) \<Rightarrow> (c2, Inl e)
                   | (c2, Inr _) \<Rightarrow> write_frames env fb (drop fb combined) c2)))
      else (c, Inr combined))"
  by pat_completeness auto
termination by (relation "measure (\<lambda>(env, fb, combined, c). length combined)") auto

declare write_frames.simps [simp del]

text \<open>
  \<open>write\<close>: \<open>await_previous\<close> is what happens between the call and the release of the writers before
  it; \<open>requireChannel\<close> and \<open>partial\<close> are read after it.
\<close>

definition audio_write ::
  "'c media_env \<Rightarrow> (audio_stream \<times> 'c \<Rightarrow> audio_stream \<times> 'c) \<Rightarrow> byte list \<Rightarrow> audio_stream \<times> 'c \<Rightarrow> (audio_stream \<times> 'c) \<times> nat result" where
  "audio_write env await_previous data = (\<lambda>(a0, c0).
     (case throwIfAborted (env_signal env c0) of
        Inl e \<Rightarrow> ((a0, c0), Inl e)
      | Inr _ \<Rightarrow>
          if data = [] then ((a0, c0), Inr 0)
          else (case await_previous (a0, c0) of (a, c) \<Rightarrow>
            (case throwIfAborted (env_signal env c) of
               Inl e \<Rightarrow> ((a, c), Inl e)
             | Inr _ \<Rightarrow>
                 (case bindR (requireChannel a) (\<lambda>ch. mediaFrameBytes (channel_format ch)) of
                    Inl e \<Rightarrow> ((a, c), Inl e)
                  | Inr fb \<Rightarrow>
                      (case write_frames env fb (au_partial a @ data) c of
                         (c', Inl e) \<Rightarrow> ((a, c'), Inl e)
                       | (c', Inr rest) \<Rightarrow> ((a\<lparr>au_partial := rest\<rparr>, c'), Inr (length data))))))))"

section \<open>Reading\<close>

text \<open>\<open>read\<close> after the readers before it; a read that finds nothing waits for the queue.\<close>

definition cut_current :: "nat \<Rightarrow> audio_stream \<Rightarrow> byte list \<times> audio_stream" where
  "cut_current n a =
     (let d = (case au_current a of None \<Rightarrow> [] | Some d \<Rightarrow> d);
          e = min (au_currentOffset a + n) (length d)
      in (take (e - au_currentOffset a) (drop (au_currentOffset a) d), a\<lparr>au_currentOffset := e\<rparr>))"

definition read_resume :: "nat \<Rightarrow> media_frame \<Rightarrow> audio_stream \<Rightarrow> byte list \<times> audio_stream" where
  "read_resume n f a = cut_current n (a\<lparr>au_current := Some (frame_data f), au_currentOffset := 0\<rparr>)"

definition audio_read ::
  "nat \<Rightarrow> js_number \<Rightarrow> signal \<Rightarrow> audio_stream \<Rightarrow> byte list outcome \<times> audio_stream \<times> media_frame effect list" where
  "audio_read w maxBytes sig a =
     (case positive_safe maxBytes of
        None \<Rightarrow> (Threw (session_error ''configuration'' ''read size must be positive''), a, [])
      | Some n \<Rightarrow>
          (case throwIfAborted sig of
             Inl e \<Rightarrow> (Threw e, a, [])
           | Inr _ \<Rightarrow>
               (case requireInbound a of
                  Inl e \<Rightarrow> (Threw e, a, [])
                | Inr q \<Rightarrow>
                    if (case au_current a of None \<Rightarrow> True | Some d \<Rightarrow> au_currentOffset a = length d)
                    then (case shift w sig q of
                        (Returned f, q', es) \<Rightarrow>
                          (let (bs, a') = read_resume n f (a\<lparr>au_inbound := Some q'\<rparr>) in (Returned bs, a', es))
                      | (Threw e, q', es) \<Rightarrow> (Threw e, a\<lparr>au_inbound := Some q'\<rparr>, es)
                      | (Waiting i, q', es) \<Rightarrow> (Waiting i, a\<lparr>au_inbound := Some q'\<rparr>, es))
                    else (let (bs, a') = cut_current n a in (Returned bs, a', [])))))"

section \<open>The reader of the channel\<close>

text \<open>
  One turn of the loop of \<open>#readFrames\<close>, on a frame that the channel delivered: a frame of the wrong
  size ends the loop, a good one is copied, observed and pushed.
\<close>

definition read_turn ::
  "'c media_env \<Rightarrow> nat \<Rightarrow> media_frame \<Rightarrow> signal \<Rightarrow> audio_stream \<times> 'c \<Rightarrow> unit outcome \<times> (audio_stream \<times> 'c) \<times> media_frame effect list" where
  "read_turn env w f sig = (\<lambda>(a, c).
     (case (au_channel a, au_inbound a) of
        (Some ch, Some q) \<Rightarrow>
          (case mediaFrameBytes (channel_format ch) of
             Inl e \<Rightarrow> (Threw e, (a, c), [])
           | Inr fb \<Rightarrow>
               if length (frame_data f) \<noteq> fb
               then (Threw (session_error ''media_frame'' ''received media frame has the wrong byte length''), (a, c), [])
               else (case env_observe env \<lparr>ob_direction = InDirection, ob_data = frame_data f, ob_ptsMs = frame_ptsMs f,
                                           ob_observedAt = env_now env c\<rparr> c of
                   (c', Inl e) \<Rightarrow> (Threw e, (a, c'), [])
                 | (c', Inr _) \<Rightarrow>
                     (case push w f sig q of (out, q', es) \<Rightarrow> (out, (a\<lparr>au_inbound := Some q'\<rparr>, c'), es))))
      | _ \<Rightarrow> (Threw (JsError ''not bound''), (a, c), [])))"

text \<open>
  The \<open>catch\<close> of \<open>#readFrames\<close> and the handler that \<open>bind\<close> attaches: unless the stream was closed
  the queue is closed and the session told.
\<close>

definition read_failed :: "thrown \<Rightarrow> audio_stream \<Rightarrow> audio_stream \<times> thrown option \<times> media_frame effect list" where
  "read_failed e a =
     (if au_closed a then (a, None, [])
      else case au_inbound a of
          None \<Rightarrow> (a, Some (asSessionError e ''media_read''), [])
        | Some q \<Rightarrow> (case close q of (q', es) \<Rightarrow>
            (a\<lparr>au_inbound := Some q'\<rparr>, Some (asSessionError (asSessionError e ''media_read'') ''media_read''), es)))"

section \<open>Clearing and closing\<close>

definition audio_clear :: "'c media_env \<Rightarrow> audio_stream \<times> 'c \<Rightarrow> (audio_stream \<times> 'c) \<times> nat result \<times> media_frame effect list" where
  "audio_clear env = (\<lambda>(a, c).
     (case bufferedInboundBytes a of
        Inl e \<Rightarrow> ((a, c), Inl e, [])
      | Inr n \<Rightarrow>
          (let a1 = a\<lparr>au_current := None, au_currentOffset := 0\<rparr>;
               (a2, es) = (case au_inbound a of None \<Rightarrow> (a1, [])
                  | Some q \<Rightarrow> (case clear q of (q', es) \<Rightarrow> (a1\<lparr>au_inbound := Some q'\<rparr>, es)));
               (c', m) = (case (au_channel a, env_clear env) of (Some _, Some f) \<Rightarrow> f c | _ \<Rightarrow> (c, 0))
           in ((a2, c'), Inr (n + m), es))))"

text \<open>
  \<open>close\<close> up to the end of the reader, which the abort of the stream's signal ends: a push of the
  reader that waits is rejected by the closed queue.
\<close>

definition audio_close_start :: "audio_stream \<Rightarrow> audio_stream \<times> media_frame effect list" where
  "audio_close_start a =
     (let a1 = a\<lparr>au_closed := True\<rparr>
      in (case au_inbound a of None \<Rightarrow> (a1, [])
          | Some q \<Rightarrow> (case close q of (q', es) \<Rightarrow> (a1\<lparr>au_inbound := Some q'\<rparr>, es))))"

definition audio_close :: "'c media_env \<Rightarrow> audio_stream \<times> 'c \<Rightarrow> (audio_stream \<times> 'c) \<times> unit result \<times> media_frame effect list" where
  "audio_close env = (\<lambda>(a, c).
     if au_closed a then ((a, c), Inr (), [])
     else (case audio_close_start a of (a2, es) \<Rightarrow>
       (case au_channel a of
          None \<Rightarrow> ((a2\<lparr>au_partial := []\<rparr>, c), Inr (), es)
        | Some _ \<Rightarrow>
            (case env_close env c of
               (c', Inl e) \<Rightarrow> ((a2, c'), Inl e, es)
             | (c', Inr _) \<Rightarrow> ((a2\<lparr>au_partial := []\<rparr>, c'), Inr (), es)))))"

lemmas audio_op_defs [audio_defs] =
  bind_audio_def requireChannel_def requireInbound_def audio_write_def audio_read_def read_resume_def
  cut_current_def read_turn_def read_failed_def audio_clear_def audio_close_def audio_close_start_def

lemma requireChannel_partial [simp]: "requireChannel (a\<lparr>au_partial := p\<rparr>) = requireChannel a"
  by (simp add: requireChannel_def)

section \<open>Writing keeps the bytes\<close>

text \<open>
  What the stream relies on in a media channel: a frame is sent exactly if its write succeeds, and
  the observer sends nothing.  \<open>sent\<close> is the data of the frames that the channel took, \<open>invar\<close> the
  invariant of the provider.
\<close>

locale media_sink =
  fixes env :: "'c media_env"
    and sent :: "'c \<Rightarrow> byte list list"
    and invar :: "'c \<Rightarrow> bool"
  assumes write_ok: "invar c \<Longrightarrow> env_writeFrame env f c = (c', Inr u) \<Longrightarrow> sent c' = sent c @ [frame_data f]"
    and write_fail: "invar c \<Longrightarrow> env_writeFrame env f c = (c', Inl e) \<Longrightarrow> sent c' = sent c"
    and write_invar: "invar c \<Longrightarrow> env_writeFrame env f c = (c', r) \<Longrightarrow> invar c'"
    and observe_sent: "invar c \<Longrightarrow> env_observe env ob c = (c', r) \<Longrightarrow> sent c' = sent c"
    and observe_invar: "invar c \<Longrightarrow> env_observe env ob c = (c', r) \<Longrightarrow> invar c'"
begin

lemma write_frames_sent:
  "0 < fb \<Longrightarrow> invar c \<Longrightarrow> write_frames env fb bs c = (c', r) \<Longrightarrow>
   invar c' \<and> (\<exists>fs rest. sent c' = sent c @ fs \<and> (\<forall>f \<in> set fs. length f = fb) \<and> concat fs @ rest = bs
     \<and> (\<forall>x. r = Inr x \<longrightarrow> rest = x \<and> length x < fb))"
proof (induction bs arbitrary: c rule: length_induct)
  case (1 bs)
  note eq = 1(4) [unfolded write_frames.simps [of env fb bs c]] and inv = 1(3)
  show ?case
  proof (cases "fb \<le> length bs \<and> throwIfAborted (env_signal env c) = Inr ()")
    case False
    then have "c' = c" "\<forall>x. r = Inr x \<longrightarrow> bs = x \<and> length x < fb"
      using eq 1(2) by (auto split: sum.splits if_splits)
    with inv show ?thesis by (intro conjI exI [of _ "[]"] exI [of _ bs]) simp_all
  next
    case True
    let ?f = "\<lparr>frame_data = take fb bs, frame_ptsMs = Some (env_now env c)\<rparr>"
    obtain c1 r1 where w: "env_writeFrame env ?f c = (c1, r1)" by (metis prod.exhaust)
    have inv1: "invar c1" using inv w by (rule write_invar)
    show ?thesis
    proof (cases r1)
      case (Inl e)
      with eq w True 1(2) have "c' = c1" "r = Inl e" by (auto simp: Let_def)
      with write_fail [OF inv, of ?f c1 e] w Inl inv1 show ?thesis
        by (intro conjI exI [of _ "[]"] exI [of _ bs]) simp_all
    next
      case r1: (Inr u)
      let ?ob = "\<lparr>ob_direction = OutDirection, ob_data = take fb bs, ob_ptsMs = Some (env_now env c),
                  ob_observedAt = env_now env c1\<rparr>"
      obtain c2 r2 where o: "env_observe env ?ob c1 = (c2, r2)" by (metis prod.exhaust)
      have inv2: "invar c2" using inv1 o by (rule observe_invar)
      have sent: "sent c2 = sent c @ [take fb bs]"
        using write_ok [OF inv, of ?f c1 u] w r1 observe_sent [OF inv1 o] by simp
      show ?thesis
      proof (cases r2)
        case (Inl e)
        with eq w o r1 True 1(2) have "c' = c2" "r = Inl e" by (auto simp: Let_def)
        with sent True inv2 show ?thesis
          by (intro conjI exI [of _ "[take fb bs]"] exI [of _ "drop fb bs"]) simp_all
      next
        case (Inr u2)
        with eq w o r1 True 1(2) have rest: "write_frames env fb (drop fb bs) c2 = (c', r)"
          by (auto simp: Let_def)
        have "length (drop fb bs) < length bs" using True 1(2) by auto
        with 1(1) 1(2) inv2 rest obtain fs rest where "invar c'" "sent c' = sent c2 @ fs" "\<forall>f \<in> set fs. length f = fb"
          "concat fs @ rest = drop fb bs" "\<forall>x. r = Inr x \<longrightarrow> rest = x \<and> length x < fb" by blast
        with sent True show ?thesis
          by (intro conjI exI [of _ "take fb bs # fs"] exI [of _ rest]) simp_all
      qed
    qed
  qed
qed

lemma audio_write_sent:
  assumes "audio_write env await data (a0, c0) = ((a', c'), Inr n)" "data \<noteq> []" "invar (snd (await (a0, c0)))"
  obtains a c fb fs where "await (a0, c0) = (a, c)" "n = length data"
    "\<exists>ch. requireChannel a = Inr ch \<and> mediaFrameBytes (channel_format ch) = Inr fb"
    "a' = a\<lparr>au_partial := au_partial a'\<rparr>"
    "sent c' = sent c @ fs" "\<forall>f \<in> set fs. length f = fb"
    "concat fs @ au_partial a' = au_partial a @ data" "length (au_partial a') < fb" "invar c'"
proof -
  obtain a c where w: "await (a0, c0) = (a, c)" by (metis prod.exhaust)
  from assms w obtain ch fb rest where ch: "requireChannel a = Inr ch" "mediaFrameBytes (channel_format ch) = Inr fb"
    and wf: "write_frames env fb (au_partial a @ data) c = (c', Inr rest)"
    and a': "a' = a\<lparr>au_partial := rest\<rparr>" and n: "n = length data"
    by (auto simp: audio_write_def bindR_Inr_iff split: sum.splits prod.splits)
  have "0 < fb" using ch(2) by (rule mediaFrameBytes_positive)
  from write_frames_sent [OF this _ wf] assms(3) a' w ch n that [of a c fb] show thesis by auto
qed

lemma audio_write_failed:
  assumes "audio_write env id data (a, c) = ((a', c'), Inl e)"
    "requireChannel a = Inr ch" "mediaFrameBytes (channel_format ch) = Inr fb" "invar c"
  shows "a' = a \<and> invar c' \<and> (\<exists>fs rest. sent c' = sent c @ fs \<and> (\<forall>f \<in> set fs. length f = fb) \<and> concat fs @ rest = au_partial a @ data)"
proof (cases "\<exists>r. write_frames env fb (au_partial a @ data) c = (c', r) \<and> a' = a")
  case True
  with write_frames_sent [OF mediaFrameBytes_positive [OF assms(3)] assms(4)] show ?thesis by blast
next
  case False
  with assms have "a' = a" "c' = c"
    by (auto simp: audio_write_def split: sum.splits prod.splits if_splits)
  with assms(4) show ?thesis by (auto intro: exI [of _ "[]"])
qed

end

text \<open>A sequence of writes, each awaited before the next, that all succeed.\<close>

fun write_all :: "'c media_env \<Rightarrow> byte list list \<Rightarrow> audio_stream \<times> 'c \<Rightarrow> (audio_stream \<times> 'c) option" where
  "write_all env [] st = Some st"
| "write_all env (d # ds) st =
     (case audio_write env id d st of (st', Inr n) \<Rightarrow> write_all env ds st' | (st', Inl e) \<Rightarrow> None)"

lemma write_all_sent:
  assumes "media_sink env sent invar" and "requireChannel a = Inr ch" "mediaFrameBytes (channel_format ch) = Inr fb"
    and "write_all env ds (a, c) = Some (a', c')" and "invar c"
  shows "\<exists>fs. sent c' = sent c @ fs \<and> (\<forall>f \<in> set fs. length f = fb)
     \<and> concat fs @ au_partial a' = au_partial a @ concat ds
     \<and> (length (au_partial a) < fb \<longrightarrow> length (au_partial a') < fb)"
  using assms(2-)
proof (induction ds arbitrary: a c)
  case (Cons d ds)
  from Cons.prems obtain a1 c1 n where w: "audio_write env id d (a, c) = ((a1, c1), Inr n)"
    and rest: "write_all env ds (a1, c1) = Some (a', c')"
    by (auto split: prod.splits sum.splits)
  show ?case
  proof (cases "d = []")
    case True
    with w have "a1 = a" "c1 = c" by (auto simp: audio_write_def split: sum.splits)
    with Cons.IH [OF Cons.prems(1,2)] Cons.prems(4) rest True show ?thesis by simp
  next
    case False
    from media_sink.audio_write_sent [OF assms(1) w False] Cons.prems(1,2,4) obtain fs where
      a1: "a1 = a\<lparr>au_partial := au_partial a1\<rparr>"
      and fs: "sent c1 = sent c @ fs" "\<forall>f \<in> set fs. length f = fb"
        "concat fs @ au_partial a1 = au_partial a @ d" "length (au_partial a1) < fb" and inv: "invar c1"
      by (metis Inr_inject Pair_inject id_apply snd_conv)
    have "requireChannel a1 = Inr ch" using Cons.prems(1) by (subst a1) simp
    from Cons.IH [OF this Cons.prems(2) rest inv] obtain gs where
      gs: "sent c' = sent c1 @ gs" "\<forall>f \<in> set gs. length f = fb"
        "concat gs @ au_partial a' = au_partial a1 @ concat ds" "length (au_partial a') < fb"
      using fs(4) by blast
    have "concat (fs @ gs) @ au_partial a' = concat fs @ au_partial a1 @ concat ds" using gs(3) by simp
    also have "\<dots> = (au_partial a @ d) @ concat ds" by (simp only: fs(3) [symmetric] append_assoc)
    finally show ?thesis using fs gs by (intro exI [of _ "fs @ gs"]) auto
  qed
qed simp

text \<open>
  A channel whose writes succeed and fail as scripted and succeed when the script is over; the world
  is the log of the frames and the rest of the script.
\<close>

fun scripted_write :: "media_frame \<Rightarrow> byte list list \<times> bool list \<Rightarrow> (byte list list \<times> bool list) \<times> unit result" where
  "scripted_write f (fs, False # bs) = ((fs, bs), Inl (session_error ''aborted'' ''operation aborted''))"
| "scripted_write f (fs, True # bs) = ((fs @ [frame_data f], bs), Inr ())"
| "scripted_write f (fs, []) = ((fs @ [frame_data f], []), Inr ())"

definition scripted_env :: "(byte list list \<times> bool list) media_env" where
  "scripted_env = \<lparr>env_writeFrame = scripted_write,
     env_clear = None, env_close = (\<lambda>c. (c, Inr ())), env_observe = (\<lambda>_ c. (c, Inr ())),
     env_now = (\<lambda>_. Fin 0), env_signal = (\<lambda>_. NoSignal)\<rparr>"

lemma scripted_env_sel [simp]:
  "env_writeFrame scripted_env = scripted_write" "env_observe scripted_env ob c = (c, Inr ())"
  "env_now scripted_env c = Fin 0" "env_signal scripted_env c = NoSignal"
  by (simp_all add: scripted_env_def)

lemma scripted_sink: "media_sink scripted_env fst (\<lambda>_. True)"
proof
  fix f and c c' :: "byte list list \<times> bool list" and u e
  show "fst c' = fst c @ [frame_data f]" if "env_writeFrame scripted_env f c = (c', Inr u)"
    using that by (cases "(f, c)" rule: scripted_write.cases) auto
  show "fst c' = fst c" if "env_writeFrame scripted_env f c = (c', Inl e)"
    using that by (cases "(f, c)" rule: scripted_write.cases) auto
qed simp_all

text \<open>A bound stream with two-byte frames.\<close>

definition tiny_format :: media_format where
  "tiny_format = L16_format 1000 1 1"

definition bound_audio :: "byte list \<Rightarrow> audio_stream" where
  "bound_audio p = \<lparr>capacityBytes = 8, au_channel = Some \<lparr>channel_ref = 0, channel_id = ''audio'', channel_format = tiny_format, channel_native = False\<rparr>,
     au_format = Some (tiny_format), au_inbound = None, au_current = None, au_currentOffset = 0,
     au_partial = p, au_closed = False\<rparr>"

lemma bound_audio_channel:
  "requireChannel (bound_audio p) = Inr \<lparr>channel_ref = 0, channel_id = ''audio'', channel_format = tiny_format, channel_native = False\<rparr>"
  "mediaFrameBytes (tiny_format) = Inr 2"
  using mediaFrameBytes_L16 [of 1000 1 1]
  by (simp_all add: bound_audio_def requireChannel_def MAX_SAFE_INTEGER_def tiny_format_def)

lemma bound_audio_partial [simp]: "au_partial (bound_audio p) = p" "(bound_audio p)\<lparr>au_partial := q\<rparr> = bound_audio q"
  by (simp_all add: bound_audio_def)

lemma audio_write_bound:
  "audio_write scripted_env id d (bound_audio p, c) =
     (if d = [] then ((bound_audio p, c), Inr 0)
      else case write_frames scripted_env 2 (p @ d) c of
          (c', Inl e) \<Rightarrow> ((bound_audio p, c'), Inl e)
        | (c', Inr rest) \<Rightarrow> ((bound_audio rest, c'), Inr (length d)))"
  by (auto simp: audio_write_def bound_audio_channel split: prod.splits sum.splits)

text \<open>
  Claim C19.  The writer of an audio stream neither loses, reorders nor invents bytes: after a
  sequence of successful writes the frames sent since, each of exactly the frame size, followed by
  the bytes kept for the next frame, are the bytes kept before followed by the bytes written, and
  less than one frame is kept.
\<close>

theorem audio_write_stream:
  assumes "media_sink env sent invar" and "requireChannel a = Inr ch" and "mediaFrameBytes (channel_format ch) = Inr fb"
    and "write_all env ds (a, c) = Some (a', c')" and "invar c"
  shows "\<exists>fs. sent c' = sent c @ fs \<and> (\<forall>f \<in> set fs. length f = fb)
     \<and> concat fs @ au_partial a' = au_partial a @ concat ds
     \<and> (length (au_partial a) < fb \<longrightarrow> length (au_partial a') < fb)"
  using assms by (rule write_all_sent)

theorem audio_write_stream_witness:
  "\<exists>a' fs. write_all scripted_env [[1, 2, 3], [4, 5]] (bound_audio [], ([], [])) = Some (a', (fs, []))
     \<and> concat fs @ au_partial a' = [1, 2, 3, 4, 5] \<and> length (au_partial a') < 2"
proof -
  have "write_all scripted_env [[1, 2, 3], [4, 5]] (bound_audio [], ([], [])) = Some (bound_audio [5], ([[1, 2], [3, 4]], []))"
    by (simp add: audio_write_bound write_frames.simps)
  from audio_write_stream [OF scripted_sink bound_audio_channel(1) _ this TrueI, of 2] bound_audio_channel(2) this
  show ?thesis by auto
qed

text \<open>
  A write that fails after its first frame leaves the stream as it was, although the kept
  bytes were sent: the next write that fills a frame sends them a second time.
\<close>

theorem failed_write_repeats_bytes:
  assumes "media_sink env sent invar" and "requireChannel a = Inr ch" and "mediaFrameBytes (channel_format ch) = Inr fb"
    and "length (au_partial a) < fb" and "invar c"
    and "audio_write env id d1 (a, c) = ((a1, c1), Inl e)" and "sent c1 \<noteq> sent c"
    and "audio_write env id d2 (a1, c1) = ((a2, c2), Inr n)" and "fb \<le> length (au_partial a @ d2)"
  shows "\<exists>fs gs. sent c2 = sent c @ fs @ gs \<and> take (length (au_partial a)) (concat fs) = au_partial a
     \<and> take (length (au_partial a)) (concat gs) = au_partial a"
proof -
  from media_sink.audio_write_failed [OF assms(1,6,2,3,5)] obtain fs rest where
    a1: "a1 = a" and inv: "invar c1" and fs: "sent c1 = sent c @ fs" "\<forall>f \<in> set fs. length f = fb" "concat fs @ rest = au_partial a @ d1"
    by blast
  from assms(4,9) have "d2 \<noteq> []" by auto
  from media_sink.audio_write_sent [OF assms(1,8) this] assms(2,3) a1 inv obtain gs where
    gs: "sent c2 = sent c1 @ gs" "\<forall>f \<in> set gs. length f = fb" "concat gs @ au_partial a2 = au_partial a @ d2"
      "length (au_partial a2) < fb"
    by (metis Inr_inject Pair_inject id_apply snd_conv)
  have "take k xs = ys" if "xs @ zs = ys @ ws" "k = length ys" "length ys \<le> length xs" for k and xs ys zs ws :: "byte list"
    using that by (metis append_eq_conv_conj append_eq_append_conv_if)
  note prefix = this
  have len: "fb \<le> length (concat hs)" if "hs \<noteq> []" "\<forall>f \<in> set hs. length f = fb" for hs :: "byte list list"
    using that by (cases hs) auto
  have "fs \<noteq> []" using fs(1) assms(7) by auto
  moreover have "gs \<noteq> []" using gs(3,4) assms(9) by (auto simp: a1)
  ultimately have "length (au_partial a) \<le> length (concat fs)" "length (au_partial a) \<le> length (concat gs)"
    using len [of fs] len [of gs] fs(2) gs(2) assms(4) by auto
  with prefix [OF fs(3) refl] prefix [OF gs(3) refl] fs(1) gs(1) show ?thesis by auto
qed

theorem failed_write_repeats_bytes_witness:
  "\<exists>c1 c2 e. audio_write scripted_env id [2, 3, 4] (bound_audio [1], ([], [True, False])) = ((bound_audio [1], c1), Inl e)
     \<and> audio_write scripted_env id [5] (bound_audio [1], c1) = ((bound_audio [], c2), Inr 1)
     \<and> fst c2 = [[1, 2], [1, 5]]
     \<and> (\<exists>fs gs. fst c2 = [] @ fs @ gs \<and> take 1 (concat fs) = [1] \<and> take 1 (concat gs) = [1])"
proof -
  have w1: "audio_write scripted_env id [2, 3, 4] (bound_audio [1], ([], [True, False])) =
      ((bound_audio [1], ([[1, 2]], [])), Inl (session_error ''aborted'' ''operation aborted''))"
    by (simp add: audio_write_bound write_frames.simps)
  have w2: "audio_write scripted_env id [5] (bound_audio [1], ([[1, 2]], [])) =
      ((bound_audio [], ([[1, 2], [1, 5]], [])), Inr 1)"
    by (simp add: audio_write_bound write_frames.simps)
  from failed_write_repeats_bytes [OF scripted_sink bound_audio_channel(1) _ _ _ w1 _ w2, of 2] bound_audio_channel(2) w1 w2
  show ?thesis by auto
qed

end
