(* ===== verification/Audio_Reader.thy ===== *)
theory Audio_Reader
  imports Audio
begin

text \<open>
  The inbound half of an audio stream in use: the reader of the channel fills the queue, the callers
  of \<open>read\<close> and \<open>clear\<close> empty it, and \<open>bind\<close>, \<open>close\<close> and aborts come at any time.  Bytes are kept in
  order, and the buffer is bounded by the configured capacity.
\<close>

section \<open>The queue of a single reader and a single writer\<close>

text \<open>
  The reader of the channel waits for its \<open>push\<close> before it reads on, and a \<open>read\<close> waits for the reads
  before it, so at most one writer and one reader wait.
\<close>

definition feed_inv :: "nat \<Rightarrow> media_frame queue \<Rightarrow> bool" where
  "feed_inv fb q \<longleftrightarrow>
     queue_inv q \<and> length (items q) \<le> capacity q \<and> length (writers q) \<le> 1 \<and> length (readers q) \<le> 1
     \<and> (\<forall>f \<in> set (content q). length (frame_data f) = fb)"

definition bytes_of :: "media_frame list \<Rightarrow> byte list" where
  "bytes_of fs = concat (map frame_data fs)"

lemma bytes_of_simps [simp]:
  "bytes_of [] = []" "bytes_of (f # fs) = frame_data f @ bytes_of fs" "bytes_of (fs @ gs) = bytes_of fs @ bytes_of gs"
  by (simp_all add: bytes_of_def)

lemma bytes_of_length: "\<forall>f \<in> set fs. length (frame_data f) = fb \<Longrightarrow> length (bytes_of fs) = length fs * fb"
  by (induction fs) auto

text \<open>
  What each queue operation does to such a queue: the invariant is kept, and the bytes that become
  acknowledged and the bytes that leave balance the stored ones.
\<close>

lemma feed_push:
  assumes inv: "feed_inv fb q" and w: "writers q = []" and f: "length (frame_data f) = fb"
    and p: "push w f NoSignal q = (out, q', es)"
  shows "feed_inv fb q' \<and> capacity q' = capacity q
    \<and> ((\<exists>r. readers q = [r] \<and> out = Returned () \<and> es = [ResolveReader (wid r) f] \<and> readers q' = [] \<and> items q = [] \<and> items q' = [])
       \<or> (readers q = [] \<and> readers q' = [] \<and> es = [] \<and> items q' = items q @ (if out = Returned () then [f] else []) \<and> (\<forall>e. out \<noteq> Threw e))
       \<or> (\<exists>e. out = Threw e \<and> es = [] \<and> q' = q))"
proof (cases "closed q")
  case True
  with p inv show ?thesis by (auto simp: push_def)
next
  case False
  show ?thesis
  proof (cases "readers q")
    case Nil
    with False p inv w f show ?thesis
      by (cases "length (items q) < capacity q") (auto simp: push_def feed_inv_def queue_inv_def content_def)
  next
    case (Cons r rs)
    with inv have "rs = []" "items q = []" by (auto simp: feed_inv_def queue_inv_def)
    with False Cons p inv w show ?thesis by (auto simp: push_def feed_inv_def queue_inv_def content_def)
  qed
qed

lemma feed_shift:
  assumes inv: "feed_inv fb q" and r: "readers q = []" and s: "shift w sig q = (out, q', es)"
  shows "feed_inv fb q' \<and> capacity q' = capacity q \<and> (readers q' = [] \<longleftrightarrow> out \<noteq> Waiting w)
    \<and> items q @ accepted_by es = (case out of Returned f \<Rightarrow> [f] | _ \<Rightarrow> []) @ items q'
    \<and> (case out of Returned f \<Rightarrow> length (frame_data f) = fb | Waiting i \<Rightarrow> i = w \<and> items q' = [] | Threw e \<Rightarrow> items q' = items q)"
proof (cases "throwIfAborted sig")
  case (Inl e)
  with s inv r show ?thesis by (auto simp: shift_def)
next
  case (Inr u)
  show ?thesis
  proof (cases "items q")
    case Nil
    with inv have "writers q = []" by (auto simp: feed_inv_def queue_inv_def)
    with Nil Inr s inv r show ?thesis
      by (auto simp: shift_def feed_inv_def queue_inv_def content_def split: if_splits)
  next
    case items: (Cons v vs)
    show ?thesis
    proof (cases "writers q")
      case Nil
      with items Inr s inv r show ?thesis
        by (auto simp: shift_def admitWriter_def closeReaders_def feed_inv_def queue_inv_def content_def split: if_splits)
    next
      case (Cons x ws)
      with inv have "ws = []" "\<not> closed q" by (auto simp: feed_inv_def queue_inv_def)
      with Cons items Inr s inv r show ?thesis
        by (cases x) (auto simp: shift_def admitWriter_def feed_inv_def queue_inv_def content_def)
    qed
  qed
qed

lemma feed_clear:
  assumes "feed_inv fb q" "clear q = (q', es)"
  shows "feed_inv fb q'" and "capacity q' = capacity q" and "readers q' = readers q"
    and "closed q' = closed q" and "accepted_by es = items q'"
  using assms
  by (auto simp: feed_inv_def clear_eq content_def split: if_splits) (auto simp: queue_inv_def)

lemma feed_close:
  assumes "feed_inv fb q" "close q = (q', es)"
  shows "feed_inv fb q'" and "capacity q' = capacity q" and "readers q' = []" and "items q' = items q" and "closed q'"
  using assms by (auto simp: close_def Let_def feed_inv_def queue_inv_def content_def split: if_splits)

lemma feed_abort:
  assumes inv: "feed_inv fb q" and a: "on_abort s e q = (q', es)"
  shows "feed_inv fb q'" and "capacity q' = capacity q" and "items q' = items q" and "readers q = [] \<Longrightarrow> readers q' = []"
    and "closed q' = closed q"
proof -
  have q': "q' = q\<lparr>readers := filter (\<lambda>r. wsignal r \<noteq> Some s) (readers q),
                   writers := filter (\<lambda>(w, v). wsignal w \<noteq> Some s) (writers q)\<rparr>"
    using a by (simp add: on_abort_def)
  have le: "length (filter P xs) \<le> 1" if "length xs \<le> 1" for P and xs :: "'b list"
    using that by (rule order_trans [OF length_filter_le])
  show "feed_inv fb q'" using inv by (auto simp: q' feed_inv_def queue_inv_def content_def le [simplified])
  show "capacity q' = capacity q" "items q' = items q" "readers q = [] \<Longrightarrow> readers q' = []" "closed q' = closed q" by (simp_all add: q')
qed

section \<open>Runs of a stream\<close>

text \<open>
  The operations of the environment.  \<open>AuFrame\<close> is a frame that the channel delivers to the reader,
  \<open>AuChannelFailed\<close> a rejected \<open>readFrame\<close>.  The log keeps the bytes of the frames that the queue took
  (\<open>ar_received\<close>) and the bytes that left the stream, returned by \<open>read\<close> or dropped by \<open>clear\<close>.
\<close>

datatype audio_op =
    AuBind media_channel
  | AuFrame media_frame
  | AuChannelFailed thrown
  | AuRead js_number signal
  | AuAbort nat thrown
  | AuClear
  | AuClose

record 'c audio_run =
  ar_audio :: audio_stream
  ar_world :: 'c
  ar_pending :: "nat option"
  ar_next :: nat
  ar_received :: "byte list"
  ar_left :: "byte list"

text \<open>The reader is between two frames: bound, not ended, and not waiting for its last push.\<close>

definition reader_idle :: "audio_stream \<Rightarrow> bool" where
  "reader_idle a \<longleftrightarrow> (\<not> au_closed a \<and> (case au_inbound a of None \<Rightarrow> False | Some q \<Rightarrow> writers q = [] \<and> \<not> closed q))"

definition stored :: "audio_stream \<Rightarrow> media_frame list" where
  "stored a = (case au_inbound a of None \<Rightarrow> [] | Some q \<Rightarrow> items q)"

definition inbound_bytes :: "audio_stream \<Rightarrow> byte list" where
  "inbound_bytes a = current_rest a @ bytes_of (stored a)"

text \<open>A read that waited gets its frame.\<close>

definition resume_read :: "media_frame effect list \<Rightarrow> 'c audio_run \<Rightarrow> 'c audio_run" where
  "resume_read es r =
     (case (es, ar_pending r) of
        ([ResolveReader i f], Some n) \<Rightarrow>
          (case read_resume n f (ar_audio r) of (bs, a) \<Rightarrow>
             r\<lparr>ar_audio := a, ar_pending := None, ar_received := ar_received r @ frame_data f, ar_left := ar_left r @ bs\<rparr>)
      | _ \<Rightarrow> r\<lparr>ar_received := ar_received r @ bytes_of (accepted_by es)\<rparr>)"

definition fail_reader :: "thrown \<Rightarrow> 'c audio_run \<Rightarrow> 'c audio_run" where
  "fail_reader e r = (case read_failed e (ar_audio r) of (a, _, _) \<Rightarrow> r\<lparr>ar_audio := a, ar_pending := None\<rparr>)"

fun audio_step :: "'c media_env \<Rightarrow> 'c audio_run \<Rightarrow> audio_op \<Rightarrow> 'c audio_run" where
  "audio_step env r (AuBind ch) = r\<lparr>ar_audio := fst (bind_audio ch (ar_audio r))\<rparr>"
| "audio_step env r (AuFrame f) =
     (if reader_idle (ar_audio r) then
        (case read_turn env (ar_next r) f NoSignal (ar_audio r, ar_world r) of
           (out, (a, c), es) \<Rightarrow>
             (let r1 = r\<lparr>ar_audio := a, ar_world := c, ar_next := Suc (ar_next r)\<rparr> in
              case out of
                Threw e \<Rightarrow> fail_reader e r1
              | Returned _ \<Rightarrow> resume_read es (if es = [] then r1\<lparr>ar_received := ar_received r1 @ frame_data f\<rparr> else r1)
              | Waiting _ \<Rightarrow> r1))
      else r)"
| "audio_step env r (AuChannelFailed e) = (if reader_idle (ar_audio r) then fail_reader e r else r)"
| "audio_step env r (AuRead n sig) =
     (if ar_pending r = None then
        (case audio_read (ar_next r) n sig (ar_audio r) of
           (out, a, es) \<Rightarrow>
             (let r1 = r\<lparr>ar_audio := a, ar_next := Suc (ar_next r), ar_received := ar_received r @ bytes_of (accepted_by es)\<rparr> in
              case out of
                Returned bs \<Rightarrow> r1\<lparr>ar_left := ar_left r1 @ bs\<rparr>
              | Waiting _ \<Rightarrow> r1\<lparr>ar_pending := positive_safe n\<rparr>
              | Threw _ \<Rightarrow> r1))
      else r)"
| "audio_step env r (AuAbort s e) =
     (case au_inbound (ar_audio r) of None \<Rightarrow> r
      | Some q \<Rightarrow> (case on_abort s e q of (q', es) \<Rightarrow>
          r\<lparr>ar_audio := (ar_audio r)\<lparr>au_inbound := Some q'\<rparr>,
            ar_pending := (if readers q' = [] then None else ar_pending r)\<rparr>))"
| "audio_step env r AuClear =
     (case audio_clear env (ar_audio r, ar_world r) of
        ((a, c), Inr n, es) \<Rightarrow>
          r\<lparr>ar_audio := a, ar_world := c, ar_left := ar_left r @ inbound_bytes (ar_audio r),
            ar_received := ar_received r @ bytes_of (accepted_by es)\<rparr>
      | ((a, c), Inl e, es) \<Rightarrow> r\<lparr>ar_audio := a, ar_world := c\<rparr>)"
| "audio_step env r AuClose =
     (case audio_close env (ar_audio r, ar_world r) of
        ((a, c), _, es) \<Rightarrow> r\<lparr>ar_audio := a, ar_world := c, ar_pending := None\<rparr>)"

definition audio_start :: "audio_stream \<Rightarrow> 'c \<Rightarrow> 'c audio_run" where
  "audio_start a c = \<lparr>ar_audio = a, ar_world = c, ar_pending = None, ar_next = 0, ar_received = [], ar_left = []\<rparr>"

definition run_audio :: "'c media_env \<Rightarrow> audio_stream \<Rightarrow> 'c \<Rightarrow> audio_op list \<Rightarrow> 'c audio_run" where
  "run_audio env a c ops = foldl (audio_step env) (audio_start a c) ops"

section \<open>The invariant\<close>

lemma inbound_frames_div:
  assumes "0 < cap" "cap < 2 ^ 53" "0 < fb" "fb < 2 ^ 53"
  shows "inbound_frames cap fb = max 1 (cap div fb)"
  using to_double_quotient [OF assms] by (auto simp: inbound_frames_def)

definition frame_size :: "audio_stream \<Rightarrow> nat" where
  "frame_size a = (case au_channel a of None \<Rightarrow> 0
     | Some ch \<Rightarrow> (case mediaFrameBytes (channel_format ch) of Inl e \<Rightarrow> 0 | Inr n \<Rightarrow> n))"

lemma frame_size_cong [simp]:
  "frame_size (a\<lparr>au_inbound := x\<rparr>) = frame_size a" "frame_size (a\<lparr>au_current := y\<rparr>) = frame_size a"
  "frame_size (a\<lparr>au_currentOffset := n\<rparr>) = frame_size a" "frame_size (a\<lparr>au_partial := p\<rparr>) = frame_size a"
  "frame_size (a\<lparr>au_closed := b\<rparr>) = frame_size a"
  by (simp_all add: frame_size_def)

definition current_ok :: "nat \<Rightarrow> byte list option \<Rightarrow> nat \<Rightarrow> bool" where
  "current_ok fb cur off \<longleftrightarrow> (case cur of None \<Rightarrow> off = 0 | Some d \<Rightarrow> length d = fb \<and> off \<le> fb)"

definition audio_inv :: "audio_stream \<Rightarrow> bool" where
  "audio_inv a \<longleftrightarrow>
     0 < capacityBytes a \<and> capacityBytes a < 2 ^ 53 \<and> current_ok (frame_size a) (au_current a) (au_currentOffset a)
     \<and> (case au_inbound a of
          None \<Rightarrow> au_current a = None
        | Some q \<Rightarrow> 0 < frame_size a \<and> au_format a = map_option channel_format (au_channel a)
            \<and> feed_inv (frame_size a) q \<and> capacity q = inbound_frames (capacityBytes a) (frame_size a)
            \<and> (au_closed a \<longrightarrow> closed q))"

lemma frame_size_positive:
  "0 < frame_size a \<longleftrightarrow> (\<exists>ch fb. au_channel a = Some ch \<and> mediaFrameBytes (channel_format ch) = Inr fb \<and> frame_size a = fb)"
  by (auto simp: frame_size_def mediaFrameBytes_positive split: option.splits sum.splits)

definition audio_run_inv :: "'c audio_run \<Rightarrow> bool" where
  "audio_run_inv r \<longleftrightarrow> audio_inv (ar_audio r)
     \<and> ar_received r = ar_left r @ inbound_bytes (ar_audio r)
     \<and> (case au_inbound (ar_audio r) of None \<Rightarrow> ar_pending r = None
        | Some q \<Rightarrow> (readers q = [] \<longleftrightarrow> ar_pending r = None) \<and> (readers q \<noteq> [] \<longrightarrow> current_rest (ar_audio r) = []))"

lemma mediaFrameBytes_less: "mediaFrameBytes f = Inr n \<Longrightarrow> n < 2 ^ 53"
proof -
  assume "mediaFrameBytes f = Inr n"
  then have "int n \<le> MAX_SAFE_INTEGER"
    by (auto simp: mediaFrameBytes_def bindR_Inr_iff positive_safe_Some_iff split: if_splits option.splits)
  then have "int n < int (2 ^ 53)" by (simp add: MAX_SAFE_INTEGER_def)
  then show ?thesis by (simp only: of_nat_less_iff)
qed

lemma audio_inv_unbound: "audio_inv a \<Longrightarrow> au_channel a = None \<Longrightarrow> au_inbound a = None \<and> au_current a = None \<and> au_currentOffset a = 0"
  by (auto simp: audio_inv_def current_ok_def frame_size_def split: option.splits)

lemma current_rest_cong [simp]:
  "current_rest (a\<lparr>au_inbound := x\<rparr>) = current_rest a" "current_rest (a\<lparr>au_channel := ch\<rparr>) = current_rest a"
  "current_rest (a\<lparr>au_format := f\<rparr>) = current_rest a" "current_rest (a\<lparr>au_partial := p\<rparr>) = current_rest a"
  "current_rest (a\<lparr>au_closed := b\<rparr>) = current_rest a"
  by (simp_all add: current_rest_def split: option.split)

lemma current_rest_None [simp]: "au_current a = None \<Longrightarrow> current_rest a = []"
  by (simp add: current_rest_def)

lemmas audio_run_defs = audio_run_inv_def audio_inv_def inbound_bytes_def stored_def

text \<open>\<open>bufferedInboundBytes\<close> counts the buffered bytes.\<close>

lemma bufferedInboundBytes_length:
  assumes "audio_inv a"
  shows "bufferedInboundBytes a = Inr (length (inbound_bytes a))"
proof (cases "au_inbound a")
  case None
  with assms show ?thesis
    by (auto simp: bufferedInboundBytes_def audio_inv_def inbound_bytes_def stored_def split: option.split)
next
  case (Some q)
  with assms have "0 < frame_size a" "au_format a = map_option channel_format (au_channel a)"
    "\<forall>f \<in> set (items q). length (frame_data f) = frame_size a"
    by (auto simp: audio_inv_def feed_inv_def content_def)
  with Some bytes_of_length [of "items q" "frame_size a"] show ?thesis
    by (auto simp: bufferedInboundBytes_def frame_size_positive inbound_bytes_def stored_def current_rest_def length_queue_def
        split: option.splits)
qed

lemma new_inbound:
  assumes "audio_inv a" "mediaFrameBytes f = Inr fb"
  shows "\<exists>q. new_queue (Fin (of_nat (inbound_frames (capacityBytes a) fb))) = Inr q \<and> feed_inv fb q
     \<and> capacity q = inbound_frames (capacityBytes a) fb \<and> readers q = [] \<and> items q = []"
proof -
  let ?n = "inbound_frames (capacityBytes a) fb"
  have cap: "0 < capacityBytes a" "capacityBytes a < 2 ^ 53" using assms by (auto simp: audio_inv_def)
  have n: "?n = max 1 (capacityBytes a div fb)"
    using inbound_frames_div [OF cap mediaFrameBytes_positive [OF assms(2)] mediaFrameBytes_less [OF assms(2)]] .
  have "capacityBytes a div fb < 2 ^ 53" using cap(2) by (rule le_less_trans [OF div_le_dividend])
  with n have pos: "0 < ?n" and less: "?n < 2 ^ 53" by auto
  from less have "int ?n < int (2 ^ 53)" by (simp only: of_nat_less_iff)
  then have "int ?n \<le> MAX_SAFE_INTEGER" by (simp add: MAX_SAFE_INTEGER_def)
  with pos show ?thesis by (simp add: new_queue_def feed_inv_def queue_inv_def content_def)
qed

lemma bind_keeps:
  assumes inv: "audio_run_inv r"
  shows "audio_run_inv (audio_step env r (AuBind ch))"
proof -
  let ?a = "ar_audio r"
  have ai: "audio_inv ?a" using inv by (simp add: audio_run_inv_def)
  show ?thesis
  proof (cases "au_closed ?a \<or> au_channel ?a \<noteq> None \<or> (\<exists>e. mediaFrameBytes (channel_format ch) = Inl e)
      \<or> (\<exists>f. au_format ?a = Some f \<and> \<not> sameMediaFormat f (channel_format ch))")
    case True
    then have "fst (bind_audio ch ?a) = ?a" by (auto simp: bind_audio_def split: sum.splits option.splits)
    with inv show ?thesis by simp
  next
    case False
    then obtain fb where fb: "mediaFrameBytes (channel_format ch) = Inr fb" by (cases "mediaFrameBytes (channel_format ch)") auto
    note nob = audio_inv_unbound [OF ai] False
    from new_inbound [OF ai fb] obtain q where q: "new_queue (Fin (of_nat (inbound_frames (capacityBytes ?a) fb))) = Inr q"
      "feed_inv fb q" "capacity q = inbound_frames (capacityBytes ?a) fb" "readers q = []" "items q = []" by blast
    let ?a1 = "?a\<lparr>au_channel := Some ch, au_format := Some (channel_format ch)\<rparr>"
    have "fst (bind_audio ch ?a) = (if channel_native ch then ?a1 else ?a1\<lparr>au_inbound := Some q\<rparr>)"
      using False fb q(1) by (auto simp: bind_audio_def Let_def split: option.splits)
    moreover have "frame_size ?a1 = fb" using fb by (simp add: frame_size_def)
    ultimately show ?thesis
      using inv nob q mediaFrameBytes_positive [OF fb]
      by (cases "channel_native ch") (auto simp: audio_run_defs current_ok_def)
  qed
qed

lemma fail_reader_keeps:
  assumes inv: "audio_run_inv r" and open_stream: "\<not> au_closed (ar_audio r)"
  shows "audio_run_inv (fail_reader e r)"
proof (cases "au_inbound (ar_audio r)")
  case None
  with assms show ?thesis by (auto simp: fail_reader_def read_failed_def audio_run_inv_def)
next
  case (Some q)
  obtain q' es where c: "close q = (q', es)" by (metis prod.exhaust)
  have "feed_inv (frame_size (ar_audio r)) q" using inv Some by (simp add: audio_run_inv_def audio_inv_def)
  from feed_close [OF this c] assms Some c show ?thesis
    by (simp add: fail_reader_def read_failed_def audio_run_defs)
qed

lemma close_keeps_audio:
  assumes inv: "audio_run_inv r"
  shows "audio_run_inv (audio_step env r AuClose)"
proof (cases "au_inbound (ar_audio r)")
  case None
  obtain c' x where e: "env_close env (ar_world r) = (c', x)" by (metis prod.exhaust)
  show ?thesis
    using inv None e
    by (cases "au_closed (ar_audio r)"; cases "au_channel (ar_audio r)"; cases x) (simp_all add: audio_close_def audio_close_start_def audio_run_defs)
next
  case (Some q)
  obtain q' es where c: "close q = (q', es)" by (metis prod.exhaust)
  obtain c' x where e: "env_close env (ar_world r) = (c', x)" by (metis prod.exhaust)
  have feed: "feed_inv (frame_size (ar_audio r)) q" using inv Some by (simp add: audio_run_inv_def audio_inv_def)
  show ?thesis
  proof (cases "au_closed (ar_audio r)")
    case True
    then have "readers q = []" using inv Some by (auto simp: audio_run_inv_def audio_inv_def feed_inv_def queue_inv_def)
    with True inv Some show ?thesis by (simp add: audio_close_def audio_run_inv_def)
  next
    case False
    with feed_close [OF feed c] inv Some c e show ?thesis
      by (cases "au_channel (ar_audio r)"; cases x) (simp_all add: audio_close_def audio_close_start_def audio_run_defs)
  qed
qed

lemma abort_keeps_audio:
  assumes inv: "audio_run_inv r"
  shows "audio_run_inv (audio_step env r (AuAbort s e))"
proof (cases "au_inbound (ar_audio r)")
  case None
  with inv show ?thesis by simp
next
  case (Some q)
  obtain q' es where c: "on_abort s e q = (q', es)" by (metis prod.exhaust)
  have feed: "feed_inv (frame_size (ar_audio r)) q" using inv Some by (simp add: audio_run_inv_def audio_inv_def)
  from feed_abort [OF this c] inv Some c show ?thesis by (auto simp: audio_run_defs)
qed

lemma clear_keeps_audio:
  assumes inv: "audio_run_inv r"
  shows "audio_run_inv (audio_step env r AuClear)"
proof -
  let ?cw = "case (au_channel (ar_audio r), env_clear env) of (Some _, Some f) \<Rightarrow> f (ar_world r) | _ \<Rightarrow> (ar_world r, 0)"
  obtain c m where cm: "?cw = (c, m)" by (metis prod.exhaust)
  have buf: "bufferedInboundBytes (ar_audio r) = Inr (length (inbound_bytes (ar_audio r)))"
    using inv by (intro bufferedInboundBytes_length) (simp add: audio_run_inv_def)
  show ?thesis
  proof (cases "au_inbound (ar_audio r)")
    case None
    with buf inv cm show ?thesis by (simp add: audio_clear_def audio_run_defs current_ok_def)
  next
    case (Some q)
    obtain q' es where c: "clear q = (q', es)" by (metis prod.exhaust)
    have "feed_inv (frame_size (ar_audio r)) q" using inv Some by (simp add: audio_run_inv_def audio_inv_def)
    with feed_clear [OF this c] buf inv Some c cm show ?thesis by (simp add: audio_clear_def audio_run_defs current_ok_def)
  qed
qed

lemma cut_current_eq:
  assumes "current_ok fb (au_current a) (au_currentOffset a)"
  shows "cut_current n a = (take n (current_rest a), a\<lparr>au_currentOffset := au_currentOffset a + min n (length (current_rest a))\<rparr>)"
    and "current_ok fb (au_current a) (au_currentOffset a + min n (length (current_rest a)))"
    and "current_rest (a\<lparr>au_currentOffset := au_currentOffset a + min n (length (current_rest a))\<rparr>) = drop n (current_rest a)"
proof -
  let ?d = "case au_current a of None \<Rightarrow> [] | Some d \<Rightarrow> d"
  have rest: "current_rest a = drop (au_currentOffset a) ?d" by (simp add: current_rest_def split: option.split)
  have le: "au_currentOffset a \<le> length ?d" using assms by (auto simp: current_ok_def split: option.splits)
  then have off: "min (au_currentOffset a + n) (length ?d) = au_currentOffset a + min n (length (current_rest a))"
    by (simp add: rest)
  show "cut_current n a = (take n (current_rest a), a\<lparr>au_currentOffset := au_currentOffset a + min n (length (current_rest a))\<rparr>)"
    unfolding cut_current_def Let_def off by (simp add: rest min_def)
  show "current_ok fb (au_current a) (au_currentOffset a + min n (length (current_rest a)))"
    using assms by (auto simp: current_ok_def current_rest_def split: option.splits)
  show "current_rest (a\<lparr>au_currentOffset := au_currentOffset a + min n (length (current_rest a))\<rparr>) = drop n (current_rest a)"
    by (cases "au_current a") (auto simp: current_rest_def min_def add.commute)
qed

text \<open>A read gets a new frame of the queue.\<close>

lemma resumed_keeps:
  assumes inv: "audio_inv (a\<lparr>au_inbound := Some q\<rparr>)" and f: "length (frame_data f) = frame_size a"
    and rr: "read_resume n f (a\<lparr>au_inbound := Some q\<rparr>) = (bs, a')"
  shows "audio_inv a'" and "au_inbound a' = Some q" and "bs @ current_rest a' = frame_data f" and "length bs = min n (frame_size a)"
proof -
  let ?a = "a\<lparr>au_inbound := Some q, au_current := Some (frame_data f), au_currentOffset := 0\<rparr>"
  have ok: "current_ok (frame_size a) (au_current ?a) (au_currentOffset ?a)" using f by (simp add: current_ok_def)
  note cut = cut_current_eq [OF ok, of n]
  have rest: "current_rest ?a = frame_data f" by (simp add: current_rest_def)
  have a': "bs = take n (frame_data f)" "a' = ?a\<lparr>au_currentOffset := min n (length (frame_data f))\<rparr>"
    using rr cut(1) unfolding rest by (auto simp: read_resume_def)
  show "audio_inv a'" using inv cut(2) unfolding rest by (simp add: a' audio_inv_def)
  show "au_inbound a' = Some q" "length bs = min n (frame_size a)" by (simp_all add: a' f min.commute)
  show "bs @ current_rest a' = frame_data f" using cut(3) unfolding rest a' by simp
qed

lemma frame_keeps:
  assumes inv: "audio_run_inv r"
  shows "audio_run_inv (audio_step env r (AuFrame f))"
proof (cases "reader_idle (ar_audio r)")
  case False
  with inv show ?thesis by simp
next
  case idle: True
  let ?a = "ar_audio r"
  from idle obtain q where q: "au_inbound ?a = Some q" "writers q = []" "\<not> au_closed ?a"
    by (auto simp: reader_idle_def split: option.splits)
  have feed: "feed_inv (frame_size ?a) q" and fs: "0 < frame_size ?a" using inv q by (simp_all add: audio_run_inv_def audio_inv_def)
  from fs obtain ch where ch: "au_channel ?a = Some ch" "mediaFrameBytes (channel_format ch) = Inr (frame_size ?a)"
    by (auto simp: frame_size_positive)
  let ?ob = "\<lparr>ob_direction = InDirection, ob_data = frame_data f, ob_ptsMs = frame_ptsMs f, ob_observedAt = env_now env (ar_world r)\<rparr>"
  obtain c x where o: "env_observe env ?ob (ar_world r) = (c, x)" by (metis prod.exhaust)
  have failed: "audio_run_inv (fail_reader e (r\<lparr>ar_audio := ?a, ar_world := c', ar_next := i\<rparr>))" for e c' i
    using inv q by (intro fail_reader_keeps) (simp_all add: audio_run_inv_def)
  have failed': "audio_run_inv (fail_reader e (r\<lparr>ar_next := i\<rparr>))" for e i
    using inv q by (intro fail_reader_keeps) (simp_all add: audio_run_inv_def)
  show ?thesis
  proof (cases "length (frame_data f) = frame_size ?a \<and> x = Inr ()")
    case False
    with ch q o idle failed failed' show ?thesis by (auto simp: read_turn_def Let_def split: sum.splits)
  next
    case True
    obtain out q' es where p: "push (ar_next r) f NoSignal q = (out, q', es)" by (metis prod.exhaust)
    note fp = feed_push [OF feed q(2) conjunct1 [OF True] p]
    have ai: "audio_inv (?a\<lparr>au_inbound := Some q'\<rparr>)" using inv q fp by (simp add: audio_run_inv_def audio_inv_def)
    have turn: "audio_step env r (AuFrame f) =
       (let r1 = r\<lparr>ar_audio := ?a\<lparr>au_inbound := Some q'\<rparr>, ar_world := c, ar_next := Suc (ar_next r)\<rparr> in
        case out of Threw e \<Rightarrow> fail_reader e r1
        | Returned _ \<Rightarrow> resume_read es (if es = [] then r1\<lparr>ar_received := ar_received r1 @ frame_data f\<rparr> else r1)
        | Waiting _ \<Rightarrow> r1)"
      using idle q ch o p True by (simp add: read_turn_def)
    from fp consider (hand) w where "readers q = [w]" "out = Returned ()" "es = [ResolveReader (wid w) f]" "readers q' = []" "items q = []" "items q' = []"
      | (store) "readers q = []" "readers q' = []" "es = []" "items q' = items q @ (if out = Returned () then [f] else [])" "\<forall>e. out \<noteq> Threw e"
      | (fail) e where "out = Threw e" "q' = q" by blast
    then show ?thesis
    proof cases
      case hand
      then obtain n where n: "ar_pending r = Some n" using inv q by (auto simp: audio_run_inv_def)
      obtain bs a' where rr: "read_resume n f (?a\<lparr>au_inbound := Some q'\<rparr>) = (bs, a')" by (metis prod.exhaust)
      have "inbound_bytes ?a = []" using inv q hand by (auto simp: audio_run_inv_def inbound_bytes_def stored_def)
      moreover note resumed_keeps [OF ai conjunct1 [OF True] rr]
      ultimately show ?thesis
        using inv hand n rr unfolding turn by (simp add: resume_read_def Let_def audio_run_inv_def inbound_bytes_def stored_def)
    next
      case store
      then show ?thesis
        using inv q ai unfolding turn
        by (cases out) (auto simp: Let_def resume_read_def audio_run_inv_def inbound_bytes_def stored_def split: option.split)
    next
      case fail
      have "?a\<lparr>au_inbound := Some q\<rparr> = ?a" using q(1) by (cases ?a) simp
      with fail failed show ?thesis unfolding turn by (simp add: Let_def)
    qed
  qed
qed

lemma read_keeps:
  assumes inv: "audio_run_inv r"
  shows "audio_run_inv (audio_step env r (AuRead m sig))"
proof (cases "ar_pending r = None \<and> positive_safe m \<noteq> None \<and> throwIfAborted sig = Inr () \<and> (\<exists>q. requireInbound (ar_audio r) = Inr q)")
  case False
  then show ?thesis
    using inv by (auto simp: audio_read_def audio_run_inv_def split: option.splits sum.splits)
next
  case True
  let ?a = "ar_audio r"
  from True obtain n q where n: "positive_safe m = Some n" and q: "requireInbound ?a = Inr q" by auto
  then have aq: "au_inbound ?a = Some q" by (auto simp: requireInbound_def bindR_Inr_iff split: option.splits)
  have ok: "current_ok (frame_size ?a) (au_current ?a) (au_currentOffset ?a)" and feed: "feed_inv (frame_size ?a) q" and rq: "readers q = []"
    using inv aq True by (auto simp: audio_run_inv_def audio_inv_def)
  show ?thesis
  proof (cases "case au_current ?a of None \<Rightarrow> True | Some d \<Rightarrow> au_currentOffset ?a = length d")
    case False
    with True n q cut_current_eq [OF ok, of n] aq inv rq show ?thesis
      by (simp add: audio_read_def audio_run_inv_def audio_inv_def inbound_bytes_def stored_def del: append_take_drop_id)
        (simp add: append_assoc [symmetric] del: append_assoc)
  next
    case empty: True
    then have rest: "current_rest ?a = []" by (auto simp: current_rest_def split: option.splits)
    obtain out q' es where s: "shift (ar_next r) sig q = (out, q', es)" by (metis prod.exhaust)
    note fs = feed_shift [OF feed rq s]
    have ai: "audio_inv (?a\<lparr>au_inbound := Some q'\<rparr>)"
      using inv aq fs q by (auto simp: audio_run_inv_def audio_inv_def requireInbound_def requireChannel_def bindR_Inr_iff split: if_splits)
    have received: "ar_received r = ar_left r @ bytes_of (items q)" using inv aq rest by (simp add: audio_run_inv_def inbound_bytes_def stored_def)
    have received': "ar_received r @ bytes_of (accepted_by es) = ar_left r @ bytes_of (items q @ accepted_by es)" by (simp add: received)
    show ?thesis
    proof (cases out)
      case (Returned f)
      obtain bs a' where rr: "read_resume n f (?a\<lparr>au_inbound := Some q'\<rparr>) = (bs, a')" by (metis prod.exhaust)
      from fs Returned have f: "length (frame_data f) = frame_size ?a" and it: "items q @ accepted_by es = f # items q'" by auto
      note res = resumed_keeps [OF ai f rr]
      have "bytes_of (items q @ accepted_by es) = (bs @ current_rest a') @ bytes_of (items q')" unfolding it by (simp only: bytes_of_simps res(3))
      then have "ar_received r @ bytes_of (accepted_by es) = ar_left r @ bs @ current_rest a' @ bytes_of (items q')" by (simp add: received)
      moreover have "readers q' = []" using fs Returned by simp
      moreover have "audio_step env r (AuRead m sig) = r\<lparr>ar_audio := a', ar_next := Suc (ar_next r),
          ar_received := ar_received r @ bytes_of (accepted_by es), ar_left := ar_left r @ bs\<rparr>"
        using empty True n q s Returned rr by (simp add: audio_read_def Let_def)
      ultimately show ?thesis using res True by (simp add: audio_run_inv_def inbound_bytes_def stored_def)
    next
      case (Threw e)
      have "audio_step env r (AuRead m sig) = r\<lparr>ar_audio := ?a\<lparr>au_inbound := Some q'\<rparr>, ar_next := Suc (ar_next r),
          ar_received := ar_received r @ bytes_of (accepted_by es)\<rparr>"
        using empty True n q s Threw by (simp add: audio_read_def Let_def)
      with Threw fs ai True received' rest show ?thesis by (simp add: audio_run_inv_def inbound_bytes_def stored_def)
    next
      case (Waiting i)
      have "audio_step env r (AuRead m sig) = r\<lparr>ar_audio := ?a\<lparr>au_inbound := Some q'\<rparr>, ar_next := Suc (ar_next r),
          ar_received := ar_received r @ bytes_of (accepted_by es), ar_pending := Some n\<rparr>"
        using empty True n q s Waiting by (simp add: audio_read_def Let_def)
      with Waiting fs ai True received' rest show ?thesis by (simp add: audio_run_inv_def inbound_bytes_def stored_def)
    qed
  qed
qed

section \<open>Properties of the inbound stream\<close>

lemma audio_step_keeps: "audio_run_inv r \<Longrightarrow> audio_run_inv (audio_step env r opn)"
  by (cases opn)
    (simp_all only: bind_keeps frame_keeps read_keeps abort_keeps_audio clear_keeps_audio close_keeps_audio,
     auto simp: reader_idle_def intro: fail_reader_keeps)

lemma audio_start_inv: "new_audio cap = Inr a \<Longrightarrow> audio_run_inv (audio_start a c)"
proof -
  assume "new_audio cap = Inr a"
  then obtain n where "0 < n" "int n \<le> MAX_SAFE_INTEGER" and
    a: "a = \<lparr>capacityBytes = n, au_channel = None, au_format = None, au_inbound = None, au_current = None,
             au_currentOffset = 0, au_partial = [], au_closed = False\<rparr>"
    by (auto simp: new_audio_def positive_safe_Some_iff split: option.splits)
  then have "int n < int (2 ^ 53)" by (simp add: MAX_SAFE_INTEGER_def)
  then have "n < 2 ^ 53" by (simp only: of_nat_less_iff)
  with \<open>0 < n\<close> show ?thesis by (simp add: a audio_start_def audio_run_defs current_ok_def)
qed

lemma run_audio_inv: "new_audio cap = Inr a \<Longrightarrow> audio_run_inv (run_audio env a c ops)"
proof (induction ops rule: rev_induct)
  case Nil
  then show ?case by (simp add: run_audio_def audio_start_inv)
next
  case (snoc x xs)
  then show ?case by (simp add: run_audio_def audio_step_keeps)
qed

lemma bytes_bound:
  assumes "audio_inv a"
  shows "length (inbound_bytes a) \<le> max (capacityBytes a) (frame_size a) + frame_size a"
proof (cases "au_inbound a")
  case None
  with assms show ?thesis by (simp add: audio_inv_def inbound_bytes_def stored_def)
next
  case (Some q)
  with assms have fs: "0 < frame_size a" and feed: "feed_inv (frame_size a) q" "capacity q = inbound_frames (capacityBytes a) (frame_size a)"
    and cap: "0 < capacityBytes a" "capacityBytes a < 2 ^ 53" by (auto simp: audio_inv_def)
  from fs mediaFrameBytes_less have "frame_size a < 2 ^ 53" by (auto simp: frame_size_positive)
  from inbound_frames_div [OF cap fs this] feed have "length (items q) \<le> max 1 (capacityBytes a div frame_size a)"
    by (simp add: feed_inv_def)
  then have "length (items q) * frame_size a \<le> max 1 (capacityBytes a div frame_size a) * frame_size a" by (rule mult_le_mono1)
  also have "\<dots> = max (frame_size a) (capacityBytes a div frame_size a * frame_size a)" by (simp add: max_def)
  also have "\<dots> \<le> max (capacityBytes a) (frame_size a)" using div_times_less_eq_dividend [of "capacityBytes a" "frame_size a"] by linarith
  finally have "length (bytes_of (items q)) \<le> max (capacityBytes a) (frame_size a)"
    using bytes_of_length [of "items q" "frame_size a"] feed(1) by (simp add: feed_inv_def content_def)
  moreover have "length (current_rest a) \<le> frame_size a"
    using assms by (auto simp: audio_inv_def current_ok_def current_rest_def split: option.splits)
  ultimately show ?thesis using Some by (simp add: inbound_bytes_def stored_def)
qed

lemma capacityBytes_ops:
  "capacityBytes (fst (bind_audio ch a)) = capacityBytes a"
  "capacityBytes (snd (cut_current n a)) = capacityBytes a"
  "capacityBytes (fst (read_failed e a)) = capacityBytes a"
  "capacityBytes (fst (fst (audio_clear env (a, c)))) = capacityBytes a"
  "capacityBytes (fst (fst (audio_close env (a, c)))) = capacityBytes a"
  by (auto simp: bind_audio_def cut_current_def read_failed_def audio_clear_def audio_close_def audio_close_start_def Let_def
      split: sum.splits option.splits prod.splits)

lemma capacityBytes_read:
  "capacityBytes (snd (read_resume n f a)) = capacityBytes a"
  "capacityBytes (fst (snd (audio_read w m sig a))) = capacityBytes a"
  "capacityBytes (fst (fst (snd (read_turn env w f sig (a, c))))) = capacityBytes a"
  by (auto simp: read_resume_def cut_current_def audio_read_def read_turn_def Let_def
      split: sum.splits option.splits prod.splits outcome.splits)

lemma capacityBytes_step: "capacityBytes (ar_audio (audio_step env r opn)) = capacityBytes (ar_audio r)"
proof (cases opn)
  case (AuFrame f)
  have "capacityBytes (ar_audio (fail_reader e s)) = capacityBytes (ar_audio s)" for e and s :: "'a audio_run"
    using capacityBytes_ops(3) [of e "ar_audio s"] by (auto simp: fail_reader_def split: prod.splits)
  moreover have "capacityBytes (ar_audio (resume_read es s)) = capacityBytes (ar_audio s)" for es and s :: "'a audio_run"
    using capacityBytes_read(1) [of _ _ "ar_audio s"]
    by (auto simp: resume_read_def split: prod.splits list.splits effect.splits option.splits) (metis snd_conv)
  moreover note capacityBytes_read(3) [of env "ar_next r" f NoSignal "ar_audio r" "ar_world r"]
  ultimately show ?thesis using AuFrame by (auto simp: Let_def split: prod.splits outcome.splits)
next
  case (AuRead m sig)
  then show ?thesis using capacityBytes_read(2) [of "ar_next r" m sig "ar_audio r"]
    by (auto simp: Let_def split: prod.splits outcome.splits)
next
  case AuClear
  then show ?thesis using capacityBytes_ops(4) [of env "ar_audio r" "ar_world r"] by (auto split: prod.splits sum.splits)
next
  case AuClose
  then show ?thesis using capacityBytes_ops(5) [of env "ar_audio r" "ar_world r"] by (auto split: prod.splits)
next
  case (AuChannelFailed e)
  then show ?thesis using capacityBytes_ops(3) [of e "ar_audio r"] by (auto simp: fail_reader_def split: prod.splits)
qed (auto simp: capacityBytes_ops(1) split: option.splits prod.splits)

lemma capacityBytes_run: "capacityBytes (ar_audio (run_audio env a c ops)) = capacityBytes a"
  by (induction ops rule: rev_induct) (simp_all add: run_audio_def audio_start_def capacityBytes_step)

text \<open>
  Claim C20.  Inbound audio keeps its bytes in order: in every run of binding, received frames, reads,
  clears, aborts and close, the bytes of the frames that the stream took are, in that order, the
  bytes that left it, returned by \<open>read\<close> or dropped by \<open>clear\<close>, followed by the bytes it buffers,
  which \<open>bufferedInboundBytes\<close> counts exactly.
\<close>

theorem audio_read_stream:
  assumes "new_audio cap = Inr a"
  shows "let r = run_audio env a c ops in
     ar_received r = ar_left r @ inbound_bytes (ar_audio r)
     \<and> bufferedInboundBytes (ar_audio r) = Inr (length (inbound_bytes (ar_audio r)))"
  using run_audio_inv [OF assms, of env c ops] by (simp add: audio_run_inv_def Let_def bufferedInboundBytes_length)

text \<open>
  The inbound buffer is bounded: in every run it holds at most the configured capacity, or
  one frame if a frame is larger, and the rest of the frame that is being read.
\<close>

theorem audio_buffer_bounded:
  assumes "new_audio cap = Inr a"
  shows "let b = ar_audio (run_audio env a c ops) in
     \<exists>n. bufferedInboundBytes b = Inr n \<and> n \<le> max (capacityBytes a) (frame_size b) + frame_size b"
  using run_audio_inv [OF assms, of env c ops] bytes_bound [of "ar_audio (run_audio env a c ops)"]
    capacityBytes_run [of env a c ops] by (auto simp: audio_run_inv_def Let_def bufferedInboundBytes_length)

text \<open>A stream of eight bytes over two-byte frames that gets two frames and reads three bytes.\<close>

definition example_ops :: "audio_op list" where
  "example_ops = [AuBind (the (au_channel (bound_audio []))), AuFrame \<lparr>frame_data = [1, 2], frame_ptsMs = None\<rparr>,
     AuFrame \<lparr>frame_data = [3, 4], frame_ptsMs = None\<rparr>, AuRead (jsInt 3) NoSignal]"

lemma example_run:
  "new_audio (Some (jsInt 8)) = Inr ((bound_audio [])\<lparr>au_channel := None, au_format := None\<rparr>)"
  "ar_received (run_audio scripted_env ((bound_audio [])\<lparr>au_channel := None, au_format := None\<rparr>) ([], []) example_ops) = [1, 2, 3, 4]"
  "ar_left (run_audio scripted_env ((bound_audio [])\<lparr>au_channel := None, au_format := None\<rparr>) ([], []) example_ops) = [1, 2]"
proof -
  have ps: "positive_safe (jsInt 8) = Some 8" "positive_safe (jsInt 3) = Some 3" "positive_safe (jsInt 4) = Some 4"
    by (simp_all add: positive_safe_Some_iff MAX_SAFE_INTEGER_def)
  have fr: "inbound_frames 8 2 = 4" by (simp add: inbound_frames_div)
  show "new_audio (Some (jsInt 8)) = Inr ((bound_audio [])\<lparr>au_channel := None, au_format := None\<rparr>)"
    using ps by (simp add: new_audio_def bound_audio_def)
  show "ar_received (run_audio scripted_env ((bound_audio [])\<lparr>au_channel := None, au_format := None\<rparr>) ([], []) example_ops) = [1, 2, 3, 4]"
    "ar_left (run_audio scripted_env ((bound_audio [])\<lparr>au_channel := None, au_format := None\<rparr>) ([], []) example_ops) = [1, 2]"
    using ps fr bound_audio_channel(2)
    by (simp_all add: run_audio_def example_ops_def audio_start_def bound_audio_def bind_audio_def new_queue_def Let_def
        reader_idle_def read_turn_def push_def resume_read_def audio_read_def requireInbound_def requireChannel_def
        shift_def admitWriter_def read_resume_def cut_current_def)
qed

theorem audio_read_stream_witness:
  "let r = run_audio scripted_env ((bound_audio [])\<lparr>au_channel := None, au_format := None\<rparr>) ([], []) example_ops
   in [1, 2, 3, 4] = [1, 2] @ inbound_bytes (ar_audio r)
      \<and> bufferedInboundBytes (ar_audio r) = Inr (length (inbound_bytes (ar_audio r)))"
  using audio_read_stream [OF example_run(1), of scripted_env "([], [])" example_ops] example_run(2,3) by (simp add: Let_def)

theorem audio_buffer_bounded_witness:
  "\<exists>n. bufferedInboundBytes (ar_audio (run_audio scripted_env ((bound_audio [])\<lparr>au_channel := None, au_format := None\<rparr>) ([], []) example_ops)) = Inr n
     \<and> n \<le> max 8 (frame_size (ar_audio (run_audio scripted_env ((bound_audio [])\<lparr>au_channel := None, au_format := None\<rparr>) ([], []) example_ops)))
          + frame_size (ar_audio (run_audio scripted_env ((bound_audio [])\<lparr>au_channel := None, au_format := None\<rparr>) ([], []) example_ops))"
  using audio_buffer_bounded [OF example_run(1), of scripted_env "([], [])" example_ops] by (simp add: Let_def bound_audio_def)

end
