(* ===== verification/Memory.thy ===== *)
theory Memory
  imports Audio_Reader
begin

text \<open>
  \<open>memory.ts\<close>: two transports in one process that share a link.  The queues and the media channels
  are objects that both sides reach, so the link is a store: control and accept queues by side, frame
  queues and channels by the order in which they were created.
\<close>

named_theorems memory_defs \<open>definitions of the memory transport\<close>

section \<open>The link\<close>

record received_control =
  rc_data :: string
  rc_receivedAt :: js_number

text \<open>The \<open>media\<close> set of the link keeps the insertion order; a channel is known by its position.\<close>

record memory_channel =
  mm_id :: string
  mm_format :: media_format
  mm_incoming :: nat
  mm_outgoing :: nat
  mm_closed :: bool

datatype side = Side0 | Side1

fun other :: "side \<Rightarrow> side" where
  "other Side0 = Side1"
| "other Side1 = Side0"

record memory_link =
  ml_controls :: "side \<Rightarrow> received_control queue"
  ml_accept :: "side \<Rightarrow> nat queue"
  ml_frames :: "media_frame queue list"
  ml_media :: "memory_channel list"
  ml_opened :: "side \<Rightarrow> string list"
  ml_closed :: bool

datatype memory_effect =
    ControlEffect side "received_control effect"
  | AcceptEffect side "nat effect"
  | FrameEffect nat "media_frame effect"

abbreviation memory_closed :: thrown where
  "memory_closed \<equiv> session_error ''closed'' ''memory transport is closed''"

definition pair :: "js_number option \<Rightarrow> memory_link result" where
  "pair cap = bindR (new_queue (case cap of None \<Rightarrow> jsInt 64 | Some c \<Rightarrow> c)) (\<lambda>control.
     bindR (new_queue (case cap of None \<Rightarrow> jsInt 64 | Some c \<Rightarrow> c)) (\<lambda>accept.
     Inr \<lparr>ml_controls = (\<lambda>_. control), ml_accept = (\<lambda>_. accept), ml_frames = [], ml_media = [],
          ml_opened = (\<lambda>_. []), ml_closed = False\<rparr>))"

section \<open>Control\<close>

definition control_send ::
  "nat \<Rightarrow> side \<Rightarrow> string \<Rightarrow> js_number \<Rightarrow> signal \<Rightarrow> memory_link \<Rightarrow> unit outcome \<times> memory_link \<times> memory_effect list" where
  "control_send w s data now sig l =
     (if ml_closed l then (Threw memory_closed, l, [])
      else (case push w \<lparr>rc_data = data, rc_receivedAt = now\<rparr> sig (ml_controls l (other s)) of
          (out, q, es) \<Rightarrow> (out, l\<lparr>ml_controls := (ml_controls l)(other s := q)\<rparr>, map (ControlEffect (other s)) es)))"

definition control_receive ::
  "nat \<Rightarrow> side \<Rightarrow> signal \<Rightarrow> memory_link \<Rightarrow> received_control outcome \<times> memory_link \<times> memory_effect list" where
  "control_receive w s sig l =
     (case shift w sig (ml_controls l s) of
        (out, q, es) \<Rightarrow> (out, l\<lparr>ml_controls := (ml_controls l)(s := q)\<rparr>, map (ControlEffect s) es))"

section \<open>Media channels\<close>

text \<open>A frame is copied on its way in and out; bytes are values here, so a copy is the frame itself.\<close>

definition writeFrame ::
  "nat \<Rightarrow> nat \<Rightarrow> media_frame \<Rightarrow> signal \<Rightarrow> memory_link \<Rightarrow> unit outcome \<times> memory_link \<times> memory_effect list" where
  "writeFrame w i frame sig l =
     (let m = ml_media l ! i in
      if mm_closed m then (Threw (session_error ''closed'' ''media channel is closed''), l, [])
      else (case mediaFrameBytes (mm_format m) of
          Inl e \<Rightarrow> (Threw e, l, [])
        | Inr fb \<Rightarrow>
            if length (frame_data frame) \<noteq> fb
            then (Threw (session_error ''media_frame'' ''media frame has the wrong byte length''), l, [])
            else (case push w frame sig (ml_frames l ! mm_outgoing m) of
                (out, q, es) \<Rightarrow> (out, l\<lparr>ml_frames := (ml_frames l)[mm_outgoing m := q]\<rparr>, map (FrameEffect (mm_outgoing m)) es))))"

definition readFrame ::
  "nat \<Rightarrow> nat \<Rightarrow> signal \<Rightarrow> memory_link \<Rightarrow> media_frame outcome \<times> memory_link \<times> memory_effect list" where
  "readFrame w i sig l =
     (let m = ml_media l ! i in
      case shift w sig (ml_frames l ! mm_incoming m) of
        (out, q, es) \<Rightarrow> (out, l\<lparr>ml_frames := (ml_frames l)[mm_incoming m := q]\<rparr>, map (FrameEffect (mm_incoming m)) es))"

definition channel_clear :: "nat \<Rightarrow> memory_link \<Rightarrow> nat result \<times> memory_link \<times> memory_effect list" where
  "channel_clear i l =
     (let m = ml_media l ! i; q = ml_frames l ! mm_incoming m in
      case mediaFrameBytes (mm_format m) of
        Inl e \<Rightarrow> (Inl e, l, [])
      | Inr fb \<Rightarrow> (case clear q of (q', es) \<Rightarrow>
          (Inr (length_queue q * fb), l\<lparr>ml_frames := (ml_frames l)[mm_incoming m := q']\<rparr>, map (FrameEffect (mm_incoming m)) es)))"

definition close_frames :: "nat \<Rightarrow> memory_link \<Rightarrow> memory_link \<times> memory_effect list" where
  "close_frames j l = (case close (ml_frames l ! j) of (q, es) \<Rightarrow>
     (l\<lparr>ml_frames := (ml_frames l)[j := q]\<rparr>, map (FrameEffect j) es))"

definition channel_close :: "nat \<Rightarrow> memory_link \<Rightarrow> memory_link \<times> memory_effect list" where
  "channel_close i l =
     (let m = ml_media l ! i in
      if mm_closed m then (l, [])
      else (let (l1, es) = close_frames (mm_outgoing m) (l\<lparr>ml_media := (ml_media l)[i := m\<lparr>mm_closed := True\<rparr>]\<rparr>);
                (l2, fs) = close_frames (mm_incoming m) l1
            in (l2, es @ fs)))"

section \<open>The transport\<close>

text \<open>
  \<open>openMedia\<close> returns the position of the local channel; the remote one follows it.  When the push to
  the accept queue waits, the call settles with that push.
\<close>

definition openMedia ::
  "nat \<Rightarrow> side \<Rightarrow> string \<Rightarrow> media_format \<Rightarrow> signal \<Rightarrow> memory_link \<Rightarrow> unit outcome \<times> nat \<times> memory_link \<times> memory_effect list" where
  "openMedia w s i format sig l =
     (let n = length (ml_media l) in
      if i = [] then (Threw (session_error ''configuration'' ''media id is required''), n, l, [])
      else (case mediaFrameBytes format of
          Inl e \<Rightarrow> (Threw e, n, l, [])
        | Inr _ \<Rightarrow>
            if ml_closed l then (Threw memory_closed, n, l, [])
            else if i \<in> set (ml_opened l s)
            then (Threw (session_error ''media_duplicate'' (''media '' @ quoted i @ '' is already open'')), n, l, [])
            else (let k = length (ml_frames l);
                      queue32 = \<lparr>capacity = 32, items = [], readers = [], writers = [], closed = False\<rparr>;
                      local = \<lparr>mm_id = i, mm_format = format, mm_incoming = k, mm_outgoing = Suc k, mm_closed = False\<rparr>;
                      remote = \<lparr>mm_id = i, mm_format = format, mm_incoming = Suc k, mm_outgoing = k, mm_closed = False\<rparr>;
                      l1 = l\<lparr>ml_opened := (ml_opened l)(s := ml_opened l s @ [i]), ml_frames := ml_frames l @ [queue32, queue32],
                             ml_media := ml_media l @ [local, remote]\<rparr>
                  in (case push w (Suc n) sig (ml_accept l (other s)) of
                        (out, q, es) \<Rightarrow> (out, n, l1\<lparr>ml_accept := (ml_accept l)(other s := q)\<rparr>, map (AcceptEffect (other s)) es)))))"

definition acceptMedia ::
  "nat \<Rightarrow> side \<Rightarrow> signal \<Rightarrow> memory_link \<Rightarrow> nat outcome \<times> memory_link \<times> memory_effect list" where
  "acceptMedia w s sig l =
     (if ml_closed l then (Threw memory_closed, l, [])
      else (case shift w sig (ml_accept l s) of
          (out, q, es) \<Rightarrow> (out, l\<lparr>ml_accept := (ml_accept l)(s := q)\<rparr>, map (AcceptEffect s) es)))"

fun close_media :: "nat list \<Rightarrow> memory_link \<Rightarrow> memory_link \<times> memory_effect list" where
  "close_media [] l = (l, [])"
| "close_media (i # is) l =
     (let (l1, es) = channel_close i l; (l2, fs) = close_media is l1 in (l2, es @ fs))"

definition transport_close :: "memory_link \<Rightarrow> memory_link \<times> memory_effect list" where
  "transport_close l =
     (if ml_closed l then (l, [])
      else (let c = (\<lambda>s. close (ml_controls l s)); a = (\<lambda>s. close (ml_accept l s));
                l1 = l\<lparr>ml_closed := True, ml_controls := (\<lambda>s. fst (c s)), ml_accept := (\<lambda>s. fst (a s))\<rparr>;
                (l2, es) = close_media [0..<length (ml_media l)] l1
            in (l2, map (ControlEffect Side0) (snd (c Side0)) @ map (ControlEffect Side1) (snd (c Side1))
                    @ map (AcceptEffect Side0) (snd (a Side0)) @ map (AcceptEffect Side1) (snd (a Side1)) @ es)))"

lemmas memory_op_defs [memory_defs] =
  control_send_def control_receive_def writeFrame_def readFrame_def channel_clear_def channel_close_def
  close_frames_def openMedia_def acceptMedia_def transport_close_def

section \<open>Runs of a link\<close>

text \<open>
  Both sides call the operations in any order.  A channel operation names a channel that exists.  An
  abort reaches every waiter that listens to the signal.  The log keeps, per direction, the control
  messages whose \<open>send\<close> was acknowledged and the ones that \<open>receive\<close> returned.
\<close>

datatype memory_op =
    MSend side string js_number signal
  | MReceive side signal
  | MWriteFrame nat media_frame signal
  | MReadFrame nat signal
  | MClearChannel nat
  | MCloseChannel nat
  | MOpenMedia side string media_format signal
  | MAcceptMedia side signal
  | MClose
  | MAbort nat thrown

record memory_run =
  mr_link :: memory_link
  mr_next :: nat
  mr_sent :: "side \<Rightarrow> received_control list"
  mr_received :: "side \<Rightarrow> received_control list"

definition control_effects :: "side \<Rightarrow> memory_effect list \<Rightarrow> received_control effect list" where
  "control_effects s es = concat (map (\<lambda>e. case e of ControlEffect t x \<Rightarrow> if t = s then [x] else [] | _ \<Rightarrow> []) es)"

definition memory_abort :: "nat \<Rightarrow> thrown \<Rightarrow> memory_link \<Rightarrow> memory_link \<times> memory_effect list" where
  "memory_abort s e l =
     (l\<lparr>ml_controls := (\<lambda>t. fst (on_abort s e (ml_controls l t))), ml_accept := (\<lambda>t. fst (on_abort s e (ml_accept l t))),
        ml_frames := map (\<lambda>q. fst (on_abort s e q)) (ml_frames l)\<rparr>,
      map (ControlEffect Side0) (snd (on_abort s e (ml_controls l Side0)))
      @ map (ControlEffect Side1) (snd (on_abort s e (ml_controls l Side1)))
      @ map (AcceptEffect Side0) (snd (on_abort s e (ml_accept l Side0)))
      @ map (AcceptEffect Side1) (snd (on_abort s e (ml_accept l Side1)))
      @ concat (map (\<lambda>j. map (FrameEffect j) (snd (on_abort s e (ml_frames l ! j)))) [0..<length (ml_frames l)]))"

text \<open>The acknowledged message and the received message of an operation, its link and its effects.\<close>

fun exec_memory :: "nat \<Rightarrow> memory_op \<Rightarrow> memory_link \<Rightarrow> (side \<times> received_control) list \<times> (side \<times> received_control) list \<times> memory_link \<times> memory_effect list" where
  "exec_memory w (MSend s d now sig) l =
     (case control_send w s d now sig l of (out, l', es) \<Rightarrow>
        (if out = Returned () then [(other s, \<lparr>rc_data = d, rc_receivedAt = now\<rparr>)] else [], [], l', es))"
| "exec_memory w (MReceive s sig) l =
     (case control_receive w s sig l of (out, l', es) \<Rightarrow> ([], case out of Returned v \<Rightarrow> [(s, v)] | _ \<Rightarrow> [], l', es))"
| "exec_memory w (MWriteFrame i f sig) l =
     (if i < length (ml_media l) then (case writeFrame w i f sig l of (_, l', es) \<Rightarrow> ([], [], l', es)) else ([], [], l, []))"
| "exec_memory w (MReadFrame i sig) l =
     (if i < length (ml_media l) then (case readFrame w i sig l of (_, l', es) \<Rightarrow> ([], [], l', es)) else ([], [], l, []))"
| "exec_memory w (MClearChannel i) l =
     (if i < length (ml_media l) then (case channel_clear i l of (_, l', es) \<Rightarrow> ([], [], l', es)) else ([], [], l, []))"
| "exec_memory w (MCloseChannel i) l =
     (if i < length (ml_media l) then (case channel_close i l of (l', es) \<Rightarrow> ([], [], l', es)) else ([], [], l, []))"
| "exec_memory w (MOpenMedia s i f sig) l = (case openMedia w s i f sig l of (_, _, l', es) \<Rightarrow> ([], [], l', es))"
| "exec_memory w (MAcceptMedia s sig) l = (case acceptMedia w s sig l of (_, l', es) \<Rightarrow> ([], [], l', es))"
| "exec_memory w MClose l = (case transport_close l of (l', es) \<Rightarrow> ([], [], l', es))"
| "exec_memory w (MAbort s e) l = (case memory_abort s e l of (l', es) \<Rightarrow> ([], [], l', es))"

definition for_side :: "side \<Rightarrow> (side \<times> 'a) list \<Rightarrow> 'a list" where
  "for_side s xs = map snd (filter (\<lambda>p. fst p = s) xs)"

definition memory_step :: "memory_run \<Rightarrow> memory_op \<Rightarrow> memory_run" where
  "memory_step r opn =
     (case exec_memory (mr_next r) opn (mr_link r) of
        (acc, rcv, l, es) \<Rightarrow>
          \<lparr>mr_link = l, mr_next = Suc (mr_next r),
           mr_sent = (\<lambda>s. mr_sent r s @ for_side s acc @ accepted_by (control_effects s es)),
           mr_received = (\<lambda>s. mr_received r s @ for_side s rcv @ delivered_by (control_effects s es))\<rparr>)"

definition memory_start :: "memory_link \<Rightarrow> memory_run" where
  "memory_start l = \<lparr>mr_link = l, mr_next = 0, mr_sent = (\<lambda>_. []), mr_received = (\<lambda>_. [])\<rparr>"

definition run_memory :: "memory_link \<Rightarrow> memory_op list \<Rightarrow> memory_run" where
  "run_memory l ops = foldl memory_step (memory_start l) ops"

section \<open>A control direction is one queue\<close>

text \<open>
  What an operation of the link is to the queue that carries the messages to side \<open>s\<close>.  An operation
  that does not touch it is a \<open>shift\<close> with an aborted signal, which throws and changes nothing.
\<close>

abbreviation untouched :: "'v op" where
  "untouched \<equiv> Shift (AbortedSignal (JsError ''untouched''))"

fun control_view :: "side \<Rightarrow> memory_op \<Rightarrow> received_control op" where
  "control_view s (MSend t d now sig) = (if other t = s then Push \<lparr>rc_data = d, rc_receivedAt = now\<rparr> sig else untouched)"
| "control_view s (MReceive t sig) = (if t = s then Shift sig else untouched)"
| "control_view s MClose = Close"
| "control_view s (MAbort i e) = Abort i e"
| "control_view s _ = untouched"

definition link_inv :: "memory_link \<Rightarrow> bool" where
  "link_inv l \<longleftrightarrow> (ml_closed l \<longrightarrow> (\<forall>s. closed (ml_controls l s) \<and> closed (ml_accept l s)))"

lemma close_frames_controls [simp]:
  "ml_controls (fst (close_frames j l)) = ml_controls l" "ml_accept (fst (close_frames j l)) = ml_accept l"
  "ml_closed (fst (close_frames j l)) = ml_closed l" "control_effects s (snd (close_frames j l)) = []"
  by (simp_all add: close_frames_def control_effects_def o_def split: prod.split)

lemma control_effects_simps [simp]:
  "control_effects s [] = []" "control_effects s (es @ fs) = control_effects s es @ control_effects s fs"
  "control_effects s (map (ControlEffect t) xs) = (if t = s then xs else [])"
  "control_effects s (map (AcceptEffect t) ys) = []" "control_effects s (map (FrameEffect j) zs) = []"
  by (simp_all add: control_effects_def o_def)

lemma channel_close_controls [simp]:
  "ml_controls (fst (channel_close i l)) = ml_controls l" "ml_accept (fst (channel_close i l)) = ml_accept l"
  "ml_closed (fst (channel_close i l)) = ml_closed l" "control_effects s (snd (channel_close i l)) = []"
  by (simp_all add: channel_close_def Let_def case_prod_unfold)

lemma close_media_controls [simp]:
  "ml_controls (fst (close_media is l)) = ml_controls l" "ml_accept (fst (close_media is l)) = ml_accept l"
  "ml_closed (fst (close_media is l)) = ml_closed l" "control_effects s (snd (close_media is l)) = []"
  by (induction "is" arbitrary: l) (simp_all add: Let_def case_prod_unfold)

lemma frame_abort_effects [simp]: "control_effects s (concat (map (\<lambda>j. map (FrameEffect j) (f j)) js)) = []"
  by (induction js) simp_all

lemma transport_close_simps:
  "\<not> ml_closed l \<Longrightarrow> ml_controls (fst (transport_close l)) = (\<lambda>s. fst (close (ml_controls l s)))"
  "\<not> ml_closed l \<Longrightarrow> ml_accept (fst (transport_close l)) = (\<lambda>s. fst (close (ml_accept l s)))"
  "\<not> ml_closed l \<Longrightarrow> control_effects s (snd (transport_close l)) = snd (close (ml_controls l s))"
  "ml_closed (fst (transport_close l))"
  by (cases s; simp add: transport_close_def Let_def case_prod_unfold)+

lemma closed_kept:
  "closed q \<Longrightarrow> closed (fst (snd (push w v sig q)))" "closed q \<Longrightarrow> closed (fst (snd (shift w sig q)))"
  "closed q \<Longrightarrow> closed (fst (on_abort s e q))" "closed (fst (close q))"
  by (auto simp: push_def shift_def admitWriter_def closeReaders_def on_abort_def close_def Let_def
      split: sum.splits list.splits prod.splits)

lemma other_eq [simp]: "other s = t \<longleftrightarrow> s = other t"
  by (cases s; cases t) auto

lemma other_other [simp]: "other (other s) = s"
  by (cases s) auto

lemma for_side_simps [simp]: "for_side s [] = []" "for_side s ((t, x) # xs) = (if t = s then x # for_side s xs else for_side s xs)"
  by (auto simp: for_side_def)

lemma shift_aborted [simp]: "shift w (AbortedSignal e) q = (Threw (aborted (AbortedSignal e)), q, [])"
  by (simp add: shift_def)

text \<open>Operations of a media channel leave the control side alone.\<close>

definition control_same :: "memory_link \<Rightarrow> memory_link \<times> memory_effect list \<Rightarrow> bool" where
  "control_same l = (\<lambda>(l', es). ml_controls l' = ml_controls l \<and> ml_accept l' = ml_accept l \<and> ml_closed l' = ml_closed l
     \<and> (\<forall>s. control_effects s es = []))"

lemma control_same_ops:
  "control_same l (snd (writeFrame w i f sig l))" "control_same l (snd (readFrame w i sig l))"
  "control_same l (snd (channel_clear i l))" "control_same l (channel_close i l)"
  by (simp_all add: control_same_def writeFrame_def readFrame_def channel_clear_def case_prod_unfold Let_def split: sum.split)

lemma control_same_step:
  "control_same l (l', es) \<Longrightarrow> link_inv l \<Longrightarrow> link_inv l' \<and> ml_controls l' = ml_controls l \<and> control_effects s es = []"
  by (simp add: control_same_def link_inv_def)

text \<open>Every operation of the link is one queue operation on each control direction.\<close>

lemma memory_control_step:
  assumes "link_inv l" "exec_memory w opn l = (acc, rcv, l', es)"
  shows "link_inv l'" (is ?inv)
    and "exec_op w (control_view s opn) (ml_controls l s) = (for_side s acc, for_side s rcv, ml_controls l' s, control_effects s es)" (is ?sim)
proof -
  have "?inv \<and> ?sim"
  proof (cases opn)
    case (MSend t d now sig)
    let ?v = "\<lparr>rc_data = d, rc_receivedAt = now\<rparr>"
    obtain out q fs where p: "push w ?v sig (ml_controls l (other t)) = (out, q, fs)" by (metis prod.exhaust)
    show ?thesis
    proof (cases "ml_closed l")
      case True
      then have "closed (ml_controls l (other t))" using assms by (simp add: link_inv_def)
      then have "push w ?v sig (ml_controls l (other t)) = (out, q, fs) \<Longrightarrow> q = ml_controls l (other t) \<and> fs = [] \<and> out \<noteq> Returned ()"
        by (auto simp: push_def split: sum.splits)
      with p True MSend assms show ?thesis by (auto simp: control_send_def)
    next
      case False
      with p MSend assms show ?thesis by (auto simp: control_send_def link_inv_def)
    qed
  next
    case (MReceive t sig)
    with assms closed_kept(2) [of "ml_controls l t" w sig] show ?thesis
      by (auto simp: control_receive_def link_inv_def split: prod.splits outcome.splits)
  next
    case (MWriteFrame i f sig)
    then show ?thesis using assms control_same_ops(1) [of l w i f sig] control_same_step [of l l' es s]
      by (cases "i < length (ml_media l)") (auto split: prod.splits)
  next
    case (MReadFrame i sig)
    then show ?thesis using assms control_same_ops(2) [of l w i sig] control_same_step [of l l' es s]
      by (cases "i < length (ml_media l)") (auto split: prod.splits)
  next
    case (MClearChannel i)
    then show ?thesis using assms control_same_ops(3) [of l i] control_same_step [of l l' es s]
      by (cases "i < length (ml_media l)") (auto split: prod.splits)
  next
    case (MCloseChannel i)
    then show ?thesis using assms control_same_ops(4) [of l i] control_same_step [of l l' es s]
      by (cases "i < length (ml_media l)") (auto split: prod.splits)
  next
    case (MOpenMedia t i f sig)
    with assms show ?thesis
      by (auto simp: openMedia_def Let_def link_inv_def split: if_splits prod.splits sum.splits)
  next
    case (MAcceptMedia t sig)
    with assms show ?thesis by (auto simp: acceptMedia_def link_inv_def split: if_splits prod.splits)
  next
    case MClose
    show ?thesis
    proof (cases "ml_closed l")
      case True
      then have "closed (ml_controls l s)" using assms by (simp add: link_inv_def)
      with True MClose assms show ?thesis by (auto simp: transport_close_def close_def)
    next
      case False
      with MClose assms transport_close_simps [of l] show ?thesis
        by (auto simp: link_inv_def closed_kept(4) split: prod.splits)
    qed
  next
    case (MAbort i e)
    with assms show ?thesis
      by (cases s) (auto simp: memory_abort_def link_inv_def closed_kept(3) split: prod.splits)
  qed
  then show ?inv ?sim by simp_all
qed

lemma pair_link:
  assumes "pair cap = Inr l"
  shows "\<exists>n. 0 < n \<and> link_inv l \<and> positive_safe (case cap of None \<Rightarrow> jsInt 64 | Some c \<Rightarrow> c) = Some n
     \<and> (\<forall>s. ml_controls l s = rq (start n))"
  using assms by (auto simp: pair_def new_queue_def bindR_Inr_iff link_inv_def start_def positive_safe_Some_iff split: option.splits)

lemma run_memory_control:
  assumes "pair cap = Inr l" "positive_safe (case cap of None \<Rightarrow> jsInt 64 | Some c \<Rightarrow> c) = Some n"
  shows "link_inv (mr_link (run_memory l ops)) \<and> mr_next (run_memory l ops) = next_id (run_ops n (map (control_view s) ops))
     \<and> ml_controls (mr_link (run_memory l ops)) s = rq (run_ops n (map (control_view s) ops))
     \<and> mr_sent (run_memory l ops) s = accepted (run_ops n (map (control_view s) ops))
     \<and> mr_received (run_memory l ops) s = emitted (run_ops n (map (control_view s) ops))"
proof (induction ops rule: rev_induct)
  case Nil
  from pair_link [OF assms(1)] assms(2) show ?case by (auto simp: run_memory_def memory_start_def run_ops_def start_def)
next
  case (snoc x xs)
  let ?r = "run_memory l xs" and ?q = "run_ops n (map (control_view s) xs)"
  obtain acc rcv l' es where ex: "exec_memory (mr_next ?r) x (mr_link ?r) = (acc, rcv, l', es)" by (metis prod.exhaust)
  have link: "link_inv (mr_link ?r)" and next_eq: "mr_next ?r = next_id ?q" and q: "ml_controls (mr_link ?r) s = rq ?q" using snoc by blast+
  have "link_inv l'" using link ex by (rule memory_control_step(1))
  moreover have "exec_op (next_id ?q) (control_view s x) (rq ?q) = (for_side s acc, for_side s rcv, ml_controls l' s, control_effects s es)"
    using memory_control_step(2) [OF link ex, of s] by (simp only: next_eq q)
  ultimately show ?case using snoc ex by (simp add: run_memory_def run_ops_def memory_step_def step_def)
qed

text \<open>
  Claim C21.  Each direction of the control channel of a memory link refines one \<open>AsyncQueue\<close> of the
  configured capacity: whatever both sides do, the queue of a direction and the messages sent and
  received over it are those of the queue that runs the pushes, shifts, aborts and closes of that
  direction.
\<close>

theorem memory_control_refines_queue:
  assumes "pair cap = Inr l" and "positive_safe (case cap of None \<Rightarrow> jsInt 64 | Some c \<Rightarrow> c) = Some n"
  shows "let r = run_memory l ops; q = run_ops n (map (control_view s) ops) in
     ml_controls (mr_link r) s = rq q \<and> mr_sent r s = accepted q \<and> mr_received r s = emitted q"
  using run_memory_control [OF assms] by (simp add: Let_def)

lemma pair_64: "\<exists>l. pair None = Inr l"
proof -
  have "positive_safe (jsInt 64) = Some 64" by (simp add: positive_safe_Some_iff MAX_SAFE_INTEGER_def)
  then show ?thesis by (simp add: pair_def new_queue_def)
qed

theorem memory_control_refines_queue_witness:
  "\<exists>l. pair None = Inr l \<and>
     (let r = run_memory l [MSend Side0 ''hello'' (Fin 0) NoSignal]; q = run_ops 64 [Push \<lparr>rc_data = ''hello'', rc_receivedAt = Fin 0\<rparr> NoSignal]
      in ml_controls (mr_link r) Side1 = rq q \<and> mr_sent r Side1 = accepted q \<and> mr_received r Side1 = emitted q)"
proof -
  obtain l where l: "pair None = Inr l" using pair_64 by blast
  have "positive_safe (case None of None \<Rightarrow> jsInt 64 | Some c \<Rightarrow> c) = Some 64" by (simp add: positive_safe_Some_iff MAX_SAFE_INTEGER_def)
  from memory_control_refines_queue [OF l this, of "[MSend Side0 ''hello'' (Fin 0) NoSignal]" Side1] l show ?thesis by auto
qed

text \<open>
  The memory transport delivers control messages in order and exactly once: in every run
  the messages whose send to a side was acknowledged are, in that order, the ones received there
  followed by the ones still queued.
\<close>

theorem memory_control_in_order:
  assumes "pair cap = Inr l"
  shows "mr_sent (run_memory l ops) s
     = mr_received (run_memory l ops) s @ items (ml_controls (mr_link (run_memory l ops)) s)"
proof -
  from pair_link [OF assms] obtain n where n: "0 < n" "positive_safe (case cap of None \<Rightarrow> jsInt 64 | Some c \<Rightarrow> c) = Some n" by blast
  from run_inv_run [OF n(1), of "map (control_view s) ops"] run_memory_control [OF assms n(2), of ops s] show ?thesis
    by (simp add: run_inv_def)
qed

theorem memory_control_in_order_witness:
  "\<exists>l. pair None = Inr l \<and>
     (let r = run_memory l [MSend Side0 ''a'' (Fin 0) NoSignal, MSend Side0 ''b'' (Fin 0) NoSignal, MReceive Side1 NoSignal]
      in map rc_data (mr_sent r Side1) = [''a'', ''b''] \<and> map rc_data (mr_received r Side1) = [''a'']
         \<and> mr_sent r Side1 = mr_received r Side1 @ items (ml_controls (mr_link r) Side1))"
proof -
  obtain l where l: "pair None = Inr l" using pair_64 by blast
  let ?ops = "[MSend Side0 ''a'' (Fin 0) NoSignal, MSend Side0 ''b'' (Fin 0) NoSignal, MReceive Side1 NoSignal]"
  have "positive_safe (case None of None \<Rightarrow> jsInt 64 | Some c \<Rightarrow> c) = Some 64" by (simp add: positive_safe_Some_iff MAX_SAFE_INTEGER_def)
  from run_memory_control [OF l this, of ?ops Side1]
  have "mr_sent (run_memory l ?ops) Side1 = accepted (run_ops 64 (map (control_view Side1) ?ops))"
    "mr_received (run_memory l ?ops) Side1 = emitted (run_ops 64 (map (control_view Side1) ?ops))" by simp_all
  then have "map rc_data (mr_sent (run_memory l ?ops) Side1) = [''a'', ''b'']" "map rc_data (mr_received (run_memory l ?ops) Side1) = [''a'']"
    by (simp_all add: run_ops_def step_def start_def push_def shift_def admitWriter_def)
  with memory_control_in_order [OF l, of ?ops Side1] l show ?thesis by (auto simp: Let_def)
qed

section \<open>Media channels of a link\<close>

text \<open>
  Channels come in pairs at positions \<open>2k\<close> and \<open>2k + 1\<close>; channel \<open>i\<close> reads queue \<open>i\<close> and writes the queue
  that its peer reads.
\<close>

definition peer :: "nat \<Rightarrow> nat" where
  "peer i = (if even i then Suc i else i - 1)"

definition frame_ok :: "nat \<Rightarrow> media_frame queue \<Rightarrow> bool" where
  "frame_ok fb q \<longleftrightarrow> queue_inv q \<and> (\<forall>f \<in> set (content q). length (frame_data f) = fb)"

definition channel_ok :: "memory_link \<Rightarrow> nat \<Rightarrow> bool" where
  "channel_ok l i \<longleftrightarrow>
     mm_incoming (ml_media l ! i) = i \<and> mm_outgoing (ml_media l ! i) = peer i
     \<and> mm_format (ml_media l ! peer i) = mm_format (ml_media l ! i)
     \<and> (\<exists>fb. mediaFrameBytes (mm_format (ml_media l ! i)) = Inr fb \<and> frame_ok fb (ml_frames l ! i))
     \<and> (mm_closed (ml_media l ! i) \<longrightarrow> closed (ml_frames l ! i) \<and> closed (ml_frames l ! peer i))"

definition media_ok :: "memory_link \<Rightarrow> bool" where
  "media_ok l \<longleftrightarrow> length (ml_frames l) = length (ml_media l) \<and> even (length (ml_media l))
     \<and> (\<forall>i < length (ml_media l). channel_ok l i)"

definition closed_ok :: "memory_link \<Rightarrow> bool" where
  "closed_ok l \<longleftrightarrow> (ml_closed l \<longrightarrow> (\<forall>i < length (ml_media l). mm_closed (ml_media l ! i)))"

lemma peer_simps [simp]: "peer (peer i) = i" "peer i \<noteq> i" "i \<noteq> peer i"
  by (auto simp: peer_def elim!: oddE)

lemma peer_less: "even n \<Longrightarrow> peer i < n \<longleftrightarrow> i < n"
  by (auto simp: peer_def elim!: evenE oddE)

text \<open>The queue operations keep the size of the frames.\<close>

lemma frame_ok_ops:
  assumes "frame_ok fb q"
  shows "length (frame_data f) = fb \<Longrightarrow> frame_ok fb (fst (snd (push w f sig q)))"
    and "frame_ok fb (fst (snd (shift w sig q)))" and "frame_ok fb (fst (clear q))"
    and "frame_ok fb (fst (close q))" and "frame_ok fb (fst (on_abort s e q))"
proof -
  have inv: "queue_inv q" and len: "\<forall>f \<in> set (content q). length (frame_data f) = fb" using assms by (simp_all add: frame_ok_def)
  show "length (frame_data f) = fb \<Longrightarrow> frame_ok fb (fst (snd (push w f sig q)))"
    using exec_op_keeps [OF inv, of w "Push f sig"] len
    by (auto simp: frame_ok_def op_keeps_def content_def push_def split: sum.splits list.splits if_splits prod.splits)
  show "frame_ok fb (fst (snd (shift w sig q)))"
    using exec_op_keeps [OF inv, of w "Shift sig"] len
    by (auto simp: frame_ok_def op_keeps_def content_def shift_def admitWriter_def closeReaders_def
        split: sum.splits list.splits if_splits prod.splits)
  show "frame_ok fb (fst (clear q))"
    using exec_op_keeps [OF inv, of w Clear] len
    by (auto simp: frame_ok_def op_keeps_def content_def clear_eq [OF inv] split: prod.splits if_splits)
  show "frame_ok fb (fst (close q))"
    using exec_op_keeps [OF inv, of w Close] len
    by (auto simp: frame_ok_def op_keeps_def content_def close_def Let_def split: prod.splits if_splits)
  show "frame_ok fb (fst (on_abort s e q))"
    using exec_op_keeps [OF inv, of w "Abort s e"] len
    by (auto simp: frame_ok_def op_keeps_def content_def on_abort_def split: prod.splits)
qed

lemma clear_closed: "queue_inv q \<Longrightarrow> closed (fst (clear q)) = closed q"
  by (simp add: clear_eq)

lemma media_ok_update:
  assumes ok: "media_ok l" and j: "j < length (ml_media l)"
    and q: "\<And>fb. frame_ok fb (ml_frames l ! j) \<Longrightarrow> mediaFrameBytes (mm_format (ml_media l ! j)) = Inr fb \<Longrightarrow> frame_ok fb q"
      "closed (ml_frames l ! j) \<Longrightarrow> closed q"
  shows "media_ok (l\<lparr>ml_frames := (ml_frames l)[j := q]\<rparr>)"
proof -
  have len: "length (ml_frames l) = length (ml_media l)" "even (length (ml_media l))" using ok by (simp_all add: media_ok_def)
  have "channel_ok (l\<lparr>ml_frames := (ml_frames l)[j := q]\<rparr>) i" if i: "i < length (ml_media l)" for i
  proof -
    have c: "channel_ok l i" using ok i by (simp add: media_ok_def)
    then show ?thesis
      using q i j len peer_less [OF len(2), of i] unfolding channel_ok_def by (cases "i = j"; cases "peer i = j") (auto simp: nth_list_update)
  qed
  with ok show ?thesis by (simp add: media_ok_def)
qed

lemma media_okE:
  assumes "media_ok l" "i < length (ml_media l)"
  obtains fb where "mm_incoming (ml_media l ! i) = i" "mm_outgoing (ml_media l ! i) = peer i"
    "mediaFrameBytes (mm_format (ml_media l ! i)) = Inr fb" "frame_ok fb (ml_frames l ! i)" "frame_ok fb (ml_frames l ! peer i)"
    "mm_format (ml_media l ! peer i) = mm_format (ml_media l ! i)" "peer i < length (ml_media l)"
proof -
  have "even (length (ml_media l))" using assms by (simp add: media_ok_def)
  then have p: "peer i < length (ml_media l)" using assms by (simp add: peer_less)
  then have "channel_ok l i" "channel_ok l (peer i)" using assms by (simp_all add: media_ok_def)
  with that p show thesis unfolding channel_ok_def by auto
qed

lemma write_media_ok:
  assumes "media_ok l" "i < length (ml_media l)"
  shows "media_ok (fst (snd (writeFrame w i f sig l)))"
proof -
  from assms obtain fb where i: "mm_outgoing (ml_media l ! i) = peer i" "mediaFrameBytes (mm_format (ml_media l ! i)) = Inr fb"
    "frame_ok fb (ml_frames l ! peer i)" "mm_format (ml_media l ! peer i) = mm_format (ml_media l ! i)" "peer i < length (ml_media l)"
    by (rule media_okE)
  have "media_ok (l\<lparr>ml_frames := (ml_frames l)[peer i := fst (snd (push w f sig (ml_frames l ! peer i)))]\<rparr>)" if "length (frame_data f) = fb"
    using i that frame_ok_ops(1) [of fb "ml_frames l ! peer i" f w sig] closed_kept(1) by (intro media_ok_update [OF assms(1)]) auto
  with assms(1) i show ?thesis by (auto simp: writeFrame_def Let_def case_prod_unfold)
qed

lemma read_media_ok:
  assumes "media_ok l" "i < length (ml_media l)"
  shows "media_ok (fst (snd (readFrame w i sig l)))"
proof -
  from assms obtain fb where i: "mm_incoming (ml_media l ! i) = i" by (rule media_okE)
  have "media_ok (l\<lparr>ml_frames := (ml_frames l)[i := fst (snd (shift w sig (ml_frames l ! i)))]\<rparr>)"
    using frame_ok_ops(2) closed_kept(2) by (intro media_ok_update [OF assms]) blast+
  with i show ?thesis by (simp add: readFrame_def Let_def case_prod_unfold)
qed

lemma clear_media_ok:
  assumes "media_ok l" "i < length (ml_media l)"
  shows "media_ok (fst (snd (channel_clear i l)))"
proof -
  from assms obtain fb where i: "mm_incoming (ml_media l ! i) = i" "mediaFrameBytes (mm_format (ml_media l ! i)) = Inr fb" "frame_ok fb (ml_frames l ! i)"
    by (rule media_okE)
  have "closed (fst (clear (ml_frames l ! i))) = closed (ml_frames l ! i)" using i by (intro clear_closed) (simp add: frame_ok_def)
  then have "media_ok (l\<lparr>ml_frames := (ml_frames l)[i := fst (clear (ml_frames l ! i))]\<rparr>)"
    using frame_ok_ops(3) by (intro media_ok_update [OF assms]) blast+
  with i show ?thesis by (simp add: channel_clear_def Let_def case_prod_unfold)
qed

lemma close_frames_ok:
  assumes "media_ok l" "j < length (ml_media l)"
  shows "media_ok (fst (close_frames j l))"
  using media_ok_update [OF assms, of "fst (close (ml_frames l ! j))"] frame_ok_ops(4) closed_kept(4)
  by (auto simp: close_frames_def case_prod_unfold)

lemma close_frames_sel [simp]:
  "ml_media (fst (close_frames j l)) = ml_media l" "length (ml_frames (fst (close_frames j l))) = length (ml_frames l)"
  "j < length (ml_frames l) \<Longrightarrow> closed (ml_frames (fst (close_frames j l)) ! j)"
  "closed (ml_frames l ! k) \<Longrightarrow> j < length (ml_frames l) \<Longrightarrow> closed (ml_frames (fst (close_frames j l)) ! k)"
  by (auto simp: close_frames_def case_prod_unfold nth_list_update closed_kept(4))

text \<open>\<open>close\<close> of a channel closes both queues and marks the channel closed.\<close>

lemma channel_close_eq:
  "fst (channel_close i l) =
     (if mm_closed (ml_media l ! i) then l
      else (fst (close_frames (mm_incoming (ml_media l ! i)) (fst (close_frames (mm_outgoing (ml_media l ! i)) l))))
             \<lparr>ml_media := (ml_media l)[i := (ml_media l ! i)\<lparr>mm_closed := True\<rparr>]\<rparr>)"
  by (simp add: channel_close_def close_frames_def Let_def case_prod_unfold)

lemma media_ok_mark:
  assumes ok: "media_ok l" and i: "i < length (ml_media l)" and cl: "closed (ml_frames l ! i)" "closed (ml_frames l ! peer i)"
  shows "media_ok (l\<lparr>ml_media := (ml_media l)[i := (ml_media l ! i)\<lparr>mm_closed := True\<rparr>]\<rparr>)"
proof -
  have ev: "even (length (ml_media l))" using ok by (simp add: media_ok_def)
  have "channel_ok (l\<lparr>ml_media := (ml_media l)[i := (ml_media l ! i)\<lparr>mm_closed := True\<rparr>]\<rparr>) k" if k: "k < length (ml_media l)" for k
  proof -
    have "channel_ok l k" "peer k < length (ml_media l)" using ok k peer_less [OF ev] by (simp_all add: media_ok_def)
    then show ?thesis using cl k i unfolding channel_ok_def by (cases "i = k"; cases "i = peer k") (auto simp: nth_list_update)
  qed
  with ok show ?thesis by (simp add: media_ok_def)
qed

lemma close_media_ok:
  assumes ok: "media_ok l" and i: "i < length (ml_media l)"
  shows "media_ok (fst (channel_close i l)) \<and> length (ml_media (fst (channel_close i l))) = length (ml_media l)
    \<and> mm_closed (ml_media (fst (channel_close i l)) ! i)
    \<and> (\<forall>k. k < length (ml_media l) \<longrightarrow> mm_closed (ml_media l ! k) \<longrightarrow> mm_closed (ml_media (fst (channel_close i l)) ! k))"
proof (cases "mm_closed (ml_media l ! i)")
  case True
  with ok show ?thesis by (simp add: channel_close_eq)
next
  case False
  from ok i obtain fb where p: "mm_incoming (ml_media l ! i) = i" "mm_outgoing (ml_media l ! i) = peer i" "peer i < length (ml_media l)"
    by (rule media_okE)
  let ?l1 = "fst (close_frames (peer i) l)" and ?l2 = "fst (close_frames i (fst (close_frames (peer i) l)))"
  have len: "length (ml_frames l) = length (ml_media l)" using ok by (simp add: media_ok_def)
  have "media_ok ?l2" using close_frames_ok [OF close_frames_ok [OF ok p(3)], of i] i by simp
  then have "media_ok (?l2\<lparr>ml_media := (ml_media ?l2)[i := (ml_media ?l2 ! i)\<lparr>mm_closed := True\<rparr>]\<rparr>)"
    using i p len by (intro media_ok_mark) simp_all
  with False p i show ?thesis by (auto simp: channel_close_eq nth_list_update)
qed

lemma close_all_ok:
  assumes "media_ok l" "\<forall>i \<in> set is. i < length (ml_media l)"
  shows "media_ok (fst (close_media is l)) \<and> length (ml_media (fst (close_media is l))) = length (ml_media l)
    \<and> (\<forall>k < length (ml_media l). k \<in> set is \<or> mm_closed (ml_media l ! k) \<longrightarrow> mm_closed (ml_media (fst (close_media is l)) ! k))"
  using assms
proof (induction "is" arbitrary: l)
  case (Cons i "is")
  let ?l1 = "fst (channel_close i l)"
  have one: "media_ok ?l1 \<and> length (ml_media ?l1) = length (ml_media l) \<and> mm_closed (ml_media ?l1 ! i)
    \<and> (\<forall>k. k < length (ml_media l) \<longrightarrow> mm_closed (ml_media l ! k) \<longrightarrow> mm_closed (ml_media ?l1 ! k))"
    using Cons.prems by (intro close_media_ok) auto
  with Cons.IH [of ?l1] Cons.prems show ?case by (auto simp: Let_def case_prod_unfold)
qed auto

lemma open_media_ok:
  assumes ok: "media_ok l"
  shows "media_ok (fst (snd (snd (openMedia w s i f sig l))))"
proof -
  let ?q = "\<lparr>capacity = 32, items = [], readers = [], writers = [], closed = False\<rparr> :: media_frame queue"
  let ?n = "length (ml_media l)"
  let ?m = "\<lambda>a b. \<lparr>mm_id = i, mm_format = f, mm_incoming = a, mm_outgoing = b, mm_closed = False\<rparr>"
  have len: "length (ml_frames l) = ?n" "even ?n" using ok by (simp_all add: media_ok_def)
  have new: "media_ok (l\<lparr>ml_opened := op, ml_frames := ml_frames l @ [?q, ?q], ml_media := ml_media l @ [?m ?n (Suc ?n), ?m (Suc ?n) ?n], ml_accept := acc\<rparr>)"
    (is "media_ok ?l") if "mediaFrameBytes f = Inr fb" for op acc fb
  proof -
    have "frame_ok fb ?q" by (simp add: frame_ok_def queue_inv_def content_def)
    have "channel_ok ?l k" if k: "k < Suc (Suc ?n)" for k
    proof (cases "k < ?n")
      case True
      then have "channel_ok l k" "peer k < ?n" using ok len peer_less by (auto simp: media_ok_def)
      with True len show ?thesis by (simp add: channel_ok_def nth_append)
    next
      case False
      with k have "k = ?n \<or> k = Suc ?n" by auto
      moreover have "peer ?n = Suc ?n" "peer (Suc ?n) = ?n" using len by (simp_all add: peer_def)
      ultimately show ?thesis using len \<open>frame_ok fb ?q\<close> \<open>mediaFrameBytes f = Inr fb\<close> by (auto simp: channel_ok_def nth_append)
    qed
    with len show ?thesis by (simp add: media_ok_def)
  qed
  then show ?thesis using ok len by (auto simp: openMedia_def Let_def case_prod_unfold split: sum.split)
qed

lemma abort_media_ok:
  assumes ok: "media_ok l"
  shows "media_ok (fst (memory_abort s e l))"
proof -
  have len: "length (ml_frames l) = length (ml_media l)" "even (length (ml_media l))" using ok by (simp_all add: media_ok_def)
  have "channel_ok (fst (memory_abort s e l)) k" if k: "k < length (ml_media l)" for k
  proof -
    have "channel_ok l k" "peer k < length (ml_media l)" using ok k len peer_less by (auto simp: media_ok_def)
    then show ?thesis
      using k len frame_ok_ops(5) closed_kept(3) unfolding channel_ok_def memory_abort_def by (simp, blast)
  qed
  with len show ?thesis by (simp add: media_ok_def memory_abort_def)
qed

definition memory_inv :: "memory_link \<Rightarrow> bool" where
  "memory_inv l \<longleftrightarrow> link_inv l \<and> media_ok l \<and> closed_ok l"

lemma media_unchanged:
  "ml_media l' = ml_media l \<Longrightarrow> ml_frames l' = ml_frames l \<Longrightarrow> media_ok l \<Longrightarrow> media_ok l'"
  by (simp add: media_ok_def channel_ok_def)

lemma media_kept [simp]:
  "ml_media (fst (snd (control_send w s d now sig l))) = ml_media l" "ml_frames (fst (snd (control_send w s d now sig l))) = ml_frames l"
  "ml_media (fst (snd (control_receive w s sig l))) = ml_media l" "ml_frames (fst (snd (control_receive w s sig l))) = ml_frames l"
  "ml_media (fst (snd (acceptMedia w s sig l))) = ml_media l" "ml_frames (fst (snd (acceptMedia w s sig l))) = ml_frames l"
  "ml_media (fst (snd (writeFrame w i f sig l))) = ml_media l" "ml_media (fst (snd (readFrame w i sig l))) = ml_media l"
  "ml_media (fst (snd (channel_clear i l))) = ml_media l" "ml_media (fst (memory_abort j e l)) = ml_media l"
  "ml_closed (fst (snd (control_send w s d now sig l))) = ml_closed l" "ml_closed (fst (snd (control_receive w s sig l))) = ml_closed l"
  "ml_closed (fst (snd (acceptMedia w s sig l))) = ml_closed l" "ml_closed (fst (memory_abort j e l)) = ml_closed l"
  "ml_closed (fst (snd (writeFrame w i f sig l))) = ml_closed l" "ml_closed (fst (snd (readFrame w i sig l))) = ml_closed l"
  "ml_closed (fst (snd (channel_clear i l))) = ml_closed l"
  by (simp_all add: control_send_def control_receive_def acceptMedia_def writeFrame_def readFrame_def channel_clear_def
      memory_abort_def case_prod_unfold Let_def split: sum.split)

lemma open_closed: "ml_closed l \<Longrightarrow> fst (snd (snd (openMedia w s i f sig l))) = l"
  by (simp add: openMedia_def Let_def split: sum.split)

lemma open_keeps_closed: "ml_closed (fst (snd (snd (openMedia w s i f sig l)))) = ml_closed l"
  by (simp add: openMedia_def Let_def case_prod_unfold split: sum.split)

lemma exec_memory_link:
  "fst (snd (snd (exec_memory w opn l))) =
    (case opn of
       MSend s d now sig \<Rightarrow> fst (snd (control_send w s d now sig l))
     | MReceive s sig \<Rightarrow> fst (snd (control_receive w s sig l))
     | MWriteFrame i f sig \<Rightarrow> if i < length (ml_media l) then fst (snd (writeFrame w i f sig l)) else l
     | MReadFrame i sig \<Rightarrow> if i < length (ml_media l) then fst (snd (readFrame w i sig l)) else l
     | MClearChannel i \<Rightarrow> if i < length (ml_media l) then fst (snd (channel_clear i l)) else l
     | MCloseChannel i \<Rightarrow> if i < length (ml_media l) then fst (channel_close i l) else l
     | MOpenMedia s i f sig \<Rightarrow> fst (snd (snd (openMedia w s i f sig l)))
     | MAcceptMedia s sig \<Rightarrow> fst (snd (acceptMedia w s sig l))
     | MClose \<Rightarrow> fst (transport_close l)
     | MAbort s e \<Rightarrow> fst (memory_abort s e l))"
  by (cases opn) (simp_all add: case_prod_unfold)

declare exec_memory.simps [simp del] exec_memory_link [simp]

lemma exec_memory_media:
  assumes ok: "media_ok l" and cl: "closed_ok l"
  shows "media_ok (fst (snd (snd (exec_memory w opn l)))) \<and> closed_ok (fst (snd (snd (exec_memory w opn l))))"
proof (cases opn)
  case (MWriteFrame i f sig)
  with assms write_media_ok [OF ok, of i w f sig] show ?thesis
    by (simp add: closed_ok_def)
next
  case (MReadFrame i sig)
  with assms read_media_ok [OF ok, of i w sig] show ?thesis
    by (simp add: closed_ok_def)
next
  case (MClearChannel i)
  with assms clear_media_ok [OF ok, of i] show ?thesis
    by (simp add: closed_ok_def)
next
  case (MCloseChannel i)
  show ?thesis
  proof (cases "i < length (ml_media l)")
    case True
    with MCloseChannel cl close_media_ok [OF ok True] show ?thesis by (auto simp: closed_ok_def)
  next
    case False
    with MCloseChannel assms show ?thesis by simp
  qed
next
  case (MOpenMedia s i f sig)
  with assms open_media_ok [OF ok, of w s i f sig] open_closed [of l w s i f sig] open_keeps_closed [of w s i f sig l] show ?thesis
    by (cases "ml_closed l") (simp_all add: closed_ok_def)
next
  case MClose
  let ?l1 = "l\<lparr>ml_closed := True, ml_controls := (\<lambda>s. fst (close (ml_controls l s))), ml_accept := (\<lambda>s. fst (close (ml_accept l s)))\<rparr>"
  have "media_ok ?l1" by (rule media_unchanged [OF _ _ ok]) simp_all
  from close_all_ok [OF this, of "[0..<length (ml_media l)]"] assms MClose show ?thesis
    by (auto simp: transport_close_def closed_ok_def Let_def case_prod_unfold)
next
  case (MAbort s e)
  with assms abort_media_ok [OF ok] show ?thesis by (simp add: closed_ok_def)
qed (use assms in \<open>auto simp: closed_ok_def intro: media_unchanged\<close>)

declare exec_memory_link [simp del]

lemma run_memory_inv:
  assumes "pair cap = Inr l"
  shows "memory_inv (mr_link (run_memory l ops))"
proof -
  from assms have media0: "media_ok l" "closed_ok l"
    by (auto simp: pair_def bindR_Inr_iff media_ok_def closed_ok_def)
  have "media_ok (mr_link (run_memory l ops)) \<and> closed_ok (mr_link (run_memory l ops))"
  proof (induction ops rule: rev_induct)
    case Nil
    from media0 show ?case by (simp add: run_memory_def memory_start_def)
  next
    case (snoc x xs)
    from exec_memory_media [of "mr_link (run_memory l xs)" "mr_next (run_memory l xs)" x] snoc show ?case
      by (auto simp: run_memory_def memory_step_def split: prod.splits)
  qed
  moreover from pair_link [OF assms] run_memory_control [OF assms, of _ ops Side0] have "link_inv (mr_link (run_memory l ops))" by blast
  ultimately show ?thesis by (simp add: memory_inv_def)
qed

text \<open>
  The media side of a link stays well formed in every run: every channel reads the queue
  its peer writes, both with the same valid format, every queued frame has the size of that format,
  and after \<open>close\<close> every queue of the link and every channel is closed.
\<close>

theorem memory_media_well_formed:
  assumes "pair cap = Inr l0"
  shows "let l = mr_link (run_memory l0 ops) in
     (\<forall>i < length (ml_media l). peer i < length (ml_media l)
        \<and> mm_outgoing (ml_media l ! i) = mm_incoming (ml_media l ! peer i)
        \<and> mm_format (ml_media l ! i) = mm_format (ml_media l ! peer i)
        \<and> (\<exists>fb. mediaFrameBytes (mm_format (ml_media l ! i)) = Inr fb
              \<and> (\<forall>f \<in> set (content (ml_frames l ! mm_incoming (ml_media l ! i))). length (frame_data f) = fb)))
     \<and> (ml_closed l \<longrightarrow> (\<forall>s. closed (ml_controls l s) \<and> closed (ml_accept l s))
          \<and> (\<forall>i < length (ml_media l). mm_closed (ml_media l ! i) \<and> closed (ml_frames l ! i)))"
proof -
  let ?l = "mr_link (run_memory l0 ops)"
  have inv: "link_inv ?l" "media_ok ?l" "closed_ok ?l" using run_memory_inv [OF assms] by (auto simp: memory_inv_def)
  have "peer i < length (ml_media ?l) \<and> mm_outgoing (ml_media ?l ! i) = mm_incoming (ml_media ?l ! peer i)
      \<and> mm_format (ml_media ?l ! i) = mm_format (ml_media ?l ! peer i)
      \<and> (\<exists>fb. mediaFrameBytes (mm_format (ml_media ?l ! i)) = Inr fb
            \<and> (\<forall>f \<in> set (content (ml_frames ?l ! mm_incoming (ml_media ?l ! i))). length (frame_data f) = fb))"
    if "i < length (ml_media ?l)" for i
  proof -
    from inv(2) that obtain fb where i: "mm_incoming (ml_media ?l ! i) = i" "mm_outgoing (ml_media ?l ! i) = peer i"
      "mediaFrameBytes (mm_format (ml_media ?l ! i)) = Inr fb" "frame_ok fb (ml_frames ?l ! i)"
      "mm_format (ml_media ?l ! peer i) = mm_format (ml_media ?l ! i)" "peer i < length (ml_media ?l)" by (rule media_okE)
    moreover from inv(2) i(6) have "mm_incoming (ml_media ?l ! peer i) = peer i" by (rule media_okE)
    ultimately show ?thesis by (auto simp: frame_ok_def)
  qed
  moreover have "mm_closed (ml_media ?l ! i) \<and> closed (ml_frames ?l ! i)" if "ml_closed ?l" "i < length (ml_media ?l)" for i
    using inv that by (simp add: media_ok_def channel_ok_def closed_ok_def)
  moreover have "closed (ml_controls ?l s) \<and> closed (ml_accept ?l s)" if "ml_closed ?l" for s
    using inv(1) that by (simp add: link_inv_def)
  ultimately show ?thesis unfolding Let_def by blast
qed

text \<open>A link on which side 0 has opened one channel of two-byte frames.\<close>

definition example_link :: memory_link where
  "example_link = (let q = \<lparr>capacity = 64, items = [], readers = [], writers = [], closed = False\<rparr>;
       a = \<lparr>capacity = 64, items = [], readers = [], writers = [], closed = False\<rparr>
     in \<lparr>ml_controls = (\<lambda>_. q), ml_accept = (\<lambda>_. a), ml_frames = [], ml_media = [], ml_opened = (\<lambda>_. []), ml_closed = False\<rparr>)"

lemma example_link_pair: "pair None = Inr example_link"
proof -
  have "positive_safe (jsInt 64) = Some 64" by (simp add: positive_safe_Some_iff MAX_SAFE_INTEGER_def)
  then show ?thesis by (simp add: pair_def new_queue_def example_link_def Let_def)
qed

lemma example_open:
  "length (ml_media (mr_link (run_memory example_link [MOpenMedia Side0 ''audio'' tiny_format NoSignal]))) = 2"
  "mm_format (ml_media (mr_link (run_memory example_link [MOpenMedia Side0 ''audio'' tiny_format NoSignal])) ! 0) = tiny_format"
  "content (ml_frames (mr_link (run_memory example_link [MOpenMedia Side0 ''audio'' tiny_format NoSignal])) ! peer 0) = []"
  using bound_audio_channel(2)
  by (simp_all add: run_memory_def memory_start_def memory_step_def exec_memory.simps example_link_def openMedia_def push_def Let_def
      content_def peer_def split: prod.split)

theorem memory_media_well_formed_witness:
  "let l = mr_link (run_memory example_link [MOpenMedia Side0 ''audio'' tiny_format NoSignal]) in
     mm_outgoing (ml_media l ! 0) = mm_incoming (ml_media l ! peer 0) \<and> mm_format (ml_media l ! peer 0) = tiny_format"
proof -
  let ?l = "mr_link (run_memory example_link [MOpenMedia Side0 ''audio'' tiny_format NoSignal])"
  have "0 < length (ml_media ?l)" unfolding example_open(1) by simp
  from memory_media_well_formed [OF example_link_pair, of "[MOpenMedia Side0 ''audio'' tiny_format NoSignal]",
      unfolded Let_def, THEN conjunct1, rule_format, OF this]
  have "mm_outgoing (ml_media ?l ! 0) = mm_incoming (ml_media ?l ! peer 0)" "mm_format (ml_media ?l ! 0) = mm_format (ml_media ?l ! peer 0)" by blast+
  with example_open(2) show ?thesis unfolding Let_def by metis
qed

section \<open>Audio over a memory channel\<close>

text \<open>
  The memory channel as the media channel of an audio stream.  The world is the link and the log of
  the frames that the reader of the peer took.  When the queue is full, the write waits until that
  reader takes a frame.
\<close>

definition memory_write :: "nat \<Rightarrow> media_frame \<Rightarrow> memory_link \<times> media_frame list \<Rightarrow> (memory_link \<times> media_frame list) \<times> unit result" where
  "memory_write i f = (\<lambda>(l, taken).
     (case writeFrame 0 i f NoSignal l of
        (Threw e, l', es) \<Rightarrow> ((l', taken), Inl e)
      | (Returned _, l', es) \<Rightarrow> ((l', taken @ (if es = [] then [] else [f])), Inr ())
      | (Waiting _, l', es) \<Rightarrow>
          (case readFrame 1 (peer i) NoSignal l' of
             (Returned g, l'', _) \<Rightarrow> ((l'', taken @ [g]), Inr ())
           | (_, l'', _) \<Rightarrow> ((l'', taken), Inl (session_error ''closed'' ''media channel is closed'')))))"

definition memory_env :: "nat \<Rightarrow> (memory_link \<times> media_frame list) media_env" where
  "memory_env i = \<lparr>env_writeFrame = memory_write i,
     env_clear = Some (\<lambda>(l, taken). case channel_clear i l of (r, l', _) \<Rightarrow> ((l', taken), case r of Inr n \<Rightarrow> n | Inl _ \<Rightarrow> 0)),
     env_close = (\<lambda>(l, taken). ((fst (channel_close i l), taken), Inr ())),
     env_observe = (\<lambda>_ c. (c, Inr ())), env_now = (\<lambda>_. Fin 0), env_signal = (\<lambda>_. NoSignal)\<rparr>"

definition peer_frames :: "nat \<Rightarrow> memory_link \<times> media_frame list \<Rightarrow> media_frame list" where
  "peer_frames i = (\<lambda>(l, taken). taken @ content (ml_frames l ! peer i))"

definition channel_open :: "nat \<Rightarrow> memory_link \<times> media_frame list \<Rightarrow> bool" where
  "channel_open i = (\<lambda>(l, taken). media_ok l \<and> i < length (ml_media l) \<and> length (readers (ml_frames l ! peer i)) \<le> 1)"

lemma push_content:
  assumes "queue_inv q" "length (readers q) \<le> 1" "push w v NoSignal q = (out, q', es)"
  shows "case out of
      Threw e \<Rightarrow> q' = q \<and> es = []
    | Returned _ \<Rightarrow> length (readers q') \<le> 1 \<and> (if es = [] then content q' = content q @ [v] else content q = [] \<and> content q' = [])
    | Waiting _ \<Rightarrow> readers q' = [] \<and> content q' = content q @ [v] \<and> items q' \<noteq> []"
proof (cases "closed q")
  case True
  with assms show ?thesis by (auto simp: push_def)
next
  case False
  with assms show ?thesis
    by (cases "readers q"; cases "length (items q) < capacity q") (auto simp: push_def content_def queue_inv_def)
qed

lemma shift_content:
  assumes "queue_inv q" "items q \<noteq> []" "shift w NoSignal q = (out, q', es)"
  shows "\<exists>v. out = Returned v \<and> content q = v # content q' \<and> readers q' = []"
  using assms by (cases "items q"; cases "writers q")
    (auto simp: shift_def admitWriter_def closeReaders_def content_def queue_inv_def split: if_splits)

lemma memory_write_facts:
  assumes "channel_open i (l, taken)" "memory_write i f (l, taken) = ((l', taken'), r)"
  shows "channel_open i (l', taken')
    \<and> peer_frames i (l', taken') = peer_frames i (l, taken) @ (case r of Inr _ \<Rightarrow> [f] | Inl _ \<Rightarrow> [])"
proof -
  have ok: "media_ok l" "i < length (ml_media l)" and rd: "length (readers (ml_frames l ! peer i)) \<le> 1"
    using assms(1) by (auto simp: channel_open_def)
  from ok obtain fb where p: "mm_outgoing (ml_media l ! i) = peer i" "mediaFrameBytes (mm_format (ml_media l ! i)) = Inr fb"
    "frame_ok fb (ml_frames l ! peer i)" "peer i < length (ml_media l)" by (rule media_okE)
  have len: "length (ml_frames l) = length (ml_media l)" using ok by (simp add: media_ok_def)
  obtain out l1 es where w: "writeFrame 0 i f NoSignal l = (out, l1, es)" by (metis prod.exhaust)
  have ok1: "media_ok l1" "ml_media l1 = ml_media l"
    using write_media_ok [OF ok, of 0 f NoSignal] media_kept(7) [of 0 i f NoSignal l] w by simp_all
  show ?thesis
  proof (cases "\<not> mm_closed (ml_media l ! i) \<and> length (frame_data f) = fb")
    case False
    then have "\<exists>e. out = Threw e \<and> l1 = l" using w p by (auto simp: writeFrame_def Let_def split: if_splits)
    with assms w show ?thesis by (auto simp: memory_write_def)
  next
    case True
    obtain pout q pes where pu: "push 0 f NoSignal (ml_frames l ! peer i) = (pout, q, pes)" by (metis prod.exhaust)
    have l1: "out = pout" "ml_frames l1 ! peer i = q" "es = map (FrameEffect (peer i)) pes" "pout = Threw e \<Longrightarrow> l1 = l" for e
      using w p pu True len push_content [OF _ rd pu] p(3) by (auto simp: writeFrame_def Let_def frame_ok_def)
    note pc = push_content [OF _ rd pu] p(3)
    show ?thesis
    proof (cases pout)
      case (Threw e)
      with l1 w assms show ?thesis by (auto simp: memory_write_def)
    next
      case (Returned u)
      with pc l1 w assms ok ok1 show ?thesis
        by (cases "pes = []") (auto simp: memory_write_def channel_open_def peer_frames_def frame_ok_def)
    next
      case (Waiting n)
      with pc l1 have q: "readers q = []" "content q = content (ml_frames l ! peer i) @ [f]" "items q \<noteq> []" by (auto simp: frame_ok_def)
      from ok1 p(4) obtain fb' where p1: "mm_incoming (ml_media l1 ! peer i) = peer i" "frame_ok fb' (ml_frames l1 ! peer i)"
        by (metis media_okE)
      obtain sout q' ses where sh: "shift 1 NoSignal q = (sout, q', ses)" by (metis prod.exhaust)
      have "queue_inv q" using p1(2) l1(2) by (simp add: frame_ok_def)
      from shift_content [OF this q(3) sh] obtain g where g: "sout = Returned g" "content q = g # content q'" "readers q' = []" by blast
      obtain rout l2 res where rd2: "readFrame 1 (peer i) NoSignal l1 = (rout, l2, res)" by (metis prod.exhaust)
      have l2: "rout = Returned g" "ml_frames l2 ! peer i = q'" "media_ok l2" "ml_media l2 = ml_media l"
        using rd2 p1 l1(2) sh g len ok1 p(4) read_media_ok [OF ok1(1), of "peer i" 1 NoSignal] media_kept(8) [of 1 "peer i" NoSignal l1]
        by (auto simp: readFrame_def Let_def media_ok_def)
      show ?thesis using assms w l1(1) Waiting rd2 l2 g q ok by (auto simp: memory_write_def channel_open_def peer_frames_def)
    qed
  qed
qed

lemma memory_sink: "media_sink (memory_env i) (\<lambda>c. map frame_data (peer_frames i c)) (channel_open i)"
proof
  fix f and c c' :: "memory_link \<times> media_frame list" and u r e ob
  assume c: "channel_open i c"
  show "map frame_data (peer_frames i c') = map frame_data (peer_frames i c) @ [frame_data f]" if "env_writeFrame (memory_env i) f c = (c', Inr u)"
    using memory_write_facts [of i "fst c" "snd c" f "fst c'" "snd c'" "Inr u"] c that by (simp add: memory_env_def)
  show "map frame_data (peer_frames i c') = map frame_data (peer_frames i c)" if "env_writeFrame (memory_env i) f c = (c', Inl e)"
    using memory_write_facts [of i "fst c" "snd c" f "fst c'" "snd c'" "Inl e"] c that by (simp add: memory_env_def)
  show "channel_open i c'" if "env_writeFrame (memory_env i) f c = (c', r)"
    using memory_write_facts [of i "fst c" "snd c" f "fst c'" "snd c'" r] c that by (simp add: memory_env_def)
qed (simp_all add: memory_env_def)

interpretation memory_media: media_sink "memory_env i" "\<lambda>c. map frame_data (peer_frames i c)" "channel_open i" for i
  by (rule memory_sink)

text \<open>
  Audio crosses the memory transport unchanged: on a channel of any reachable link whose
  queue is empty, after a sequence of successful writes of an audio stream bound to it, the data of
  the frames that the peer took and still has queued, followed by the bytes kept for the next frame,
  are the bytes kept before followed by the bytes written.
\<close>

theorem audio_over_memory:
  assumes "pair cap = Inr l0" and "l = mr_link (run_memory l0 ops)" and "i < length (ml_media l)"
    and "content (ml_frames l ! peer i) = []" and "readers (ml_frames l ! peer i) = []"
    and "requireChannel a = Inr ch" and "channel_format ch = mm_format (ml_media l ! i)"
    and "write_all (memory_env i) ds (a, (l, [])) = Some (a', c')"
  shows "concat (map frame_data (peer_frames i c')) @ au_partial a' = au_partial a @ concat ds"
proof -
  have ok: "media_ok l" using run_memory_inv [OF assms(1)] assms(2) by (simp add: memory_inv_def)
  then obtain fb where fb: "mediaFrameBytes (mm_format (ml_media l ! i)) = Inr fb" using assms(3) by (rule media_okE)
  have "channel_open i (l, [])" using ok assms(3,5) by (simp add: channel_open_def)
  from write_all_sent [OF memory_sink assms(6) _ assms(8) this] fb assms(7) obtain fs where
    "map frame_data (peer_frames i c') = map frame_data (peer_frames i (l, [])) @ fs" "concat fs @ au_partial a' = au_partial a @ concat ds" by auto
  moreover have "peer_frames i (l, []) = []" using assms(4) by (simp add: peer_frames_def)
  ultimately show ?thesis by simp
qed

theorem audio_over_memory_witness:
  "\<exists>a' c'. write_all (memory_env 0) [[1, 2, 3], [4]] (bound_audio [],
       (mr_link (run_memory example_link [MOpenMedia Side0 ''audio'' tiny_format NoSignal]), [])) = Some (a', c')
     \<and> concat (map frame_data (peer_frames 0 c')) @ au_partial a' = [1, 2, 3, 4]"
proof -
  let ?l = "mr_link (run_memory example_link [MOpenMedia Side0 ''audio'' tiny_format NoSignal])"
  have env: "env_signal (memory_env i) c = NoSignal" "env_writeFrame (memory_env i) = memory_write i"
    "env_observe (memory_env i) ob c = (c, Inr ())" for i c ob
    by (simp_all add: memory_env_def)
  have bound: "audio_write (memory_env 0) id d (bound_audio p, c) =
     (if d = [] then ((bound_audio p, c), Inr 0)
      else case write_frames (memory_env 0) 2 (p @ d) c of
          (c', Inl e) \<Rightarrow> ((bound_audio p, c'), Inl e)
        | (c', Inr rest) \<Rightarrow> ((bound_audio rest, c'), Inr (length d)))" for d p c
    using bound_audio_channel by (auto simp: audio_write_def env split: prod.splits sum.splits)
  have "\<exists>a' c'. write_all (memory_env 0) [[1, 2, 3], [4]] (bound_audio [], (?l, [])) = Some (a', c')"
    using bound_audio_channel(2)
    by (simp add: bound write_frames.simps env memory_write_def writeFrame_def push_def run_memory_def memory_start_def
        memory_step_def exec_memory.simps example_link_def openMedia_def Let_def)
  then obtain a' c' where w: "write_all (memory_env 0) [[1, 2, 3], [4]] (bound_audio [], (?l, [])) = Some (a', c')" by blast
  have i: "0 < length (ml_media ?l)" unfolding example_open(1) by simp
  have r: "readers (ml_frames ?l ! peer 0) = []" using bound_audio_channel(2)
    by (simp add: run_memory_def memory_start_def memory_step_def exec_memory.simps example_link_def openMedia_def push_def Let_def peer_def)
  from audio_over_memory [OF example_link_pair refl i example_open(3) r bound_audio_channel(1) _ w] example_open(2) w
  show ?thesis by auto
qed

end
