(* ===== verification/Number_Text.thy ===== *)
theory Number_Text
  imports Js_Arith
begin

text \<open>
  The text of JavaScript numbers: \<open>String(x)\<close> and \<open>JSON.stringify(x)\<close> as ECMAScript defines
  \<open>Number::toString\<close> (the shortest decimal that rounds to the number), and \<open>Number(text)\<close> for texts
  of the JSON number grammar.  The main result is that reading the text of a binary64 number gives
  the number back.
\<close>

section \<open>Digits\<close>

definition is_digit :: "char \<Rightarrow> bool" where
  "is_digit c = (CHR ''0'' \<le> c \<and> c \<le> CHR ''9'')"

definition digit_value :: "char \<Rightarrow> nat" where
  "digit_value c = of_char c - 48"

definition digits_text :: "nat list \<Rightarrow> string" where
  "digits_text ds = map digit_char ds"

abbreviation decimal_digits :: "nat list \<Rightarrow> bool" where
  "decimal_digits ds \<equiv> list_all (\<lambda>d. d < 10) ds"

lemma digit_char_decimal:
  "d < 10 \<Longrightarrow> is_digit (digit_char d)"
  "0 < d \<Longrightarrow> d < 10 \<Longrightarrow> CHR ''1'' \<le> digit_char d \<and> digit_char d \<le> CHR ''9''"
  "d < 10 \<Longrightarrow> digit_value (digit_char d) = d"
proof -
  have of: "of_char (digit_char d) = 48 + d" if "d < 10"
    using that by (simp add: digit_char_def take_bit_eq_mod)
  show "d < 10 \<Longrightarrow> is_digit (digit_char d)"
    using of by (simp add: is_digit_def less_eq_char_def)
  show "0 < d \<Longrightarrow> d < 10 \<Longrightarrow> CHR ''1'' \<le> digit_char d \<and> digit_char d \<le> CHR ''9''"
    using of by (simp add: less_eq_char_def)
  show "d < 10 \<Longrightarrow> digit_value (digit_char d) = d"
    using of by (simp add: digit_value_def)
qed

lemma is_digit_literals [simp]:
  "\<not> is_digit CHR ''.''" "\<not> is_digit CHR ''e''" "\<not> is_digit CHR ''-''" "\<not> is_digit CHR ''+''"
  "is_digit CHR ''0''"
  by (simp_all add: is_digit_def)

lemma digit_char_0 [simp]: "digit_char 0 = CHR ''0''"
  by (simp add: digit_char_def char_of_def bit_0)

lemma digits_text_simps [simp]:
  "digits_text [] = []" "digits_text (d # ds) = digit_char d # digits_text ds"
  "digits_text (ds @ es) = digits_text ds @ digits_text es" "digits_text ds = [] \<longleftrightarrow> ds = []"
  "length (digits_text ds) = length ds"
  by (simp_all add: digits_text_def)

lemma digits_text_is_digit: "decimal_digits ds \<Longrightarrow> c \<in> set (digits_text ds) \<Longrightarrow> is_digit c"
  by (auto simp: digits_text_def list_all_iff digit_char_decimal)

lemma digits_text_value: "decimal_digits ds \<Longrightarrow> map digit_value (digits_text ds) = ds"
  by (induction ds) (auto simp: digit_char_decimal)

lemma digits_in_decimal [simp]: "decimal_digits (digits_in 10 n)"
  using digits_in_less [of 10] by (auto simp: list_all_iff)

lemma nat_text_digits: "nat_text b n = digits_text (digits_in b n)"
  by (simp add: nat_text_def digits_text_def)

lemma digits_value_append:
  "digits_value b (ds @ es) = digits_value b ds * b ^ length es + digits_value b es"
  by (induction ds) (auto simp: algebra_simps power_add)

lemma digits_value_replicate_0 [simp]: "digits_value b (replicate n 0) = 0"
  by (induction n) auto

text \<open>The longest prefix of digits, and the rest.\<close>

definition span_digits :: "string \<Rightarrow> nat list \<times> string" where
  "span_digits s = (map digit_value (takeWhile is_digit s), dropWhile is_digit s)"

lemma span_digits_text:
  assumes "decimal_digits ds" "rest = [] \<or> \<not> is_digit (hd rest)"
  shows "span_digits (digits_text ds @ rest) = (ds, rest)"
proof -
  have "takeWhile is_digit rest = []" "dropWhile is_digit rest = rest"
    using assms(2) by (cases rest, simp, simp)+
  moreover have "\<And>c. c \<in> set (digits_text ds) \<Longrightarrow> is_digit c"
    using digits_text_is_digit [OF assms(1)] .
  ultimately have "takeWhile is_digit (digits_text ds @ rest) = digits_text ds"
    "dropWhile is_digit (digits_text ds @ rest) = rest"
    by (simp_all only: takeWhile_append2 dropWhile_append2 append_Nil2)
  then show ?thesis by (simp add: span_digits_def digits_text_value [OF assms(1)])
qed

section \<open>Decimal literals\<close>

text \<open>A decimal literal: integer digits, fraction digits (none: no point) and an exponent.\<close>

definition exponent_text :: "int \<Rightarrow> string" where
  "exponent_text e = ''e'' @ (if e < 0 then ''-'' else ''+'') @ nat_text 10 (nat \<bar>e\<bar>)"

definition decimal_text :: "nat list \<Rightarrow> nat list \<Rightarrow> int option \<Rightarrow> string" where
  "decimal_text ip fp e =
     digits_text ip @ (if fp = [] then [] else ''.'' @ digits_text fp)
     @ (case e of None \<Rightarrow> [] | Some e \<Rightarrow> exponent_text e)"

definition decimal_value :: "nat list \<Rightarrow> nat list \<Rightarrow> int \<Rightarrow> rat" where
  "decimal_value ip fp e = of_nat (digits_value 10 (ip @ fp)) * 10 powi (e - int (length fp))"

text \<open>The number grammar of RFC 8259 without the minus sign, and the value of its words.\<close>

definition read_exponent :: "string \<Rightarrow> int option" where
  "read_exponent s =
     (case s of [] \<Rightarrow> Some 0
      | c # t \<Rightarrow>
         if c \<noteq> CHR ''e'' \<and> c \<noteq> CHR ''E'' then None
         else let (neg, u) = (case t of CHR ''-'' # u \<Rightarrow> (True, u) | CHR ''+'' # u \<Rightarrow> (False, u) | u \<Rightarrow> (False, u));
                  (ds, rest) = span_digits u
              in if ds = [] \<or> rest \<noteq> [] then None
                 else Some (if neg then - int (digits_value 10 ds) else int (digits_value 10 ds)))"

definition read_decimal :: "string \<Rightarrow> rat option" where
  "read_decimal s =
     (let (ip, s1) = span_digits s;
          (fp, point, s2) = (case s1 of CHR ''.'' # t \<Rightarrow> (let (fp, s2) = span_digits t in (fp, True, s2))
                                      | _ \<Rightarrow> ([], False, s1))
      in if ip = [] \<or> (hd ip = 0 \<and> 1 < length ip) \<or> (point \<and> fp = []) then None
         else map_option (decimal_value ip fp) (read_exponent s2))"

definition int_digits :: "nat list \<Rightarrow> bool" where
  "int_digits ip \<longleftrightarrow> decimal_digits ip \<and> ip \<noteq> [] \<and> (hd ip = 0 \<longrightarrow> length ip = 1)"

lemma read_exponent_text: "read_exponent (exponent_text e) = Some e"
proof -
  have "span_digits (nat_text 10 (nat \<bar>e\<bar>)) = (digits_in 10 (nat \<bar>e\<bar>), [])"
    using span_digits_text [of "digits_in 10 (nat \<bar>e\<bar>)" "[]"] by (simp add: nat_text_digits)
  then show ?thesis
    by (auto simp: read_exponent_def exponent_text_def digits_in_value)
qed

lemma read_decimal_text:
  assumes "int_digits ip" "decimal_digits fp"
  shows "read_decimal (decimal_text ip fp e) = Some (decimal_value ip fp (case e of None \<Rightarrow> 0 | Some e \<Rightarrow> e))"
proof -
  define tail where "tail = (case e of None \<Rightarrow> [] | Some e \<Rightarrow> exponent_text e)"
  have exp: "read_exponent tail = Some (case e of None \<Rightarrow> 0 | Some e \<Rightarrow> e)"
    by (cases e) (simp_all add: tail_def read_exponent_text, simp add: read_exponent_def)
  have hd: "tail = [] \<or> \<not> is_digit (hd tail) \<and> hd tail \<noteq> CHR ''.''"
    by (cases e) (simp_all add: tail_def exponent_text_def)
  have ip: "decimal_digits ip" "ip \<noteq> []" "\<not> (hd ip = 0 \<and> 1 < length ip)"
    using assms(1) by (auto simp: int_digits_def)
  show ?thesis
  proof (cases "fp = []")
    case True
    have "span_digits (decimal_text ip fp e) = (ip, tail)"
      using span_digits_text [OF ip(1), of tail] hd True by (auto simp: decimal_text_def tail_def)
    moreover have "(case tail of CHR ''.'' # t \<Rightarrow> (let (fp, s2) = span_digits t in (fp, True, s2))
                                      | _ \<Rightarrow> ([], False, tail)) = ([], False, tail)"
      using hd by (auto split: list.split char.split bool.split)
    ultimately show ?thesis
      using exp ip(2,3) True by (simp add: read_decimal_def)
  next
    case False
    then have "span_digits (decimal_text ip fp e) = (ip, ''.'' @ digits_text fp @ tail)"
      using span_digits_text [OF ip(1), of "''.'' @ digits_text fp @ tail"]
      by (simp add: decimal_text_def tail_def)
    moreover have "span_digits (digits_text fp @ tail) = (fp, tail)"
      using span_digits_text [OF assms(2)] hd by blast
    ultimately show ?thesis
      using exp ip(2,3) False by (simp add: read_decimal_def)
  qed
qed

section \<open>\<open>Number::toString\<close>\<close>

text \<open>
  The layout of the digits \<open>ds\<close> of a number \<open>0.ds * 10 ^ n\<close>: plain up to 21 integer digits, with
  leading zeros down to \<open>10 ^ -7\<close>, in exponent form outside.
\<close>

definition number_layout :: "nat list \<Rightarrow> int \<Rightarrow> string" where
  "number_layout ds n =
     (let k = int (length ds)
      in if k \<le> n \<and> n \<le> 21 then decimal_text (ds @ replicate (nat (n - k)) 0) [] None
         else if 0 < n \<and> n \<le> 21 then decimal_text (take (nat n) ds) (drop (nat n) ds) None
         else if - 6 < n \<and> n \<le> 0 then decimal_text [0] (replicate (nat (- n)) 0 @ ds) None
         else decimal_text (take 1 ds) (drop 1 ds) (Some (n - 1)))"

text \<open>The largest power of ten that is at most a positive number.\<close>

definition ilog10 :: "rat \<Rightarrow> int" where
  "ilog10 x =
     (if 1 \<le> x then int (floorlog 10 (nat \<lfloor>x\<rfloor>)) - 1
      else let m = int (floorlog 10 (nat \<lfloor>1 / x\<rfloor>))
           in if x = 10 powi (1 - m) then 1 - m else - m)"

text \<open>
  The multiples of \<open>10 ^ e\<close> next to \<open>x\<close>, the nearer one first, and the first of them that rounds to
  \<open>x\<close>; the search lowers \<open>e\<close> from the leading digit of \<open>x\<close>, so it returns the fewest digits.
\<close>

definition neighbour_at :: "rat \<Rightarrow> int \<Rightarrow> int option" where
  "neighbour_at x e =
     (let y = x / 10 powi e; f = \<lfloor>y\<rfloor>
      in find (\<lambda>s. 0 < s \<and> to_double (of_int s * 10 powi e) = Fin x)
           (if y - of_int f \<le> 1 / 2 then [f, f + 1] else [f + 1, f]))"

fun shortest_from :: "nat \<Rightarrow> rat \<Rightarrow> int \<Rightarrow> (nat \<times> int) option" where
  "shortest_from fuel x e =
     (case neighbour_at x e of
        Some s \<Rightarrow> Some (nat s, e)
      | None \<Rightarrow> (case fuel of 0 \<Rightarrow> None | Suc fuel' \<Rightarrow> shortest_from fuel' x (e - 1)))"

declare shortest_from.simps [simp del]

text \<open>
  The fuel reaches \<open>10 ^ -1074\<close>, of which every binary64 value is a multiple.
\<close>

definition shortest :: "rat \<Rightarrow> (nat \<times> int) option" where
  "shortest x = shortest_from (nat (ilog10 x + 1074)) x (ilog10 x)"

definition strip_zeros :: "nat list \<Rightarrow> nat list" where
  "strip_zeros ds = rev (dropWhile (\<lambda>d. d = 0) (rev ds))"

definition positive_text :: "rat \<Rightarrow> string" where
  "positive_text x =
     (if is_int_rat x \<and> \<lfloor>x\<rfloor> \<le> MAX_SAFE_INTEGER then nat_text 10 (nat \<lfloor>x\<rfloor>)
      else (case shortest x of
              None \<Rightarrow> []
            | Some (s, e) \<Rightarrow> let ds = digits_in 10 s
                             in number_layout (strip_zeros ds) (int (length ds) + e)))"

fun number_text :: "js_number \<Rightarrow> string" where
  "number_text NaN = ''NaN''"
| "number_text PosInf = ''Infinity''"
| "number_text NegInf = ''-Infinity''"
| "number_text NegZero = ''0''"
| "number_text (Fin r) = (if r < 0 then ''-'' @ positive_text (- r) else positive_text r)"

text \<open>\<open>Number(text)\<close> on a text of the JSON number grammar.\<close>

fun num_negate :: "js_number \<Rightarrow> js_number" where
  "num_negate (Fin r) = (if r = 0 then NegZero else Fin (- r))"
| "num_negate NegZero = Fin 0"
| "num_negate PosInf = NegInf"
| "num_negate NegInf = PosInf"
| "num_negate NaN = NaN"

definition read_number :: "string \<Rightarrow> (bool \<times> rat) option" where
  "read_number s = (case s of CHR ''-'' # t \<Rightarrow> map_option (Pair True) (read_decimal t)
                    | _ \<Rightarrow> map_option (Pair False) (read_decimal s))"

definition number_of_text :: "string \<Rightarrow> js_number" where
  "number_of_text s = (case read_number s of None \<Rightarrow> NaN
      | Some (neg, r) \<Rightarrow> if neg then num_negate (to_double r) else to_double r)"

definition is_double :: "js_number \<Rightarrow> bool" where
  "is_double x = (case x of Fin r \<Rightarrow> to_double \<bar>r\<bar> = Fin \<bar>r\<bar> | _ \<Rightarrow> True)"

section \<open>Reading the text of a number\<close>

lemma strip_zeros_split:
  obtains j where "ds = strip_zeros ds @ replicate j 0"
proof -
  have "\<forall>d \<in> set (takeWhile (\<lambda>d. d = 0) (rev ds)). d = 0" using set_takeWhileD by fastforce
  then have "takeWhile (\<lambda>d. d = 0) (rev ds) = replicate (length (takeWhile (\<lambda>d. d = 0) (rev ds))) 0"
    by (metis replicate_length_same)
  then have "rev ds = replicate (length (takeWhile (\<lambda>d. d = 0) (rev ds))) 0 @ dropWhile (\<lambda>d. d = 0) (rev ds)"
    by (metis takeWhile_dropWhile_id)
  then have "ds = strip_zeros ds @ replicate (length (takeWhile (\<lambda>d. d = 0) (rev ds))) 0"
    unfolding strip_zeros_def by (metis rev_append rev_replicate rev_rev_ident)
  then show thesis by (rule that)
qed

lemma read_number_layout:
  assumes "decimal_digits ds" "ds \<noteq> []" "hd ds \<noteq> 0"
  shows "read_decimal (number_layout ds n) =
    Some (of_nat (digits_value 10 ds) * 10 powi (n - int (length ds)))"
proof -
  let ?k = "int (length ds)"
  have hd: "int_digits (ds @ es)" if "decimal_digits es" for es
    using assms that by (auto simp: int_digits_def)
  have tk: "int_digits (take m ds)" if "0 < m" for m
    using assms that set_take_subset [of m ds]
    by (auto simp: int_digits_def list_all_iff hd_take)
  have dr: "decimal_digits (drop m ds)" for m
    using assms(1) set_drop_subset [of m ds] by (auto simp: list_all_iff)
  consider (plain) "?k \<le> n" "n \<le> 21" | (point) "0 < n" "n < ?k" "n \<le> 21"
    | (zeros) "- 6 < n" "n \<le> 0" | (expo) "n \<le> - 6 \<or> 21 < n"
    by linarith
  then show ?thesis
  proof cases
    case plain
    have "of_nat (10 ^ nat (n - ?k)) = (10 powi (n - ?k) :: rat)"
      using plain by (simp add: power_int_def)
    with plain show ?thesis
      by (simp add: number_layout_def read_decimal_text hd list_all_iff decimal_value_def digits_value_append)
  next
    case point
    then show ?thesis
      by (simp add: number_layout_def read_decimal_text tk dr decimal_value_def)
  next
    case zeros
    have "int_digits [0]" by (simp add: int_digits_def)
    moreover have "decimal_digits (replicate (nat (- n)) 0 @ ds)" using assms(1) by (auto simp: list_all_iff)
    moreover have "\<not> ?k \<le> n" using zeros assms(2) by (cases ds) auto
    ultimately show ?thesis using zeros
      by (simp add: number_layout_def read_decimal_text decimal_value_def digits_value_append)
  next
    case expo
    then have "number_layout ds n = decimal_text (take 1 ds) (drop 1 ds) (Some (n - 1))"
      by (auto simp: number_layout_def Let_def)
    moreover have "take 1 ds @ drop 1 ds = ds" "n - 1 - int (length (drop 1 ds)) = n - ?k"
      using assms(2) by (cases ds; simp)+
    ultimately show ?thesis
      using read_decimal_text [OF tk [of 1] dr [of 1], of "Some (n - 1)"]
      by (simp add: decimal_value_def)
  qed
qed

lemma powi_multiple: "- int k \<le> u \<Longrightarrow> \<exists>m. (2 :: rat) powi u = of_int m * 2 powi (- int k)"
proof (intro exI)
  assume "- int k \<le> u"
  then have "(2 :: rat) ^ nat (u + int k) = 2 powi (u + int k)" by (simp add: power_int_def)
  then show "(2 :: rat) powi u = of_int (2 ^ nat (u + int k)) * 2 powi (- int k)"
    by (simp add: power_int_minus power_int_add)
qed

lemma double_multiple:
  assumes "to_double x = Fin y" "0 < x"
  shows "\<exists>m. y = of_int m * 2 powi (- int 1074)"
proof -
  let ?u = "ulp_exp 53 (- 1074) x"
  have "- int 1074 \<le> ?u" by (simp add: ulp_exp_def)
  then obtain m where m: "(2 :: rat) powi ?u = of_int m * 2 powi (- int 1074)"
    using powi_multiple by blast
  have "y = of_int (round_even (x / 2 powi ?u)) * 2 powi ?u"
    using assms by (auto simp: to_double_def round_ieee_def round_to_def Let_def split: if_splits)
  then have "y = of_int (round_even (x / 2 powi ?u) * m) * 2 powi (- int 1074)"
    by (simp only: m of_int_mult mult.assoc)
  then show ?thesis by blast
qed

lemma multiple_decimal:
  assumes "(x :: rat) = of_int m * 2 powi (- int k)" "e \<le> - int k"
  shows "\<exists>n. x / 10 powi e = of_int n"
proof -
  let ?j = "nat (- e) - k"
  have e: "e = - int (k + ?j)" using assms(2) by linarith
  have "(10 :: rat) powi (- int (k + ?j)) = inverse (2 ^ k * 5 ^ k * 10 ^ ?j)"
    unfolding power_int_minus power_int_of_nat power_add by (simp flip: power_mult_distrib)
  then have "(10 :: rat) powi e = inverse (2 ^ k * 5 ^ k * 10 ^ ?j)" using e by simp
  then have "1 / (10 :: rat) powi e = 2 ^ k * 5 ^ k * 10 ^ ?j"
    by (simp only: inverse_eq_divide) simp
  then have "x / 10 powi e = x * (2 ^ k * 5 ^ k * 10 ^ ?j)" by (simp add: field_simps)
  moreover have "x * 2 ^ k = of_int m" using assms(1) by (simp add: power_int_minus)
  ultimately have "x / 10 powi e = of_int (m * (5 ^ k * 10 ^ ?j))"
    by (metis mult.assoc of_int_mult of_int_numeral of_int_power)
  then show ?thesis by blast
qed

lemma neighbour_at_exact:
  assumes "0 < x" "to_double x = Fin x" "e \<le> - int 1074"
  shows "neighbour_at x e \<noteq> None"
proof -
  obtain n where n: "x / 10 powi e = of_int n"
    using double_multiple [OF assms(2,1)] multiple_decimal assms(3) by blast
  then have x: "x = of_int n * 10 powi e" by (simp add: field_simps)
  moreover have "(0 :: rat) < 10 powi e" by simp
  ultimately have "0 < n" using assms(1) by (metis of_int_0_less_iff zero_less_mult_pos2)
  with x n assms(2) show ?thesis by (simp add: neighbour_at_def Let_def)
qed

lemma shortest_from_Some:
  assumes "0 < x" "to_double x = Fin x" "e - int fuel \<le> - int 1074"
  shows "\<exists>s e'. shortest_from fuel x e = Some (s, e') \<and> 0 < s \<and> to_double (of_nat s * 10 powi e') = Fin x"
  using assms(3)
proof (induction fuel arbitrary: e)
  case 0
  then obtain s where s: "neighbour_at x e = Some s" using neighbour_at_exact [OF assms(1,2)] by fastforce
  then have "0 < s" "to_double (of_int s * 10 powi e) = Fin x"
    by (auto simp: neighbour_at_def Let_def find_Some_iff)
  with s show ?case by (simp add: shortest_from.simps)
next
  case (Suc fuel)
  show ?case
  proof (cases "neighbour_at x e")
    case None
    with Suc.IH [of "e - 1"] Suc.prems show ?thesis by (simp add: shortest_from.simps)
  next
    case (Some s)
    then have "0 < s" "to_double (of_int s * 10 powi e) = Fin x"
      by (auto simp: neighbour_at_def Let_def find_Some_iff)
    with Some show ?thesis by (simp add: shortest_from.simps)
  qed
qed

lemma read_nat_text: "read_decimal (nat_text 10 n) = Some (of_nat n)"
proof -
  have "digits_in 10 0 = [0]" by (simp add: digits_in.simps)
  then have "int_digits (digits_in 10 n)"
    using digits_in_hd [of 10 n] by (cases "n = 0") (auto simp: int_digits_def)
  from read_decimal_text [OF this, of "[]" None] show ?thesis
    by (simp add: decimal_text_def nat_text_digits decimal_value_def digits_in_value)
qed

lemma read_positive_text:
  assumes "0 \<le> x" "to_double x = Fin x"
  shows "\<exists>y. read_decimal (positive_text x) = Some y \<and> to_double y = Fin x"
proof (cases "is_int_rat x \<and> \<lfloor>x\<rfloor> \<le> MAX_SAFE_INTEGER")
  case True
  then have "of_nat (nat \<lfloor>x\<rfloor>) = x" using assms(1) by (auto simp: is_int_rat_def)
  with True assms(2) show ?thesis by (simp add: positive_text_def read_nat_text)
next
  case False
  have "is_int_rat x \<and> \<lfloor>x\<rfloor> \<le> MAX_SAFE_INTEGER" if "x = 0" using that by (simp add: MAX_SAFE_INTEGER_def)
  with False assms(1) have x: "0 < x" by fastforce
  have "ilog10 x - int (nat (ilog10 x + 1074)) \<le> - int 1074" by simp
  from shortest_from_Some [OF x assms(2) this] obtain s e where
    s: "shortest x = Some (s, e)" "0 < s" "to_double (of_nat s * 10 powi e) = Fin x"
    unfolding shortest_def by blast
  define ds where "ds = digits_in 10 s"
  obtain j where j: "ds = strip_zeros ds @ replicate j 0" using strip_zeros_split .
  have "0 < hd ds" using digits_in_hd [of 10 s] s(2) by (simp add: ds_def)
  have ne: "strip_zeros ds \<noteq> []"
  proof
    assume "strip_zeros ds = []"
    with j have "ds = replicate j 0" by simp
    with \<open>0 < hd ds\<close> show False by (metis digits_in_not_Nil ds_def hd_replicate less_irrefl replicate_0)
  qed
  have hd: "hd (strip_zeros ds) \<noteq> 0" using \<open>0 < hd ds\<close> j ne by (metis hd_append2 less_irrefl)
  have dec: "decimal_digits (strip_zeros ds)"
    using digits_in_decimal [of s] j unfolding ds_def [symmetric] by (metis list_all_append)
  have val: "s = digits_value 10 (strip_zeros ds) * 10 ^ j"
    using digits_in_value [of 10 s] arg_cong [OF j, of "digits_value 10"]
    unfolding ds_def [symmetric] digits_value_append by simp
  have len: "length ds = length (strip_zeros ds) + j" using arg_cong [OF j, of length] by simp
  have "of_nat s * 10 powi e =
      (of_nat (digits_value 10 (strip_zeros ds)) * 10 powi (int (length ds) + e - int (length (strip_zeros ds))) :: rat)"
    by (subst val) (simp add: len power_int_add)
  then have "to_double (of_nat (digits_value 10 (strip_zeros ds))
      * 10 powi (int (length ds) + e - int (length (strip_zeros ds)))) = Fin x"
    using s(3) by simp
  moreover have "positive_text x = number_layout (strip_zeros ds) (int (length ds) + e)"
    using False s(1) by (auto simp: positive_text_def Let_def ds_def)
  ultimately show ?thesis using read_number_layout [OF dec ne hd] by simp
qed

lemma decimal_text_head:
  assumes "int_digits ip"
  shows "\<exists>c cs. decimal_text ip fp e = c # cs \<and> is_digit c"
proof -
  obtain d ds where "ip = d # ds" "d < 10" using assms by (cases ip) (auto simp: int_digits_def)
  then show ?thesis by (simp add: decimal_text_def digit_char_decimal)
qed

lemma read_decimal_head: "read_decimal s = Some r \<Longrightarrow> \<exists>c cs. s = c # cs \<and> is_digit c"
  by (cases s) (auto simp: read_decimal_def span_digits_def Let_def split: if_splits)

lemma number_of_number_text:
  assumes "is_double (Fin r)"
  shows "number_of_text (number_text (Fin r)) = Fin r"
proof -
  obtain y where y: "read_decimal (positive_text \<bar>r\<bar>) = Some y" "to_double y = Fin \<bar>r\<bar>"
    using read_positive_text [of "\<bar>r\<bar>"] assms by (auto simp: is_double_def)
  from read_decimal_head [OF y(1)] obtain c cs where c: "positive_text \<bar>r\<bar> = c # cs" "is_digit c" by blast
  then have "c \<noteq> CHR ''-''" by auto
  then have "read_number (positive_text \<bar>r\<bar>) = Some (False, y)"
    using y(1) c(1) by (auto simp: read_number_def split: char.split bool.split)
  moreover have "read_number (''-'' @ positive_text \<bar>r\<bar>) = Some (True, y)"
    using y(1) by (simp add: read_number_def)
  ultimately show ?thesis
    using y(2) by (cases "r < 0") (auto simp: number_of_text_def)
qed

text \<open>
  The text that \<open>String\<close> and \<open>JSON.stringify\<close> give for a finite binary64 number reads
  back as that number; the two zeros share the text \<open>0\<close>.
\<close>

theorem number_text_roundtrip:
  assumes "is_double (Fin r)"
  shows "number_of_text (number_text (Fin r)) = Fin r"
  using assms by (rule number_of_number_text)

theorem number_text_roundtrip_witness:
  "number_text (Fin (5 / 2)) = ''2.5'' \<and> number_of_text (number_text (Fin (5 / 2))) = Fin (5 / 2)"
proof (rule conjI [OF _ number_text_roundtrip])
  have d: "to_double (5 / 2) = Fin (5 / 2)" using to_double_dyadic [of 5 1] by simp
  then show "is_double (Fin (5 / 2))" by (simp add: is_double_def)
  have "to_double 2 = Fin 2" "to_double 3 = Fin 3" using to_double_nat [of 2] to_double_nat [of 3] by simp_all
  moreover have f: "\<lfloor>5 / 2 :: rat\<rfloor> = 2" by (simp add: floor_eq_iff)
  ultimately have n: "neighbour_at (5 / 2) 0 = None" "neighbour_at (5 / 2) (- 1) = Some 25"
    using d by (simp_all add: neighbour_at_def Let_def)
  have "floorlog 10 2 = 1" "digits_in 10 25 = [2, 5]" by code_simp+
  with n f show "number_text (Fin (5 / 2)) = ''2.5''"
    by (simp add: positive_text_def is_int_rat_def shortest_def ilog10_def shortest_from.simps
        number_layout_def strip_zeros_def decimal_text_def digit_char_def char_of_def bit_0)
qed

end
