(* ===== verification/Profiles.thy ===== *)
theory Profiles
  imports Transport Number_Text
begin

text \<open>
  The generated profile registry (\<open>generated/zz_generated_profiles.ts\<close>) and its interpretation as a
  media format (\<open>profiles.ts\<close>), with the regular expression of \<open>L16_FORMAT\<close> as a matcher.
\<close>

section \<open>The registry\<close>

record profile_media =
  media_channel :: string
  media_carrier :: string
  media_wireFormat :: string
  media_sdkFormat :: string

record profile_descriptor =
  profile_id :: string
  profile_token :: string
  profile_transport :: string
  profile_envelope :: string
  profile_catalog :: string
  profile_signaling :: "string list"
  profile_media_channels :: "profile_media list"

definition PROFILE_RTVBP_V1 :: string where "PROFILE_RTVBP_V1 = ''rtvbp.v1''"
definition PROFILE_RTVBP_DEMO_V1 :: string where "PROFILE_RTVBP_DEMO_V1 = ''rtvbp.demo.v1''"
definition PROFILE_RTVBP_WEBRTC_V1 :: string where "PROFILE_RTVBP_WEBRTC_V1 = ''rtvbp.webrtc.v1''"
definition SIGNALING_TRANSPORT_WEBRTC_OFFER :: string where
  "SIGNALING_TRANSPORT_WEBRTC_OFFER = ''transport.webrtc.offer''"
definition DEFAULT_PROFILE :: string where "DEFAULT_PROFILE = PROFILE_RTVBP_V1"
definition HEADERLESS_PROFILE :: string where "HEADERLESS_PROFILE = PROFILE_RTVBP_V1"
definition SERVER_PREFERENCE :: "string list" where
  "SERVER_PREFERENCE = [PROFILE_RTVBP_V1, PROFILE_RTVBP_DEMO_V1, PROFILE_RTVBP_WEBRTC_V1]"

definition PROFILES :: "profile_descriptor list" where
  "PROFILES = [
     \<lparr>profile_id = ''rtvbp.v1'', profile_token = PROFILE_RTVBP_V1, profile_transport = ''ws.v1'',
      profile_envelope = ''classic.v1'', profile_catalog = ''babelforce.v1'', profile_signaling = [],
      profile_media_channels = [\<lparr>media_channel = ''audio'', media_carrier = ''websocket-binary'',
        media_wireFormat = ''l16-8000-16-1-20ms'', media_sdkFormat = ''l16-8000-16-1-20ms''\<rparr>]\<rparr>,
     \<lparr>profile_id = ''rtvbp.demo.v1'', profile_token = PROFILE_RTVBP_DEMO_V1, profile_transport = ''ws.v1'',
      profile_envelope = ''classic.v1'', profile_catalog = ''demo.v1'', profile_signaling = [],
      profile_media_channels = []\<rparr>,
     \<lparr>profile_id = ''rtvbp.webrtc.v1'', profile_token = PROFILE_RTVBP_WEBRTC_V1,
      profile_transport = ''webrtcws.v1'', profile_envelope = ''classic.v1'',
      profile_catalog = ''babelforce.v1'', profile_signaling = [''transport.webrtc.offer''],
      profile_media_channels = [\<lparr>media_channel = ''audio'', media_carrier = ''webrtc-rtp'',
        media_wireFormat = ''pcmu-8000-8-1-20ms'', media_sdkFormat = ''l16-8000-16-1-20ms''\<rparr>]\<rparr>]"

section \<open>Matching the descriptor\<close>

fun strip_lit :: "string \<Rightarrow> string \<Rightarrow> string option" where
  "strip_lit [] s = Some s"
| "strip_lit (c # cs) [] = None"
| "strip_lit (c # cs) (d # ds) = (if c = d then strip_lit cs ds else None)"

text \<open>\<open>([1-9][0-9]*)\<close>: the digits and the rest of the input.\<close>

fun match_number :: "string \<Rightarrow> (string \<times> string) option" where
  "match_number [] = None"
| "match_number (c # cs) =
     (if CHR ''1'' \<le> c \<and> c \<le> CHR ''9'' then Some (c # takeWhile is_digit cs, dropWhile is_digit cs)
      else None)"

definition match_L16 :: "string \<Rightarrow> (string \<times> string \<times> string) option" where
  "match_L16 s =
     (case strip_lit ''l16-'' s of None \<Rightarrow> None | Some s1 \<Rightarrow>
      (case match_number s1 of None \<Rightarrow> None | Some (rate, s2) \<Rightarrow>
      (case strip_lit ''-16-'' s2 of None \<Rightarrow> None | Some s3 \<Rightarrow>
      (case match_number s3 of None \<Rightarrow> None | Some (chans, s4) \<Rightarrow>
      (case strip_lit ''-'' s4 of None \<Rightarrow> None | Some s5 \<Rightarrow>
      (case match_number s5 of None \<Rightarrow> None | Some (ptime, s6) \<Rightarrow>
      (if s6 = ''ms'' then Some (rate, chans, ptime) else None)))))))"

text \<open>\<open>Number(text)\<close> for a text of decimal digits.\<close>

definition number_of_digits :: "string \<Rightarrow> js_number" where
  "number_of_digits s = to_double (of_nat (digits_value 10 (map digit_value s)))"

definition profileMediaFormat :: "string \<Rightarrow> string \<Rightarrow> media_format result" where
  "profileMediaFormat profileToken channel =
     (case find (\<lambda>p. profile_token p = profileToken) PROFILES of
        None \<Rightarrow> Inl (session_error ''profile'' (''unknown profile '' @ quoted profileToken))
      | Some profile \<Rightarrow>
        (case find (\<lambda>m. media_channel m = channel) (profile_media_channels profile) of
           None \<Rightarrow> Inl (session_error ''media_unsupported'' (''profile '' @ quoted profileToken @ '' has no '' @ quoted channel @ '' channel''))
         | Some media \<Rightarrow>
           (case match_L16 (media_sdkFormat media) of
              None \<Rightarrow> Inl (session_error ''media_format'' (''profile '' @ quoted profileToken @ '' does not expose L16 SDK media''))
            | Some (rate, chans, ptime) \<Rightarrow>
                let fmt = \<lparr>encoding = ''L16'', sampleRate = number_of_digits rate, bitDepth = Fin 16,
                           channels = number_of_digits chans, packetTimeMs = number_of_digits ptime\<rparr>
                in bindR (mediaFrameBytes fmt) (\<lambda>_. Inr fmt))))"

section \<open>Descriptors\<close>

definition L16_descriptor :: "nat \<Rightarrow> nat \<Rightarrow> nat \<Rightarrow> string" where
  "L16_descriptor sr ch pt =
     ''l16-'' @ nat_text 10 sr @ ''-16-'' @ nat_text 10 ch @ ''-'' @ nat_text 10 pt @ ''ms''"

lemma strip_lit_append [simp]: "strip_lit a (a @ s) = Some s"
  by (induction a) auto

lemma match_number_nat_text:
  assumes "0 < n" "rest = [] \<or> \<not> is_digit (hd rest)"
  shows "match_number (nat_text 10 n @ rest) = Some (nat_text 10 n, rest)"
proof -
  obtain d ds where ds: "digits_in 10 n = d # ds" by (cases "digits_in 10 n") auto
  have small: "\<forall>e \<in> set (digits_in 10 n). e < 10" using digits_in_less [of 10] by auto
  have "0 < d" using digits_in_hd [of 10 n] assms(1) ds by simp
  moreover have "\<forall>c \<in> set (map digit_char ds). is_digit c" using small ds digit_char_decimal(1) by auto
  moreover have "takeWhile is_digit rest = []" "dropWhile is_digit rest = rest"
    using assms(2) by (cases rest, simp, simp)+
  ultimately have "0 < d" "takeWhile is_digit (map digit_char ds @ rest) = map digit_char ds"
    "dropWhile is_digit (map digit_char ds @ rest) = rest"
    by (simp_all only: takeWhile_append2 dropWhile_append2 append_Nil2)
  then show ?thesis
    using small ds digit_char_decimal(2) [of d] by (simp add: nat_text_def)
qed

lemma number_of_digits_nat_text: "n \<le> 2 ^ 53 \<Longrightarrow> number_of_digits (nat_text 10 n) = Fin (of_nat n)"
proof -
  assume n: "n \<le> 2 ^ 53"
  have "map digit_value (nat_text 10 n) = digits_in 10 n"
    using digits_in_less [of 10] digit_char_decimal(3) by (auto simp: nat_text_def o_def intro!: map_idI)
  with n show ?thesis by (simp add: number_of_digits_def digits_in_value to_double_nat)
qed

text \<open>
  The \<open>L16_FORMAT\<close> matcher reads every descriptor back: for positive rate, channel count
  and packet time the match yields the three decimal texts, and their numbers are the three values.
\<close>

theorem L16_descriptor_roundtrip:
  assumes "0 < sr" "0 < ch" "0 < pt" "sr \<le> 2 ^ 53" "ch \<le> 2 ^ 53" "pt \<le> 2 ^ 53"
  shows "map_option (\<lambda>(a, b, c). (number_of_digits a, number_of_digits b, number_of_digits c))
      (match_L16 (L16_descriptor sr ch pt)) = Some (Fin (of_nat sr), Fin (of_nat ch), Fin (of_nat pt))"
proof -
  have "match_L16 (L16_descriptor sr ch pt) = Some (nat_text 10 sr, nat_text 10 ch, nat_text 10 pt)"
  proof -
    let ?t3 = "nat_text 10 pt @ ''ms''"
    let ?t2 = "nat_text 10 ch @ ''-'' @ ?t3"
    let ?t1 = "nat_text 10 sr @ ''-16-'' @ ?t2"
    have "match_number ?t1 = Some (nat_text 10 sr, ''-16-'' @ ?t2)"
      "match_number ?t2 = Some (nat_text 10 ch, ''-'' @ ?t3)"
      "match_number ?t3 = Some (nat_text 10 pt, ''ms'')"
      using assms(1-3) by (intro match_number_nat_text; simp add: is_digit_def)+
    then show ?thesis
      unfolding match_L16_def L16_descriptor_def
      by (simp only: strip_lit_append option.case prod.case if_True simp_thms)
  qed
  with assms(4-6) show ?thesis by (simp add: number_of_digits_nat_text)
qed

theorem L16_descriptor_roundtrip_witness:
  "L16_descriptor 8000 1 20 = ''l16-8000-16-1-20ms''
   \<and> map_option (\<lambda>(a, b, c). (number_of_digits a, number_of_digits b, number_of_digits c))
      (match_L16 (L16_descriptor 8000 1 20)) = Some (Fin (of_nat 8000), Fin (of_nat 1), Fin (of_nat 20))"
  by (rule conjI [OF _ L16_descriptor_roundtrip])
    (simp_all add: L16_descriptor_def nat_text_def digits_in.simps digit_char_def char_of_def bit_0)

end
