(* ===== verification/Json_Text.thy ===== *)
theory Json_Text
  imports Errors Number_Text
begin

text \<open>
  JSON text.  \<open>json_text\<close> prints a JSON value the way \<open>JSON.stringify\<close> prints strings and numbers,
  \<open>json_grammar\<close> is RFC 8259 as an executable reader with a callback for number tokens: what the
  SDK relies on when it hands a text to its JSON library.  Reading a printed value gives it back.
\<close>

section \<open>Strings\<close>

abbreviation DQ :: char where "DQ \<equiv> CHR 0x22"
abbreviation BS :: char where "BS \<equiv> CHR 0x5C"

definition hex2 :: "nat \<Rightarrow> string" where
  "hex2 n = [digit_char (n div 16), digit_char (n mod 16)]"

definition escape_char :: "char \<Rightarrow> string" where
  "escape_char c =
     (if c = DQ \<or> c = BS then [BS, c]
      else if c = CHR 0x08 then [BS, CHR ''b'']
      else if c = CHR 0x09 then [BS, CHR ''t'']
      else if c = CHR 0x0A then [BS, CHR ''n'']
      else if c = CHR 0x0C then [BS, CHR ''f'']
      else if c = CHR 0x0D then [BS, CHR ''r'']
      else if of_char c < (32 :: nat) then BS # ''u00'' @ hex2 (of_char c)
      else [c])"

definition json_string :: "string \<Rightarrow> string" where
  "json_string s = DQ # concat (map escape_char s) @ [DQ]"

definition hex_value :: "char \<Rightarrow> nat option" where
  "hex_value c =
     (let n = of_char c in
      if 48 \<le> n \<and> n \<le> 57 then Some (n - 48)
      else if 97 \<le> n \<and> n \<le> 102 then Some (n - 87)
      else if 65 \<le> n \<and> n \<le> 70 then Some (n - 55)
      else None)"

definition hex_escape :: "string \<Rightarrow> (char \<times> string) option" where
  "hex_escape s =
     (case s of a # b # c # d # rest \<Rightarrow>
        (case (hex_value a, hex_value b, hex_value c, hex_value d) of
           (Some 0, Some 0, Some x, Some y) \<Rightarrow> Some (char_of (16 * x + y), rest)
         | _ \<Rightarrow> None)
      | _ \<Rightarrow> None)"

text \<open>One character of a string literal, from its first code unit and what follows.\<close>

definition read_char :: "char \<Rightarrow> string \<Rightarrow> (char \<times> string) option" where
  "read_char c s =
     (if of_char c < (32 :: nat) then None
      else if c \<noteq> BS then Some (c, s)
      else (case s of [] \<Rightarrow> None
        | e # rest \<Rightarrow>
            if e = CHR ''u'' then hex_escape rest
            else map_option (\<lambda>d. (d, rest))
              (map_of [(DQ, DQ), (BS, BS), (CHR ''/'', CHR ''/''), (CHR ''b'', CHR 0x08), (CHR ''t'', CHR 0x09),
                 (CHR ''n'', CHR 0x0A), (CHR ''f'', CHR 0x0C), (CHR ''r'', CHR 0x0D)] e)))"

lemma read_char_shorter: "read_char c s = Some (d, rest) \<Longrightarrow> length rest \<le> length s"
  by (auto simp: read_char_def hex_escape_def split: if_splits list.splits option.splits nat.splits prod.splits)

function (sequential) read_string :: "string \<Rightarrow> (string \<times> string) option" where
  "read_string [] = None"
| "read_string (c # s) =
     (if c = DQ then Some ([], s)
      else (case read_char c s of None \<Rightarrow> None
        | Some (d, rest) \<Rightarrow> map_option (\<lambda>(t, u). (d # t, u)) (read_string rest)))"
  by pat_completeness auto
termination
  by (relation "measure length") (auto dest!: read_char_shorter)

lemma hex_value_digit_char:
  assumes "d < 16"
  shows "hex_value (digit_char d) = Some d"
proof (cases "d < 10")
  case True
  then have "of_char (digit_char d) = 48 + d" by (simp add: digit_char_def take_bit_eq_mod)
  with True show ?thesis by (simp add: hex_value_def)
next
  case False
  with assms have "of_char (digit_char d) = 87 + d" by (simp add: digit_char_def take_bit_eq_mod)
  with False assms show ?thesis by (simp add: hex_value_def)
qed

lemma hex_escape_hex2:
  assumes "of_char c < (256 :: nat)"
  shows "hex_escape (''00'' @ hex2 (of_char c) @ rest) = Some (c, rest)"
proof -
  have "hex_value CHR ''0'' = Some 0" by (simp add: hex_value_def)
  moreover have "hex_value (digit_char (of_char c div 16)) = Some (of_char c div 16)"
    "hex_value (digit_char (of_char c mod 16)) = Some (of_char c mod 16)"
    using assms by (intro hex_value_digit_char less_mult_imp_div_less; simp)+
  ultimately show ?thesis by (simp add: hex_escape_def hex2_def)
qed

lemma of_char_256 [simp]: "of_char c < (256 :: nat)"
  using nat_of_char_less_256 .

lemma read_escape:
  "\<exists>e es. escape_char c = e # es \<and> e \<noteq> DQ \<and> read_char e (es @ rest) = Some (c, rest)"
proof -
  consider (quote) "c = DQ \<or> c = BS" | (short) "c \<in> {CHR 0x08, CHR 0x09, CHR 0x0A, CHR 0x0C, CHR 0x0D}"
    | (hex) "c \<noteq> DQ" "c \<noteq> BS" "c \<notin> {CHR 0x08, CHR 0x09, CHR 0x0A, CHR 0x0C, CHR 0x0D}" "of_char c < (32 :: nat)"
    | (plain) "c \<noteq> DQ" "c \<noteq> BS" "\<not> of_char c < (32 :: nat)"
    by blast
  then show ?thesis
  proof cases
    case quote
    then show ?thesis by (auto simp: escape_char_def read_char_def)
  next
    case short
    then show ?thesis by (auto simp: escape_char_def read_char_def)
  next
    case hex
    then have "escape_char c = BS # ''u00'' @ hex2 (of_char c)" by (simp add: escape_char_def)
    moreover have "read_char BS ((''u00'' @ hex2 (of_char c)) @ rest) = Some (c, rest)"
      using hex_escape_hex2 [of c rest] by (simp add: read_char_def)
    ultimately show ?thesis by auto
  next
    case plain
    then have "escape_char c = [c]"
      by (auto simp: escape_char_def)
    with plain show ?thesis by (simp add: read_char_def)
  qed
qed

lemma read_json_string: "read_string (concat (map escape_char s) @ DQ # rest) = Some (s, rest)"
proof (induction s)
  case Nil
  then show ?case by simp
next
  case (Cons c s)
  obtain e es where "escape_char c = e # es" "e \<noteq> DQ"
    "read_char e (es @ concat (map escape_char s) @ DQ # rest) = Some (c, concat (map escape_char s) @ DQ # rest)"
    using read_escape [of c "concat (map escape_char s) @ DQ # rest"] by blast
  with Cons.IH show ?case by simp
qed

section \<open>Printing\<close>

fun json_text :: "json \<Rightarrow> string" where
  "json_text JNull = ''null''"
| "json_text (JBool b) = (if b then ''true'' else ''false'')"
| "json_text (JNum x) = number_text x"
| "json_text (JStr s) = json_string s"
| "json_text (JArr xs) = ''['' @ join '','' (map json_text xs) @ '']''"
| "json_text (JObj ps) =
     ''{'' @ join '','' (map (\<lambda>(k, v). json_string k @ '':'' @ json_text v) ps) @ ''}''"

section \<open>The grammar\<close>

text \<open>
  The outcome of reading: no JSON text (or one whose meaning is left to the library: a repeated key,
  the key \<open>__proto__\<close>, a code unit above 255), what the number callback threw, or a value and the
  rest of the input.
\<close>

datatype 'a parsed = Syntax | Threw thrown | Parsed 'a string

definition map_parsed_value :: "('a \<Rightarrow> 'b) \<Rightarrow> 'a parsed \<Rightarrow> 'b parsed" where
  "map_parsed_value f p = (case p of Syntax \<Rightarrow> Syntax | Threw e \<Rightarrow> Threw e | Parsed a s \<Rightarrow> Parsed (f a) s)"

definition then_parse :: "'a parsed \<Rightarrow> ('a \<Rightarrow> string \<Rightarrow> 'b parsed) \<Rightarrow> 'b parsed" where
  "then_parse p f = (case p of Syntax \<Rightarrow> Syntax | Threw e \<Rightarrow> Threw e | Parsed a s \<Rightarrow> f a s)"

lemma parsed_simps [simp]:
  "map_parsed_value f (Parsed a s) = Parsed (f a) s"
  "then_parse (Parsed a s) g = g a s"
  by (simp_all add: map_parsed_value_def then_parse_def)

lemma then_parse_cong [fundef_cong]:
  "p = q \<Longrightarrow> (\<And>a s. q = Parsed a s \<Longrightarrow> f a s = g a s) \<Longrightarrow> then_parse p f = then_parse q g"
  by (cases q) (auto simp: then_parse_def)

definition skip_ws :: "string \<Rightarrow> string" where
  "skip_ws = dropWhile (\<lambda>c. c \<in> {CHR 0x20, CHR 0x09, CHR 0x0A, CHR 0x0D})"

definition number_char :: "char \<Rightarrow> bool" where
  "number_char c \<longleftrightarrow> is_digit c \<or> c \<in> {CHR ''-'', CHR ''+'', CHR ''.'', CHR ''e'', CHR ''E''}"

fun read_literal :: "string \<Rightarrow> 'a \<Rightarrow> string \<Rightarrow> 'a parsed" where
  "read_literal [] v s = Parsed v s"
| "read_literal (c # cs) v [] = Syntax"
| "read_literal (c # cs) v (d # ds) = (if c = d then read_literal cs v ds else Syntax)"

definition read_token :: "(string \<Rightarrow> js_number result) \<Rightarrow> string \<Rightarrow> json parsed" where
  "read_token pn s =
     (let t = takeWhile number_char s
      in if read_number t = None then Syntax
         else (case pn t of Inl e \<Rightarrow> Threw e | Inr x \<Rightarrow> Parsed (JNum x) (dropWhile number_char s)))"

definition object_value :: "(string \<times> json) list parsed \<Rightarrow> json parsed" where
  "object_value p = then_parse p (\<lambda>ms s.
     if distinct (map fst ms) \<and> ''__proto__'' \<notin> fst ` set ms then Parsed (JObj ms) s else Syntax)"

fun value_at :: "nat \<Rightarrow> (string \<Rightarrow> js_number result) \<Rightarrow> string \<Rightarrow> json parsed"
  and items_at :: "nat \<Rightarrow> (string \<Rightarrow> js_number result) \<Rightarrow> string \<Rightarrow> json list parsed"
  and members_at :: "nat \<Rightarrow> (string \<Rightarrow> js_number result) \<Rightarrow> string \<Rightarrow> (string \<times> json) list parsed" where
  "value_at 0 pn s = Syntax"
| "value_at (Suc f) pn s =
     (case skip_ws s of
        [] \<Rightarrow> Syntax
      | c # t \<Rightarrow>
          if c = CHR ''n'' then read_literal ''ull'' JNull t
          else if c = CHR ''t'' then read_literal ''rue'' (JBool True) t
          else if c = CHR ''f'' then read_literal ''alse'' (JBool False) t
          else if c = DQ then (case read_string t of None \<Rightarrow> Syntax | Some (x, u) \<Rightarrow> Parsed (JStr x) u)
          else if c = CHR ''['' then
            (if take 1 (skip_ws t) = '']'' then Parsed (JArr []) (drop 1 (skip_ws t))
             else map_parsed_value JArr (items_at f pn t))
          else if c = CHR ''{'' then
            (if take 1 (skip_ws t) = ''}'' then Parsed (JObj []) (drop 1 (skip_ws t))
             else object_value (members_at f pn t))
          else read_token pn (c # t))"
| "items_at 0 pn s = Syntax"
| "items_at (Suc f) pn s =
     then_parse (value_at f pn s) (\<lambda>v u.
       (case skip_ws u of
          [] \<Rightarrow> Syntax
        | c # t \<Rightarrow>
            if c = CHR '']'' then Parsed [v] t
            else if c = CHR '','' then map_parsed_value ((#) v) (items_at f pn t)
            else Syntax))"
| "members_at 0 pn s = Syntax"
| "members_at (Suc f) pn s =
     (case skip_ws s of
        [] \<Rightarrow> Syntax
      | q # s1 \<Rightarrow>
          if q \<noteq> DQ then Syntax
          else (case read_string s1 of None \<Rightarrow> Syntax
            | Some (k, s2) \<Rightarrow>
                (case skip_ws s2 of [] \<Rightarrow> Syntax
                 | c1 # s3 \<Rightarrow>
                     if c1 \<noteq> CHR '':'' then Syntax
                     else then_parse (value_at f pn s3) (\<lambda>v u.
                       (case skip_ws u of [] \<Rightarrow> Syntax
                        | c # t \<Rightarrow>
                            if c = CHR ''}'' then Parsed [(k, v)] t
                            else if c = CHR '','' then map_parsed_value ((#) (k, v)) (members_at f pn t)
                            else Syntax)))))"

text \<open>Every call consumes input, so the length of the text is enough fuel.\<close>

definition json_grammar :: "(string \<Rightarrow> js_number result) \<Rightarrow> string \<Rightarrow> json result option" where
  "json_grammar pn s =
     (case value_at (length s) pn s of
        Syntax \<Rightarrow> None
      | Threw e \<Rightarrow> Some (Inl e)
      | Parsed v u \<Rightarrow> if skip_ws u = [] then Some (Inr v) else None)"

section \<open>Reading what was printed\<close>

fun json_numbers :: "json \<Rightarrow> js_number list" where
  "json_numbers (JNum x) = [x]"
| "json_numbers (JArr xs) = concat (map json_numbers xs)"
| "json_numbers (JObj ps) = concat (map (\<lambda>(k, v). json_numbers v) ps)"
| "json_numbers _ = []"

fun unique_keys :: "json \<Rightarrow> bool" where
  "unique_keys (JArr xs) = list_all unique_keys xs"
| "unique_keys (JObj ps) =
     (distinct (map fst ps) \<and> ''__proto__'' \<notin> fst ` set ps \<and> list_all (\<lambda>(k, v). unique_keys v) ps)"
| "unique_keys _ = True"

definition finite_double :: "js_number \<Rightarrow> bool" where
  "finite_double x \<longleftrightarrow> is_double x \<and> (\<exists>r. x = Fin r)"

lemma set_digits_text: "decimal_digits ds \<Longrightarrow> \<forall>c \<in> set (digits_text ds). number_char c"
  using digits_text_is_digit by (auto simp: number_char_def)

lemma decimal_text_chars:
  assumes "decimal_digits ip" "decimal_digits fp"
  shows "\<forall>c \<in> set (decimal_text ip fp e). number_char c"
proof -
  have "\<forall>c \<in> set (nat_text 10 n). number_char c" for n
    using set_digits_text [OF digits_in_decimal] by (simp add: nat_text_digits)
  then show ?thesis
    using set_digits_text [OF assms(1)] set_digits_text [OF assms(2)]
    by (cases e) (auto simp: decimal_text_def exponent_text_def number_char_def)
qed

lemma number_layout_chars:
  assumes "decimal_digits ds"
  shows "\<forall>c \<in> set (number_layout ds n). number_char c"
proof -
  have "decimal_digits (take m ds)" "decimal_digits (drop m ds)" for m
    using assms set_take_subset [of m ds] set_drop_subset [of m ds] by (auto simp: list_all_iff)
  moreover have "decimal_digits (replicate m 0)" for m by (auto simp: list_all_iff)
  ultimately show ?thesis
    using assms unfolding number_layout_def Let_def
    by (auto split: if_splits dest!: bspec [OF decimal_text_chars, rotated -1])
qed

lemma number_text_chars: "\<forall>c \<in> set (number_text (Fin r)). number_char c"
proof -
  have strip: "decimal_digits (strip_zeros (digits_in 10 s))" for s
    using digits_in_decimal [of s] set_dropWhileD [of _ "\<lambda>d. d = 0" "rev (digits_in 10 s)"]
    by (auto simp: strip_zeros_def list_all_iff)
  have "\<forall>c \<in> set (positive_text x). number_char c" for x
    using number_layout_chars [OF strip] set_digits_text [OF digits_in_decimal]
    by (auto simp: positive_text_def Let_def nat_text_digits split: option.splits)
  moreover have "number_char CHR ''-''" by (simp add: number_char_def)
  ultimately show ?thesis by auto
qed

lemma number_text_head:
  assumes "is_double (Fin r)"
  shows "\<exists>c cs. number_text (Fin r) = c # cs \<and> (is_digit c \<or> c = CHR ''-'')"
proof -
  obtain y where "read_decimal (positive_text \<bar>r\<bar>) = Some y"
    using read_positive_text [of "\<bar>r\<bar>"] assms by (auto simp: is_double_def)
  from read_decimal_head [OF this] show ?thesis by (auto simp: abs_if split: if_splits)
qed

lemma read_number_text: "is_double (Fin r) \<Longrightarrow> read_number (number_text (Fin r)) \<noteq> None"
  using number_of_number_text [of r]
  by (cases "read_number (number_text (Fin r))") (simp_all add: number_of_text_def del: number_text.simps)

abbreviation delimited :: "string \<Rightarrow> bool" where
  "delimited rest \<equiv> rest = [] \<or> \<not> number_char (hd rest)"

lemma read_token_number:
  assumes "is_double (Fin r)" "pn (number_text (Fin r)) = Inr x" "delimited rest"
  shows "read_token pn (number_text (Fin r) @ rest) = Parsed (JNum x) rest"
proof -
  have "takeWhile number_char rest = []" "dropWhile number_char rest = rest"
    using assms(3) by (cases rest, simp, simp)+
  moreover have "\<And>c. c \<in> set (number_text (Fin r)) \<Longrightarrow> number_char c" using number_text_chars by blast
  ultimately have "takeWhile number_char (number_text (Fin r) @ rest) = number_text (Fin r)"
    "dropWhile number_char (number_text (Fin r) @ rest) = rest"
    by (simp_all only: takeWhile_append2 dropWhile_append2 append_Nil2)
  with read_number_text [OF assms(1)] assms(2) show ?thesis
    by (auto simp: read_token_def Let_def simp del: number_text.simps)
qed

lemma skip_ws_head: "c \<notin> {CHR 0x20, CHR 0x09, CHR 0x0A, CHR 0x0D} \<Longrightarrow> skip_ws (c # s) = c # s"
  by (simp add: skip_ws_def)

lemma skip_ws_simps [simp]:
  "skip_ws [] = []"
  "skip_ws (DQ # s) = DQ # s" "skip_ws (CHR '','' # s) = CHR '','' # s" "skip_ws (CHR '':'' # s) = CHR '':'' # s"
  "skip_ws (CHR '']'' # s) = CHR '']'' # s" "skip_ws (CHR ''}'' # s) = CHR ''}'' # s"
  "skip_ws (CHR ''['' # s) = CHR ''['' # s" "skip_ws (CHR ''{'' # s) = CHR ''{'' # s"
  "skip_ws (CHR ''n'' # s) = CHR ''n'' # s" "skip_ws (CHR ''t'' # s) = CHR ''t'' # s"
  "skip_ws (CHR ''f'' # s) = CHR ''f'' # s"
  by (simp_all add: skip_ws_def)

lemma value_at_number:
  assumes "finite_double x" "pn (number_text x) = Inr x" "delimited rest"
  shows "value_at (Suc f) pn (number_text x @ rest) = Parsed (JNum x) rest"
proof -
  obtain r where x: "x = Fin r" and d: "is_double (Fin r)" using assms(1) by (auto simp: finite_double_def)
  obtain c cs where c: "number_text (Fin r) = c # cs" "is_digit c \<or> c = CHR ''-''"
    using number_text_head [OF d] by blast
  then have "c \<notin> {CHR 0x20, CHR 0x09, CHR 0x0A, CHR 0x0D, CHR ''n'', CHR ''t'', CHR ''f'', DQ, CHR ''['', CHR ''{''}"
    by (auto simp: is_digit_def)
  then show ?thesis
    using read_token_number [OF d _ assms(3), of pn x] assms(2) c(1) x by (simp add: skip_ws_head)
qed

lemma value_at_string: "value_at (Suc f) pn (json_string s @ rest) = Parsed (JStr s) rest"
  using read_json_string [of s rest] by (simp add: json_string_def)

abbreviation member_text :: "string \<times> json \<Rightarrow> string" where
  "member_text \<equiv> \<lambda>(k, v). json_string k @ '':'' @ json_text v"

definition reads :: "(string \<Rightarrow> js_number result) \<Rightarrow> json \<Rightarrow> bool" where
  "reads pn j \<longleftrightarrow> (\<forall>f rest. delimited rest \<longrightarrow> length (json_text j) \<le> f \<longrightarrow>
     value_at f pn (json_text j @ rest) = Parsed j rest)"

lemma delimited_simps [simp]:
  "\<not> number_char CHR '',''" "\<not> number_char CHR '']''" "\<not> number_char CHR ''}''"
  by (simp_all add: number_char_def is_digit_def)

lemma readsD:
  "reads pn j \<Longrightarrow> delimited rest \<Longrightarrow> length (json_text j) \<le> f \<Longrightarrow>
    value_at f pn (json_text j @ rest) = Parsed j rest"
  unfolding reads_def by blast

lemma items_at_text:
  assumes "\<forall>x \<in> set xs. reads pn x" "xs \<noteq> []" "length (join '','' (map json_text xs)) < f"
  shows "items_at f pn (join '','' (map json_text xs) @ '']'' @ rest) = Parsed xs rest"
  using assms
proof (induction xs arbitrary: f rule: induct_list012)
  case (2 x)
  then obtain f' where "f = Suc f'" "length (json_text x) \<le> f'" by (cases f) auto
  with 2 show ?case using readsD [of pn x "'']'' @ rest" f'] by simp
next
  case (3 x y zs)
  let ?j = "join '','' (map json_text (y # zs))"
  obtain f' where f: "f = Suc f'" "length (json_text x) \<le> f'" "length ?j < f'"
    using "3.prems"(3) by (cases f) auto
  have "value_at f' pn (json_text x @ '','' @ ?j @ '']'' @ rest) = Parsed x ('','' @ ?j @ '']'' @ rest)"
    using "3.prems"(1) f(2) by (intro readsD) auto
  moreover have "items_at f' pn (?j @ '']'' @ rest) = Parsed (y # zs) rest"
    using "3.prems"(1) f(3) by (intro "3.IH"(2)) auto
  ultimately show ?case using f(1) by simp
qed simp

lemma members_at_text:
  assumes "\<forall>p \<in> set ps. reads pn (snd p)" "ps \<noteq> []" "length (join '','' (map member_text ps)) < f"
  shows "members_at f pn (join '','' (map member_text ps) @ ''}'' @ rest) = Parsed ps rest"
  using assms
proof (induction ps arbitrary: f rule: induct_list012)
  case (2 p)
  obtain k v where p: "p = (k, v)" by (cases p)
  with 2 obtain f' where f: "f = Suc f'" "length (json_text v) \<le> f'" by (cases f) auto
  have "value_at f' pn (json_text v @ ''}'' @ rest) = Parsed v (''}'' @ rest)"
    using 2 p f by (intro readsD) auto
  then show ?case using f(1) p read_json_string by (simp add: json_string_def)
next
  case (3 p q zs)
  obtain k v where p: "p = (k, v)" by (cases p)
  let ?j = "join '','' (map member_text (q # zs))"
  obtain f' where f: "f = Suc f'" "length (json_text v) \<le> f'" "length ?j < f'"
    using "3.prems"(3) p by (cases f) auto
  have "value_at f' pn (json_text v @ '','' @ ?j @ ''}'' @ rest) = Parsed v ('','' @ ?j @ ''}'' @ rest)"
    using "3.prems"(1) p f(2) by (intro readsD) auto
  moreover have "members_at f' pn (?j @ ''}'' @ rest) = Parsed (q # zs) rest"
    using "3.prems"(1) f(3) by (intro "3.IH"(2)) auto
  ultimately show ?case using f(1) p read_json_string by (simp add: json_string_def)
qed simp

lemma json_text_not_Nil:
  assumes "\<forall>x \<in> set (json_numbers j). finite_double x"
  shows "\<exists>c cs. json_text j = c # cs \<and> c \<notin> {CHR '']'', CHR ''}'', CHR 0x20, CHR 0x09, CHR 0x0A, CHR 0x0D}"
proof (cases j)
  case (JNum x)
  with assms obtain r where "x = Fin r" "is_double (Fin r)" by (auto simp: finite_double_def)
  with number_text_head [of r] JNum show ?thesis by (auto simp: is_digit_def simp del: number_text.simps)
qed (simp_all add: json_string_def)

lemma join_head:
  "xs \<noteq> [] \<Longrightarrow> hd xs = c # cs \<Longrightarrow> \<exists>us. join sep xs = c # us"
  by (cases xs; cases "tl xs") auto

lemma reads_json_text:
  assumes "\<forall>x \<in> set (json_numbers j). finite_double x \<and> pn (number_text x) = Inr x" "unique_keys j"
  shows "reads pn j"
  using assms
proof (induction j)
  case (JNum x)
  have "json_text (JNum x) \<noteq> []" using json_text_not_Nil [of "JNum x"] JNum.prems(1) by fastforce
  then show ?case using JNum.prems value_at_number [of x pn]
    unfolding reads_def by (metis json_text.simps(3) json_numbers.simps(1) le_zero_eq length_0_conv list.set_intros(1) not0_implies_Suc)
next
  case (JStr s)
  show ?case unfolding reads_def
    using value_at_string by (auto simp: json_string_def gr0_conv_Suc dest!: Suc_le_D)
next
  case (JArr xs)
  have IH: "\<forall>x \<in> set xs. reads pn x"
    using JArr by (auto simp: list_all_iff)
  show ?case unfolding reads_def
  proof (intro allI impI)
    fix f rest assume "length (json_text (JArr xs)) \<le> f"
    then obtain f' where f: "f = Suc f'" "length (join '','' (map json_text xs)) < f'" by (cases f) auto
    show "value_at f pn (json_text (JArr xs) @ rest) = Parsed (JArr xs) rest"
    proof (cases "xs = []")
      case False
      obtain c cs where c: "json_text (hd xs) = c # cs" "c \<notin> {CHR '']'', CHR ''}'', CHR 0x20, CHR 0x09, CHR 0x0A, CHR 0x0D}"
        using json_text_not_Nil [of "hd xs"] JArr.prems(1) False by (cases xs) auto
      obtain us where "join '','' (map json_text xs) = c # us"
        using join_head [of "map json_text xs" c cs] c(1) False by (auto simp: hd_map)
      then show ?thesis
        using items_at_text [OF IH False f(2), of rest] f(1) c(2) by (simp add: skip_ws_head)
    qed (simp add: f)
  qed
next
  case (JObj ps)
  have IH: "\<forall>p \<in> set ps. reads pn (snd p)"
    using JObj by (fastforce simp: list_all_iff)
  show ?case unfolding reads_def
  proof (intro allI impI)
    fix f rest assume "length (json_text (JObj ps)) \<le> f"
    then obtain f' where f: "f = Suc f'" "length (join '','' (map member_text ps)) < f'" by (cases f) auto
    show "value_at f pn (json_text (JObj ps) @ rest) = Parsed (JObj ps) rest"
    proof (cases "ps = []")
      case False
      obtain cs where "member_text (hd ps) = DQ # cs" by (cases "hd ps") (simp add: json_string_def)
      then obtain us where "join '','' (map member_text ps) = DQ # us"
        using join_head [of "map member_text ps" DQ cs] False by (auto simp: hd_map)
      then show ?thesis
        using members_at_text [OF IH False f(2), of rest] f(1) JObj.prems(2)
        by (simp add: object_value_def)
    qed (simp add: f)
  qed
qed (auto simp: reads_def gr0_conv_Suc dest!: Suc_le_D split: if_splits)

lemma json_grammar_text:
  assumes "\<forall>x \<in> set (json_numbers j). finite_double x \<and> pn (number_text x) = Inr x" "unique_keys j"
  shows "json_grammar pn (json_text j) = Some (Inr j)"
  using readsD [OF reads_json_text [OF assms], of "[]"] by (simp add: json_grammar_def)

section \<open>What the reader accepts\<close>

lemma then_parse_Parsed: "then_parse p f = Parsed b u \<longleftrightarrow> (\<exists>a s. p = Parsed a s \<and> f a s = Parsed b u)"
  by (cases p) (auto simp: then_parse_def)

lemma map_parsed_Parsed: "map_parsed_value f p = Parsed b u \<longleftrightarrow> (\<exists>a. p = Parsed a u \<and> b = f a)"
  by (cases p) (auto simp: map_parsed_value_def)

lemma read_literal_Parsed: "read_literal cs v s = Parsed w u \<Longrightarrow> w = v"
  by (induction cs v s rule: read_literal.induct) (auto split: if_splits)

definition accepted :: "(string \<Rightarrow> js_number result) \<Rightarrow> json \<Rightarrow> bool" where
  "accepted pn j \<longleftrightarrow> unique_keys j \<and> (\<forall>x \<in> set (json_numbers j). \<exists>t. pn t = Inr x)"

lemma accepted_simps [simp]:
  "accepted pn JNull" "accepted pn (JBool b)" "accepted pn (JStr s)" "accepted pn (JObj [])"
  "accepted pn (JArr xs) \<longleftrightarrow> (\<forall>x \<in> set xs. accepted pn x)"
  by (auto simp: accepted_def list_all_iff)

lemma accepted_JObj:
  "distinct (map fst ms) \<Longrightarrow> ''__proto__'' \<notin> fst ` set ms \<Longrightarrow> \<forall>p \<in> set ms. accepted pn (snd p) \<Longrightarrow>
    accepted pn (JObj ms)"
  by (fastforce simp: accepted_def list_all_iff)

lemma read_token_accepted: "read_token pn s = Parsed j u \<Longrightarrow> accepted pn j"
  by (auto simp: read_token_def Let_def accepted_def split: if_splits sum.splits)

lemma object_value_accepted:
  "object_value p = Parsed j u \<Longrightarrow> (\<And>ms u. p = Parsed ms u \<Longrightarrow> \<forall>m \<in> set ms. accepted pn (snd m)) \<Longrightarrow> accepted pn j"
  by (auto simp: object_value_def then_parse_Parsed split: if_splits intro!: accepted_JObj)

lemma grammar_accepted:
  "value_at f pn s = Parsed j u \<Longrightarrow> accepted pn j"
  "items_at f pn s = Parsed js u \<Longrightarrow> \<forall>x \<in> set js. accepted pn x"
  "members_at f pn s = Parsed ms u \<Longrightarrow> \<forall>m \<in> set ms. accepted pn (snd m)"
proof (induction f pn s and f pn s and f pn s arbitrary: j u and js u and ms u
    rule: value_at_items_at_members_at.induct)
  case (2 f pn s)
  show ?case
  proof (cases "skip_ws s")
    case (Cons c t)
    with "2.prems" show ?thesis
      by (auto split: if_splits option.splits dest!: read_literal_Parsed
          simp: map_parsed_Parsed read_token_accepted 2 elim!: object_value_accepted)
        (use 2(2) [OF Cons] in fastforce)
  qed (use "2.prems" in simp)
next
  case (4 f pn s)
  from "4.prems" obtain v u1 where v: "value_at f pn s = Parsed v u1"
    and r: "(case skip_ws u1 of [] \<Rightarrow> Syntax
        | c # t \<Rightarrow> if c = CHR '']'' then Parsed [v] t
            else if c = CHR '','' then map_parsed_value ((#) v) (items_at f pn t) else Syntax) = Parsed js u"
    unfolding items_at.simps then_parse_Parsed by blast
  have a: "accepted pn v" using "4.IH"(1) v by blast
  from r obtain c t where ct: "skip_ws u1 = c # t" by (cases "skip_ws u1") auto
  show ?case
  proof (cases "c = CHR '']''")
    case False
    with r ct have c: "c = CHR '',''" by (simp split: if_splits)
    with r ct obtain js' where "items_at f pn t = Parsed js' u" "js = v # js'"
      by (auto simp: map_parsed_Parsed)
    with "4.IH"(2) [OF v ct False c] a show ?thesis by auto
  qed (use r ct a in auto)
next
  case (6 f pn s)
  obtain s1 where s1: "skip_ws s = DQ # s1"
    using "6.prems" by (cases "skip_ws s") (auto split: if_splits)
  obtain k s2 where s2: "read_string s1 = Some (k, s2)"
    using "6.prems" s1 by (cases "read_string s1") auto
  obtain s3 where s3: "skip_ws s2 = CHR '':'' # s3"
    using "6.prems" s1 s2 by (cases "skip_ws s2") (auto split: if_splits)
  from "6.prems" have "then_parse (value_at f pn s3) (\<lambda>v u. (case skip_ws u of [] \<Rightarrow> Syntax
      | c # t \<Rightarrow> if c = CHR ''}'' then Parsed [(k, v)] t
          else if c = CHR '','' then map_parsed_value ((#) (k, v)) (members_at f pn t) else Syntax)) = Parsed ms u"
    using s1 s2 s3 by simp
  then obtain v u1 where v: "value_at f pn s3 = Parsed v u1"
    and r: "(case skip_ws u1 of [] \<Rightarrow> Syntax
      | c # t \<Rightarrow> if c = CHR ''}'' then Parsed [(k, v)] t
          else if c = CHR '','' then map_parsed_value ((#) (k, v)) (members_at f pn t) else Syntax) = Parsed ms u"
    unfolding then_parse_Parsed by blast
  have a: "accepted pn v" using "6.IH"(1) s1 s2 s3 v by auto
  from r obtain c t where ct: "skip_ws u1 = c # t" by (cases "skip_ws u1") auto
  show ?case
  proof (cases "c = CHR ''}''")
    case False
    with r ct have c: "c = CHR '',''" by (simp split: if_splits)
    with r ct obtain ms' where "members_at f pn t = Parsed ms' u" "ms = (k, v) # ms'"
      by (auto simp: map_parsed_Parsed)
    with "6.IH"(2) [OF s1 _ s2 refl s3 _ v ct False c] a show ?thesis by auto
  qed (use r ct a in auto)
qed simp_all

lemma json_grammar_accepted: "json_grammar pn s = Some (Inr j) \<Longrightarrow> accepted pn j"
  by (auto simp: json_grammar_def grammar_accepted split: parsed.splits if_splits)

end
