(* ===== verification/Wire.thy ===== *)
theory Wire
  imports Json_Text
begin

text \<open>
  \<open>wire.ts\<close>: encoding JavaScript values as JSON text without silent coercion, and decoding.  A value
  is a primitive or a reference into a heap of objects, since the encoder's cycle check is about
  object identity; \<open>wire_value\<close> is the tree that a value without cycles unfolds to.  The JSON
  library behind \<open>decodeWireJson\<close> is a parameter with the laws of the locale \<open>json_library\<close>.
\<close>

section \<open>Values\<close>

text \<open>\<open>POther\<close> is a value without a JSON form, by its \<open>typeof\<close>.\<close>

datatype prim = PNull | PBool bool | PNum js_number | PStr string | POther string

text \<open>
  The objects the encoder tells apart: an array, whose holes are \<^term>\<open>None\<close>; an ordered object made
  by \<open>wireObject\<close>; any other object, with whether its prototype is \<open>Object.prototype\<close> or \<open>null\<close>,
  and its enumerable own properties in insertion order; an accessor carries what its getter returns.
\<close>

datatype 'v property = Data 'v | Accessor 'v

datatype 'v wire_object =
    ArrayObject "'v option list"
  | OrderedObject "(string \<times> 'v) list"
  | PlainObject bool "(string \<times> 'v property) list"

datatype js_value = VPrim prim | VRef nat

type_synonym heap = "js_value wire_object list"

datatype wire_value = WPrim prim | WObject "wire_value wire_object"

abbreviation "WNull \<equiv> WPrim PNull"
abbreviation "WStr s \<equiv> WPrim (PStr s)"
abbreviation "WNum x \<equiv> WPrim (PNum x)"

section \<open>Order of own properties\<close>

text \<open>
  \<open>Object.keys\<close> lists the array indices in ascending order before the other keys, which keep their
  insertion order.
\<close>

definition array_index :: "string \<Rightarrow> nat option" where
  "array_index k =
     (if k = [] \<or> \<not> list_all is_digit k \<or> (hd k = CHR ''0'' \<and> k \<noteq> ''0'') then None
      else let n = digits_value 10 (map digit_value k) in if n < 2 ^ 32 - 1 then Some n else None)"

definition own_order :: "(string \<times> 'a) list \<Rightarrow> (string \<times> 'a) list" where
  "own_order ps =
     sort_key (\<lambda>p. the (array_index (fst p))) (filter (\<lambda>p. array_index (fst p) \<noteq> None) ps)
     @ filter (\<lambda>p. array_index (fst p) = None) ps"

lemma set_own_order [simp]: "set (own_order ps) = set ps"
  by (auto simp: own_order_def)

lemma own_order_id: "\<forall>p \<in> set ps. array_index (fst p) = None \<Longrightarrow> own_order ps = ps"
  by (simp add: own_order_def filter_False)

section \<open>\<open>wireObject\<close> and \<open>wireMap\<close>\<close>

definition wireObject :: "(string \<times> 'v) list \<Rightarrow> 'v wire_object" where
  "wireObject entries = OrderedObject entries"

definition wireMap :: "(string \<times> 'v) list \<Rightarrow> 'v wire_object" where
  "wireMap values = wireObject (sort_key fst (own_order values))"

section \<open>Encoding\<close>

abbreviation wire_json_error :: "string \<Rightarrow> 'a result" where
  "wire_json_error m \<equiv> Inl (WireJsonError m)"

fun encode_prim :: "prim \<Rightarrow> string result" where
  "encode_prim PNull = Inr ''null''"
| "encode_prim (PStr s) = Inr (json_string s)"
| "encode_prim (PBool b) = Inr (if b then ''true'' else ''false'')"
| "encode_prim (PNum x) =
     (if \<not> isFinite x \<or> x = NegZero \<or> (isInteger x \<and> \<not> isSafeInteger x)
      then wire_json_error (''number '' @ quoted (number_text x) @ '' is not a safe JavaScript number'')
      else Inr (number_text x))"
| "encode_prim (POther t) = wire_json_error (''unsupported JSON value: '' @ t)"

fun encode_entries :: "('v \<Rightarrow> string result) \<Rightarrow> string list \<Rightarrow> (string \<times> 'v) list \<Rightarrow> string list result" where
  "encode_entries enc seenKeys [] = Inr []"
| "encode_entries enc seenKeys ((key, entry) # es) =
     (if key \<in> set seenKeys then wire_json_error (''duplicate JSON key '' @ quoted key)
      else bindR (enc entry) (\<lambda>t.
           bindR (encode_entries enc (key # seenKeys) es) (\<lambda>ts.
           Inr ((json_string key @ '':'' @ t) # ts))))"

fun plain_entry :: "string \<times> 'v property \<Rightarrow> (string \<times> 'v) result" where
  "plain_entry (key, Accessor v) = wire_json_error (''JSON property '' @ quoted key @ '' must not be an accessor'')"
| "plain_entry (key, Data v) = Inr (key, v)"

definition plain_entries :: "bool \<Rightarrow> (string \<times> 'v property) list \<Rightarrow> (string \<times> 'v) list result" where
  "plain_entries plain ps =
     (if \<not> plain then wire_json_error ''JSON objects must have a plain or null prototype''
      else traverse plain_entry (own_order ps))"

definition encode_array :: "('v \<Rightarrow> string result) \<Rightarrow> 'v option list \<Rightarrow> string result" where
  "encode_array enc items =
     bindR (traverse (\<lambda>i. case i of None \<Rightarrow> wire_json_error ''sparse JSON array'' | Some v \<Rightarrow> enc v) items)
       (\<lambda>ts. Inr (''['' @ join '','' ts @ '']''))"

definition encode_members :: "('v \<Rightarrow> string result) \<Rightarrow> (string \<times> 'v) list \<Rightarrow> string result" where
  "encode_members enc es = bindR (encode_entries enc [] es) (\<lambda>ts. Inr (''{'' @ join '','' ts @ ''}''))"

fun encode_object :: "('v \<Rightarrow> string result) \<Rightarrow> 'v wire_object \<Rightarrow> string result" where
  "encode_object enc (ArrayObject items) = encode_array enc items"
| "encode_object enc (OrderedObject es) = encode_members enc es"
| "encode_object enc (PlainObject plain ps) = bindR (plain_entries plain ps) (encode_members enc)"

lemma encode_entries_cong [fundef_cong]:
  "es = es' \<Longrightarrow> (\<And>k v. (k, v) \<in> set es' \<Longrightarrow> f v = g v) \<Longrightarrow> encode_entries f seen es = encode_entries g seen es'"
proof (induction es arbitrary: es' seen)
  case (Cons e es)
  obtain k v where e: "e = (k, v)" by (cases e)
  have "encode_entries f (k # seen) es = encode_entries g (k # seen) es"
    by (rule Cons.IH [OF refl]) (metis Cons.prems list.set_intros(2))
  moreover have "f v = g v" using Cons.prems(1) e by (intro Cons.prems(2) [of k]) auto
  ultimately show ?case using Cons.prems(1) e by auto
qed simp

lemma plain_entries_set:
  assumes "plain_entries plain ps = Inr es" "(k, v) \<in> set es"
  shows "(k, Data v) \<in> set ps"
  using assms unfolding plain_entries_def
  by (auto dest!: traverse_set split: if_splits elim!: plain_entry.elims)

lemma encode_array_cong:
  "(\<And>v. Some v \<in> set items \<Longrightarrow> f v = g v) \<Longrightarrow> encode_array f items = encode_array g items"
proof -
  assume "\<And>v. Some v \<in> set items \<Longrightarrow> f v = g v"
  then have "traverse (\<lambda>i. case i of None \<Rightarrow> wire_json_error ''sparse JSON array'' | Some v \<Rightarrow> f v) items =
      traverse (\<lambda>i. case i of None \<Rightarrow> wire_json_error ''sparse JSON array'' | Some v \<Rightarrow> g v) items"
    by (intro traverse_cong) (auto split: option.splits)
  then show ?thesis by (simp add: encode_array_def)
qed

lemma encode_members_cong:
  "(\<And>k v. (k, v) \<in> set es \<Longrightarrow> f v = g v) \<Longrightarrow> encode_members f es = encode_members g es"
  unfolding encode_members_def by (subst encode_entries_cong [OF refl]) auto

lemma encode_object_cong [fundef_cong]:
  assumes "ob = ob'" "\<And>v. v \<in> set_wire_object ob' \<Longrightarrow> f v = g v"
  shows "encode_object f ob = encode_object g ob'"
proof (cases ob')
  case (ArrayObject items)
  with assms show ?thesis by (auto intro!: encode_array_cong)
next
  case (OrderedObject es)
  with assms show ?thesis by (force intro!: encode_members_cong)
next
  case (PlainObject plain ps)
  have "encode_members f es = encode_members g es" if "plain_entries plain ps = Inr es" for es
    using plain_entries_set [OF that] assms(2) PlainObject by (force intro!: encode_members_cong)
  then show ?thesis using assms(1) PlainObject by (auto intro!: bindR_cong)
qed

text \<open>\<open>encodeValue\<close>: the addresses on the path from the root are the \<open>ancestors\<close>.\<close>

function encodeValue :: "heap \<Rightarrow> js_value \<Rightarrow> nat list \<Rightarrow> string result" where
  "encodeValue h v ancestors =
     (case v of
        VPrim p \<Rightarrow> encode_prim p
      | VRef a \<Rightarrow>
          if a \<in> set ancestors then wire_json_error ''cyclic JSON value''
          else if length h \<le> a then Inl (JsError ''dangling reference'')
          else encode_object (\<lambda>w. encodeValue h w (a # ancestors)) (h ! a))"
  by pat_completeness auto
termination
proof (relation "measure (\<lambda>(h, v, anc). card ({..<length h} - set anc))", goal_cases)
  case (2 h v anc a w)
  then have "a \<in> {..<length h} - set anc" by simp
  then have "card ({..<length h} - set anc - {a}) < card ({..<length h} - set anc)"
    by (intro card_Diff1_less) auto
  moreover have "{..<length h} - set (a # anc) = {..<length h} - set anc - {a}" by auto
  ultimately show ?case by (simp only: in_measure prod.case)
qed simp

declare encodeValue.simps [simp del]

definition encodeWireJson :: "heap \<Rightarrow> js_value \<Rightarrow> string result" where
  "encodeWireJson h v = encodeValue h v []"

text \<open>The same encoder on trees, where no cycle can occur.\<close>

lemma size_wire_object [termination_simp]:
  "v \<in> set_wire_object ob \<Longrightarrow> size v < Suc (size_wire_object size ob)"
proof (cases ob)
  case (ArrayObject items)
  assume "v \<in> set_wire_object ob"
  then have "size v \<le> size_list (size_option size) items"
    using ArrayObject by (auto intro!: size_list_estimation')
  then show ?thesis using ArrayObject by simp
next
  case (OrderedObject es)
  assume "v \<in> set_wire_object ob"
  then have "size v \<le> size_list (size_prod (\<lambda>_. 0) size) es"
    using OrderedObject by (auto intro!: size_list_estimation' elim!: snds.cases)
  then show ?thesis using OrderedObject by simp
next
  case (PlainObject plain ps)
  assume "v \<in> set_wire_object ob"
  then have "size v \<le> size_list (size_prod (\<lambda>_. 0) (size_property size)) ps"
    using PlainObject by (auto intro!: size_list_estimation' elim!: snds.cases property.set_cases)
  then show ?thesis using PlainObject by simp
qed

fun encode_tree :: "wire_value \<Rightarrow> string result" where
  "encode_tree (WPrim p) = encode_prim p"
| "encode_tree (WObject ob) = encode_object encode_tree ob"

section \<open>Decoding\<close>

definition unsafe_text :: "string \<Rightarrow> thrown" where
  "unsafe_text t = WireJsonError (''JSON number '' @ quoted t @ '' is not a safe JavaScript number'')"

definition parseNumber :: "(string \<Rightarrow> bool) \<Rightarrow> string \<Rightarrow> js_number result" where
  "parseNumber isSafeNumber t =
     (if \<not> isSafeNumber t then Inl (unsafe_text t)
      else let parsed = number_of_text t
           in if \<not> isFinite parsed \<or> parsed = NegZero \<or> (isInteger parsed \<and> \<not> isSafeInteger parsed)
              then Inl (unsafe_text t) else Inr parsed)"

fun decode_failure :: "thrown \<Rightarrow> thrown" where
  "decode_failure (WireJsonError m) = WireJsonError m"
| "decode_failure e = WireJsonError (''invalid RTVBP JSON: '' @ error_text e)"

type_synonym json_parse = "(string \<Rightarrow> js_number result) \<Rightarrow> string \<Rightarrow> json result"

definition decodeWireJson :: "json_parse \<Rightarrow> (string \<Rightarrow> bool) \<Rightarrow> string \<Rightarrow> json result" where
  "decodeWireJson parse isSafeNumber bytes =
     (case parse (parseNumber isSafeNumber) bytes of Inr v \<Rightarrow> Inr v | Inl e \<Rightarrow> Inl (decode_failure e))"

section \<open>The heap encoder and the tree encoder\<close>

text \<open>The tree that a value unfolds to, if there is one: a value on a cycle has none.\<close>

inductive unfolds :: "heap \<Rightarrow> js_value \<Rightarrow> wire_value \<Rightarrow> bool" for h where
  prim: "unfolds h (VPrim p) (WPrim p)"
| object: "a < length h \<Longrightarrow> rel_wire_object (unfolds h) (h ! a) ob \<Longrightarrow> unfolds h (VRef a) (WObject ob)"
monos wire_object.rel_mono_strong

inductive_cases unfolds_PrimE: "unfolds h (VPrim p) t"
inductive_cases unfolds_RefE: "unfolds h (VRef a) t"

lemma rel_wire_object_deterministic:
  assumes "rel_wire_object (\<lambda>x y. R x y \<and> (\<forall>z. R x z \<longrightarrow> y = z)) ob ob1" "rel_wire_object R ob ob2"
  shows "ob1 = ob2"
proof -
  have "rel_wire_object ((\<lambda>x y. R x y \<and> (\<forall>z. R x z \<longrightarrow> y = z))\<inverse>\<inverse> OO R) ob1 ob2"
    using assms unfolding wire_object.rel_compp wire_object.rel_conversep by blast
  then have "rel_wire_object (=) ob1 ob2" by (rule wire_object.rel_mono_strong) auto
  then show ?thesis by (simp add: wire_object.rel_eq)
qed

lemma unfolds_deterministic: "unfolds h v t \<Longrightarrow> unfolds h v t' \<Longrightarrow> t = t'"
proof (induction arbitrary: t' rule: unfolds.induct)
  case (prim p)
  then show ?case by (auto elim: unfolds_PrimE)
next
  case (object a ob)
  from object.prems obtain ob' where t': "t' = WObject ob'" "rel_wire_object (unfolds h) (h ! a) ob'"
    by (auto elim: unfolds_RefE)
  have "rel_wire_object (\<lambda>x y. unfolds h x y \<and> (\<forall>z. unfolds h x z \<longrightarrow> y = z)) (h ! a) ob"
    using object.IH by (rule wire_object.rel_mono_strong) auto
  from rel_wire_object_deterministic [OF this t'(2)] t'(1) show ?case by simp
qed

text \<open>Encoding is natural in the encoder of the children.\<close>

lemma traverse_map: "traverse f (map g xs) = traverse (\<lambda>x. f (g x)) xs"
  by (induction xs) (auto split: sum.splits)

lemma traverse_post:
  "traverse (\<lambda>x. map_sum id g (f x)) xs = map_sum id (map g) (traverse f xs)"
  by (induction xs) (auto split: sum.splits)

lemma insort_key_map: "insort_key k (g x) (map g xs) = map g (insort_key (\<lambda>x. k (g x)) x xs)"
  by (induction xs) auto

lemma sort_key_map: "sort_key k (map g xs) = map g (sort_key (\<lambda>x. k (g x)) xs)"
  by (induction xs) (auto simp: insort_key_map)

lemma own_order_map: "own_order (map (map_prod id f) ps) = map (map_prod id f) (own_order ps)"
  by (simp add: own_order_def sort_key_map filter_map o_def)

lemma encode_entries_map: "encode_entries f seen es = encode_entries id seen (map (map_prod id f) es)"
  by (induction f seen es rule: encode_entries.induct) (auto simp: bindR_def split: sum.splits)

lemma plain_entries_map:
  "plain_entries plain (map (map_prod id (map_property f)) ps) = map_sum id (map (map_prod id f)) (plain_entries plain ps)"
proof -
  have "plain_entry (map_prod id (map_property f) p) = map_sum id (map_prod id f) (plain_entry p)" for p
    by (cases p rule: plain_entry.cases) auto
  then show ?thesis by (simp add: plain_entries_def own_order_map traverse_map traverse_post)
qed

lemma encode_object_natural: "encode_object f ob = encode_object id (map_wire_object f ob)"
proof (cases ob)
  case (ArrayObject items)
  have "(\<lambda>i. case map_option f i of None \<Rightarrow> wire_json_error ''sparse JSON array'' | Some v \<Rightarrow> id v) =
      (\<lambda>i. case i of None \<Rightarrow> wire_json_error ''sparse JSON array'' | Some v \<Rightarrow> f v)"
    by (auto split: option.splits)
  with ArrayObject show ?thesis by (simp add: encode_array_def traverse_map)
next
  case (OrderedObject es)
  have "encode_entries f [] es = encode_entries id [] (map (map_prod id f) es)" by (rule encode_entries_map)
  with OrderedObject show ?thesis by (simp add: encode_members_def)
next
  case (PlainObject plain ps)
  have "encode_entries f [] es = encode_entries id [] (map (map_prod id f) es)" for es
    by (rule encode_entries_map)
  with PlainObject show ?thesis
    by (cases "plain_entries plain ps") (simp_all add: plain_entries_map encode_members_def)
qed

lemma encode_object_rel:
  assumes "rel_wire_object R ob ob'" "\<And>x y. R x y \<Longrightarrow> f x = g y"
  shows "encode_object f ob = encode_object g ob'"
proof -
  have "rel_wire_object (=) (map_wire_object f ob) (map_wire_object g ob')"
    unfolding wire_object.rel_map using assms by (auto elim: wire_object.rel_mono_strong)
  then have "map_wire_object f ob = map_wire_object g ob'" by (simp add: wire_object.rel_eq)
  then show ?thesis using encode_object_natural [of f ob] encode_object_natural [of g ob'] by simp
qed

lemma encodeValue_prim [simp]: "encodeValue h (VPrim p) anc = encode_prim p"
  by (simp add: encodeValue.simps)

text \<open>
  The cycle check never fires on a value that unfolds to a tree: an ancestor unfolds to a larger
  tree than any of its descendants.
\<close>

lemma encodeValue_unfolds:
  assumes "unfolds h v t" "\<forall>a \<in> set anc. \<exists>ta. unfolds h (VRef a) ta \<and> size t < size ta"
  shows "encodeValue h v anc = encode_tree t"
  using assms
proof (induction arbitrary: anc rule: unfolds.induct)
  case (prim p)
  then show ?case by simp
next
  case (object a ob)
  have self: "unfolds h (VRef a) (WObject ob)"
    using object.hyps object.IH by (intro unfolds.object) (auto elim: wire_object.rel_mono_strong)
  then have "a \<notin> set anc" using object.prems unfolds_deterministic by fastforce
  moreover have "encode_object (\<lambda>w. encodeValue h w (a # anc)) (h ! a) = encode_object encode_tree ob"
  proof (rule encode_object_rel)
    let ?R = "\<lambda>x y. unfolds h x y \<and> y \<in> set_wire_object ob \<and>
      (\<forall>anc. (\<forall>a \<in> set anc. \<exists>ta. unfolds h (VRef a) ta \<and> size y < size ta) \<longrightarrow> encodeValue h x anc = encode_tree y)"
    show "rel_wire_object ?R (h ! a) ob"
      using object.IH by (rule wire_object.rel_mono_strong) auto
    fix x y assume R: "?R x y"
    then have "size y < size (WObject ob)" using size_wire_object by auto
    with self object.prems have "\<forall>b \<in> set (a # anc). \<exists>ta. unfolds h (VRef b) ta \<and> size y < size ta"
      by (auto dest: less_trans) (meson less_trans)
    with R show "encodeValue h x (a # anc) = encode_tree y" by blast
  qed
  ultimately show ?case using object.hyps(1) by (simp add: encodeValue.simps)
qed





lemma encodeWireJson_unfolds: "unfolds h v t \<Longrightarrow> encodeWireJson h v = encode_tree t"
  by (simp add: encodeWireJson_def encodeValue_unfolds)



text \<open>Every failure of the encoder is a \<open>WireJsonError\<close>.\<close>

lemma encode_entries_error:
  "encode_entries f seen es = Inl e \<Longrightarrow> (\<exists>m. e = WireJsonError m) \<or> (\<exists>(k, v) \<in> set es. f v = Inl e)"
  by (induction f seen es rule: encode_entries.induct) (auto simp: bindR_Inl_iff split: if_splits)

lemma encode_object_error:
  assumes "encode_object f ob = Inl e"
  shows "(\<exists>m. e = WireJsonError m) \<or> (\<exists>v \<in> set_wire_object ob. f v = Inl e)"
proof (cases ob)
  case (ArrayObject items)
  with assms show ?thesis
    by (auto simp: encode_array_def bindR_Inl_iff dest!: traverse_Inl_D split: option.splits)
next
  case (OrderedObject es)
  with assms show ?thesis
    by (force simp: encode_members_def bindR_Inl_iff dest!: encode_entries_error)
next
  case (PlainObject plain ps)
  have "\<exists>m. e = WireJsonError m" if "plain_entries plain ps = Inl e"
    using that by (auto simp: plain_entries_def split: if_splits dest!: traverse_Inl_D elim!: plain_entry.elims)
  moreover have "(\<exists>m. e = WireJsonError m) \<or> (\<exists>v \<in> set_wire_object ob. f v = Inl e)"
    if "plain_entries plain ps = Inr es" "encode_members f es = Inl e" for es
    using that(2) plain_entries_set [OF that(1)] PlainObject
    by (force simp: encode_members_def bindR_Inl_iff dest!: encode_entries_error)
  ultimately show ?thesis using assms PlainObject by (auto simp: bindR_Inl_iff)
qed

lemma encode_tree_error: "encode_tree t = Inl e \<Longrightarrow> \<exists>m. e = WireJsonError m"
proof (induction t)
  case (WPrim p)
  then show ?case by (cases p) (auto split: if_splits)
next
  case (WObject ob)
  then show ?case using encode_object_error [of encode_tree ob e] by auto
qed

lemma decodeWireJson_error: "decodeWireJson parse isSafeNumber s = Inl e \<Longrightarrow> \<exists>m. e = WireJsonError m"
proof -
  have "\<exists>m. decode_failure e = WireJsonError m" for e by (cases e) auto
  then show "decodeWireJson parse isSafeNumber s = Inl e \<Longrightarrow> \<exists>m. e = WireJsonError m"
    by (auto simp: decodeWireJson_def split: sum.splits)
qed

section \<open>The JSON value of a text\<close>

fun json_of_prim :: "prim \<Rightarrow> json" where
  "json_of_prim PNull = JNull"
| "json_of_prim (PBool b) = JBool b"
| "json_of_prim (PNum x) = JNum x"
| "json_of_prim (PStr s) = JStr s"
| "json_of_prim (POther t) = JNull"

text \<open>Holes and accessors have no JSON value; the encoder rejects them.\<close>

fun json_of_object :: "('v \<Rightarrow> json) \<Rightarrow> 'v wire_object \<Rightarrow> json" where
  "json_of_object f (ArrayObject items) = JArr (map (case_option JNull f) items)"
| "json_of_object f (OrderedObject es) = JObj (map (map_prod id f) es)"
| "json_of_object f (PlainObject plain ps) = JObj (map (map_prod id (case_property f (\<lambda>_. JNull))) (own_order ps))"

lemma json_of_object_cong [fundef_cong]:
  assumes "ob = ob'" "\<And>v. v \<in> set_wire_object ob' \<Longrightarrow> f v = g v"
  shows "json_of_object f ob = json_of_object g ob'"
proof (cases ob')
  case (ArrayObject items)
  with assms show ?thesis by (auto split: option.splits)
next
  case (OrderedObject es)
  with assms show ?thesis by force
next
  case (PlainObject plain ps)
  have "case_property f (\<lambda>_. JNull) b = case_property g (\<lambda>_. JNull) b" if "(k, b) \<in> set ps" for k b
    using assms(2) that PlainObject by (cases b) force+
  then show ?thesis using assms(1) PlainObject by auto
qed

fun json_of :: "wire_value \<Rightarrow> json" where
  "json_of (WPrim p) = json_of_prim p"
| "json_of (WObject ob) = json_of_object json_of ob"

fun no_proto :: "json \<Rightarrow> bool" where
  "no_proto (JArr xs) = list_all no_proto xs"
| "no_proto (JObj ps) = (''__proto__'' \<notin> fst ` set ps \<and> list_all (\<lambda>(k, v). no_proto v) ps)"
| "no_proto _ = True"

text \<open>What the encoder guarantees of the value it prints.\<close>

definition prints :: "string \<Rightarrow> json \<Rightarrow> bool" where
  "prints s j \<longleftrightarrow> s = json_text j \<and> (no_proto j \<longrightarrow> unique_keys j)
     \<and> (\<forall>x \<in> set (json_numbers j). safe_json_number x)"

lemma encode_prim_prints: "encode_prim p = Inr s \<Longrightarrow> prints s (json_of_prim p)"
  by (cases p) (auto simp: prints_def safe_json_number_def split: if_splits)

lemma encode_array_prints:
  assumes "encode_array f items = Inr s" "\<And>v t. Some v \<in> set items \<Longrightarrow> f v = Inr t \<Longrightarrow> prints t (g v)"
  shows "prints s (JArr (map (case_option JNull g) items))"
proof -
  obtain ts where ts: "list_all2 (\<lambda>i t. (case i of None \<Rightarrow> wire_json_error ''sparse JSON array'' | Some v \<Rightarrow> f v) = Inr t) items ts"
    and s: "s = ''['' @ join '','' ts @ '']''"
    using assms(1) by (auto simp: encode_array_def bindR_Inr_iff traverse_Inr_iff)
  have "list_all2 (\<lambda>i t. prints t (case_option JNull g i)) items ts"
    using ts by (rule list.rel_mono_strong) (auto split: option.splits intro: assms(2))
  then have "list_all2 (\<lambda>j t. prints t j) (map (case_option JNull g) items) ts" by (simp add: list_all2_map1)
  then have "ts = map json_text (map (case_option JNull g) items) \<and>
      (\<forall>j \<in> set (map (case_option JNull g) items). (no_proto j \<longrightarrow> unique_keys j) \<and> (\<forall>x \<in> set (json_numbers j). safe_json_number x))"
    by (induction rule: list_all2_induct) (auto simp: prints_def)
  with s show ?thesis by (auto simp: prints_def list_all_iff)
qed

lemma encode_entries_prints:
  assumes "encode_entries f seen es = Inr ts" "\<And>k v t. (k, v) \<in> set es \<Longrightarrow> f v = Inr t \<Longrightarrow> prints t (g v)"
  shows "ts = map member_text (map (map_prod id g) es) \<and> distinct (map fst es) \<and> fst ` set es \<inter> set seen = {}
    \<and> (\<forall>(k, v) \<in> set es. (no_proto (g v) \<longrightarrow> unique_keys (g v)) \<and> (\<forall>x \<in> set (json_numbers (g v)). safe_json_number x))"
  using assms
proof (induction f seen es arbitrary: ts rule: encode_entries.induct)
  case (2 enc seen key entry es)
  from "2.prems"(1) obtain t us where t: "enc entry = Inr t" and us: "encode_entries enc (key # seen) es = Inr us"
    and ts: "ts = (json_string key @ '':'' @ t) # us" and key: "key \<notin> set seen"
    by (auto simp: bindR_Inr_iff split: if_splits)
  have "\<And>k v t. (k, v) \<in> set es \<Longrightarrow> enc v = Inr t \<Longrightarrow> prints t (g v)"
    by (meson "2.prems"(2) list.set_intros(2))
  note IH = "2.IH" [OF key t us this]
  have "prints t (g entry)" using t by (intro "2.prems"(2)) auto
  with IH ts key show ?case by (fastforce simp: prints_def)
qed simp

lemma encode_members_prints:
  assumes "encode_members f es = Inr s" "\<And>k v t. (k, v) \<in> set es \<Longrightarrow> f v = Inr t \<Longrightarrow> prints t (g v)"
  shows "prints s (JObj (map (map_prod id g) es))"
proof -
  obtain ts where ts: "encode_entries f [] es = Inr ts" and s: "s = ''{'' @ join '','' ts @ ''}''"
    using assms(1) by (auto simp: encode_members_def bindR_Inr_iff)
  have "ts = map member_text (map (map_prod id g) es)" "distinct (map fst es)"
    "\<forall>(k, v) \<in> set es. (no_proto (g v) \<longrightarrow> unique_keys (g v)) \<and> (\<forall>x \<in> set (json_numbers (g v)). safe_json_number x)"
    using encode_entries_prints [OF ts, of g] assms(2) by blast+
  then show ?thesis using s by (fastforce simp: prints_def list_all_iff o_def)
qed

lemma encode_tree_prints: "encode_tree t = Inr s \<Longrightarrow> prints s (json_of t)"
proof (induction t arbitrary: s)
  case (WPrim p)
  then show ?case by (auto intro: encode_prim_prints)
next
  case (WObject ob)
  show ?case
  proof (cases ob)
    case (ArrayObject items)
    have "prints s (JArr (map (case_option JNull json_of) items))"
      by (rule encode_array_prints [of encode_tree]) (use WObject ArrayObject in auto)
    with ArrayObject show ?thesis by simp
  next
    case (OrderedObject es)
    have "prints s (JObj (map (map_prod id json_of) es))"
      by (rule encode_members_prints [of encode_tree]) (use WObject OrderedObject in force)+
    with OrderedObject show ?thesis by simp
  next
    case (PlainObject plain ps)
    then obtain es where es: "plain_entries plain ps = Inr es" "encode_members encode_tree es = Inr s"
      using WObject.prems by (auto simp: bindR_Inr_iff)
    have "prints s (JObj (map (map_prod id json_of) es))"
      by (rule encode_members_prints [OF es(2)])
        (use WObject.IH PlainObject plain_entries_set [OF es(1)] in force)
    moreover have "list_all2 (\<lambda>p e. plain_entry p = Inr e) (own_order ps) es"
      using es(1) by (auto simp: plain_entries_def traverse_Inr_iff split: if_splits)
    then have "map (map_prod id (case_property json_of (\<lambda>_. JNull))) (own_order ps) = map (map_prod id json_of) es"
      by (induction rule: list_all2_induct) (auto elim!: plain_entry.elims)
    ultimately show ?thesis using PlainObject by simp
  qed
qed

section \<open>The JSON library\<close>

text \<open>
  What the SDK relies on of \<open>lossless-json\<close>: \<open>parse\<close> reads every text of the grammar, handing number
  tokens to the callback, and \<open>isSafeNumber\<close> passes the texts that JavaScript prints for numbers
  that JSON carries unchanged.
\<close>

locale json_library =
  fixes parse :: json_parse
    and isSafeNumber :: "string \<Rightarrow> bool"
  assumes parse_grammar: "json_grammar pn s = Some r \<Longrightarrow> parse pn s = r"
    and safe_number_text: "finite_double x \<Longrightarrow> safe_json_number x \<Longrightarrow> isSafeNumber (number_text x)"
begin

lemma parseNumber_text:
  assumes "finite_double x" "safe_json_number x"
  shows "parseNumber isSafeNumber (number_text x) = Inr x"
proof -
  obtain r where "x = Fin r" "is_double (Fin r)" using assms(1) by (auto simp: finite_double_def)
  then have "number_of_text (number_text x) = x" using number_of_number_text by blast
  with assms(2) safe_number_text [OF assms] show ?thesis
    by (simp add: parseNumber_def safe_json_number_def)
qed

lemma decode_json_text:
  assumes "\<forall>x \<in> set (json_numbers j). finite_double x \<and> safe_json_number x" "unique_keys j"
  shows "decodeWireJson parse isSafeNumber (json_text j) = Inr j"
proof -
  have "json_grammar (parseNumber isSafeNumber) (json_text j) = Some (Inr j)"
    using assms parseNumber_text by (intro json_grammar_text) auto
  then show ?thesis by (simp add: decodeWireJson_def parse_grammar)
qed

lemma decode_prints:
  assumes "prints s j" "no_proto j" "\<forall>x \<in> set (json_numbers j). is_double x"
  shows "decodeWireJson parse isSafeNumber s = Inr j"
proof -
  have "finite_double x \<and> safe_json_number x" if "x \<in> set (json_numbers j)" for x
  proof -
    have "safe_json_number x" "is_double x" using assms that by (auto simp: prints_def)
    moreover from this(1) obtain r where "x = Fin r" by (auto simp: safe_json_number_cases)
    ultimately show ?thesis by (simp add: finite_double_def)
  qed
  then show ?thesis using assms(1,2) decode_json_text [of j] by (simp add: prints_def)
qed

lemma decode_accepts:
  assumes "json_grammar (parseNumber isSafeNumber) s = Some r" "decodeWireJson parse isSafeNumber s = Inr j"
  shows "unique_keys j \<and> (\<forall>x \<in> set (json_numbers j). safe_json_number x)"
proof -
  have "parse (parseNumber isSafeNumber) s = Inr j"
    using assms(2) by (auto simp: decodeWireJson_def split: sum.splits)
  with parse_grammar [OF assms(1)] assms(1) have "accepted (parseNumber isSafeNumber) j"
    using json_grammar_accepted by metis
  then show ?thesis
    by (fastforce simp: accepted_def parseNumber_def safe_json_number_def Let_def split: if_splits)
qed

end

text \<open>A library that reads the grammar and nothing else.\<close>

definition reference_parse :: json_parse where
  "reference_parse pn s = (case json_grammar pn s of Some r \<Rightarrow> r | None \<Rightarrow> Inl (JsError ''invalid JSON''))"

definition reference_isSafeNumber :: "string \<Rightarrow> bool" where
  "reference_isSafeNumber t = isFinite (number_of_text t)"

interpretation reference_json: json_library reference_parse reference_isSafeNumber
proof
  show "json_grammar pn s = Some r \<Longrightarrow> reference_parse pn s = r" for pn s r
    by (simp add: reference_parse_def)
  show "finite_double x \<Longrightarrow> safe_json_number x \<Longrightarrow> reference_isSafeNumber (number_text x)" for x
    using number_of_number_text by (auto simp: finite_double_def reference_isSafeNumber_def simp del: number_text.simps)
qed

section \<open>Properties\<close>

text \<open>
  Claim C13.  A text that \<open>encodeWireJson\<close> produces decodes to the JSON value of the encoded tree:
  nothing is coerced, rounded, dropped or reordered.  Assumed are the laws of the JSON library, that
  the numbers are binary64 values and that no property is named \<open>__proto__\<close>.
\<close>

theorem wire_roundtrip:
  assumes "json_library parse isSafeNumber" "unfolds h v t" "encodeWireJson h v = Inr s"
    and "\<forall>x \<in> set (json_numbers (json_of t)). is_double x" "no_proto (json_of t)"
  shows "decodeWireJson parse isSafeNumber s = Inr (json_of t)"
proof -
  have "encode_tree t = Inr s" using assms(2,3) encodeWireJson_unfolds by metis
  from encode_tree_prints [OF this] show ?thesis
    using json_library.decode_prints [OF assms(1)] assms(4,5) by blast
qed

theorem wire_roundtrip_witness:
  "encodeWireJson [OrderedObject [(''id'', VPrim (PStr [DQ, CHR 0x0A])), (''n'', VPrim (PNum (Fin (- 12))))]] (VRef 0)
      = Inr (json_text (JObj [(''id'', JStr [DQ, CHR 0x0A]), (''n'', JNum (Fin (- 12)))]))
   \<and> decodeWireJson reference_parse reference_isSafeNumber
      (json_text (JObj [(''id'', JStr [DQ, CHR 0x0A]), (''n'', JNum (Fin (- 12)))]))
      = Inr (json_of (WObject (OrderedObject [(''id'', WStr [DQ, CHR 0x0A]), (''n'', WNum (Fin (- 12)))])))"
proof (rule conjI [OF _ wire_roundtrip])
  let ?h = "[OrderedObject [(''id'', VPrim (PStr [DQ, CHR 0x0A])), (''n'', VPrim (PNum (Fin (- 12))))]]"
  show e: "encodeWireJson ?h (VRef 0) = Inr (json_text (JObj [(''id'', JStr [DQ, CHR 0x0A]), (''n'', JNum (Fin (- 12)))]))"
    by (simp add: encodeWireJson_def encodeValue.simps encode_members_def MAX_SAFE_INTEGER_def)
  then show "encodeWireJson ?h (VRef 0) = Inr (json_text (JObj [(''id'', JStr [DQ, CHR 0x0A]), (''n'', JNum (Fin (- 12)))]))" .
  show "json_library reference_parse reference_isSafeNumber" by (rule reference_json.json_library_axioms)
  show "unfolds ?h (VRef 0) (WObject (OrderedObject [(''id'', WStr [DQ, CHR 0x0A]), (''n'', WNum (Fin (- 12)))]))"
    by (auto intro!: unfolds.intros)
  show "\<forall>x \<in> set (json_numbers (json_of (WObject (OrderedObject [(''id'', WStr [DQ, CHR 0x0A]), (''n'', WNum (Fin (- 12)))])))). is_double x"
    using to_double_nat [of 12] by (simp add: is_double_def)
qed simp

text \<open>
  Decoding fails closed: every failure is a \<open>WireJsonError\<close>, and a text of the JSON grammar
  decodes only to values in which every number is safe and no key occurs twice.
\<close>

theorem decodeWireJson_fails_closed:
  assumes "json_library parse isSafeNumber"
  shows "(\<forall>e. decodeWireJson parse isSafeNumber s = Inl e \<longrightarrow> (\<exists>m. e = WireJsonError m))
    \<and> (\<forall>r j. json_grammar (parseNumber isSafeNumber) s = Some r \<longrightarrow> decodeWireJson parse isSafeNumber s = Inr j \<longrightarrow>
        unique_keys j \<and> (\<forall>x \<in> set (json_numbers j). safe_json_number x))"
  using decodeWireJson_error json_library.decode_accepts [OF assms] by blast

theorem decodeWireJson_fails_closed_witness:
  "json_grammar (parseNumber reference_isSafeNumber) ''[-0]'' = Some (Inl (unsafe_text ''-0''))
   \<and> decodeWireJson reference_parse reference_isSafeNumber ''[-0]'' = Inl (unsafe_text ''-0'')
   \<and> (\<exists>m. unsafe_text ''-0'' = WireJsonError m)"
proof -
  have z: "number_of_text ''-0'' = NegZero"
    by (simp add: number_of_text_def read_number_def read_decimal_def span_digits_def is_digit_def digit_value_def
        decimal_value_def read_exponent_def to_double_def round_ieee_def round_to_def)
  have "takeWhile number_char ''-0]'' = ''-0''" "dropWhile number_char ''-0]'' = '']''"
    by (simp_all add: number_char_def is_digit_def)
  moreover have "read_number ''-0'' \<noteq> None"
    using z by (auto simp: number_of_text_def split: option.splits)
  ultimately have "read_token (parseNumber reference_isSafeNumber) ''-0]'' = Threw (unsafe_text ''-0'')"
    unfolding read_token_def Let_def using z by (simp only:) (simp add: parseNumber_def reference_isSafeNumber_def)
  then have g: "json_grammar (parseNumber reference_isSafeNumber) ''[-0]'' = Some (Inl (unsafe_text ''-0''))"
    by (simp add: json_grammar_def eval_nat_numeral skip_ws_head map_parsed_value_def then_parse_def)
  then have d: "decodeWireJson reference_parse reference_isSafeNumber ''[-0]'' = Inl (unsafe_text ''-0'')"
    by (simp add: decodeWireJson_def reference_parse_def unsafe_text_def)
  moreover from d have "\<exists>m. unsafe_text ''-0'' = WireJsonError m"
    using decodeWireJson_fails_closed [OF reference_json.json_library_axioms] by blast
  ultimately show ?thesis using g by blast
qed

lemma entries_of_map_of: "distinct (map fst es) \<Longrightarrow> es = map (\<lambda>k. (k, the (map_of es k))) (map fst es)"
proof (rule nth_equalityI)
  fix i assume "distinct (map fst es)" and i: "i < length es"
  then have "map_of es (fst (es ! i)) = Some (snd (es ! i))" by (intro map_of_is_SomeI) auto
  with i show "es ! i = map (\<lambda>k. (k, the (map_of es k))) (map fst es) ! i" by (simp add: prod_eq_iff)
qed simp

lemma sorted_entries_unique:
  assumes "sorted (map fst es)" "sorted (map fst fs)" "distinct (map fst es)" "distinct (map fst fs)" "set es = set fs"
  shows "es = fs"
proof -
  have "map fst es = map fst fs"
    using assms by (intro sorted_distinct_set_unique) auto
  moreover have "map_of es = map_of fs" using assms map_of_inject_set by blast
  ultimately show ?thesis using entries_of_map_of [OF assms(3)] entries_of_map_of [OF assms(4)] by metis
qed

lemma distinct_own_order:
  assumes "distinct (map fst ps)"
  shows "distinct (map fst (own_order ps))"
proof -
  have "distinct ps" "inj_on fst (set ps)" using assms by (auto simp: distinct_map)
  then show ?thesis by (auto simp: own_order_def distinct_map intro: inj_on_subset)
qed

text \<open>
  \<open>wireMap\<close> lists the entries of its argument in strictly ascending order of their keys,
  whatever order they were inserted in, so equal maps have equal texts.
\<close>

theorem wireMap_canonical:
  assumes "distinct (map fst ps)" "distinct (map fst qs)" "set ps = set qs"
  shows "wireMap ps = wireMap qs \<and>
    (\<exists>es. wireMap ps = OrderedObject es \<and> set es = set ps \<and> sorted (map fst es) \<and> distinct (map fst es))"
proof -
  have sorted: "sorted (map fst (sort_key fst (own_order rs)))" for rs :: "(string \<times> 'a) list" by simp
  have dist: "distinct (map fst (sort_key fst (own_order rs)))" if "distinct (map fst rs)" for rs :: "(string \<times> 'a) list"
    using distinct_own_order [OF that] by (simp add: distinct_map)
  have "sort_key fst (own_order ps) = sort_key fst (own_order qs)"
    using assms sorted dist by (intro sorted_entries_unique) auto
  then show ?thesis using sorted [of ps] dist [OF assms(1)] assms(3) by (simp add: wireMap_def wireObject_def)
qed

theorem wireMap_canonical_witness:
  "wireMap [(''b'', True), (''10'', False), (''9'', True)] = wireMap [(''9'', True), (''b'', True), (''10'', False)]
   \<and> wireMap [(''b'', True), (''10'', False), (''9'', True)] = OrderedObject [(''10'', False), (''9'', True), (''b'', True)]"
proof (rule conjI [OF wireMap_canonical [THEN conjunct1]])
  show "set [(''b'', True), (''10'', False), (''9'', True)] = set [(''9'', True), (''b'', True), (''10'', False)]"
    by auto
  have "array_index ''b'' = None" "array_index ''10'' = Some 10" "array_index ''9'' = Some 9"
    by (simp_all add: array_index_def is_digit_def digit_value_def)
  then show "wireMap [(''b'', True), (''10'', False), (''9'', True)] = OrderedObject [(''10'', False), (''9'', True), (''b'', True)]"
    by (simp add: wireMap_def wireObject_def own_order_def)
qed simp_all

end
