(* ===== verification/Envelope.thy ===== *)
theory Envelope
  imports Wire
begin

text \<open>
  \<open>envelope.ts\<close>: control frames, envelope descriptors, and the codec that \<open>createEnvelopeCodec\<close>
  derives from a descriptor, with the generated descriptor of \<open>classic.v1\<close>.  The payload of a frame
  to be encoded is a tree of encodable values, that of a decoded frame a JSON value.
\<close>

section \<open>Frames and descriptors\<close>

datatype frame_kind = KRequest | KResponse | KEvent

datatype 'p control_frame =
    Request string string "'p option"
  | Response string "'p option" "wire_error option"
  | Event string string "'p option"

fun kind_of :: "'p control_frame \<Rightarrow> frame_kind" where
  "kind_of (Request _ _ _) = KRequest"
| "kind_of (Response _ _ _) = KResponse"
| "kind_of (Event _ _ _) = KEvent"

fun kind_text :: "frame_kind \<Rightarrow> string" where
  "kind_text KRequest = ''request''"
| "kind_text KResponse = ''response''"
| "kind_text KEvent = ''event''"

record field_spec =
  field_name :: string
  omitWhenNone :: bool

record frame_spec =
  spec_kind :: frame_kind
  discriminator :: field_spec
  spec_id :: "field_spec option"
  payload :: field_spec
  spec_error :: "field_spec option"

record error_spec =
  code_field :: field_spec
  message_field :: field_spec
  data_field :: field_spec

record envelope_descriptor =
  descriptor_id :: string
  constants :: "(string \<times> string) list"
  frames :: "frame_spec list"
  error_fields :: error_spec

section \<open>Encoding\<close>

text \<open>A JSON value as an encodable value: objects of decoded JSON are plain.\<close>

fun embed :: "json \<Rightarrow> wire_value" where
  "embed JNull = WNull"
| "embed (JBool b) = WPrim (PBool b)"
| "embed (JNum x) = WNum x"
| "embed (JStr s) = WStr s"
| "embed (JArr xs) = WObject (ArrayObject (map (\<lambda>x. Some (embed x)) xs))"
| "embed (JObj ps) = WObject (PlainObject True (map (\<lambda>(k, v). (k, Data (embed v))) ps))"

definition envelope_error :: "envelope_descriptor \<Rightarrow> string \<Rightarrow> thrown" where
  "envelope_error d m = EnvelopeError (descriptor_id d @ '': '' @ m)"

definition optional_entry :: "field_spec \<Rightarrow> wire_value option \<Rightarrow> (string \<times> wire_value) list" where
  "optional_entry field v =
     (case v of Some x \<Rightarrow> [(field_name field, x)]
      | None \<Rightarrow> if omitWhenNone field then [] else [(field_name field, WNull)])"

definition frameSpec :: "envelope_descriptor \<Rightarrow> frame_kind \<Rightarrow> frame_spec result" where
  "frameSpec d k =
     (case find (\<lambda>c. spec_kind c = k) (frames d) of
        None \<Rightarrow> Inl (envelope_error d ''frame mapping is missing'') | Some shape \<Rightarrow> Inr shape)"

definition constant_entries :: "envelope_descriptor \<Rightarrow> (string \<times> wire_value) list" where
  "constant_entries d = map (\<lambda>(name, v). (name, WStr v)) (constants d)"

definition call_entries ::
  "envelope_descriptor \<Rightarrow> frame_spec \<Rightarrow> string \<Rightarrow> string \<Rightarrow> wire_value option \<Rightarrow> (string \<times> wire_value) list result" where
  "call_entries d shape i method p =
     (if i = [] then Inl (envelope_error d ''frame id is required'')
      else if method = [] then Inl (envelope_error d ''frame method is required'')
      else (case spec_id shape of
              None \<Rightarrow> Inl (envelope_error d ''frame id mapping is missing'')
            | Some idf \<Rightarrow> Inr (constant_entries d @ [(field_name idf, WStr i), (field_name (discriminator shape), WStr method)]
                @ optional_entry (payload shape) p)))"

definition error_entries :: "envelope_descriptor \<Rightarrow> wire_error \<Rightarrow> (string \<times> wire_value) list result" where
  "error_entries d e =
     (if \<not> isSafeInteger (err_code e) \<or> num_eq (err_code e) (Fin 0)
      then Inl (envelope_error d ''error code must be a non-zero safe integer'')
      else if err_message e = [] then Inl (envelope_error d ''error message is required'')
      else Inr ([(field_name (code_field (error_fields d)), WNum (err_code e)),
                 (field_name (message_field (error_fields d)), WStr (err_message e))]
                @ optional_entry (data_field (error_fields d)) (map_option embed (err_data e))))"

definition response_entries ::
  "envelope_descriptor \<Rightarrow> frame_spec \<Rightarrow> string \<Rightarrow> wire_value option \<Rightarrow> wire_error option \<Rightarrow> (string \<times> wire_value) list result" where
  "response_entries d shape cid r err =
     (if cid = [] then Inl (envelope_error d ''response correlation id is required'')
      else let es = constant_entries d @ [(field_name (discriminator shape), WStr cid)] @ optional_entry (payload shape) r
           in (case spec_error shape of
                 None \<Rightarrow> Inl (envelope_error d ''response error mapping is missing'')
               | Some ef \<Rightarrow>
                   (case err of
                      None \<Rightarrow> Inr (es @ optional_entry ef None)
                    | Some e \<Rightarrow> bindR (error_entries d e) (\<lambda>ee.
                        Inr (es @ [(field_name ef, WObject (wireObject ee))])))))"

fun frame_entries :: "envelope_descriptor \<Rightarrow> frame_spec \<Rightarrow> wire_value control_frame \<Rightarrow> (string \<times> wire_value) list result" where
  "frame_entries d shape (Request i method p) = call_entries d shape i method p"
| "frame_entries d shape (Event i event p) = call_entries d shape i event p"
| "frame_entries d shape (Response cid r err) = response_entries d shape cid r err"

definition encode_frame :: "envelope_descriptor \<Rightarrow> wire_value control_frame \<Rightarrow> string result" where
  "encode_frame d f =
     bindR (frameSpec d (kind_of f)) (\<lambda>shape.
     bindR (frame_entries d shape f) (\<lambda>es.
     encode_tree (WObject (wireObject es))))"

section \<open>Decoding\<close>

fun objectValue :: "json \<Rightarrow> thrown \<Rightarrow> (string \<times> json) list result" where
  "objectValue (JObj ps) e = Inr ps"
| "objectValue _ e = Inl e"

definition nonEmptyString :: "(string \<times> json) list \<Rightarrow> string \<Rightarrow> thrown \<Rightarrow> string result" where
  "nonEmptyString ob name e =
     (case prop_of ob name of Some (JStr s) \<Rightarrow> if s = [] then Inl e else Inr s | _ \<Rightarrow> Inl e)"

definition check_constant :: "envelope_descriptor \<Rightarrow> (string \<times> json) list \<Rightarrow> string \<times> string \<Rightarrow> unit result" where
  "check_constant d ob = (\<lambda>(name, expected).
     guardR (prop_of ob name = Some (JStr expected)) (envelope_error d (name @ '' must equal '' @ json_string expected)))"

definition decode_error :: "envelope_descriptor \<Rightarrow> (string \<times> json) list \<Rightarrow> field_spec option \<Rightarrow> wire_error option result" where
  "decode_error d ob ef =
     (case ef of None \<Rightarrow> Inr None
      | Some ef \<Rightarrow>
         (case prop_of ob (field_name ef) of
            None \<Rightarrow> Inr None
          | Some JNull \<Rightarrow> Inr None
          | Some raw \<Rightarrow>
              bindR (objectValue raw (envelope_error d ''error must be an object'')) (\<lambda>eo.
              (case prop_of eo (field_name (code_field (error_fields d))) of
                 Some (JNum code) \<Rightarrow>
                   if \<not> isSafeInteger code \<or> num_eq code (Fin 0)
                   then Inl (envelope_error d ''error code must be a non-zero safe integer'')
                   else bindR (nonEmptyString eo (field_name (message_field (error_fields d)))
                                 (envelope_error d ''error message is required'')) (\<lambda>msg.
                        Inr (Some \<lparr>err_code = code, err_message = msg,
                                   err_data = prop_of eo (field_name (data_field (error_fields d)))\<rparr>))
               | _ \<Rightarrow> Inl (envelope_error d ''error code must be a non-zero safe integer'')))))"

definition decode_shape :: "envelope_descriptor \<Rightarrow> (string \<times> json) list \<Rightarrow> frame_spec \<Rightarrow> string \<Rightarrow> json control_frame result" where
  "decode_shape d ob shape disc =
     (let p = prop_of ob (field_name (payload shape)) in
      if spec_kind shape = KResponse then
        bindR (decode_error d ob (spec_error shape)) (\<lambda>err. Inr (Response disc p err))
      else (case spec_id shape of
          None \<Rightarrow> Inl (envelope_error d ''frame id mapping is missing'')
        | Some idf \<Rightarrow>
            bindR (nonEmptyString ob (field_name idf) (envelope_error d (kind_text (spec_kind shape) @ '' id is required''))) (\<lambda>i.
            Inr (if spec_kind shape = KRequest then Request i disc p else Event i disc p))))"

fun decode_shapes :: "envelope_descriptor \<Rightarrow> (string \<times> json) list \<Rightarrow> frame_spec list \<Rightarrow> json control_frame result" where
  "decode_shapes d ob [] = Inl (envelope_error d ''envelope has no recognized frame discriminator'')"
| "decode_shapes d ob (shape # rest) =
     (case prop_of ob (field_name (discriminator shape)) of
        Some (JStr disc) \<Rightarrow> if disc = [] then decode_shapes d ob rest else decode_shape d ob shape disc
      | _ \<Rightarrow> decode_shapes d ob rest)"

definition decode_object :: "envelope_descriptor \<Rightarrow> json \<Rightarrow> json control_frame result" where
  "decode_object d v =
     bindR (objectValue v (envelope_error d ''envelope must be an object'')) (\<lambda>ob.
     bindR (traverse (check_constant d ob) (constants d)) (\<lambda>_.
     decode_shapes d ob (frames d)))"

definition decode_frame :: "json_parse \<Rightarrow> (string \<Rightarrow> bool) \<Rightarrow> envelope_descriptor \<Rightarrow> string \<Rightarrow> json control_frame result" where
  "decode_frame parse isSafeNumber d bytes = bindR (decodeWireJson parse isSafeNumber bytes) (decode_object d)"

section \<open>\<open>classic.v1\<close>\<close>

definition CLASSIC_V1_DESCRIPTOR :: envelope_descriptor where
  "CLASSIC_V1_DESCRIPTOR = \<lparr>
     descriptor_id = ''classic.v1'',
     constants = [(''version'', ''1'')],
     frames = [
       \<lparr>spec_kind = KEvent, discriminator = \<lparr>field_name = ''event'', omitWhenNone = False\<rparr>,
        spec_id = Some \<lparr>field_name = ''id'', omitWhenNone = False\<rparr>,
        payload = \<lparr>field_name = ''data'', omitWhenNone = True\<rparr>, spec_error = None\<rparr>,
       \<lparr>spec_kind = KRequest, discriminator = \<lparr>field_name = ''method'', omitWhenNone = False\<rparr>,
        spec_id = Some \<lparr>field_name = ''id'', omitWhenNone = False\<rparr>,
        payload = \<lparr>field_name = ''params'', omitWhenNone = True\<rparr>, spec_error = None\<rparr>,
       \<lparr>spec_kind = KResponse, discriminator = \<lparr>field_name = ''response'', omitWhenNone = False\<rparr>,
        spec_id = None,
        payload = \<lparr>field_name = ''result'', omitWhenNone = True\<rparr>,
        spec_error = Some \<lparr>field_name = ''error'', omitWhenNone = True\<rparr>\<rparr>],
     error_fields = \<lparr>code_field = \<lparr>field_name = ''code'', omitWhenNone = False\<rparr>,
       message_field = \<lparr>field_name = ''message'', omitWhenNone = False\<rparr>,
       data_field = \<lparr>field_name = ''any'', omitWhenNone = True\<rparr>\<rparr>\<rparr>"

definition CLASSIC_V1_ERROR_UNKNOWN :: int where "CLASSIC_V1_ERROR_UNKNOWN = - 1"
definition CLASSIC_V1_ERROR_BAD_REQUEST :: int where "CLASSIC_V1_ERROR_BAD_REQUEST = 400"
definition CLASSIC_V1_ERROR_INTERNAL_SERVER_ERROR :: int where "CLASSIC_V1_ERROR_INTERNAL_SERVER_ERROR = 500"
definition CLASSIC_V1_ERROR_NOT_IMPLEMENTED :: int where "CLASSIC_V1_ERROR_NOT_IMPLEMENTED = 501"

section \<open>Well-formed descriptors\<close>

text \<open>
  The names an encoded frame may use are distinct, and the discriminator of a frame kind is no name
  of a kind declared after it, nor a constant: declaration order is discrimination precedence.
\<close>

definition frame_names :: "frame_spec \<Rightarrow> string list" where
  "frame_names shape =
     (if spec_kind shape = KResponse then [] else map field_name (case spec_id shape of None \<Rightarrow> [] | Some x \<Rightarrow> [x]))
     @ [field_name (discriminator shape), field_name (payload shape)]
     @ (if spec_kind shape = KResponse then map field_name (case spec_error shape of None \<Rightarrow> [] | Some x \<Rightarrow> [x]) else [])"

definition shape_keys :: "envelope_descriptor \<Rightarrow> frame_spec \<Rightarrow> string list" where
  "shape_keys d shape = map fst (constants d) @ frame_names shape"

definition wf_shape :: "envelope_descriptor \<Rightarrow> frame_spec \<Rightarrow> bool" where
  "wf_shape d shape \<longleftrightarrow> distinct (shape_keys d shape) \<and> ''__proto__'' \<notin> set (shape_keys d shape)"

fun precedence_ok :: "envelope_descriptor \<Rightarrow> frame_spec list \<Rightarrow> bool" where
  "precedence_ok d [] = True"
| "precedence_ok d (s # rest) =
     (list_all (\<lambda>t. field_name (discriminator s) \<notin> set (shape_keys d t)) rest \<and> precedence_ok d rest)"

definition error_names :: "envelope_descriptor \<Rightarrow> string list" where
  "error_names d = map (\<lambda>g. field_name (g (error_fields d))) [code_field, message_field, data_field]"

definition wf_descriptor :: "envelope_descriptor \<Rightarrow> bool" where
  "wf_descriptor d \<longleftrightarrow> list_all (wf_shape d) (frames d) \<and> precedence_ok d (frames d)
     \<and> distinct (error_names d) \<and> ''__proto__'' \<notin> set (error_names d)"

lemma CLASSIC_V1_wf: "wf_descriptor CLASSIC_V1_DESCRIPTOR"
  by code_simp

section \<open>What a frame decodes to\<close>

definition decoded_field :: "field_spec \<Rightarrow> wire_value option \<Rightarrow> json option" where
  "decoded_field field v = (case v of Some x \<Rightarrow> Some (json_of x)
     | None \<Rightarrow> if omitWhenNone field then None else Some JNull)"

definition decoded_error :: "envelope_descriptor \<Rightarrow> wire_error \<Rightarrow> wire_error" where
  "decoded_error d e = e\<lparr>err_data := decoded_field (data_field (error_fields d)) (map_option embed (err_data e))\<rparr>"

fun decoded_frame :: "envelope_descriptor \<Rightarrow> frame_spec \<Rightarrow> wire_value control_frame \<Rightarrow> json control_frame" where
  "decoded_frame d shape (Request i m p) = Request i m (decoded_field (payload shape) p)"
| "decoded_frame d shape (Event i m p) = Event i m (decoded_field (payload shape) p)"
| "decoded_frame d shape (Response c r e) = Response c (decoded_field (payload shape) r) (map_option (decoded_error d) e)"

text \<open>Values that text carries: binary64 numbers, no property \<open>__proto__\<close>.\<close>

definition transportable :: "wire_value \<Rightarrow> bool" where
  "transportable t \<longleftrightarrow> (\<forall>x \<in> set (json_numbers (json_of t)). is_double x) \<and> no_proto (json_of t)"

fun frame_transportable :: "wire_value control_frame \<Rightarrow> bool" where
  "frame_transportable (Request i m p) = pred_option transportable p"
| "frame_transportable (Event i m p) = pred_option transportable p"
| "frame_transportable (Response c r e) =
     (pred_option transportable r \<and> pred_option (\<lambda>e. pred_option (\<lambda>v. transportable (embed v)) (err_data e)) e)"

lemma transportable_simps [simp]:
  "transportable WNull" "transportable (WStr s)"
  by (simp_all add: transportable_def)

lemma transportable_ordered:
  "transportable (WObject (OrderedObject es)) \<longleftrightarrow>
     ''__proto__'' \<notin> fst ` set es \<and> (\<forall>(k, v) \<in> set es. transportable v)"
  by (auto simp: transportable_def list_all_iff case_prod_beta image_image)

lemma safe_integer_double: "isSafeInteger x \<Longrightarrow> x \<noteq> NegZero \<Longrightarrow> is_double x"
proof (cases x)
  case (Fin r)
  assume "isSafeInteger x"
  with Fin obtain n where n: "r = of_int n" "\<bar>n\<bar> \<le> MAX_SAFE_INTEGER" by (auto elim: is_int_ratE)
  then have "\<bar>\<bar>n\<bar>\<bar> \<le> 2 ^ 53" by (simp add: MAX_SAFE_INTEGER_def)
  from to_double_int [OF this] n Fin show ?thesis by (simp add: is_double_def)
qed auto

definition json_entries :: "(string \<times> wire_value) list \<Rightarrow> (string \<times> json) list" where
  "json_entries es = map (map_prod id json_of) es"

lemma json_of_ordered: "json_of (WObject (OrderedObject es)) = JObj (json_entries es)"
  by (simp add: json_entries_def)

lemma json_entries_lookup:
  "distinct (map fst es) \<Longrightarrow> (k, v) \<in> set es \<Longrightarrow> prop_of (json_entries es) k = Some (json_of v)"
  unfolding json_entries_def by (rule map_of_is_SomeI) (force simp: o_def)+

lemma json_entries_absent: "k \<notin> fst ` set es \<Longrightarrow> prop_of (json_entries es) k = None"
  by (force simp: json_entries_def map_of_eq_None_iff)

lemma optional_lookup:
  assumes "distinct (map fst es)" "set (optional_entry field v) \<subseteq> set es"
    and "\<forall>k \<in> fst ` set es. k = field_name field \<longrightarrow> k \<in> fst ` set (optional_entry field v)"
  shows "prop_of (json_entries es) (field_name field) = decoded_field field v"
proof (cases "v = None \<and> omitWhenNone field")
  case True
  then have "field_name field \<notin> fst ` set es" using assms(3) by (auto simp: optional_entry_def)
  then show ?thesis using json_entries_absent True by (simp add: decoded_field_def)
next
  case False
  then obtain x where "(field_name field, x) \<in> set es" "decoded_field field v = Some (json_of x)"
    using assms(2) by (cases v) (auto simp: optional_entry_def decoded_field_def)
  then show ?thesis using json_entries_lookup [OF assms(1)] by simp
qed

section \<open>Decoding an encoded frame\<close>

text \<open>The entries of an encoded frame: which keys occur, and with which values.\<close>

definition entries_ok :: "envelope_descriptor \<Rightarrow> frame_spec \<Rightarrow> (string \<times> wire_value) list \<Rightarrow> bool" where
  "entries_ok d shape es \<longleftrightarrow> distinct (map fst es) \<and> fst ` set es \<subseteq> set (shape_keys d shape)
     \<and> set (constant_entries d) \<subseteq> set es"

lemma optional_entry_keys: "fst ` set (optional_entry field v) \<subseteq> {field_name field}"
  "distinct (map fst (optional_entry field v))"
  by (auto simp: optional_entry_def split: option.splits)

lemma optional_entry_map:
  "map fst (optional_entry field v) = [] \<or> map fst (optional_entry field v) = [field_name field]"
  by (auto simp: optional_entry_def split: option.splits)

lemma optional_entry_transportable:
  "pred_option transportable v \<Longrightarrow> (k, x) \<in> set (optional_entry field v) \<Longrightarrow> transportable x"
  by (auto simp: optional_entry_def split: option.splits if_splits)

lemma constant_entries_keys [simp]: "map fst (constant_entries d) = map fst (constants d)"
  by (simp add: constant_entries_def o_def case_prod_beta)

lemma constant_entries_key_set [simp]: "fst ` set (constant_entries d) = fst ` set (constants d)"
  by (metis constant_entries_keys list.set_map)

lemma call_entries_ok:
  assumes "wf_shape d shape" "spec_kind shape \<noteq> KResponse" "call_entries d shape i m p = Inr es"
  obtains idf where "spec_id shape = Some idf" "i \<noteq> []" "m \<noteq> []" "entries_ok d shape es"
    "(field_name idf, WStr i) \<in> set es" "(field_name (discriminator shape), WStr m) \<in> set es"
    "prop_of (json_entries es) (field_name (payload shape)) = decoded_field (payload shape) p"
    "pred_option transportable p \<Longrightarrow> \<forall>(k, v) \<in> set es. transportable v"
proof -
  obtain idf where idf: "spec_id shape = Some idf" "i \<noteq> []" "m \<noteq> []"
    and es: "es = constant_entries d @ [(field_name idf, WStr i), (field_name (discriminator shape), WStr m)]
        @ optional_entry (payload shape) p"
    using assms(3) by (auto simp: call_entries_def split: if_splits option.splits)
  have names: "shape_keys d shape = map fst (constants d) @ [field_name idf, field_name (discriminator shape), field_name (payload shape)]"
    using idf assms(2) by (simp add: shape_keys_def frame_names_def)
  have dist: "distinct (map fst es)"
    unfolding es map_append using assms(1) optional_entry_map [of "payload shape" p]
    by (elim disjE) (simp_all only: constant_entries_keys wf_shape_def names, simp_all)
  have ok: "entries_ok d shape es"
    using dist optional_entry_keys [of "payload shape" p] by (auto simp: entries_ok_def es names image_Un)
  have "prop_of (json_entries es) (field_name (payload shape)) = decoded_field (payload shape) p"
    using dist assms(1) by (intro optional_lookup) (auto simp: es wf_shape_def names image_Un)
  moreover have "\<forall>(k, v) \<in> set es. transportable v" if "pred_option transportable p"
    using optional_entry_transportable [OF that] by (auto simp: es constant_entries_def)
  ultimately show thesis using that idf ok by (simp add: es)
qed

lemma response_entries_ok:
  assumes "wf_shape d shape" "spec_kind shape = KResponse" "response_entries d shape c r err = Inr es"
  obtains ef ev where "spec_error shape = Some ef" "c \<noteq> []" "entries_ok d shape es"
    "(field_name (discriminator shape), WStr c) \<in> set es"
    "prop_of (json_entries es) (field_name (payload shape)) = decoded_field (payload shape) r"
    "prop_of (json_entries es) (field_name ef) = decoded_field ef ev"
    "(err = None \<and> ev = None) \<or> (\<exists>e ee. err = Some e \<and> error_entries d e = Inr ee \<and> ev = Some (WObject (OrderedObject ee)))"
    "pred_option transportable r \<Longrightarrow> pred_option transportable ev \<Longrightarrow> \<forall>(k, v) \<in> set es. transportable v"
proof -
  obtain ef ev where ef: "spec_error shape = Some ef" "c \<noteq> []"
    and es: "es = constant_entries d @ [(field_name (discriminator shape), WStr c)]
        @ optional_entry (payload shape) r @ optional_entry ef ev"
    and ev: "(err = None \<and> ev = None) \<or> (\<exists>e ee. err = Some e \<and> error_entries d e = Inr ee \<and> ev = Some (WObject (OrderedObject ee)))"
  proof (cases err)
    case None
    with assms(3) that [of _ None] show ?thesis
      by (auto simp: response_entries_def Let_def split: if_splits option.splits)
  next
    case (Some e)
    with assms(3) obtain ef ee where "spec_error shape = Some ef" "c \<noteq> []" "error_entries d e = Inr ee"
      "es = constant_entries d @ [(field_name (discriminator shape), WStr c)]
        @ optional_entry (payload shape) r @ [(field_name ef, WObject (OrderedObject ee))]"
      by (auto simp: response_entries_def wireObject_def bindR_Inr_iff Let_def split: if_splits option.splits)
    then show ?thesis using Some by (intro that [of ef "Some (WObject (OrderedObject ee))"]) (auto simp: optional_entry_def)
  qed
  have names: "shape_keys d shape = map fst (constants d) @ [field_name (discriminator shape), field_name (payload shape), field_name ef]"
    using ef assms(2) by (simp add: shape_keys_def frame_names_def)
  have dist: "distinct (map fst es)"
    unfolding es map_append
    using assms(1) optional_entry_map [of "payload shape" r] optional_entry_map [of ef ev]
    by (elim disjE) (simp_all only: constant_entries_keys wf_shape_def names, simp_all)
  have ok: "entries_ok d shape es"
    using dist optional_entry_keys [of "payload shape" r] optional_entry_keys [of ef ev]
    by (auto simp: entries_ok_def es names image_Un)
  have "prop_of (json_entries es) (field_name (payload shape)) = decoded_field (payload shape) r"
    using dist assms(1) optional_entry_keys(1) [of ef ev]
    by (intro optional_lookup) (auto simp: es wf_shape_def names image_Un)
  moreover have "prop_of (json_entries es) (field_name ef) = decoded_field ef ev"
    using dist assms(1) optional_entry_keys(1) [of "payload shape" r]
    by (intro optional_lookup) (auto simp: es wf_shape_def names image_Un)
  moreover have "\<forall>(k, v) \<in> set es. transportable v" if "pred_option transportable r" "pred_option transportable ev"
    using optional_entry_transportable [OF that(1)] optional_entry_transportable [OF that(2)]
    by (auto simp: es constant_entries_def)
  ultimately show thesis using that ef ev ok by (simp add: es)
qed

lemma error_entries_ok:
  assumes "wf_descriptor d" "error_entries d e = Inr ee"
  shows "distinct (map fst ee)" "''__proto__'' \<notin> fst ` set ee"
    "isSafeInteger (err_code e)" "\<not> num_eq (err_code e) (Fin 0)" "err_message e \<noteq> []"
    "prop_of (json_entries ee) (field_name (code_field (error_fields d))) = Some (JNum (err_code e))"
    "prop_of (json_entries ee) (field_name (message_field (error_fields d))) = Some (JStr (err_message e))"
    "prop_of (json_entries ee) (field_name (data_field (error_fields d))) = err_data (decoded_error d e)"
    "pred_option (\<lambda>v. transportable (embed v)) (err_data e) \<Longrightarrow> transportable (WObject (OrderedObject ee))"
proof -
  let ?c = "field_name (code_field (error_fields d))" and ?m = "field_name (message_field (error_fields d))"
    and ?df = "data_field (error_fields d)"
  let ?o = "optional_entry ?df (map_option embed (err_data e))"
  show safe: "isSafeInteger (err_code e)" and nz: "\<not> num_eq (err_code e) (Fin 0)" and "err_message e \<noteq> []"
    using assms(2) by (auto simp: error_entries_def split: if_splits)
  have ee: "ee = [(?c, WNum (err_code e)), (?m, WStr (err_message e))] @ ?o"
    using assms(2) by (auto simp: error_entries_def split: if_splits)
  have names: "?c \<noteq> ?m" "?c \<noteq> field_name ?df" "?m \<noteq> field_name ?df" "''__proto__'' \<notin> {?c, ?m, field_name ?df}"
    using assms(1) by (auto simp: wf_descriptor_def error_names_def)
  show dist: "distinct (map fst ee)"
    unfolding ee map_append using names optional_entry_map [of ?df "map_option embed (err_data e)"]
    by (elim disjE) (simp_all only:, simp_all)
  show proto: "''__proto__'' \<notin> fst ` set ee"
    using names optional_entry_keys(1) [of ?df "map_option embed (err_data e)"] by (auto simp: ee image_Un)
  show "prop_of (json_entries ee) ?c = Some (JNum (err_code e))"
    using json_entries_lookup [OF dist, of ?c "WNum (err_code e)"] by (simp add: ee)
  show "prop_of (json_entries ee) ?m = Some (JStr (err_message e))"
    using json_entries_lookup [OF dist, of ?m "WStr (err_message e)"] by (simp add: ee)
  have "prop_of (json_entries ee) (field_name ?df) = decoded_field ?df (map_option embed (err_data e))"
    using dist names by (intro optional_lookup) (auto simp: ee image_Un)
  then show "prop_of (json_entries ee) (field_name ?df) = err_data (decoded_error d e)"
    by (simp add: decoded_error_def)
  have "err_code e \<noteq> NegZero" using nz by auto
  then have "transportable (WNum (err_code e))" using safe safe_integer_double by (simp add: transportable_def)
  then show "pred_option (\<lambda>v. transportable (embed v)) (err_data e) \<Longrightarrow> transportable (WObject (OrderedObject ee))"
    using proto optional_entry_transportable [of "map_option embed (err_data e)"]
    by (auto simp: transportable_ordered ee option.pred_map o_def)
qed

lemma decode_error_entries:
  assumes "wf_descriptor d" "error_entries d e = Inr ee"
    and "prop_of ob (field_name ef) = Some (JObj (json_entries ee))"
  shows "decode_error d ob (Some ef) = Inr (Some (decoded_error d e))"
  using assms(3) error_entries_ok(3-8) [OF assms(1,2)]
  by (simp add: decode_error_def nonEmptyString_def decoded_error_def)

lemma check_constants:
  assumes "entries_ok d shape es"
  shows "\<exists>us. traverse (check_constant d (json_entries es)) (constants d) = Inr us"
proof -
  have "check_constant d (json_entries es) c = Inr ()" if "c \<in> set (constants d)" for c
  proof -
    obtain name v where c: "c = (name, v)" by (cases c)
    then have "(name, WStr v) \<in> set es"
      using that assms by (force simp: entries_ok_def constant_entries_def)
    then show ?thesis
      using json_entries_lookup [of es name "WStr v"] assms c by (simp add: check_constant_def entries_ok_def)
  qed
  then have "traverse (check_constant d (json_entries es)) (constants d) = Inr (map (\<lambda>_. ()) (constants d))"
    by (rule traverse_map_Inr)
  then show ?thesis ..
qed

lemma decode_shapes_skip:
  assumes "find P fs = Some shape" "precedence_ok d fs" "entries_ok d shape es"
    and "(field_name (discriminator shape), WStr disc) \<in> set es" "disc \<noteq> []"
  shows "decode_shapes d (json_entries es) fs = decode_shape d (json_entries es) shape disc"
  using assms(1,2)
proof (induction fs)
  case (Cons s rest)
  show ?case
  proof (cases "P s")
    case True
    with Cons.prems have "shape = s" by simp
    moreover have "prop_of (json_entries es) (field_name (discriminator shape)) = Some (JStr disc)"
      using json_entries_lookup [OF _ assms(4)] assms(3) by (simp add: entries_ok_def)
    ultimately show ?thesis using assms(5) by simp
  next
    case False
    with Cons.prems(1) have rest: "find P rest = Some shape" by simp
    then have "shape \<in> set rest" by (metis find_Some_iff nth_mem)
    with Cons.prems(2) have "field_name (discriminator s) \<notin> set (shape_keys d shape)" by (auto simp: list_all_iff)
    then have "prop_of (json_entries es) (field_name (discriminator s)) = None"
      using assms(3) by (intro json_entries_absent) (auto simp: entries_ok_def)
    with Cons.IH [OF rest] Cons.prems(2) show ?thesis by simp
  qed
qed simp

lemma decode_object_entries:
  assumes "wf_descriptor d" "find P (frames d) = Some shape" "entries_ok d shape es"
    and "(field_name (discriminator shape), WStr disc) \<in> set es" "disc \<noteq> []"
  shows "decode_object d (JObj (json_entries es)) = decode_shape d (json_entries es) shape disc"
  using check_constants [OF assms(3)] decode_shapes_skip [OF assms(2) _ assms(3-5)] assms(1)
  by (auto simp: decode_object_def wf_descriptor_def)

lemma decode_frame_entries:
  assumes "wf_descriptor d" "find (\<lambda>c. spec_kind c = kind_of f) (frames d) = Some shape"
    and "frame_entries d shape f = Inr es" "frame_transportable f"
  shows "decode_object d (JObj (json_entries es)) = Inr (decoded_frame d shape f)
    \<and> transportable (WObject (OrderedObject es))"
proof -
  have shape: "shape \<in> set (frames d)" "spec_kind shape = kind_of f"
    using assms(2) by (auto simp: find_Some_iff)
  then have wf: "wf_shape d shape" using assms(1) by (auto simp: wf_descriptor_def list_all_iff)
  have proto: "''__proto__'' \<notin> fst ` set es" if "entries_ok d shape es"
    using that wf by (auto simp: entries_ok_def wf_shape_def)
  have call: ?thesis
    if c: "call_entries d shape i m p = Inr es" and k: "spec_kind shape \<noteq> KResponse"
      and t: "pred_option transportable p"
      and f: "decoded_frame d shape f = (if spec_kind shape = KRequest then Request i m (decoded_field (payload shape) p)
                else Event i m (decoded_field (payload shape) p))" for i m p
  proof (rule call_entries_ok [OF wf k c])
    fix idf
    assume a: "spec_id shape = Some idf" "i \<noteq> []" "m \<noteq> []" "entries_ok d shape es"
      "(field_name idf, WStr i) \<in> set es" "(field_name (discriminator shape), WStr m) \<in> set es"
      "prop_of (json_entries es) (field_name (payload shape)) = decoded_field (payload shape) p"
      "pred_option transportable p \<Longrightarrow> \<forall>(k, v) \<in> set es. transportable v"
    have "prop_of (json_entries es) (field_name idf) = Some (JStr i)"
      using json_entries_lookup [OF _ a(5)] a(4) by (simp add: entries_ok_def)
    then have "decode_shape d (json_entries es) shape m = Inr (decoded_frame d shape f)"
      using a f k by (simp add: decode_shape_def nonEmptyString_def)
    with decode_object_entries [OF assms(1,2) a(4,6,3)] a(8) [OF t] proto [OF a(4)] show ?thesis
      by (simp add: transportable_ordered)
  qed
  show ?thesis
  proof (cases f)
    case (Request i m p)
    with assms(3,4) shape call [of i m p] show ?thesis by simp
  next
    case (Event i m p)
    with assms(3,4) shape call [of i m p] show ?thesis by simp
  next
    case (Response c r err)
    have k: "spec_kind shape = KResponse" and re: "response_entries d shape c r err = Inr es"
      using Response shape assms(3) by auto
    show ?thesis
    proof (rule response_entries_ok [OF wf k re])
      fix ef ev
      assume a: "spec_error shape = Some ef" "c \<noteq> []" "entries_ok d shape es"
        "(field_name (discriminator shape), WStr c) \<in> set es"
        "prop_of (json_entries es) (field_name (payload shape)) = decoded_field (payload shape) r"
        "prop_of (json_entries es) (field_name ef) = decoded_field ef ev"
        "(err = None \<and> ev = None) \<or> (\<exists>e ee. err = Some e \<and> error_entries d e = Inr ee \<and> ev = Some (WObject (OrderedObject ee)))"
        "pred_option transportable r \<Longrightarrow> pred_option transportable ev \<Longrightarrow> \<forall>(k, v) \<in> set es. transportable v"
      have err: "decode_error d (json_entries es) (Some ef) = Inr (map_option (decoded_error d) err)"
        using a(7)
      proof (elim disjE conjE exE)
        assume "err = None" "ev = None"
        with a(6) show ?thesis by (simp add: decode_error_def decoded_field_def)
      next
        fix e ee assume "err = Some e" "error_entries d e = Inr ee" "ev = Some (WObject (OrderedObject ee))"
        with a(6) decode_error_entries [OF assms(1), of e ee] show ?thesis
          by (simp add: decoded_field_def json_of_ordered del: json_of.simps(2))
      qed
      have tr: "pred_option transportable ev"
        using a(7) error_entries_ok(9) [OF assms(1)] assms(4) Response by auto
      have "decode_shape d (json_entries es) shape c = Inr (decoded_frame d shape f)"
        using a k err Response by (simp add: decode_shape_def)
      with decode_object_entries [OF assms(1,2) a(3,4,2)] a(8) tr proto [OF a(3)] assms(4) Response show ?thesis
        by (simp add: transportable_ordered)
    qed
  qed
qed

lemma decode_encoded_frame:
  assumes "json_library parse isSafeNumber" "wf_descriptor d" "frame_transportable f" "encode_frame d f = Inr s"
  shows "\<exists>shape. frameSpec d (kind_of f) = Inr shape \<and> decode_frame parse isSafeNumber d s = Inr (decoded_frame d shape f)"
proof -
  obtain shape es where shape: "frameSpec d (kind_of f) = Inr shape" and es: "frame_entries d shape f = Inr es"
    and s: "encode_tree (WObject (OrderedObject es)) = Inr s"
    using assms(4) by (auto simp: encode_frame_def bindR_Inr_iff wireObject_def)
  have "find (\<lambda>c. spec_kind c = kind_of f) (frames d) = Some shape"
    using shape by (auto simp: frameSpec_def split: option.splits)
  from decode_frame_entries [OF assms(2) this es assms(3)]
  have ob: "decode_object d (JObj (json_entries es)) = Inr (decoded_frame d shape f)"
    and "transportable (WObject (OrderedObject es))" by auto
  then have "decodeWireJson parse isSafeNumber s = Inr (JObj (json_entries es))"
    using json_library.decode_prints [OF assms(1) encode_tree_prints [OF s]]
    by (simp add: transportable_def json_of_ordered del: json_of.simps(2))
  with shape ob show ?thesis by (simp add: decode_frame_def)
qed

section \<open>The codec as an interface\<close>

text \<open>
  What the session relies on: a frame that was encoded decodes to the same kind of frame with the
  same identifiers.
\<close>

fun frame_ids :: "'p control_frame \<Rightarrow> string \<times> string" where
  "frame_ids (Request i m _) = (i, m)"
| "frame_ids (Response c _ _) = (c, [])"
| "frame_ids (Event i e _) = (i, e)"

locale envelope_codec =
  fixes encode :: "wire_value control_frame \<Rightarrow> string result"
    and decode :: "string \<Rightarrow> json control_frame result"
    and deliverable :: "wire_value control_frame \<Rightarrow> bool"
    and delivered :: "wire_value control_frame \<Rightarrow> json control_frame"
  assumes roundtrip: "encode f = Inr s \<Longrightarrow> deliverable f \<Longrightarrow> decode s = Inr (delivered f)"
    and delivered_kind: "kind_of (delivered f) = kind_of f"
    and delivered_ids: "frame_ids (delivered f) = frame_ids f"
begin

lemma request_delivered:
  assumes "encode (Request i m p) = Inr s" "deliverable (Request i m p)"
  shows "\<exists>q. decode s = Inr (Request i m q)"
  using roundtrip [OF assms] delivered_kind [of "Request i m p"] delivered_ids [of "Request i m p"]
  by (cases "delivered (Request i m p)") auto

lemma response_delivered:
  assumes "encode (Response c r e) = Inr s" "deliverable (Response c r e)"
  shows "\<exists>q e'. decode s = Inr (Response c q e')"
  using roundtrip [OF assms] delivered_kind [of "Response c r e"] delivered_ids [of "Response c r e"]
  by (cases "delivered (Response c r e)") auto

lemma texts_differ:
  assumes "encode f = Inr s" "encode g = Inr s" "deliverable f" "deliverable g"
  shows "kind_of f = kind_of g \<and> frame_ids f = frame_ids g"
  using roundtrip [OF assms(1,3)] roundtrip [OF assms(2,4)] delivered_kind delivered_ids by (metis Inr_inject)

end

definition classic_shape :: "frame_kind \<Rightarrow> frame_spec" where
  "classic_shape k = (case frameSpec CLASSIC_V1_DESCRIPTOR k of Inr shape \<Rightarrow> shape | Inl _ \<Rightarrow> hd (frames CLASSIC_V1_DESCRIPTOR))"

definition classic_delivered :: "wire_value control_frame \<Rightarrow> json control_frame" where
  "classic_delivered f = decoded_frame CLASSIC_V1_DESCRIPTOR (classic_shape (kind_of f)) f"

lemma decoded_frame_identity:
  "kind_of (decoded_frame d shape f) = kind_of f" "frame_ids (decoded_frame d shape f) = frame_ids f"
  by (cases f; simp)+

sublocale json_library \<subseteq> classic: envelope_codec "encode_frame CLASSIC_V1_DESCRIPTOR"
  "decode_frame parse isSafeNumber CLASSIC_V1_DESCRIPTOR" frame_transportable classic_delivered
proof
  show "decode_frame parse isSafeNumber CLASSIC_V1_DESCRIPTOR s = Inr (classic_delivered f)"
    if "encode_frame CLASSIC_V1_DESCRIPTOR f = Inr s" "frame_transportable f" for f s
    using decode_encoded_frame [OF json_library_axioms CLASSIC_V1_wf that(2,1)]
    by (auto simp: classic_delivered_def classic_shape_def)
qed (simp_all add: classic_delivered_def decoded_frame_identity)

section \<open>Properties\<close>

text \<open>
  Claim C15.  For every well-formed descriptor, a frame that the codec encodes decodes to the same
  frame: same kind, identifiers and error, with the payload and the error data as JSON values, an
  absent field that the descriptor does not omit being \<open>null\<close>.
\<close>

theorem envelope_roundtrip:
  assumes "json_library parse isSafeNumber" "wf_descriptor d" "frame_transportable f" "encode_frame d f = Inr s"
  shows "\<exists>shape. frameSpec d (kind_of f) = Inr shape \<and> decode_frame parse isSafeNumber d s = Inr (decoded_frame d shape f)"
  using assms by (rule decode_encoded_frame)

theorem envelope_roundtrip_witness:
  "let f = Response ''7'' None (Some \<lparr>err_code = Fin 400, err_message = ''bad'', err_data = Some (JBool True)\<rparr>)
   in \<exists>s shape. encode_frame CLASSIC_V1_DESCRIPTOR f = Inr s \<and> frameSpec CLASSIC_V1_DESCRIPTOR KResponse = Inr shape
      \<and> decode_frame reference_parse reference_isSafeNumber CLASSIC_V1_DESCRIPTOR s
          = Inr (decoded_frame CLASSIC_V1_DESCRIPTOR shape f)"
proof -
  let ?f = "Response ''7'' None (Some \<lparr>err_code = Fin 400, err_message = ''bad'', err_data = Some (JBool True)\<rparr>)"
  have t: "frame_transportable ?f" by (simp add: transportable_def)
  have "\<exists>s. encode_frame CLASSIC_V1_DESCRIPTOR ?f = Inr s"
    by (simp add: encode_frame_def frameSpec_def CLASSIC_V1_DESCRIPTOR_def response_entries_def error_entries_def
        constant_entries_def optional_entry_def wireObject_def encode_members_def MAX_SAFE_INTEGER_def)
  then obtain s where s: "encode_frame CLASSIC_V1_DESCRIPTOR ?f = Inr s" ..
  from envelope_roundtrip [OF reference_json.json_library_axioms CLASSIC_V1_wf t s] s
  show ?thesis unfolding Let_def by auto
qed

lemma frame_entries_error: "frame_entries d shape f = Inl e \<Longrightarrow> \<exists>m. e = EnvelopeError m"
  by (cases f) (auto simp: call_entries_def response_entries_def error_entries_def envelope_error_def Let_def
      bindR_Inl_iff split: if_splits option.splits)

lemma objectValue_error: "objectValue v e = Inl e' \<Longrightarrow> e' = e"
  by (cases v) auto

lemma nonEmptyString_error: "nonEmptyString ob n e = Inl e' \<Longrightarrow> e' = e"
  by (auto simp: nonEmptyString_def split: option.splits json.splits if_splits)

lemma decode_error_error: "decode_error d ob ef = Inl e \<Longrightarrow> \<exists>m. e = EnvelopeError m"
  by (auto simp: decode_error_def envelope_error_def bindR_Inl_iff
      dest!: objectValue_error nonEmptyString_error split: option.splits json.splits if_splits)

lemma decode_shapes_error: "decode_shapes d ob fs = Inl e \<Longrightarrow> \<exists>m. e = EnvelopeError m"
proof (induction fs)
  case (Cons s rest)
  have "\<exists>m. e = EnvelopeError m" if "decode_shape d ob s disc = Inl e" for disc
    using that by (auto simp: decode_shape_def envelope_error_def Let_def bindR_Inl_iff
        dest!: decode_error_error nonEmptyString_error split: if_splits option.splits)
  with Cons show ?case by (auto split: option.splits json.splits if_splits)
qed (auto simp: envelope_error_def)

lemma decode_object_error: "decode_object d v = Inl e \<Longrightarrow> \<exists>m. e = EnvelopeError m"
  by (auto simp: decode_object_def envelope_error_def check_constant_def bindR_Inl_iff
      dest!: objectValue_error traverse_Inl_D decode_shapes_error)

text \<open>
  The codec fails only with its own errors: encoding throws an \<open>EnvelopeError\<close> or a
  \<open>WireJsonError\<close>, and so does decoding, whatever the text and the descriptor.
\<close>

theorem envelope_errors:
  "(encode_frame d f = Inl e \<longrightarrow> (\<exists>m. e = EnvelopeError m) \<or> (\<exists>m. e = WireJsonError m))
   \<and> (decode_frame parse isSafeNumber d s = Inl e' \<longrightarrow> (\<exists>m. e' = EnvelopeError m) \<or> (\<exists>m. e' = WireJsonError m))"
proof -
  have "(\<exists>m. e = EnvelopeError m) \<or> (\<exists>m. e = WireJsonError m)" if "encode_frame d f = Inl e"
    using that by (auto simp: encode_frame_def frameSpec_def envelope_error_def bindR_Inl_iff
        simp del: encode_tree.simps dest!: frame_entries_error encode_tree_error split: option.splits)
  moreover have "(\<exists>m. e' = EnvelopeError m) \<or> (\<exists>m. e' = WireJsonError m)"
    if "decode_frame parse isSafeNumber d s = Inl e'"
    using that by (auto simp: decode_frame_def bindR_Inl_iff dest!: decode_object_error decodeWireJson_error)
  ultimately show ?thesis by blast
qed

theorem envelope_errors_witness:
  "encode_frame CLASSIC_V1_DESCRIPTOR (Request [] ''m'' None) = Inl (EnvelopeError ''classic.v1: frame id is required'')
   \<and> ((\<exists>m. EnvelopeError ''classic.v1: frame id is required'' = EnvelopeError m)
      \<or> (\<exists>m. EnvelopeError ''classic.v1: frame id is required'' = WireJsonError m))"
proof -
  have e: "encode_frame CLASSIC_V1_DESCRIPTOR (Request [] ''m'' None) = Inl (EnvelopeError ''classic.v1: frame id is required'')"
    by (simp add: encode_frame_def frameSpec_def CLASSIC_V1_DESCRIPTOR_def call_entries_def envelope_error_def)
  with envelope_errors [of CLASSIC_V1_DESCRIPTOR "Request [] ''m'' None"] show ?thesis by blast
qed

end
