(* ===== verification/Validation.thy ===== *)
theory Validation
  imports Envelope
begin

text \<open>
  \<open>validation.ts\<close>: validation and serialisation of values against the JSON schemas of a catalog.  A
  schema is its JSON object.  \<open>validateAt\<close> and \<open>serializeAt\<close> follow \<open>$ref\<close> without a check for
  reference cycles, so they carry fuel, one unit for each call; \<^term>\<open>None\<close> is running out of it.
\<close>

section \<open>Values and schemas\<close>

type_synonym schema = "(string \<times> json) list"
type_synonym registry = "(string \<times> schema) list"

text \<open>
  A value as \<open>isRecord\<close> sees it: the own properties of an object that is no array.  An object made
  by \<open>wireObject\<close> has the property \<open>entries\<close>, an array of pairs.
\<close>

definition entry_pairs :: "(string \<times> wire_value) list \<Rightarrow> wire_value" where
  "entry_pairs es = WObject (ArrayObject (map (\<lambda>(k, v). Some (WObject (ArrayObject [Some (WStr k), Some v]))) es))"

fun record_of :: "wire_value \<Rightarrow> (string \<times> wire_value property) list option" where
  "record_of (WObject (PlainObject plain ps)) = Some ps"
| "record_of (WObject (OrderedObject es)) = Some [(''entries'', Data (entry_pairs es))]"
| "record_of _ = None"

fun read_property :: "'v property \<Rightarrow> 'v" where
  "read_property (Data v) = v"
| "read_property (Accessor v) = v"

definition own_value :: "(string \<times> wire_value property) list \<Rightarrow> string \<Rightarrow> wire_value option" where
  "own_value ps name = map_option read_property (prop_of ps name)"

fun number_of :: "wire_value \<Rightarrow> js_number option" where
  "number_of (WPrim (PNum x)) = Some x"
| "number_of _ = None"

definition issue :: "string \<Rightarrow> string \<Rightarrow> string \<Rightarrow> validation_issue" where
  "issue path rule msg = \<lparr>issue_path = path, issue_rule = rule, issue_message = msg\<rparr>"

definition at_index :: "string \<Rightarrow> nat \<Rightarrow> string" where
  "at_index path i = path @ ''['' @ nat_text 10 i @ '']''"

definition at_key :: "string \<Rightarrow> string \<Rightarrow> string" where
  "at_key path k = path @ ''.'' @ k"

section \<open>\<open>validateAny\<close>\<close>

fun validate_prim :: "prim \<Rightarrow> string \<Rightarrow> validation_issue list" where
  "validate_prim (PNum x) path =
     (if \<not> isFinite x \<or> x = NegZero \<or> (isInteger x \<and> \<not> isSafeInteger x)
      then [issue path ''number'' ''must be a safe JSON number''] else [])"
| "validate_prim (POther t) path = [issue path ''type'' (''unsupported JSON value '' @ quoted t)]"
| "validate_prim _ path = []"

text \<open>
  The recursive calls on the elements and properties are passed as \<open>rec\<close>.  Of an ordered object,
  only the second components of its pairs can have issues.
\<close>

fun validate_object_any ::
  "('v \<Rightarrow> string \<Rightarrow> validation_issue list) \<Rightarrow> 'v wire_object \<Rightarrow> string \<Rightarrow> validation_issue list" where
  "validate_object_any rec (ArrayObject items) path =
     concat (map (\<lambda>(i, item). case item of
         None \<Rightarrow> [issue (at_index path i) ''presence'' ''must not be sparse'']
       | Some v \<Rightarrow> rec v (at_index path i)) (enumerate 0 items))"
| "validate_object_any rec (OrderedObject es) path =
     concat (map (\<lambda>(i, k, v). rec v (at_index (at_index (at_key path ''entries'') i) 1)) (enumerate 0 es))"
| "validate_object_any rec (PlainObject plain ps) path =
     (if \<not> plain then [issue path ''object'' ''must have a plain or null prototype'']
      else concat (map (\<lambda>(k, p). case p of
          Accessor v \<Rightarrow> [issue (at_key path k) ''object'' ''must not be an accessor'']
        | Data v \<Rightarrow> rec v (at_key path k)) (own_order ps)))"

lemma enumerate_set: "(i, x) \<in> set (enumerate n xs) \<Longrightarrow> x \<in> set xs"
  by (metis in_set_enumerate_eq nth_mem prod.sel(1,2) add.commute le_add_diff_inverse less_diff_conv2 add_diff_cancel_left' nat_le_iff_add)

lemma validate_object_any_cong [fundef_cong]:
  assumes "ob = ob'" "path = path'" "\<And>v p. v \<in> set_wire_object ob' \<Longrightarrow> f v p = g v p"
  shows "validate_object_any f ob path = validate_object_any g ob' path'"
proof (cases ob')
  case (ArrayObject items)
  have "f v p = g v p" if "(i, Some v) \<in> set (enumerate 0 items)" for i v p
    using enumerate_set [OF that] assms(3) ArrayObject by auto
  with assms(1,2) ArrayObject show ?thesis
    by (auto intro!: arg_cong [where f = concat] split: option.splits)
next
  case (OrderedObject es)
  have "f v p = g v p" if "(i, k, v) \<in> set (enumerate 0 es)" for i k v p
    using enumerate_set [OF that] assms(3) OrderedObject by force
  with assms(1,2) OrderedObject show ?thesis by (auto intro!: arg_cong [where f = concat])
next
  case (PlainObject plain ps)
  have "f v p = g v p" if "(k, Data v) \<in> set ps" for k v p
    using that assms(3) PlainObject by force
  with assms(1,2) PlainObject show ?thesis
    by (auto intro!: arg_cong [where f = concat] split: property.splits)
qed

fun validateAny :: "wire_value \<Rightarrow> string \<Rightarrow> validation_issue list" where
  "validateAny (WPrim p) path = validate_prim p path"
| "validateAny (WObject ob) path = validate_object_any validateAny ob path"

section \<open>Schema keywords\<close>

fun replaceAll2 :: "char \<Rightarrow> char \<Rightarrow> string \<Rightarrow> string \<Rightarrow> string" where
  "replaceAll2 a b by (c # d # s) = (if c = a \<and> d = b then by @ replaceAll2 a b by s else c # replaceAll2 a b by (d # s))"
| "replaceAll2 a b by s = s"

definition referenceName :: "json option \<Rightarrow> string option" where
  "referenceName r =
     (case r of Some (JStr s) \<Rightarrow>
        (if take 10 s = ''#/schemas/''
         then Some (replaceAll2 CHR ''~'' CHR ''0'' ''~'' (replaceAll2 CHR ''~'' CHR ''1'' ''/'' (drop 10 s)))
         else None)
      | _ \<Rightarrow> None)"

fun null_variant :: "json \<Rightarrow> bool" where
  "null_variant (JObj v) = (prop_of v ''type'' = Some (JStr ''null''))"
| "null_variant _ = False"

definition has_null_variant :: "schema \<Rightarrow> string \<Rightarrow> bool" where
  "has_null_variant schema keyword =
     (case prop_of schema keyword of Some (JArr vs) \<Rightarrow> list_ex null_variant vs | _ \<Rightarrow> False)"

definition acceptsNull :: "schema \<Rightarrow> bool" where
  "acceptsNull schema \<longleftrightarrow>
     (case prop_of schema ''type'' of Some (JArr ts) \<Rightarrow> JStr ''null'' \<in> set ts | _ \<Rightarrow> False)
     \<or> has_null_variant schema ''anyOf'' \<or> has_null_variant schema ''oneOf''
     \<or> prop_of schema ''type'' = Some (JStr ''null'')"

definition single_variant :: "schema \<Rightarrow> string \<Rightarrow> schema option" where
  "single_variant schema keyword =
     (case prop_of schema keyword of
        Some (JArr vs) \<Rightarrow> (case filter (\<lambda>v. \<not> null_variant v) vs of [JObj s] \<Rightarrow> Some s | _ \<Rightarrow> None)
      | _ \<Rightarrow> None)"

text \<open>\<open>{ ...schema, type: t }\<close> keeps the position of the property \<open>type\<close>.\<close>

definition nonNullSchema :: "schema \<Rightarrow> schema" where
  "nonNullSchema schema =
     (let single_type =
        (case prop_of schema ''type'' of
           Some (JArr ts) \<Rightarrow> (case filter (\<lambda>t. t \<noteq> JStr ''null'') ts of [t] \<Rightarrow> Some t | _ \<Rightarrow> None)
         | _ \<Rightarrow> None)
      in case single_type of
           Some t \<Rightarrow> map (\<lambda>(k, v). (k, if k = ''type'' then t else v)) schema
         | None \<Rightarrow>
            (case single_variant schema ''anyOf'' of Some s \<Rightarrow> s
             | None \<Rightarrow> (case single_variant schema ''oneOf'' of Some s \<Rightarrow> s | None \<Rightarrow> schema)))"

section \<open>\<open>validateAt\<close>\<close>

fun collect :: "('a \<Rightarrow> 'b list option) \<Rightarrow> 'a list \<Rightarrow> 'b list option" where
  "collect f [] = Some []"
| "collect f (x # xs) = (case f x of None \<Rightarrow> None | Some a \<Rightarrow> map_option ((@) a) (collect f xs))"

definition number_keyword :: "schema \<Rightarrow> string \<Rightarrow> js_number option" where
  "number_keyword schema k = (case prop_of schema k of Some (JNum x) \<Rightarrow> Some x | _ \<Rightarrow> None)"

definition required_names :: "schema \<Rightarrow> string list" where
  "required_names schema =
     (case prop_of schema ''required'' of
        Some (JArr ns) \<Rightarrow> concat (map (\<lambda>n. case n of JStr s \<Rightarrow> [s] | _ \<Rightarrow> []) ns)
      | _ \<Rightarrow> [])"

text \<open>The checks after the \<open>switch\<close>: bounds of a number, order of the fields of a record.\<close>

definition number_issues :: "schema \<Rightarrow> js_number \<Rightarrow> string \<Rightarrow> validation_issue list" where
  "number_issues schema x path =
     (case number_keyword schema ''minimum'' of
        Some m \<Rightarrow> if num_less x m then [issue path ''minimum'' (''must be at least '' @ number_text m)] else [] | None \<Rightarrow> [])
     @ (case number_keyword schema ''maximum'' of
        Some m \<Rightarrow> if num_less m x then [issue path ''maximum'' (''must be at most '' @ number_text m)] else [] | None \<Rightarrow> [])
     @ (if prop_of schema ''x-rtvbp-nonzero'' = Some (JBool True) \<and> num_eq x (Fin 0)
        then [issue path ''nonzero'' ''must be non-zero''] else [])"

definition ordering_issues :: "(string \<times> wire_value property) list \<Rightarrow> string \<Rightarrow> json \<Rightarrow> validation_issue list" where
  "ordering_issues ps path entry =
     (case entry of
        JObj o' \<Rightarrow>
          (case (prop_of o' ''lower'', prop_of o' ''upper'') of
             (Some (JStr l), Some (JStr u)) \<Rightarrow>
               (case (Option.bind (own_value ps l) number_of, Option.bind (own_value ps u) number_of) of
                  (Some x, Some y) \<Rightarrow>
                    if num_less y x
                    then [issue path ''field_order'' (quoted l @ '' must be less than or equal to '' @ quoted u)] else []
                | _ \<Rightarrow> [])
           | _ \<Rightarrow> [])
      | _ \<Rightarrow> [])"

definition final_issues :: "schema \<Rightarrow> wire_value \<Rightarrow> string \<Rightarrow> validation_issue list" where
  "final_issues schema v path =
     (case number_of v of Some x \<Rightarrow> number_issues schema x path | None \<Rightarrow> [])
     @ (case (record_of v, prop_of schema ''x-rtvbp-field-order'') of
          (Some ps, Some (JArr os)) \<Rightarrow> concat (map (ordering_issues ps path) os)
        | _ \<Rightarrow> [])"

definition string_issues :: "schema \<Rightarrow> wire_value \<Rightarrow> string \<Rightarrow> validation_issue list" where
  "string_issues schema v path =
     (case v of
        WPrim (PStr s) \<Rightarrow>
          (case number_keyword schema ''minLength'' of
             Some m \<Rightarrow> if num_less (Fin (of_nat (length s))) m
               then [issue path ''min_length'' (''must contain at least '' @ number_text m @ '' characters'')] else []
           | None \<Rightarrow> [])
      | _ \<Rightarrow> [issue path ''type'' ''must be a string''])"

definition integer_value :: "wire_value \<Rightarrow> bool" where
  "integer_value v = (case number_of v of Some x \<Rightarrow> isSafeInteger x \<and> x \<noteq> NegZero | None \<Rightarrow> False)"

definition number_value :: "wire_value \<Rightarrow> bool" where
  "number_value v = (case number_of v of Some x \<Rightarrow> isFinite x \<and> x \<noteq> NegZero | None \<Rightarrow> False)"

type_synonym validator = "wire_value \<Rightarrow> schema \<Rightarrow> string \<Rightarrow> validation_issue list option"

text \<open>\<open>forEach\<close> skips the holes of an array.\<close>

definition array_issues :: "validator \<Rightarrow> schema \<Rightarrow> wire_value \<Rightarrow> string \<Rightarrow> validation_issue list option" where
  "array_issues rec schema v path =
     (case v of
        WObject (ArrayObject items) \<Rightarrow>
          (case prop_of schema ''items'' of
             Some (JObj item_schema) \<Rightarrow>
               collect (\<lambda>(i, item). case item of None \<Rightarrow> Some [] | Some x \<Rightarrow> rec x item_schema (at_index path i))
                 (enumerate 0 items)
           | _ \<Rightarrow> Some [])
      | _ \<Rightarrow> Some [issue path ''type'' ''must be an array''])"

definition property_issues ::
  "validator \<Rightarrow> schema \<Rightarrow> (string \<times> wire_value property) list \<Rightarrow> string \<Rightarrow> string \<times> json \<Rightarrow> validation_issue list option" where
  "property_issues rec schema ps path = (\<lambda>(name, child).
     (case own_value ps name of
        None \<Rightarrow> Some (if name \<in> set (required_names schema)
                 then [issue (at_key path name) ''required'' ''is required''] else [])
      | Some x \<Rightarrow> (case child of JObj c \<Rightarrow> rec x c (at_key path name) | _ \<Rightarrow> Some [])))"

definition object_issues :: "validator \<Rightarrow> schema \<Rightarrow> wire_value \<Rightarrow> string \<Rightarrow> validation_issue list option" where
  "object_issues rec schema v path =
     (case record_of v of
        None \<Rightarrow> Some [issue path ''type'' ''must be an object'']
      | Some ps \<Rightarrow>
          map_option (\<lambda>is. is @ final_issues schema v path)
            (case prop_of schema ''properties'' of
               Some (JObj properties) \<Rightarrow> collect (property_issues rec schema ps path) (own_order properties)
             | _ \<Rightarrow> Some []))"

definition typed_issues :: "validator \<Rightarrow> schema \<Rightarrow> wire_value \<Rightarrow> string \<Rightarrow> validation_issue list option" where
  "typed_issues rec schema v path =
     (let t = prop_of schema ''type'' in
      if t = Some (JStr ''null'') then Some (if v \<noteq> WNull then [issue path ''type'' ''must be null''] else [])
      else if t = Some (JStr ''string'') then Some (string_issues schema v path)
      else if t = Some (JStr ''boolean'') then
        Some (case v of WPrim (PBool b) \<Rightarrow> [] | _ \<Rightarrow> [issue path ''type'' ''must be a boolean''])
      else if t = Some (JStr ''integer'') then
        Some (if integer_value v then final_issues schema v path
              else [issue path ''type'' ''must be a safe JavaScript integer''])
      else if t = Some (JStr ''number'') then
        Some (if number_value v then final_issues schema v path
              else [issue path ''type'' ''must be a finite JavaScript number''])
      else if t = Some (JStr ''array'') then array_issues rec schema v path
      else if t = Some (JStr ''object'') then object_issues rec schema v path
      else Some (if t = None then validateAny v path
                 else [issue path ''schema'' ''uses an unsupported schema shape'']))"

fun validateAt :: "nat \<Rightarrow> registry \<Rightarrow> validator" where
  "validateAt 0 schemas v schema path = None"
| "validateAt (Suc fuel) schemas v schema path =
     (if v = WNull \<and> acceptsNull schema then Some []
      else let schema = nonNullSchema schema
           in (case referenceName (prop_of schema ''$ref'') of
                 Some referenced \<Rightarrow>
                   (case prop_of schemas referenced of
                      None \<Rightarrow> Some [issue path ''schema'' (''references missing schema '' @ quoted referenced)]
                    | Some target \<Rightarrow> validateAt fuel schemas v target path)
               | None \<Rightarrow> typed_issues (validateAt fuel schemas) schema v path))"

definition validateCatalogValue :: "nat \<Rightarrow> wire_value \<Rightarrow> string \<Rightarrow> registry \<Rightarrow> validation_issue list option" where
  "validateCatalogValue fuel v schemaName schemas =
     (case prop_of schemas schemaName of
        None \<Rightarrow> Some [issue ''$'' ''schema'' (''missing schema '' @ quoted schemaName)]
      | Some schema \<Rightarrow> validateAt fuel schemas v schema ''$'')"

definition assertCatalogValue :: "nat \<Rightarrow> wire_value \<Rightarrow> string \<Rightarrow> registry \<Rightarrow> unit result option" where
  "assertCatalogValue fuel v schemaName schemas =
     map_option (\<lambda>is. if is \<noteq> [] then Inl (ProtocolValidationError is) else Inr ())
       (validateCatalogValue fuel v schemaName schemas)"

section \<open>\<open>serializeAt\<close>\<close>

fun travO :: "('a \<Rightarrow> 'b result option) \<Rightarrow> 'a list \<Rightarrow> 'b list result option" where
  "travO f [] = Some (Inr [])"
| "travO f (x # xs) =
     (case f x of None \<Rightarrow> None | Some (Inl e) \<Rightarrow> Some (Inl e)
      | Some (Inr y) \<Rightarrow> map_option (map_sum id ((#) y)) (travO f xs))"

definition serialize_array :: "(wire_value \<Rightarrow> schema \<Rightarrow> wire_value result option) \<Rightarrow> schema \<Rightarrow> wire_value option list \<Rightarrow> wire_value result option" where
  "serialize_array rec schema items =
     (case prop_of schema ''items'' of
        Some (JObj item_schema) \<Rightarrow>
          map_option (map_sum id (\<lambda>ys. WObject (ArrayObject ys)))
            (travO (\<lambda>item. case item of None \<Rightarrow> Some (Inr None)
                | Some x \<Rightarrow> map_option (map_sum id Some) (rec x item_schema)) items)
      | _ \<Rightarrow> Some (Inr (WObject (ArrayObject items))))"

text \<open>The declared properties that the value has, in the order of the schema.\<close>

definition declared_properties :: "(string \<times> wire_value property) list \<Rightarrow> (string \<times> json) list \<Rightarrow> (string \<times> wire_value \<times> schema) list" where
  "declared_properties ps properties =
     concat (map (\<lambda>(name, child). case (own_value ps name, child) of (Some x, JObj c) \<Rightarrow> [(name, x, c)] | _ \<Rightarrow> [])
       (own_order properties))"

definition serialize_record ::
  "(wire_value \<Rightarrow> schema \<Rightarrow> wire_value result option) \<Rightarrow> schema \<Rightarrow> (string \<times> wire_value property) list \<Rightarrow> wire_value result option" where
  "serialize_record rec schema ps =
     (case prop_of schema ''properties'' of
        Some (JObj properties) \<Rightarrow>
          map_option (map_sum id (\<lambda>es. WObject (wireObject es)))
            (travO (\<lambda>(name, x, c). map_option (map_sum id (Pair name)) (rec x c)) (declared_properties ps properties))
      | _ \<Rightarrow> Some (Inr (WObject (if prop_of schema ''additionalProperties'' = Some (JBool True)
               then wireMap (map (\<lambda>(k, p). (k, read_property p)) ps) else wireObject []))))"

definition serialize_typed ::
  "(wire_value \<Rightarrow> schema \<Rightarrow> wire_value result option) \<Rightarrow> schema \<Rightarrow> wire_value \<Rightarrow> wire_value result option" where
  "serialize_typed rec schema v =
     (case v of
        WObject (ArrayObject items) \<Rightarrow>
          if prop_of schema ''type'' = Some (JStr ''array'') then serialize_array rec schema items else Some (Inr v)
      | _ \<Rightarrow>
          (case record_of v of
             Some ps \<Rightarrow> if prop_of schema ''type'' = Some (JStr ''object'') then serialize_record rec schema ps else Some (Inr v)
           | None \<Rightarrow> Some (Inr v)))"

fun serializeAt :: "nat \<Rightarrow> registry \<Rightarrow> wire_value \<Rightarrow> schema \<Rightarrow> wire_value result option" where
  "serializeAt 0 schemas v schema = None"
| "serializeAt (Suc fuel) schemas v schema =
     (if v = WNull then Some (Inr WNull)
      else let schema = nonNullSchema schema
           in (case referenceName (prop_of schema ''$ref'') of
                 Some referenced \<Rightarrow>
                   (case prop_of schemas referenced of
                      None \<Rightarrow> Some (Inl (ProtocolValidationError [issue ''$'' ''schema'' (''missing schema '' @ quoted referenced)]))
                    | Some target \<Rightarrow> serializeAt fuel schemas v target)
               | None \<Rightarrow> serialize_typed (serializeAt fuel schemas) schema v))"

definition serializeCatalogValue :: "nat \<Rightarrow> wire_value \<Rightarrow> string \<Rightarrow> registry \<Rightarrow> wire_value result option" where
  "serializeCatalogValue fuel v schemaName schemas =
     (case assertCatalogValue fuel v schemaName schemas of
        None \<Rightarrow> None
      | Some (Inl e) \<Rightarrow> Some (Inl e)
      | Some (Inr _) \<Rightarrow>
         (case prop_of schemas schemaName of
            None \<Rightarrow> Some (Inl (JsError ''undefined schema''))
          | Some schema \<Rightarrow> serializeAt fuel schemas v schema))"

section \<open>Fuel\<close>

definition max_list :: "nat list \<Rightarrow> nat" where
  "max_list ns = foldr max ns 0"

lemma max_list_ge: "n \<in> set ns \<Longrightarrow> n \<le> max_list ns"
  unfolding max_list_def by (induction ns) auto

lemma max_list_map_le: "(\<And>x. x \<in> set xs \<Longrightarrow> f x \<le> n) \<Longrightarrow> max_list (map f xs) \<le> n"
  unfolding max_list_def by (induction xs) auto

text \<open>
  The nesting depth of a value; the pairs of an ordered object are two arrays deep.
\<close>

fun object_height :: "('v \<Rightarrow> nat) \<Rightarrow> 'v wire_object \<Rightarrow> nat" where
  "object_height h (ArrayObject items) = Suc (max_list (map (case_option 0 h) items))"
| "object_height h (OrderedObject es) = Suc (Suc (Suc (max_list (map (\<lambda>(k, v). h v) es))))"
| "object_height h (PlainObject plain ps) = Suc (max_list (map (\<lambda>(k, p). h (read_property p)) ps))"

lemma object_height_cong [fundef_cong]:
  assumes "ob = ob'" "\<And>v. v \<in> set_wire_object ob' \<Longrightarrow> f v = g v"
  shows "object_height f ob = object_height g ob'"
proof (cases ob')
  case (ArrayObject items)
  with assms show ?thesis by (auto intro!: arg_cong [where f = max_list] split: option.splits)
next
  case (OrderedObject es)
  with assms show ?thesis by (force intro!: arg_cong [where f = max_list])
next
  case (PlainObject plain ps)
  have "f (read_property p) = g (read_property p)" if "(k, p) \<in> set ps" for k p
    using that assms(2) PlainObject by (cases p) force+
  with assms(1) PlainObject show ?thesis by (auto intro!: arg_cong [where f = max_list])
qed

fun height :: "wire_value \<Rightarrow> nat" where
  "height (WPrim p) = 0"
| "height (WObject ob) = object_height height ob"

lemma height_item: "Some x \<in> set items \<Longrightarrow> height x < height (WObject (ArrayObject items))"
  using max_list_ge [of "height x" "map (case_option 0 height) items"] by (force simp: image_iff)

lemma height_entry_pairs: "height (entry_pairs es) < height (WObject (OrderedObject es))"
proof -
  have "height (WObject (ArrayObject [Some (WStr k), Some v])) \<le> Suc (max_list (map (\<lambda>(k, v). height v) es))"
    if "(k, v) \<in> set es" for k v
    using that max_list_ge [of "height v" "map (\<lambda>(k, v). height v) es"] by (force simp: max_list_def image_iff)
  then have "max_list (map (\<lambda>x. case_option 0 height (case x of (k, v) \<Rightarrow> Some (WObject (ArrayObject [Some (WStr k), Some v])))) es)
      \<le> Suc (max_list (map (\<lambda>(k, v). height v) es))"
    by (intro max_list_map_le) auto
  then show ?thesis by (simp add: entry_pairs_def o_def)
qed

lemma height_property:
  assumes "record_of v = Some ps" "own_value ps name = Some x"
  shows "height x < height v"
proof (cases v)
  case (WObject ob)
  show ?thesis
  proof (cases ob)
    case (OrderedObject es)
    with WObject assms have "x = entry_pairs es" by (auto simp: own_value_def split: if_splits)
    with height_entry_pairs WObject OrderedObject show ?thesis by blast
  next
    case (PlainObject plain qs)
    with WObject assms obtain p where "(name, p) \<in> set qs" "x = read_property p"
      by (auto simp: own_value_def dest!: map_of_SomeD)
    with max_list_ge [of "height x" "map (\<lambda>(k, p). height (read_property p)) qs"] WObject PlainObject
    show ?thesis by (force simp: image_iff)
  qed (use WObject assms in simp)
qed (use assms in simp)

lemma collect_Some: "(\<And>x. x \<in> set xs \<Longrightarrow> \<exists>ys. f x = Some ys) \<Longrightarrow> \<exists>ys. collect f xs = Some ys"
  by (induction xs) fastforce+

lemma collect_mono:
  "collect f xs = Some ys \<Longrightarrow> (\<And>x ys. x \<in> set xs \<Longrightarrow> f x = Some ys \<Longrightarrow> g x = Some ys) \<Longrightarrow> collect g xs = Some ys"
  by (induction xs arbitrary: ys) (auto split: option.splits)

text \<open>No schema of the registry is itself a reference, as in the generated catalogs.\<close>

definition ref_free :: "schema \<Rightarrow> bool" where
  "ref_free schema \<longleftrightarrow> referenceName (prop_of (nonNullSchema schema) ''$ref'') = None"

definition flat_registry :: "registry \<Rightarrow> bool" where
  "flat_registry schemas \<longleftrightarrow> list_all (\<lambda>(name, schema). ref_free schema) schemas"

lemma typed_issues_Some:
  assumes "\<And>x schema path. height x < height v \<Longrightarrow> \<exists>is. rec x schema path = Some is"
  shows "\<exists>is. typed_issues rec schema v path = Some is"
proof -
  have "\<exists>is. array_issues rec schema v path = Some is"
    unfolding array_issues_def using assms height_item
    by (auto intro!: collect_Some dest!: enumerate_set split: wire_value.split wire_object.split option.split json.split)
  moreover have "\<exists>is. property_issues rec schema ps path p = Some is" if "record_of v = Some ps" for ps p
    using assms height_property [OF that]
    by (auto simp: property_issues_def split: prod.split option.split json.split)
  then have "\<exists>is. object_issues rec schema v path = Some is"
    unfolding object_issues_def by (auto intro!: collect_Some split: option.split json.split)
  ultimately show ?thesis by (auto simp: typed_issues_def Let_def)
qed

lemma validateAt_fuel:
  assumes "flat_registry schemas"
  shows "2 * height v + (if ref_free schema then 1 else 2) \<le> fuel \<Longrightarrow> \<exists>is. validateAt fuel schemas v schema path = Some is"
proof (induction fuel arbitrary: v schema path)
  case (Suc fuel)
  show ?case
  proof (cases "referenceName (prop_of (nonNullSchema schema) ''$ref'')")
    case None
    have "\<exists>is. validateAt fuel schemas x schema' path' = Some is" if "height x < height v" for x schema' path'
      using that Suc.prems by (intro Suc.IH) (auto split: if_splits)
    from typed_issues_Some [OF this] None show ?thesis by (simp add: Let_def)
  next
    case (Some referenced)
    have "\<exists>is. validateAt fuel schemas v target path = Some is" if "prop_of schemas referenced = Some target" for target
    proof (rule Suc.IH)
      have "ref_free target" using assms that by (auto simp: flat_registry_def list_all_iff dest!: map_of_SomeD)
      with Some Suc.prems show "2 * height v + (if ref_free target then 1 else 2) \<le> fuel" by (auto simp: ref_free_def)
    qed
    with Some show ?thesis by (auto simp: Let_def split: option.split)
  qed
qed (auto split: if_splits)

text \<open>More fuel does not change a result.\<close>

lemma typed_issues_mono:
  assumes "typed_issues rec schema v path = Some is"
    and "\<And>x schema path is. rec x schema path = Some is \<Longrightarrow> rec' x schema path = Some is"
  shows "typed_issues rec' schema v path = Some is"
proof -
  have arr: "array_issues rec' schema v path = Some is" if "array_issues rec schema v path = Some is"
    using that assms(2) unfolding array_issues_def
    by (auto elim!: collect_mono split: wire_value.splits wire_object.splits option.splits json.splits)
  have "property_issues rec' schema ps path p = Some ys" if "property_issues rec schema ps path p = Some ys" for ps p ys
    using that assms(2) by (auto simp: property_issues_def split: prod.splits option.splits json.splits)
  then have obj: "object_issues rec' schema v path = Some is" if "object_issues rec schema v path = Some is"
    using that unfolding object_issues_def by (auto elim!: collect_mono split: option.splits json.splits)
  show ?thesis using assms(1) arr obj by (auto simp: typed_issues_def Let_def split: if_splits)
qed

lemma validateAt_mono:
  "validateAt fuel schemas v schema path = Some is \<Longrightarrow> fuel \<le> fuel' \<Longrightarrow> validateAt fuel' schemas v schema path = Some is"
proof (induction fuel arbitrary: fuel' v schema path "is")
  case (Suc fuel)
  then obtain f' where f': "fuel' = Suc f'" "fuel \<le> f'" by (cases fuel') auto
  have "typed_issues (validateAt f' schemas) s v path = Some is" if "typed_issues (validateAt fuel schemas) s v path = Some is" for s
    using that by (rule typed_issues_mono) (rule Suc.IH [OF _ f'(2)])
  moreover have "validateAt f' schemas v target path = Some is" if "validateAt fuel schemas v target path = Some is" for target
    using that f'(2) by (rule Suc.IH)
  ultimately show ?case
    using Suc.prems(1) unfolding f'(1) validateAt.simps Let_def
    by (cases "v = WNull \<and> acceptsNull schema"; cases "referenceName (prop_of (nonNullSchema schema) ''$ref'')")
      (simp_all only: if_True if_False option.case simp_thms split: option.splits, simp_all)
qed simp

text \<open>The fuel that the catalog functions need for a value.\<close>

definition value_fuel :: "wire_value \<Rightarrow> nat" where
  "value_fuel v = 2 * height v + 2"

lemma validateCatalogValue_total_aux:
  assumes "flat_registry schemas" "value_fuel v \<le> fuel"
  shows "\<exists>is. validateCatalogValue fuel v name schemas = Some is
    \<and> validateCatalogValue (value_fuel v) v name schemas = Some is"
proof (cases "prop_of schemas name")
  case (Some schema)
  have "2 * height v + (if ref_free schema then 1 else 2) \<le> value_fuel v" by (simp add: value_fuel_def)
  from validateAt_fuel [OF assms(1) this]
  obtain "is" where "validateAt (value_fuel v) schemas v schema ''$'' = Some is" by blast
  with validateAt_mono [OF this assms(2)] Some show ?thesis by (simp add: validateCatalogValue_def)
qed (simp add: validateCatalogValue_def)

text \<open>
  On a registry without chains of references validation terminates for every value and
  schema name: fuel twice the nesting depth of the value plus two is enough, and more fuel gives the
  same issues.
\<close>

theorem validateCatalogValue_total:
  assumes "flat_registry schemas" "value_fuel v \<le> fuel"
  shows "\<exists>is. validateCatalogValue fuel v name schemas = Some is
    \<and> validateCatalogValue (value_fuel v) v name schemas = Some is"
  using assms by (rule validateCatalogValue_total_aux)

theorem validateCatalogValue_total_witness:
  "let schemas = [(''T'', [(''type'', JStr ''array''), (''items'', JObj [(''$ref'', JStr ''#/schemas/U'')])]),
                  (''U'', [(''type'', JStr ''integer'')])];
       v = WObject (ArrayObject [Some (WNum (Fin 1)), Some (WStr ''x'')])
   in flat_registry schemas
      \<and> (\<exists>is. validateCatalogValue 9 v ''T'' schemas = Some is \<and> validateCatalogValue (value_fuel v) v ''T'' schemas = Some is)
      \<and> validateCatalogValue 9 v ''T'' schemas = Some [issue ''$[1]'' ''type'' ''must be a safe JavaScript integer'']"
  unfolding Let_def
  by (intro conjI validateCatalogValue_total) (code_simp, code_simp, code_simp, code_simp)

end
