(* ===== verification/Serialization.thy ===== *)
theory Serialization
  imports Validation
begin

text \<open>
  What \<open>serializeCatalogValue\<close> promises: a JSON value that passes validation serialises, its text can
  be encoded, and the value the peer decodes passes validation again.
\<close>

section \<open>Values that can be encoded\<close>

definition encodable :: "wire_value \<Rightarrow> bool" where
  "encodable w \<longleftrightarrow> (\<exists>s. encode_tree w = Inr s)"

text \<open>JSON values as the decoder returns them: safe numbers, no repeated key.\<close>

fun json_ok :: "json \<Rightarrow> bool" where
  "json_ok (JNum x) = safe_json_number x"
| "json_ok (JArr xs) = list_all json_ok xs"
| "json_ok (JObj ps) = (distinct (map fst ps) \<and> list_all (\<lambda>(k, v). json_ok v) ps)"
| "json_ok _ = True"

lemma traverse_Some: "\<forall>x \<in> set xs. \<exists>y. f x = Inr y \<Longrightarrow> \<exists>ys. traverse f xs = Inr ys"
proof (induction xs)
  case (Cons x xs)
  then obtain y ys where "f x = Inr y" "traverse f xs = Inr ys" by auto
  then show ?case by simp
qed simp

lemma encodable_array:
  assumes "\<And>i. i \<in> set items \<Longrightarrow> \<exists>x. i = Some x \<and> encodable x"
  shows "encodable (WObject (ArrayObject items))"
proof -
  have "\<forall>i \<in> set items. \<exists>t. (case i of None \<Rightarrow> wire_json_error ''sparse JSON array'' | Some v \<Rightarrow> encode_tree v) = Inr t"
    using assms by (fastforce simp: encodable_def)
  from traverse_Some [OF this] show ?thesis by (auto simp: encodable_def encode_array_def)
qed

lemma encode_entries_Some:
  assumes "distinct (map fst es)" "fst ` set es \<inter> set seen = {}" "\<And>k v. (k, v) \<in> set es \<Longrightarrow> encodable v"
  shows "\<exists>ts. encode_entries encode_tree seen es = Inr ts"
  using assms
proof (induction es arbitrary: seen)
  case (Cons e es)
  obtain k v where e: "e = (k, v)" by (cases e)
  obtain t where t: "encode_tree v = Inr t" using Cons.prems(3) [of k v] e by (auto simp: encodable_def)
  have "\<And>k' v'. (k', v') \<in> set es \<Longrightarrow> encodable v'" by (meson Cons.prems(3) list.set_intros(2))
  then obtain ts where "encode_entries encode_tree (k # seen) es = Inr ts"
    using Cons.IH [of "k # seen"] Cons.prems(1,2) e by auto
  with t e Cons.prems(2) show ?case by simp
qed simp

lemma encodable_ordered:
  assumes "distinct (map fst es)" "\<And>k v. (k, v) \<in> set es \<Longrightarrow> encodable v"
  shows "encodable (WObject (OrderedObject es))"
  using encode_entries_Some [OF assms(1), of "[]"] assms(2) by (auto simp: encodable_def encode_members_def)

lemma encodable_embed: "json_ok j \<Longrightarrow> encodable (embed j)"
proof (induction j)
  case (JArr xs)
  then show ?case unfolding embed.simps by (intro encodable_array) (auto simp: list_all_iff)
next
  case (JObj ps)
  have "traverse plain_entry (own_order (map (\<lambda>(k, v). (k, Data (embed v))) ps)) =
      Inr (map (\<lambda>(k, v). (k, read_property v)) (own_order (map (\<lambda>(k, v). (k, Data (embed v))) ps)))"
    by (rule traverse_map_Inr) auto
  then have p: "plain_entries True (map (\<lambda>(k, v). (k, Data (embed v))) ps) = Inr (map (\<lambda>(k, v). (k, embed v)) (own_order ps))"
    using own_order_map [of "\<lambda>v. Data (embed v)" ps] by (simp add: plain_entries_def map_prod_def o_def case_prod_beta)
  have "distinct (map fst (map (\<lambda>(k, v). (k, embed v)) (own_order ps)))"
    using JObj.prems distinct_own_order [of ps] by (simp add: o_def case_prod_beta)
  moreover have "encodable v" if "(k, v) \<in> set (map (\<lambda>(k, v). (k, embed v)) (own_order ps))" for k v
    using that JObj by (fastforce simp: list_all_iff)
  ultimately have "\<exists>ts. encode_entries encode_tree [] (map (\<lambda>(k, v). (k, embed v)) (own_order ps)) = Inr ts"
    by (intro encode_entries_Some) auto
  then show ?case using p by (auto simp: encodable_def encode_members_def)
qed (auto simp: encodable_def safe_json_number_def)

section \<open>The value the peer decodes\<close>

lemma own_value_embed:
  "own_value (map (\<lambda>(k, v). (k, Data (embed v))) ps) name = map_option embed (prop_of ps name)"
  by (simp add: own_value_def map_of_map option.map_comp o_def)

lemma record_of_embed [simp]:
  "record_of (embed (JObj ps)) = Some (map (\<lambda>(k, v). (k, Data (embed v))) ps)"
  by simp

lemma number_of_embed: "number_of (embed j) = (case j of JNum x \<Rightarrow> Some x | _ \<Rightarrow> None)"
  by (cases j) auto

lemma json_of_embed_arr: "json_of (embed (JArr xs)) = JArr (map (\<lambda>x. json_of (embed x)) xs)"
  by (simp add: o_def)

lemma json_of_embed_obj: "json_of (embed (JObj ps)) = JObj (map (\<lambda>(k, v). (k, json_of (embed v))) (own_order ps))"
  using own_order_map [of "\<lambda>v. Data (embed v)" ps] by (simp add: map_prod_def o_def case_prod_beta)

lemma json_ok_canonical: "json_ok j \<Longrightarrow> json_ok (json_of (embed j))"
proof (induction j)
  case (JArr xs)
  then show ?case by (auto simp: json_of_embed_arr list_all_iff simp del: embed.simps json_of.simps)
next
  case (JObj ps)
  then show ?case using distinct_own_order [of ps]
    by (fastforce simp: json_of_embed_obj list_all_iff o_def case_prod_beta simp del: embed.simps json_of.simps)
qed auto

lemma validateAny_embed: "json_ok j \<Longrightarrow> validateAny (embed j) path = []"
proof (induction j arbitrary: path)
  case (JArr xs)
  have "\<forall>(i, item) \<in> set (enumerate 0 (map (\<lambda>x. Some (embed x)) xs)).
      (case item of None \<Rightarrow> [issue (at_index path i) ''presence'' ''must not be sparse'']
       | Some v \<Rightarrow> validateAny v (at_index path i)) = []"
    using JArr by (fastforce simp: list_all_iff dest!: enumerate_set)
  then show ?case by (auto simp: concat_eq_Nil_conv)
next
  case (JObj ps)
  have "\<forall>(k, p) \<in> set (own_order (map (\<lambda>(k, v). (k, Data (embed v))) ps)).
      (case p of Accessor v \<Rightarrow> [issue (at_key path k) ''object'' ''must not be an accessor'']
       | Data v \<Rightarrow> validateAny v (at_key path k)) = []"
    using JObj by (fastforce simp: list_all_iff)
  then show ?case by (auto simp: concat_eq_Nil_conv)
qed (auto simp: safe_json_number_def)

section \<open>Well-formed schemas\<close>

fun is_record :: "json \<Rightarrow> bool" where
  "is_record (JObj ps) = True"
| "is_record _ = False"

fun children_records :: "json \<Rightarrow> bool" where
  "children_records (JObj ps) = list_all (\<lambda>(k, v). is_record v) ps"
| "children_records _ = True"

text \<open>No repeated keyword, and every member of a \<open>properties\<close> object is a schema.\<close>

fun wf_schema :: "json \<Rightarrow> bool" where
  "wf_schema (JObj s) =
     (distinct (map fst s) \<and> list_all (\<lambda>(k, v). wf_schema v \<and> (k = ''properties'' \<longrightarrow> children_records v)) s)"
| "wf_schema (JArr xs) = list_all wf_schema xs"
| "wf_schema _ = True"

definition wf_registry :: "registry \<Rightarrow> bool" where
  "wf_registry schemas \<longleftrightarrow> flat_registry schemas \<and> list_all (\<lambda>(n, s). wf_schema (JObj s)) schemas"

lemma wf_schema_lookup: "wf_schema (JObj s) \<Longrightarrow> prop_of s k = Some v \<Longrightarrow> wf_schema v"
  by (auto simp: list_all_iff dest!: map_of_SomeD)

lemma wf_single_variant:
  assumes "wf_schema (JObj s)" "single_variant s k = Some t"
  shows "wf_schema (JObj t)"
proof -
  obtain vs where vs: "prop_of s k = Some (JArr vs)" "filter (\<lambda>v. \<not> null_variant v) vs = [JObj t]"
    using assms(2) by (auto simp: single_variant_def split: option.splits json.splits list.splits)
  then have "JObj t \<in> set vs" by (metis filter_is_subset list.set_intros(1) subsetD)
  with wf_schema_lookup [OF assms(1) vs(1)] show ?thesis by (auto simp: list_all_iff simp del: wf_schema.simps(1))
qed

lemma wf_nonNullSchema:
  assumes "wf_schema (JObj s)"
  shows "wf_schema (JObj (nonNullSchema s))"
proof (cases "case prop_of s ''type'' of
      Some (JArr ts) \<Rightarrow> (case filter (\<lambda>t. t \<noteq> JStr ''null'') ts of [t] \<Rightarrow> Some t | _ \<Rightarrow> None) | _ \<Rightarrow> None")
  case None
  then show ?thesis using assms wf_single_variant [OF assms]
    by (auto simp: nonNullSchema_def Let_def simp del: wf_schema.simps split: option.splits)
next
  case (Some t)
  then obtain ts where ts: "prop_of s ''type'' = Some (JArr ts)" "filter (\<lambda>t. t \<noteq> JStr ''null'') ts = [t]"
    by (auto split: option.splits json.splits list.splits)
  then have "t \<in> set ts" by (metis filter_is_subset list.set_intros(1) subsetD)
  with wf_schema_lookup [OF assms ts(1)] have "wf_schema t" by (auto simp: list_all_iff)
  with Some assms show ?thesis
    by (auto simp: nonNullSchema_def Let_def list_all_iff o_def case_prod_beta)
qed

section \<open>Serialising a valid value\<close>

lemma map_sum_Inr_iff: "map_sum g f x = Inr y \<longleftrightarrow> (\<exists>z. x = Inr z \<and> y = f z)"
  by (cases x) auto

lemma collect_Nil: "collect f xs = Some [] \<longleftrightarrow> (\<forall>x \<in> set xs. f x = Some [])"
  by (induction xs) (auto split: option.splits)

lemma travO_ok:
  assumes "\<And>i. i < length xs \<Longrightarrow> \<exists>y. f (xs ! i) = Some (Inr y) \<and> P i y"
  shows "\<exists>ys. travO f xs = Some (Inr ys) \<and> length ys = length xs \<and> (\<forall>i < length xs. P i (ys ! i))"
  using assms
proof (induction xs arbitrary: P)
  case (Cons x xs)
  obtain y where y: "f x = Some (Inr y)" "P 0 y" using Cons.prems [of 0] by auto
  have "\<exists>ys. travO f xs = Some (Inr ys) \<and> length ys = length xs \<and> (\<forall>i < length xs. P (Suc i) (ys ! i))"
    using Cons.prems [of "Suc _"] by (intro Cons.IH) auto
  then obtain ys where "travO f xs = Some (Inr ys)" "length ys = length xs" "\<forall>i < length xs. P (Suc i) (ys ! i)"
    by blast
  with y show ?case by (intro exI [of _ "y # ys"]) (auto simp: nth_Cons split: nat.split)
qed simp

text \<open>
  A serialised value: it can be encoded, what is decoded from it is valid again, and numbers are
  unchanged.
\<close>

definition survives :: "validator \<Rightarrow> json \<Rightarrow> schema \<Rightarrow> string \<Rightarrow> wire_value \<Rightarrow> bool" where
  "survives rec j c path w \<longleftrightarrow> encodable w \<and> json_ok (json_of w) \<and> rec (embed (json_of w)) c path = Some []
     \<and> number_of (embed (json_of w)) = number_of (embed j)"

definition serializes :: "validator \<Rightarrow> (wire_value \<Rightarrow> schema \<Rightarrow> wire_value result option) \<Rightarrow> bool" where
  "serializes rec ser \<longleftrightarrow> (\<forall>j c path. json_ok j \<longrightarrow> wf_schema (JObj c) \<longrightarrow> rec (embed j) c path = Some [] \<longrightarrow>
     (\<exists>w. ser (embed j) c = Some (Inr w) \<and> survives rec j c path w))"

lemma number_of_canonical: "number_of (embed (json_of (embed j))) = number_of (embed j)"
  by (cases j) auto

lemma serialize_array_ok:
  assumes ih: "serializes rec ser" and j: "json_ok (JArr xs)" and s: "wf_schema (JObj s)"
    and v: "array_issues rec s (embed (JArr xs)) path = Some []"
  shows "\<exists>w. serialize_array ser s (map (\<lambda>x. Some (embed x)) xs) = Some (Inr w) \<and>
    survives (\<lambda>v s p. array_issues rec s v p) (JArr xs) s path w"
proof (cases "\<exists>c. prop_of s ''items'' = Some (JObj c)")
  case False
  then have "serialize_array ser s (map (\<lambda>x. Some (embed x)) xs) = Some (Inr (embed (JArr xs)))"
    by (auto simp: serialize_array_def split: option.splits json.splits)
  moreover have "array_issues rec s (embed (json_of (embed (JArr xs)))) path = Some []"
    using False by (auto simp: array_issues_def split: option.splits json.splits)
  ultimately show ?thesis
    using encodable_embed [OF j] json_ok_canonical [OF j] number_of_canonical by (simp add: survives_def)
next
  case True
  then obtain c where c: "prop_of s ''items'' = Some (JObj c)" by blast
  then have wc: "wf_schema (JObj c)" using wf_schema_lookup [OF s] by blast
  have item: "\<exists>w. ser (embed (xs ! i)) c = Some (Inr w) \<and> survives rec (xs ! i) c (at_index path i) w"
    if "i < length xs" for i
  proof -
    have "(i, Some (embed (xs ! i))) \<in> set (enumerate 0 (map (\<lambda>x. Some (embed x)) xs))"
      using that by (simp add: in_set_enumerate_eq)
    with v c have "rec (embed (xs ! i)) c (at_index path i) = Some []"
      by (auto simp: array_issues_def collect_Nil)
    moreover have "json_ok (xs ! i)" using j that by (auto simp: list_all_length)
    ultimately show ?thesis using ih wc by (auto simp: serializes_def)
  qed
  let ?f = "\<lambda>item. case item of None \<Rightarrow> Some (Inr None) | Some x \<Rightarrow> map_option (map_sum id Some) (ser x c)"
  have "\<exists>ys. travO ?f (map (\<lambda>x. Some (embed x)) xs) = Some (Inr ys) \<and> length ys = length (map (\<lambda>x. Some (embed x)) xs) \<and>
      (\<forall>i < length (map (\<lambda>x. Some (embed x)) xs). \<exists>w. ys ! i = Some w \<and> survives rec (xs ! i) c (at_index path i) w)"
    by (rule travO_ok) (use item in fastforce)
  then obtain ys where ys: "travO ?f (map (\<lambda>x. Some (embed x)) xs) = Some (Inr ys)" "length ys = length xs"
    and sv: "\<forall>i < length xs. \<exists>w. ys ! i = Some w \<and> survives rec (xs ! i) c (at_index path i) w" by auto
  let ?w = "WObject (ArrayObject ys)"
  have enc: "encodable ?w"
    using sv ys(2) by (intro encodable_array) (fastforce simp: in_set_conv_nth survives_def)
  have js: "json_of ?w = JArr (map (case_option JNull json_of) ys)" by simp
  have ok: "json_ok (json_of ?w)" unfolding js
    using sv ys(2) by (fastforce simp: list_all_length survives_def)
  have "rec (embed (case_option JNull json_of (ys ! i))) c (at_index path i) = Some []" if "i < length ys" for i
    using sv that ys(2) by (fastforce simp: survives_def)
  then have "array_issues rec s (embed (json_of ?w)) path = Some []"
    unfolding js using c by (auto simp: array_issues_def collect_Nil in_set_enumerate_eq)
  with enc ok ys(1) c show ?thesis by (simp add: serialize_array_def survives_def)
qed

text \<open>Field order is only checked on numbers, which serialisation does not change.\<close>

lemma final_issues_survive:
  assumes "final_issues s (embed (JObj ps)) path = []"
    and "\<And>k y. prop_of qs k = Some y \<Longrightarrow> \<exists>x. prop_of ps k = Some x \<and> number_of (embed y) = number_of (embed x)"
  shows "final_issues s (embed (JObj qs)) path = []"
proof -
  let ?rec = "\<lambda>ps. map (\<lambda>(k, v). (k, Data (embed v))) ps"
  have num: "Option.bind (own_value (?rec ps) k) number_of = Some n"
    if "Option.bind (own_value (?rec qs) k) number_of = Some n" for k n
    using that assms(2) by (fastforce simp: own_value_embed bind_eq_Some_conv)
  have "ordering_issues (?rec qs) path entry = []" if "ordering_issues (?rec ps) path entry = []" for entry
    using that num unfolding ordering_issues_def
    by (auto split: json.splits option.splits)
  with assms(1) show ?thesis
    by (auto simp: final_issues_def concat_eq_Nil_conv split: option.splits json.splits)
qed

lemma object_survives:
  assumes es: "distinct (map fst es)" "\<And>k w. (k, w) \<in> set es \<Longrightarrow> encodable w \<and> json_ok (json_of w)"
    and fin: "final_issues s (embed (JObj ps)) path = []"
    and num: "\<And>k w. (k, w) \<in> set es \<Longrightarrow> \<exists>x. prop_of ps k = Some x \<and> number_of (embed (json_of w)) = number_of (embed x)"
    and props: "case prop_of s ''properties'' of Some (JObj props) \<Rightarrow>
        \<forall>p \<in> set props. property_issues rec s (map (\<lambda>(k, v). (k, Data (embed v))) (json_entries es)) path p = Some [] | _ \<Rightarrow> True"
  shows "survives (\<lambda>v s p. object_issues rec s v p) (JObj ps) s path (WObject (OrderedObject es))"
proof -
  have enc: "encodable (WObject (OrderedObject es))" using es by (intro encodable_ordered) auto
  have js: "json_of (WObject (OrderedObject es)) = JObj (json_entries es)" by (rule json_of_ordered)
  have ok: "json_ok (JObj (json_entries es))"
    using es by (auto simp: json_entries_def list_all_iff o_def case_prod_beta)
  have "final_issues s (embed (JObj (json_entries es))) path = []"
    using fin
  proof (rule final_issues_survive)
    fix k y assume "prop_of (json_entries es) k = Some y"
    then obtain w where "(k, w) \<in> set es" "y = json_of w" by (auto simp: json_entries_def dest!: map_of_SomeD)
    with num show "\<exists>x. prop_of ps k = Some x \<and> number_of (embed y) = number_of (embed x)" by blast
  qed
  moreover have "(case prop_of s ''properties'' of
      Some (JObj properties) \<Rightarrow> collect (property_issues rec s (map (\<lambda>(k, v). (k, Data (embed v))) (json_entries es)) path) (own_order properties)
      | _ \<Rightarrow> Some []) = Some []"
    using props by (auto simp: collect_Nil split: option.splits json.splits)
  ultimately have "object_issues rec s (embed (JObj (json_entries es))) path = Some []"
    by (simp add: object_issues_def)
  then show ?thesis using enc ok js by (simp add: survives_def del: json_of.simps)
qed

lemma declared_set:
  "(n, x, c) \<in> set (declared_properties ps props) \<longleftrightarrow> (n, JObj c) \<in> set props \<and> own_value ps n = Some x"
  by (force simp: declared_properties_def split: option.splits json.splits)

lemma distinct_concat_map:
  assumes "\<And>p. fst ` set (g p) \<subseteq> {fst p}" "\<And>p. distinct (map fst (g p))" "distinct (map fst L)"
  shows "distinct (map fst (concat (map g L))) \<and> fst ` set (concat (map g L)) \<subseteq> fst ` set L"
  using assms(3)
proof (induction L)
  case (Cons p L)
  have L: "distinct (map fst L)" and p: "fst p \<notin> fst ` set L" using Cons.prems by simp_all
  note IH = Cons.IH [OF L, THEN conjunct1] Cons.IH [OF L, THEN conjunct2]
  have sets: "A \<inter> B = {} \<and> A \<union> B \<subseteq> insert x C" if "A \<subseteq> {x}" "B \<subseteq> C" "x \<notin> C" for A B C :: "'a set" and x
    using that by blast
  from sets [OF assms(1) [of p] IH(2) p] assms(2) [of p] IH(1) show ?case
    unfolding list.map concat.simps map_append distinct_append set_append set_map image_Un list.set image_insert
    by (intro conjI) simp_all
qed simp

lemma declared_distinct:
  assumes "distinct (map fst props)"
  shows "distinct (map fst (declared_properties ps props))"
  unfolding declared_properties_def using distinct_own_order [OF assms]
  by (intro distinct_concat_map [THEN conjunct1]) (auto split: prod.splits option.splits json.splits)

lemma serialize_record_ok:
  assumes ih: "serializes rec ser" and j: "json_ok (JObj ps)" and s: "wf_schema (JObj s)"
    and v: "object_issues rec s (embed (JObj ps)) path = Some []"
  shows "\<exists>w. serialize_record ser s (map (\<lambda>(k, v). (k, Data (embed v))) ps) = Some (Inr w) \<and>
    survives (\<lambda>v s p. object_issues rec s v p) (JObj ps) s path w"
proof (cases "\<exists>props. prop_of s ''properties'' = Some (JObj props)")
  case False
  let ?all = "map (\<lambda>(k, v). (k, embed v)) ps"
  let ?es = "if prop_of s ''additionalProperties'' = Some (JBool True) then sort_key fst (own_order ?all) else []"
  have fin: "final_issues s (embed (JObj ps)) path = []"
    using v by (auto simp: object_issues_def split: option.splits)
  have all: "map (\<lambda>(k, p). (k, read_property p)) (map (\<lambda>(k, v). (k, Data (embed v))) ps) = ?all" by auto
  have "serialize_record ser s (map (\<lambda>(k, v). (k, Data (embed v))) ps) = Some (Inr (WObject (OrderedObject ?es)))"
    using False unfolding serialize_record_def all
    by (auto simp: wireMap_def wireObject_def split: option.splits json.splits)
  moreover have "survives (\<lambda>v s p. object_issues rec s v p) (JObj ps) s path (WObject (OrderedObject ?es))"
  proof (rule object_survives [OF _ _ fin])
    show "distinct (map fst ?es)"
      using j distinct_own_order [of ?all] by (auto simp: distinct_map o_def case_prod_beta)
    fix k w assume "(k, w) \<in> set ?es"
    then obtain x where x: "(k, x) \<in> set ps" "w = embed x" by (auto split: if_splits)
    then have "json_ok x" using j by (auto simp: list_all_iff)
    with x show "encodable w \<and> json_ok (json_of w)" using encodable_embed json_ok_canonical by blast
    show "\<exists>x. prop_of ps k = Some x \<and> number_of (embed (json_of w)) = number_of (embed x)"
      using x j number_of_canonical by (auto intro!: exI [of _ x] map_of_is_SomeI)
  qed (use False in \<open>auto split: option.splits json.splits\<close>)
  ultimately show ?thesis by blast
next
  case True
  then obtain props where props: "prop_of s ''properties'' = Some (JObj props)" by blast
  define D where "D = declared_properties (map (\<lambda>(k, v). (k, Data (embed v))) ps) props"
  have wprops: "wf_schema (JObj props)" "children_records (JObj props)"
    using map_of_SomeD [OF props] s unfolding wf_schema.simps(1) [of s] list_all_iff by blast+
  have valid: "property_issues rec s (map (\<lambda>(k, v). (k, Data (embed v))) ps) path p = Some []" if "p \<in> set props" for p
    using v props that by (auto simp: object_issues_def collect_Nil split: option.splits)
  have fin: "final_issues s (embed (JObj ps)) path = []"
    using v by (auto simp: object_issues_def split: option.splits)
  have D: "(n, JObj c) \<in> set props \<and> (\<exists>y. prop_of ps n = Some y \<and> x = embed y)" if "(n, x, c) \<in> set D" for n x c
    using that by (auto simp: D_def declared_set own_value_embed)
  have item: "\<exists>e. map_option (map_sum id (Pair n)) (ser x c) = Some (Inr e) \<and>
      (\<exists>y w. e = (n, w) \<and> prop_of ps n = Some y \<and> survives rec y c (at_key path n) w)" if m: "(n, x, c) \<in> set D" for n x c
  proof -
    obtain y where y: "prop_of ps n = Some y" "x = embed y" and c: "(n, JObj c) \<in> set props" using D [OF m] by blast
    have "rec (embed y) c (at_key path n) = Some []"
      using valid [OF c] y by (simp add: property_issues_def own_value_embed)
    moreover have "json_ok y" using j y by (auto simp: list_all_iff dest!: map_of_SomeD)
    moreover have "wf_schema (JObj c)"
      using wprops(1) c wf_schema_lookup [OF wprops(1), of n "JObj c"] map_of_is_SomeI [of props n "JObj c"] by simp
    ultimately show ?thesis using ih y by (fastforce simp: serializes_def)
  qed
  let ?f = "\<lambda>(name, x, c). map_option (map_sum id (Pair name)) (ser x c)"
  have "\<exists>es. travO ?f D = Some (Inr es) \<and> length es = length D \<and> (\<forall>i < length D. \<exists>y w. es ! i = (fst (D ! i), w) \<and>
      prop_of ps (fst (D ! i)) = Some y \<and> survives rec y (snd (snd (D ! i))) (at_key path (fst (D ! i))) w)"
  proof (rule travO_ok)
    fix i assume "i < length D"
    then have "(fst (D ! i), fst (snd (D ! i)), snd (snd (D ! i))) \<in> set D" by simp
    from item [OF this]
    show "\<exists>e. ?f (D ! i) = Some (Inr e) \<and> (\<exists>y w. e = (fst (D ! i), w) \<and>
        prop_of ps (fst (D ! i)) = Some y \<and> survives rec y (snd (snd (D ! i))) (at_key path (fst (D ! i))) w)"
      by (simp add: case_prod_beta)
  qed
  then obtain es where es: "travO ?f D = Some (Inr es)" "length es = length D"
    and sv: "\<forall>i < length D. \<exists>y w. es ! i = (fst (D ! i), w) \<and>
      prop_of ps (fst (D ! i)) = Some y \<and> survives rec y (snd (snd (D ! i))) (at_key path (fst (D ! i))) w" by blast
  have keys: "map fst es = map fst D" using es(2) sv by (intro nth_equalityI) auto
  then have dist: "distinct (map fst es)" using declared_distinct [of props] wprops(1) by (simp add: D_def)
  have elem: "\<exists>y c. prop_of ps k = Some y \<and> (k, embed y, c) \<in> set D \<and> survives rec y c (at_key path k) w" if kw: "(k, w) \<in> set es" for k w
  proof -
    obtain i where i: "i < length D" "es ! i = (k, w)" using kw es(2) by (auto simp: in_set_conv_nth)
    with sv obtain y where y: "fst (D ! i) = k" "prop_of ps k = Some y" "survives rec y (snd (snd (D ! i))) (at_key path k) w" by auto
    have m: "(k, fst (snd (D ! i)), snd (snd (D ! i))) \<in> set D" using i(1) y(1) by (metis nth_mem prod.collapse)
    with D y(2) have "fst (snd (D ! i)) = embed y" by fastforce
    with m y show ?thesis by auto
  qed
  have "survives (\<lambda>v s p. object_issues rec s v p) (JObj ps) s path (WObject (OrderedObject es))"
  proof (rule object_survives [OF dist _ fin])
    fix k w assume kw: "(k, w) \<in> set es"
    show "encodable w \<and> json_ok (json_of w)" using elem [OF kw] by (auto simp: survives_def)
    show "\<exists>x. prop_of ps k = Some x \<and> number_of (embed (json_of w)) = number_of (embed x)"
      using elem [OF kw] by (auto simp: survives_def)
  next
    have "property_issues rec s (map (\<lambda>(k, v). (k, Data (embed v))) (json_entries es)) path (n, child) = Some []"
      if nc: "(n, child) \<in> set props" for n child
    proof (cases "n \<in> fst ` set es")
      case True
      then obtain w where w: "(n, w) \<in> set es" by auto
      from elem [OF w] obtain y c where c: "(n, embed y, c) \<in> set D" "survives rec y c (at_key path n) w" by blast
      have "child = JObj c" using D [OF c(1)] nc wprops(1) by (auto dest: eq_key_imp_eq_value)
      moreover have "own_value (map (\<lambda>(k, v). (k, Data (embed v))) (json_entries es)) n = Some (embed (json_of w))"
        using json_entries_lookup [OF dist w] by (simp add: own_value_embed)
      ultimately show ?thesis using c(2) by (simp add: property_issues_def survives_def)
    next
      case False
      obtain c where c: "child = JObj c" using wprops(2) nc by (cases child) (auto simp: list_all_iff)
      have "n \<notin> fst ` set D" using False keys by (metis list.set_map)
      then have "(n, embed y, c) \<notin> set D" for y by (force simp: image_iff)
      then have none: "prop_of ps n = None"
        using nc c by (cases "prop_of ps n") (auto simp: D_def declared_set own_value_embed)
      have "own_value (map (\<lambda>(k, v). (k, Data (embed v))) (json_entries es)) n = None"
        using json_entries_absent [OF False] by (simp add: own_value_embed)
      with valid [OF nc] none show ?thesis by (simp add: property_issues_def own_value_embed)
    qed
    then show "case prop_of s ''properties'' of Some (JObj props) \<Rightarrow>
        \<forall>p \<in> set props. property_issues rec s (map (\<lambda>(k, v). (k, Data (embed v))) (json_entries es)) path p = Some [] | _ \<Rightarrow> True"
      using props by auto
  qed
  moreover have "serialize_record ser s (map (\<lambda>(k, v). (k, Data (embed v))) ps) = Some (Inr (WObject (OrderedObject es)))"
    using es(1) props by (simp add: serialize_record_def D_def wireObject_def)
  ultimately show ?thesis by blast
qed

lemma serialize_typed_ok:
  assumes ih: "serializes rec ser" and j: "json_ok j" and s: "wf_schema (JObj s)"
    and v: "typed_issues rec s (embed j) path = Some []"
  shows "\<exists>w. serialize_typed ser s (embed j) = Some (Inr w) \<and>
    survives (\<lambda>v s p. typed_issues rec s v p) j s path w"
proof (cases "(\<exists>xs. j = JArr xs \<and> prop_of s ''type'' = Some (JStr ''array''))
    \<or> (\<exists>ps. j = JObj ps \<and> prop_of s ''type'' = Some (JStr ''object''))")
  case False
  have ser: "serialize_typed ser s (embed j) = Some (Inr (embed j))"
    using False by (cases j) (auto simp: serialize_typed_def)
  have "embed (json_of (embed j)) = embed j \<or> prop_of s ''type'' = None"
    using False v by (cases j)
      (auto simp: typed_issues_def Let_def string_issues_def integer_value_def number_value_def array_issues_def object_issues_def split: if_splits)
  then have "typed_issues rec s (embed (json_of (embed j))) path = Some []"
  proof
    assume "embed (json_of (embed j)) = embed j"
    with v show ?thesis by (simp only:)
  next
    assume "prop_of s ''type'' = None"
    then show ?thesis using validateAny_embed [OF json_ok_canonical [OF j]] by (simp add: typed_issues_def)
  qed
  with ser encodable_embed [OF j] json_ok_canonical [OF j] number_of_canonical show ?thesis
    by (auto simp: survives_def)
next
  case True
  then show ?thesis
  proof (elim disjE exE conjE)
    fix xs assume a: "j = JArr xs" "prop_of s ''type'' = Some (JStr ''array'')"
    have "typed_issues rec s w path = array_issues rec s w path" for w
      using a(2) by (simp add: typed_issues_def)
    moreover have "serialize_typed ser s (embed j) = serialize_array ser s (map (\<lambda>x. Some (embed x)) xs)"
      using a by (simp add: serialize_typed_def)
    ultimately show ?thesis
      using serialize_array_ok [OF ih _ s, of xs path] j v a(1) by (auto simp: survives_def)
  next
    fix ps assume a: "j = JObj ps" "prop_of s ''type'' = Some (JStr ''object'')"
    have "typed_issues rec s w path = object_issues rec s w path" for w
      using a(2) by (simp add: typed_issues_def)
    moreover have "serialize_typed ser s (embed j) = serialize_record ser s (map (\<lambda>(k, v). (k, Data (embed v))) ps)"
      using a by (simp add: serialize_typed_def)
    ultimately show ?thesis
      using serialize_record_ok [OF ih _ s, of ps path] j v a(1) by (auto simp: survives_def simp del: json_ok.simps)
  qed
qed

lemma validateAt_step:
  assumes "referenceName (prop_of (nonNullSchema schema) ''$ref'') = None" "\<not> (v = WNull \<and> acceptsNull schema)"
  shows "validateAt (Suc fuel) schemas v schema path = typed_issues (validateAt fuel schemas) (nonNullSchema schema) v path"
  unfolding validateAt.simps Let_def using assms by (simp only: if_False option.case)

lemma validateAt_ref:
  assumes "referenceName (prop_of (nonNullSchema schema) ''$ref'') = Some r" "prop_of schemas r = Some target"
    and "\<not> (v = WNull \<and> acceptsNull schema)"
  shows "validateAt (Suc fuel) schemas v schema path = validateAt fuel schemas v target path"
  unfolding validateAt.simps Let_def using assms by (simp only: if_False option.case)

lemma serializeAt_valid:
  assumes "wf_registry schemas"
  shows "serializes (validateAt fuel schemas) (serializeAt fuel schemas)"
proof (induction fuel)
  case 0
  then show ?case by (simp add: serializes_def)
next
  case (Suc fuel)
  show ?case unfolding serializes_def
  proof (intro allI impI)
    fix j schema path
    assume j: "json_ok j" and s: "wf_schema (JObj schema)"
      and v: "validateAt (Suc fuel) schemas (embed j) schema path = Some []"
    show "\<exists>w. serializeAt (Suc fuel) schemas (embed j) schema = Some (Inr w)
        \<and> survives (validateAt (Suc fuel) schemas) j schema path w"
    proof (cases "embed j = WNull")
      case True
      then show ?thesis
        using v by (auto simp: survives_def encodable_def simp del: validateAt.simps)
    next
      case nn: False
      then have nn': "\<not> (embed j = WNull \<and> acceptsNull schema)" by simp
      show ?thesis
      proof (cases "referenceName (prop_of (nonNullSchema schema) ''$ref'')")
        case None
        have t: "typed_issues (validateAt fuel schemas) (nonNullSchema schema) (embed j) path = Some []"
          using v unfolding validateAt_step [OF None nn'] .
        from serialize_typed_ok [OF Suc.IH j wf_nonNullSchema [OF s] t]
        obtain w where w: "serialize_typed (serializeAt fuel schemas) (nonNullSchema schema) (embed j) = Some (Inr w)"
          "survives (\<lambda>v s p. typed_issues (validateAt fuel schemas) s v p) j (nonNullSchema schema) path w" by blast
        have "validateAt (Suc fuel) schemas (embed (json_of w)) schema path = Some []"
          using w(2) validateAt_step [OF None, of "embed (json_of w)"]
          by (cases "embed (json_of w) = WNull \<and> acceptsNull schema") (simp_all add: survives_def)
        with w nn None show ?thesis by (simp add: survives_def del: validateAt.simps)
      next
        case (Some r)
        obtain target where target: "prop_of schemas r = Some target"
          using v nn Some by (cases "prop_of schemas r") auto
        have "wf_schema (JObj target)"
          using assms map_of_SomeD [OF target] by (auto simp: wf_registry_def list_all_iff simp del: wf_schema.simps)
        moreover have "validateAt fuel schemas (embed j) target path = Some []"
          using v unfolding validateAt_ref [OF Some target nn'] .
        ultimately obtain w where w: "serializeAt fuel schemas (embed j) target = Some (Inr w)"
          "survives (validateAt fuel schemas) j target path w"
          using Suc.IH j unfolding serializes_def by blast
        have "validateAt (Suc fuel) schemas (embed (json_of w)) schema path = Some []"
          using w(2) validateAt_ref [OF Some target, of "embed (json_of w)"]
          by (cases "embed (json_of w) = WNull \<and> acceptsNull schema") (simp_all add: survives_def)
        with w nn Some target show ?thesis by (simp add: survives_def del: validateAt.simps)
      qed
    qed
  qed
qed

section \<open>Properties\<close>

lemma delivered_value:
  assumes "wf_registry schemas" "json_ok j" "prop_of schemas name = Some schema"
    and "validateCatalogValue fuel (embed j) name schemas = Some []"
  shows "\<exists>w s. serializeCatalogValue fuel (embed j) name schemas = Some (Inr w) \<and> encode_tree w = Inr s
    \<and> s = json_text (json_of w) \<and> validateCatalogValue fuel (embed (json_of w)) name schemas = Some []"
proof -
  have v: "validateAt fuel schemas (embed j) schema ''$'' = Some []"
    using assms(3,4) by (simp add: validateCatalogValue_def)
  have "wf_schema (JObj schema)"
    using assms(1) map_of_SomeD [OF assms(3)] by (auto simp: wf_registry_def list_all_iff simp del: wf_schema.simps)
  then obtain w where w: "serializeAt fuel schemas (embed j) schema = Some (Inr w)" "survives (validateAt fuel schemas) j schema ''$'' w"
    using serializeAt_valid [OF assms(1)] assms(2) v unfolding serializes_def by blast
  from w(2) obtain s where s: "encode_tree w = Inr s" by (auto simp: survives_def encodable_def)
  moreover have "s = json_text (json_of w)" using encode_tree_prints [OF s] by (simp add: prints_def)
  ultimately show ?thesis
    using w assms(3,4) by (auto simp: serializeCatalogValue_def assertCatalogValue_def validateCatalogValue_def survives_def)
qed

text \<open>
  Claim C16.  A JSON value that passes validation is delivered: \<open>serializeCatalogValue\<close> succeeds, the
  serialised value encodes to a text, and the value that this text denotes passes validation of the
  same schema again.
\<close>

theorem valid_value_is_delivered:
  assumes "wf_registry schemas" "json_ok j" "prop_of schemas name = Some schema"
    and "validateCatalogValue fuel (embed j) name schemas = Some []"
  shows "\<exists>w s. serializeCatalogValue fuel (embed j) name schemas = Some (Inr w) \<and> encode_tree w = Inr s
    \<and> s = json_text (json_of w) \<and> validateCatalogValue fuel (embed (json_of w)) name schemas = Some []"
  using assms by (rule delivered_value)

theorem valid_value_is_delivered_witness:
  "let schemas = [(''T'', [(''type'', JStr ''object''), (''properties'', JObj [(''b'', JObj [(''type'', JStr ''string'')]),
                    (''a'', JObj [(''$ref'', JStr ''#/schemas/U'')])]), (''required'', JArr [JStr ''a''])]),
                  (''U'', [(''type'', JStr ''integer'')])];
       j = JObj [(''a'', JNum (Fin 1)), (''extra'', JNull), (''b'', JStr ''x'')]
   in (\<exists>w s. serializeCatalogValue 9 (embed j) ''T'' schemas = Some (Inr w) \<and> encode_tree w = Inr s
       \<and> s = json_text (json_of w) \<and> validateCatalogValue 9 (embed (json_of w)) ''T'' schemas = Some [])
      \<and> serializeCatalogValue 9 (embed j) ''T'' schemas
          = Some (Inr (WObject (OrderedObject [(''b'', WStr ''x''), (''a'', WNum (Fin 1))])))"
  unfolding Let_def
  by (rule conjI, rule valid_value_is_delivered) (code_simp, code_simp, simp, code_simp, code_simp)

text \<open>
  Only declared properties leave the process: when the schema of a record lists its
  properties, the serialised object has exactly the declared ones that the value has, in the order
  of the schema.
\<close>

theorem serialized_properties_declared:
  assumes "record_of v = Some ps" "prop_of (nonNullSchema schema) ''$ref'' = None"
    and "prop_of (nonNullSchema schema) ''type'' = Some (JStr ''object'')"
    and "prop_of (nonNullSchema schema) ''properties'' = Some (JObj props)"
    and "serializeAt (Suc fuel) schemas v schema = Some (Inr w)"
  shows "\<exists>es. w = WObject (OrderedObject es)
    \<and> map fst es = map fst (declared_properties ps props)
    \<and> map fst (declared_properties ps props)
        = map fst (filter (\<lambda>(k, c). own_value ps k \<noteq> None \<and> is_record c) (own_order props))"
proof -
  have "v \<noteq> WNull" using assms(1) by auto
  then have "serialize_typed (serializeAt fuel schemas) (nonNullSchema schema) v = Some (Inr w)"
    using assms(2,5) by (simp add: referenceName_def Let_def)
  then have "serialize_record (serializeAt fuel schemas) (nonNullSchema schema) ps = Some (Inr w)"
    using assms(1,3) by (cases v rule: record_of.cases) (auto simp: serialize_typed_def)
  then obtain es where es: "w = WObject (OrderedObject es)"
    "travO (\<lambda>(name, x, c). map_option (map_sum id (Pair name)) (serializeAt fuel schemas x c)) (declared_properties ps props) = Some (Inr es)"
    using assms(4) by (auto simp: serialize_record_def wireObject_def map_sum_Inr_iff)
  have "travO (\<lambda>(name, x, c). map_option (map_sum id (Pair name)) (f x c)) D = Some (Inr es) \<Longrightarrow> map fst es = map fst D" for f D es
  proof (induction D arbitrary: es)
    case (Cons d D)
    then show ?case by (cases d) (auto simp: map_sum_Inr_iff split: option.splits sum.splits)
  qed simp
  moreover have "map fst (declared_properties ps props)
      = map fst (filter (\<lambda>(k, c). own_value ps k \<noteq> None \<and> is_record c) (own_order props))"
  proof -
    have "map fst (concat (map (\<lambda>(name, child). case (own_value ps name, child) of (Some x, JObj c) \<Rightarrow> [(name, x, c)] | _ \<Rightarrow> []) L))
      = map fst (filter (\<lambda>(k, c). own_value ps k \<noteq> None \<and> is_record c) L)" for L
      by (induction L) (auto split: option.splits json.splits)
    then show ?thesis by (simp add: declared_properties_def)
  qed
  ultimately show ?thesis using es by blast
qed

theorem serialized_properties_declared_witness:
  "let schema = [(''type'', JStr ''object''), (''properties'', JObj [(''b'', JObj [(''type'', JStr ''string'')])])];
       ps = [(''a'', Data WNull), (''b'', Data (WStr ''x''))];
       w = WObject (OrderedObject [(''b'', WStr ''x'')])
   in serializeAt (Suc 3) [] (WObject (PlainObject True ps)) schema = Some (Inr w)
      \<and> (\<exists>es. w = WObject (OrderedObject es)
        \<and> map fst es = map fst (declared_properties ps [(''b'', JObj [(''type'', JStr ''string'')])])
        \<and> map fst (declared_properties ps [(''b'', JObj [(''type'', JStr ''string'')])])
            = map fst (filter (\<lambda>(k, c). own_value ps k \<noteq> None \<and> is_record c) (own_order [(''b'', JObj [(''type'', JStr ''string'')])])))"
  unfolding Let_def
  by (rule conjI, code_simp, rule serialized_properties_declared [where fuel = 3 and schemas = "[]"
        and v = "WObject (PlainObject True [(''a'', Data WNull), (''b'', Data (WStr ''x''))])"
        and schema = "[(''type'', JStr ''object''), (''properties'', JObj [(''b'', JObj [(''type'', JStr ''string'')])])]"])
    (simp, code_simp, code_simp, code_simp, code_simp)

end
