(* ===== verification/Catalog.thy ===== *)
theory Catalog
  imports Serialization
begin

text \<open>
  The five functions that a generated catalog has for each of its types, as combinators over the
  registry and the type's name, and what holds of them for every well-formed registry.  The fuel is
  that of the value at hand, which is enough on a registry without chains of references.
\<close>

definition validate_as :: "string \<Rightarrow> registry \<Rightarrow> wire_value \<Rightarrow> validation_issue list option" where
  "validate_as name schemas v = validateCatalogValue (value_fuel v) v name schemas"

definition assert_as :: "string \<Rightarrow> registry \<Rightarrow> wire_value \<Rightarrow> unit result option" where
  "assert_as name schemas v = assertCatalogValue (value_fuel v) v name schemas"

definition serialize_as :: "string \<Rightarrow> registry \<Rightarrow> wire_value \<Rightarrow> wire_value result option" where
  "serialize_as name schemas v = serializeCatalogValue (value_fuel v) v name schemas"

definition encode_as :: "(wire_value \<Rightarrow> wire_value result option) \<Rightarrow> wire_value \<Rightarrow> string result option" where
  "encode_as serialize v = map_option (\<lambda>r. bindR r encode_tree) (serialize v)"

definition decode_as :: "(wire_value \<Rightarrow> unit result option) \<Rightarrow> json_parse \<Rightarrow> (string \<Rightarrow> bool) \<Rightarrow> string \<Rightarrow> json result option" where
  "decode_as assert_value parse isSafeNumber bytes =
     (case decodeWireJson parse isSafeNumber bytes of
        Inl e \<Rightarrow> Some (Inl e)
      | Inr value \<Rightarrow> map_option (\<lambda>r. bindR r (\<lambda>_. Inr value)) (assert_value (embed value)))"

section \<open>Totality\<close>

lemma validate_as_fuel:
  assumes "flat_registry schemas" "validateCatalogValue fuel v name schemas = Some is"
  shows "validate_as name schemas v = Some is"
proof (cases "value_fuel v \<le> fuel")
  case True
  then show ?thesis using validateCatalogValue_total_aux [OF assms(1) True, of name] assms(2) by (auto simp: validate_as_def)
next
  case False
  then have "fuel \<le> value_fuel v" by simp
  then show ?thesis
    using assms(2) validateAt_mono [of fuel schemas v _ "''$''" "is" "value_fuel v"]
    by (auto simp: validate_as_def validateCatalogValue_def split: option.splits)
qed

lemma assert_as_total:
  assumes "flat_registry schemas"
  shows "assert_as name schemas v = Some (Inr ()) \<or> (\<exists>is. is \<noteq> [] \<and> assert_as name schemas v = Some (Inl (ProtocolValidationError is)))"
  using validateCatalogValue_total_aux [OF assms order_refl, of v name]
  by (auto simp: assert_as_def assertCatalogValue_def)

text \<open>
  A message survives the wire: for every type of a well-formed catalog, a valid value
  encodes to a text, and decoding that text with the decoder of the same type returns the
  serialised value, which is valid again.
\<close>

theorem catalog_message_roundtrip:
  assumes "json_library parse isSafeNumber" "wf_registry schemas" "prop_of schemas name = Some schema"
    and "json_ok j" "validate_as name schemas (embed j) = Some []"
    and "\<And>w. serialize_as name schemas (embed j) = Some (Inr w) \<Longrightarrow> transportable w"
  shows "\<exists>w s. serialize_as name schemas (embed j) = Some (Inr w)
    \<and> encode_as (serialize_as name schemas) (embed j) = Some (Inr s)
    \<and> decode_as (assert_as name schemas) parse isSafeNumber s = Some (Inr (json_of w))"
proof -
  obtain w s where w: "serialize_as name schemas (embed j) = Some (Inr w)" "encode_tree w = Inr s"
    "validateCatalogValue (value_fuel (embed j)) (embed (json_of w)) name schemas = Some []"
    using delivered_value [OF assms(2,4,3) assms(5) [unfolded validate_as_def]]
    unfolding serialize_as_def by blast
  have "validate_as name schemas (embed (json_of w)) = Some []"
    using validate_as_fuel w(3) assms(2) by (auto simp: wf_registry_def)
  then have "assert_as name schemas (embed (json_of w)) = Some (Inr ())"
    by (simp add: assert_as_def assertCatalogValue_def validate_as_def)
  moreover have "decodeWireJson parse isSafeNumber s = Inr (json_of w)"
    using json_library.decode_prints [OF assms(1) encode_tree_prints [OF w(2)]] assms(6) [OF w(1)]
    by (auto simp: transportable_def)
  ultimately show ?thesis using w by (auto simp: encode_as_def decode_as_def)
qed

theorem catalog_message_roundtrip_witness:
  "let schemas = [(''U'', [(''type'', JStr ''integer'')])]
   in validate_as ''U'' schemas (embed (JNum (Fin 5))) = Some []
     \<and> (\<exists>w s. serialize_as ''U'' schemas (embed (JNum (Fin 5))) = Some (Inr w)
        \<and> encode_as (serialize_as ''U'' schemas) (embed (JNum (Fin 5))) = Some (Inr s)
        \<and> decode_as (assert_as ''U'' schemas) reference_parse reference_isSafeNumber s = Some (Inr (json_of w)))"
  unfolding Let_def
proof (rule conjI [OF _ catalog_message_roundtrip])
  let ?schemas = "[(''U'', [(''type'', JStr ''integer'')])]"
  show v: "validate_as ''U'' ?schemas (embed (JNum (Fin 5))) = Some []" by code_simp
  then show "validate_as ''U'' ?schemas (embed (JNum (Fin 5))) = Some []" .
  show "json_library reference_parse reference_isSafeNumber" by (rule reference_json.json_library_axioms)
  show "wf_registry ?schemas" by code_simp
  show "json_ok (JNum (Fin 5))" by code_simp
  show "prop_of ?schemas ''U'' = Some [(''type'', JStr ''integer'')]" by simp
  have "serialize_as ''U'' ?schemas (embed (JNum (Fin 5))) = Some (Inr (WNum (Fin 5)))" by code_simp
  moreover have "transportable (WNum (Fin 5))"
    using to_double_nat [of 5] by (simp add: transportable_def is_double_def)
  ultimately show "transportable w" if "serialize_as ''U'' ?schemas (embed (JNum (Fin 5))) = Some (Inr w)" for w
    using that by simp
qed

end
