(* ===== verification/Handler.thy ===== *)
theory Handler
  imports Catalog
begin

text \<open>
  \<open>handler.ts\<close>: dispatch of inbound requests and events over role registrations, with middleware, and
  the shape of the registrations and clients that the role generator emits.  The state \<open>'s\<close> is what a
  handler can change through its context; an asynchronous function is a function on that state, run
  to completion.
\<close>

section \<open>Registrations\<close>

type_synonym ('s, 'a) action = "'s \<Rightarrow> 's \<times> 'a result"

type_synonym 's operation = "wire_value \<Rightarrow> ('s, wire_value) action"
type_synonym 's observer = "wire_value \<Rightarrow> ('s, unit) action"

record 's request_registration =
  reg_method :: string
  reg_terminal :: bool
  reg_handle :: "'s operation"

record 's event_registration =
  reg_event :: string
  reg_observe :: "'s observer"

record inbound_request =
  req_method :: string
  req_payload :: wire_value

record inbound_event =
  ev_event :: string
  ev_data :: wire_value

record 's unknown_hooks =
  unknown_request :: "(inbound_request \<Rightarrow> ('s, unit) action) option"
  unknown_event :: "(inbound_event \<Rightarrow> ('s, unit) action) option"

record 's role_adapter =
  requests :: "'s request_registration list"
  events :: "'s event_registration list"
  unknown :: "'s unknown_hooks"

record request_dispatch =
  disp_result :: wire_value
  disp_terminal :: bool

text \<open>
  A middleware sees the state and may call \<open>next\<close> any number of times, going on from the state and
  the outcome of each call.
\<close>

datatype 's middleware_run = Finish 's "unit result" | CallNext 's "'s \<Rightarrow> unit result \<Rightarrow> 's middleware_run"

type_synonym 's middleware = "inbound_request \<Rightarrow> 's \<Rightarrow> 's middleware_run"

record 's handler =
  h_adapter :: "'s role_adapter"
  h_requests :: "string \<rightharpoonup> 's request_registration"
  h_events :: "string \<rightharpoonup> 's event_registration"
  h_onBegin :: "('s, unit) action option"
  h_middleware :: "'s middleware list"

definition EMPTY_ADAPTER :: "'s role_adapter" where
  "EMPTY_ADAPTER = \<lparr>requests = [], events = [], unknown = \<lparr>unknown_request = None, unknown_event = None\<rparr>\<rparr>"

section \<open>The constructor\<close>

fun register_requests ::
  "(string \<rightharpoonup> 's request_registration) \<Rightarrow> 's request_registration list \<Rightarrow> (string \<rightharpoonup> 's request_registration) result" where
  "register_requests m [] = Inr m"
| "register_requests m (r # rs) =
     (if m (reg_method r) \<noteq> None
      then Inl (session_error ''configuration'' (''duplicate request handler '' @ quoted (reg_method r)))
      else register_requests (m(reg_method r \<mapsto> r)) rs)"

fun register_events ::
  "(string \<rightharpoonup> 's event_registration) \<Rightarrow> 's event_registration list \<Rightarrow> (string \<rightharpoonup> 's event_registration) result" where
  "register_events m [] = Inr m"
| "register_events m (r # rs) =
     (if m (reg_event r) \<noteq> None
      then Inl (session_error ''configuration'' (''duplicate event handler '' @ quoted (reg_event r)))
      else register_events (m(reg_event r \<mapsto> r)) rs)"

definition new_handler ::
  "'s role_adapter option \<Rightarrow> ('s, unit) action option \<Rightarrow> 's middleware list option \<Rightarrow> 's handler result" where
  "new_handler adapter onBegin middleware =
     (let a = (case adapter of Some a \<Rightarrow> a | None \<Rightarrow> EMPTY_ADAPTER) in
      bindR (register_requests Map.empty (requests a)) (\<lambda>rm.
      bindR (register_events Map.empty (events a)) (\<lambda>em.
      Inr \<lparr>h_adapter = a, h_requests = rm, h_events = em, h_onBegin = onBegin,
           h_middleware = (case middleware of Some ms \<Rightarrow> ms | None \<Rightarrow> [])\<rparr>)))"

definition handler_begin :: "'s handler \<Rightarrow> ('s, unit) action" where
  "handler_begin h s = (case h_onBegin h of None \<Rightarrow> (s, Inr ()) | Some f \<Rightarrow> f s)"

section \<open>Dispatch\<close>

abbreviation wire_failure :: "int \<Rightarrow> string \<Rightarrow> wire_error" where
  "wire_failure code m \<equiv> \<lparr>err_code = jsInt code, err_message = m, err_data = None\<rparr>"

text \<open>
  \<open>invoke\<close> stores the dispatch of the registered handler in a variable of \<open>dispatchRequest\<close> that the
  middleware cannot see; the model keeps it beside the state.
\<close>

definition invoke :: "'s handler \<Rightarrow> inbound_request \<Rightarrow> ('s \<times> request_dispatch option, unit) action" where
  "invoke h req = (\<lambda>(s, d).
     (case h_requests h (req_method req) of
        Some r \<Rightarrow>
          (case reg_handle r (req_payload req) s of
             (s', Inr result) \<Rightarrow> ((s', Some \<lparr>disp_result = result, disp_terminal = reg_terminal r\<rparr>), Inr ())
           | (s', Inl e) \<Rightarrow>
               ((s', d), Inl (case e of
                  ProtocolValidationError is \<Rightarrow> ProtocolHandlerError (wire_failure 400 (error_text e))
                | _ \<Rightarrow> e)))
      | None \<Rightarrow>
          (case unknown_request (unknown (h_adapter h)) of
             None \<Rightarrow> ((s, d), Inl (ProtocolHandlerError (wire_failure 501 (''unknown method: '' @ req_method req))))
           | Some f \<Rightarrow> (case f req s of (s', r) \<Rightarrow> ((s', d), r)))))"

primrec run_middleware ::
  "('s \<times> 'd, unit) action \<Rightarrow> 's middleware_run \<Rightarrow> 'd \<Rightarrow> ('s \<times> 'd) \<times> unit result" where
  "run_middleware next (Finish s r) d = ((s, d), r)"
| "run_middleware next (CallNext s k) d =
     (case next (s, d) of ((s', d'), r) \<Rightarrow> run_middleware next (k s' r) d')"

definition wrap :: "inbound_request \<Rightarrow> 's middleware \<Rightarrow> ('s \<times> 'd, unit) action \<Rightarrow> ('s \<times> 'd, unit) action" where
  "wrap req m next = (\<lambda>(s, d). run_middleware next (m req s) d)"

text \<open>The loop wraps \<open>invoke\<close> in the middleware, last one first.\<close>

definition chain :: "'s handler \<Rightarrow> inbound_request \<Rightarrow> ('s \<times> request_dispatch option, unit) action" where
  "chain h req = foldl (\<lambda>next m. wrap req m next) (invoke h req) (rev (h_middleware h))"

definition dispatchRequest :: "'s handler \<Rightarrow> inbound_request \<Rightarrow> ('s, request_dispatch option) action" where
  "dispatchRequest h req s =
     (case chain h req (s, None) of ((s', d), Inr _) \<Rightarrow> (s', Inr d) | ((s', d), Inl e) \<Rightarrow> (s', Inl e))"

definition dispatchEvent :: "'s handler \<Rightarrow> inbound_event \<Rightarrow> ('s, unit) action" where
  "dispatchEvent h ev s =
     (case h_events h (ev_event ev) of
        Some r \<Rightarrow> reg_observe r (ev_data ev) s
      | None \<Rightarrow> (case unknown_event (unknown (h_adapter h)) of None \<Rightarrow> (s, Inr ()) | Some f \<Rightarrow> f ev s))"

section \<open>Generated registrations and clients\<close>

text \<open>
  Validation that runs out of fuel is a stack overflow, which JavaScript throws as a \<open>RangeError\<close>.
\<close>

definition settled :: "'a result option \<Rightarrow> 'a result" where
  "settled r = (case r of None \<Rightarrow> Inl (JsError ''Maximum call stack size exceeded'') | Some r \<Rightarrow> r)"

definition typed_handle ::
  "(wire_value \<Rightarrow> unit result option) \<Rightarrow> (wire_value \<Rightarrow> wire_value result option) \<Rightarrow> 's operation \<Rightarrow> 's operation" where
  "typed_handle assert_request serialize_response op v s =
     (case settled (assert_request v) of
        Inl e \<Rightarrow> (s, Inl e)
      | Inr _ \<Rightarrow>
          (case op v s of
             (s', Inl e) \<Rightarrow> (s', Inl e)
           | (s', Inr response) \<Rightarrow> (s', settled (serialize_response response))))"

definition typed_observe :: "(wire_value \<Rightarrow> unit result option) \<Rightarrow> 's observer \<Rightarrow> 's observer" where
  "typed_observe assert_event op v s =
     (case settled (assert_event v) of Inl e \<Rightarrow> (s, Inl e) | Inr _ \<Rightarrow> op v s)"

text \<open>\<open>Requester.request\<close> and \<open>Notifier.notify\<close> as the clients use them.\<close>

type_synonym 's requester = "string \<Rightarrow> wire_value \<Rightarrow> bool \<Rightarrow> ('s, json option) action"
type_synonym 's notifier = "string \<Rightarrow> wire_value \<Rightarrow> ('s, unit) action"

fun or_empty :: "json option \<Rightarrow> json" where
  "or_empty None = JObj []"
| "or_empty (Some JNull) = JObj []"
| "or_empty (Some v) = v"

definition peer_call ::
  "'s requester \<Rightarrow> (wire_value \<Rightarrow> wire_value result option) \<Rightarrow> string \<Rightarrow> bool \<Rightarrow> (wire_value \<Rightarrow> unit result option) \<Rightarrow> wire_value \<Rightarrow> ('s, json) action" where
  "peer_call requester serialize_request method terminal assert_response request s =
     (case settled (serialize_request request) of
        Inl e \<Rightarrow> (s, Inl e)
      | Inr w \<Rightarrow>
          (case requester method w terminal s of
             (s', Inl e) \<Rightarrow> (s', Inl e)
           | (s', Inr response) \<Rightarrow>
               (let v = or_empty response in (s', bindR (settled (assert_response (embed v))) (\<lambda>_. Inr v)))))"

definition peer_notify :: "'s notifier \<Rightarrow> string \<Rightarrow> (wire_value \<Rightarrow> wire_value result option) \<Rightarrow> wire_value \<Rightarrow> ('s, unit) action" where
  "peer_notify notifier event serialize_event v s =
     (case settled (serialize_event v) of Inl e \<Rightarrow> (s, Inl e) | Inr w \<Rightarrow> notifier event w s)"

section \<open>Registration\<close>

lemma key_map_add:
  "k \<notin> f ` set rs \<Longrightarrow> m(k \<mapsto> a) ++ map_of (map (\<lambda>r. (f r, r)) rs) = (m ++ map_of (map (\<lambda>r. (f r, r)) rs))(k \<mapsto> a)"
  by (rule map_add_upd_left) (auto simp: dom_map_of_conv_image_fst)

lemma register_requests_iff:
  "register_requests m rs = Inr m' \<longleftrightarrow>
     distinct (map reg_method rs) \<and> (\<forall>r \<in> set rs. m (reg_method r) = None)
     \<and> m' = m ++ map_of (map (\<lambda>r. (reg_method r, r)) rs)"
proof (induction rs arbitrary: m)
  case (Cons r rs)
  have "(\<forall>q \<in> set rs. (m(reg_method r \<mapsto> r)) (reg_method q) = None) \<longleftrightarrow>
      reg_method r \<notin> reg_method ` set rs \<and> (\<forall>q \<in> set rs. m (reg_method q) = None)"
    by (auto simp: image_iff)
  with Cons.IH [of "m(reg_method r \<mapsto> r)"] have "register_requests (m(reg_method r \<mapsto> r)) rs = Inr m' \<longleftrightarrow>
      distinct (map reg_method (r # rs)) \<and> (\<forall>q \<in> set rs. m (reg_method q) = None)
      \<and> m' = m(reg_method r \<mapsto> r) ++ map_of (map (\<lambda>r. (reg_method r, r)) rs)"
    by (auto simp del: fun_upd_apply)
  then show ?case
    using key_map_add [of "reg_method r" reg_method rs m r] by (auto simp del: fun_upd_apply)
qed auto

lemma register_events_iff:
  "register_events m rs = Inr m' \<longleftrightarrow>
     distinct (map reg_event rs) \<and> (\<forall>r \<in> set rs. m (reg_event r) = None)
     \<and> m' = m ++ map_of (map (\<lambda>r. (reg_event r, r)) rs)"
proof (induction rs arbitrary: m)
  case (Cons r rs)
  have "(\<forall>q \<in> set rs. (m(reg_event r \<mapsto> r)) (reg_event q) = None) \<longleftrightarrow>
      reg_event r \<notin> reg_event ` set rs \<and> (\<forall>q \<in> set rs. m (reg_event q) = None)"
    by (auto simp: image_iff)
  with Cons.IH [of "m(reg_event r \<mapsto> r)"] have "register_events (m(reg_event r \<mapsto> r)) rs = Inr m' \<longleftrightarrow>
      distinct (map reg_event (r # rs)) \<and> (\<forall>q \<in> set rs. m (reg_event q) = None)
      \<and> m' = m(reg_event r \<mapsto> r) ++ map_of (map (\<lambda>r. (reg_event r, r)) rs)"
    by (auto simp del: fun_upd_apply)
  then show ?case
    using key_map_add [of "reg_event r" reg_event rs m r] by (auto simp del: fun_upd_apply)
qed auto

lemma new_handler_iff:
  "new_handler (Some a) onBegin ms = Inr h \<longleftrightarrow>
     distinct (map reg_method (requests a)) \<and> distinct (map reg_event (events a))
     \<and> h = \<lparr>h_adapter = a, h_requests = map_of (map (\<lambda>r. (reg_method r, r)) (requests a)),
            h_events = map_of (map (\<lambda>r. (reg_event r, r)) (events a)), h_onBegin = onBegin,
            h_middleware = (case ms of Some ms \<Rightarrow> ms | None \<Rightarrow> [])\<rparr>"
  by (auto simp: new_handler_def bindR_Inr_iff register_requests_iff register_events_iff)

text \<open>
  The constructor of \<open>Handler\<close> succeeds exactly if no method and no event is registered
  twice, and then every registered method dispatches to its own registration.
\<close>

theorem handler_registration:
  "((\<exists>h. new_handler (Some a) onBegin ms = Inr h) \<longleftrightarrow>
      distinct (map reg_method (requests a)) \<and> distinct (map reg_event (events a)))
   \<and> (\<forall>h r. new_handler (Some a) onBegin ms = Inr h \<longrightarrow> r \<in> set (requests a) \<longrightarrow> h_requests h (reg_method r) = Some r)"
proof -
  have "h_requests h (reg_method r) = Some r"
    if "new_handler (Some a) onBegin ms = Inr h" "r \<in> set (requests a)" for h r
    using that unfolding new_handler_iff
    by (auto intro!: map_of_is_SomeI simp: o_def)
  then show ?thesis by (auto simp: new_handler_iff)
qed

theorem handler_registration_witness:
  "let r = \<lparr>reg_method = ''ping'', reg_terminal = False, reg_handle = (\<lambda>p s. (s, Inr p))\<rparr>;
       a = EMPTY_ADAPTER\<lparr>requests := [r]\<rparr>
   in (\<exists>h :: unit handler. new_handler (Some a) None None = Inr h \<and> h_requests h ''ping'' = Some r)
      \<and> (\<nexists>h :: unit handler. new_handler (Some (a\<lparr>requests := [r, r]\<rparr>)) None None = Inr h)"
proof -
  let ?r = "\<lparr>reg_method = ''ping'', reg_terminal = False, reg_handle = (\<lambda>p s. (s, Inr p))\<rparr> :: unit request_registration"
  let ?a = "EMPTY_ADAPTER\<lparr>requests := [?r]\<rparr>"
  obtain h where h: "new_handler (Some ?a) None None = Inr h"
    using handler_registration [of ?a None None] by (auto simp: EMPTY_ADAPTER_def)
  moreover have "h_requests h (reg_method ?r) = Some ?r"
    using handler_registration [of ?a None None] h by (simp add: EMPTY_ADAPTER_def)
  moreover have "\<nexists>h. new_handler (Some (?a\<lparr>requests := [?r, ?r]\<rparr>)) None None = Inr h"
    using handler_registration [of "?a\<lparr>requests := [?r, ?r]\<rparr>" None None] by (simp add: EMPTY_ADAPTER_def)
  ultimately show ?thesis unfolding Let_def by auto
qed

section \<open>Middleware\<close>

lemma chain_Nil: "h_middleware h = [] \<Longrightarrow> chain h req = invoke h req"
  by (simp add: chain_def)

lemma invoke_middleware [simp]: "invoke (h\<lparr>h_middleware := ms\<rparr>) req = invoke h req"
  by (auto simp: invoke_def fun_eq_iff split: option.split)

lemma chain_Cons: "chain (h\<lparr>h_middleware := m # ms\<rparr>) req = wrap req m (chain (h\<lparr>h_middleware := ms\<rparr>) req)"
  by (simp add: chain_def foldl_conv_foldr)

text \<open>What the dispatch variable can hold: a result of the registration of the requested method.\<close>

definition dispatch_ok :: "'s handler \<Rightarrow> inbound_request \<Rightarrow> request_dispatch option \<Rightarrow> bool" where
  "dispatch_ok h req d \<longleftrightarrow> (\<forall>x. d = Some x \<longrightarrow>
     (\<exists>r s s'. h_requests h (req_method req) = Some r \<and> disp_terminal x = reg_terminal r
        \<and> reg_handle r (req_payload req) s = (s', Inr (disp_result x))))"

lemma invoke_dispatch_ok: "dispatch_ok h req d \<Longrightarrow> dispatch_ok h req (snd (fst (invoke h req (s, d))))"
  by (auto simp: invoke_def dispatch_ok_def split: option.splits prod.splits sum.splits)

lemma run_middleware_invariant:
  assumes "\<And>s d. P d \<Longrightarrow> P (snd (fst (next (s, d))))" "P d"
  shows "P (snd (fst (run_middleware next m d)))"
  using assms(2)
proof (induction m arbitrary: d)
  case (CallNext s k)
  obtain s' d' r where n: "next (s, d) = ((s', d'), r)" by (metis prod.collapse)
  then have "P d'" using assms(1) [OF CallNext.prems, of s] by simp
  then show ?case using CallNext.IH [of "k s'" "k s' r"] n by auto
qed simp

lemma chain_invariant:
  assumes "\<And>s d. P d \<Longrightarrow> P (snd (fst (invoke h req (s, d))))" "P d"
  shows "P (snd (fst (chain h req (s, d))))"
proof -
  have "P (snd (fst (foldr (wrap req) ms (invoke h req) (s, d))))" if "P d" for ms s d
    using that
  proof (induction ms arbitrary: s d)
    case (Cons m ms)
    show ?case
      using run_middleware_invariant [of P "foldr (wrap req) ms (invoke h req)" d "m req s"] Cons.IH Cons.prems
      by (simp add: wrap_def [of req m])
  qed (use assms(1) in simp)
  then show ?thesis using assms(2) by (simp add: chain_def foldl_conv_foldr)
qed

text \<open>
  Whatever the middleware does, \<open>dispatchRequest\<close> reports a result only if the requested
  method is registered and its handler returned that result for the payload of the request, and it
  reports the \<open>terminal\<close> flag of the registration.
\<close>

theorem dispatch_reports_registered_result:
  assumes "dispatchRequest h req s = (s', Inr (Some x))"
  shows "\<exists>r s1 s2. h_requests h (req_method req) = Some r \<and> disp_terminal x = reg_terminal r
    \<and> reg_handle r (req_payload req) s1 = (s2, Inr (disp_result x))"
proof -
  have "dispatch_ok h req (snd (fst (chain h req (s, None))))"
    by (rule chain_invariant [of "dispatch_ok h req", OF invoke_dispatch_ok]) (auto simp: dispatch_ok_def)
  moreover have "snd (fst (chain h req (s, None))) = Some x"
    using assms by (auto simp: dispatchRequest_def split: prod.splits sum.splits)
  ultimately show ?thesis by (simp add: dispatch_ok_def)
qed

text \<open>A handler that echoes its payload, behind a middleware that only calls \<open>next\<close>.\<close>

definition echo_handler :: "nat handler" where
  "echo_handler = \<lparr>h_adapter = EMPTY_ADAPTER,
     h_requests = [''echo'' \<mapsto> \<lparr>reg_method = ''echo'', reg_terminal = True, reg_handle = (\<lambda>p s. (Suc s, Inr p))\<rparr>],
     h_events = Map.empty, h_onBegin = None, h_middleware = [\<lambda>req s. CallNext s Finish]\<rparr>"

theorem dispatch_reports_registered_result_witness:
  "let req = \<lparr>req_method = ''echo'', req_payload = WNull\<rparr>; x = \<lparr>disp_result = WNull, disp_terminal = True\<rparr>
   in dispatchRequest echo_handler req 0 = (1, Inr (Some x))
      \<and> (\<exists>r s1 s2. h_requests echo_handler ''echo'' = Some r \<and> disp_terminal x = reg_terminal r
           \<and> reg_handle r WNull s1 = (s2, Inr (disp_result x)))"
proof -
  let ?req = "\<lparr>req_method = ''echo'', req_payload = WNull\<rparr>" and ?x = "\<lparr>disp_result = WNull, disp_terminal = True\<rparr>"
  have d: "dispatchRequest echo_handler ?req 0 = (1, Inr (Some ?x))"
    by (simp add: dispatchRequest_def chain_def wrap_def invoke_def echo_handler_def)
  from dispatch_reports_registered_result [OF this] d show ?thesis by simp
qed

section \<open>Status codes\<close>

lemma dispatch_plain:
  assumes "h_middleware h = []"
  shows "dispatchRequest h req s =
    (case invoke h req (s, None) of ((s', d), Inr _) \<Rightarrow> (s', Inr d) | ((s', d), Inl e) \<Rightarrow> (s', Inl e))"
  using assms by (simp add: dispatchRequest_def chain_Nil)

text \<open>
  Validation failures reach the peer as code 400: an invalid payload without running the
  handler, but also a handler whose own response does not validate, after its effects.  A method that
  nothing handles is answered with 501.
\<close>

theorem dispatch_status_codes:
  assumes "h_middleware h = []"
  shows "(\<forall>r assert_request serialize_response op is. h_requests h (req_method req) = Some r \<longrightarrow>
      reg_handle r = typed_handle assert_request serialize_response op \<longrightarrow>
      (assert_request (req_payload req) = Some (Inl (ProtocolValidationError is)) \<longrightarrow>
        dispatchRequest h req s = (s, Inl (ProtocolHandlerError (wire_failure 400 (validation_message is)))))
      \<and> (\<forall>s' response. assert_request (req_payload req) = Some (Inr ()) \<longrightarrow> op (req_payload req) s = (s', Inr response) \<longrightarrow>
          serialize_response response = Some (Inl (ProtocolValidationError is)) \<longrightarrow>
          dispatchRequest h req s = (s', Inl (ProtocolHandlerError (wire_failure 400 (validation_message is))))))
    \<and> (h_requests h (req_method req) = None \<longrightarrow> unknown_request (unknown (h_adapter h)) = None \<longrightarrow>
        dispatchRequest h req s = (s, Inl (ProtocolHandlerError (wire_failure 501 (''unknown method: '' @ req_method req)))))"
  using assms by (auto simp: dispatch_plain invoke_def typed_handle_def settled_def)

theorem dispatch_status_codes_witness:
  "let assert_request = (\<lambda>v. Some (Inr ()));
       serialize_response = (\<lambda>v. Some (Inl (ProtocolValidationError [])));
       r = \<lparr>reg_method = ''m'', reg_terminal = False, reg_handle = typed_handle assert_request serialize_response (\<lambda>p s. (s + 1, Inr p))\<rparr>;
       h = \<lparr>h_adapter = EMPTY_ADAPTER, h_requests = [''m'' \<mapsto> r], h_events = Map.empty, h_onBegin = None, h_middleware = []\<rparr>
   in dispatchRequest h \<lparr>req_method = ''m'', req_payload = WNull\<rparr> (0 :: nat)
        = (1, Inl (ProtocolHandlerError (wire_failure 400 (validation_message []))))
      \<and> dispatchRequest h \<lparr>req_method = ''x'', req_payload = WNull\<rparr> (0 :: nat)
        = (0, Inl (ProtocolHandlerError (wire_failure 501 ''unknown method: x'')))"
proof -
  let ?ar = "\<lambda>v. Some (Inr ()) :: unit result option" and ?sr = "\<lambda>v. Some (Inl (ProtocolValidationError [])) :: wire_value result option"
  let ?op = "\<lambda>p (s :: nat). (s + 1, Inr p :: wire_value result)"
  let ?r = "\<lparr>reg_method = ''m'', reg_terminal = False, reg_handle = typed_handle ?ar ?sr ?op\<rparr>"
  let ?h = "\<lparr>h_adapter = EMPTY_ADAPTER, h_requests = [''m'' \<mapsto> ?r], h_events = Map.empty, h_onBegin = None, h_middleware = []\<rparr> :: nat handler"
  have m: "h_middleware ?h = []" by simp
  have "dispatchRequest ?h \<lparr>req_method = ''m'', req_payload = WNull\<rparr> 0 = (1, Inl (ProtocolHandlerError (wire_failure 400 (validation_message []))))"
    using dispatch_status_codes [OF m, of "\<lparr>req_method = ''m'', req_payload = WNull\<rparr>" 0, THEN conjunct1, rule_format, of ?r ?ar ?sr ?op]
    by simp
  moreover have "dispatchRequest ?h \<lparr>req_method = ''x'', req_payload = WNull\<rparr> 0 = (0, Inl (ProtocolHandlerError (wire_failure 501 ''unknown method: x'')))"
    using dispatch_status_codes [OF m, of "\<lparr>req_method = ''x'', req_payload = WNull\<rparr>" 0] by (simp add: EMPTY_ADAPTER_def)
  ultimately show ?thesis unfolding Let_def by blast
qed

text \<open>
  The middleware runs in the order of its configuration: the first one is outermost, and
  its \<open>next\<close> is the dispatch through the remaining ones.
\<close>

theorem middleware_order:
  assumes "h_middleware h = m # ms"
  shows "chain h req (s, d) = run_middleware (chain (h\<lparr>h_middleware := ms\<rparr>) req) (m req s) d"
proof -
  have "h = h\<lparr>h_middleware := m # ms\<rparr>" using assms by simp
  then have "chain h req = wrap req m (chain (h\<lparr>h_middleware := ms\<rparr>) req)" using chain_Cons by metis
  then show ?thesis by (simp add: wrap_def)
qed

theorem middleware_order_witness:
  "let h = echo_handler\<lparr>h_middleware := [\<lambda>req s. CallNext (s * 2) Finish, \<lambda>req s. CallNext (s + 3) Finish]\<rparr>;
       req = \<lparr>req_method = ''echo'', req_payload = WNull\<rparr>
   in chain h req (5, None)
        = run_middleware (chain (h\<lparr>h_middleware := [\<lambda>req s. CallNext (s + 3) Finish]\<rparr>) req) (CallNext (5 * 2) Finish) None
      \<and> fst (dispatchRequest h req 5) = 14"
  unfolding Let_def
  by (rule conjI, rule middleware_order, simp)
    (simp add: dispatchRequest_def chain_def wrap_def invoke_def echo_handler_def)

section \<open>Valid values\<close>

lemma assert_valid: "validate_as n schemas v = Some [] \<Longrightarrow> assert_as n schemas v = Some (Inr ())"
  by (simp add: assert_as_def assertCatalogValue_def validate_as_def)

lemma serialize_valid:
  assumes "wf_registry schemas" "json_ok j" "prop_of schemas n = Some schema" "validate_as n schemas (embed j) = Some []"
  shows "\<exists>w. serialize_as n schemas (embed j) = Some (Inr w) \<and> validate_as n schemas (embed (json_of w)) = Some []"
proof -
  obtain w where "serialize_as n schemas (embed j) = Some (Inr w)"
    "validateCatalogValue (value_fuel (embed j)) (embed (json_of w)) n schemas = Some []"
    using delivered_value [OF assms(1-3) assms(4) [unfolded validate_as_def]] unfolding serialize_as_def by blast
  then show ?thesis using validate_as_fuel assms(1) by (auto simp: wf_registry_def)
qed

end
