(* ===== verification/Babelforce_V1.thy ===== *)
theory Babelforce_V1
  imports Catalog
begin

text \<open>
  The catalog \<open>babelforce.v1\<close> (\<open>generated/zz_generated_babelforcev1_types.ts\<close>): its schemas, its method
  and event names, and the five functions of each type.
\<close>

section \<open>Schemas\<close>

definition AgentToolCallEvent_schema :: schema where
  "AgentToolCallEvent_schema = [
    (''type'', JStr ''object''),
    (''properties'', JObj [
        (''name'', JObj [(''type'', JStr ''string''), (''description'', JStr ''Tool name; arguments and results are deliberately excluded.'')])]),
    (''required'', JArr [JStr ''name'']),
    (''description'', JStr ''Data emitted by `agent.tool.call` when the agent invokes a tool.'')]"

definition AppInfo_schema :: schema where
  "AppInfo_schema = [
    (''type'', JStr ''object''),
    (''properties'', JObj [
        (''id'', JObj [(''type'', JStr ''string''), (''description'', JStr ''Application or graph-node identifier.'')])]),
    (''required'', JArr [JStr ''id'']),
    (''description'', JStr ''IVR application metadata supplied when a session starts.'')]"

definition ApplicationMoveRequest_schema :: schema where
  "ApplicationMoveRequest_schema = [
    (''type'', JStr ''object''),
    (''properties'', JObj [
        (''reason'', JObj [(''type'', JArr [JStr ''string'', JStr ''null'']), (''description'', JStr ''Optional reason for leaving the current graph node.'')]),
        (''application_id'', JObj [(''type'', JArr [JStr ''string'', JStr ''null'']), (''description'', JStr ''Optional target graph-node identifier; absence means advance normally.'')])]),
    (''description'', JStr ''Parameters for terminal operation `application.move`.'')]"

definition ApplicationMoveResponse_schema :: schema where
  "ApplicationMoveResponse_schema = [
    (''type'', JStr ''object''),
    (''properties'', JObj [
        (''next_application_id'', JObj [(''type'', JArr [JStr ''string'', JStr ''null'']), (''description'', JStr ''Graph node selected after the move, when known.'')])]),
    (''description'', JStr ''Result of `application.move`.'')]"

definition AudioBufferClearRequest_schema :: schema where
  "AudioBufferClearRequest_schema = [
    (''type'', JStr ''object''),
    (''description'', JStr ''Parameters for `audio.buffer.clear`.'')]"

definition AudioBufferClearResponse_schema :: schema where
  "AudioBufferClearResponse_schema = [
    (''type'', JStr ''object''),
    (''properties'', JObj [
        (''len'', JObj [(''type'', JStr ''integer''), (''format'', JStr ''int64''), (''description'', JStr ''Number of buffered bytes removed.''), (''x-go-type'', JStr ''int'')])]),
    (''required'', JArr [JStr ''len'']),
    (''description'', JStr ''Result of `audio.buffer.clear`.'')]"

definition AudioCodec_schema :: schema where
  "AudioCodec_schema = [
    (''type'', JStr ''object''),
    (''properties'', JObj [
        (''id'', JObj [(''type'', JStr ''string''), (''description'', JStr ''Codec identifier such as `L16/8000/1`.'')]),
        (''name'', JObj [(''type'', JStr ''string''), (''description'', JStr ''Codec name such as `L16`.'')]),
        (''sample_rate'', JObj [(''type'', JStr ''integer''), (''format'', JStr ''int64''), (''description'', JStr ''Sample rate in hertz.''), (''x-go-type'', JStr ''int'')]),
        (''bit_depth'', JObj [(''type'', JStr ''integer''), (''format'', JStr ''int64''), (''description'', JStr ''Number of bits per sample.''), (''x-go-type'', JStr ''int'')]),
        (''channels'', JObj [(''type'', JStr ''integer''), (''format'', JStr ''int64''), (''description'', JStr ''Number of audio channels.''), (''x-go-type'', JStr ''int'')])]),
    (''required'', JArr [JStr ''id'', JStr ''name'', JStr ''sample_rate'', JStr ''bit_depth'', JStr ''channels'']),
    (''description'', JStr ''A negotiated audio codec.'')]"

definition AudioInfoEvent_schema :: schema where
  "AudioInfoEvent_schema = [
    (''type'', JStr ''object''),
    (''properties'', JObj [
        (''read'', JObj [(''$ref'', JStr ''#/schemas/AudioInfoItem''), (''description'', JStr ''Audio read from the telephony stream.'')]),
        (''write'', JObj [(''$ref'', JStr ''#/schemas/AudioInfoItem''), (''description'', JStr ''Audio written to the telephony stream.'')])]),
    (''required'', JArr [JStr ''read'', JStr ''write'']),
    (''description'', JStr ''Data emitted by `audio.info` with read and write throughput counters.'')]"

definition AudioInfoItem_schema :: schema where
  "AudioInfoItem_schema = [
    (''type'', JStr ''object''),
    (''properties'', JObj [
        (''bytes'', JObj [(''type'', JStr ''integer''), (''format'', JStr ''int64''), (''description'', JStr ''Bytes transferred during the last reporting interval.'')]),
        (''bytes_per_second'', JObj [(''type'', JStr ''number''), (''format'', JStr ''double''), (''description'', JStr ''Transfer rate during the last reporting interval.'')]),
        (''bytes_total'', JObj [(''type'', JStr ''integer''), (''format'', JStr ''int64''), (''description'', JStr ''Total bytes transferred since session start.'')])]),
    (''required'', JArr [JStr ''bytes'', JStr ''bytes_per_second'', JStr ''bytes_total'']),
    (''description'', JStr ''Throughput counters for one audio direction.'')]"

definition AudioSpeechStartedEvent_schema :: schema where
  "AudioSpeechStartedEvent_schema = [
    (''type'', JStr ''object''),
    (''properties'', JObj [
        (''origin'', JObj [(''type'', JStr ''string''), (''description'', JStr ''Side where speech began: `sender` or `receiver`.'')])]),
    (''required'', JArr [JStr ''origin'']),
    (''description'', JStr ''Data emitted by `audio.speech.started` for barge-in signaling.'')]"

definition CallHangupEvent_schema :: schema where
  "CallHangupEvent_schema = [
    (''type'', JStr ''object''),
    (''properties'', JObj [
        (''reason'', JObj [(''type'', JArr [JStr ''string'', JStr ''null'']), (''description'', JStr ''Optional hangup reason.'')])]),
    (''description'', JStr ''Data emitted by `call.hangup` when the voice peer reports call termination.'')]"

definition CallHangupRequest_schema :: schema where
  "CallHangupRequest_schema = [
    (''type'', JStr ''object''),
    (''properties'', JObj [
        (''reason'', JObj [(''type'', JStr ''string''), (''description'', JStr ''Reason the call should be hung up.''), (''minLength'', JNum (Fin 1))])]),
    (''required'', JArr [JStr ''reason'']),
    (''description'', JStr ''Parameters for terminal operation `call.hangup`.'')]"

definition CallInfo_schema :: schema where
  "CallInfo_schema = [
    (''type'', JStr ''object''),
    (''properties'', JObj [
        (''id'', JObj [(''type'', JStr ''string''), (''description'', JStr ''Call identifier.'')]),
        (''session_id'', JObj [(''type'', JStr ''string''), (''description'', JStr ''Session identifier owned by the voice peer.'')]),
        (''from'', JObj [(''type'', JStr ''string''), (''description'', JStr ''Caller address or number.'')]),
        (''to'', JObj [(''type'', JStr ''string''), (''description'', JStr ''Callee address or number.'')])]),
    (''required'', JArr [JStr ''id'', JStr ''session_id'', JStr ''from'', JStr ''to'']),
    (''description'', JStr ''Telephony call metadata supplied when a session starts.'')]"

definition DtmfEvent_schema :: schema where
  "DtmfEvent_schema = [
    (''type'', JStr ''object''),
    (''properties'', JObj [
        (''seq'', JObj [(''type'', JStr ''integer''), (''format'', JStr ''int64''), (''description'', JStr ''Monotonic event sequence number within the session.''), (''minimum'', JNum (Fin 0)), (''x-go-type'', JStr ''int'')]),
        (''pressed_at'', JObj [(''type'', JStr ''integer''), (''format'', JStr ''int64''), (''description'', JStr ''Epoch timestamp in milliseconds when the key was pressed.''), (''minimum'', JNum (Fin 0))]),
        (''released_at'', JObj [(''type'', JStr ''integer''), (''format'', JStr ''int64''), (''description'', JStr ''Epoch timestamp in milliseconds when the key was released.''), (''minimum'', JNum (Fin 0))]),
        (''digit'', JObj [(''type'', JStr ''string''), (''description'', JStr ''DTMF digit that was pressed.''), (''minLength'', JNum (Fin 1))])]),
    (''required'', JArr [JStr ''seq'', JStr ''pressed_at'', JStr ''released_at'', JStr ''digit'']),
    (''description'', JStr ''Data emitted by `dtmf` when the caller releases a key.''),
    (''x-rtvbp-field-order'', JArr [JObj [(''lower'', JStr ''pressed_at''), (''upper'', JStr ''released_at'')]])]"

definition EmptyResponse_schema :: schema where
  "EmptyResponse_schema = [
    (''type'', JStr ''object''),
    (''description'', JStr ''Empty object returned by operations without result fields.'')]"

definition InputTranscriptEvent_schema :: schema where
  "InputTranscriptEvent_schema = [
    (''type'', JStr ''object''),
    (''properties'', JObj [
        (''delta'', JObj [(''type'', JStr ''string''), (''description'', JStr ''Complete caller transcript; the legacy wire field is named `delta`.'')])]),
    (''required'', JArr [JStr ''delta'']),
    (''description'', JStr ''Data emitted by `input.transcript` for one finalized caller utterance.'')]"

definition OutputTranscriptDeltaEvent_schema :: schema where
  "OutputTranscriptDeltaEvent_schema = [
    (''type'', JStr ''object''),
    (''properties'', JObj [
        (''delta'', JObj [(''type'', JStr ''string''), (''description'', JStr ''Incremental transcript text.'')])]),
    (''required'', JArr [JStr ''delta'']),
    (''description'', JStr ''Data emitted by `output.transcript.delta` for incremental agent speech text.'')]"

definition OutputTranscriptDoneEvent_schema :: schema where
  "OutputTranscriptDoneEvent_schema = [
    (''type'', JStr ''object''),
    (''properties'', JObj [
        (''text'', JObj [(''type'', JArr [JStr ''string'', JStr ''null'']), (''description'', JStr ''Optional complete text; absence means retain the accumulated deltas.''), (''x-go-type'', JStr ''*string'')])]),
    (''description'', JStr ''Data emitted by `output.transcript.done` when an agent utterance finishes.'')]"

definition PingRequest_schema :: schema where
  "PingRequest_schema = [
    (''type'', JStr ''object''),
    (''properties'', JObj [
        (''t0'', JObj [(''type'', JStr ''integer''), (''format'', JStr ''int64''), (''description'', JStr ''Sender timestamp in epoch milliseconds.''), (''x-rtvbp-nonzero'', JBool True)]),
        (''rtt'', JObj [(''type'', JArr [JStr ''integer'', JStr ''null'']), (''format'', JStr ''int64''), (''description'', JStr ''Optional round-trip time measured by a previous ping.'')]),
        (''data'', JObj [(''description'', JStr ''Optional arbitrary data echoed by the peer.'')])]),
    (''required'', JArr [JStr ''t0'']),
    (''description'', JStr ''Parameters for ordinary catalog operation `ping`.'')]"

definition PingResponse_schema :: schema where
  "PingResponse_schema = [
    (''type'', JStr ''object''),
    (''properties'', JObj [
        (''t0'', JObj [(''type'', JStr ''integer''), (''format'', JStr ''int64''), (''description'', JStr ''Echo of the request sender timestamp.''), (''x-rtvbp-nonzero'', JBool True)]),
        (''t1'', JObj [(''type'', JStr ''integer''), (''format'', JStr ''int64''), (''description'', JStr ''Transport receive timestamp in epoch milliseconds.''), (''x-rtvbp-nonzero'', JBool True)]),
        (''t2'', JObj [(''type'', JStr ''integer''), (''format'', JStr ''int64''), (''description'', JStr ''Application handling timestamp in epoch milliseconds.''), (''x-rtvbp-nonzero'', JBool True)]),
        (''owd'', JObj [(''type'', JStr ''integer''), (''format'', JStr ''int64''), (''description'', JStr ''Estimated one-way delay in milliseconds.'')]),
        (''data'', JObj [(''description'', JStr ''Optional arbitrary data echoed from the request.'')])]),
    (''required'', JArr [JStr ''t0'', JStr ''t1'', JStr ''t2'', JStr ''owd'']),
    (''description'', JStr ''Result of ordinary catalog operation `ping`.'')]"

definition RecordingStartRequest_schema :: schema where
  "RecordingStartRequest_schema = [
    (''type'', JStr ''object''),
    (''properties'', JObj [
        (''tags'', JObj [(''type'', JArr [JStr ''array'', JStr ''null'']), (''items'', JObj [(''type'', JStr ''string'')]), (''description'', JStr ''Optional recording tags.'')])]),
    (''description'', JStr ''Parameters for `recording.start`.'')]"

definition RecordingStartResponse_schema :: schema where
  "RecordingStartResponse_schema = [
    (''type'', JStr ''object''),
    (''properties'', JObj [
        (''id'', JObj [(''type'', JStr ''string''), (''description'', JStr ''New recording identifier.''), (''minLength'', JNum (Fin 1))])]),
    (''required'', JArr [JStr ''id'']),
    (''description'', JStr ''Result of `recording.start`.'')]"

definition RecordingStopRequest_schema :: schema where
  "RecordingStopRequest_schema = [
    (''type'', JStr ''object''),
    (''properties'', JObj [
        (''id'', JObj [(''type'', JStr ''string''), (''description'', JStr ''Recording identifier to stop.''), (''minLength'', JNum (Fin 1))])]),
    (''required'', JArr [JStr ''id'']),
    (''description'', JStr ''Parameters for `recording.stop`.'')]"

definition SessionGetRequest_schema :: schema where
  "SessionGetRequest_schema = [
    (''type'', JStr ''object''),
    (''properties'', JObj [
        (''keys'', JObj [(''type'', JStr ''array''), (''items'', JObj [(''type'', JStr ''string'')]), (''description'', JStr ''Keys to fetch; an empty list requests all variables.'')])]),
    (''required'', JArr [JStr ''keys'']),
    (''description'', JStr ''Parameters for `session.get`.'')]"

definition SessionGetResponse_schema :: schema where
  "SessionGetResponse_schema = [
    (''type'', JStr ''object''),
    (''additionalProperties'', JBool True),
    (''description'', JStr ''Bare open-map result returned by `session.get`.'')]"

definition SessionInitializeRequest_schema :: schema where
  "SessionInitializeRequest_schema = [
    (''type'', JStr ''object''),
    (''properties'', JObj [
        (''application'', JObj [(''$ref'', JStr ''#/schemas/AppInfo''), (''description'', JStr ''Application that owns the call flow.'')]),
        (''call'', JObj [(''$ref'', JStr ''#/schemas/CallInfo''), (''description'', JStr ''Call being bridged into the session.'')]),
        (''audio_codec_offerings'', JObj [(''type'', JStr ''array''), (''items'', JObj [(''$ref'', JStr ''#/schemas/AudioCodec'')]), (''description'', JStr ''Audio codecs offered by the voice peer.'')]),
        (''metadata'', JObj [(''type'', JArr [JStr ''object'', JStr ''null'']), (''additionalProperties'', JBool True), (''x-rtvbp-presence'', JStr ''nullable''), (''description'', JStr ''Free-form session metadata; the field is present and may be `null`.'')])]),
    (''required'', JArr [JStr ''application'', JStr ''call'', JStr ''audio_codec_offerings'', JStr ''metadata'']),
    (''description'', JStr ''Parameters for `session.initialize`.'')]"

definition SessionInitializeResponse_schema :: schema where
  "SessionInitializeResponse_schema = [
    (''type'', JStr ''object''),
    (''properties'', JObj [
        (''audio_codec'', JObj [(''anyOf'', JArr [JObj [(''$ref'', JStr ''#/schemas/AudioCodec'')], JObj [(''type'', JStr ''null'')]]), (''x-rtvbp-presence'', JStr ''nullable''), (''description'', JStr ''Selected codec; the field is present and may be `null`.'')])]),
    (''required'', JArr [JStr ''audio_codec'']),
    (''description'', JStr ''Result of `session.initialize`.'')]"

definition SessionSetRequest_schema :: schema where
  "SessionSetRequest_schema = [
    (''type'', JStr ''object''),
    (''properties'', JObj [
        (''data'', JObj [(''type'', JStr ''object''), (''additionalProperties'', JBool True), (''description'', JStr ''Session variables to set.'')])]),
    (''required'', JArr [JStr ''data'']),
    (''description'', JStr ''Parameters for `session.set`.'')]"

definition SessionTerminateRequest_schema :: schema where
  "SessionTerminateRequest_schema = [
    (''type'', JStr ''object''),
    (''properties'', JObj [
        (''reason'', JObj [(''type'', JStr ''string''), (''description'', JStr ''Reason the session is ending.''), (''minLength'', JNum (Fin 1))])]),
    (''required'', JArr [JStr ''reason'']),
    (''description'', JStr ''Parameters for terminal operation `session.terminate`.'')]"

definition SessionUpdatedEvent_schema :: schema where
  "SessionUpdatedEvent_schema = [
    (''type'', JStr ''object''),
    (''properties'', JObj [
        (''audio_codec'', JObj [(''anyOf'', JArr [JObj [(''$ref'', JStr ''#/schemas/AudioCodec'')], JObj [(''type'', JStr ''null'')]]), (''x-rtvbp-presence'', JStr ''nullable''), (''description'', JStr ''Current codec; the field is present and may be `null`.'')])]),
    (''required'', JArr [JStr ''audio_codec'']),
    (''description'', JStr ''Data emitted by `session.updated` when negotiated state changes.'')]"

definition BABELFORCE_V1_SCHEMAS :: registry where
  "BABELFORCE_V1_SCHEMAS = [
    (''AgentToolCallEvent'', AgentToolCallEvent_schema),
    (''AppInfo'', AppInfo_schema),
    (''ApplicationMoveRequest'', ApplicationMoveRequest_schema),
    (''ApplicationMoveResponse'', ApplicationMoveResponse_schema),
    (''AudioBufferClearRequest'', AudioBufferClearRequest_schema),
    (''AudioBufferClearResponse'', AudioBufferClearResponse_schema),
    (''AudioCodec'', AudioCodec_schema),
    (''AudioInfoEvent'', AudioInfoEvent_schema),
    (''AudioInfoItem'', AudioInfoItem_schema),
    (''AudioSpeechStartedEvent'', AudioSpeechStartedEvent_schema),
    (''CallHangupEvent'', CallHangupEvent_schema),
    (''CallHangupRequest'', CallHangupRequest_schema),
    (''CallInfo'', CallInfo_schema),
    (''DtmfEvent'', DtmfEvent_schema),
    (''EmptyResponse'', EmptyResponse_schema),
    (''InputTranscriptEvent'', InputTranscriptEvent_schema),
    (''OutputTranscriptDeltaEvent'', OutputTranscriptDeltaEvent_schema),
    (''OutputTranscriptDoneEvent'', OutputTranscriptDoneEvent_schema),
    (''PingRequest'', PingRequest_schema),
    (''PingResponse'', PingResponse_schema),
    (''RecordingStartRequest'', RecordingStartRequest_schema),
    (''RecordingStartResponse'', RecordingStartResponse_schema),
    (''RecordingStopRequest'', RecordingStopRequest_schema),
    (''SessionGetRequest'', SessionGetRequest_schema),
    (''SessionGetResponse'', SessionGetResponse_schema),
    (''SessionInitializeRequest'', SessionInitializeRequest_schema),
    (''SessionInitializeResponse'', SessionInitializeResponse_schema),
    (''SessionSetRequest'', SessionSetRequest_schema),
    (''SessionTerminateRequest'', SessionTerminateRequest_schema),
    (''SessionUpdatedEvent'', SessionUpdatedEvent_schema)]"

section \<open>Names\<close>

definition BABELFORCE_V1_CATALOG_ID :: string where "BABELFORCE_V1_CATALOG_ID = ''babelforce.v1''"
definition METHOD_APPLICATION_MOVE :: string where "METHOD_APPLICATION_MOVE = ''application.move''"
definition METHOD_AUDIO_BUFFER_CLEAR :: string where "METHOD_AUDIO_BUFFER_CLEAR = ''audio.buffer.clear''"
definition METHOD_CALL_HANGUP :: string where "METHOD_CALL_HANGUP = ''call.hangup''"
definition METHOD_PING :: string where "METHOD_PING = ''ping''"
definition METHOD_RECORDING_START :: string where "METHOD_RECORDING_START = ''recording.start''"
definition METHOD_RECORDING_STOP :: string where "METHOD_RECORDING_STOP = ''recording.stop''"
definition METHOD_SESSION_GET :: string where "METHOD_SESSION_GET = ''session.get''"
definition METHOD_SESSION_INITIALIZE :: string where "METHOD_SESSION_INITIALIZE = ''session.initialize''"
definition METHOD_SESSION_SET :: string where "METHOD_SESSION_SET = ''session.set''"
definition METHOD_SESSION_TERMINATE :: string where "METHOD_SESSION_TERMINATE = ''session.terminate''"
definition EVENT_AGENT_TOOL_CALL :: string where "EVENT_AGENT_TOOL_CALL = ''agent.tool.call''"
definition EVENT_AUDIO_INFO :: string where "EVENT_AUDIO_INFO = ''audio.info''"
definition EVENT_AUDIO_SPEECH_STARTED :: string where "EVENT_AUDIO_SPEECH_STARTED = ''audio.speech.started''"
definition EVENT_CALL_HANGUP :: string where "EVENT_CALL_HANGUP = ''call.hangup''"
definition EVENT_DTMF :: string where "EVENT_DTMF = ''dtmf''"
definition EVENT_INPUT_TRANSCRIPT :: string where "EVENT_INPUT_TRANSCRIPT = ''input.transcript''"
definition EVENT_OUTPUT_TRANSCRIPT_DELTA :: string where "EVENT_OUTPUT_TRANSCRIPT_DELTA = ''output.transcript.delta''"
definition EVENT_OUTPUT_TRANSCRIPT_DONE :: string where "EVENT_OUTPUT_TRANSCRIPT_DONE = ''output.transcript.done''"
definition EVENT_SESSION_UPDATED :: string where "EVENT_SESSION_UPDATED = ''session.updated''"

section \<open>The functions of each type\<close>

definition validateAgentToolCallEvent :: "wire_value \<Rightarrow> validation_issue list option" where
  "validateAgentToolCallEvent = validate_as ''AgentToolCallEvent'' BABELFORCE_V1_SCHEMAS"

definition assertAgentToolCallEvent :: "wire_value \<Rightarrow> unit result option" where
  "assertAgentToolCallEvent = assert_as ''AgentToolCallEvent'' BABELFORCE_V1_SCHEMAS"

definition serializeAgentToolCallEvent :: "wire_value \<Rightarrow> wire_value result option" where
  "serializeAgentToolCallEvent = serialize_as ''AgentToolCallEvent'' BABELFORCE_V1_SCHEMAS"

definition encodeAgentToolCallEvent :: "wire_value \<Rightarrow> string result option" where
  "encodeAgentToolCallEvent = encode_as serializeAgentToolCallEvent"

definition decodeAgentToolCallEvent :: "json_parse \<Rightarrow> (string \<Rightarrow> bool) \<Rightarrow> string \<Rightarrow> json result option" where
  "decodeAgentToolCallEvent = decode_as assertAgentToolCallEvent"

definition validateAppInfo :: "wire_value \<Rightarrow> validation_issue list option" where
  "validateAppInfo = validate_as ''AppInfo'' BABELFORCE_V1_SCHEMAS"

definition assertAppInfo :: "wire_value \<Rightarrow> unit result option" where
  "assertAppInfo = assert_as ''AppInfo'' BABELFORCE_V1_SCHEMAS"

definition serializeAppInfo :: "wire_value \<Rightarrow> wire_value result option" where
  "serializeAppInfo = serialize_as ''AppInfo'' BABELFORCE_V1_SCHEMAS"

definition encodeAppInfo :: "wire_value \<Rightarrow> string result option" where
  "encodeAppInfo = encode_as serializeAppInfo"

definition decodeAppInfo :: "json_parse \<Rightarrow> (string \<Rightarrow> bool) \<Rightarrow> string \<Rightarrow> json result option" where
  "decodeAppInfo = decode_as assertAppInfo"

definition validateApplicationMoveRequest :: "wire_value \<Rightarrow> validation_issue list option" where
  "validateApplicationMoveRequest = validate_as ''ApplicationMoveRequest'' BABELFORCE_V1_SCHEMAS"

definition assertApplicationMoveRequest :: "wire_value \<Rightarrow> unit result option" where
  "assertApplicationMoveRequest = assert_as ''ApplicationMoveRequest'' BABELFORCE_V1_SCHEMAS"

definition serializeApplicationMoveRequest :: "wire_value \<Rightarrow> wire_value result option" where
  "serializeApplicationMoveRequest = serialize_as ''ApplicationMoveRequest'' BABELFORCE_V1_SCHEMAS"

definition encodeApplicationMoveRequest :: "wire_value \<Rightarrow> string result option" where
  "encodeApplicationMoveRequest = encode_as serializeApplicationMoveRequest"

definition decodeApplicationMoveRequest :: "json_parse \<Rightarrow> (string \<Rightarrow> bool) \<Rightarrow> string \<Rightarrow> json result option" where
  "decodeApplicationMoveRequest = decode_as assertApplicationMoveRequest"

definition validateApplicationMoveResponse :: "wire_value \<Rightarrow> validation_issue list option" where
  "validateApplicationMoveResponse = validate_as ''ApplicationMoveResponse'' BABELFORCE_V1_SCHEMAS"

definition assertApplicationMoveResponse :: "wire_value \<Rightarrow> unit result option" where
  "assertApplicationMoveResponse = assert_as ''ApplicationMoveResponse'' BABELFORCE_V1_SCHEMAS"

definition serializeApplicationMoveResponse :: "wire_value \<Rightarrow> wire_value result option" where
  "serializeApplicationMoveResponse = serialize_as ''ApplicationMoveResponse'' BABELFORCE_V1_SCHEMAS"

definition encodeApplicationMoveResponse :: "wire_value \<Rightarrow> string result option" where
  "encodeApplicationMoveResponse = encode_as serializeApplicationMoveResponse"

definition decodeApplicationMoveResponse :: "json_parse \<Rightarrow> (string \<Rightarrow> bool) \<Rightarrow> string \<Rightarrow> json result option" where
  "decodeApplicationMoveResponse = decode_as assertApplicationMoveResponse"

definition validateAudioBufferClearRequest :: "wire_value \<Rightarrow> validation_issue list option" where
  "validateAudioBufferClearRequest = validate_as ''AudioBufferClearRequest'' BABELFORCE_V1_SCHEMAS"

definition assertAudioBufferClearRequest :: "wire_value \<Rightarrow> unit result option" where
  "assertAudioBufferClearRequest = assert_as ''AudioBufferClearRequest'' BABELFORCE_V1_SCHEMAS"

definition serializeAudioBufferClearRequest :: "wire_value \<Rightarrow> wire_value result option" where
  "serializeAudioBufferClearRequest = serialize_as ''AudioBufferClearRequest'' BABELFORCE_V1_SCHEMAS"

definition encodeAudioBufferClearRequest :: "wire_value \<Rightarrow> string result option" where
  "encodeAudioBufferClearRequest = encode_as serializeAudioBufferClearRequest"

definition decodeAudioBufferClearRequest :: "json_parse \<Rightarrow> (string \<Rightarrow> bool) \<Rightarrow> string \<Rightarrow> json result option" where
  "decodeAudioBufferClearRequest = decode_as assertAudioBufferClearRequest"

definition validateAudioBufferClearResponse :: "wire_value \<Rightarrow> validation_issue list option" where
  "validateAudioBufferClearResponse = validate_as ''AudioBufferClearResponse'' BABELFORCE_V1_SCHEMAS"

definition assertAudioBufferClearResponse :: "wire_value \<Rightarrow> unit result option" where
  "assertAudioBufferClearResponse = assert_as ''AudioBufferClearResponse'' BABELFORCE_V1_SCHEMAS"

definition serializeAudioBufferClearResponse :: "wire_value \<Rightarrow> wire_value result option" where
  "serializeAudioBufferClearResponse = serialize_as ''AudioBufferClearResponse'' BABELFORCE_V1_SCHEMAS"

definition encodeAudioBufferClearResponse :: "wire_value \<Rightarrow> string result option" where
  "encodeAudioBufferClearResponse = encode_as serializeAudioBufferClearResponse"

definition decodeAudioBufferClearResponse :: "json_parse \<Rightarrow> (string \<Rightarrow> bool) \<Rightarrow> string \<Rightarrow> json result option" where
  "decodeAudioBufferClearResponse = decode_as assertAudioBufferClearResponse"

definition validateAudioCodec :: "wire_value \<Rightarrow> validation_issue list option" where
  "validateAudioCodec = validate_as ''AudioCodec'' BABELFORCE_V1_SCHEMAS"

definition assertAudioCodec :: "wire_value \<Rightarrow> unit result option" where
  "assertAudioCodec = assert_as ''AudioCodec'' BABELFORCE_V1_SCHEMAS"

definition serializeAudioCodec :: "wire_value \<Rightarrow> wire_value result option" where
  "serializeAudioCodec = serialize_as ''AudioCodec'' BABELFORCE_V1_SCHEMAS"

definition encodeAudioCodec :: "wire_value \<Rightarrow> string result option" where
  "encodeAudioCodec = encode_as serializeAudioCodec"

definition decodeAudioCodec :: "json_parse \<Rightarrow> (string \<Rightarrow> bool) \<Rightarrow> string \<Rightarrow> json result option" where
  "decodeAudioCodec = decode_as assertAudioCodec"

definition validateAudioInfoEvent :: "wire_value \<Rightarrow> validation_issue list option" where
  "validateAudioInfoEvent = validate_as ''AudioInfoEvent'' BABELFORCE_V1_SCHEMAS"

definition assertAudioInfoEvent :: "wire_value \<Rightarrow> unit result option" where
  "assertAudioInfoEvent = assert_as ''AudioInfoEvent'' BABELFORCE_V1_SCHEMAS"

definition serializeAudioInfoEvent :: "wire_value \<Rightarrow> wire_value result option" where
  "serializeAudioInfoEvent = serialize_as ''AudioInfoEvent'' BABELFORCE_V1_SCHEMAS"

definition encodeAudioInfoEvent :: "wire_value \<Rightarrow> string result option" where
  "encodeAudioInfoEvent = encode_as serializeAudioInfoEvent"

definition decodeAudioInfoEvent :: "json_parse \<Rightarrow> (string \<Rightarrow> bool) \<Rightarrow> string \<Rightarrow> json result option" where
  "decodeAudioInfoEvent = decode_as assertAudioInfoEvent"

definition validateAudioInfoItem :: "wire_value \<Rightarrow> validation_issue list option" where
  "validateAudioInfoItem = validate_as ''AudioInfoItem'' BABELFORCE_V1_SCHEMAS"

definition assertAudioInfoItem :: "wire_value \<Rightarrow> unit result option" where
  "assertAudioInfoItem = assert_as ''AudioInfoItem'' BABELFORCE_V1_SCHEMAS"

definition serializeAudioInfoItem :: "wire_value \<Rightarrow> wire_value result option" where
  "serializeAudioInfoItem = serialize_as ''AudioInfoItem'' BABELFORCE_V1_SCHEMAS"

definition encodeAudioInfoItem :: "wire_value \<Rightarrow> string result option" where
  "encodeAudioInfoItem = encode_as serializeAudioInfoItem"

definition decodeAudioInfoItem :: "json_parse \<Rightarrow> (string \<Rightarrow> bool) \<Rightarrow> string \<Rightarrow> json result option" where
  "decodeAudioInfoItem = decode_as assertAudioInfoItem"

definition validateAudioSpeechStartedEvent :: "wire_value \<Rightarrow> validation_issue list option" where
  "validateAudioSpeechStartedEvent = validate_as ''AudioSpeechStartedEvent'' BABELFORCE_V1_SCHEMAS"

definition assertAudioSpeechStartedEvent :: "wire_value \<Rightarrow> unit result option" where
  "assertAudioSpeechStartedEvent = assert_as ''AudioSpeechStartedEvent'' BABELFORCE_V1_SCHEMAS"

definition serializeAudioSpeechStartedEvent :: "wire_value \<Rightarrow> wire_value result option" where
  "serializeAudioSpeechStartedEvent = serialize_as ''AudioSpeechStartedEvent'' BABELFORCE_V1_SCHEMAS"

definition encodeAudioSpeechStartedEvent :: "wire_value \<Rightarrow> string result option" where
  "encodeAudioSpeechStartedEvent = encode_as serializeAudioSpeechStartedEvent"

definition decodeAudioSpeechStartedEvent :: "json_parse \<Rightarrow> (string \<Rightarrow> bool) \<Rightarrow> string \<Rightarrow> json result option" where
  "decodeAudioSpeechStartedEvent = decode_as assertAudioSpeechStartedEvent"

definition validateCallHangupEvent :: "wire_value \<Rightarrow> validation_issue list option" where
  "validateCallHangupEvent = validate_as ''CallHangupEvent'' BABELFORCE_V1_SCHEMAS"

definition assertCallHangupEvent :: "wire_value \<Rightarrow> unit result option" where
  "assertCallHangupEvent = assert_as ''CallHangupEvent'' BABELFORCE_V1_SCHEMAS"

definition serializeCallHangupEvent :: "wire_value \<Rightarrow> wire_value result option" where
  "serializeCallHangupEvent = serialize_as ''CallHangupEvent'' BABELFORCE_V1_SCHEMAS"

definition encodeCallHangupEvent :: "wire_value \<Rightarrow> string result option" where
  "encodeCallHangupEvent = encode_as serializeCallHangupEvent"

definition decodeCallHangupEvent :: "json_parse \<Rightarrow> (string \<Rightarrow> bool) \<Rightarrow> string \<Rightarrow> json result option" where
  "decodeCallHangupEvent = decode_as assertCallHangupEvent"

definition validateCallHangupRequest :: "wire_value \<Rightarrow> validation_issue list option" where
  "validateCallHangupRequest = validate_as ''CallHangupRequest'' BABELFORCE_V1_SCHEMAS"

definition assertCallHangupRequest :: "wire_value \<Rightarrow> unit result option" where
  "assertCallHangupRequest = assert_as ''CallHangupRequest'' BABELFORCE_V1_SCHEMAS"

definition serializeCallHangupRequest :: "wire_value \<Rightarrow> wire_value result option" where
  "serializeCallHangupRequest = serialize_as ''CallHangupRequest'' BABELFORCE_V1_SCHEMAS"

definition encodeCallHangupRequest :: "wire_value \<Rightarrow> string result option" where
  "encodeCallHangupRequest = encode_as serializeCallHangupRequest"

definition decodeCallHangupRequest :: "json_parse \<Rightarrow> (string \<Rightarrow> bool) \<Rightarrow> string \<Rightarrow> json result option" where
  "decodeCallHangupRequest = decode_as assertCallHangupRequest"

definition validateCallInfo :: "wire_value \<Rightarrow> validation_issue list option" where
  "validateCallInfo = validate_as ''CallInfo'' BABELFORCE_V1_SCHEMAS"

definition assertCallInfo :: "wire_value \<Rightarrow> unit result option" where
  "assertCallInfo = assert_as ''CallInfo'' BABELFORCE_V1_SCHEMAS"

definition serializeCallInfo :: "wire_value \<Rightarrow> wire_value result option" where
  "serializeCallInfo = serialize_as ''CallInfo'' BABELFORCE_V1_SCHEMAS"

definition encodeCallInfo :: "wire_value \<Rightarrow> string result option" where
  "encodeCallInfo = encode_as serializeCallInfo"

definition decodeCallInfo :: "json_parse \<Rightarrow> (string \<Rightarrow> bool) \<Rightarrow> string \<Rightarrow> json result option" where
  "decodeCallInfo = decode_as assertCallInfo"

definition validateDtmfEvent :: "wire_value \<Rightarrow> validation_issue list option" where
  "validateDtmfEvent = validate_as ''DtmfEvent'' BABELFORCE_V1_SCHEMAS"

definition assertDtmfEvent :: "wire_value \<Rightarrow> unit result option" where
  "assertDtmfEvent = assert_as ''DtmfEvent'' BABELFORCE_V1_SCHEMAS"

definition serializeDtmfEvent :: "wire_value \<Rightarrow> wire_value result option" where
  "serializeDtmfEvent = serialize_as ''DtmfEvent'' BABELFORCE_V1_SCHEMAS"

definition encodeDtmfEvent :: "wire_value \<Rightarrow> string result option" where
  "encodeDtmfEvent = encode_as serializeDtmfEvent"

definition decodeDtmfEvent :: "json_parse \<Rightarrow> (string \<Rightarrow> bool) \<Rightarrow> string \<Rightarrow> json result option" where
  "decodeDtmfEvent = decode_as assertDtmfEvent"

definition validateEmptyResponse :: "wire_value \<Rightarrow> validation_issue list option" where
  "validateEmptyResponse = validate_as ''EmptyResponse'' BABELFORCE_V1_SCHEMAS"

definition assertEmptyResponse :: "wire_value \<Rightarrow> unit result option" where
  "assertEmptyResponse = assert_as ''EmptyResponse'' BABELFORCE_V1_SCHEMAS"

definition serializeEmptyResponse :: "wire_value \<Rightarrow> wire_value result option" where
  "serializeEmptyResponse = serialize_as ''EmptyResponse'' BABELFORCE_V1_SCHEMAS"

definition encodeEmptyResponse :: "wire_value \<Rightarrow> string result option" where
  "encodeEmptyResponse = encode_as serializeEmptyResponse"

definition decodeEmptyResponse :: "json_parse \<Rightarrow> (string \<Rightarrow> bool) \<Rightarrow> string \<Rightarrow> json result option" where
  "decodeEmptyResponse = decode_as assertEmptyResponse"

definition validateInputTranscriptEvent :: "wire_value \<Rightarrow> validation_issue list option" where
  "validateInputTranscriptEvent = validate_as ''InputTranscriptEvent'' BABELFORCE_V1_SCHEMAS"

definition assertInputTranscriptEvent :: "wire_value \<Rightarrow> unit result option" where
  "assertInputTranscriptEvent = assert_as ''InputTranscriptEvent'' BABELFORCE_V1_SCHEMAS"

definition serializeInputTranscriptEvent :: "wire_value \<Rightarrow> wire_value result option" where
  "serializeInputTranscriptEvent = serialize_as ''InputTranscriptEvent'' BABELFORCE_V1_SCHEMAS"

definition encodeInputTranscriptEvent :: "wire_value \<Rightarrow> string result option" where
  "encodeInputTranscriptEvent = encode_as serializeInputTranscriptEvent"

definition decodeInputTranscriptEvent :: "json_parse \<Rightarrow> (string \<Rightarrow> bool) \<Rightarrow> string \<Rightarrow> json result option" where
  "decodeInputTranscriptEvent = decode_as assertInputTranscriptEvent"

definition validateOutputTranscriptDeltaEvent :: "wire_value \<Rightarrow> validation_issue list option" where
  "validateOutputTranscriptDeltaEvent = validate_as ''OutputTranscriptDeltaEvent'' BABELFORCE_V1_SCHEMAS"

definition assertOutputTranscriptDeltaEvent :: "wire_value \<Rightarrow> unit result option" where
  "assertOutputTranscriptDeltaEvent = assert_as ''OutputTranscriptDeltaEvent'' BABELFORCE_V1_SCHEMAS"

definition serializeOutputTranscriptDeltaEvent :: "wire_value \<Rightarrow> wire_value result option" where
  "serializeOutputTranscriptDeltaEvent = serialize_as ''OutputTranscriptDeltaEvent'' BABELFORCE_V1_SCHEMAS"

definition encodeOutputTranscriptDeltaEvent :: "wire_value \<Rightarrow> string result option" where
  "encodeOutputTranscriptDeltaEvent = encode_as serializeOutputTranscriptDeltaEvent"

definition decodeOutputTranscriptDeltaEvent :: "json_parse \<Rightarrow> (string \<Rightarrow> bool) \<Rightarrow> string \<Rightarrow> json result option" where
  "decodeOutputTranscriptDeltaEvent = decode_as assertOutputTranscriptDeltaEvent"

definition validateOutputTranscriptDoneEvent :: "wire_value \<Rightarrow> validation_issue list option" where
  "validateOutputTranscriptDoneEvent = validate_as ''OutputTranscriptDoneEvent'' BABELFORCE_V1_SCHEMAS"

definition assertOutputTranscriptDoneEvent :: "wire_value \<Rightarrow> unit result option" where
  "assertOutputTranscriptDoneEvent = assert_as ''OutputTranscriptDoneEvent'' BABELFORCE_V1_SCHEMAS"

definition serializeOutputTranscriptDoneEvent :: "wire_value \<Rightarrow> wire_value result option" where
  "serializeOutputTranscriptDoneEvent = serialize_as ''OutputTranscriptDoneEvent'' BABELFORCE_V1_SCHEMAS"

definition encodeOutputTranscriptDoneEvent :: "wire_value \<Rightarrow> string result option" where
  "encodeOutputTranscriptDoneEvent = encode_as serializeOutputTranscriptDoneEvent"

definition decodeOutputTranscriptDoneEvent :: "json_parse \<Rightarrow> (string \<Rightarrow> bool) \<Rightarrow> string \<Rightarrow> json result option" where
  "decodeOutputTranscriptDoneEvent = decode_as assertOutputTranscriptDoneEvent"

definition validatePingRequest :: "wire_value \<Rightarrow> validation_issue list option" where
  "validatePingRequest = validate_as ''PingRequest'' BABELFORCE_V1_SCHEMAS"

definition assertPingRequest :: "wire_value \<Rightarrow> unit result option" where
  "assertPingRequest = assert_as ''PingRequest'' BABELFORCE_V1_SCHEMAS"

definition serializePingRequest :: "wire_value \<Rightarrow> wire_value result option" where
  "serializePingRequest = serialize_as ''PingRequest'' BABELFORCE_V1_SCHEMAS"

definition encodePingRequest :: "wire_value \<Rightarrow> string result option" where
  "encodePingRequest = encode_as serializePingRequest"

definition decodePingRequest :: "json_parse \<Rightarrow> (string \<Rightarrow> bool) \<Rightarrow> string \<Rightarrow> json result option" where
  "decodePingRequest = decode_as assertPingRequest"

definition validatePingResponse :: "wire_value \<Rightarrow> validation_issue list option" where
  "validatePingResponse = validate_as ''PingResponse'' BABELFORCE_V1_SCHEMAS"

definition assertPingResponse :: "wire_value \<Rightarrow> unit result option" where
  "assertPingResponse = assert_as ''PingResponse'' BABELFORCE_V1_SCHEMAS"

definition serializePingResponse :: "wire_value \<Rightarrow> wire_value result option" where
  "serializePingResponse = serialize_as ''PingResponse'' BABELFORCE_V1_SCHEMAS"

definition encodePingResponse :: "wire_value \<Rightarrow> string result option" where
  "encodePingResponse = encode_as serializePingResponse"

definition decodePingResponse :: "json_parse \<Rightarrow> (string \<Rightarrow> bool) \<Rightarrow> string \<Rightarrow> json result option" where
  "decodePingResponse = decode_as assertPingResponse"

definition validateRecordingStartRequest :: "wire_value \<Rightarrow> validation_issue list option" where
  "validateRecordingStartRequest = validate_as ''RecordingStartRequest'' BABELFORCE_V1_SCHEMAS"

definition assertRecordingStartRequest :: "wire_value \<Rightarrow> unit result option" where
  "assertRecordingStartRequest = assert_as ''RecordingStartRequest'' BABELFORCE_V1_SCHEMAS"

definition serializeRecordingStartRequest :: "wire_value \<Rightarrow> wire_value result option" where
  "serializeRecordingStartRequest = serialize_as ''RecordingStartRequest'' BABELFORCE_V1_SCHEMAS"

definition encodeRecordingStartRequest :: "wire_value \<Rightarrow> string result option" where
  "encodeRecordingStartRequest = encode_as serializeRecordingStartRequest"

definition decodeRecordingStartRequest :: "json_parse \<Rightarrow> (string \<Rightarrow> bool) \<Rightarrow> string \<Rightarrow> json result option" where
  "decodeRecordingStartRequest = decode_as assertRecordingStartRequest"

definition validateRecordingStartResponse :: "wire_value \<Rightarrow> validation_issue list option" where
  "validateRecordingStartResponse = validate_as ''RecordingStartResponse'' BABELFORCE_V1_SCHEMAS"

definition assertRecordingStartResponse :: "wire_value \<Rightarrow> unit result option" where
  "assertRecordingStartResponse = assert_as ''RecordingStartResponse'' BABELFORCE_V1_SCHEMAS"

definition serializeRecordingStartResponse :: "wire_value \<Rightarrow> wire_value result option" where
  "serializeRecordingStartResponse = serialize_as ''RecordingStartResponse'' BABELFORCE_V1_SCHEMAS"

definition encodeRecordingStartResponse :: "wire_value \<Rightarrow> string result option" where
  "encodeRecordingStartResponse = encode_as serializeRecordingStartResponse"

definition decodeRecordingStartResponse :: "json_parse \<Rightarrow> (string \<Rightarrow> bool) \<Rightarrow> string \<Rightarrow> json result option" where
  "decodeRecordingStartResponse = decode_as assertRecordingStartResponse"

definition validateRecordingStopRequest :: "wire_value \<Rightarrow> validation_issue list option" where
  "validateRecordingStopRequest = validate_as ''RecordingStopRequest'' BABELFORCE_V1_SCHEMAS"

definition assertRecordingStopRequest :: "wire_value \<Rightarrow> unit result option" where
  "assertRecordingStopRequest = assert_as ''RecordingStopRequest'' BABELFORCE_V1_SCHEMAS"

definition serializeRecordingStopRequest :: "wire_value \<Rightarrow> wire_value result option" where
  "serializeRecordingStopRequest = serialize_as ''RecordingStopRequest'' BABELFORCE_V1_SCHEMAS"

definition encodeRecordingStopRequest :: "wire_value \<Rightarrow> string result option" where
  "encodeRecordingStopRequest = encode_as serializeRecordingStopRequest"

definition decodeRecordingStopRequest :: "json_parse \<Rightarrow> (string \<Rightarrow> bool) \<Rightarrow> string \<Rightarrow> json result option" where
  "decodeRecordingStopRequest = decode_as assertRecordingStopRequest"

definition validateSessionGetRequest :: "wire_value \<Rightarrow> validation_issue list option" where
  "validateSessionGetRequest = validate_as ''SessionGetRequest'' BABELFORCE_V1_SCHEMAS"

definition assertSessionGetRequest :: "wire_value \<Rightarrow> unit result option" where
  "assertSessionGetRequest = assert_as ''SessionGetRequest'' BABELFORCE_V1_SCHEMAS"

definition serializeSessionGetRequest :: "wire_value \<Rightarrow> wire_value result option" where
  "serializeSessionGetRequest = serialize_as ''SessionGetRequest'' BABELFORCE_V1_SCHEMAS"

definition encodeSessionGetRequest :: "wire_value \<Rightarrow> string result option" where
  "encodeSessionGetRequest = encode_as serializeSessionGetRequest"

definition decodeSessionGetRequest :: "json_parse \<Rightarrow> (string \<Rightarrow> bool) \<Rightarrow> string \<Rightarrow> json result option" where
  "decodeSessionGetRequest = decode_as assertSessionGetRequest"

definition validateSessionGetResponse :: "wire_value \<Rightarrow> validation_issue list option" where
  "validateSessionGetResponse = validate_as ''SessionGetResponse'' BABELFORCE_V1_SCHEMAS"

definition assertSessionGetResponse :: "wire_value \<Rightarrow> unit result option" where
  "assertSessionGetResponse = assert_as ''SessionGetResponse'' BABELFORCE_V1_SCHEMAS"

definition serializeSessionGetResponse :: "wire_value \<Rightarrow> wire_value result option" where
  "serializeSessionGetResponse = serialize_as ''SessionGetResponse'' BABELFORCE_V1_SCHEMAS"

definition encodeSessionGetResponse :: "wire_value \<Rightarrow> string result option" where
  "encodeSessionGetResponse = encode_as serializeSessionGetResponse"

definition decodeSessionGetResponse :: "json_parse \<Rightarrow> (string \<Rightarrow> bool) \<Rightarrow> string \<Rightarrow> json result option" where
  "decodeSessionGetResponse = decode_as assertSessionGetResponse"

definition validateSessionInitializeRequest :: "wire_value \<Rightarrow> validation_issue list option" where
  "validateSessionInitializeRequest = validate_as ''SessionInitializeRequest'' BABELFORCE_V1_SCHEMAS"

definition assertSessionInitializeRequest :: "wire_value \<Rightarrow> unit result option" where
  "assertSessionInitializeRequest = assert_as ''SessionInitializeRequest'' BABELFORCE_V1_SCHEMAS"

definition serializeSessionInitializeRequest :: "wire_value \<Rightarrow> wire_value result option" where
  "serializeSessionInitializeRequest = serialize_as ''SessionInitializeRequest'' BABELFORCE_V1_SCHEMAS"

definition encodeSessionInitializeRequest :: "wire_value \<Rightarrow> string result option" where
  "encodeSessionInitializeRequest = encode_as serializeSessionInitializeRequest"

definition decodeSessionInitializeRequest :: "json_parse \<Rightarrow> (string \<Rightarrow> bool) \<Rightarrow> string \<Rightarrow> json result option" where
  "decodeSessionInitializeRequest = decode_as assertSessionInitializeRequest"

definition validateSessionInitializeResponse :: "wire_value \<Rightarrow> validation_issue list option" where
  "validateSessionInitializeResponse = validate_as ''SessionInitializeResponse'' BABELFORCE_V1_SCHEMAS"

definition assertSessionInitializeResponse :: "wire_value \<Rightarrow> unit result option" where
  "assertSessionInitializeResponse = assert_as ''SessionInitializeResponse'' BABELFORCE_V1_SCHEMAS"

definition serializeSessionInitializeResponse :: "wire_value \<Rightarrow> wire_value result option" where
  "serializeSessionInitializeResponse = serialize_as ''SessionInitializeResponse'' BABELFORCE_V1_SCHEMAS"

definition encodeSessionInitializeResponse :: "wire_value \<Rightarrow> string result option" where
  "encodeSessionInitializeResponse = encode_as serializeSessionInitializeResponse"

definition decodeSessionInitializeResponse :: "json_parse \<Rightarrow> (string \<Rightarrow> bool) \<Rightarrow> string \<Rightarrow> json result option" where
  "decodeSessionInitializeResponse = decode_as assertSessionInitializeResponse"

definition validateSessionSetRequest :: "wire_value \<Rightarrow> validation_issue list option" where
  "validateSessionSetRequest = validate_as ''SessionSetRequest'' BABELFORCE_V1_SCHEMAS"

definition assertSessionSetRequest :: "wire_value \<Rightarrow> unit result option" where
  "assertSessionSetRequest = assert_as ''SessionSetRequest'' BABELFORCE_V1_SCHEMAS"

definition serializeSessionSetRequest :: "wire_value \<Rightarrow> wire_value result option" where
  "serializeSessionSetRequest = serialize_as ''SessionSetRequest'' BABELFORCE_V1_SCHEMAS"

definition encodeSessionSetRequest :: "wire_value \<Rightarrow> string result option" where
  "encodeSessionSetRequest = encode_as serializeSessionSetRequest"

definition decodeSessionSetRequest :: "json_parse \<Rightarrow> (string \<Rightarrow> bool) \<Rightarrow> string \<Rightarrow> json result option" where
  "decodeSessionSetRequest = decode_as assertSessionSetRequest"

definition validateSessionTerminateRequest :: "wire_value \<Rightarrow> validation_issue list option" where
  "validateSessionTerminateRequest = validate_as ''SessionTerminateRequest'' BABELFORCE_V1_SCHEMAS"

definition assertSessionTerminateRequest :: "wire_value \<Rightarrow> unit result option" where
  "assertSessionTerminateRequest = assert_as ''SessionTerminateRequest'' BABELFORCE_V1_SCHEMAS"

definition serializeSessionTerminateRequest :: "wire_value \<Rightarrow> wire_value result option" where
  "serializeSessionTerminateRequest = serialize_as ''SessionTerminateRequest'' BABELFORCE_V1_SCHEMAS"

definition encodeSessionTerminateRequest :: "wire_value \<Rightarrow> string result option" where
  "encodeSessionTerminateRequest = encode_as serializeSessionTerminateRequest"

definition decodeSessionTerminateRequest :: "json_parse \<Rightarrow> (string \<Rightarrow> bool) \<Rightarrow> string \<Rightarrow> json result option" where
  "decodeSessionTerminateRequest = decode_as assertSessionTerminateRequest"

definition validateSessionUpdatedEvent :: "wire_value \<Rightarrow> validation_issue list option" where
  "validateSessionUpdatedEvent = validate_as ''SessionUpdatedEvent'' BABELFORCE_V1_SCHEMAS"

definition assertSessionUpdatedEvent :: "wire_value \<Rightarrow> unit result option" where
  "assertSessionUpdatedEvent = assert_as ''SessionUpdatedEvent'' BABELFORCE_V1_SCHEMAS"

definition serializeSessionUpdatedEvent :: "wire_value \<Rightarrow> wire_value result option" where
  "serializeSessionUpdatedEvent = serialize_as ''SessionUpdatedEvent'' BABELFORCE_V1_SCHEMAS"

definition encodeSessionUpdatedEvent :: "wire_value \<Rightarrow> string result option" where
  "encodeSessionUpdatedEvent = encode_as serializeSessionUpdatedEvent"

definition decodeSessionUpdatedEvent :: "json_parse \<Rightarrow> (string \<Rightarrow> bool) \<Rightarrow> string \<Rightarrow> json result option" where
  "decodeSessionUpdatedEvent = decode_as assertSessionUpdatedEvent"

section \<open>The catalog is well formed\<close>

lemma BABELFORCE_V1_wf: "wf_registry BABELFORCE_V1_SCHEMAS"
  by code_simp

lemma BABELFORCE_V1_flat: "flat_registry BABELFORCE_V1_SCHEMAS"
  using BABELFORCE_V1_wf by (simp add: wf_registry_def)

lemma DtmfEvent_lookup: "prop_of BABELFORCE_V1_SCHEMAS ''DtmfEvent'' = Some DtmfEvent_schema"
  by (simp add: BABELFORCE_V1_SCHEMAS_def)

section \<open>The DTMF event\<close>

definition safe_int :: "js_number \<Rightarrow> bool" where
  "safe_int x \<longleftrightarrow> isSafeInteger x \<and> x \<noteq> NegZero"

lemma safe_int_less: "safe_int x \<Longrightarrow> safe_int y \<Longrightarrow> num_less y x \<longleftrightarrow> \<not> num_le x y"
  by (cases x; cases y) (auto simp: safe_int_def)

lemma safe_int_nonneg: "safe_int x \<Longrightarrow> num_less x (Fin 0) \<longleftrightarrow> \<not> num_le (Fin 0) x"
  by (cases x) (auto simp: safe_int_def)

lemma integer_value_embed: "integer_value (embed j) \<longleftrightarrow> (\<exists>x. j = JNum x \<and> safe_int x)"
  by (cases j) (auto simp: integer_value_def safe_int_def)

text \<open>A required integer property with minimum zero, and a required non-empty string.\<close>

lemma natural_property:
  assumes s: "prop_of s ''type'' = Some (JStr ''integer'')" "prop_of s ''$ref'' = None" "prop_of s ''anyOf'' = None"
    "prop_of s ''oneOf'' = None" "prop_of s ''minimum'' = Some (JNum (Fin 0))" "prop_of s ''maximum'' = None"
    "prop_of s ''x-rtvbp-nonzero'' = None" "prop_of s ''x-rtvbp-field-order'' = None"
    and n: "n \<in> set (required_names schema)"
  shows "property_issues (validateAt (Suc f) schemas) schema (map (\<lambda>(k, v). (k, Data (embed v))) ps) path (n, JObj s) = Some []
    \<longleftrightarrow> (\<exists>x. prop_of ps n = Some (JNum x) \<and> safe_int x \<and> num_le (Fin 0) x)"
proof (cases "prop_of ps n")
  case None
  then show ?thesis using n by (simp add: property_issues_def own_value_embed)
next
  case (Some j)
  have "acceptsNull s = False" "nonNullSchema s = s"
    using s by (simp_all add: acceptsNull_def has_null_variant_def nonNullSchema_def single_variant_def)
  then have "validateAt (Suc f) schemas (embed j) s p =
      Some (if integer_value (embed j) then final_issues s (embed j) p
            else [issue p ''type'' ''must be a safe JavaScript integer''])" for p
    using s(1,2) by (simp add: typed_issues_def referenceName_def)
  moreover have "final_issues s (embed (JNum x)) p = [] \<longleftrightarrow> num_le (Fin 0) x" if "safe_int x" for x p
    using s safe_int_nonneg [OF that] by (simp add: final_issues_def number_issues_def number_keyword_def)
  ultimately show ?thesis
    using Some by (auto simp: property_issues_def own_value_embed integer_value_embed simp del: validateAt.simps)
qed

lemma text_property:
  assumes "c = JObj [(''type'', JStr ''string''), (''description'', JStr d), (''minLength'', JNum (Fin 1))]"
    and "n \<in> set (required_names schema)"
  shows "property_issues (validateAt (Suc f) schemas) schema (map (\<lambda>(k, v). (k, Data (embed v))) ps) path (n, c) = Some []
    \<longleftrightarrow> (\<exists>x. prop_of ps n = Some (JStr x) \<and> x \<noteq> [])"
proof (cases "prop_of ps n")
  case None
  then show ?thesis using assms(2) by (simp add: property_issues_def own_value_embed)
next
  case (Some j)
  have "(of_nat (length x) :: rat) < 1 \<longleftrightarrow> x = []" for x :: string
    by (cases x) (auto simp: not_less)
  then show ?thesis
    using Some assms(1)
    by (cases j) (auto simp: property_issues_def own_value_embed acceptsNull_def has_null_variant_def nonNullSchema_def
        single_variant_def referenceName_def typed_issues_def string_issues_def number_keyword_def)
qed

lemma DtmfEvent_top:
  "prop_of DtmfEvent_schema ''type'' = Some (JStr ''object'')" "prop_of DtmfEvent_schema ''$ref'' = None"
  "prop_of DtmfEvent_schema ''x-rtvbp-field-order'' = Some (JArr [JObj [(''lower'', JStr ''pressed_at''), (''upper'', JStr ''released_at'')]])"
  "acceptsNull DtmfEvent_schema = False" "nonNullSchema DtmfEvent_schema = DtmfEvent_schema"
  "required_names DtmfEvent_schema = [''seq'', ''pressed_at'', ''released_at'', ''digit'']"
  by (simp_all add: DtmfEvent_schema_def acceptsNull_def has_null_variant_def nonNullSchema_def single_variant_def required_names_def)

lemma validateDtmfEvent_object:
  "validateDtmfEvent v = object_issues (validateAt (Suc (2 * height v)) BABELFORCE_V1_SCHEMAS) DtmfEvent_schema v ''$''"
proof -
  have "value_fuel v = Suc (Suc (2 * height v))" by (simp add: value_fuel_def)
  then show ?thesis
    by (simp add: validateDtmfEvent_def validate_as_def validateCatalogValue_def DtmfEvent_lookup DtmfEvent_top
        referenceName_def typed_issues_def del: validateAt.simps(2)) (simp add: DtmfEvent_top referenceName_def typed_issues_def)
qed

definition dtmf_properties :: "(string \<times> json) list" where
  "dtmf_properties = (case prop_of DtmfEvent_schema ''properties'' of Some (JObj ps) \<Rightarrow> ps | _ \<Rightarrow> [])"

lemma dtmf_properties_eq:
  "prop_of DtmfEvent_schema ''properties'' = Some (JObj dtmf_properties)" "own_order dtmf_properties = dtmf_properties"
proof -
  show "prop_of DtmfEvent_schema ''properties'' = Some (JObj dtmf_properties)"
    by (simp add: dtmf_properties_def DtmfEvent_schema_def)
  show "own_order dtmf_properties = dtmf_properties"
    by (rule own_order_id) (simp add: dtmf_properties_def DtmfEvent_schema_def array_index_def is_digit_def)
qed

text \<open>
  \<open>validateDtmfEvent\<close> accepts a JSON object exactly if \<open>seq\<close>, \<open>pressed_at\<close> and \<open>released_at\<close>
  are safe integers that are not negative, the key was not released before it was pressed, and
  \<open>digit\<close> is a non-empty string; properties beyond these do not matter.
\<close>

theorem validateDtmfEvent_iff:
  "validateDtmfEvent (embed (JObj ps)) = Some [] \<longleftrightarrow>
    (\<exists>s p r d. prop_of ps ''seq'' = Some (JNum s) \<and> prop_of ps ''pressed_at'' = Some (JNum p)
       \<and> prop_of ps ''released_at'' = Some (JNum r) \<and> prop_of ps ''digit'' = Some (JStr d)
       \<and> safe_int s \<and> safe_int p \<and> safe_int r \<and> num_le (Fin 0) s \<and> num_le (Fin 0) p \<and> num_le p r \<and> d \<noteq> [])"
proof -
  let ?f = "Suc (2 * height (embed (JObj ps)))"
  let ?rec = "map (\<lambda>(k, v). (k, Data (embed v))) ps"
  let ?pi = "property_issues (validateAt ?f BABELFORCE_V1_SCHEMAS) DtmfEvent_schema ?rec ''$''"
  let ?nat = "\<lambda>n. \<exists>x. prop_of ps n = Some (JNum x) \<and> safe_int x \<and> num_le (Fin 0) x"
  have props: "(\<forall>p \<in> set dtmf_properties. ?pi p = Some []) \<longleftrightarrow>
      ?nat ''seq'' \<and> ?nat ''pressed_at'' \<and> ?nat ''released_at'' \<and> (\<exists>x. prop_of ps ''digit'' = Some (JStr x) \<and> x \<noteq> [])"
    by (simp add: dtmf_properties_def DtmfEvent_schema_def) (simp add: natural_property text_property DtmfEvent_top flip: DtmfEvent_schema_def)
  have "validateDtmfEvent (embed (JObj ps)) = Some [] \<longleftrightarrow>
      (\<forall>p \<in> set dtmf_properties. ?pi p = Some []) \<and> final_issues DtmfEvent_schema (embed (JObj ps)) ''$'' = []"
    by (auto simp: validateDtmfEvent_object object_issues_def dtmf_properties_eq collect_Nil
        simp del: embed.simps validateAt.simps)
  moreover have "final_issues DtmfEvent_schema (embed (JObj ps)) ''$'' = [] \<longleftrightarrow> num_le p r"
    if "prop_of ps ''pressed_at'' = Some (JNum p)" "prop_of ps ''released_at'' = Some (JNum r)" "safe_int p" "safe_int r" for p r
    using that safe_int_less [of p r]
    by (simp add: final_issues_def DtmfEvent_top ordering_issues_def own_value_embed)
  moreover have "num_le (Fin 0) r" if "num_le (Fin 0) p" "num_le p r" "safe_int p" "safe_int r" for p r
    using that by (cases p; cases r) (auto simp: safe_int_def)
  ultimately show ?thesis unfolding props by (fastforce simp del: embed.simps)
qed

theorem validateDtmfEvent_iff_witness:
  "validateDtmfEvent (embed (JObj [(''seq'', JNum (Fin 0)), (''pressed_at'', JNum (Fin 20)), (''released_at'', JNum (Fin 20)), (''digit'', JStr ''5'')])) = Some []
   \<and> validateDtmfEvent (embed (JObj [(''seq'', JNum (Fin 0)), (''pressed_at'', JNum (Fin 20)), (''released_at'', JNum (Fin 10)), (''digit'', JStr ''5'')])) \<noteq> Some []"
  unfolding validateDtmfEvent_iff by (simp add: safe_int_def MAX_SAFE_INTEGER_def)

section \<open>Where validation and encoding disagree\<close>

text \<open>
  An open map is not validated: \<open>validateSessionSetRequest\<close> accepts every plain object as
  \<open>data\<close>, also with values that have no JSON form, and then encoding the accepted request throws.
\<close>

theorem open_map_unchecked:
  "validateSessionSetRequest (WObject (PlainObject True [(''data'', Data (WObject (PlainObject plain ps)))])) = Some []
   \<and> encodeSessionSetRequest (WObject (PlainObject True [(''data'', Data (WObject (PlainObject True [(''x'', Data (WNum NaN))])))]))
       = Some (Inl (WireJsonError (''number '' @ quoted ''NaN'' @ '' is not a safe JavaScript number'')))"
proof
  let ?v = "WObject (PlainObject True [(''data'', Data (WObject (PlainObject plain ps)))])"
  have f: "value_fuel ?v = Suc (Suc (2 * height ?v))" by (simp add: value_fuel_def)
  have "prop_of BABELFORCE_V1_SCHEMAS ''SessionSetRequest'' = Some SessionSetRequest_schema"
    by (simp add: BABELFORCE_V1_SCHEMAS_def)
  then show "validateSessionSetRequest ?v = Some []"
    unfolding validateSessionSetRequest_def validate_as_def validateCatalogValue_def f
    by (simp add: SessionSetRequest_schema_def acceptsNull_def has_null_variant_def nonNullSchema_def single_variant_def
        referenceName_def typed_issues_def object_issues_def property_issues_def own_value_def final_issues_def own_order_def
        array_index_def is_digit_def)
qed code_simp

text \<open>
  The check of the type \<open>number\<close> is weaker than the encoder's: \<open>validateAudioInfoItem\<close> accepts
  a throughput of \<open>2 ^ 60\<close>, which \<open>encodeAudioInfoItem\<close> then refuses as an unsafe number.
\<close>

theorem number_type_unsafe:
  "let item = WObject (PlainObject True [(''bytes'', Data (WNum (Fin 1))), (''bytes_per_second'', Data (WNum (Fin (2 ^ 60)))),
                (''bytes_total'', Data (WNum (Fin 1)))])
   in validateAudioInfoItem item = Some []
      \<and> encodeAudioInfoItem item = Some (Inl (WireJsonError (''number '' @ quoted (number_text (Fin (2 ^ 60))) @ '' is not a safe JavaScript number'')))"
  unfolding Let_def
proof
  let ?item = "WObject (PlainObject True [(''bytes'', Data (WNum (Fin 1))), (''bytes_per_second'', Data (WNum (Fin (2 ^ 60)))),
    (''bytes_total'', Data (WNum (Fin 1)))])"
  show "validateAudioInfoItem ?item = Some []" by code_simp
  have "serializeAudioInfoItem ?item = Some (Inr (WObject (OrderedObject [(''bytes'', WNum (Fin 1)),
      (''bytes_per_second'', WNum (Fin (2 ^ 60))), (''bytes_total'', WNum (Fin 1))])))"
    by code_simp
  then show "encodeAudioInfoItem ?item = Some (Inl (WireJsonError (''number '' @ quoted (number_text (Fin (2 ^ 60)))
      @ '' is not a safe JavaScript number'')))"
    by (simp add: encodeAudioInfoItem_def encode_as_def encode_members_def MAX_SAFE_INTEGER_def)
qed

end
