(* ===== verification/Babelforce_Roles.thy ===== *)
theory Babelforce_Roles
  imports Handler Babelforce_V1
begin

text \<open>
  The roles of \<open>babelforce.v1\<close> (\<open>generated/zz_generated_babelforcev1_roles.ts\<close>): registrations of the
  local role, and typed clients of the peer.
\<close>

section \<open>The Application role\<close>

record 's application_handler =
  app_ping :: "'s operation"
  app_sessionInitialize :: "'s operation"
  app_sessionTerminate :: "'s operation"

definition APPLICATION_HANDLER_METHODS :: "string list" where
  "APPLICATION_HANDLER_METHODS = [METHOD_PING, METHOD_SESSION_INITIALIZE, METHOD_SESSION_TERMINATE]"

definition applicationRequestHandlers :: "'s application_handler \<Rightarrow> 's request_registration list" where
  "applicationRequestHandlers handler = [
    \<lparr>reg_method = METHOD_PING, reg_terminal = False, reg_handle = typed_handle assertPingRequest serializePingResponse (app_ping handler)\<rparr>,
    \<lparr>reg_method = METHOD_SESSION_INITIALIZE, reg_terminal = False, reg_handle = typed_handle assertSessionInitializeRequest serializeSessionInitializeResponse (app_sessionInitialize handler)\<rparr>,
    \<lparr>reg_method = METHOD_SESSION_TERMINATE, reg_terminal = True, reg_handle = typed_handle assertSessionTerminateRequest serializeEmptyResponse (app_sessionTerminate handler)\<rparr>]"

record 's application_event_handler =
  app_on_audioInfo :: "'s observer"
  app_on_callHangup :: "'s observer"
  app_on_dtmf :: "'s observer"
  app_on_sessionUpdated :: "'s observer"

definition applicationEventHandlers :: "'s application_event_handler \<Rightarrow> 's event_registration list" where
  "applicationEventHandlers handler = [
    \<lparr>reg_event = EVENT_AUDIO_INFO, reg_observe = typed_observe assertAudioInfoEvent (app_on_audioInfo handler)\<rparr>,
    \<lparr>reg_event = EVENT_CALL_HANGUP, reg_observe = typed_observe assertCallHangupEvent (app_on_callHangup handler)\<rparr>,
    \<lparr>reg_event = EVENT_DTMF, reg_observe = typed_observe assertDtmfEvent (app_on_dtmf handler)\<rparr>,
    \<lparr>reg_event = EVENT_SESSION_UPDATED, reg_observe = typed_observe assertSessionUpdatedEvent (app_on_sessionUpdated handler)\<rparr>]"

definition applicationAdapter :: "'s application_handler \<Rightarrow> 's application_event_handler \<Rightarrow> 's unknown_hooks \<Rightarrow> 's role_adapter" where
  "applicationAdapter handler eventHandler hooks = \<lparr>requests = applicationRequestHandlers handler, events = applicationEventHandlers eventHandler, unknown = hooks\<rparr>"

definition ApplicationPeer_ping :: "'s requester \<Rightarrow> wire_value \<Rightarrow> ('s, json) action" where
  "ApplicationPeer_ping requester = peer_call requester serializePingRequest METHOD_PING False assertPingResponse"

definition ApplicationPeer_sessionInitialize :: "'s requester \<Rightarrow> wire_value \<Rightarrow> ('s, json) action" where
  "ApplicationPeer_sessionInitialize requester = peer_call requester serializeSessionInitializeRequest METHOD_SESSION_INITIALIZE False assertSessionInitializeResponse"

definition ApplicationPeer_sessionTerminate :: "'s requester \<Rightarrow> wire_value \<Rightarrow> ('s, json) action" where
  "ApplicationPeer_sessionTerminate requester = peer_call requester serializeSessionTerminateRequest METHOD_SESSION_TERMINATE True assertEmptyResponse"

definition ApplicationEvents_agentToolCall :: "'s notifier \<Rightarrow> wire_value \<Rightarrow> ('s, unit) action" where
  "ApplicationEvents_agentToolCall notifier = peer_notify notifier EVENT_AGENT_TOOL_CALL serializeAgentToolCallEvent"

definition ApplicationEvents_audioSpeechStarted :: "'s notifier \<Rightarrow> wire_value \<Rightarrow> ('s, unit) action" where
  "ApplicationEvents_audioSpeechStarted notifier = peer_notify notifier EVENT_AUDIO_SPEECH_STARTED serializeAudioSpeechStartedEvent"

definition ApplicationEvents_inputTranscript :: "'s notifier \<Rightarrow> wire_value \<Rightarrow> ('s, unit) action" where
  "ApplicationEvents_inputTranscript notifier = peer_notify notifier EVENT_INPUT_TRANSCRIPT serializeInputTranscriptEvent"

definition ApplicationEvents_outputTranscriptDelta :: "'s notifier \<Rightarrow> wire_value \<Rightarrow> ('s, unit) action" where
  "ApplicationEvents_outputTranscriptDelta notifier = peer_notify notifier EVENT_OUTPUT_TRANSCRIPT_DELTA serializeOutputTranscriptDeltaEvent"

definition ApplicationEvents_outputTranscriptDone :: "'s notifier \<Rightarrow> wire_value \<Rightarrow> ('s, unit) action" where
  "ApplicationEvents_outputTranscriptDone notifier = peer_notify notifier EVENT_OUTPUT_TRANSCRIPT_DONE serializeOutputTranscriptDoneEvent"

section \<open>The Voice role\<close>

record 's voice_handler =
  voice_applicationMove :: "'s operation"
  voice_audioBufferClear :: "'s operation"
  voice_callHangup :: "'s operation"
  voice_ping :: "'s operation"
  voice_recordingStart :: "'s operation"
  voice_recordingStop :: "'s operation"
  voice_sessionGet :: "'s operation"
  voice_sessionSet :: "'s operation"

definition VOICE_HANDLER_METHODS :: "string list" where
  "VOICE_HANDLER_METHODS = [METHOD_APPLICATION_MOVE, METHOD_AUDIO_BUFFER_CLEAR, METHOD_CALL_HANGUP, METHOD_PING, METHOD_RECORDING_START, METHOD_RECORDING_STOP, METHOD_SESSION_GET, METHOD_SESSION_SET, METHOD_SESSION_TERMINATE]"

definition voiceRequestHandlers :: "'s voice_handler \<Rightarrow> 's request_registration list" where
  "voiceRequestHandlers handler = [
    \<lparr>reg_method = METHOD_APPLICATION_MOVE, reg_terminal = True, reg_handle = typed_handle assertApplicationMoveRequest serializeApplicationMoveResponse (voice_applicationMove handler)\<rparr>,
    \<lparr>reg_method = METHOD_AUDIO_BUFFER_CLEAR, reg_terminal = False, reg_handle = typed_handle assertAudioBufferClearRequest serializeAudioBufferClearResponse (voice_audioBufferClear handler)\<rparr>,
    \<lparr>reg_method = METHOD_CALL_HANGUP, reg_terminal = True, reg_handle = typed_handle assertCallHangupRequest serializeEmptyResponse (voice_callHangup handler)\<rparr>,
    \<lparr>reg_method = METHOD_PING, reg_terminal = False, reg_handle = typed_handle assertPingRequest serializePingResponse (voice_ping handler)\<rparr>,
    \<lparr>reg_method = METHOD_RECORDING_START, reg_terminal = False, reg_handle = typed_handle assertRecordingStartRequest serializeRecordingStartResponse (voice_recordingStart handler)\<rparr>,
    \<lparr>reg_method = METHOD_RECORDING_STOP, reg_terminal = False, reg_handle = typed_handle assertRecordingStopRequest serializeEmptyResponse (voice_recordingStop handler)\<rparr>,
    \<lparr>reg_method = METHOD_SESSION_GET, reg_terminal = False, reg_handle = typed_handle assertSessionGetRequest serializeSessionGetResponse (voice_sessionGet handler)\<rparr>,
    \<lparr>reg_method = METHOD_SESSION_SET, reg_terminal = False, reg_handle = typed_handle assertSessionSetRequest serializeEmptyResponse (voice_sessionSet handler)\<rparr>,
    \<lparr>reg_method = METHOD_SESSION_TERMINATE, reg_terminal = False,
      reg_handle = (\<lambda>v s. (s, Inl (ProtocolHandlerError (wire_failure 501 ''session.terminate is not supported. please use application.move or call.hangup instead''))))\<rparr>]"

record 's voice_event_handler =
  voice_on_agentToolCall :: "'s observer"
  voice_on_audioSpeechStarted :: "'s observer"
  voice_on_inputTranscript :: "'s observer"
  voice_on_outputTranscriptDelta :: "'s observer"
  voice_on_outputTranscriptDone :: "'s observer"

definition voiceEventHandlers :: "'s voice_event_handler \<Rightarrow> 's event_registration list" where
  "voiceEventHandlers handler = [
    \<lparr>reg_event = EVENT_AGENT_TOOL_CALL, reg_observe = typed_observe assertAgentToolCallEvent (voice_on_agentToolCall handler)\<rparr>,
    \<lparr>reg_event = EVENT_AUDIO_SPEECH_STARTED, reg_observe = typed_observe assertAudioSpeechStartedEvent (voice_on_audioSpeechStarted handler)\<rparr>,
    \<lparr>reg_event = EVENT_INPUT_TRANSCRIPT, reg_observe = typed_observe assertInputTranscriptEvent (voice_on_inputTranscript handler)\<rparr>,
    \<lparr>reg_event = EVENT_OUTPUT_TRANSCRIPT_DELTA, reg_observe = typed_observe assertOutputTranscriptDeltaEvent (voice_on_outputTranscriptDelta handler)\<rparr>,
    \<lparr>reg_event = EVENT_OUTPUT_TRANSCRIPT_DONE, reg_observe = typed_observe assertOutputTranscriptDoneEvent (voice_on_outputTranscriptDone handler)\<rparr>]"

definition voiceAdapter :: "'s voice_handler \<Rightarrow> 's voice_event_handler \<Rightarrow> 's unknown_hooks \<Rightarrow> 's role_adapter" where
  "voiceAdapter handler eventHandler hooks = \<lparr>requests = voiceRequestHandlers handler, events = voiceEventHandlers eventHandler, unknown = hooks\<rparr>"

definition VoicePeer_applicationMove :: "'s requester \<Rightarrow> wire_value \<Rightarrow> ('s, json) action" where
  "VoicePeer_applicationMove requester = peer_call requester serializeApplicationMoveRequest METHOD_APPLICATION_MOVE True assertApplicationMoveResponse"

definition VoicePeer_audioBufferClear :: "'s requester \<Rightarrow> wire_value \<Rightarrow> ('s, json) action" where
  "VoicePeer_audioBufferClear requester = peer_call requester serializeAudioBufferClearRequest METHOD_AUDIO_BUFFER_CLEAR False assertAudioBufferClearResponse"

definition VoicePeer_callHangup :: "'s requester \<Rightarrow> wire_value \<Rightarrow> ('s, json) action" where
  "VoicePeer_callHangup requester = peer_call requester serializeCallHangupRequest METHOD_CALL_HANGUP True assertEmptyResponse"

definition VoicePeer_ping :: "'s requester \<Rightarrow> wire_value \<Rightarrow> ('s, json) action" where
  "VoicePeer_ping requester = peer_call requester serializePingRequest METHOD_PING False assertPingResponse"

definition VoicePeer_recordingStart :: "'s requester \<Rightarrow> wire_value \<Rightarrow> ('s, json) action" where
  "VoicePeer_recordingStart requester = peer_call requester serializeRecordingStartRequest METHOD_RECORDING_START False assertRecordingStartResponse"

definition VoicePeer_recordingStop :: "'s requester \<Rightarrow> wire_value \<Rightarrow> ('s, json) action" where
  "VoicePeer_recordingStop requester = peer_call requester serializeRecordingStopRequest METHOD_RECORDING_STOP False assertEmptyResponse"

definition VoicePeer_sessionGet :: "'s requester \<Rightarrow> wire_value \<Rightarrow> ('s, json) action" where
  "VoicePeer_sessionGet requester = peer_call requester serializeSessionGetRequest METHOD_SESSION_GET False assertSessionGetResponse"

definition VoicePeer_sessionSet :: "'s requester \<Rightarrow> wire_value \<Rightarrow> ('s, json) action" where
  "VoicePeer_sessionSet requester = peer_call requester serializeSessionSetRequest METHOD_SESSION_SET False assertEmptyResponse"

definition VoiceEvents_audioInfo :: "'s notifier \<Rightarrow> wire_value \<Rightarrow> ('s, unit) action" where
  "VoiceEvents_audioInfo notifier = peer_notify notifier EVENT_AUDIO_INFO serializeAudioInfoEvent"

definition VoiceEvents_callHangup :: "'s notifier \<Rightarrow> wire_value \<Rightarrow> ('s, unit) action" where
  "VoiceEvents_callHangup notifier = peer_notify notifier EVENT_CALL_HANGUP serializeCallHangupEvent"

definition VoiceEvents_dtmf :: "'s notifier \<Rightarrow> wire_value \<Rightarrow> ('s, unit) action" where
  "VoiceEvents_dtmf notifier = peer_notify notifier EVENT_DTMF serializeDtmfEvent"

definition VoiceEvents_sessionUpdated :: "'s notifier \<Rightarrow> wire_value \<Rightarrow> ('s, unit) action" where
  "VoiceEvents_sessionUpdated notifier = peer_notify notifier EVENT_SESSION_UPDATED serializeSessionUpdatedEvent"

section \<open>Registrations and clients agree\<close>

lemmas method_names = METHOD_PING_def METHOD_SESSION_INITIALIZE_def METHOD_SESSION_TERMINATE_def
  METHOD_APPLICATION_MOVE_def METHOD_AUDIO_BUFFER_CLEAR_def METHOD_CALL_HANGUP_def METHOD_RECORDING_START_def
  METHOD_RECORDING_STOP_def METHOD_SESSION_GET_def METHOD_SESSION_SET_def

lemmas event_names = EVENT_AUDIO_INFO_def EVENT_CALL_HANGUP_def EVENT_DTMF_def EVENT_SESSION_UPDATED_def
  EVENT_AGENT_TOOL_CALL_def EVENT_AUDIO_SPEECH_STARTED_def EVENT_INPUT_TRANSCRIPT_def
  EVENT_OUTPUT_TRANSCRIPT_DELTA_def EVENT_OUTPUT_TRANSCRIPT_DONE_def

text \<open>
  The generated adapters never collide: for every handler object, hook and middleware the
  \<open>Handler\<close> constructor succeeds, and the methods of each role are exactly its declared list.
\<close>

theorem generated_adapters_construct:
  "(\<exists>h. new_handler (Some (applicationAdapter ah aeh hooks)) onBegin ms = Inr h)
   \<and> (\<exists>h. new_handler (Some (voiceAdapter vh veh hooks')) onBegin' ms' = Inr h)
   \<and> map reg_method (applicationRequestHandlers ah) = APPLICATION_HANDLER_METHODS
   \<and> map reg_method (voiceRequestHandlers vh) = VOICE_HANDLER_METHODS"
  by (simp add: new_handler_iff applicationAdapter_def voiceAdapter_def applicationRequestHandlers_def
      applicationEventHandlers_def voiceRequestHandlers_def voiceEventHandlers_def APPLICATION_HANDLER_METHODS_def
      VOICE_HANDLER_METHODS_def method_names event_names)

text \<open>A requester that records the calls it gets, for any answer.\<close>

definition recording :: "json option result \<Rightarrow> (string \<times> bool) list requester" where
  "recording answer m v t calls = (calls @ [(m, t)], answer)"

lemma peer_call_recording:
  "fst (peer_call (recording answer) ser m t ast v calls) \<in> {calls, calls @ [(m, t)]}"
  by (auto simp: peer_call_def recording_def Let_def split: sum.splits prod.splits)

definition covered :: "'s request_registration list \<Rightarrow> (string \<times> bool) list \<Rightarrow> bool" where
  "covered rs calls \<longleftrightarrow> (\<forall>(m, t) \<in> set calls. \<exists>r \<in> set rs. reg_method r = m \<and> reg_terminal r = t)"

lemma peer_call_covered:
  assumes "\<exists>r \<in> set rs. reg_method r = m \<and> reg_terminal r = t"
  shows "covered rs (fst (peer_call (recording answer) ser m t ast v []))"
  using peer_call_recording [of answer ser m t ast v "[]"] assms by (auto simp: covered_def)

text \<open>
  Client and server agree on every operation: whatever a typed client method of a peer sends,
  the registrations of that peer's role contain its method, with the same \<open>terminal\<close> flag.
\<close>

theorem clients_match_registrations:
  "(\<forall>op \<in> {ApplicationPeer_ping, ApplicationPeer_sessionInitialize, ApplicationPeer_sessionTerminate}.
      covered (applicationRequestHandlers ah) (fst (op (recording answer) v [])))
   \<and> (\<forall>op \<in> {VoicePeer_applicationMove, VoicePeer_audioBufferClear, VoicePeer_callHangup, VoicePeer_ping,
        VoicePeer_recordingStart, VoicePeer_recordingStop, VoicePeer_sessionGet, VoicePeer_sessionSet}.
      covered (voiceRequestHandlers vh) (fst (op (recording answer) v [])))"
  by (auto simp: ApplicationPeer_ping_def ApplicationPeer_sessionInitialize_def ApplicationPeer_sessionTerminate_def
      VoicePeer_applicationMove_def VoicePeer_audioBufferClear_def VoicePeer_callHangup_def VoicePeer_ping_def
      VoicePeer_recordingStart_def VoicePeer_recordingStop_def VoicePeer_sessionGet_def VoicePeer_sessionSet_def
      applicationRequestHandlers_def voiceRequestHandlers_def intro!: peer_call_covered)

theorem clients_match_registrations_witness:
  "let ah = \<lparr>app_ping = (\<lambda>p s. (s, Inr p)), app_sessionInitialize = (\<lambda>p s. (s, Inr p)), app_sessionTerminate = (\<lambda>p s. (s, Inr p))\<rparr>
         :: unit application_handler;
       call = ApplicationPeer_sessionTerminate (recording (Inr None)) (embed (JObj [(''reason'', JStr ''bye'')])) []
   in call = ([(''session.terminate'', True)], Inr (JObj [])) \<and> covered (applicationRequestHandlers ah) (fst call)"
  unfolding Let_def
proof
  show "ApplicationPeer_sessionTerminate (recording (Inr None)) (embed (JObj [(''reason'', JStr ''bye'')])) []
      = ([(''session.terminate'', True)], Inr (JObj []))"
    by code_simp
qed (rule clients_match_registrations [THEN conjunct1, THEN bspec], simp)

end
