(* ===== verification/Role_Calls.thy ===== *)
theory Role_Calls
  imports Babelforce_Roles
begin

text \<open>
  The typed clients of \<open>babelforce.v1\<close> against the registrations of the peer's role: a call is dispatched by its
  method through the \<open>Handler\<close> of the peer.  The requester is the interface \<open>Requester\<close> that the clients
  take; \<open>relays\<close> says what they rely on, which a session promises: a request that the peer's handler
  dispatches with a result is answered with that result.
\<close>

section \<open>Calls through a handler\<close>

definition relays :: "'s handler \<Rightarrow> 's requester \<Rightarrow> bool" where
  "relays h requester \<longleftrightarrow> (\<forall>method w s s' d.
     dispatchRequest h \<lparr>req_method = method, req_payload = embed (or_empty (Some (json_of w)))\<rparr> s = (s', Inr (Some d))
     \<longrightarrow> requester method w (disp_terminal d) s = (s', Inr (Some (json_of (disp_result d)))))"

text \<open>
  What a client method promises for an operation \<open>op\<close> of the peer with requests of type \<open>n\<close> and
  responses of type \<open>m\<close>: an invalid request is refused before the requester is used.  A valid one reaches \<open>op\<close>
  as the serialised request, which is valid again, and when \<open>op\<close> returns a valid response the caller
  gets it serialised, valid again, in the state that \<open>op\<close> left.
\<close>

definition typed_call ::
  "registry \<Rightarrow> string \<Rightarrow> string \<Rightarrow> 's operation \<Rightarrow> (wire_value \<Rightarrow> ('s, json) action) \<Rightarrow> bool" where
  "typed_call schemas n m op call \<longleftrightarrow>
     (\<forall>j s. validate_as n schemas (embed j) \<noteq> Some [] \<longrightarrow> (\<exists>e. call (embed j) s = (s, Inl e)))
     \<and> (\<forall>j s. json_ok j \<longrightarrow> validate_as n schemas (embed j) = Some [] \<longrightarrow>
         (\<exists>w. serialize_as n schemas (embed j) = Some (Inr w) \<and> validate_as n schemas (embed (json_of w)) = Some []
            \<and> (\<forall>k s'. op (embed (json_of w)) s = (s', Inr (embed k)) \<longrightarrow> json_ok k \<longrightarrow> validate_as m schemas (embed k) = Some [] \<longrightarrow>
                (\<exists>w'. serialize_as m schemas (embed k) = Some (Inr w') \<and> validate_as m schemas (embed (json_of w')) = Some []
                   \<and> call (embed j) s = (s', Inr (json_of w'))))))"

lemma not_null_or_empty: "j \<noteq> JNull \<Longrightarrow> or_empty (Some j) = j"
  by (cases j) simp_all

lemma serialize_invalid:
  assumes "wf_registry schemas" "validate_as n schemas v \<noteq> Some []"
  shows "\<exists>e. settled (serialize_as n schemas v) = Inl e"
proof -
  have "assert_as n schemas v \<noteq> Some (Inr ())" using assms(2) by (auto simp: assert_as_def assertCatalogValue_def validate_as_def split: if_splits)
  then obtain e where "assertCatalogValue (value_fuel v) v n schemas = Some (Inl e)"
    using assms(1) assert_as_total [of schemas n v] by (auto simp: wf_registry_def assert_as_def)
  then show ?thesis by (simp add: serialize_as_def serializeCatalogValue_def settled_def)
qed

lemma peer_call_typed:
  assumes wf: "wf_registry schemas" "prop_of schemas n = Some a" "prop_of schemas m = Some b"
    and null: "validate_as n schemas (embed JNull) \<noteq> Some []" "validate_as m schemas (embed JNull) \<noteq> Some []"
    and reg: "h_requests h method = Some r" "reg_handle r = typed_handle (assert_as n schemas) (serialize_as m schemas) op" "reg_terminal r = t"
    and "h_middleware h = []" "relays h requester"
  shows "typed_call schemas n m op (peer_call requester (serialize_as n schemas) method t (assert_as m schemas))"
  unfolding typed_call_def
proof (intro conjI allI impI)
  fix j s
  assume "validate_as n schemas (embed j) \<noteq> Some []"
  then show "\<exists>e. peer_call requester (serialize_as n schemas) method t (assert_as m schemas) (embed j) s = (s, Inl e)"
    using serialize_invalid [OF wf(1)] by (fastforce simp: peer_call_def)
next
  fix j s
  assume "json_ok j" "validate_as n schemas (embed j) = Some []"
  then obtain w where w: "serialize_as n schemas (embed j) = Some (Inr w)" "validate_as n schemas (embed (json_of w)) = Some []"
    using serialize_valid [OF wf(1) _ wf(2)] by blast
  let ?call = "peer_call requester (serialize_as n schemas) method t (assert_as m schemas) (embed j) s"
  have "\<exists>w'. serialize_as m schemas (embed k) = Some (Inr w') \<and> validate_as m schemas (embed (json_of w')) = Some []
      \<and> ?call = (s', Inr (json_of w'))"
    if op: "op (embed (json_of w)) s = (s', Inr (embed k))" and k: "json_ok k" "validate_as m schemas (embed k) = Some []" for k s'
  proof -
    obtain w' where w': "serialize_as m schemas (embed k) = Some (Inr w')" "validate_as m schemas (embed (json_of w')) = Some []"
      using serialize_valid [OF wf(1) k(1) wf(3) k(2)] by blast
    have n: "or_empty (Some (json_of w)) = json_of w" "or_empty (Some (json_of w')) = json_of w'"
      using w(2) w'(2) null not_null_or_empty by metis+
    have "dispatchRequest h \<lparr>req_method = method, req_payload = embed (or_empty (Some (json_of w)))\<rparr> s
        = (s', Inr (Some \<lparr>disp_result = w', disp_terminal = t\<rparr>))"
      using assms(6-9) w(2) w' op n by (simp add: dispatch_plain invoke_def typed_handle_def settled_def assert_valid)
    then have "requester method w t s = (s', Inr (Some (json_of w')))" using assms(10) by (fastforce simp: relays_def)
    then show ?thesis using w w' n by (simp add: peer_call_def settled_def assert_valid)
  qed
  with w show "\<exists>w. serialize_as n schemas (embed j) = Some (Inr w) \<and> validate_as n schemas (embed (json_of w)) = Some []
      \<and> (\<forall>k s'. op (embed (json_of w)) s = (s', Inr (embed k)) \<longrightarrow> json_ok k \<longrightarrow> validate_as m schemas (embed k) = Some [] \<longrightarrow>
          (\<exists>w'. serialize_as m schemas (embed k) = Some (Inr w') \<and> validate_as m schemas (embed (json_of w')) = Some []
             \<and> ?call = (s', Inr (json_of w'))))"
    by blast
qed

section \<open>The types of the calls\<close>

definition call_types :: "string list" where
  "call_types = [''PingRequest'', ''PingResponse'', ''SessionInitializeRequest'', ''SessionInitializeResponse'', ''SessionTerminateRequest'',
     ''EmptyResponse'', ''ApplicationMoveRequest'', ''ApplicationMoveResponse'', ''AudioBufferClearRequest'', ''AudioBufferClearResponse'',
     ''CallHangupRequest'', ''RecordingStartRequest'', ''RecordingStartResponse'', ''RecordingStopRequest'', ''SessionGetRequest'',
     ''SessionGetResponse'', ''SessionSetRequest'']"

text \<open>None of them accepts null, which a missing payload or result stands for.\<close>

lemma call_types_objects:
  "list_all (\<lambda>n. prop_of BABELFORCE_V1_SCHEMAS n \<noteq> None \<and> validate_as n BABELFORCE_V1_SCHEMAS (embed JNull) \<noteq> Some []) call_types"
  by code_simp

lemma babelforce_call:
  assumes h: "new_handler (Some a) onBegin None = Inr h" "relays h requester"
    and r: "\<exists>r \<in> set (requests a). reg_method r = method \<and> reg_terminal r = t
      \<and> reg_handle r = typed_handle (assert_as n BABELFORCE_V1_SCHEMAS) (serialize_as m BABELFORCE_V1_SCHEMAS) op"
    and types: "n \<in> set call_types" "m \<in> set call_types"
  shows "typed_call BABELFORCE_V1_SCHEMAS n m op
    (peer_call requester (serialize_as n BABELFORCE_V1_SCHEMAS) method t (assert_as m BABELFORCE_V1_SCHEMAS))"
proof -
  obtain r where r: "r \<in> set (requests a)" "reg_method r = method"
    "reg_handle r = typed_handle (assert_as n BABELFORCE_V1_SCHEMAS) (serialize_as m BABELFORCE_V1_SCHEMAS) op" "reg_terminal r = t"
    using r by blast
  have "h_requests h method = Some r" "h_middleware h = []"
    using h(1) r(1,2) unfolding new_handler_iff by (auto intro!: map_of_is_SomeI simp: o_def)
  moreover obtain a b where "prop_of BABELFORCE_V1_SCHEMAS n = Some a" "prop_of BABELFORCE_V1_SCHEMAS m = Some b"
    "validate_as n BABELFORCE_V1_SCHEMAS (embed JNull) \<noteq> Some []" "validate_as m BABELFORCE_V1_SCHEMAS (embed JNull) \<noteq> Some []"
    using call_types_objects types unfolding list_all_iff by blast
  ultimately show ?thesis using peer_call_typed [OF BABELFORCE_V1_wf _ _ _ _ _ r(3,4) _ h(2)] by blast
qed

lemmas application_clients = ApplicationPeer_ping_def ApplicationPeer_sessionInitialize_def ApplicationPeer_sessionTerminate_def

lemmas voice_clients = VoicePeer_applicationMove_def VoicePeer_audioBufferClear_def VoicePeer_callHangup_def VoicePeer_ping_def
  VoicePeer_recordingStart_def VoicePeer_recordingStop_def VoicePeer_sessionGet_def VoicePeer_sessionSet_def

lemmas call_functions = assertPingRequest_def serializePingRequest_def assertPingResponse_def serializePingResponse_def
  assertSessionInitializeRequest_def serializeSessionInitializeRequest_def assertSessionInitializeResponse_def serializeSessionInitializeResponse_def
  assertSessionTerminateRequest_def serializeSessionTerminateRequest_def assertEmptyResponse_def serializeEmptyResponse_def
  assertApplicationMoveRequest_def serializeApplicationMoveRequest_def assertApplicationMoveResponse_def serializeApplicationMoveResponse_def
  assertAudioBufferClearRequest_def serializeAudioBufferClearRequest_def assertAudioBufferClearResponse_def serializeAudioBufferClearResponse_def
  assertCallHangupRequest_def serializeCallHangupRequest_def
  assertRecordingStartRequest_def serializeRecordingStartRequest_def assertRecordingStartResponse_def serializeRecordingStartResponse_def
  assertRecordingStopRequest_def serializeRecordingStopRequest_def
  assertSessionGetRequest_def serializeSessionGetRequest_def assertSessionGetResponse_def serializeSessionGetResponse_def
  assertSessionSetRequest_def serializeSessionSetRequest_def

text \<open>
  Claim C18.  The typed clients of \<open>babelforce.v1\<close> call the operation they are named after.  Over a requester that
  relays requests to the \<open>Handler\<close> of a peer with the generated registrations of its role, for all three
  methods of \<open>ApplicationPeer\<close> and all eight of \<open>VoicePeer\<close>: an invalid request is refused before anything is
  sent; a valid one is dispatched by its method to the handler function of that name, which gets the serialised
  request, valid again; and when it returns a valid response the caller gets that response serialised, valid
  again.  The requester has to relay a call only when the caller's \<open>terminal\<close> flag is that of the registration.
\<close>

theorem typed_clients_reach_their_operation:
  assumes "new_handler (Some (applicationAdapter ah aeh hooks)) begin_a None = Inr h" "relays h requester"
    and "new_handler (Some (voiceAdapter vh veh hooks')) begin_v None = Inr h'" "relays h' requester'"
  shows "typed_call BABELFORCE_V1_SCHEMAS ''PingRequest'' ''PingResponse'' (app_ping ah) (ApplicationPeer_ping requester)
    \<and> typed_call BABELFORCE_V1_SCHEMAS ''SessionInitializeRequest'' ''SessionInitializeResponse'' (app_sessionInitialize ah) (ApplicationPeer_sessionInitialize requester)
    \<and> typed_call BABELFORCE_V1_SCHEMAS ''SessionTerminateRequest'' ''EmptyResponse'' (app_sessionTerminate ah) (ApplicationPeer_sessionTerminate requester)
    \<and> typed_call BABELFORCE_V1_SCHEMAS ''ApplicationMoveRequest'' ''ApplicationMoveResponse'' (voice_applicationMove vh) (VoicePeer_applicationMove requester')
    \<and> typed_call BABELFORCE_V1_SCHEMAS ''AudioBufferClearRequest'' ''AudioBufferClearResponse'' (voice_audioBufferClear vh) (VoicePeer_audioBufferClear requester')
    \<and> typed_call BABELFORCE_V1_SCHEMAS ''CallHangupRequest'' ''EmptyResponse'' (voice_callHangup vh) (VoicePeer_callHangup requester')
    \<and> typed_call BABELFORCE_V1_SCHEMAS ''PingRequest'' ''PingResponse'' (voice_ping vh) (VoicePeer_ping requester')
    \<and> typed_call BABELFORCE_V1_SCHEMAS ''RecordingStartRequest'' ''RecordingStartResponse'' (voice_recordingStart vh) (VoicePeer_recordingStart requester')
    \<and> typed_call BABELFORCE_V1_SCHEMAS ''RecordingStopRequest'' ''EmptyResponse'' (voice_recordingStop vh) (VoicePeer_recordingStop requester')
    \<and> typed_call BABELFORCE_V1_SCHEMAS ''SessionGetRequest'' ''SessionGetResponse'' (voice_sessionGet vh) (VoicePeer_sessionGet requester')
    \<and> typed_call BABELFORCE_V1_SCHEMAS ''SessionSetRequest'' ''EmptyResponse'' (voice_sessionSet vh) (VoicePeer_sessionSet requester')"
  unfolding application_clients voice_clients call_functions
  by (intro conjI babelforce_call [OF assms(1,2)] babelforce_call [OF assms(3,4)];
      simp add: applicationAdapter_def voiceAdapter_def applicationRequestHandlers_def voiceRequestHandlers_def method_names
        call_functions call_types_def)

text \<open>A requester that hands each call to the handler, and two handlers that count what they are asked.\<close>

definition through :: "'s handler \<Rightarrow> 's requester" where
  "through h method w t s =
     (case dispatchRequest h \<lparr>req_method = method, req_payload = embed (or_empty (Some (json_of w)))\<rparr> s of
        (s', Inr (Some d)) \<Rightarrow> (s', Inr (Some (json_of (disp_result d))))
      | (s', Inr None) \<Rightarrow> (s', Inl (JsError ''request handler returned without responding or deferring''))
      | (s', Inl e) \<Rightarrow> (s', Inl e))"

lemma through_relays: "relays h (through h)"
  by (simp add: relays_def through_def)

definition noting :: "string \<Rightarrow> string list operation" where
  "noting name p s = (s @ [name], Inr (embed (JObj [])))"

definition noting_application :: "string list application_handler" where
  "noting_application = \<lparr>app_ping = noting ''ping'', app_sessionInitialize = noting ''initialize'', app_sessionTerminate = noting ''terminate''\<rparr>"

definition noting_voice :: "string list voice_handler" where
  "noting_voice = \<lparr>voice_applicationMove = noting ''move'', voice_audioBufferClear = noting ''clear'', voice_callHangup = noting ''hangup'',
     voice_ping = noting ''ping'', voice_recordingStart = noting ''start'', voice_recordingStop = noting ''stop'',
     voice_sessionGet = noting ''get'', voice_sessionSet = noting ''set''\<rparr>"

definition quiet_application :: "string list application_event_handler" where
  "quiet_application = \<lparr>app_on_audioInfo = (\<lambda>v s. (s, Inr ())), app_on_callHangup = (\<lambda>v s. (s, Inr ())),
     app_on_dtmf = (\<lambda>v s. (s, Inr ())), app_on_sessionUpdated = (\<lambda>v s. (s, Inr ()))\<rparr>"

definition quiet_voice :: "string list voice_event_handler" where
  "quiet_voice = \<lparr>voice_on_agentToolCall = (\<lambda>v s. (s, Inr ())), voice_on_audioSpeechStarted = (\<lambda>v s. (s, Inr ())),
     voice_on_inputTranscript = (\<lambda>v s. (s, Inr ())), voice_on_outputTranscriptDelta = (\<lambda>v s. (s, Inr ())),
     voice_on_outputTranscriptDone = (\<lambda>v s. (s, Inr ()))\<rparr>"

definition noting_handler :: "string list handler" where
  "noting_handler = projr (new_handler (Some (applicationAdapter noting_application quiet_application (unknown EMPTY_ADAPTER))) None None)"

definition noting_voice_handler :: "string list handler" where
  "noting_voice_handler = projr (new_handler (Some (voiceAdapter noting_voice quiet_voice (unknown EMPTY_ADAPTER))) None None)"

lemma noting_handlers:
  "new_handler (Some (applicationAdapter noting_application quiet_application (unknown EMPTY_ADAPTER))) None None = Inr noting_handler"
  "new_handler (Some (voiceAdapter noting_voice quiet_voice (unknown EMPTY_ADAPTER))) None None = Inr noting_voice_handler"
proof -
  have "\<exists>h. new_handler (Some (applicationAdapter noting_application quiet_application (unknown EMPTY_ADAPTER))) None None = Inr h"
    "\<exists>h. new_handler (Some (voiceAdapter noting_voice quiet_voice (unknown EMPTY_ADAPTER))) None None = Inr h"
    by (simp_all add: new_handler_iff applicationAdapter_def voiceAdapter_def applicationRequestHandlers_def
        applicationEventHandlers_def voiceRequestHandlers_def voiceEventHandlers_def method_names event_names)
  then show "new_handler (Some (applicationAdapter noting_application quiet_application (unknown EMPTY_ADAPTER))) None None = Inr noting_handler"
    "new_handler (Some (voiceAdapter noting_voice quiet_voice (unknown EMPTY_ADAPTER))) None None = Inr noting_voice_handler"
    unfolding noting_handler_def noting_voice_handler_def by (metis sum.sel(2))+
qed

theorem typed_clients_reach_their_operation_witness:
  "fst (ApplicationPeer_sessionTerminate (through noting_handler) (embed (JObj [(''reason'', JStr ''bye'')])) []) = [''terminate'']
   \<and> fst (VoicePeer_callHangup (through noting_voice_handler) (embed (JObj [(''reason'', JStr ''bye'')])) []) = [''hangup'']"
proof -
  let ?j = "JObj [(''reason'', JStr ''bye'')]"
  note calls = typed_clients_reach_their_operation [OF noting_handlers(1) through_relays noting_handlers(2) through_relays]
  have v: "validate_as ''SessionTerminateRequest'' BABELFORCE_V1_SCHEMAS (embed ?j) = Some []"
    "validate_as ''CallHangupRequest'' BABELFORCE_V1_SCHEMAS (embed ?j) = Some []"
    "validate_as ''EmptyResponse'' BABELFORCE_V1_SCHEMAS (embed (JObj [])) = Some []" "json_ok ?j" "json_ok (JObj [])" by code_simp+
  have "fst (call (embed ?j) []) = [name]"
    if "typed_call BABELFORCE_V1_SCHEMAS n ''EmptyResponse'' (noting name) call" "validate_as n BABELFORCE_V1_SCHEMAS (embed ?j) = Some []" for n name call
    using that v(3-5) unfolding typed_call_def noting_def by (metis append_Nil fst_conv)
  then show ?thesis using calls v(1,2) by (auto simp: noting_application_def noting_voice_def)
qed

end
