(* ===== verification/Demo_V1.thy ===== *)
theory Demo_V1
  imports Catalog
begin

text \<open>
  The catalog \<open>demo.v1\<close> (\<open>generated/zz_generated_demov1_types.ts\<close>).
\<close>

section \<open>Schemas\<close>

definition DemoEchoRequest_schema :: schema where
  "DemoEchoRequest_schema = [
    (''type'', JStr ''object''),
    (''properties'', JObj [
        (''message'', JObj [(''type'', JStr ''string''), (''description'', JStr ''Text to echo through the application role.''), (''minLength'', JNum (Fin 1))])]),
    (''required'', JArr [JStr ''message''])]"

definition DemoEchoResponse_schema :: schema where
  "DemoEchoResponse_schema = [
    (''type'', JStr ''object''),
    (''properties'', JObj [
        (''message'', JObj [(''type'', JStr ''string''), (''description'', JStr ''Text returned unchanged by the application role.''), (''minLength'', JNum (Fin 1))])]),
    (''required'', JArr [JStr ''message''])]"

definition DemoObservedEvent_schema :: schema where
  "DemoObservedEvent_schema = [
    (''type'', JStr ''object''),
    (''properties'', JObj [
        (''message'', JObj [(''type'', JStr ''string''), (''description'', JStr ''Text observed after a completed echo.''), (''minLength'', JNum (Fin 1))])]),
    (''required'', JArr [JStr ''message''])]"

definition DEMO_V1_SCHEMAS :: registry where
  "DEMO_V1_SCHEMAS = [
    (''DemoEchoRequest'', DemoEchoRequest_schema),
    (''DemoEchoResponse'', DemoEchoResponse_schema),
    (''DemoObservedEvent'', DemoObservedEvent_schema)]"

section \<open>Names\<close>

definition DEMO_V1_CATALOG_ID :: string where "DEMO_V1_CATALOG_ID = ''demo.v1''"
definition METHOD_DEMO_ECHO :: string where "METHOD_DEMO_ECHO = ''demo.echo''"
definition EVENT_DEMO_OBSERVED :: string where "EVENT_DEMO_OBSERVED = ''demo.observed''"

section \<open>The functions of each type\<close>

definition validateDemoEchoRequest :: "wire_value \<Rightarrow> validation_issue list option" where
  "validateDemoEchoRequest = validate_as ''DemoEchoRequest'' DEMO_V1_SCHEMAS"

definition assertDemoEchoRequest :: "wire_value \<Rightarrow> unit result option" where
  "assertDemoEchoRequest = assert_as ''DemoEchoRequest'' DEMO_V1_SCHEMAS"

definition serializeDemoEchoRequest :: "wire_value \<Rightarrow> wire_value result option" where
  "serializeDemoEchoRequest = serialize_as ''DemoEchoRequest'' DEMO_V1_SCHEMAS"

definition encodeDemoEchoRequest :: "wire_value \<Rightarrow> string result option" where
  "encodeDemoEchoRequest = encode_as serializeDemoEchoRequest"

definition decodeDemoEchoRequest :: "json_parse \<Rightarrow> (string \<Rightarrow> bool) \<Rightarrow> string \<Rightarrow> json result option" where
  "decodeDemoEchoRequest = decode_as assertDemoEchoRequest"

definition validateDemoEchoResponse :: "wire_value \<Rightarrow> validation_issue list option" where
  "validateDemoEchoResponse = validate_as ''DemoEchoResponse'' DEMO_V1_SCHEMAS"

definition assertDemoEchoResponse :: "wire_value \<Rightarrow> unit result option" where
  "assertDemoEchoResponse = assert_as ''DemoEchoResponse'' DEMO_V1_SCHEMAS"

definition serializeDemoEchoResponse :: "wire_value \<Rightarrow> wire_value result option" where
  "serializeDemoEchoResponse = serialize_as ''DemoEchoResponse'' DEMO_V1_SCHEMAS"

definition encodeDemoEchoResponse :: "wire_value \<Rightarrow> string result option" where
  "encodeDemoEchoResponse = encode_as serializeDemoEchoResponse"

definition decodeDemoEchoResponse :: "json_parse \<Rightarrow> (string \<Rightarrow> bool) \<Rightarrow> string \<Rightarrow> json result option" where
  "decodeDemoEchoResponse = decode_as assertDemoEchoResponse"

definition validateDemoObservedEvent :: "wire_value \<Rightarrow> validation_issue list option" where
  "validateDemoObservedEvent = validate_as ''DemoObservedEvent'' DEMO_V1_SCHEMAS"

definition assertDemoObservedEvent :: "wire_value \<Rightarrow> unit result option" where
  "assertDemoObservedEvent = assert_as ''DemoObservedEvent'' DEMO_V1_SCHEMAS"

definition serializeDemoObservedEvent :: "wire_value \<Rightarrow> wire_value result option" where
  "serializeDemoObservedEvent = serialize_as ''DemoObservedEvent'' DEMO_V1_SCHEMAS"

definition encodeDemoObservedEvent :: "wire_value \<Rightarrow> string result option" where
  "encodeDemoObservedEvent = encode_as serializeDemoObservedEvent"

definition decodeDemoObservedEvent :: "json_parse \<Rightarrow> (string \<Rightarrow> bool) \<Rightarrow> string \<Rightarrow> json result option" where
  "decodeDemoObservedEvent = decode_as assertDemoObservedEvent"

end
