(* ===== verification/Demo_Roles.thy ===== *)
theory Demo_Roles
  imports Handler Demo_V1
begin

text \<open>
  The roles of \<open>demo.v1\<close> (\<open>generated/zz_generated_demov1_roles.ts\<close>).
\<close>

section \<open>The Application role\<close>

record 's demo_application_handler =
  demo_app_demoEcho :: "'s operation"

definition DEMO_APPLICATION_HANDLER_METHODS :: "string list" where
  "DEMO_APPLICATION_HANDLER_METHODS = [METHOD_DEMO_ECHO]"

definition demo_applicationRequestHandlers :: "'s demo_application_handler \<Rightarrow> 's request_registration list" where
  "demo_applicationRequestHandlers handler = [
    \<lparr>reg_method = METHOD_DEMO_ECHO, reg_terminal = False, reg_handle = typed_handle assertDemoEchoRequest serializeDemoEchoResponse (demo_app_demoEcho handler)\<rparr>]"

definition demo_applicationEventHandlers :: "'s event_registration list" where
  "demo_applicationEventHandlers = []"

definition demo_applicationAdapter :: "'s demo_application_handler \<Rightarrow> 's unknown_hooks \<Rightarrow> 's role_adapter" where
  "demo_applicationAdapter handler hooks = \<lparr>requests = demo_applicationRequestHandlers handler, events = demo_applicationEventHandlers, unknown = hooks\<rparr>"

definition demo_ApplicationPeer_demoEcho :: "'s requester \<Rightarrow> wire_value \<Rightarrow> ('s, json) action" where
  "demo_ApplicationPeer_demoEcho requester = peer_call requester serializeDemoEchoRequest METHOD_DEMO_ECHO False assertDemoEchoResponse"

definition demo_ApplicationEvents_demoObserved :: "'s notifier \<Rightarrow> wire_value \<Rightarrow> ('s, unit) action" where
  "demo_ApplicationEvents_demoObserved notifier = peer_notify notifier EVENT_DEMO_OBSERVED serializeDemoObservedEvent"

section \<open>The Voice role\<close>

definition DEMO_VOICE_HANDLER_METHODS :: "string list" where
  "DEMO_VOICE_HANDLER_METHODS = []"

definition demo_voiceRequestHandlers :: "'s request_registration list" where
  "demo_voiceRequestHandlers = []"

record 's demo_voice_event_handler =
  demo_voice_on_demoObserved :: "'s observer"

definition demo_voiceEventHandlers :: "'s demo_voice_event_handler \<Rightarrow> 's event_registration list" where
  "demo_voiceEventHandlers handler = [
    \<lparr>reg_event = EVENT_DEMO_OBSERVED, reg_observe = typed_observe assertDemoObservedEvent (demo_voice_on_demoObserved handler)\<rparr>]"

definition demo_voiceAdapter :: "'s demo_voice_event_handler \<Rightarrow> 's unknown_hooks \<Rightarrow> 's role_adapter" where
  "demo_voiceAdapter eventHandler hooks = \<lparr>requests = demo_voiceRequestHandlers, events = demo_voiceEventHandlers eventHandler, unknown = hooks\<rparr>"

end
