(* ===== verification/Session.thy ===== *)
theory Session
  imports Handler Audio
begin

text \<open>
  \<open>session.ts\<close>: the state of a session and its operations.  Between two \<open>await\<close>s the code runs without
  interruption, so each piece between them is a function on the session.  The transport and the
  envelope are interfaces: their results are parameters of the configuration or of the operation that
  awaits them.  Promises are known by numbers; the session keeps a log of the ones it settles, of the
  texts it hands to the transport and of the replies it sends.
\<close>

named_theorems session_defs \<open>definitions of the session operations\<close>

section \<open>Session states\<close>

datatype session_state = Inactive | Connecting | Active | Closing | Closed | Failed

fun state_text :: "session_state \<Rightarrow> string" where
  "state_text Inactive = ''inactive''"
| "state_text Connecting = ''connecting''"
| "state_text Active = ''active''"
| "state_text Closing = ''closing''"
| "state_text Closed = ''closed''"
| "state_text Failed = ''failed''"

text \<open>The order in which a session passes through its states.\<close>

fun state_rank :: "session_state \<Rightarrow> nat" where
  "state_rank Inactive = 0"
| "state_rank Connecting = 1"
| "state_rank Active = 2"
| "state_rank Closing = 3"
| "state_rank Closed = 4"
| "state_rank Failed = 5"

lemma state_rank_inj [simp]: "state_rank x = state_rank y \<longleftrightarrow> x = y"
  by (cases x; cases y) simp_all

instantiation session_state :: linorder
begin

definition less_eq_session_state :: "session_state \<Rightarrow> session_state \<Rightarrow> bool" where
  "x \<le> y \<longleftrightarrow> state_rank x \<le> state_rank y"

definition less_session_state :: "session_state \<Rightarrow> session_state \<Rightarrow> bool" where
  "x < y \<longleftrightarrow> state_rank x < state_rank y"

instance
  by standard (auto simp: less_eq_session_state_def less_session_state_def)

end

section \<open>State\<close>

text \<open>A pending request: its promise, what its timer says, and the signal it listens to.\<close>

record pending =
  pd_promise :: nat
  pd_method :: string
  pd_timeoutMs :: nat
  pd_terminal :: bool
  pd_signal :: "nat option"

datatype reply_status = Unclaimed | Deferred | Sent

record reply =
  rp_requestId :: string
  rp_status :: reply_status

text \<open>
  Where a worker is: the reader waits for the transport (\<open>Running\<close>) or for room in the dispatch queue;
  the dispatcher is about to take a frame (\<open>Running\<close>), waits for one, or handles one.
\<close>

datatype worker = NotStarted | Running | Blocked nat | Handling "json control_frame" | Ended

text \<open>Where \<open>#supervise\<close> is: the \<open>await\<close> it has reached.\<close>

datatype phase = PIdle | PConnecting | PBeginning | PActive | PAudio | PTransport | PWorkers | PDone

datatype ready = Unsettled | ReadyResolved | ReadyRejected thrown

record session =
  s_id :: string
  s_requestTimeoutMs :: nat
  s_closeTimeoutMs :: nat
  s_state :: session_state
  s_dispatch :: "json control_frame queue"
  s_pending :: "(string \<times> pending) list"
  s_audio :: audio_stream
  s_connected :: bool
  s_sequence :: nat
  s_aborted :: "thrown option"
  s_stopCause :: "thrown option"
  s_stopFailed :: bool
  s_ready :: ready
  s_phase :: phase
  s_parent :: bool
  s_run :: "unit result option"
  s_reader :: worker
  s_dispatcher :: worker
  s_next :: nat
  s_replies :: "reply list"
  s_sending :: "(string \<times> nat \<times> unit result) list"
  s_settled :: "(nat \<times> json option result) list"
  s_sent :: "string list"
  s_responses :: "nat list"

text \<open>The context of a handler: the session and the reply of the request it answers, if any.\<close>

record ctx =
  cx_session :: session
  cx_reply :: "nat option"

text \<open>
  The configuration that stays fixed.  \<open>cf_send\<close> gives the outcome of the n-th text handed to the
  control channel; the flags say what the transport offers.
\<close>

record session_config =
  cf_encode :: "wire_value control_frame \<Rightarrow> string result"
  cf_decode :: "string \<Rightarrow> json control_frame result"
  cf_handler :: "ctx handler"
  cf_send :: "nat \<Rightarrow> string \<Rightarrow> unit result"
  cf_transport :: bool
  cf_keepalive :: "keepalive_policy option"
  cf_supportsKeepalive :: bool
  cf_monitorKeepalive :: bool

record request_options =
  ro_signal :: signal
  ro_terminal :: bool
  ro_timeoutMs :: "js_number option"

abbreviation session_closed :: thrown where
  "session_closed \<equiv> session_error ''closed'' ''session is closed''"

section \<open>Construction\<close>

definition positiveTimeout :: "js_number \<Rightarrow> string \<Rightarrow> nat result" where
  "positiveTimeout v name =
     (case positive_safe v of
        None \<Rightarrow> Inl (session_error ''configuration'' (name @ '' must be a positive safe integer''))
      | Some n \<Rightarrow> Inr n)"

text \<open>The optional parts of \<open>SessionConfig\<close>; \<open>now\<close> is \<open>Date.now()\<close>.\<close>

record session_options =
  so_envelope :: bool
  so_transport :: bool
  so_transportFactory :: bool
  so_id :: "string option"
  so_requestTimeoutMs :: "js_number option"
  so_closeTimeoutMs :: "js_number option"
  so_dispatchCapacity :: "js_number option"
  so_audioBufferBytes :: "js_number option"
  so_keepalive :: "keepalive_policy option"

abbreviation or_default :: "js_number option \<Rightarrow> int \<Rightarrow> js_number" where
  "or_default x n \<equiv> (case x of None \<Rightarrow> jsInt n | Some v \<Rightarrow> v)"

definition new_session :: "nat \<Rightarrow> session_options \<Rightarrow> session result" where
  "new_session now opts =
     (if \<not> so_envelope opts then Inl (session_error ''configuration'' ''envelope is required'')
      else if so_transport opts = so_transportFactory opts
      then Inl (session_error ''configuration'' ''provide exactly one transport or transport factory'')
      else
        bindR (positiveTimeout (or_default (so_requestTimeoutMs opts) 30000) ''request timeout'') (\<lambda>rt.
        bindR (positiveTimeout (or_default (so_closeTimeoutMs opts) 5000) ''close timeout'') (\<lambda>ct.
        bindR (validateKeepalive (so_keepalive opts)) (\<lambda>_.
        bindR (new_queue (or_default (so_dispatchCapacity opts) 256)) (\<lambda>q.
        bindR (new_audio (so_audioBufferBytes opts)) (\<lambda>a.
        Inr \<lparr>s_id = (case so_id opts of Some i \<Rightarrow> i | None \<Rightarrow> ''ts-'' @ nat_text 36 now),
             s_requestTimeoutMs = rt, s_closeTimeoutMs = ct, s_state = Inactive, s_dispatch = q, s_pending = [],
             s_audio = a, s_connected = False, s_sequence = 0, s_aborted = None, s_stopCause = None,
             s_stopFailed = False, s_ready = Unsettled, s_phase = PIdle, s_parent = False, s_run = None,
             s_reader = NotStarted, s_dispatcher = NotStarted, s_next = 0, s_replies = [], s_sending = [],
             s_settled = [], s_sent = [], s_responses = []\<rparr>))))))"

section \<open>Stopping\<close>

fun end_blocked :: "worker \<Rightarrow> worker" where
  "end_blocked (Blocked _) = Ended"
| "end_blocked w = w"

text \<open>
  The first call aborts the signal of the session: the workers that wait in the dispatch queue are
  rejected and end.  Later calls only add a failure.
\<close>

definition requestStop :: "thrown option \<Rightarrow> bool \<Rightarrow> session \<Rightarrow> session" where
  "requestStop cause failed s =
     (case s_aborted s of
        Some _ \<Rightarrow>
          if failed
          then s\<lparr>s_stopCause := (case s_stopCause s of None \<Rightarrow> cause | Some c \<Rightarrow> Some c), s_stopFailed := True\<rparr>
          else s
      | None \<Rightarrow>
          s\<lparr>s_stopCause := cause, s_stopFailed := failed,
            s_state := (if s_state s = Inactive then Inactive else Closing),
            s_aborted := Some (abort_reason cause),
            s_dispatch := fst (on_abort 0 (abort_reason cause) (s_dispatch s)),
            s_reader := end_blocked (s_reader s), s_dispatcher := end_blocked (s_dispatcher s)\<rparr>)"

definition own_signal :: "session \<Rightarrow> signal" where
  "own_signal s = (case s_aborted s of None \<Rightarrow> LiveSignal 0 | Some r \<Rightarrow> AbortedSignal r)"

section \<open>Sending\<close>

definition requireConnected :: "session \<Rightarrow> unit result" where
  "requireConnected s =
     guardR (s_state s = Connecting \<or> s_state s = Active)
       (session_error ''inactive'' (''session is '' @ state_text (s_state s)))"

definition sendFrame :: "session_config \<Rightarrow> wire_value control_frame \<Rightarrow> session \<Rightarrow> session \<times> unit result" where
  "sendFrame cfg frame s =
     (if s_aborted s \<noteq> None \<or> s_state s = Closing \<or> s_state s = Closed \<or> s_state s = Failed
      then (s, Inl session_closed)
      else (case cf_encode cfg frame of
          Inl e \<Rightarrow> (s, Inl e)
        | Inr t \<Rightarrow>
            if \<not> s_connected s then (s, Inl (session_error ''inactive'' ''transport is not connected''))
            else (s\<lparr>s_sent := s_sent s @ [t]\<rparr>, cf_send cfg (length (s_sent s)) t)))"

text \<open>The sequence number is a binary64 number: from \<open>2 ^ 53\<close> on adding one changes nothing.\<close>

definition next_sequence :: "nat \<Rightarrow> nat" where
  "next_sequence n = (case to_double (of_nat n + 1) of Fin r \<Rightarrow> nat \<lfloor>r\<rfloor> | _ \<Rightarrow> n)"

definition nextId :: "session \<Rightarrow> string \<times> session" where
  "nextId s = (let n = next_sequence (s_sequence s) in (s_id s @ ''-'' @ nat_text 36 n, s\<lparr>s_sequence := n\<rparr>))"

section \<open>Requests and their settlement\<close>

definition settle :: "nat \<Rightarrow> json option result \<Rightarrow> session \<Rightarrow> session" where
  "settle p r s = s\<lparr>s_settled := s_settled s @ [(p, r)]\<rparr>"

definition delete_pending :: "string \<Rightarrow> session \<Rightarrow> session" where
  "delete_pending i s = s\<lparr>s_pending := filter (\<lambda>e. fst e \<noteq> i) (s_pending s)\<rparr>"

definition completePending :: "string \<Rightarrow> json option \<Rightarrow> wire_error option \<Rightarrow> session \<Rightarrow> session" where
  "completePending cid res err s =
     (case map_of (s_pending s) cid of
        None \<Rightarrow> s
      | Some p \<Rightarrow>
          (let s1 = settle (pd_promise p) (case err of Some e \<Rightarrow> Inl (RemoteError e) | None \<Rightarrow> Inr res) (delete_pending cid s)
           in if pd_terminal p then requestStop None False s1 else s1))"

definition cancelPending :: "string \<Rightarrow> nat \<Rightarrow> thrown \<Rightarrow> session \<Rightarrow> session" where
  "cancelPending i expected e s =
     (case map_of (s_pending s) i of
        None \<Rightarrow> s
      | Some p \<Rightarrow> if pd_promise p \<noteq> expected then s else settle expected (Inl e) (delete_pending i s))"

definition failPending :: "thrown \<Rightarrow> session \<Rightarrow> session" where
  "failPending e s = s\<lparr>s_pending := [], s_settled := s_settled s @ map (\<lambda>(i, p). (pd_promise p, Inl e)) (s_pending s)\<rparr>"

text \<open>
  \<open>request\<close> up to its first \<open>await\<close>: it throws, or its promise waits and the send is under way.  The
  timer and the listener that a duplicate id leaves behind cancel nothing, since the map does not hold
  that pending request.
\<close>

definition request ::
  "session_config \<Rightarrow> string \<Rightarrow> wire_value \<Rightarrow> request_options \<Rightarrow> session \<Rightarrow> session \<times> unit outcome" where
  "request cfg method params opts s =
     (case bindR (requireConnected s) (\<lambda>_. throwIfAborted (ro_signal opts)) of
        Inl e \<Rightarrow> (s, Threw e)
      | Inr _ \<Rightarrow>
          if method = [] then (s, Threw (session_error ''configuration'' ''request method is required''))
          else (case nextId s of (i, s1) \<Rightarrow>
            (case positiveTimeout (case ro_timeoutMs opts of None \<Rightarrow> jsInt (int (s_requestTimeoutMs s1)) | Some t \<Rightarrow> t) ''request timeout'' of
               Inl e \<Rightarrow> (s1, Threw e)
             | Inr t \<Rightarrow>
                 (let p = s_next s1; s2 = s1\<lparr>s_next := Suc p\<rparr>;
                      pnd = \<lparr>pd_promise = p, pd_method = method, pd_timeoutMs = t, pd_terminal = ro_terminal opts,
                             pd_signal = signal_id (ro_signal opts)\<rparr>
                  in if map_of (s_pending s2) i \<noteq> None
                     then (s2, Threw (session_error ''request_duplicate'' (''duplicate request id '' @ quoted i)))
                     else (case sendFrame cfg (Request i method (Some params)) (s2\<lparr>s_pending := s_pending s2 @ [(i, pnd)]\<rparr>) of
                         (s3, r) \<Rightarrow> (s3\<lparr>s_sending := s_sending s3 @ [(i, p, r)]\<rparr>, Waiting p))))))"

text \<open>The send of a request settles; a failure cancels the request.\<close>

definition send_settled :: "nat \<Rightarrow> session \<Rightarrow> session" where
  "send_settled k s =
     (if k < length (s_sending s)
      then (case s_sending s ! k of (i, p, r) \<Rightarrow>
        (let s1 = s\<lparr>s_sending := take k (s_sending s) @ drop (Suc k) (s_sending s)\<rparr>
         in case r of Inr _ \<Rightarrow> s1 | Inl e \<Rightarrow> cancelPending i p e s1))
      else s)"

definition timer_fired :: "string \<Rightarrow> session \<Rightarrow> session" where
  "timer_fired i s =
     (case map_of (s_pending s) i of
        None \<Rightarrow> s
      | Some p \<Rightarrow> cancelPending i (pd_promise p)
          (session_error ''request_timeout'' (''request '' @ quoted (pd_method p) @ '' timed out after '' @ nat_text 10 (pd_timeoutMs p) @ ''ms'')) s)"

definition signal_fired :: "nat \<Rightarrow> thrown \<Rightarrow> session \<Rightarrow> session" where
  "signal_fired g reason s =
     foldl (\<lambda>t (i, p). if pd_signal p = Some g
        then cancelPending i (pd_promise p) (SessionError ''aborted'' ''request aborted'' (Some reason)) t else t) s (s_pending s)"

definition notify :: "session_config \<Rightarrow> string \<Rightarrow> wire_value \<Rightarrow> signal \<Rightarrow> session \<Rightarrow> session \<times> unit result" where
  "notify cfg event data sig s =
     (case bindR (requireConnected s) (\<lambda>_. throwIfAborted sig) of
        Inl e \<Rightarrow> (s, Inl e)
      | Inr _ \<Rightarrow>
          if event = [] then (s, Inl (session_error ''configuration'' ''event name is required''))
          else (case nextId s of (i, s1) \<Rightarrow> sendFrame cfg (Event i event (Some data)) s1))"

section \<open>Replies\<close>

definition requireReply :: "nat option \<Rightarrow> session \<Rightarrow> (nat \<times> reply) result" where
  "requireReply ref s =
     (case ref of
        None \<Rightarrow> Inl (session_error ''no_request_context'' ''there is no inbound request to respond to'')
      | Some k \<Rightarrow>
          if length (s_replies s) \<le> k then Inl (session_error ''no_request_context'' ''there is no inbound request to respond to'')
          else if s_state s = Closing \<or> s_state s = Closed \<or> s_state s = Failed then Inl session_closed
          else Inr (k, s_replies s ! k))"

definition sendResponse ::
  "session_config \<Rightarrow> string \<Rightarrow> wire_value option \<Rightarrow> wire_error option \<Rightarrow> session \<Rightarrow> session \<times> unit result" where
  "sendResponse cfg cid res err s = sendFrame cfg (Response cid res err) s"

definition respond_with ::
  "session_config \<Rightarrow> wire_value option \<Rightarrow> wire_error option \<Rightarrow> bool \<Rightarrow> nat option \<Rightarrow> session \<Rightarrow> session \<times> unit result" where
  "respond_with cfg res err closeAfter ref s =
     (case requireReply ref s of
        Inl e \<Rightarrow> (s, Inl e)
      | Inr (k, rp) \<Rightarrow>
          if rp_status rp = Sent then (s, Inl (session_error ''response_sent'' ''response is already sent''))
          else (let s1 = s\<lparr>s_replies := (s_replies s)[k := rp\<lparr>rp_status := Sent\<rparr>], s_responses := s_responses s @ [k]\<rparr> in
            case sendResponse cfg (rp_requestId rp) res err s1 of
              (s2, Inl e) \<Rightarrow> (s2, Inl e)
            | (s2, Inr _) \<Rightarrow> (if closeAfter then requestStop None False s2 else s2, Inr ())))"

definition deferResponse :: "nat option \<Rightarrow> session \<Rightarrow> session \<times> unit result" where
  "deferResponse ref s =
     (case requireReply ref s of
        Inl e \<Rightarrow> (s, Inl e)
      | Inr (k, rp) \<Rightarrow>
          if rp_status rp \<noteq> Unclaimed then (s, Inl (session_error ''response_sent'' ''response is already claimed''))
          else (s\<lparr>s_replies := (s_replies s)[k := rp\<lparr>rp_status := Deferred\<rparr>]\<rparr>, Inr ()))"

definition responseError :: "thrown \<Rightarrow> wire_error" where
  "responseError e = (case e of ProtocolHandlerError w \<Rightarrow> w | _ \<Rightarrow> wire_failure 500 (error_text e))"

section \<open>Audio\<close>

text \<open>
  \<open>openAudio\<close> and \<open>acceptAudio\<close> check the session, await the channel of the transport and bind it; an
  accepted channel with another id is closed by the transport and refused.
\<close>

definition audio_allowed :: "session \<Rightarrow> unit result" where
  "audio_allowed s = bindR (requireConnected s) (\<lambda>_.
     guardR (s_connected s) (session_error ''inactive'' ''transport is not connected''))"

definition audio_opened :: "media_channel result \<Rightarrow> session \<Rightarrow> session \<times> unit result" where
  "audio_opened r s =
     (case r of Inl e \<Rightarrow> (s, Inl e)
      | Inr ch \<Rightarrow> (case bind_audio ch (s_audio s) of (a, r') \<Rightarrow> (s\<lparr>s_audio := a\<rparr>, r')))"

definition audio_accepted :: "media_channel result \<Rightarrow> session \<Rightarrow> session \<times> unit result" where
  "audio_accepted r s =
     (case r of Inl e \<Rightarrow> (s, Inl e)
      | Inr ch \<Rightarrow>
          if channel_id ch \<noteq> ''audio''
          then (s, Inl (session_error ''media_channel'' (''unexpected media channel '' @ quoted (channel_id ch))))
          else audio_opened (Inr ch) s)"

section \<open>Workers\<close>

definition worker_failed :: "string \<Rightarrow> thrown \<Rightarrow> session \<Rightarrow> session" where
  "worker_failed code e s =
     (if s_aborted s \<noteq> None then s
      else if session_code (asSessionError e code) = Some ''closed'' then requestStop None False s
      else requestStop (Some (asSessionError e code)) True s)"

definition worker_finished :: "string \<Rightarrow> session \<Rightarrow> session" where
  "worker_finished code s =
     (if s_aborted s \<noteq> None then s
      else requestStop (Some (session_error code (code @ '' worker stopped unexpectedly''))) True s)"

text \<open>Promises of the dispatch queue that an operation settles wake the workers that wait for them.\<close>

fun wake :: "session \<Rightarrow> json control_frame effect \<Rightarrow> session" where
  "wake s (ResolveReader w f) = (if s_dispatcher s = Blocked w then s\<lparr>s_dispatcher := Handling f\<rparr> else s)"
| "wake s (ResolveWriter w f) = (if s_reader s = Blocked w then s\<lparr>s_reader := Running\<rparr> else s)"
| "wake s (RejectReader w e) = (if s_dispatcher s = Blocked w then worker_failed ''dispatch'' e (s\<lparr>s_dispatcher := Ended\<rparr>) else s)"
| "wake s (RejectWriter w e) = (if s_reader s = Blocked w then worker_failed ''control_read'' e (s\<lparr>s_reader := Ended\<rparr>) else s)"

definition reader_loop :: "session \<Rightarrow> session" where
  "reader_loop s = (if s_aborted s \<noteq> None then s\<lparr>s_reader := Ended\<rparr> else s\<lparr>s_reader := Running\<rparr>)"

text \<open>One turn of \<open>#readControl\<close>, on a text that the control channel delivered.\<close>

definition receive_text :: "session_config \<Rightarrow> string \<Rightarrow> session \<Rightarrow> session" where
  "receive_text cfg t s =
     (if s_reader s \<noteq> Running then s
      else (case cf_decode cfg t of
          Inl _ \<Rightarrow> reader_loop s
        | Inr (Response c r e) \<Rightarrow> reader_loop (completePending c r e s)
        | Inr f \<Rightarrow>
            (case push (s_next s) f (own_signal s) (s_dispatch s) of (out, q, es) \<Rightarrow>
               (let s1 = foldl wake (s\<lparr>s_dispatch := q, s_next := Suc (s_next s)\<rparr>) es in
                case out of
                  Returned _ \<Rightarrow> reader_loop s1
                | Waiting w \<Rightarrow> s1\<lparr>s_reader := Blocked w\<rparr>
                | Threw e \<Rightarrow> worker_failed ''control_read'' e (s1\<lparr>s_reader := Ended\<rparr>)))))"

definition receive_failed :: "thrown \<Rightarrow> session \<Rightarrow> session" where
  "receive_failed e s = (if s_reader s \<noteq> Running then s else worker_failed ''control_read'' e (s\<lparr>s_reader := Ended\<rparr>))"

text \<open>The head of the loop of \<open>#dispatchControl\<close>.\<close>

definition dispatch_take :: "session \<Rightarrow> session" where
  "dispatch_take s =
     (if s_dispatcher s \<noteq> Running then s
      else if s_aborted s \<noteq> None then s\<lparr>s_dispatcher := Ended\<rparr>
      else (case shift (s_next s) (own_signal s) (s_dispatch s) of (out, q, es) \<Rightarrow>
        (let s1 = foldl wake (s\<lparr>s_dispatch := q, s_next := Suc (s_next s)\<rparr>) es in
         case out of
           Returned f \<Rightarrow> s1\<lparr>s_dispatcher := Handling f\<rparr>
         | Waiting w \<Rightarrow> s1\<lparr>s_dispatcher := Blocked w\<rparr>
         | Threw e \<Rightarrow> worker_failed ''dispatch'' e (s1\<lparr>s_dispatcher := Ended\<rparr>))))"

end
