(* ===== verification/Session_Run.thy ===== *)
theory Session_Run
  imports Session
begin

text \<open>
  The life of a session: \<open>#supervise\<close> cut at its \<open>await\<close>s, the handling of inbound frames, and the turns
  of the event loop that change a session.
\<close>

section \<open>Supervision\<close>

definition record_failure :: "thrown \<Rightarrow> session \<Rightarrow> session" where
  "record_failure e s =
     s\<lparr>s_stopCause := (case s_stopCause s of None \<Rightarrow> Some e | Some c \<Rightarrow> Some c), s_stopFailed := True\<rparr>"

text \<open>The \<open>finally\<close> block up to the close of the audio stream.\<close>

definition finalise :: "session \<Rightarrow> session" where
  "finalise s =
     (let s1 = (if s_aborted s = None then requestStop None False s else s)\<lparr>s_parent := False\<rparr>;
          (q, es) = close (s_dispatch s1);
          s2 = foldl wake (s1\<lparr>s_dispatch := q\<rparr>) es;
          s3 = failPending (case s_stopCause s2 of None \<Rightarrow> session_closed | Some c \<Rightarrow> c) s2;
          a = s_audio s3
      in s3\<lparr>s_audio := (if au_closed a then a else fst (audio_close_start a)), s_phase := PAudio\<rparr>)"

text \<open>The \<open>catch\<close> block, then the \<open>finally\<close> block.\<close>

definition supervise_failed :: "thrown \<Rightarrow> session \<Rightarrow> session" where
  "supervise_failed e s =
     (let s1 = (if s_aborted s = None then requestStop (Some e) True s else s);
          s2 = (if s_state s1 = Connecting \<and> s_ready s1 = Unsettled then s1\<lparr>s_ready := ReadyRejected e\<rparr> else s1)
      in finalise s2)"

abbreviation stopped_starting :: thrown where
  "stopped_starting \<equiv> session_error ''closed'' ''session stopped while starting''"

definition transport_connected :: "session_config \<Rightarrow> session \<Rightarrow> session" where
  "transport_connected cfg s =
     (let w = (if s_aborted s = None then Running else Ended);
          s1 = s\<lparr>s_connected := True, s_reader := w, s_dispatcher := w\<rparr>
      in if cf_supportsKeepalive cfg \<and> cf_keepalive cfg \<noteq> None \<and> \<not> cf_monitorKeepalive cfg
         then supervise_failed (session_error ''configuration'' ''transport declares keepalive without a monitor'') s1
         else s1\<lparr>s_phase := PBeginning\<rparr>)"

definition run_session :: "session_config \<Rightarrow> signal \<Rightarrow> session \<Rightarrow> session \<times> unit result" where
  "run_session cfg sig s =
     (if s_phase s \<noteq> PIdle then (s, Inl (session_error ''already_run'' ''session has already run''))
      else (let s1 = s\<lparr>s_state := Connecting, s_parent := (sig \<noteq> NoSignal)\<rparr> in
        case throwIfAborted sig of
          Inl e \<Rightarrow> (supervise_failed e s1, Inr ())
        | Inr _ \<Rightarrow> (if cf_transport cfg then transport_connected cfg s1 else s1\<lparr>s_phase := PConnecting\<rparr>, Inr ())))"

definition transport_result :: "session_config \<Rightarrow> unit result \<Rightarrow> session \<Rightarrow> session" where
  "transport_result cfg r s =
     (if s_phase s \<noteq> PConnecting then s
      else (case r of Inl e \<Rightarrow> supervise_failed e s | Inr _ \<Rightarrow> transport_connected cfg s))"

text \<open>The race between \<open>begin\<close> and the stop of the session.\<close>

definition began :: "unit result \<Rightarrow> session \<Rightarrow> session" where
  "began r s =
     (if s_phase s \<noteq> PBeginning then s
      else (case r of
          Inl e \<Rightarrow> supervise_failed e s
        | Inr _ \<Rightarrow>
            if s_aborted s \<noteq> None then supervise_failed stopped_starting s
            else s\<lparr>s_state := Active, s_ready := ReadyResolved, s_phase := PActive\<rparr>))"

definition stop_seen :: "session \<Rightarrow> session" where
  "stop_seen s =
     (if s_aborted s = None then s
      else if s_phase s = PBeginning then supervise_failed stopped_starting s
      else if s_phase s = PActive then finalise s
      else s)"

definition audio_close_done :: "unit result \<Rightarrow> session \<Rightarrow> session" where
  "audio_close_done r s =
     (if s_phase s \<noteq> PAudio then s
      else (case r of
          Inl e \<Rightarrow> record_failure e s
        | Inr _ \<Rightarrow> s\<lparr>s_audio := (s_audio s)\<lparr>au_partial := []\<rparr>\<rparr>)
        \<lparr>s_phase := (if s_connected s then PTransport else PWorkers)\<rparr>)"

definition transport_close_done :: "unit race_event \<Rightarrow> session \<Rightarrow> session" where
  "transport_close_done ev s =
     (if s_phase s \<noteq> PTransport then s
      else (case race_result ''close_timeout'' ''transport close timed out'' ev of
          Inl e \<Rightarrow> record_failure e s | Inr _ \<Rightarrow> s)\<lparr>s_phase := PWorkers\<rparr>)"

text \<open>\<open>Promise.allSettled\<close> resolves when every worker has ended; it never rejects.\<close>

definition workers_ended :: "session \<Rightarrow> bool" where
  "workers_ended s \<longleftrightarrow> s_reader s \<in> {NotStarted, Ended} \<and> s_dispatcher s \<in> {NotStarted, Ended}"

definition run_outcome :: "session \<Rightarrow> unit result" where
  "run_outcome s =
     (if s_stopFailed s
      then Inl (case s_stopCause s of None \<Rightarrow> session_error ''session_failed'' ''undefined'' | Some c \<Rightarrow> asSessionError c ''session_failed'')
      else Inr ())"

definition workers_done :: "bool \<Rightarrow> session \<Rightarrow> session" where
  "workers_done timed_out s =
     (if s_phase s \<noteq> PWorkers \<or> (\<not> timed_out \<and> \<not> workers_ended s) then s
      else (let s1 = (if timed_out then record_failure (session_error ''close_timeout'' ''session workers did not stop'') s else s)
            in s1\<lparr>s_state := (if s_stopFailed s1 then Failed else Closed), s_phase := PDone, s_run := Some (run_outcome s1)\<rparr>))"

definition parent_aborts :: "thrown \<Rightarrow> session \<Rightarrow> session" where
  "parent_aborts e s = (if s_parent s then requestStop (Some e) False s else s)"

definition close_session :: "session \<Rightarrow> session \<times> unit result" where
  "close_session s =
     (if s_phase s = PIdle then (s, Inl (session_error ''closed'' ''session has not run''))
      else (requestStop None False s, Inr ()))"

text \<open>\<open>onError\<close> of the audio stream, as the constructor of the session passes it.\<close>

definition audio_error :: "thrown \<Rightarrow> session \<Rightarrow> session" where
  "audio_error e s =
     (if session_code e = Some ''closed'' then requestStop None False s else requestStop (Some e) True s)"

section \<open>Handling frames\<close>

definition reply_status_of :: "nat \<Rightarrow> session \<Rightarrow> reply_status" where
  "reply_status_of k s = (if k < length (s_replies s) then rp_status (s_replies s ! k) else Unclaimed)"

text \<open>The \<open>try\<close> block of \<open>#handleRequest\<close> after the dispatch, and its \<open>catch\<close> block.\<close>

definition answer_dispatched ::
  "session_config \<Rightarrow> nat \<Rightarrow> request_dispatch option result \<Rightarrow> session \<Rightarrow> session \<times> unit result" where
  "answer_dispatched cfg k r s =
     (case r of
        Inl e \<Rightarrow> (s, Inl e)
      | Inr d \<Rightarrow>
          if reply_status_of k s = Unclaimed
          then (case d of
              Some x \<Rightarrow> respond_with cfg (Some (disp_result x)) None (disp_terminal x) (Some k) s
            | None \<Rightarrow> (s, Inl (JsError ''request handler returned without responding or deferring'')))
          else (s, Inr ()))"

definition answer_failure :: "session_config \<Rightarrow> nat \<Rightarrow> thrown \<Rightarrow> session \<Rightarrow> session" where
  "answer_failure cfg k e s =
     (if reply_status_of k s = Sent then s
      else (case respond_with cfg None (Some (responseError e)) False (Some k) s of
          (t, Inr _) \<Rightarrow> t
        | (t, Inl f) \<Rightarrow> if s_aborted t = None then requestStop (Some f) True t else t))"

definition handleRequest :: "session_config \<Rightarrow> string \<Rightarrow> string \<Rightarrow> json option \<Rightarrow> session \<Rightarrow> session" where
  "handleRequest cfg i m p s =
     (let k = length (s_replies s);
          c0 = \<lparr>cx_session = s\<lparr>s_replies := s_replies s @ [\<lparr>rp_requestId = i, rp_status = Unclaimed\<rparr>]\<rparr>, cx_reply = Some k\<rparr>;
          (c1, r) = dispatchRequest (cf_handler cfg) \<lparr>req_method = m, req_payload = embed (or_empty p)\<rparr> c0
      in (case answer_dispatched cfg k r (cx_session c1) of
            (t, Inr _) \<Rightarrow> t
          | (t, Inl e) \<Rightarrow> answer_failure cfg k e t))"

definition handleEvent :: "session_config \<Rightarrow> string \<Rightarrow> json option \<Rightarrow> session \<Rightarrow> session" where
  "handleEvent cfg ev d s =
     cx_session (fst (dispatchEvent (cf_handler cfg) \<lparr>ev_event = ev, ev_data = embed (or_empty d)\<rparr> \<lparr>cx_session = s, cx_reply = None\<rparr>))"

text \<open>The body of the loop of \<open>#dispatchControl\<close> and the test of its condition.\<close>

definition handle_frame :: "session_config \<Rightarrow> json control_frame \<Rightarrow> session \<Rightarrow> session" where
  "handle_frame cfg f s =
     (let s1 = (case f of Request i m p \<Rightarrow> handleRequest cfg i m p s | Event i e d \<Rightarrow> handleEvent cfg e d s | Response c r e \<Rightarrow> s)
      in s1\<lparr>s_dispatcher := (if s_aborted s1 = None then Running else Ended)\<rparr>)"

section \<open>Turns\<close>

text \<open>
  What the event loop, the transport and the users of a session can do to it: calls of its methods,
  from anywhere, and the continuations of its \<open>await\<close>s.  A turn that is not enabled changes nothing.
\<close>

datatype turn =
    TRun signal
  | TClose
  | TStop "thrown option" bool
  | TParentAborts thrown
  | TTransport "unit result"
  | TBegan "unit result"
  | TStopSeen
  | TAudioClosed "unit result"
  | TTransportClosed "unit race_event"
  | TWorkersStopped bool
  | TWorkerEnds string "unit result"
  | TRequest string wire_value request_options
  | TNotify string wire_value signal
  | TSendSettled nat
  | TTimer string
  | TSignal nat thrown
  | TReceive string
  | TReceiveFails thrown
  | TTake
  | TRespond nat "wire_value option" "wire_error option" bool
  | TDefer nat
  | TAudioOpened media_channel
  | TAudioAccepted media_channel
  | TAudioFails thrown

fun base_turn :: "session_config \<Rightarrow> turn \<Rightarrow> session \<Rightarrow> session" where
  "base_turn cfg (TRun sig) s = fst (run_session cfg sig s)"
| "base_turn cfg TClose s = fst (close_session s)"
| "base_turn cfg (TStop cause failed) s = requestStop cause failed s"
| "base_turn cfg (TParentAborts e) s = parent_aborts e s"
| "base_turn cfg (TTransport r) s = transport_result cfg r s"
| "base_turn cfg (TBegan r) s = began r s"
| "base_turn cfg TStopSeen s = stop_seen s"
| "base_turn cfg (TAudioClosed r) s = audio_close_done r s"
| "base_turn cfg (TTransportClosed ev) s = transport_close_done ev s"
| "base_turn cfg (TWorkersStopped t) s = workers_done t s"
| "base_turn cfg (TWorkerEnds code r) s =
     (if s_connected s then (case r of Inl e \<Rightarrow> worker_failed code e s | Inr _ \<Rightarrow> worker_finished code s) else s)"
| "base_turn cfg (TRequest m p opts) s = fst (request cfg m p opts s)"
| "base_turn cfg (TNotify e d sig) s = fst (notify cfg e d sig s)"
| "base_turn cfg (TSendSettled k) s = send_settled k s"
| "base_turn cfg (TTimer i) s = timer_fired i s"
| "base_turn cfg (TSignal g e) s = signal_fired g e s"
| "base_turn cfg (TReceive t) s = receive_text cfg t s"
| "base_turn cfg (TReceiveFails e) s = receive_failed e s"
| "base_turn cfg TTake s = dispatch_take s"
| "base_turn cfg (TRespond k r e c) s = fst (respond_with cfg r e c (Some k) s)"
| "base_turn cfg (TDefer k) s = fst (deferResponse (Some k) s)"
| "base_turn cfg (TAudioOpened ch) s = fst (audio_opened (Inr ch) s)"
| "base_turn cfg (TAudioAccepted ch) s = fst (audio_accepted (Inr ch) s)"
| "base_turn cfg (TAudioFails e) s = audio_error e s"

definition base_turns :: "session_config \<Rightarrow> turn list \<Rightarrow> session \<Rightarrow> session" where
  "base_turns cfg ts s = foldl (\<lambda>s t. base_turn cfg t s) s ts"

text \<open>
  What the handlers of the user may do while they run: any turns, their own calls and what the event
  loop interleaves, but nothing behind the back of the session.
\<close>

definition by_turns :: "session_config \<Rightarrow> ctx \<Rightarrow> ctx \<Rightarrow> bool" where
  "by_turns cfg c c' \<longleftrightarrow> cx_reply c' = cx_reply c \<and> (\<exists>ts. cx_session c' = base_turns cfg ts (cx_session c))"

primrec middleware_ok :: "session_config \<Rightarrow> ctx middleware_run \<Rightarrow> ctx \<Rightarrow> bool" where
  "middleware_ok cfg (Finish c' r) = (\<lambda>c. by_turns cfg c c')"
| "middleware_ok cfg (CallNext c' k) = (\<lambda>c. by_turns cfg c c' \<and> (\<forall>c2 r. middleware_ok cfg (k c2 r) c2))"

definition well_behaved :: "session_config \<Rightarrow> bool" where
  "well_behaved cfg \<longleftrightarrow>
     (let h = cf_handler cfg in
      (\<forall>m r p c. h_requests h m = Some r \<longrightarrow> by_turns cfg c (fst (reg_handle r p c)))
      \<and> (\<forall>m r p c. h_events h m = Some r \<longrightarrow> by_turns cfg c (fst (reg_observe r p c)))
      \<and> (\<forall>f req c. unknown_request (unknown (h_adapter h)) = Some f \<longrightarrow> by_turns cfg c (fst (f req c)))
      \<and> (\<forall>f ev c. unknown_event (unknown (h_adapter h)) = Some f \<longrightarrow> by_turns cfg c (fst (f ev c)))
      \<and> (\<forall>f c. h_onBegin h = Some f \<longrightarrow> by_turns cfg c (fst (f c)))
      \<and> (\<forall>m \<in> set (h_middleware h). \<forall>req c. middleware_ok cfg (m req c) c))"

section \<open>Steps and reachable sessions\<close>

inductive session_step :: "session_config \<Rightarrow> session \<Rightarrow> session \<Rightarrow> bool" for cfg where
  turn: "session_step cfg s (base_turn cfg t s)"
| begin_settles: "s_phase s = PBeginning \<Longrightarrow> handler_begin (cf_handler cfg) \<lparr>cx_session = s, cx_reply = None\<rparr> = (c, r)
    \<Longrightarrow> session_step cfg s (began r (cx_session c))"
| handle: "s_dispatcher s = Handling f \<Longrightarrow> session_step cfg s (handle_frame cfg f s)"

inductive_cases session_stepE: "session_step cfg s t"

inductive reachable :: "session_config \<Rightarrow> session \<Rightarrow> bool" for cfg where
  start: "new_session now opts = Inr s \<Longrightarrow> reachable cfg s"
| step: "reachable cfg s \<Longrightarrow> session_step cfg s t \<Longrightarrow> reachable cfg t"

end
