(* ===== verification/Session_Invariants.thy ===== *)
theory Session_Invariants
  imports Session_Run
begin

text \<open>
  Invariants of a session as a contract: a property that the primitive changes and the operations of
  a session keep holds in every reachable session, whatever the handlers do, as long as they act on
  the session through its methods.
\<close>

section \<open>Handlers act by turns\<close>

lemma by_turns_refl [simp, intro]: "by_turns cfg c c"
  unfolding by_turns_def base_turns_def by (intro conjI exI [of _ "[]"]) simp_all

lemma base_turns_append: "base_turns cfg (ts @ us) s = base_turns cfg us (base_turns cfg ts s)"
  by (simp add: base_turns_def)

lemma by_turns_trans: "by_turns cfg a b \<Longrightarrow> by_turns cfg b c \<Longrightarrow> by_turns cfg a c"
  unfolding by_turns_def by (metis base_turns_append)

lemma run_middleware_by_turns:
  assumes "\<And>c d. by_turns cfg c (fst (fst (next (c, d))))" "middleware_ok cfg m c"
  shows "by_turns cfg c (fst (fst (run_middleware next m d)))"
  using assms(2)
proof (induction m arbitrary: c d)
  case (CallNext c1 k)
  obtain c2 d2 r where n: "next (c1, d) = ((c2, d2), r)" by (metis prod.collapse)
  have "by_turns cfg c c1" and k: "middleware_ok cfg (k c2 r) c2" using CallNext.prems by auto
  moreover have "by_turns cfg c1 c2" using assms(1) [of c1 d] n by simp
  moreover have "by_turns cfg c2 (fst (fst (run_middleware next (k c2 r) d2)))"
    using CallNext.IH [of "k c2" "k c2 r", OF _ _ k] by auto
  ultimately show ?case using n by (auto intro: by_turns_trans)
qed auto

lemma invoke_by_turns:
  assumes "well_behaved cfg"
  shows "by_turns cfg c (fst (fst (invoke (cf_handler cfg) req (c, d))))"
proof -
  have reg: "by_turns cfg c (fst (reg_handle r p c))" if "h_requests (cf_handler cfg) m = Some r" for m r p
    using assms that by (auto simp: well_behaved_def Let_def)
  have unk: "by_turns cfg c (fst (f req c))" if "unknown_request (unknown (h_adapter (cf_handler cfg))) = Some f" for f
    using assms that by (auto simp: well_behaved_def Let_def)
  show ?thesis
    using reg [of "req_method req" _ "req_payload req"] unk
    by (auto simp: invoke_def split: option.splits prod.splits sum.splits)
qed

lemma dispatch_by_turns:
  assumes "well_behaved cfg"
  shows "by_turns cfg c (fst (dispatchRequest (cf_handler cfg) req c))"
proof -
  let ?h = "cf_handler cfg"
  have mw: "\<forall>m \<in> set (h_middleware ?h). \<forall>c. middleware_ok cfg (m req c) c"
    using assms by (auto simp: well_behaved_def Let_def)
  have "by_turns cfg c (fst (fst (foldr (wrap req) ms (invoke ?h req) (c, d))))" if "set ms \<subseteq> set (h_middleware ?h)" for ms c d
    using that
  proof (induction ms arbitrary: c d)
    case Nil
    then show ?case using invoke_by_turns [OF assms] by simp
  next
    case (Cons m ms)
    then show ?case
      using run_middleware_by_turns [of cfg "foldr (wrap req) ms (invoke ?h req)" "m req c" c d] mw by (simp add: wrap_def [of req m])
  qed
  then have "by_turns cfg c (fst (fst (chain ?h req (c, None))))" by (simp add: chain_def foldl_conv_foldr)
  then show ?thesis by (auto simp: dispatchRequest_def split: prod.splits sum.splits)
qed

lemma event_by_turns:
  assumes "well_behaved cfg"
  shows "by_turns cfg c (fst (dispatchEvent (cf_handler cfg) ev c))"
  using assms by (auto simp: dispatchEvent_def well_behaved_def Let_def split: option.splits)

lemma begin_by_turns:
  assumes "well_behaved cfg"
  shows "by_turns cfg c (fst (handler_begin (cf_handler cfg) c))"
  using assms by (auto simp: handler_begin_def well_behaved_def Let_def split: option.splits)

section \<open>The contract\<close>

text \<open>Properties that the stop of a session and the changes of its workers and queue keep.\<close>

locale worker_invariant =
  fixes inv :: "session \<Rightarrow> bool"
  assumes stop: "inv s \<Longrightarrow> inv (requestStop cause failed s)"
    and reader: "inv s \<Longrightarrow> inv (s\<lparr>s_reader := w\<rparr>)"
    and dispatcher: "inv s \<Longrightarrow> inv (s\<lparr>s_dispatcher := w\<rparr>)"
    and dispatch: "inv s \<Longrightarrow> inv (s\<lparr>s_dispatch := q\<rparr>)"
    and fresh: "inv s \<Longrightarrow> inv (s\<lparr>s_next := Suc (s_next s)\<rparr>)"
    and audio: "inv s \<Longrightarrow> inv (s\<lparr>s_audio := a\<rparr>)"
begin

lemma failed_worker: "inv s \<Longrightarrow> inv (worker_failed code e s)"
  by (simp add: worker_failed_def stop)

lemma finished_worker: "inv s \<Longrightarrow> inv (worker_finished code s)"
  by (simp add: worker_finished_def stop)

lemma woken: "inv s \<Longrightarrow> inv (wake s e)"
  by (cases e) (simp_all add: reader dispatcher failed_worker)

lemma woken_all: "inv s \<Longrightarrow> inv (foldl wake s es)"
  by (induction es arbitrary: s) (simp_all add: woken)

lemma queued: "inv s \<Longrightarrow> inv (foldl wake (s\<lparr>s_dispatch := q, s_next := Suc (s_next s)\<rparr>) es)"
  using fresh [OF dispatch, of s q] by (simp add: woken_all)

lemma looped: "inv s \<Longrightarrow> inv (reader_loop s)"
  by (simp add: reader_loop_def reader)

lemma received:
  assumes complete: "\<And>c r e. inv s \<Longrightarrow> inv (completePending c r e s)" and s: "inv s"
  shows "inv (receive_text cfg t s)"
  using s complete queued [OF s] failed_worker looped reader
  by (auto simp: receive_text_def Let_def split: sum.splits control_frame.splits prod.splits outcome.splits)

lemma receiving_failed: "inv s \<Longrightarrow> inv (receive_failed e s)"
  by (simp add: receive_failed_def reader failed_worker)

lemma taken: "inv s \<Longrightarrow> inv (dispatch_take s)"
  using queued [of s] failed_worker dispatcher
  by (auto simp: dispatch_take_def Let_def split: prod.splits outcome.splits)

lemma bound: "inv s \<Longrightarrow> inv (fst (audio_opened r s))" "inv s \<Longrightarrow> inv (fst (audio_accepted r s))"
  by (auto simp: audio_opened_def audio_accepted_def audio split: sum.splits prod.splits)

end

text \<open>The whole contract; \<open>new_reply\<close> is the reply that \<open>#handleRequest\<close> creates.\<close>

locale session_invariant = worker_invariant +
  assumes complete: "inv s \<Longrightarrow> inv (completePending c r e s)"
    and requested: "inv s \<Longrightarrow> inv (fst (request cfg m p opts s))"
    and notified: "inv s \<Longrightarrow> inv (fst (notify cfg ev d sig s))"
    and send_done: "inv s \<Longrightarrow> inv (send_settled k s)"
    and cancelled: "inv s \<Longrightarrow> inv (cancelPending i n x s)"
    and responded: "inv s \<Longrightarrow> inv (fst (respond_with cfg res err cl ref s))"
    and deferred: "inv s \<Longrightarrow> inv (fst (deferResponse ref s))"
    and new_reply: "inv s \<Longrightarrow> inv (s\<lparr>s_replies := s_replies s @ [\<lparr>rp_requestId = i, rp_status = Unclaimed\<rparr>]\<rparr>)"
    and started: "inv s \<Longrightarrow> inv (fst (run_session cfg sig s))"
    and connected: "inv s \<Longrightarrow> inv (transport_result cfg tr s)"
    and beginning: "inv s \<Longrightarrow> inv (began tr s)"
    and stopping: "inv s \<Longrightarrow> inv (stop_seen s)"
    and audio_done: "inv s \<Longrightarrow> inv (audio_close_done tr s)"
    and transport_done: "inv s \<Longrightarrow> inv (transport_close_done race s)"
    and workers: "inv s \<Longrightarrow> inv (workers_done late s)"
begin

lemma signalled: "inv s \<Longrightarrow> inv (signal_fired g e s)"
proof -
  have "inv (foldl (\<lambda>t (i, p). if pd_signal p = Some g then cancelPending i (pd_promise p) x t else t) s ps)" if "inv s" for x and ps :: "(string \<times> pending) list"
    using that by (induction ps arbitrary: s) (auto simp: cancelled split: prod.splits)
  then show "inv s \<Longrightarrow> inv (signal_fired g e s)" by (simp add: signal_fired_def)
qed

lemma turned: "inv s \<Longrightarrow> inv (base_turn cfg t s)"
proof (cases t)
  case (TReceive x)
  then show "inv s \<Longrightarrow> inv (base_turn cfg t s)" by (simp add: received complete)
next
  case (TWorkerEnds code r)
  then show "inv s \<Longrightarrow> inv (base_turn cfg t s)" by (simp add: failed_worker finished_worker split: sum.split)
next
  case (TTimer i)
  then show "inv s \<Longrightarrow> inv (base_turn cfg t s)" by (simp add: timer_fired_def cancelled split: option.split)
qed (simp_all add: started stop close_session_def parent_aborts_def connected beginning stopping audio_done transport_done
      workers requested notified send_done signalled receiving_failed taken responded deferred bound audio_error_def)

lemma turned_all: "inv s \<Longrightarrow> inv (base_turns cfg ts s)"
  by (induction ts arbitrary: s) (simp_all add: base_turns_def turned)

lemma by_turns_kept: "by_turns cfg c c' \<Longrightarrow> inv (cx_session c) \<Longrightarrow> inv (cx_session c')"
  by (auto simp: by_turns_def turned_all)

lemma respondedE: "respond_with cfg a b cl k u = (t, x) \<Longrightarrow> inv u \<Longrightarrow> inv t"
  using responded [of u cfg a b cl k] by simp

lemma dispatched_answered: "answer_dispatched cfg k r s = (t, x) \<Longrightarrow> inv s \<Longrightarrow> inv t"
  by (auto simp: answer_dispatched_def split: sum.splits if_splits option.splits intro: respondedE)

lemma failure_answered: "inv s \<Longrightarrow> inv (answer_failure cfg k e s)"
  by (auto simp: answer_failure_def split: prod.split sum.split intro: respondedE stop)

lemma request_handled:
  assumes "well_behaved cfg" "inv s"
  shows "inv (handleRequest cfg i m p s)"
proof -
  let ?c0 = "\<lparr>cx_session = s\<lparr>s_replies := s_replies s @ [\<lparr>rp_requestId = i, rp_status = Unclaimed\<rparr>]\<rparr>, cx_reply = Some (length (s_replies s))\<rparr>"
  obtain c1 r where d: "dispatchRequest (cf_handler cfg) \<lparr>req_method = m, req_payload = embed (or_empty p)\<rparr> ?c0 = (c1, r)"
    by (metis prod.exhaust)
  have "inv (cx_session c1)"
    using by_turns_kept [OF dispatch_by_turns [OF assms(1), of ?c0]] new_reply [OF assms(2)] d by (metis ctx.select_convs(1) fst_conv)
  then show ?thesis
    unfolding handleRequest_def Let_def d prod.case
    by (auto split: prod.split sum.split intro: dispatched_answered failure_answered)
qed

lemma handled: "well_behaved cfg \<Longrightarrow> inv s \<Longrightarrow> inv (handle_frame cfg f s)"
  using by_turns_kept [OF event_by_turns] request_handled
  by (cases f) (auto simp: handle_frame_def Let_def handleEvent_def intro!: dispatcher)

lemma step_kept: "well_behaved cfg \<Longrightarrow> session_step cfg s t \<Longrightarrow> inv s \<Longrightarrow> inv t"
proof (erule session_stepE)
  fix c r
  assume "well_behaved cfg" "handler_begin (cf_handler cfg) \<lparr>cx_session = s, cx_reply = None\<rparr> = (c, r)" "inv s" "t = began r (cx_session c)"
  then show "inv t" using by_turns_kept [OF begin_by_turns, of cfg "\<lparr>cx_session = s, cx_reply = None\<rparr>"] by (simp add: beginning)
qed (simp_all add: turned handled)

lemma reachable_kept:
  assumes "well_behaved cfg" "\<And>now opts s. new_session now opts = Inr s \<Longrightarrow> inv s" "reachable cfg s"
  shows "inv s"
  using assms(3) by (induction rule: reachable.induct) (auto intro: assms(2) step_kept [OF assms(1)])

end

end
