(* ===== verification/Session_Lifecycle.thy ===== *)
theory Session_Lifecycle
  imports Session_Invariants
begin

text \<open>
  The life of a session: its states are passed in order, its outcome is the outcome of \<open>run\<close>, nothing is
  sent once it stops, and what becomes of \<open>ready\<close>.
\<close>

section \<open>Fields that operations leave alone\<close>

lemma requestStop_sel [simp]:
  "s_id (requestStop c f s) = s_id s" "s_pending (requestStop c f s) = s_pending s" "s_connected (requestStop c f s) = s_connected s"
  "s_sequence (requestStop c f s) = s_sequence s" "s_ready (requestStop c f s) = s_ready s" "s_phase (requestStop c f s) = s_phase s"
  "s_run (requestStop c f s) = s_run s" "s_next (requestStop c f s) = s_next s" "s_replies (requestStop c f s) = s_replies s"
  "s_sending (requestStop c f s) = s_sending s" "s_settled (requestStop c f s) = s_settled s" "s_sent (requestStop c f s) = s_sent s"
  "s_responses (requestStop c f s) = s_responses s" "s_audio (requestStop c f s) = s_audio s"
  "s_aborted (requestStop c f s) = (case s_aborted s of None \<Rightarrow> Some (abort_reason c) | Some r \<Rightarrow> Some r)"
  "s_state (requestStop c f s) = (if s_aborted s = None \<and> s_state s \<noteq> Inactive then Closing else s_state s)"
  by (auto simp: requestStop_def split: option.split)

lemma requestStop_failed:
  "s_stopFailed (requestStop c f s) = (case s_aborted s of None \<Rightarrow> f | Some _ \<Rightarrow> f \<or> s_stopFailed s)"
  by (auto simp: requestStop_def split: option.split)

lemma settle_sel [simp]:
  "s_id (settle p r s) = s_id s" "s_pending (settle p r s) = s_pending s" "s_connected (settle p r s) = s_connected s"
  "s_sequence (settle p r s) = s_sequence s" "s_ready (settle p r s) = s_ready s" "s_phase (settle p r s) = s_phase s"
  "s_run (settle p r s) = s_run s" "s_next (settle p r s) = s_next s" "s_replies (settle p r s) = s_replies s"
  "s_sending (settle p r s) = s_sending s" "s_sent (settle p r s) = s_sent s" "s_responses (settle p r s) = s_responses s"
  "s_aborted (settle p r s) = s_aborted s" "s_state (settle p r s) = s_state s" "s_stopFailed (settle p r s) = s_stopFailed s"
  "s_settled (settle p r s) = s_settled s @ [(p, r)]"
  by (simp_all add: settle_def)

lemma delete_pending_sel [simp]:
  "s_id (delete_pending i s) = s_id s" "s_connected (delete_pending i s) = s_connected s"
  "s_sequence (delete_pending i s) = s_sequence s" "s_ready (delete_pending i s) = s_ready s" "s_phase (delete_pending i s) = s_phase s"
  "s_run (delete_pending i s) = s_run s" "s_next (delete_pending i s) = s_next s" "s_replies (delete_pending i s) = s_replies s"
  "s_sending (delete_pending i s) = s_sending s" "s_sent (delete_pending i s) = s_sent s" "s_responses (delete_pending i s) = s_responses s"
  "s_aborted (delete_pending i s) = s_aborted s" "s_state (delete_pending i s) = s_state s" "s_stopFailed (delete_pending i s) = s_stopFailed s"
  "s_settled (delete_pending i s) = s_settled s" "s_pending (delete_pending i s) = filter (\<lambda>e. fst e \<noteq> i) (s_pending s)"
  by (simp_all add: delete_pending_def)

text \<open>What the lifecycle depends on.\<close>

definition core :: "session \<Rightarrow> phase \<times> session_state \<times> thrown option \<times> bool \<times> ready \<times> unit result option \<times> bool" where
  "core s = (s_phase s, s_state s, s_aborted s, s_stopFailed s, s_ready s, s_run s, s_connected s)"

lemma core_simps [simp]:
  "core (s\<lparr>s_reader := w\<rparr>) = core s" "core (s\<lparr>s_dispatcher := w\<rparr>) = core s" "core (s\<lparr>s_dispatch := q\<rparr>) = core s"
  "core (s\<lparr>s_next := n\<rparr>) = core s" "core (s\<lparr>s_audio := a\<rparr>) = core s" "core (s\<lparr>s_replies := rs\<rparr>) = core s"
  "core (s\<lparr>s_responses := ks\<rparr>) = core s" "core (s\<lparr>s_sending := xs\<rparr>) = core s" "core (s\<lparr>s_sent := ts\<rparr>) = core s"
  "core (s\<lparr>s_pending := ps\<rparr>) = core s" "core (s\<lparr>s_settled := ys\<rparr>) = core s" "core (s\<lparr>s_sequence := k\<rparr>) = core s"
  "core (s\<lparr>s_parent := b\<rparr>) = core s" "core (s\<lparr>s_stopCause := c\<rparr>) = core s" "core (settle p r s) = core s" "core (delete_pending i s) = core s"
  "core (failPending e s) = core s"
  by (simp_all add: core_def failPending_def)

lemma core_eqD:
  "core t = core s \<Longrightarrow> s_phase t = s_phase s \<and> s_state t = s_state s \<and> s_aborted t = s_aborted s \<and> s_stopFailed t = s_stopFailed s
     \<and> s_ready t = s_ready s \<and> s_run t = s_run s \<and> s_connected t = s_connected s"
  by (simp add: core_def)

lemma sendFrame_core: "core (fst (sendFrame cfg f s)) = core s"
  by (simp add: sendFrame_def split: sum.split)

lemma nextId_core: "core (snd (nextId s)) = core s"
  by (simp add: nextId_def Let_def)

lemma request_core: "core (fst (request cfg m p opts s)) = core s"
proof -
  have "core t = core u" if "sendFrame cfg f u = (t, x)" for f t u x using sendFrame_core [of cfg f u] that by simp
  note send = this
  have "core t = core u" if "nextId u = (i, t)" for i t u using nextId_core [of u] that by simp
  note nid = this
  show ?thesis
    by (auto simp: request_def Let_def split: sum.splits prod.splits dest!: nid send)
qed

lemma notify_core: "core (fst (notify cfg e d sig s)) = core s"
  using nextId_core sendFrame_core by (auto simp: notify_def split: sum.splits prod.splits) (metis snd_conv)

lemma cancelPending_core [simp]: "core (cancelPending i p e s) = core s"
  by (simp add: cancelPending_def split: option.split)

lemma send_settled_core: "core (send_settled k s) = core s"
  by (auto simp: send_settled_def Let_def split: prod.splits sum.splits)

lemma deferResponse_core: "core (fst (deferResponse ref s)) = core s"
  by (auto simp: deferResponse_def split: sum.splits prod.splits)

lemma completePending_core:
  "core (completePending c r e s) = core s \<or> core (completePending c r e s) = core (requestStop None False s)"
  by (auto simp: completePending_def Let_def core_def requestStop_failed split: option.splits)

lemma respond_with_core:
  "core (fst (respond_with cfg res err cl ref s)) = core s \<or> core (fst (respond_with cfg res err cl ref s)) = core (requestStop None False s)"
proof -
  have "core t = core u" if "sendResponse cfg i a b u = (t, x)" for i a b t u x
    using sendFrame_core [of cfg "Response i a b" u] that by (simp add: sendResponse_def)
  note send = this
  have stop: "core (requestStop c f t) = core (requestStop c f u)" if "core t = core u" for c f t u
    using core_eqD [OF that] by (auto simp: core_def requestStop_failed split: option.splits)
  show ?thesis
    by (auto simp: respond_with_def Let_def split: sum.splits prod.splits dest!: send intro: stop)
qed

text \<open>
  A property of these fields alone has to be checked for the stop and for the pieces of \<open>#supervise\<close>;
  the other operations keep the fields or stop the session.
\<close>

locale core_invariant =
  fixes inv :: "session \<Rightarrow> bool"
  assumes cong: "core t = core s \<Longrightarrow> inv s \<Longrightarrow> inv t"
    and stops: "inv s \<Longrightarrow> inv (requestStop cause failed s)"
    and starts: "inv s \<Longrightarrow> inv (fst (run_session cfg sig s))"
    and connects: "inv s \<Longrightarrow> inv (transport_result cfg tr s)"
    and begins: "inv s \<Longrightarrow> inv (began tr s)"
    and sees_stop: "inv s \<Longrightarrow> inv (stop_seen s)"
    and closes_audio: "inv s \<Longrightarrow> inv (audio_close_done tr s)"
    and closes_transport: "inv s \<Longrightarrow> inv (transport_close_done race s)"
    and joins: "inv s \<Longrightarrow> inv (workers_done late s)"
begin

lemma same_or_stopped: "core t = core s \<or> core t = core (requestStop c f s) \<Longrightarrow> inv s \<Longrightarrow> inv t"
  using cong stops by metis

end

sublocale core_invariant \<subseteq> session_invariant
proof
  fix s :: session
  assume ok: "inv s"
  show "inv (requestStop c f s)" for c f using ok by (rule stops)
  show "inv (s\<lparr>s_reader := w\<rparr>)" "inv (s\<lparr>s_dispatcher := w\<rparr>)" "inv (s\<lparr>s_dispatch := q\<rparr>)"
    "inv (s\<lparr>s_next := Suc (s_next s)\<rparr>)" "inv (s\<lparr>s_audio := a\<rparr>)"
    "inv (s\<lparr>s_replies := s_replies s @ [\<lparr>rp_requestId = i, rp_status = Unclaimed\<rparr>]\<rparr>)" for w q a i
    by (rule cong [OF _ ok], simp)+
  show "inv (completePending c r e s)" for c r e by (rule same_or_stopped [OF completePending_core ok])
  show "inv (fst (request cfg m p opts s))" "inv (fst (notify cfg ev d sig s))" "inv (send_settled k s)"
    "inv (cancelPending i n x s)" "inv (fst (deferResponse ref s))" for cfg m p opts ev d sig k i n x ref
    by (rule cong [OF _ ok], simp add: request_core notify_core send_settled_core deferResponse_core)+
  show "inv (fst (respond_with cfg res err cl ref s))" for cfg res err cl ref by (rule same_or_stopped [OF respond_with_core ok])
qed (fact starts connects begins sees_stop closes_audio closes_transport joins)+

section \<open>Phases and states\<close>

definition starting :: "session \<Rightarrow> bool" where
  "starting s \<longleftrightarrow> (s_state s = Connecting \<or> s_state s = Closing \<and> s_aborted s \<noteq> None) \<and> s_ready s = Unsettled \<and> s_run s = None"

definition phase_ok :: "session \<Rightarrow> bool" where
  "phase_ok s \<longleftrightarrow>
     (s_aborted s = None \<longrightarrow> \<not> s_stopFailed s)
     \<and> (case s_phase s of
          PIdle \<Rightarrow> s_state s = Inactive \<and> s_ready s = Unsettled \<and> s_run s = None \<and> \<not> s_connected s
        | PConnecting \<Rightarrow> starting s
        | PBeginning \<Rightarrow> starting s
        | PActive \<Rightarrow> s_state s = (if s_aborted s = None then Active else Closing) \<and> s_ready s = ReadyResolved \<and> s_run s = None
        | PDone \<Rightarrow> s_aborted s \<noteq> None \<and> s_run s \<noteq> None \<and> s_state s = (case s_run s of Some (Inr _) \<Rightarrow> Closed | _ \<Rightarrow> Failed)
        | _ \<Rightarrow> s_aborted s \<noteq> None \<and> (s_state s = Closing \<or> s_state s = Connecting) \<and> s_run s = None)"

lemma phase_ok_cong: "core t = core s \<Longrightarrow> phase_ok t = phase_ok s"
  by (drule core_eqD) (cases "s_phase s"; simp add: phase_ok_def starting_def)

lemma phase_ok_stop: "phase_ok s \<Longrightarrow> phase_ok (requestStop c f s)"
  by (auto simp: phase_ok_def starting_def requestStop_failed split: phase.splits option.splits)

lemma wake_core_stopped: "s_aborted s = Some r \<Longrightarrow> core (wake s e) = core s \<and> s_aborted (wake s e) = Some r"
  by (cases e) (auto simp: worker_failed_def)

lemma wakes_core_stopped: "s_aborted s = Some r \<Longrightarrow> core (foldl wake s es) = core s"
proof (induction es arbitrary: s)
  case (Cons e es)
  then show ?case using wake_core_stopped [of s r e] by simp
qed simp

text \<open>The \<open>finally\<close> block starts with a stopped session.\<close>

lemma finalise_core:
  "\<exists>t. core t = (if s_aborted s = None then core (requestStop None False s) else core s) \<and> core (finalise s) = core (t\<lparr>s_phase := PAudio\<rparr>)"
proof -
  let ?s1 = "(if s_aborted s = None then requestStop None False s else s)\<lparr>s_parent := False\<rparr>"
  obtain q es where c: "close (s_dispatch ?s1) = (q, es)" by (metis prod.exhaust)
  let ?s2 = "foldl wake (?s1\<lparr>s_dispatch := q\<rparr>) es"
  obtain r where "s_aborted ?s1 = Some r" by (cases "s_aborted s") simp_all
  then have "core ?s2 = core ?s1" using wakes_core_stopped [of "?s1\<lparr>s_dispatch := q\<rparr>" r es] by simp
  then have "core ?s2 = (if s_aborted s = None then core (requestStop None False s) else core s)" by simp
  moreover have "core (finalise s) = core ((failPending x ?s2)\<lparr>s_phase := PAudio\<rparr>)" if "x = (case s_stopCause ?s2 of None \<Rightarrow> session_closed | Some c \<Rightarrow> c)" for x
    unfolding finalise_def Let_def c prod.case that by (simp add: core_def)
  ultimately show ?thesis by (metis core_simps(17))
qed

lemma finalise_sel:
  "s_phase (finalise s) = PAudio" "s_run (finalise s) = s_run s" "s_ready (finalise s) = s_ready s" "s_aborted (finalise s) \<noteq> None"
  "s_connected (finalise s) = s_connected s"
  "s_state (finalise s) = (if s_aborted s = None \<and> s_state s \<noteq> Inactive then Closing else s_state s)"
  using finalise_core [of s] by (auto simp: core_def split: if_splits option.splits)

lemma supervise_failed_sel:
  "s_phase (supervise_failed e s) = PAudio" "s_run (supervise_failed e s) = s_run s" "s_aborted (supervise_failed e s) \<noteq> None"
  "s_connected (supervise_failed e s) = s_connected s"
  "s_state (supervise_failed e s) = (if s_aborted s = None \<and> s_state s \<noteq> Inactive then Closing else s_state s)"
  "s_ready (supervise_failed e s) =
     (if s_aborted s \<noteq> None \<and> s_state s = Connecting \<and> s_ready s = Unsettled then ReadyRejected e else s_ready s)"
  by (auto simp: supervise_failed_def Let_def finalise_sel split: option.splits)

lemma phase_ok_failed:
  "s_state s = Connecting \<or> s_state s = Closing \<Longrightarrow> s_run s = None \<Longrightarrow> phase_ok (supervise_failed e s)"
  using supervise_failed_sel(3) [of e s] by (auto simp: phase_ok_def supervise_failed_sel)

lemma phase_ok_finalise:
  "s_aborted s \<noteq> None \<Longrightarrow> s_state s = Closing \<Longrightarrow> s_run s = None \<Longrightarrow> phase_ok (finalise s)"
  using finalise_sel(4) [of s] by (auto simp: phase_ok_def finalise_sel)

lemma phase_ok_connected:
  "s_state s = Connecting \<or> s_state s = Closing \<and> s_aborted s \<noteq> None \<Longrightarrow> s_ready s = Unsettled \<Longrightarrow> s_run s = None
   \<Longrightarrow> (s_aborted s = None \<longrightarrow> \<not> s_stopFailed s) \<Longrightarrow> phase_ok (transport_connected cfg s)"
proof (cases "cf_supportsKeepalive cfg \<and> cf_keepalive cfg \<noteq> None \<and> \<not> cf_monitorKeepalive cfg")
  case True
  assume "s_state s = Connecting \<or> s_state s = Closing \<and> s_aborted s \<noteq> None" "s_run s = None"
  then show ?thesis
    unfolding transport_connected_def Let_def if_P [OF True] by (intro phase_ok_failed) auto
next
  case False
  assume "s_state s = Connecting \<or> s_state s = Closing \<and> s_aborted s \<noteq> None" "s_ready s = Unsettled" "s_run s = None"
    "s_aborted s = None \<longrightarrow> \<not> s_stopFailed s"
  then show ?thesis
    unfolding transport_connected_def Let_def if_not_P [OF False] by (simp add: phase_ok_def starting_def)
qed

interpretation lifecycle: core_invariant phase_ok
proof
  fix s :: session
  assume ok: "phase_ok s"
  show "phase_ok t" if "core t = core s" for t using phase_ok_cong [OF that] ok by simp
  show "phase_ok (requestStop c f s)" for c f using ok by (rule phase_ok_stop)
  show "phase_ok (fst (run_session cfg sig s))" for cfg sig
  proof (cases "s_phase s = PIdle")
    case True
    with ok have "s_ready s = Unsettled" "s_run s = None" "s_aborted s = None \<longrightarrow> \<not> s_stopFailed s" by (auto simp: phase_ok_def)
    then show ?thesis
      using True phase_ok_failed phase_ok_connected
      by (auto simp: run_session_def Let_def phase_ok_def [of "s\<lparr>s_state := Connecting, s_parent := x, s_phase := PConnecting\<rparr>" for x] starting_def
          split: sum.split)
  qed (use ok in \<open>simp add: run_session_def\<close>)
  show "phase_ok (transport_result cfg tr s)" for cfg tr
    using ok phase_ok_failed [of s] phase_ok_connected [of s]
    by (auto simp: transport_result_def phase_ok_def [of s] starting_def split: sum.split)
  show "phase_ok (began tr s)" for tr
    using ok phase_ok_failed [of s]
    by (auto simp: began_def phase_ok_def [of s] starting_def phase_ok_def [of "s\<lparr>s_state := Active, s_ready := ReadyResolved, s_phase := PActive\<rparr>"]
        split: sum.split)
  show "phase_ok (stop_seen s)"
    using ok phase_ok_failed [of s] phase_ok_finalise [of s] by (auto simp: stop_seen_def phase_ok_def [of s] starting_def)
  show "phase_ok (audio_close_done tr s)" "phase_ok (transport_close_done race s)" for tr race
    using ok by (auto simp: audio_close_done_def transport_close_done_def record_failure_def phase_ok_def split: sum.splits)
  show "phase_ok (workers_done late s)" for late
    using ok by (auto simp: workers_done_def Let_def record_failure_def run_outcome_def phase_ok_def split: option.splits)
qed

lemma phase_ok_start: "new_session now opts = Inr s \<Longrightarrow> phase_ok s"
  by (auto simp: new_session_def bindR_Inr_iff phase_ok_def split: if_splits)

lemma reachable_phase_ok: "well_behaved cfg \<Longrightarrow> reachable cfg s \<Longrightarrow> phase_ok s"
  by (rule lifecycle.reachable_kept) (auto intro: phase_ok_start)

end
