(* ===== verification/Session_History.thy ===== *)
theory Session_History
  imports Session_Lifecycle "HOL-Library.Sublist"
begin

text \<open>
  How a session changes over time: the order of its states and phases, what stays as it is once the
  session has stopped or ended, and that the supervision of a stopped session comes to its end.
\<close>

section \<open>Phases in order\<close>

fun phase_rank :: "phase \<Rightarrow> nat" where
  "phase_rank PIdle = 0"
| "phase_rank PConnecting = 1"
| "phase_rank PBeginning = 2"
| "phase_rank PActive = 3"
| "phase_rank PAudio = 4"
| "phase_rank PTransport = 5"
| "phase_rank PWorkers = 6"
| "phase_rank PDone = 7"

text \<open>What the past of a session says about it.\<close>

definition later :: "session \<Rightarrow> session \<Rightarrow> bool" where
  "later s t \<longleftrightarrow> s_state s \<le> s_state t \<and> phase_rank (s_phase s) \<le> phase_rank (s_phase t)
     \<and> (s_phase s = PDone \<longrightarrow> s_state t = s_state s \<and> s_run t = s_run s)
     \<and> (s_aborted s \<noteq> None \<longrightarrow> s_aborted t = s_aborted s \<and> s_sent t = s_sent s)
     \<and> (s_ready s \<noteq> Unsettled \<longrightarrow> s_ready t = s_ready s)"

lemma later_refl [simp]: "later s s"
  by (simp add: later_def)

lemma phase_rank_done: "phase_rank PDone \<le> phase_rank p \<longleftrightarrow> p = PDone"
  by (cases p) simp_all

lemma later_trans: "later s t \<Longrightarrow> later t u \<Longrightarrow> later s u"
  unfolding later_def using phase_rank_done by (metis order_trans)

lemma later_core: "core t = core s \<Longrightarrow> (s_aborted s \<noteq> None \<Longrightarrow> s_sent t = s_sent s) \<Longrightarrow> later s t"
  by (drule core_eqD) (auto simp: later_def)

lemma later_stop: "phase_ok s \<Longrightarrow> later s (requestStop c f s)"
  by (cases "s_phase s")
    (auto simp: later_def phase_ok_def starting_def less_eq_session_state_def split: option.splits if_splits)

section \<open>What is sent\<close>

lemma sendFrame_stopped: "s_aborted s \<noteq> None \<Longrightarrow> fst (sendFrame cfg f s) = s"
  by (simp add: sendFrame_def)

lemma sendFrame_stoppedD: "sendFrame cfg f s = (t, r) \<Longrightarrow> s_aborted s = Some x \<Longrightarrow> t = s"
  using sendFrame_stopped [of s cfg f] by simp

lemma request_sent: "s_aborted s = Some x \<Longrightarrow> s_sent (fst (request cfg m p opts s)) = s_sent s"
  by (auto simp: request_def Let_def nextId_def split: sum.splits prod.splits dest!: sendFrame_stoppedD)

lemma notify_sent: "s_aborted s = Some x \<Longrightarrow> s_sent (fst (notify cfg e d sig s)) = s_sent s"
  by (simp add: notify_def nextId_def Let_def sendFrame_stopped split: sum.split)

lemma respond_sent: "s_aborted s = Some x \<Longrightarrow> s_sent (fst (respond_with cfg res err cl ref s)) = s_sent s"
  by (auto simp: respond_with_def sendResponse_def Let_def split: sum.splits prod.splits dest!: sendFrame_stoppedD)

lemma cancelPending_sent [simp]: "s_sent (cancelPending i p e s) = s_sent s"
  by (simp add: cancelPending_def split: option.split)

lemma completePending_sent [simp]: "s_sent (completePending c r e s) = s_sent s"
  by (simp add: completePending_def Let_def split: option.split)

lemma send_settled_sent [simp]: "s_sent (send_settled k s) = s_sent s"
  by (auto simp: send_settled_def Let_def split: prod.split sum.split)

lemma deferResponse_sent [simp]: "s_sent (fst (deferResponse ref s)) = s_sent s"
  by (auto simp: deferResponse_def split: sum.split)

lemma wake_sent [simp]: "s_sent (wake s e) = s_sent s"
  by (cases e) (simp_all add: worker_failed_def)

lemma wakes_sent [simp]: "s_sent (foldl wake s es) = s_sent s"
  by (induction es arbitrary: s) simp_all

lemma finalise_sent [simp]: "s_sent (finalise s) = s_sent s"
  by (auto simp: finalise_def Let_def failPending_def split: prod.split)

lemma supervise_failed_sent [simp]: "s_sent (supervise_failed e s) = s_sent s"
  by (simp add: supervise_failed_def Let_def)

section \<open>The supervision only moves forward\<close>

lemma finalise_aborted: "s_aborted s = Some r \<Longrightarrow> s_aborted (finalise s) = Some r"
  using finalise_core [of s] by (auto simp: core_def)

lemma supervise_failed_aborted: "s_aborted s = Some r \<Longrightarrow> s_aborted (supervise_failed e s) = Some r"
  by (simp add: supervise_failed_def Let_def finalise_aborted)

lemma later_failed:
  "phase_ok s \<Longrightarrow> s_phase s = PConnecting \<or> s_phase s = PBeginning \<Longrightarrow> later s (supervise_failed e s)"
  by (auto simp: later_def supervise_failed_sel supervise_failed_aborted phase_ok_def starting_def less_eq_session_state_def)

lemma later_finalise: "phase_ok s \<Longrightarrow> s_phase s = PActive \<Longrightarrow> later s (finalise s)"
  by (auto simp: later_def finalise_sel finalise_aborted phase_ok_def less_eq_session_state_def)

lemma transport_connected_sel:
  "s_aborted s = Some r \<Longrightarrow> s_aborted (transport_connected cfg s) = Some r" "s_sent (transport_connected cfg s) = s_sent s"
  "s_state s \<noteq> Inactive \<Longrightarrow> s_state (transport_connected cfg s) = s_state s \<or> s_aborted s = None \<and> s_state (transport_connected cfg s) = Closing"
  "s_phase (transport_connected cfg s) = PBeginning \<or> s_phase (transport_connected cfg s) = PAudio"
  "s_ready s \<noteq> Unsettled \<Longrightarrow> s_ready (transport_connected cfg s) = s_ready s"
  by (auto simp: transport_connected_def Let_def supervise_failed_sel supervise_failed_aborted)

lemma later_connected:
  assumes "phase_ok s" "s_phase s = PConnecting"
  shows "later s (transport_connected cfg s)"
  using assms transport_connected_sel [where s = s and cfg = cfg]
  by (auto simp: later_def phase_ok_def starting_def less_eq_session_state_def)

lemma later_run: "phase_ok s \<Longrightarrow> later s (fst (run_session cfg sig s))"
proof (cases "s_phase s = PIdle")
  case True
  let ?s = "s\<lparr>s_state := Connecting, s_parent := (sig \<noteq> NoSignal)\<rparr>"
  assume "phase_ok s"
  with True have s: "s_state s = Inactive" "s_ready s = Unsettled" by (auto simp: phase_ok_def)
  have "later s (supervise_failed e ?s)" for e
    using True s by (auto simp: later_def supervise_failed_sel supervise_failed_aborted less_eq_session_state_def)
  moreover have "later s (transport_connected cfg ?s)"
    using True s transport_connected_sel [where s = ?s and cfg = cfg] by (auto simp: later_def less_eq_session_state_def)
  moreover have "later s (?s\<lparr>s_phase := PConnecting\<rparr>)" using True s by (auto simp: later_def less_eq_session_state_def)
  ultimately show ?thesis using True by (auto simp: run_session_def Let_def split: sum.split)
qed (simp add: run_session_def)

lemma later_transport: "phase_ok s \<Longrightarrow> later s (transport_result cfg r s)"
  by (auto simp: transport_result_def later_failed later_connected split: sum.split)

lemma later_began: "phase_ok s \<Longrightarrow> later s (began r s)"
  by (auto simp: began_def later_failed split: sum.split)
    (auto simp: later_def phase_ok_def starting_def less_eq_session_state_def)

lemma later_stop_seen: "phase_ok s \<Longrightarrow> later s (stop_seen s)"
  by (auto simp: stop_seen_def later_failed later_finalise)

lemma later_audio_done: "later s (audio_close_done r s)"
  by (auto simp: audio_close_done_def later_def record_failure_def split: sum.split)

lemma later_transport_done: "later s (transport_close_done ev s)"
  by (auto simp: transport_close_done_def later_def record_failure_def split: sum.split)

lemma later_workers_done: "phase_ok s \<Longrightarrow> later s (workers_done late s)"
  by (auto simp: workers_done_def Let_def later_def record_failure_def phase_ok_def less_eq_session_state_def)

lemma later_complete: "phase_ok s \<Longrightarrow> later s (completePending c r e s)"
  using completePending_core [of c r e s] later_stop [of s None False] by (auto simp: later_def core_def)

lemma later_respond: "phase_ok s \<Longrightarrow> later s (fst (respond_with cfg res err cl ref s))"
  using respond_with_core [of cfg res err cl ref s] later_stop [of s None False] respond_sent [of s _ cfg res err cl ref]
  by (auto simp: later_def core_def)

lemma later_update [simp]:
  "later s (s\<lparr>s_reader := w\<rparr>)" "later s (s\<lparr>s_dispatcher := w\<rparr>)" "later s (s\<lparr>s_dispatch := q\<rparr>)" "later s (s\<lparr>s_next := n\<rparr>)"
  "later s (s\<lparr>s_audio := a\<rparr>)" "later s (s\<lparr>s_replies := rs\<rparr>)"
  by (simp_all add: later_def)

lemma later_quiet:
  "later s (fst (request cfg m p opts s))" "later s (fst (notify cfg ev d sig s))" "later s (send_settled k s)"
  "later s (cancelPending i n x s)" "later s (fst (deferResponse ref s))"
  using request_sent notify_sent
  by (auto intro!: later_core simp: request_core notify_core send_settled_core deferResponse_core)

lemmas later_moves = later_stop later_run later_transport later_began later_stop_seen later_workers_done later_complete later_respond

lemmas later_other = later_audio_done later_transport_done later_update later_quiet

lemma history_kept:
  "phase_ok t \<and> later s t \<Longrightarrow> (phase_ok t \<Longrightarrow> phase_ok u) \<Longrightarrow> (phase_ok t \<Longrightarrow> later t u) \<Longrightarrow> phase_ok u \<and> later s u"
  using later_trans by blast

interpretation history: session_invariant "\<lambda>t. phase_ok t \<and> later s t" for s
  by (unfold_locales; erule history_kept)
    (rule lifecycle.stop lifecycle.reader lifecycle.dispatcher lifecycle.dispatch lifecycle.fresh lifecycle.audio
      lifecycle.complete lifecycle.requested lifecycle.notified lifecycle.send_done lifecycle.cancelled lifecycle.responded
      lifecycle.deferred lifecycle.new_reply lifecycle.started lifecycle.connected lifecycle.beginning lifecycle.stopping
      lifecycle.audio_done lifecycle.transport_done lifecycle.workers later_moves later_other, assumption?)+

lemma steps_later:
  assumes "well_behaved cfg" "reachable cfg s" "(session_step cfg)\<^sup>*\<^sup>* s t"
  shows "phase_ok t \<and> later s t"
  using assms(3)
proof (induction rule: rtranclp_induct)
  case base
  then show ?case using reachable_phase_ok [OF assms(1,2)] by simp
next
  case (step t u)
  then show ?case using history.step_kept [OF assms(1)] by blast
qed

lemma turns_steps: "(session_step cfg)\<^sup>*\<^sup>* s (base_turns cfg ts s)"
proof (induction ts arbitrary: s)
  case (Cons t ts)
  then show ?case
    using session_step.turn [of cfg s t] by (simp add: base_turns_def converse_rtranclp_into_rtranclp)
qed (simp add: base_turns_def)

lemma reachable_steps: "(session_step cfg)\<^sup>*\<^sup>* s t \<Longrightarrow> reachable cfg s \<Longrightarrow> reachable cfg t"
  by (induction rule: rtranclp_induct) (auto intro: reachable.step)

lemma phase_ok_ended: "phase_ok s \<Longrightarrow> s_phase s = PDone \<longleftrightarrow> s_state s = Closed \<or> s_state s = Failed"
  by (cases "s_phase s") (auto simp: phase_ok_def starting_def split: option.splits sum.splits if_splits)

lemma phase_ok_done:
  "phase_ok s \<Longrightarrow> s_phase s = PDone \<Longrightarrow> s_run s \<noteq> None \<and> s_state s = (case s_run s of Some (Inr _) \<Rightarrow> Closed | _ \<Rightarrow> Failed)"
  by (simp add: phase_ok_def)

lemma phase_ok_not_done: "phase_ok s \<Longrightarrow> s_phase s \<noteq> PDone \<Longrightarrow> s_run s = None \<and> s_state s \<noteq> Closed \<and> s_state s \<noteq> Failed"
  by (cases "s_phase s") (auto simp: phase_ok_def starting_def)

lemma phase_ok_stopped: "phase_ok s \<Longrightarrow> s_state s = Closing \<Longrightarrow> s_aborted s \<noteq> None"
  by (cases "s_phase s") (auto simp: phase_ok_def starting_def split: option.splits sum.splits if_splits)

section \<open>A session to try things on\<close>

lemma next_sequence_Suc: "n < 2 ^ 53 \<Longrightarrow> next_sequence n = Suc n"
  using to_double_nat [of "Suc n"] by (simp add: next_sequence_def add.commute)

lemma next_sequence_code [code]:
  "next_sequence n = (if int n < 9007199254740992 then Suc n else (case to_double (of_nat n + 1) of Fin r \<Rightarrow> nat \<lfloor>r\<rfloor> | _ \<Rightarrow> n))"
  using next_sequence_Suc [of n] by (auto simp: next_sequence_def)

definition sample_handler :: "'s handler" where
  "sample_handler = \<lparr>h_adapter = EMPTY_ADAPTER, h_requests = Map.empty, h_events = Map.empty, h_onBegin = None, h_middleware = []\<rparr>"

definition sample_config :: session_config where
  "sample_config =
     \<lparr>cf_encode = (\<lambda>f. Inr (case f of Request i m p \<Rightarrow> i | Event i e d \<Rightarrow> i | Response c r e \<Rightarrow> c)),
      cf_decode = (\<lambda>t. Inr (if hd t = CHR ''q'' then Request t ''ping'' None else Response t None None)),
      cf_handler = sample_handler, cf_send = (\<lambda>n t. Inr ()), cf_transport = True, cf_keepalive = None,
      cf_supportsKeepalive = False, cf_monitorKeepalive = False\<rparr>"

definition sample_options :: session_options where
  "sample_options =
     \<lparr>so_envelope = True, so_transport = True, so_transportFactory = False, so_id = Some ''s'', so_requestTimeoutMs = Some (jsInt 9),
      so_closeTimeoutMs = Some (jsInt 9), so_dispatchCapacity = Some (jsInt 4), so_audioBufferBytes = Some (jsInt 8), so_keepalive = None\<rparr>"

definition sample_session :: session where
  "sample_session = projr (new_session 0 sample_options)"

definition plain_request :: request_options where
  "plain_request = \<lparr>ro_signal = NoSignal, ro_terminal = False, ro_timeoutMs = None\<rparr>"

lemma well_behaved_sample: "well_behaved sample_config" "well_behaved (sample_config\<lparr>cf_transport := b\<rparr>)"
  by (simp_all add: well_behaved_def sample_config_def sample_handler_def EMPTY_ADAPTER_def)

lemma sample_started: "isl (new_session 0 sample_options) = False"
  by code_simp

lemma reachable_sample: "reachable cfg (base_turns cfg ts sample_session)"
proof -
  have "new_session 0 sample_options = Inr sample_session"
    using sample_started by (simp add: sample_session_def)
  then show ?thesis using reachable_steps [OF turns_steps] reachable.start by blast
qed

section \<open>Properties\<close>

text \<open>
  Claim C3.  A session passes through its states in the order inactive, connecting, active, closing and
  then closed or failed; none is entered twice, and the last two are final, whatever the transport, the
  handlers and the callers of its methods do and in whatever order.
\<close>

theorem session_states_in_order:
  assumes "well_behaved cfg" "reachable cfg s" "(session_step cfg)\<^sup>*\<^sup>* s t"
  shows "s_state s \<le> s_state t \<and> (s_state s \<in> {Closed, Failed} \<longrightarrow> s_state t = s_state s)"
  using steps_later [OF assms] phase_ok_ended [OF reachable_phase_ok [OF assms(1,2)]] by (auto simp: later_def)

definition sample_life :: "turn list" where
  "sample_life = [TRun NoSignal, TBegan (Inr ()), TClose, TStopSeen, TAudioClosed (Inr ()), TTransportClosed (PromiseResolves ()),
     TReceiveFails queue_closed, TTake, TWorkersStopped False]"

theorem session_states_in_order_witness:
  "Inactive \<le> s_state (base_turns sample_config (sample_life @ [TRun NoSignal]) sample_session)
   \<and> s_state (base_turns sample_config (sample_life @ [TRun NoSignal]) sample_session) = Closed
   \<and> s_state (base_turns sample_config (take 2 sample_life) sample_session) = Active"
proof -
  let ?run = "\<lambda>ts. base_turns sample_config ts sample_session"
  have e: "s_state (?run sample_life) = Closed" "s_state (?run []) = Inactive" "s_state (?run (take 2 sample_life)) = Active" by code_simp+
  have "s_state (?run (sample_life @ [TRun NoSignal])) = Closed"
    using session_states_in_order [OF well_behaved_sample(1) reachable_sample turns_steps [of _ _ "[TRun NoSignal]"], of sample_life] e(1)
    by (simp add: base_turns_append)
  then show ?thesis
    using session_states_in_order [OF well_behaved_sample(1) reachable_sample turns_steps [of _ _ "sample_life @ [TRun NoSignal]"], of "[]"] e
    by (simp add: base_turns_append base_turns_def)
qed

text \<open>
  Claim C7.  Once a session is asked to stop, or is closing, closed or failed, it hands no further text to
  its transport, and the reason of the stop that its abort signal carries stays the first one.
\<close>

theorem no_send_after_stop:
  assumes "well_behaved cfg" "reachable cfg s" "(session_step cfg)\<^sup>*\<^sup>* s t"
    and "s_aborted s \<noteq> None \<or> s_state s \<in> {Closing, Closed, Failed}"
  shows "s_sent t = s_sent s \<and> s_aborted t = s_aborted s \<and> s_aborted t \<noteq> None"
proof -
  have ok: "phase_ok s" by (rule reachable_phase_ok [OF assms(1,2)])
  have "s_aborted s \<noteq> None"
    using assms(4) phase_ok_stopped [OF ok] phase_ok_ended [OF ok] ok by (auto simp: phase_ok_def)
  then show ?thesis using steps_later [OF assms(1-3)] by (auto simp: later_def)
qed

theorem no_send_after_stop_witness:
  "s_sent (base_turns sample_config [TNotify ''e'' WNull NoSignal] (base_turns sample_config
     [TRun NoSignal, TNotify ''e'' WNull NoSignal, TClose] sample_session)) = [''s-1'']"
proof -
  let ?s = "base_turns sample_config [TRun NoSignal, TNotify ''e'' WNull NoSignal, TClose] sample_session"
  have "s_sent ?s = [''s-1'']" "s_state ?s = Closing" by code_simp+
  then show ?thesis
    using no_send_after_stop [OF well_behaved_sample(1) reachable_sample turns_steps, of "[TRun NoSignal, TNotify ''e'' WNull NoSignal, TClose]"]
    by simp
qed

text \<open>
  The state of a session is the outcome of \<open>run\<close>: its promise is settled exactly when the session
  is closed or failed, resolved when it is closed and rejected when it has failed, and it is never
  settled again.
\<close>

theorem run_settles_with_state:
  assumes "well_behaved cfg" "reachable cfg s" "(session_step cfg)\<^sup>*\<^sup>* s t"
  shows "(s_run s = None \<longleftrightarrow> s_state s \<notin> {Closed, Failed})
    \<and> ((\<exists>e. s_run s = Some (Inl e)) \<longleftrightarrow> s_state s = Failed)
    \<and> (s_run s \<noteq> None \<longrightarrow> s_run t = s_run s)"
proof -
  have ok: "phase_ok s" by (rule reachable_phase_ok [OF assms(1,2)])
  show ?thesis
  proof (cases "s_phase s = PDone")
    case True
    then show ?thesis
      using phase_ok_done [OF ok True] steps_later [OF assms] by (cases "the (s_run s)") (auto simp: later_def)
  next
    case False
    then show ?thesis using phase_ok_not_done [OF ok False] by simp
  qed
qed

theorem run_settles_with_state_witness:
  "s_run (base_turns sample_config [TStop (Some queue_closed) True] (base_turns sample_config sample_life sample_session)) = Some (Inr ())
   \<and> \<not> (\<exists>e. s_run (base_turns sample_config sample_life sample_session) = Some (Inl e))"
proof -
  have "s_run (base_turns sample_config sample_life sample_session) = Some (Inr ())" by code_simp
  then show ?thesis
    using run_settles_with_state [OF well_behaved_sample(1) reachable_sample turns_steps, of sample_life "[TStop (Some queue_closed) True]"] by simp
qed

section \<open>The supervision comes to its end\<close>

definition progress :: "session \<Rightarrow> nat \<Rightarrow> bool" where
  "progress s n \<longleftrightarrow> phase_ok s \<and> s_aborted s \<noteq> None \<and> n \<le> phase_rank (s_phase s)"

lemma turn_progress: "progress s n \<Longrightarrow> progress (base_turn cfg t s) n"
  using history.turned [of s s cfg t] by (auto simp: progress_def later_def)

lemma steps_progress:
  assumes "well_behaved cfg" "(session_step cfg)\<^sup>*\<^sup>* s t" "progress s n"
  shows "progress t n"
  using assms(2,3)
proof (induction rule: rtranclp_induct)
  case (step t u)
  then show ?case using history.step_kept [OF assms(1), of t u t] by (auto simp: progress_def later_def)
qed

lemma stop_progress:
  "progress s 1 \<Longrightarrow> progress (base_turn cfg (TTransport r) s) 2"
  "progress s 2 \<Longrightarrow> progress (base_turn cfg TStopSeen s) 4"
  "progress s 4 \<Longrightarrow> progress (base_turn cfg (TAudioClosed ra) s) 5"
  "progress s 5 \<Longrightarrow> progress (base_turn cfg (TTransportClosed ev) s) 6"
  "progress s 6 \<Longrightarrow> progress (base_turn cfg (TWorkersStopped True) s) 7"
proof -
  show "progress s 1 \<Longrightarrow> progress (base_turn cfg (TTransport r) s) 2"
    using turn_progress [of s 1 cfg "TTransport r"] transport_connected_sel(4) [of cfg s]
    by (cases "s_phase s") (auto simp: progress_def transport_result_def supervise_failed_sel split: sum.splits)
  show "progress s 2 \<Longrightarrow> progress (base_turn cfg TStopSeen s) 4"
    using turn_progress [of s 2 cfg TStopSeen]
    by (cases "s_phase s") (auto simp: progress_def stop_seen_def supervise_failed_sel finalise_sel)
  show "progress s 4 \<Longrightarrow> progress (base_turn cfg (TAudioClosed ra) s) 5"
    using turn_progress [of s 4 cfg "TAudioClosed ra"]
    by (cases "s_phase s") (auto simp: progress_def audio_close_done_def split: sum.splits)
  show "progress s 5 \<Longrightarrow> progress (base_turn cfg (TTransportClosed ev) s) 6"
    using turn_progress [of s 5 cfg "TTransportClosed ev"]
    by (cases "s_phase s") (auto simp: progress_def transport_close_done_def split: sum.splits)
  show "progress s 6 \<Longrightarrow> progress (base_turn cfg (TWorkersStopped True) s) 7"
    using turn_progress [of s 6 cfg "TWorkersStopped True"]
    by (cases "s_phase s") (auto simp: progress_def workers_done_def Let_def)
qed

text \<open>
  Runs of a session in which given turns happen in a given order, with any steps of the session, turns of the
  event loop and handlers that come to their end, before, between and after them.
\<close>

inductive passes :: "session_config \<Rightarrow> turn list \<Rightarrow> session \<Rightarrow> session \<Rightarrow> bool" for cfg where
  rest: "(session_step cfg)\<^sup>*\<^sup>* s t \<Longrightarrow> passes cfg [] s t"
| pass: "(session_step cfg)\<^sup>*\<^sup>* s u \<Longrightarrow> passes cfg cs (base_turn cfg c u) t \<Longrightarrow> passes cfg (c # cs) s t"

inductive_cases passesE: "passes cfg [] s t" "passes cfg (c # cs) s t"

lemma passes_progress:
  assumes "well_behaved cfg" "passes cfg (c # cs) s t" "progress s n" "\<And>s. progress s n \<Longrightarrow> progress (base_turn cfg c s) m"
  obtains u where "passes cfg cs u t" "progress u m"
  using assms(2) by (rule passesE) (use assms(4) [OF steps_progress [OF assms(1) _ assms(3)]] that in blast)

lemma stopped_passes_end:
  assumes wb: "well_behaved cfg" and s: "progress s 1"
    and run: "passes cfg [TTransport r, TStopSeen, TAudioClosed ra, TTransportClosed ev, TWorkersStopped True] s t"
  shows "progress t 7"
proof -
  note next_turn = passes_progress [OF wb]
  obtain s1 where 1: "passes cfg [TStopSeen, TAudioClosed ra, TTransportClosed ev, TWorkersStopped True] s1 t" "progress s1 2"
    by (rule next_turn [OF run s stop_progress(1)])
  obtain s2 where 2: "passes cfg [TAudioClosed ra, TTransportClosed ev, TWorkersStopped True] s2 t" "progress s2 4"
    by (rule next_turn [OF 1 stop_progress(2)])
  obtain s3 where 3: "passes cfg [TTransportClosed ev, TWorkersStopped True] s3 t" "progress s3 5"
    by (rule next_turn [OF 2 stop_progress(3)])
  obtain s4 where 4: "passes cfg [TWorkersStopped True] s4 t" "progress s4 6" by (rule next_turn [OF 3 stop_progress(4)])
  obtain s5 where 5: "passes cfg [] s5 t" "progress s5 7" by (rule next_turn [OF 4 stop_progress(5)])
  show ?thesis by (rule passesE(1) [OF 5(1)]) (rule steps_progress [OF wb _ 5(2)])
qed

lemma passes_turns: "subseq cs ts \<Longrightarrow> passes cfg cs s (base_turns cfg ts s)"
proof (induction cs arbitrary: ts s)
  case Nil
  then show ?case by (simp add: passes.rest turns_steps)
next
  case (Cons c cs)
  obtain us vs where ts: "ts = us @ c # vs" "subseq cs vs" using list_emb_ConsD [OF Cons.prems] by auto
  have "passes cfg (c # cs) s (base_turns cfg vs (base_turn cfg c (base_turns cfg us s)))"
    by (rule passes.pass [OF turns_steps Cons.IH [OF ts(2)]])
  then show ?case using ts(1) by (simp add: base_turns_def)
qed

text \<open>
  Claim C4.  A session that runs and has been asked to stop ends as soon as what it waits for is over: the
  transport factory settles, the supervisor sees the stop, the audio close settles, the wait for the
  transport to close ends (it does so at the latest with its timer) and the wait for the workers ends (with
  its timer, whether or not the workers are done).  In every run of the session in which these turns
  happen in this order, with any other steps before, between and after them, handlers that finish in between
  included, the promise of \<open>run\<close> is settled in the end and the session is closed or failed.  The factory and
  the audio close have no timer in the code: the session waits for them as long as they take.
\<close>

theorem stopped_session_ends:
  assumes "well_behaved cfg" "reachable cfg s" "s_phase s \<noteq> PIdle" "s_aborted s \<noteq> None"
    and "passes cfg [TTransport r, TStopSeen, TAudioClosed ra, TTransportClosed ev, TWorkersStopped True] s t"
  shows "s_run t \<noteq> None \<and> s_state t \<in> {Closed, Failed}"
proof -
  have "1 \<le> phase_rank (s_phase s)" using assms(3) by (cases "s_phase s") simp_all
  then have "progress s 1" using reachable_phase_ok [OF assms(1,2)] assms(4) by (simp add: progress_def)
  from stopped_passes_end [OF assms(1) this assms(5)]
  have "phase_ok t" "s_phase t = PDone" using phase_rank_done by (simp_all add: progress_def)
  from phase_ok_done [OF this] show ?thesis by (simp split: option.split sum.split)
qed

theorem stopped_session_ends_witness:
  "s_run (base_turns sample_config
     [TNotify ''e'' WNull NoSignal, TTransport (Inr ()), TStopSeen, TAudioClosed (Inr ()), TReceive ''x'', TTransportClosed TimerFires, TWorkersStopped True]
     (base_turns sample_config [TRun NoSignal, TClose] sample_session)) \<noteq> None"
proof -
  have "s_phase (base_turns sample_config [TRun NoSignal, TClose] sample_session) = PBeginning"
    "s_aborted (base_turns sample_config [TRun NoSignal, TClose] sample_session) = Some (abort_reason None)" by code_simp+
  then show ?thesis
    by (intro conjunct1 [OF stopped_session_ends [OF well_behaved_sample(1) reachable_sample _ _ passes_turns, where r = "Inr ()" and ra = "Inr ()" and ev = TimerFires]])
      simp_all
qed

section \<open>Readiness\<close>

definition unrejected :: "session \<Rightarrow> bool" where
  "unrejected s \<longleftrightarrow> (s_state s = Connecting \<longrightarrow> s_aborted s = None) \<and> (\<forall>e. s_ready s \<noteq> ReadyRejected e)"

definition ready_ok :: "session \<Rightarrow> bool" where
  "ready_ok s \<longleftrightarrow> s_phase s \<noteq> PIdle \<and> unrejected s"

lemma ready_ok_failed: "unrejected s \<Longrightarrow> ready_ok (supervise_failed e s)"
  by (auto simp: ready_ok_def unrejected_def supervise_failed_sel)

lemma ready_ok_finalise: "unrejected s \<Longrightarrow> ready_ok (finalise s)"
  by (auto simp: ready_ok_def unrejected_def finalise_sel)

lemma ready_ok_connected:
  assumes "unrejected s"
  shows "ready_ok (transport_connected cfg s)"
proof -
  have "unrejected (s\<lparr>s_connected := True, s_reader := w, s_dispatcher := w\<rparr>)" for w using assms by (simp add: unrejected_def)
  then show ?thesis
    unfolding transport_connected_def Let_def by (auto intro: ready_ok_failed) (simp_all add: ready_ok_def unrejected_def)
qed

interpretation readiness: core_invariant ready_ok
proof
  fix s :: session
  assume ok: "ready_ok s"
  show "ready_ok t" if "core t = core s" for t using ok core_eqD [OF that] by (simp add: ready_ok_def unrejected_def)
  show "ready_ok (requestStop c f s)" for c f using ok by (auto simp: ready_ok_def unrejected_def split: option.splits)
  show "ready_ok (fst (run_session cfg sig s))" for cfg sig using ok by (simp add: run_session_def ready_ok_def)
  show "ready_ok (transport_result cfg tr s)" for cfg tr
    using ok by (simp add: transport_result_def ready_ok_def [of s] ready_ok_failed ready_ok_connected split: sum.split)
  show "ready_ok (began tr s)" for tr
    using ok by (auto simp: began_def ready_ok_def [of s] ready_ok_failed split: sum.split) (simp add: ready_ok_def unrejected_def)
  show "ready_ok (stop_seen s)" using ok by (simp add: stop_seen_def ready_ok_def [of s] ready_ok_failed ready_ok_finalise)
  show "ready_ok (audio_close_done tr s)" "ready_ok (transport_close_done race s)" "ready_ok (workers_done late s)" for tr race late
    using ok by (auto simp: audio_close_done_def transport_close_done_def workers_done_def Let_def record_failure_def ready_ok_def unrejected_def split: sum.splits)
qed

lemma ready_ok_run:
  assumes "phase_ok s" "s_phase s = PIdle" "s_aborted s = None"
  shows "ready_ok (fst (run_session cfg sig s))"
proof -
  have "unrejected (s\<lparr>s_state := Connecting, s_parent := b\<rparr>)" for b using assms by (simp add: unrejected_def phase_ok_def)
  then show ?thesis
    using assms(2) ready_ok_failed ready_ok_connected
    by (auto simp: run_session_def Let_def split: sum.split) (simp_all add: ready_ok_def unrejected_def)
qed

text \<open>
  Claim C9.  A session that is not stopped before it runs never rejects \<open>ready\<close>, however it fails while it
  starts: the failure path of \<open>#supervise\<close> asks the session to stop, which leaves the state connecting,
  before it tests for that state.  Who waits for \<open>ready\<close> of a session that fails to start waits forever.
\<close>

theorem ready_never_rejected:
  assumes "well_behaved cfg" "reachable cfg s" "s_phase s = PIdle" "s_aborted s = None"
    and "(session_step cfg)\<^sup>*\<^sup>* (fst (run_session cfg sig s)) t"
  shows "s_ready t \<noteq> ReadyRejected e"
proof -
  have "ready_ok (fst (run_session cfg sig s))" by (rule ready_ok_run [OF reachable_phase_ok [OF assms(1,2)] assms(3,4)])
  with assms(5) have "ready_ok t" by (induction rule: rtranclp_induct) (auto intro: readiness.step_kept [OF assms(1)])
  then show ?thesis by (simp add: ready_ok_def unrejected_def)
qed

theorem ready_never_rejected_witness:
  "s_state (base_turns (sample_config\<lparr>cf_transport := False\<rparr>)
       [TRun NoSignal, TTransport (Inl (JsError ''refused'')), TAudioClosed (Inr ()), TWorkersStopped False] sample_session) = Failed
   \<and> s_ready (base_turns (sample_config\<lparr>cf_transport := False\<rparr>)
       [TRun NoSignal, TTransport (Inl (JsError ''refused'')), TAudioClosed (Inr ()), TWorkersStopped False] sample_session)
     = Unsettled
   \<and> s_ready (base_turns (sample_config\<lparr>cf_transport := False\<rparr>)
       [TRun NoSignal, TTransport (Inl (JsError ''refused'')), TAudioClosed (Inr ()), TWorkersStopped False] sample_session)
     \<noteq> ReadyRejected (JsError ''refused'')"
proof -
  let ?c = "sample_config\<lparr>cf_transport := False\<rparr>"
  let ?ts = "[TTransport (Inl (JsError ''refused'')), TAudioClosed (Inr ()), TWorkersStopped False]"
  have "s_phase sample_session = PIdle" "s_aborted sample_session = None" by code_simp+
  then have "s_ready (base_turns ?c ?ts (fst (run_session ?c NoSignal sample_session))) \<noteq> ReadyRejected (JsError ''refused'')"
    by (intro ready_never_rejected [OF well_behaved_sample(2) reachable_sample [where ts = "[]", unfolded base_turns_def foldl_Nil] _ _ turns_steps])
  moreover have "base_turns ?c (TRun NoSignal # ?ts) sample_session = base_turns ?c ?ts (fst (run_session ?c NoSignal sample_session))"
    by (simp add: base_turns_def)
  moreover have "s_state (base_turns ?c (TRun NoSignal # ?ts) sample_session) = Failed"
    "s_ready (base_turns ?c (TRun NoSignal # ?ts) sample_session) = Unsettled" by code_simp+
  ultimately show ?thesis by simp
qed

end
