(* ===== verification/Session_Requests.thy ===== *)
theory Session_Requests
  imports Session_History "HOL-Library.Multiset"
begin

text \<open>
  The requests of a session: every promise that \<open>request\<close> hands out is settled at most once, none is
  lost, responses reach the request they name, and when the session has ended nothing stays pending.
\<close>

section \<open>The books\<close>

definition pending_promises :: "session \<Rightarrow> nat list" where
  "pending_promises s = map (\<lambda>e. pd_promise (snd e)) (s_pending s)"

text \<open>The promises of requests: those that are settled and those that wait.\<close>

definition all_promises :: "session \<Rightarrow> nat list" where
  "all_promises s = map fst (s_settled s) @ pending_promises s"

definition request_id :: "session \<Rightarrow> nat \<Rightarrow> string" where
  "request_id s k = s_id s @ ''-'' @ nat_text 36 k"

lemma request_id_inj [simp]: "request_id s m = request_id s n \<longleftrightarrow> m = n"
  using nat_text_inj [of 36 m n] by (auto simp: request_id_def)

text \<open>The fields that the books consist of.\<close>

definition books :: "session \<Rightarrow> string \<times> nat \<times> nat \<times> (string \<times> pending) list \<times> (nat \<times> json option result) list
    \<times> (string \<times> nat \<times> unit result) list" where
  "books s = (s_id s, s_sequence s, s_next s, s_pending s, s_settled s, s_sending s)"

lemma books_eqD:
  "books t = books s \<Longrightarrow> s_id t = s_id s \<and> s_sequence t = s_sequence s \<and> s_next t = s_next s \<and> s_pending t = s_pending s
     \<and> s_settled t = s_settled s \<and> s_sending t = s_sending s"
  by (simp add: books_def)

lemma books_simps [simp]:
  "books (s\<lparr>s_reader := w\<rparr>) = books s" "books (s\<lparr>s_dispatcher := w\<rparr>) = books s" "books (s\<lparr>s_dispatch := q\<rparr>) = books s"
  "books (s\<lparr>s_audio := a\<rparr>) = books s" "books (s\<lparr>s_replies := rs\<rparr>) = books s" "books (s\<lparr>s_responses := ks\<rparr>) = books s"
  "books (s\<lparr>s_sent := ts\<rparr>) = books s" "books (s\<lparr>s_parent := b\<rparr>) = books s" "books (s\<lparr>s_phase := p\<rparr>) = books s"
  "books (s\<lparr>s_state := x\<rparr>) = books s" "books (s\<lparr>s_ready := y\<rparr>) = books s" "books (s\<lparr>s_connected := c\<rparr>) = books s"
  "books (s\<lparr>s_run := z\<rparr>) = books s" "books (requestStop c' f s) = books s" "books (record_failure e s) = books s"
  by (simp_all add: books_def record_failure_def)

lemma wake_books [simp]: "books (wake s e) = books s"
  by (cases e) (simp_all add: worker_failed_def)

lemma wakes_books [simp]: "books (foldl wake s es) = books s"
  by (induction es arbitrary: s) simp_all

lemma sendFrame_books: "books (fst (sendFrame cfg f s)) = books s"
  by (simp add: sendFrame_def split: sum.split)

lemma respond_books: "books (fst (respond_with cfg res err cl ref s)) = books s"
proof -
  have "books t = books u" if "sendResponse cfg i a b u = (t, x)" for i a b t u x
    using sendFrame_books [of cfg "Response i a b" u] that by (simp add: sendResponse_def)
  then show ?thesis by (auto simp: respond_with_def Let_def split: sum.splits prod.splits)
qed

lemma defer_books: "books (fst (deferResponse ref s)) = books s"
  by (auto simp: deferResponse_def split: sum.splits prod.splits)

text \<open>The \<open>finally\<close> block rejects what is pending and empties the map.\<close>

definition failed_all :: "session \<Rightarrow> session \<Rightarrow> bool" where
  "failed_all s t \<longleftrightarrow> s_id t = s_id s \<and> s_sequence t = s_sequence s \<and> s_next t = s_next s \<and> s_sending t = s_sending s \<and> s_pending t = []
     \<and> (\<exists>x. s_settled t = s_settled s @ map (\<lambda>e. (pd_promise (snd e), Inl x)) (s_pending s))"

lemma finalise_failed_all: "failed_all s (finalise s)"
proof -
  let ?s1 = "(if s_aborted s = None then requestStop None False s else s)\<lparr>s_parent := False\<rparr>"
  obtain q es where c: "close (s_dispatch ?s1) = (q, es)" by (metis prod.exhaust)
  let ?s2 = "foldl wake (?s1\<lparr>s_dispatch := q\<rparr>) es"
  have "books ?s2 = books s" by simp
  from books_eqD [OF this] show ?thesis
    unfolding finalise_def Let_def c prod.case by (auto simp: failed_all_def failPending_def split_beta)
qed

lemma failed_all_cong: "failed_all u t \<Longrightarrow> books u = books s \<Longrightarrow> failed_all s t"
  by (auto simp: failed_all_def dest: books_eqD)

lemma supervise_failed_all: "failed_all s (supervise_failed e s)"
  unfolding supervise_failed_def Let_def by (rule failed_all_cong [OF finalise_failed_all]) simp

section \<open>Taking a request out of the map\<close>

lemma take_out:
  assumes "distinct (map fst ps)" "map_of ps i = Some p"
  shows "mset (map (\<lambda>e. pd_promise (snd e)) ps) = add_mset (pd_promise p) (mset (map (\<lambda>e. pd_promise (snd e)) (filter (\<lambda>e. fst e \<noteq> i) ps)))"
  using assms
proof (induction ps)
  case (Cons e ps)
  show ?case
  proof (cases "fst e = i")
    case True
    with Cons.prems(1) have "i \<notin> fst ` set ps" by simp
    then have "filter (\<lambda>e. fst e \<noteq> i) ps = ps" by (intro filter_True) (metis imageI)
    then show ?thesis using True Cons.prems(2) by simp
  qed (use Cons in auto)
qed simp

text \<open>One entry settled, the others as they were.\<close>

lemma settle_accounts:
  assumes "distinct (map fst (s_pending s))" "map_of (s_pending s) i = Some p"
  shows "mset (all_promises (settle (pd_promise p) r (delete_pending i s))) = mset (all_promises s)"
  using take_out [OF assms] by (simp add: all_promises_def pending_promises_def)

section \<open>The invariant\<close>

text \<open>The ids in the map are the ones given out, as long as the sequence number counts.\<close>

definition ids_ok :: "session \<Rightarrow> bool" where
  "ids_ok s \<longleftrightarrow> s_sequence s < 2 ^ 53 \<longrightarrow> fst ` set (s_pending s) \<subseteq> request_id s ` {.. s_sequence s}"

text \<open>What is pending after the \<open>finally\<close> block: requests whose send has failed.\<close>

definition doomed :: "session \<Rightarrow> string \<times> pending \<Rightarrow> bool" where
  "doomed s e \<longleftrightarrow> (\<exists>x. (fst e, pd_promise (snd e), Inl x) \<in> set (s_sending s))"

definition doomed_ok :: "session \<Rightarrow> bool" where
  "doomed_ok s \<longleftrightarrow> 4 \<le> phase_rank (s_phase s) \<longrightarrow> (\<forall>e \<in> set (s_pending s). doomed s e)"

definition requests_ok :: "session \<Rightarrow> bool" where
  "requests_ok s \<longleftrightarrow> phase_ok s \<and> distinct (map fst (s_pending s)) \<and> distinct (all_promises s)
     \<and> (\<forall>p \<in> set (all_promises s). p < s_next s) \<and> ids_ok s \<and> doomed_ok s"

text \<open>
  What later sessions owe to an earlier one: no promise of it is lost, what it has settled stays settled,
  and a request of it that is still pending is pending under the same id.
\<close>

definition follows :: "session \<Rightarrow> session \<Rightarrow> bool" where
  "follows s t \<longleftrightarrow> requests_ok t \<and> mset (all_promises s) \<subseteq># mset (all_promises t) \<and> prefix (s_settled s) (s_settled t)
     \<and> s_next s \<le> s_next t \<and> {e \<in> set (s_pending t). pd_promise (snd e) < s_next s} \<subseteq> set (s_pending s)"

lemma all_promises_books: "books t = books s \<Longrightarrow> all_promises t = all_promises s"
  by (simp add: books_def all_promises_def pending_promises_def)

lemma ids_ok_books: "books t = books s \<Longrightarrow> ids_ok t = ids_ok s"
  by (drule books_eqD) (simp add: ids_ok_def request_id_def [abs_def])

lemma doomed_books: "books t = books s \<Longrightarrow> doomed t = doomed s"
  by (drule books_eqD) (simp add: doomed_def [abs_def])

abbreviation same_side :: "session \<Rightarrow> session \<Rightarrow> bool" where
  "same_side s t \<equiv> 4 \<le> phase_rank (s_phase t) \<longrightarrow> 4 \<le> phase_rank (s_phase s)"

lemma requests_ok_books:
  assumes "requests_ok s" "books t = books s" "phase_ok t" "same_side s t"
  shows "requests_ok t"
  using assms(1,3,4) books_eqD [OF assms(2)] all_promises_books [OF assms(2)] ids_ok_books [OF assms(2)] doomed_books [OF assms(2)]
  by (simp add: requests_ok_def doomed_ok_def)

lemma follows_books:
  assumes "follows r s" "books t = books s" "phase_ok t" "same_side s t"
  shows "follows r t"
  using requests_ok_books [OF _ assms(2-4)] assms(1) all_promises_books [OF assms(2)] books_eqD [OF assms(2)] by (simp add: follows_def)

text \<open>Operations that settle some of the pending requests.\<close>

lemma follows_fewer:
  assumes "follows r s" "phase_ok t" "s_phase t = s_phase s" "s_id t = s_id s" "s_sequence t = s_sequence s" "s_next t = s_next s"
    "mset (all_promises t) = mset (all_promises s)" "prefix (s_settled s) (s_settled t)"
    "s_pending t = filter P (s_pending s)" "\<forall>e \<in> set (s_pending t). doomed s e \<longrightarrow> doomed t e"
  shows "follows r t"
proof -
  have s: "requests_ok s" using assms(1) by (simp add: follows_def)
  have "distinct (map fst (s_pending t))" using s assms(9) by (simp add: requests_ok_def distinct_map_filter)
  moreover have "distinct (all_promises t)" "\<forall>p \<in> set (all_promises t). p < s_next t"
    using s mset_eq_imp_distinct_iff [OF assms(7)] mset_eq_setD [OF assms(7)] assms(6) by (simp_all add: requests_ok_def)
  moreover have "request_id t = request_id s" using assms(4) by (simp add: request_id_def [abs_def])
  then have "ids_ok t" using s assms(5,9) by (auto simp: requests_ok_def ids_ok_def)
  moreover have "doomed_ok t" using s assms(3,9,10) by (auto simp: requests_ok_def doomed_ok_def)
  ultimately have "requests_ok t" using assms(2) by (simp add: requests_ok_def)
  then show ?thesis using assms(1,6-9) by (auto simp: follows_def intro: prefix_order.trans)
qed

lemma follows_failed_all:
  assumes "follows r s" "failed_all s t" "phase_ok t"
  shows "follows r t"
proof -
  obtain x where x: "s_settled t = s_settled s @ map (\<lambda>e. (pd_promise (snd e), Inl x)) (s_pending s)" "s_pending t = []" "s_next t = s_next s"
    using assms(2) by (auto simp: failed_all_def)
  have "all_promises t = all_promises s" by (simp add: all_promises_def pending_promises_def x comp_def)
  then show ?thesis
    using assms(1,3) x by (auto simp: follows_def requests_ok_def ids_ok_def doomed_ok_def intro: prefix_order.trans)
qed

section \<open>Operations\<close>

lemma follows_cancel:
  assumes "follows r s"
  shows "follows r (cancelPending i n x s)"
proof (cases "map_of (s_pending s) i")
  case (Some p)
  have d: "distinct (map fst (s_pending s))" and ok: "phase_ok s" using assms by (simp_all add: follows_def requests_ok_def)
  have c: "cancelPending i n x s = settle (pd_promise p) (Inl x) (delete_pending i s)" if "pd_promise p = n"
    using Some that by (simp add: cancelPending_def)
  show ?thesis
  proof (cases "pd_promise p = n")
    case True
    show ?thesis unfolding c [OF True]
      using follows_fewer [OF assms, of "settle (pd_promise p) (Inl x) (delete_pending i s)" "\<lambda>e. fst e \<noteq> i"]
        settle_accounts [OF d Some] lifecycle.cancelled [OF ok, of i n x] c [OF True]
      by (simp add: doomed_def)
  qed (use assms Some in \<open>simp add: cancelPending_def\<close>)
qed (use assms in \<open>simp add: cancelPending_def\<close>)

lemma follows_complete:
  assumes "follows r s"
  shows "follows r (completePending c res err s)"
proof (cases "map_of (s_pending s) c")
  case (Some p)
  have d: "distinct (map fst (s_pending s))" and ok: "phase_ok s" using assms by (simp_all add: follows_def requests_ok_def)
  let ?s = "settle (pd_promise p) (case err of Some e \<Rightarrow> Inl (RemoteError e) | None \<Rightarrow> Inr res) (delete_pending c s)"
  have "phase_ok ?s" using ok phase_ok_cong [of ?s s] by simp
  then have f: "follows r ?s"
    using follows_fewer [OF assms, of ?s "\<lambda>e. fst e \<noteq> c"] settle_accounts [OF d Some] by (simp add: doomed_def)
  then show ?thesis
    using Some follows_books [OF f, of "requestStop None False ?s"] phase_ok_stop [of ?s None False] \<open>phase_ok ?s\<close>
    by (simp add: completePending_def Let_def)
qed (use assms in \<open>simp add: completePending_def\<close>)

lemma cancel_sending: "cancelPending i p e (s\<lparr>s_sending := xs\<rparr>) = (cancelPending i p e s)\<lparr>s_sending := xs\<rparr>"
  by (simp add: cancelPending_def settle_def delete_pending_def split: option.split)

lemma cancel_sel [simp]: "s_sending (cancelPending i p e s) = s_sending s"
  by (simp add: cancelPending_def split: option.split)

lemma cancelled_gone:
  assumes "distinct (map fst (s_pending s))" "q \<in> set (s_pending (cancelPending i p e s))"
  shows "(fst q, pd_promise (snd q)) \<noteq> (i, p)"
proof (cases "map_of (s_pending s) i")
  case None
  then have "i \<notin> fst ` set (s_pending s)" by (simp add: map_of_eq_None_iff)
  then show ?thesis using assms(2) None by (auto simp: cancelPending_def)
next
  case (Some pnd)
  have "snd q = pnd" if "q \<in> set (s_pending s)" "fst q = i"
    using assms(1) Some that by (metis map_of_eq_Some_iff option.inject prod.collapse)
  then show ?thesis using assms(2) Some by (auto simp: cancelPending_def split: if_splits)
qed

lemma follows_drop_send:
  assumes "follows r s" "set (s_sending s) \<subseteq> insert (i, p, res) (set xs)"
    "\<And>q. q \<in> set (s_pending s) \<Longrightarrow> (fst q, pd_promise (snd q)) = (i, p) \<Longrightarrow> \<exists>v. res = Inr v"
  shows "follows r (s\<lparr>s_sending := xs\<rparr>)"
proof (rule follows_fewer [OF assms(1), where P = "\<lambda>_. True"])
  show "phase_ok (s\<lparr>s_sending := xs\<rparr>)" using assms(1) phase_ok_cong [of "s\<lparr>s_sending := xs\<rparr>" s] by (simp add: follows_def requests_ok_def)
  show "\<forall>e \<in> set (s_pending (s\<lparr>s_sending := xs\<rparr>)). doomed s e \<longrightarrow> doomed (s\<lparr>s_sending := xs\<rparr>) e"
    using assms(2,3) by (fastforce simp: doomed_def)
qed (simp_all add: all_promises_def pending_promises_def)

lemma follows_send_settled:
  assumes "follows r s"
  shows "follows r (send_settled k s)"
proof (cases "k < length (s_sending s)")
  case True
  obtain i p res where k: "s_sending s ! k = (i, p, res)" by (metis prod.exhaust)
  let ?xs = "take k (s_sending s) @ drop (Suc k) (s_sending s)"
  have split: "set (s_sending s) \<subseteq> insert (i, p, res) (set ?xs)"
    by (subst id_take_nth_drop [OF True]) (auto simp: k)
  have d: "distinct (map fst (s_pending s))" using assms by (simp add: follows_def requests_ok_def)
  show ?thesis
  proof (cases res)
    case (Inl e)
    then show ?thesis
      using True k follows_drop_send [OF follows_cancel [OF assms, of i p e], of i p res ?xs] split cancelled_gone [OF d, of _ i p e]
      by (simp add: send_settled_def cancel_sending) blast
  next
    case (Inr v)
    then show ?thesis using True k follows_drop_send [OF assms split] by (simp add: send_settled_def)
  qed
qed (use assms in \<open>simp add: send_settled_def\<close>)

lemma next_sequence_large: "2 ^ 53 \<le> n \<Longrightarrow> 2 ^ 53 \<le> next_sequence n"
proof -
  assume n: "2 ^ 53 \<le> n"
  then have "(2::rat) ^ 53 \<le> of_nat n" by (metis of_nat_le_iff of_nat_numeral of_nat_power)
  then have "(2::rat) ^ 53 \<le> of_nat n + 1" by linarith
  from to_double_ge [OF this] show ?thesis
    using n by (auto simp: next_sequence_def le_nat_iff le_floor_iff)
qed

text \<open>A request throws and leaves the books as they are, but for the numbers it has used, or it waits.\<close>

definition request_throws :: "session \<Rightarrow> session \<Rightarrow> unit outcome \<Rightarrow> bool" where
  "request_throws s t out \<longleftrightarrow> (\<exists>e. out = Threw e) \<and> s_id t = s_id s \<and> s_pending t = s_pending s \<and> s_settled t = s_settled s
     \<and> s_sending t = s_sending s \<and> (s_sequence t = s_sequence s \<or> s_sequence t = next_sequence (s_sequence s)) \<and> s_next s \<le> s_next t"

definition request_waits :: "session \<Rightarrow> session \<Rightarrow> unit outcome \<Rightarrow> bool" where
  "request_waits s t out \<longleftrightarrow>
     out = Waiting (s_next s) \<and> s_id t = s_id s \<and> s_settled t = s_settled s
     \<and> s_sequence t = next_sequence (s_sequence s) \<and> s_next t = Suc (s_next s)
     \<and> map_of (s_pending s) (request_id s (s_sequence t)) = None
     \<and> (\<exists>pnd. s_pending t = s_pending s @ [(request_id s (s_sequence t), pnd)] \<and> pd_promise pnd = s_next s)
     \<and> (\<exists>x. s_sending t = s_sending s @ [(request_id s (s_sequence t), s_next s, x)] \<and> (s_aborted s \<noteq> None \<longrightarrow> x = Inl session_closed))"

lemma sendFrame_sel:
  "sendFrame cfg f s = (t, x) \<Longrightarrow> s_id t = s_id s \<and> s_sequence t = s_sequence s \<and> s_next t = s_next s \<and> s_pending t = s_pending s
     \<and> s_settled t = s_settled s \<and> s_sending t = s_sending s \<and> (s_aborted s \<noteq> None \<longrightarrow> x = Inl session_closed)"
  by (auto simp: sendFrame_def split: if_splits sum.splits)

lemma request_cases:
  assumes "request cfg m p opts s = (t, out)"
  shows "request_throws s t out \<or> request_waits s t out"
proof -
  let ?n = "next_sequence (s_sequence s)" and ?s1 = "s\<lparr>s_sequence := next_sequence (s_sequence s)\<rparr>"
  let ?i = "request_id s ?n"
  have nid: "nextId s = (?i, ?s1)" by (simp add: nextId_def request_id_def Let_def)
  consider (guard) e where "bindR (requireConnected s) (\<lambda>_. throwIfAborted (ro_signal opts)) = Inl e"
    | (ready) "bindR (requireConnected s) (\<lambda>_. throwIfAborted (ro_signal opts)) = Inr ()"
    by (metis (full_types) old.unit.exhaust sum.exhaust)
  then show ?thesis
  proof cases
    case guard
    then show ?thesis using assms by (auto simp: request_def request_throws_def)
  next
    case ready
    note req = assms [unfolded request_def ready sum.case nid prod.case Let_def]
    show ?thesis
    proof (cases "m = []")
      case False
      note req = req [unfolded if_not_P [OF False]]
      show ?thesis
      proof (cases "positiveTimeout (case ro_timeoutMs opts of None \<Rightarrow> jsInt (int (s_requestTimeoutMs ?s1)) | Some t \<Rightarrow> t) ''request timeout''")
        case (Inl e)
        then show ?thesis using req by (auto simp: request_throws_def)
      next
        case (Inr tm)
        note req = req [unfolded Inr sum.case]
        show ?thesis
        proof (cases "map_of (s_pending s) ?i")
          case None
          then show ?thesis
            using req by (auto simp: request_waits_def split: prod.splits dest!: sendFrame_sel)
        qed (use req in \<open>auto simp: request_throws_def\<close>)
      qed
    qed (use req in \<open>auto simp: request_throws_def\<close>)
  qed
qed

lemma next_sequence_mono: "next_sequence n < 2 ^ 53 \<Longrightarrow> n < 2 ^ 53 \<and> next_sequence n = Suc n"
  using next_sequence_Suc [of n] next_sequence_large [of n] by (meson leD not_le)

lemma ids_ok_grows:
  assumes "ids_ok s" "s_id t = s_id s" "s_sequence t = s_sequence s \<or> s_sequence t = next_sequence (s_sequence s)"
    "fst ` set (s_pending t) \<subseteq> insert (request_id s (s_sequence t)) (fst ` set (s_pending s))"
  shows "ids_ok t"
proof -
  have "request_id t = request_id s" using assms(2) by (simp add: request_id_def [abs_def])
  moreover have "s_sequence s < 2 ^ 53 \<and> s_sequence s \<le> s_sequence t" if "s_sequence t < 2 ^ 53"
    using assms(3) that next_sequence_mono [of "s_sequence s"] by auto
  moreover have "request_id s ` {.. s_sequence s} \<subseteq> request_id s ` {.. s_sequence t}" if "s_sequence s \<le> s_sequence t"
    using that by (intro image_mono) simp
  ultimately show ?thesis
    unfolding ids_ok_def using assms(1)[unfolded ids_ok_def] subset_trans [OF assms(4)]
    by (metis (no_types, lifting) atMost_iff dual_order.trans imageI insert_subset order_refl)
qed

text \<open>Operations that only use up numbers.\<close>

lemma follows_numbers:
  assumes "follows r s" "phase_ok t" "same_side s t" "s_id t = s_id s" "s_pending t = s_pending s" "s_settled t = s_settled s"
    "s_sending t = s_sending s" "s_sequence t = s_sequence s \<or> s_sequence t = next_sequence (s_sequence s)" "s_next s \<le> s_next t"
  shows "follows r t"
proof -
  have "all_promises t = all_promises s" "doomed t = doomed s"
    using assms(5-7) by (simp_all add: all_promises_def pending_promises_def doomed_def [abs_def])
  moreover have "ids_ok t" using assms by (intro ids_ok_grows [of s t]) (auto simp: follows_def requests_ok_def)
  ultimately show ?thesis using assms by (fastforce simp: follows_def requests_ok_def doomed_ok_def)
qed

lemma follows_request:
  assumes "follows r s"
  shows "follows r (fst (request cfg m p opts s))"
proof -
  obtain t out where t: "request cfg m p opts s = (t, out)" by (metis prod.exhaust)
  have s: "requests_ok s" using assms by (simp add: follows_def)
  have ph: "s_phase t = s_phase s" "phase_ok t"
    using request_core [of cfg m p opts s] t s lifecycle.requested [of s cfg m p opts] by (auto simp: core_def requests_ok_def)
  from request_cases [OF t] show ?thesis
  proof
    assume "request_throws s t out"
    then show ?thesis using follows_numbers [OF assms ph(2)] ph(1) t by (simp add: request_throws_def)
  next
    assume w: "request_waits s t out"
    let ?i = "request_id s (s_sequence t)"
    obtain pnd x where pnd: "s_pending t = s_pending s @ [(?i, pnd)]" "pd_promise pnd = s_next s" "?i \<notin> fst ` set (s_pending s)"
      and x: "s_sending t = s_sending s @ [(?i, s_next s, x)]" "s_aborted s \<noteq> None \<longrightarrow> x = Inl session_closed"
      using w by (auto simp: request_waits_def map_of_eq_None_iff)
    have all: "all_promises t = all_promises s @ [s_next s]"
      using w pnd by (simp add: request_waits_def all_promises_def pending_promises_def)
    have "ids_ok t" using s w pnd by (intro ids_ok_grows [of s t]) (auto simp: requests_ok_def request_waits_def)
    moreover have "s_aborted s \<noteq> None" if "4 \<le> phase_rank (s_phase s)"
      using s that by (cases "s_phase s") (auto simp: requests_ok_def phase_ok_def)
    then have "doomed_ok t" using s ph(1) pnd x by (fastforce simp: requests_ok_def doomed_ok_def doomed_def)
    moreover have "distinct (map fst (s_pending t))" using s pnd by (simp add: requests_ok_def)
    moreover have "s_next t = Suc (s_next s)" "s_settled t = s_settled s" using w by (simp_all add: request_waits_def)
    moreover have "distinct (all_promises t)" "\<forall>q \<in> set (all_promises t). q < Suc (s_next s)"
      using s all by (auto simp: requests_ok_def)
    ultimately show ?thesis
      using assms ph(2) t all pnd(1,2) by (auto simp: follows_def requests_ok_def intro: subset_mset.order_trans)
  qed
qed

lemma follows_notify:
  assumes "follows r s"
  shows "follows r (fst (notify cfg ev d sig s))"
proof -
  obtain t x where t: "notify cfg ev d sig s = (t, x)" by (metis prod.exhaust)
  have "phase_ok t" "s_phase t = s_phase s"
    using lifecycle.notified [of s cfg ev d sig] notify_core [of cfg ev d sig s] assms t by (auto simp: follows_def requests_ok_def core_def)
  moreover have "s_id t = s_id s \<and> s_pending t = s_pending s \<and> s_settled t = s_settled s \<and> s_sending t = s_sending s \<and> s_next s \<le> s_next t
      \<and> (s_sequence t = s_sequence s \<or> s_sequence t = next_sequence (s_sequence s))"
    using t by (auto simp: notify_def nextId_def Let_def split: sum.splits if_splits dest: sendFrame_sel)
  ultimately show ?thesis using follows_numbers [OF assms, of t] t by simp
qed

lemma follows_phase_ok: "follows r s \<Longrightarrow> phase_ok s"
  by (simp add: follows_def requests_ok_def)

lemma follows_failed:
  "follows r s \<Longrightarrow> books s' = books s \<Longrightarrow> phase_ok (supervise_failed e s') \<Longrightarrow> follows r (supervise_failed e s')"
  using follows_failed_all [OF _ failed_all_cong [OF supervise_failed_all]] .

lemma follows_connected:
  assumes "follows r s" "books s' = books s" "phase_ok (transport_connected cfg s')"
  shows "follows r (transport_connected cfg s')"
proof (cases "cf_supportsKeepalive cfg \<and> cf_keepalive cfg \<noteq> None \<and> \<not> cf_monitorKeepalive cfg")
  case True
  show ?thesis
    using follows_failed [OF assms(1) _ assms(3) [unfolded transport_connected_def Let_def if_P [OF True]]] assms(2)
    unfolding transport_connected_def Let_def if_P [OF True] by simp
next
  case False
  show ?thesis
    using follows_books [OF assms(1) _ assms(3) [unfolded transport_connected_def Let_def if_not_P [OF False]]] assms(2)
    unfolding transport_connected_def Let_def if_not_P [OF False] by simp
qed

lemma follows_run:
  assumes "follows r s"
  shows "follows r (fst (run_session cfg sig s))"
proof (cases "s_phase s = PIdle")
  case True
  have ok: "phase_ok (fst (run_session cfg sig s))" by (rule lifecycle.started [OF follows_phase_ok [OF assms]])
  show ?thesis
    using ok follows_failed [OF assms] follows_connected [OF assms] follows_books [OF assms] True
    by (auto simp: run_session_def Let_def split: sum.splits if_splits)
qed (use assms in \<open>simp add: run_session_def\<close>)

interpretation requests: session_invariant "follows r" for r
proof
  fix s :: session
  assume f: "follows r s"
  note ok = follows_phase_ok [OF f]
  show "follows r (requestStop c x s)" for c x using follows_books [OF f] lifecycle.stop [OF ok] by simp
  show "follows r (s\<lparr>s_reader := w\<rparr>)" for w using follows_books [OF f] lifecycle.reader [OF ok] by simp
  show "follows r (s\<lparr>s_dispatcher := w\<rparr>)" for w using follows_books [OF f] lifecycle.dispatcher [OF ok] by simp
  show "follows r (s\<lparr>s_dispatch := q\<rparr>)" for q using follows_books [OF f] lifecycle.dispatch [OF ok] by simp
  show "follows r (s\<lparr>s_audio := a\<rparr>)" for a using follows_books [OF f] lifecycle.audio [OF ok] by simp
  show "follows r (s\<lparr>s_next := Suc (s_next s)\<rparr>)" using follows_numbers [OF f lifecycle.fresh [OF ok]] by simp
  show "follows r (s\<lparr>s_replies := s_replies s @ [\<lparr>rp_requestId = i, rp_status = Unclaimed\<rparr>]\<rparr>)" for i
    using follows_books [OF f] lifecycle.new_reply [OF ok] by simp
  show "follows r (fst (respond_with cfg res err cl ref s))" for cfg res err cl ref
    using follows_books [OF f respond_books lifecycle.responded [OF ok]] respond_with_core [of cfg res err cl ref s] by (auto simp: core_def)
  show "follows r (fst (deferResponse ref s))" for ref
    using follows_books [OF f defer_books lifecycle.deferred [OF ok]] deferResponse_core [of ref s] by (auto simp: core_def)
  show "follows r (fst (run_session cfg sig s))" for cfg sig using f by (rule follows_run)
  show "follows r (transport_result cfg tr s)" for cfg tr
    using follows_failed [OF f] follows_connected [OF f] lifecycle.connected [OF ok, of cfg tr] f
    by (auto simp: transport_result_def split: sum.splits)
  show "follows r (began tr s)" for tr
    using follows_failed [OF f] follows_books [OF f] lifecycle.beginning [OF ok, of tr] f
    by (auto simp: began_def split: sum.splits if_splits)
  show "follows r (stop_seen s)"
    using follows_failed [OF f] follows_failed_all [OF f finalise_failed_all] lifecycle.stopping [OF ok] f
    by (auto simp: stop_seen_def split: if_splits)
  show "follows r (audio_close_done tr s)" for tr
    using follows_books [OF f _ lifecycle.audio_done [OF ok, of tr]] f by (auto simp: audio_close_done_def split: sum.splits if_splits)
  show "follows r (transport_close_done race s)" for race
    using follows_books [OF f _ lifecycle.transport_done [OF ok, of race]] f by (auto simp: transport_close_done_def split: sum.splits if_splits)
  show "follows r (workers_done late s)" for late
    using follows_books [OF f _ lifecycle.workers [OF ok, of late]] f by (auto simp: workers_done_def Let_def split: if_splits)
qed (fact follows_complete follows_request follows_notify follows_send_settled follows_cancel)+

lemma requests_ok_start: "new_session now opts = Inr s \<Longrightarrow> requests_ok s"
  by (frule phase_ok_start)
    (auto simp: new_session_def bindR_Inr_iff requests_ok_def ids_ok_def doomed_ok_def all_promises_def pending_promises_def split: if_splits)

lemma follows_refl: "requests_ok s \<Longrightarrow> follows s s"
  by (auto simp: follows_def requests_ok_def all_promises_def pending_promises_def)

lemma steps_follow: "well_behaved cfg \<Longrightarrow> (session_step cfg)\<^sup>*\<^sup>* s t \<Longrightarrow> follows r s \<Longrightarrow> follows r t"
  by (rotate_tac 1, induction rule: rtranclp_induct) (blast intro: requests.step_kept)+

lemma reachable_requests_ok:
  assumes "well_behaved cfg" "reachable cfg s"
  shows "requests_ok s"
  using assms(2)
proof (induction rule: reachable.induct)
  case (step s t)
  then show ?case using requests.step_kept [OF assms(1) step.hyps(2) follows_refl] by (simp add: follows_def)
qed (rule requests_ok_start)

lemma follows_promises: "follows s t \<Longrightarrow> set (all_promises s) \<subseteq> set (all_promises t)"
  using set_mset_mono [of "mset (all_promises s)" "mset (all_promises t)"] by (simp add: follows_def)

text \<open>A promise that \<open>request\<close> has handed out.\<close>

lemma handed_out:
  assumes "well_behaved cfg" "reachable cfg s" "request cfg m p opts s = (s1, Waiting n)" "(session_step cfg)\<^sup>*\<^sup>* s1 t"
  shows "follows s1 t" "n \<in> set (pending_promises s1)"
    "\<exists>pnd. (request_id s (s_sequence s1), pnd) \<in> set (s_pending s1) \<and> pd_promise pnd = n" "n < s_next s1"
proof -
  have ok: "requests_ok s" by (rule reachable_requests_ok [OF assms(1,2)])
  have s1: "requests_ok s1" using follows_request [OF follows_refl [OF ok], of cfg m p opts] assms(3) by (simp add: follows_def)
  show "follows s1 t" by (rule steps_follow [OF assms(1,4) follows_refl [OF s1]])
  have w: "request_waits s s1 (Waiting n)" using request_cases [OF assms(3)] by (simp add: request_throws_def)
  then show "n \<in> set (pending_promises s1)" "\<exists>pnd. (request_id s (s_sequence s1), pnd) \<in> set (s_pending s1) \<and> pd_promise pnd = n"
    "n < s_next s1"
    by (auto simp: request_waits_def pending_promises_def)
qed

lemma count_settled:
  assumes "distinct (all_promises t)" "n \<in> set (all_promises t)"
  shows "length (filter (\<lambda>e. fst e = n) (s_settled t)) = (if n \<in> set (pending_promises t) then 0 else 1)"
proof -
  have "length (filter (\<lambda>e. fst e = n) xs) = (if n \<in> fst ` set xs then 1 else 0)" if "distinct (map fst xs)"
    for xs :: "(nat \<times> json option result) list"
    using that by (induction xs) auto
  then show ?thesis using assms by (auto simp: all_promises_def)
qed

text \<open>
  Claim C2.  The promise of a request is settled exactly once: from the moment \<open>request\<close> hands it out, it is
  either still pending or has been settled, and then once, whatever responses, timeouts, aborts, send
  failures and stops follow, in whatever order.
\<close>

theorem request_settled_once:
  assumes "well_behaved cfg" "reachable cfg s" "request cfg m p opts s = (s1, Waiting n)" "(session_step cfg)\<^sup>*\<^sup>* s1 t"
  shows "length (filter (\<lambda>e. fst e = n) (s_settled t)) = (if n \<in> set (pending_promises t) then 0 else 1)"
proof (rule count_settled)
  note h = handed_out [OF assms]
  show "distinct (all_promises t)" using h(1) by (simp add: follows_def requests_ok_def)
  show "n \<in> set (all_promises t)"
    using follows_promises [OF h(1)] h(2) by (auto simp: all_promises_def)
qed

definition sample_request :: "session \<times> unit outcome" where
  "sample_request = request sample_config ''m'' WNull plain_request (base_turns sample_config [TRun NoSignal] sample_session)"

lemma sample_requested:
  "request sample_config ''m'' WNull plain_request (base_turns sample_config [TRun NoSignal] sample_session) = (fst sample_request, Waiting 0)"
proof -
  have "snd sample_request = Waiting 0" by code_simp
  then show ?thesis by (metis prod.collapse sample_request_def)
qed

theorem request_settled_once_witness:
  "length (filter (\<lambda>e. fst e = 0) (s_settled (base_turns sample_config [TReceive ''s-1'', TTimer ''s-1''] (fst sample_request)))) = 1"
proof -
  have "pending_promises (base_turns sample_config [TReceive ''s-1'', TTimer ''s-1''] (fst sample_request)) = []" by code_simp
  then show ?thesis using request_settled_once [OF well_behaved_sample(1) reachable_sample sample_requested turns_steps] by simp
qed

text \<open>
  Claim C5.  When a session has ended and the sends under way have settled, no request is pending: every promise
  that \<open>request\<close> handed out has been settled.
\<close>

theorem ended_session_settles_requests:
  assumes "well_behaved cfg" "reachable cfg s" "request cfg m p opts s = (s1, Waiting n)" "(session_step cfg)\<^sup>*\<^sup>* s1 t"
    and "s_state t = Closed \<or> s_state t = Failed" "s_sending t = []"
  shows "s_pending t = [] \<and> (\<exists>r. (n, r) \<in> set (s_settled t))"
proof -
  note h = handed_out [OF assms(1-4)]
  have "s_phase t = PDone" using phase_ok_ended assms(5) h(1) by (simp add: follows_def requests_ok_def)
  then have "s_pending t = []" using h(1) assms(6) by (cases "s_pending t") (auto simp: follows_def requests_ok_def doomed_ok_def doomed_def)
  moreover have "n \<in> set (all_promises t)" using follows_promises [OF h(1)] h(2) by (auto simp: all_promises_def)
  ultimately show ?thesis by (auto simp: all_promises_def pending_promises_def)
qed

theorem ended_session_settles_requests_witness:
  "s_pending (base_turns sample_config (TSendSettled 0 # sample_life) (fst sample_request)) = []
   \<and> (\<exists>r. (0, r) \<in> set (s_settled (base_turns sample_config (TSendSettled 0 # sample_life) (fst sample_request))))"
proof (rule ended_session_settles_requests [OF well_behaved_sample(1) reachable_sample sample_requested turns_steps])
  show "s_state (base_turns sample_config (TSendSettled 0 # sample_life) (fst sample_request)) = Closed
      \<or> s_state (base_turns sample_config (TSendSettled 0 # sample_life) (fst sample_request)) = Failed" by code_simp
  show "s_sending (base_turns sample_config (TSendSettled 0 # sample_life) (fst sample_request)) = []" by code_simp
qed

lemma response_settles:
  assumes "well_behaved cfg" "reachable cfg s" "request cfg m p opts s = (s1, Waiting n)" "(session_step cfg)\<^sup>*\<^sup>* s1 t"
    and "n \<in> set (pending_promises t)" "s_reader t = Running"
    and "cf_decode cfg txt = Inr (Response (s_id s @ ''-'' @ nat_text 36 (s_sequence s1)) res err)"
  shows "s_settled (receive_text cfg txt t) = s_settled t @ [(n, case err of Some e \<Rightarrow> Inl (RemoteError e) | None \<Rightarrow> Inr res)]"
proof -
  note h = handed_out [OF assms(1-4)]
  let ?i = "request_id s (s_sequence s1)"
  have d: "distinct (map fst (s_pending t))" and d1: "distinct (all_promises s1)" and sub: "{e \<in> set (s_pending t). pd_promise (snd e) < s_next s1} \<subseteq> set (s_pending s1)"
    using h(1) handed_out(1) [OF assms(1-3) rtranclp.rtrancl_refl] by (auto simp: follows_def requests_ok_def)
  obtain e where e: "e \<in> set (s_pending t)" "pd_promise (snd e) = n" using assms(5) by (auto simp: pending_promises_def)
  then have "e \<in> set (s_pending s1)" using sub h(4) by auto
  moreover obtain pnd where pnd: "(?i, pnd) \<in> set (s_pending s1)" "pd_promise pnd = n" using h(3) by blast
  moreover have "inj_on (\<lambda>e. pd_promise (snd e)) (set (s_pending s1))"
    using d1 by (simp add: all_promises_def pending_promises_def distinct_map)
  ultimately have "e = (?i, pnd)" using e(2) by (auto simp: inj_on_def)
  then have "map_of (s_pending t) ?i = Some pnd" using e(1) d by simp
  then show ?thesis
    using assms(6,7) pnd(2) by (simp add: receive_text_def reader_loop_def completePending_def Let_def request_id_def)
qed

text \<open>
  A response settles the request whose id it carries: as long as the request is pending, a text that
  decodes to a response with its id resolves its promise with the result of the response, or rejects
  it with the error, and settles no other promise.
\<close>

theorem response_settles_its_request:
  assumes "well_behaved cfg" "reachable cfg s" "request cfg m p opts s = (s1, Waiting n)" "(session_step cfg)\<^sup>*\<^sup>* s1 t"
    and "n \<in> set (pending_promises t)" "s_reader t = Running"
    and "cf_decode cfg txt = Inr (Response (s_id s @ ''-'' @ nat_text 36 (s_sequence s1)) res err)"
  shows "s_settled (receive_text cfg txt t) = s_settled t @ [(n, case err of Some e \<Rightarrow> Inl (RemoteError e) | None \<Rightarrow> Inr res)]"
  using assms by (rule response_settles)

theorem response_settles_its_request_witness:
  "s_settled (receive_text sample_config ''s-1'' (base_turns sample_config [TSendSettled 0] (fst sample_request))) = [(0, Inr None)]"
proof -
  let ?t = "base_turns sample_config [TSendSettled 0] (fst sample_request)"
  have "pending_promises ?t = [0]" "s_reader ?t = Running" "s_settled ?t = []" "s_id (base_turns sample_config [TRun NoSignal] sample_session) = ''s''"
    "s_sequence (fst sample_request) = 1" by code_simp+
  moreover have "cf_decode sample_config ''s-1'' = Inr (Response (''s'' @ ''-'' @ nat_text 36 1) None None)" by code_simp
  ultimately show ?thesis
    using response_settles_its_request [OF well_behaved_sample(1) reachable_sample sample_requested turns_steps, of "[TSendSettled 0]" "''s-1''" None None] by simp
qed

text \<open>
  The ids that a session gives its frames are not those of its pending requests, up to the 2 ^ 53rd
  frame: the duplicate check of \<open>request\<close> never fails before the counter stops counting.
\<close>

theorem next_id_is_fresh:
  assumes "well_behaved cfg" "reachable cfg s" "s_sequence s < 2 ^ 53 - 1"
  shows "map_of (s_pending s) (fst (nextId s)) = None"
proof -
  have "ids_ok s" using reachable_requests_ok [OF assms(1,2)] by (simp add: requests_ok_def)
  moreover have "fst (nextId s) = request_id s (Suc (s_sequence s))"
    using assms(3) by (simp add: nextId_def request_id_def Let_def next_sequence_Suc)
  ultimately show ?thesis using assms(3) by (auto simp: ids_ok_def map_of_eq_None_iff)
qed

theorem next_id_is_fresh_witness:
  "map_of (s_pending (base_turns sample_config [TRun NoSignal, TRequest ''m'' WNull plain_request] sample_session))
     (fst (nextId (base_turns sample_config [TRun NoSignal, TRequest ''m'' WNull plain_request] sample_session))) = None"
proof -
  have "s_sequence (base_turns sample_config [TRun NoSignal, TRequest ''m'' WNull plain_request] sample_session) = 1" by code_simp
  then show ?thesis by (intro next_id_is_fresh [OF well_behaved_sample(1) reachable_sample]) simp
qed

end
