(* ===== verification/Session_Replies.thy ===== *)
theory Session_Replies
  imports Session_History
begin

text \<open>
  The replies of a session: an inbound request is answered at most once, and when its handler has run a
  response to it is handed to the transport or deferred, unless the session has been stopped or the
  envelope cannot encode the response.
\<close>

section \<open>The ledger of replies\<close>

definition ledger :: "session \<Rightarrow> reply list \<times> nat list" where
  "ledger s = (s_replies s, s_responses s)"

lemma ledger_eqD: "ledger t = ledger s \<Longrightarrow> s_replies t = s_replies s \<and> s_responses t = s_responses s"
  by (simp add: ledger_def)

lemma ledger_simps [simp]:
  "ledger (s\<lparr>s_reader := w\<rparr>) = ledger s" "ledger (s\<lparr>s_dispatcher := w\<rparr>) = ledger s" "ledger (s\<lparr>s_dispatch := q\<rparr>) = ledger s"
  "ledger (s\<lparr>s_audio := a\<rparr>) = ledger s" "ledger (s\<lparr>s_next := n\<rparr>) = ledger s" "ledger (s\<lparr>s_pending := ps\<rparr>) = ledger s"
  "ledger (s\<lparr>s_sent := ts\<rparr>) = ledger s" "ledger (s\<lparr>s_parent := b\<rparr>) = ledger s" "ledger (s\<lparr>s_phase := p\<rparr>) = ledger s"
  "ledger (s\<lparr>s_state := x\<rparr>) = ledger s" "ledger (s\<lparr>s_ready := y\<rparr>) = ledger s" "ledger (s\<lparr>s_connected := c\<rparr>) = ledger s"
  "ledger (s\<lparr>s_run := z\<rparr>) = ledger s" "ledger (requestStop c' f s) = ledger s" "ledger (record_failure e s) = ledger s"
  "ledger (s\<lparr>s_sending := xs\<rparr>) = ledger s" "ledger (s\<lparr>s_sequence := m\<rparr>) = ledger s" "ledger (settle i r s) = ledger s"
  "ledger (delete_pending j s) = ledger s" "ledger (failPending v s) = ledger s"
  by (simp_all add: ledger_def record_failure_def failPending_def)

lemma wake_ledger [simp]: "ledger (wake s e) = ledger s"
  by (cases e) (simp_all add: worker_failed_def)

lemma wakes_ledger [simp]: "ledger (foldl wake s es) = ledger s"
  by (induction es arbitrary: s) simp_all

lemma finalise_ledger [simp]: "ledger (finalise s) = ledger s"
  by (simp add: finalise_def Let_def split: prod.split)

lemma supervise_failed_ledger [simp]: "ledger (supervise_failed e s) = ledger s"
  by (simp add: supervise_failed_def Let_def)

lemma connected_ledger [simp]: "ledger (transport_connected cfg s) = ledger s"
  by (simp add: transport_connected_def Let_def)

lemma sendFrame_ledger: "sendFrame cfg f s = (t, x) \<Longrightarrow> ledger t = ledger s"
  by (auto simp: sendFrame_def split: if_splits sum.splits)

lemma request_ledger: "ledger (fst (request cfg m p opts s)) = ledger s"
  by (auto simp: request_def nextId_def Let_def split: sum.split prod.split dest!: sendFrame_ledger)

lemma notify_ledger: "ledger (fst (notify cfg ev d sig s)) = ledger s"
  using sendFrame_ledger [OF prod.collapse [symmetric], of cfg]
  by (simp add: notify_def nextId_def Let_def split: sum.split)

lemma pending_ledger [simp]:
  "ledger (cancelPending i n x s) = ledger s" "ledger (completePending c r e s) = ledger s" "ledger (send_settled k s) = ledger s"
  by (auto simp: cancelPending_def completePending_def send_settled_def Let_def split: option.split prod.split sum.split)

lemma supervision_ledger [simp]:
  "ledger (fst (run_session cfg sig s)) = ledger s" "ledger (transport_result cfg tr s) = ledger s" "ledger (began tr s) = ledger s"
  "ledger (stop_seen s) = ledger s" "ledger (audio_close_done tr s) = ledger s" "ledger (transport_close_done ev s) = ledger s"
  "ledger (workers_done late s) = ledger s"
  by (auto simp: run_session_def transport_result_def began_def stop_seen_def audio_close_done_def transport_close_done_def
      workers_done_def Let_def split: sum.split)

section \<open>The invariant\<close>

text \<open>A reply is sent exactly when a response to it was handed to the session, and that happens once.\<close>

definition replies_ok :: "session \<Rightarrow> bool" where
  "replies_ok s \<longleftrightarrow> distinct (s_responses s)
     \<and> (\<forall>k. k \<in> set (s_responses s) \<longleftrightarrow> k < length (s_replies s) \<and> rp_status (s_replies s ! k) = Sent)"

fun status_rank :: "reply_status \<Rightarrow> nat" where
  "status_rank Unclaimed = 0"
| "status_rank Deferred = 1"
| "status_rank Sent = 2"

text \<open>Replies are never taken back: they keep their request, and their status only moves on.\<close>

definition answers :: "session \<Rightarrow> session \<Rightarrow> bool" where
  "answers s t \<longleftrightarrow> replies_ok t \<and> length (s_replies s) \<le> length (s_replies t)
     \<and> (\<forall>k < length (s_replies s). rp_requestId (s_replies t ! k) = rp_requestId (s_replies s ! k)
          \<and> status_rank (rp_status (s_replies s ! k)) \<le> status_rank (rp_status (s_replies t ! k)))"

lemma answers_ledger: "answers r s \<Longrightarrow> ledger t = ledger s \<Longrightarrow> answers r t"
  by (drule ledger_eqD) (simp add: answers_def replies_ok_def)

lemma answers_refl: "replies_ok s \<Longrightarrow> answers s s"
  by (simp add: answers_def)

text \<open>The reply \<open>k\<close> moves on.\<close>

lemma answers_claim:
  assumes "answers r s" "k < length (s_replies s)" "rp_status (s_replies s ! k) \<noteq> Sent" "status_rank (rp_status (s_replies s ! k)) \<le> status_rank st"
    "s_replies t = (s_replies s)[k := (s_replies s ! k)\<lparr>rp_status := st\<rparr>]"
    "s_responses t = (if st = Sent then s_responses s @ [k] else s_responses s)"
  shows "answers r t"
proof -
  have "k \<notin> set (s_responses s)" using assms(1,3) by (simp add: answers_def replies_ok_def)
  then have "replies_ok t"
    using assms by (auto simp: answers_def replies_ok_def nth_list_update)
  then show ?thesis
    using assms(1,2,4,5) by (auto simp: answers_def nth_list_update intro: order_trans)
qed

lemma requireReply_Inr:
  "requireReply ref s = Inr (k, rp) \<Longrightarrow> k < length (s_replies s) \<and> rp = s_replies s ! k \<and> ref = Some k"
  by (auto simp: requireReply_def split: option.splits if_splits)

lemma respond_ledger:
  "requireReply ref s = Inr (k, rp) \<Longrightarrow> rp_status rp \<noteq> Sent
   \<Longrightarrow> ledger (fst (respond_with cfg res err cl ref s)) = ((s_replies s)[k := rp\<lparr>rp_status := Sent\<rparr>], s_responses s @ [k])"
proof -
  assume r: "requireReply ref s = Inr (k, rp)" "rp_status rp \<noteq> Sent"
  let ?s = "s\<lparr>s_replies := (s_replies s)[k := rp\<lparr>rp_status := Sent\<rparr>], s_responses := s_responses s @ [k]\<rparr>"
  obtain u x where u: "sendResponse cfg (rp_requestId rp) res err ?s = (u, x)" by (metis prod.exhaust)
  have "ledger u = ledger ?s" using u sendFrame_ledger by (simp add: sendResponse_def)
  moreover have "ledger ?s = ((s_replies s)[k := rp\<lparr>rp_status := Sent\<rparr>], s_responses s @ [k])" by (simp add: ledger_def)
  ultimately show ?thesis using r u by (simp add: respond_with_def split: sum.split)
qed

lemma answers_respond:
  assumes "answers r s"
  shows "answers r (fst (respond_with cfg res err cl ref s))"
proof (cases "\<exists>k rp. requireReply ref s = Inr (k, rp) \<and> rp_status rp \<noteq> Sent")
  case True
  then obtain k rp where k: "requireReply ref s = Inr (k, rp)" "rp_status rp \<noteq> Sent" by blast
  then have "k < length (s_replies s)" "rp = s_replies s ! k" by (auto dest: requireReply_Inr)
  moreover have "status_rank (rp_status rp) \<le> status_rank Sent" by (cases "rp_status rp") simp_all
  ultimately show ?thesis
    using answers_claim [OF assms, of k Sent] respond_ledger [OF k, of cfg res err cl] k(2) by (simp add: ledger_def)
next
  case False
  then have "fst (respond_with cfg res err cl ref s) = s" by (auto simp: respond_with_def split: sum.split prod.split)
  then show ?thesis using assms by simp
qed

lemma answers_defer:
  assumes "answers r s"
  shows "answers r (fst (deferResponse ref s))"
proof (cases "\<exists>k rp. requireReply ref s = Inr (k, rp) \<and> rp_status rp = Unclaimed")
  case True
  then obtain k rp where k: "requireReply ref s = Inr (k, rp)" "rp_status rp = Unclaimed" by blast
  then show ?thesis
    using answers_claim [OF assms, of k Deferred "fst (deferResponse ref s)"] requireReply_Inr [OF k(1)]
    by (simp add: deferResponse_def)
next
  case False
  then have "fst (deferResponse ref s) = s" by (auto simp: deferResponse_def split: sum.split prod.split)
  then show ?thesis using assms by simp
qed

lemma answers_new:
  "answers r s \<Longrightarrow> answers r (s\<lparr>s_replies := s_replies s @ [\<lparr>rp_requestId = i, rp_status = Unclaimed\<rparr>]\<rparr>)"
  by (auto simp: answers_def replies_ok_def nth_append less_Suc_eq)

interpretation replies: session_invariant "answers r" for r
  by (unfold_locales; (rule answers_respond answers_defer answers_new | erule answers_ledger))
    (simp_all add: request_ledger notify_ledger)

lemma replies_ok_start: "new_session now opts = Inr s \<Longrightarrow> replies_ok s"
  by (auto simp: new_session_def bindR_Inr_iff replies_ok_def split: if_splits)

lemma reachable_replies_ok:
  assumes "well_behaved cfg" "reachable cfg s"
  shows "replies_ok s"
  using assms(2)
proof (induction rule: reachable.induct)
  case (step s t)
  then show ?case using replies.step_kept [OF assms(1) step.hyps(2) answers_refl] by (simp add: answers_def)
qed (rule replies_ok_start)

text \<open>
  Claim C8.  A session answers an inbound request at most once: the log of the responses it sends never names
  the same request twice, and a further attempt to respond is refused.
\<close>

theorem request_answered_once:
  assumes "well_behaved cfg" "reachable cfg s"
  shows "distinct (s_responses s)
    \<and> (k \<in> set (s_responses s) \<longrightarrow> (\<exists>e. snd (respond_with cfg res err cl (Some k) s) = Inl e) \<and> fst (respond_with cfg res err cl (Some k) s) = s)"
  using reachable_replies_ok [OF assms]
  by (auto simp: replies_ok_def respond_with_def requireReply_def split: sum.split)

definition asked :: session where
  "asked = base_turns sample_config [TRun NoSignal, TBegan (Inr ()), TReceive ''q1'', TTake] sample_session"

lemma asked_handling: "s_dispatcher asked = Handling (Request ''q1'' ''ping'' None)"
  by code_simp

theorem request_answered_once_witness:
  "s_responses (handle_frame sample_config (Request ''q1'' ''ping'' None) asked) = [0]
   \<and> fst (respond_with sample_config None None False (Some 0) (handle_frame sample_config (Request ''q1'' ''ping'' None) asked))
     = handle_frame sample_config (Request ''q1'' ''ping'' None) asked"
proof -
  have "reachable sample_config (handle_frame sample_config (Request ''q1'' ''ping'' None) asked)"
    using reachable.step [OF reachable_sample session_step.handle [OF asked_handling [unfolded asked_def]]] by (simp add: asked_def)
  moreover have "s_responses (handle_frame sample_config (Request ''q1'' ''ping'' None) asked) = [0]" by code_simp
  ultimately show ?thesis
    using request_answered_once [OF well_behaved_sample(1), of "handle_frame sample_config (Request ''q1'' ''ping'' None) asked" 0 None None False] by simp
qed

section \<open>Every handled request is answered\<close>

lemma phase_ok_unavailable: "phase_ok s \<Longrightarrow> s_state s = Closing \<or> s_state s = Closed \<or> s_state s = Failed \<Longrightarrow> s_aborted s \<noteq> None"
proof -
  assume ok: "phase_ok s" and st: "s_state s = Closing \<or> s_state s = Closed \<or> s_state s = Failed"
  have "s_aborted s \<noteq> None" if "s_phase s = PDone" using ok that by (simp add: phase_ok_def)
  then show ?thesis using phase_ok_stopped [OF ok] phase_ok_ended [OF ok] st by metis
qed

text \<open>A session in which the reply \<open>k\<close> exists.\<close>

definition engaged :: "session \<Rightarrow> nat \<Rightarrow> session \<Rightarrow> bool" where
  "engaged s0 k u \<longleftrightarrow> answers s0 u \<and> phase_ok u \<and> k < length (s_replies s0)"

lemma engaged_length: "engaged s0 k u \<Longrightarrow> k < length (s_replies u)"
  by (simp add: engaged_def answers_def)

lemma engaged_respond: "respond_with cfg a b cl (Some k) u = (t, x) \<Longrightarrow> engaged s0 k u \<Longrightarrow> engaged s0 k t"
  using replies.responded [of s0 u cfg a b cl "Some k"] lifecycle.responded [of u cfg a b cl "Some k"] by (auto simp: engaged_def)

interpretation linked: core_invariant s_connected
  by unfold_locales
    (auto simp: run_session_def transport_result_def transport_connected_def began_def stop_seen_def audio_close_done_def
      transport_close_done_def workers_done_def record_failure_def supervise_failed_sel finalise_sel Let_def
      dest: core_eqD split: sum.splits)

lemma sendFrame_prefix: "sendFrame cfg f s = (t, x) \<Longrightarrow> prefix (s_sent s) (s_sent t)"
  by (auto simp: sendFrame_def split: if_splits sum.splits)

lemma respond_prefix: "prefix (s_sent s) (s_sent (fst (respond_with cfg res err cl ref s)))"
  by (auto simp: respond_with_def sendResponse_def Let_def split: sum.split prod.split dest!: sendFrame_prefix)

lemma request_prefix: "prefix (s_sent s) (s_sent (fst (request cfg m p opts s)))"
  by (auto simp: request_def nextId_def Let_def split: sum.split prod.split dest!: sendFrame_prefix)

lemma notify_prefix: "prefix (s_sent s) (s_sent (fst (notify cfg ev d sig s)))"
proof -
  have "prefix (s_sent s) (s_sent (fst (sendFrame cfg f (s\<lparr>s_sequence := n\<rparr>))))" for f n
    using sendFrame_prefix [OF prod.collapse [symmetric], of "s\<lparr>s_sequence := n\<rparr>" cfg f] by simp
  then show ?thesis by (simp add: notify_def nextId_def Let_def split: sum.split)
qed

interpretation outgoing: session_invariant "\<lambda>t. prefix r (s_sent t)" for r
  by unfold_locales
    (auto intro: prefix_order.trans respond_prefix request_prefix notify_prefix
      simp: run_session_def transport_result_def began_def stop_seen_def audio_close_done_def transport_close_done_def
        workers_done_def record_failure_def supervise_failed_sel finalise_sel transport_connected_sel
        deferResponse_def send_settled_def Let_def split: sum.splits prod.splits)

text \<open>Only answers and deferrals change the ledger of replies.\<close>

interpretation unanswered: worker_invariant "\<lambda>t. ledger t = l" for l
  by unfold_locales simp_all

lemma signal_ledger [simp]: "ledger (signal_fired g e s) = ledger s"
proof -
  have "ledger (foldl (\<lambda>t (i, p). if pd_signal p = Some g then cancelPending i (pd_promise p) x t else t) s ps) = ledger s"
    for x and ps :: "(string \<times> pending) list"
    by (induction ps arbitrary: s) (auto split: prod.splits)
  then show ?thesis by (simp add: signal_fired_def)
qed

lemma turn_ledger:
  assumes "\<And>k r e c. t \<noteq> TRespond k r e c" "\<And>k. t \<noteq> TDefer k"
  shows "ledger (base_turn cfg t s) = ledger s"
  using assms
proof (cases t)
  case (TReceive x)
  then show ?thesis by (simp add: unanswered.received)
next
  case (TWorkerEnds code r)
  then show ?thesis by (simp add: unanswered.failed_worker unanswered.finished_worker split: sum.split)
next
  case (TRespond k r e c)
  then show ?thesis using assms(1) by blast
next
  case (TDefer k)
  then show ?thesis using assms(2) by blast
qed (simp_all add: close_session_def parent_aborts_def timer_fired_def request_ledger notify_ledger unanswered.receiving_failed
      unanswered.taken unanswered.bound audio_error_def split: option.split)

lemma respond_other:
  assumes "j \<noteq> k"
  shows "s_replies (fst (respond_with cfg res err cl (Some j) u)) ! k = s_replies u ! k"
proof (cases "\<exists>rp. requireReply (Some j) u = Inr (j, rp) \<and> rp_status rp \<noteq> Sent")
  case True
  then show ?thesis using respond_ledger [of "Some j" u j _ cfg res err cl] assms by (auto simp: ledger_def)
next
  case False
  then show ?thesis by (auto simp: respond_with_def split: sum.split dest: requireReply_Inr)
qed

lemma defer_unsent:
  "rp_status (s_replies u ! k) \<noteq> Sent \<Longrightarrow> rp_status (s_replies (fst (deferResponse (Some j) u)) ! k) \<noteq> Sent"
  by (auto simp: deferResponse_def nth_list_update requireReply_def split: sum.split)

text \<open>
  What the session does from \<open>s0\<close> to \<open>u\<close> has a call of \<open>respond\<close> (or \<open>respondError\<close>) for the reply \<open>k\<close>, made
  while nothing had been sent for it.
\<close>

definition responded_in :: "session_config \<Rightarrow> session \<Rightarrow> nat \<Rightarrow> session \<Rightarrow> bool" where
  "responded_in cfg s0 k u \<longleftrightarrow>
     (\<exists>ts res err cl us. rp_status (s_replies (base_turns cfg ts s0) ! k) \<noteq> Sent \<and> u = base_turns cfg (ts @ TRespond k res err cl # us) s0)"

lemma responded_in_later: "responded_in cfg s0 k u \<Longrightarrow> responded_in cfg s0 k (base_turn cfg t u)"
proof -
  have "base_turn cfg t (base_turns cfg (ts @ x # us) s0) = base_turns cfg (ts @ x # (us @ [t])) s0" for ts x us
    by (simp add: base_turns_def)
  then show "responded_in cfg s0 k u \<Longrightarrow> responded_in cfg s0 k (base_turn cfg t u)" unfolding responded_in_def by blast
qed

text \<open>While a handler runs: its reply \<open>k\<close> exists, and once it is sent it was the handler that responded.\<close>

definition answering :: "session_config \<Rightarrow> session \<Rightarrow> nat \<Rightarrow> session \<Rightarrow> bool" where
  "answering cfg s0 k u \<longleftrightarrow> engaged s0 k u \<and> s_connected u \<and> (\<exists>ts. u = base_turns cfg ts s0)
     \<and> (rp_status (s_replies u ! k) = Sent \<longrightarrow> responded_in cfg s0 k u)"

lemma turn_newly_sent:
  assumes "answering cfg s0 k u" "rp_status (s_replies u ! k) \<noteq> Sent" "rp_status (s_replies (base_turn cfg t u) ! k) = Sent"
  shows "responded_in cfg s0 k (base_turn cfg t u)"
proof -
  have "\<exists>r e c. t = TRespond k r e c"
  proof (rule ccontr)
    assume other: "\<not> ?thesis"
    have "rp_status (s_replies (base_turn cfg t u) ! k) \<noteq> Sent"
    proof (cases "\<exists>j r e c. t = TRespond j r e c \<or> t = TDefer j")
      case True
      then show ?thesis using other assms(2) respond_other defer_unsent by auto
    next
      case False
      then have "ledger (base_turn cfg t u) = ledger u" by (intro turn_ledger) blast+
      then show ?thesis using assms(2) by (simp add: ledger_def)
    qed
    with assms(3) show False by contradiction
  qed
  then obtain r e c where t: "t = TRespond k r e c" by blast
  obtain ts where ts: "u = base_turns cfg ts s0" using assms(1) by (auto simp: answering_def)
  then have "base_turn cfg t u = base_turns cfg (ts @ [t]) s0" by (simp add: base_turns_def)
  then show ?thesis using assms(2) unfolding responded_in_def t ts by blast
qed

lemma turn_answering:
  assumes "answering cfg s0 k u"
  shows "answering cfg s0 k (base_turn cfg t u)"
proof -
  obtain ts where u: "engaged s0 k u" "s_connected u" "u = base_turns cfg ts s0" using assms by (auto simp: answering_def)
  have "base_turn cfg t u = base_turns cfg (ts @ [t]) s0" using u(3) by (simp add: base_turns_def)
  moreover have "engaged s0 k (base_turn cfg t u)" "s_connected (base_turn cfg t u)"
    using u(1,2) replies.turned [of s0 u cfg t] lifecycle.turned [of u cfg t] linked.turned [of u cfg t] by (auto simp: engaged_def)
  moreover have "responded_in cfg s0 k (base_turn cfg t u)" if "rp_status (s_replies (base_turn cfg t u) ! k) = Sent"
    using turn_newly_sent [OF assms _ that] responded_in_later assms by (auto simp: answering_def)
  ultimately show ?thesis unfolding answering_def by blast
qed

lemma turns_answering: "answering cfg s0 k u \<Longrightarrow> answering cfg s0 k (base_turns cfg ts u)"
  by (induction ts arbitrary: u) (simp_all add: base_turns_def turn_answering)

text \<open>The answer that \<open>#handleRequest\<close> gives when its handler neither answers nor defers.\<close>

fun answer_of :: "string \<Rightarrow> request_dispatch option result \<Rightarrow> wire_value control_frame" where
  "answer_of i (Inr (Some d)) = Response i (Some (disp_result d)) None"
| "answer_of i (Inr None) = Response i None (Some (responseError (JsError ''request handler returned without responding or deferring'')))"
| "answer_of i (Inl e) = Response i None (Some (responseError e))"

lemma answeringD:
  assumes "answering cfg s0 k u"
  shows "engaged s0 k u" "phase_ok u" "s_connected u" "k < length (s_replies u)" "rp_requestId (s_replies u ! k) = rp_requestId (s_replies s0 ! k)"
  using assms engaged_length [of s0 k u] by (simp_all add: answering_def engaged_def answers_def)

lemma sent_reply:
  assumes "phase_ok u" "s_connected u" "s_aborted u = None" "k < length (s_replies u)" "rp_status (s_replies u ! k) \<noteq> Sent"
    and t: "respond_with cfg res err cl (Some k) u = (t, x)"
  shows "rp_status (s_replies t ! k) = Sent
    \<and> (case cf_encode cfg (Response (rp_requestId (s_replies u ! k)) res err) of
         Inr w \<Rightarrow> s_sent t = s_sent u @ [w]
       | Inl e \<Rightarrow> s_sent t = s_sent u \<and> x = Inl e)"
proof -
  have r: "requireReply (Some k) u = Inr (k, s_replies u ! k)"
    using assms(1,3,4) phase_ok_unavailable [OF assms(1)] by (auto simp: requireReply_def)
  have "rp_status (s_replies t ! k) = Sent"
    using respond_ledger [OF r assms(5), of cfg res err cl] t assms(4) by (simp add: ledger_def)
  moreover have "(s_state u = Closing \<or> s_state u = Closed \<or> s_state u = Failed) = False"
    using assms(3) phase_ok_unavailable [OF assms(1)] by auto
  then have "sendFrame cfg f (u\<lparr>s_replies := rs, s_responses := ks\<rparr>) = (case cf_encode cfg f of
      Inl e \<Rightarrow> (u\<lparr>s_replies := rs, s_responses := ks\<rparr>, Inl e)
    | Inr w \<Rightarrow> (u\<lparr>s_replies := rs, s_responses := ks, s_sent := s_sent u @ [w]\<rparr>, cf_send cfg (length (s_sent u)) w))" for f rs ks
    using assms(2,3) by (simp add: sendFrame_def split: sum.split)
  then have "case cf_encode cfg (Response (rp_requestId (s_replies u ! k)) res err) of
      Inr w \<Rightarrow> s_sent t = s_sent u @ [w] | Inl e \<Rightarrow> s_sent t = s_sent u \<and> x = Inl e"
    using t r assms(5) by (cases "cf_encode cfg (Response (rp_requestId (s_replies u ! k)) res err)")
      (auto simp: respond_with_def sendResponse_def Let_def split: sum.splits)
  ultimately show ?thesis by blast
qed

lemma answered_failure:
  assumes "answering cfg s0 k u" "s_aborted u = None" "rp_status (s_replies u ! k) \<noteq> Sent"
  shows "case cf_encode cfg (Response (rp_requestId (s_replies s0 ! k)) None (Some (responseError e))) of
      Inr w \<Rightarrow> s_sent (answer_failure cfg k e u) = s_sent u @ [w] \<and> rp_status (s_replies (answer_failure cfg k e u) ! k) = Sent
    | Inl f \<Rightarrow> s_sent (answer_failure cfg k e u) = s_sent u \<and> s_aborted (answer_failure cfg k e u) \<noteq> None"
proof -
  obtain t x where t: "respond_with cfg None (Some (responseError e)) False (Some k) u = (t, x)" by (metis prod.exhaust)
  note u = answeringD(2-) [OF assms(1)]
  have "reply_status_of k u \<noteq> Sent" using assms(3) u(3) by (simp add: reply_status_of_def)
  then have f: "answer_failure cfg k e u = (case x of Inr _ \<Rightarrow> t | Inl f \<Rightarrow> if s_aborted t = None then requestStop (Some f) True t else t)"
    using t by (simp add: answer_failure_def split: sum.split)
  note sent = sent_reply [OF u(1,2) assms(2) u(3) assms(3) t, unfolded u(4)]
  show ?thesis
  proof (cases "cf_encode cfg (Response (rp_requestId (s_replies s0 ! k)) None (Some (responseError e)))")
    case (Inl y)
    then show ?thesis using sent unfolding f by simp
  next
    case (Inr w)
    then show ?thesis using sent unfolding f by (simp split: sum.split)
  qed
qed

lemma answered_dispatch:
  assumes "answering cfg s0 k u" "s_aborted u = None" "rp_status (s_replies u ! k) = Unclaimed"
    and t: "answer_dispatched cfg k (Inr (Some d)) u = (t, x)"
    and v: "v = (case x of Inr _ \<Rightarrow> t | Inl e \<Rightarrow> answer_failure cfg k e t)"
  shows "case cf_encode cfg (Response (rp_requestId (s_replies s0 ! k)) (Some (disp_result d)) None) of
      Inr w \<Rightarrow> s_sent v = s_sent u @ [w] \<and> rp_status (s_replies v ! k) = Sent
    | Inl f \<Rightarrow> s_sent v = s_sent u"
proof -
  note u = answeringD [OF assms(1)]
  have r: "respond_with cfg (Some (disp_result d)) None (disp_terminal d) (Some k) u = (t, x)"
    using t assms(3) u(4) by (simp add: answer_dispatched_def reply_status_of_def)
  have "rp_status (s_replies u ! k) \<noteq> Sent" using assms(3) by simp
  note s = sent_reply [OF u(2,3) assms(2) u(4) this r]
  have "k < length (s_replies t)" using engaged_respond [OF r u(1)] engaged_length by blast
  then have "reply_status_of k t = Sent" using s by (simp add: reply_status_of_def)
  then have "v = t" using v by (simp add: answer_failure_def split: sum.split)
  then show ?thesis using s u(5) by (auto split: sum.splits)
qed

text \<open>
  A handler that has answered its request \<open>i\<close> itself: from the state \<open>w\<close> it called \<open>respond\<close>, which gave
  \<open>v\<close> and handed over one more text, the response, unless the envelope refused it.
\<close>

definition self_answered :: "session_config \<Rightarrow> string \<Rightarrow> nat \<Rightarrow> session \<Rightarrow> session \<Rightarrow> bool" where
  "self_answered cfg i k s0 u \<longleftrightarrow>
     (\<exists>ts res err cl us w v x. w = base_turns cfg ts s0 \<and> rp_status (s_replies w ! k) \<noteq> Sent
        \<and> respond_with cfg res err cl (Some k) w = (v, x) \<and> u = base_turns cfg us v \<and> prefix (s_sent v) (s_sent u)
        \<and> (case cf_encode cfg (Response i res err) of Inr y \<Rightarrow> s_sent v = s_sent w @ [y] | Inl e \<Rightarrow> s_sent v = s_sent w \<and> x = Inl e))"

lemma responded_self:
  assumes "answering cfg s0 k s0" "responded_in cfg s0 k u" "s_aborted u = None"
  shows "self_answered cfg (rp_requestId (s_replies s0 ! k)) k s0 u"
proof -
  obtain ts res err cl us where w: "rp_status (s_replies (base_turns cfg ts s0) ! k) \<noteq> Sent"
    and u: "u = base_turns cfg (ts @ TRespond k res err cl # us) s0" using assms(2) by (auto simp: responded_in_def)
  let ?w = "base_turns cfg ts s0"
  obtain v x where v: "respond_with cfg res err cl (Some k) ?w = (v, x)" by force
  have uv: "u = base_turns cfg us v" using u v by (simp add: base_turns_def)
  note a = turns_answering [OF assms(1), of ts]
  have "u = base_turns cfg (TRespond k res err cl # us) ?w" using u by (simp add: base_turns_def)
  then have "later ?w u" using history.turned_all [of ?w ?w cfg] answeringD(2) [OF a] by simp
  then have "s_aborted ?w = None" using assms(3) by (auto simp: later_def)
  from sent_reply [OF answeringD(2,3) [OF a] this answeringD(4) [OF a] w v]
  have "case cf_encode cfg (Response (rp_requestId (s_replies s0 ! k)) res err) of
      Inr y \<Rightarrow> s_sent v = s_sent ?w @ [y] | Inl e \<Rightarrow> s_sent v = s_sent ?w \<and> x = Inl e"
    using answeringD(5) [OF a] by simp
  moreover have "prefix (s_sent v) (s_sent u)" using outgoing.turned_all [of "s_sent v" v cfg us] uv by simp
  ultimately show ?thesis unfolding self_answered_def using w v uv by blast
qed

text \<open>
  Claim C6.  An inbound request that is dispatched gets its answer.  Let \<open>u\<close> be the session when the middleware and
  the handler are through, with the outcome \<open>r\<close>.  Either the session was asked to stop meanwhile; or the
  handler deferred the answer and returned; or it answered itself, and then its call of \<open>respond\<close> handed exactly one
  more text, that response, to the transport, unless the envelope refused to encode it and the call failed; or
  \<open>#handleRequest\<close> hands over exactly one more text, the response to this request that carries the result of the
  handler, its failure, the code 501 of an unknown method or the complaint that it returned
  nothing.  Only a response that the envelope cannot encode is not sent, and the session is stopped when
  that response is an error.
\<close>

theorem handled_request_answered:
  assumes "well_behaved cfg" "reachable cfg s" "s_connected s"
    and "dispatchRequest (cf_handler cfg) \<lparr>req_method = m, req_payload = embed (or_empty p)\<rparr>
      \<lparr>cx_session = s\<lparr>s_replies := s_replies s @ [\<lparr>rp_requestId = i, rp_status = Unclaimed\<rparr>]\<rparr>, cx_reply = Some (length (s_replies s))\<rparr>
      = (c, r)"
  shows "let u = cx_session c; t = handleRequest cfg i m p s; status = (\<lambda>x. rp_status (s_replies x ! length (s_replies s))) in
    s_aborted u \<noteq> None
    \<or> status u = Deferred \<and> (\<exists>d. r = Inr d) \<and> t = u
    \<or> status u = Sent \<and> t = u
        \<and> self_answered cfg i (length (s_replies s)) (s\<lparr>s_replies := s_replies s @ [\<lparr>rp_requestId = i, rp_status = Unclaimed\<rparr>]\<rparr>) u
    \<or> (case cf_encode cfg (answer_of i r) of
         Inr x \<Rightarrow> s_sent t = s_sent u @ [x] \<and> status t = Sent
       | Inl e \<Rightarrow> s_sent t = s_sent u \<and> ((\<exists>d. r = Inr (Some d)) \<or> s_aborted t \<noteq> None))"
proof (cases "s_aborted (cx_session c) = None")
  case True
  let ?s0 = "s\<lparr>s_replies := s_replies s @ [\<lparr>rp_requestId = i, rp_status = Unclaimed\<rparr>]\<rparr>" and ?k = "length (s_replies s)"
  let ?u = "cx_session c"
  have k: "s_replies ?s0 ! ?k = \<lparr>rp_requestId = i, rp_status = Unclaimed\<rparr>" by simp
  have start: "answering cfg ?s0 ?k ?s0"
    using answers_new [OF answers_refl [OF reachable_replies_ok [OF assms(1,2)]]] lifecycle.new_reply [OF reachable_phase_ok [OF assms(1,2)]] assms(3)
    unfolding answering_def by (intro conjI exI [of _ "[]"]) (simp_all add: engaged_def answers_def base_turns_def)
  then have u: "answering cfg ?s0 ?k ?u"
    using dispatch_by_turns [OF assms(1), of "\<lparr>cx_session = ?s0, cx_reply = Some ?k\<rparr>" "\<lparr>req_method = m, req_payload = embed (or_empty p)\<rparr>"] turns_answering
    by (auto simp: by_turns_def assms(4))
  then have st: "reply_status_of ?k ?u = rp_status (s_replies ?u ! ?k)"
    using answeringD(4) by (simp add: reply_status_of_def)
  have t: "handleRequest cfg i m p s = (case answer_dispatched cfg ?k r ?u of (t, Inr _) \<Rightarrow> t | (t, Inl e) \<Rightarrow> answer_failure cfg ?k e t)"
    by (simp add: handleRequest_def Let_def assms(4))
  have failed: ?thesis
    if "rp_status (s_replies ?u ! ?k) \<noteq> Sent" "answer_dispatched cfg ?k r ?u = (?u, Inl e)" "answer_of i r = Response i None (Some (responseError e))" for e
    using answered_failure [OF u True that(1), of e, unfolded k] unfolding t that(2,3) Let_def by (simp split: sum.splits)
  show ?thesis
  proof (cases "rp_status (s_replies ?u ! ?k)")
    case Sent
    then have "handleRequest cfg i m p s = ?u"
      using st by (simp add: t answer_dispatched_def answer_failure_def split: sum.split)
    moreover have "responded_in cfg ?s0 ?k ?u" using u Sent by (simp add: answering_def)
    ultimately show ?thesis using Sent responded_self [OF start _ True, unfolded k] by (simp add: Let_def)
  next
    case Deferred
    then show ?thesis
      using st failed by (cases r) (simp_all add: t answer_dispatched_def)
  next
    case Unclaimed
    show ?thesis
    proof (cases "(i, r)" rule: answer_of.cases)
      case (1 j d)
      then show ?thesis
        using answered_dispatch [OF u True Unclaimed prod.collapse [symmetric] refl, of d, unfolded k] unfolding t Let_def
        by (simp add: case_prod_beta split: sum.splits)
    qed (use st failed Unclaimed in \<open>simp_all add: answer_dispatched_def\<close>)
  qed
qed simp

text \<open>A request that nobody handles is answered with the code 501.\<close>

theorem handled_request_answered_witness:
  "s_sent (handleRequest sample_config ''q1'' ''ping'' None asked) = s_sent asked @ [''q1'']
   \<and> rp_status (s_replies (handleRequest sample_config ''q1'' ''ping'' None asked) ! length (s_replies asked)) = Sent"
proof -
  let ?c = "\<lparr>cx_session = asked\<lparr>s_replies := s_replies asked @ [\<lparr>rp_requestId = ''q1'', rp_status = Unclaimed\<rparr>]\<rparr>, cx_reply = Some (length (s_replies asked))\<rparr>"
  have d: "dispatchRequest (cf_handler sample_config) \<lparr>req_method = ''ping'', req_payload = embed (or_empty None)\<rparr> ?c
      = (?c, Inl (ProtocolHandlerError (wire_failure 501 ''unknown method: ping'')))"
    by (simp add: dispatchRequest_def chain_def invoke_def sample_config_def sample_handler_def EMPTY_ADAPTER_def)
  have "s_connected asked" "s_aborted asked = None" by code_simp+
  moreover have "reachable sample_config asked" unfolding asked_def by (rule reachable_sample)
  ultimately show ?thesis
    using handled_request_answered [OF well_behaved_sample(1) _ _ d] by (simp add: Let_def sample_config_def)
qed

text \<open>
  Claim C10.  A result that the envelope cannot encode leaves the request unanswered: \<open>#respond\<close> marks the reply as
  sent before the frame is encoded, so \<open>#handleRequest\<close> takes the failure for an answer, sends no error
  and goes on; the peer waits until its own timeout.
\<close>

theorem unencodable_result_unanswered:
  assumes "dispatchRequest (cf_handler cfg) \<lparr>req_method = m, req_payload = embed (or_empty p)\<rparr>
      \<lparr>cx_session = s\<lparr>s_replies := s_replies s @ [\<lparr>rp_requestId = i, rp_status = Unclaimed\<rparr>]\<rparr>, cx_reply = Some (length (s_replies s))\<rparr>
      = (c, Inr (Some d))"
    and "length (s_replies s) < length (s_replies (cx_session c))" "rp_status (s_replies (cx_session c) ! length (s_replies s)) = Unclaimed"
    and "cf_encode cfg (Response (rp_requestId (s_replies (cx_session c) ! length (s_replies s))) (Some (disp_result d)) None) = Inl e"
    and "s_state (cx_session c) = Active" "s_aborted (cx_session c) = None"
  shows "s_sent (handleRequest cfg i m p s) = s_sent (cx_session c)
    \<and> rp_status (s_replies (handleRequest cfg i m p s) ! length (s_replies s)) = Sent \<and> s_aborted (handleRequest cfg i m p s) = None"
proof -
  let ?u = "cx_session c" and ?k = "length (s_replies s)"
  let ?v = "?u\<lparr>s_replies := (s_replies ?u)[?k := (s_replies ?u ! ?k)\<lparr>rp_status := Sent\<rparr>], s_responses := s_responses ?u @ [?k]\<rparr>"
  have "respond_with cfg (Some (disp_result d)) None (disp_terminal d) (Some ?k) ?u = (?v, Inl e)"
    using assms(2-6) by (simp add: respond_with_def requireReply_def sendResponse_def sendFrame_def)
  then have a: "answer_dispatched cfg ?k (Inr (Some d)) ?u = (?v, Inl e)"
    using assms(2,3) by (simp add: answer_dispatched_def reply_status_of_def)
  have "handleRequest cfg i m p s = ?v"
    unfolding handleRequest_def Let_def assms(1) prod.case a using assms(2) by (simp add: answer_failure_def reply_status_of_def)
  then show ?thesis using assms(2,6) by simp
qed

definition mute_config :: session_config where
  "mute_config = sample_config
     \<lparr>cf_encode := (\<lambda>f. Inl (JsError ''unencodable'')),
      cf_handler := sample_handler\<lparr>h_requests := [''ping'' \<mapsto> \<lparr>reg_method = ''ping'', reg_terminal = False, reg_handle = (\<lambda>x c. (c, Inr x))\<rparr>]\<rparr>\<rparr>"

theorem unencodable_result_unanswered_witness:
  "s_sent (handleRequest mute_config ''q1'' ''ping'' None asked) = [] \<and> s_aborted (handleRequest mute_config ''q1'' ''ping'' None asked) = None"
proof -
  let ?c = "\<lparr>cx_session = asked\<lparr>s_replies := s_replies asked @ [\<lparr>rp_requestId = ''q1'', rp_status = Unclaimed\<rparr>]\<rparr>, cx_reply = Some (length (s_replies asked))\<rparr>"
  have "dispatchRequest (cf_handler mute_config) \<lparr>req_method = ''ping'', req_payload = embed (or_empty None)\<rparr> ?c
      = (?c, Inr (Some \<lparr>disp_result = embed (or_empty None), disp_terminal = False\<rparr>))"
    by (simp add: dispatchRequest_def chain_def invoke_def mute_config_def sample_handler_def)
  moreover have "s_state asked = Active" "s_aborted asked = None" "s_sent asked = []" by code_simp+
  ultimately show ?thesis
    using unencodable_result_unanswered [of mute_config "''ping''" None asked "''q1''" ?c _ "JsError ''unencodable''"]
    by (simp add: mute_config_def)
qed

end
