(* ===== verification/Session_Call.thy ===== *)
theory Session_Call
  imports Session_Requests Session_Replies Memory
begin

text \<open>
  Two sessions over one memory link: the texts that a request and its answer become, how the link carries
  them, and what the sessions at both ends do with them.
\<close>

section \<open>The link\<close>

text \<open>One text through a link: \<open>send\<close> of one side, then \<open>receive\<close> of the other.\<close>

definition carry :: "nat \<Rightarrow> js_number \<Rightarrow> side \<Rightarrow> string \<Rightarrow> memory_link \<Rightarrow> (string \<times> memory_link) option" where
  "carry w now s txt l =
     (case control_send w s txt now NoSignal l of
        (Returned _, l1, _) \<Rightarrow>
          (case control_receive (Suc w) (other s) NoSignal l1 of
             (Returned rc, l2, _) \<Rightarrow> Some (rc_data rc, l2)
           | _ \<Rightarrow> None)
      | _ \<Rightarrow> None)"

definition idle_queue :: "'a queue \<Rightarrow> bool" where
  "idle_queue q \<longleftrightarrow> \<not> closed q \<and> items q = [] \<and> readers q = [] \<and> writers q = [] \<and> 0 < capacity q"

definition idle_link :: "memory_link \<Rightarrow> bool" where
  "idle_link l \<longleftrightarrow> \<not> ml_closed l \<and> (\<forall>s. idle_queue (ml_controls l s))"

lemma carry_idle:
  assumes "idle_link l"
  shows "carry w now s txt l = Some (txt, l)"
proof -
  let ?q = "ml_controls l (other s)"
  have "?q\<lparr>items := []\<rparr> = ?q" using assms by (simp add: idle_link_def idle_queue_def)
  then have "l\<lparr>ml_controls := (ml_controls l)(other s := ?q\<lparr>items := []\<rparr>)\<rparr> = l" by simp
  then show ?thesis
    using assms by (simp add: carry_def control_send_def control_receive_def idle_link_def idle_queue_def push_def shift_def admitWriter_def)
qed

section \<open>The sessions\<close>

text \<open>A session that waits for work: its reader waits for the transport and its dispatcher for a frame.\<close>

definition waiting_for_work :: "session \<Rightarrow> bool" where
  "waiting_for_work b \<longleftrightarrow> s_reader b = Running \<and> s_aborted b = None \<and> \<not> closed (s_dispatch b)
     \<and> (case readers (s_dispatch b) of r # _ \<Rightarrow> s_dispatcher b = Blocked (wid r) | [] \<Rightarrow> False)"

text \<open>The session that is asked: it receives the text and, when that gave its dispatcher a frame, handles it.\<close>

definition serve :: "session_config \<Rightarrow> string \<Rightarrow> session \<Rightarrow> session" where
  "serve cfg txt b =
     (let b1 = receive_text cfg txt b in
      case s_dispatcher b1 of Handling f \<Rightarrow> handle_frame cfg f b1 | _ \<Rightarrow> b1)"

definition received :: "session \<Rightarrow> json control_frame \<Rightarrow> session" where
  "received b f = b\<lparr>s_dispatch := (s_dispatch b)\<lparr>readers := tl (readers (s_dispatch b))\<rparr>, s_next := Suc (s_next b), s_dispatcher := Handling f, s_reader := Running\<rparr>"

lemma receive_request:
  assumes "waiting_for_work b" "cf_decode cfg txt = Inr (Request i m p)"
  shows "receive_text cfg txt b = received b (Request i m p)"
  using assms
  by (cases "readers (s_dispatch b)") (auto simp: waiting_for_work_def receive_text_def push_def own_signal_def reader_loop_def received_def Let_def)

text \<open>The context in which the handler runs.\<close>

definition asked_context :: "string \<Rightarrow> session \<Rightarrow> ctx" where
  "asked_context i b = \<lparr>cx_session = b\<lparr>s_replies := s_replies b @ [\<lparr>rp_requestId = i, rp_status = Unclaimed\<rparr>]\<rparr>, cx_reply = Some (length (s_replies b))\<rparr>"

lemma serve_sends:
  assumes "waiting_for_work b" "cf_decode cfg txt = Inr (Request i m p)"
    and "dispatchRequest (cf_handler cfg) \<lparr>req_method = m, req_payload = embed (or_empty p)\<rparr>
           (asked_context i (received b (Request i m p))) = (c, Inr (Some d))"
    and "s_replies (cx_session c) = s_replies b @ [\<lparr>rp_requestId = i, rp_status = Unclaimed\<rparr>]"
    and "s_state (cx_session c) = Active" "s_aborted (cx_session c) = None" "s_connected (cx_session c)"
    and "cf_encode cfg (Response i (Some (disp_result d)) None) = Inr r" "cf_send cfg (length (s_sent (cx_session c))) r = Inr ()"
  shows "s_sent (serve cfg txt b) = s_sent (cx_session c) @ [r]"
proof -
  have k: "length (s_replies (received b (Request i m p))) = length (s_replies b)" by (simp add: received_def)
  have stop: "s_sent (requestStop None False u) = s_sent u" for u by (simp add: requestStop_def split: option.split)
  obtain u where u: "respond_with cfg (Some (disp_result d)) None (disp_terminal d) (Some (length (s_replies b))) (cx_session c) = (u, Inr ())"
    "s_sent u = s_sent (cx_session c) @ [r]"
    using assms(4-9) by (auto simp: respond_with_def requireReply_def sendResponse_def sendFrame_def nth_append Let_def stop split: if_split_asm)
  have "answer_dispatched cfg (length (s_replies b)) (Inr (Some d)) (cx_session c) = (u, Inr ())"
    using assms(4) u(1) by (simp add: answer_dispatched_def reply_status_of_def nth_append)
  then have "handleRequest cfg i m p (received b (Request i m p)) = u"
    using assms(3) by (simp add: handleRequest_def asked_context_def k)
  then show ?thesis
    using receive_request [OF assms(1,2)] u(2) by (simp add: serve_def handle_frame_def received_def Let_def)
qed

text \<open>What \<open>request\<close> hands to the transport when it hands over anything.\<close>

lemma request_text:
  assumes "request cfg m p opts s = (s1, Waiting n)" "s_sent s1 = s_sent s @ [txt]"
  shows "cf_encode cfg (Request (s_id s @ ''-'' @ nat_text 36 (s_sequence s1)) m (Some p)) = Inr txt"
  using assms
  by (auto simp: request_def nextId_def sendFrame_def Let_def split: sum.splits if_splits prod.splits)

text \<open>Configurations that speak the classic envelope.\<close>

definition speaks_classic :: "json_parse \<Rightarrow> (string \<Rightarrow> bool) \<Rightarrow> session_config \<Rightarrow> bool" where
  "speaks_classic parse isSafeNumber cfg \<longleftrightarrow> cf_encode cfg = encode_frame CLASSIC_V1_DESCRIPTOR
     \<and> cf_decode cfg = decode_frame parse isSafeNumber CLASSIC_V1_DESCRIPTOR"

lemma classic_request:
  assumes "json_library parse isSafeNumber" "speaks_classic parse isSafeNumber cfg" "speaks_classic parse isSafeNumber cfg'"
    and "cf_encode cfg (Request i m (Some p)) = Inr txt" "transportable p"
  shows "cf_decode cfg' txt = Inr (Request i m (Some (json_of p)))"
  using decode_encoded_frame [OF assms(1) CLASSIC_V1_wf, of "Request i m (Some p)" "txt"] assms(2-5)
  by (auto simp: speaks_classic_def decoded_field_def)

lemma classic_response:
  assumes "json_library parse isSafeNumber" "speaks_classic parse isSafeNumber cfg" "speaks_classic parse isSafeNumber cfg'"
    and "cf_encode cfg (Response i (Some p) None) = Inr txt" "transportable p"
  shows "cf_decode cfg' txt = Inr (Response i (Some (json_of p)) None)"
  using decode_encoded_frame [OF assms(1) CLASSIC_V1_wf, of "Response i (Some p) None" "txt"] assms(2-5)
  by (auto simp: speaks_classic_def decoded_field_def)

text \<open>A sample pair: both sessions echo \<open>ping\<close>.\<close>

definition echo_config :: session_config where
  "echo_config = mute_config\<lparr>cf_encode := encode_frame CLASSIC_V1_DESCRIPTOR,
     cf_decode := decode_frame reference_parse reference_isSafeNumber CLASSIC_V1_DESCRIPTOR\<rparr>"

definition echo_caller :: session where
  "echo_caller = base_turns echo_config [TRun NoSignal, TBegan (Inr ())] sample_session"

definition echo_server :: session where
  "echo_server = base_turns echo_config [TRun NoSignal, TBegan (Inr ()), TTake] sample_session"

definition echo_request :: "session \<times> unit outcome" where
  "echo_request = request echo_config ''ping'' (WStr ''hi'') plain_request echo_caller"

lemma echo_well_behaved: "well_behaved echo_config"
proof -
  have "by_turns cfg c c" for cfg c using exI [of "\<lambda>ts. cx_session c = base_turns cfg ts (cx_session c)" "[]"] by (simp add: by_turns_def base_turns_def)
  then show ?thesis
    by (auto simp: well_behaved_def echo_config_def mute_config_def sample_config_def sample_handler_def EMPTY_ADAPTER_def Let_def split: if_splits)
qed

lemma echo_speaks: "speaks_classic reference_parse reference_isSafeNumber echo_config"
  by (simp add: speaks_classic_def echo_config_def)

lemma echo_state:
  "waiting_for_work echo_server" "snd echo_request = Waiting 0" "length (s_sent (fst echo_request)) = 1" "s_sent echo_caller = []"
  "pending_promises (fst echo_request) = [0]" "s_reader (fst echo_request) = Running" "s_id echo_caller = ''s''" "s_sequence (fst echo_request) = 1"
  "s_state echo_server = Active" "s_aborted echo_server = None" "s_connected echo_server" "s_settled (fst echo_request) = []" "s_sent echo_server = []"
  by code_simp+

lemma pair_idle: "\<exists>l. pair None = Inr l \<and> idle_link l"
  by (simp add: pair_def new_queue_def positive_safe_def is_int_rat_def MAX_SAFE_INTEGER_def idle_link_def idle_queue_def)

lemma echo_dispatch:
  "dispatchRequest (cf_handler echo_config) \<lparr>req_method = ''ping'', req_payload = x\<rparr> c = (c, Inr (Some \<lparr>disp_result = x, disp_terminal = False\<rparr>))"
  by (simp add: dispatchRequest_def chain_def invoke_def echo_config_def mute_config_def sample_handler_def)

lemma echo_answer: "\<exists>r. cf_encode echo_config (Response (''s'' @ ''-'' @ nat_text 36 1) (Some (WStr ''hi'')) None) = Inr r"
proof -
  have "\<not> isl (cf_encode echo_config (Response (''s'' @ ''-'' @ nat_text 36 1) (Some (WStr ''hi'')) None))" by code_simp
  then show ?thesis by (metis isl_def sum.exhaust_sel)
qed

end
