(* ===== verification/Websocket.thy ===== *)
theory Websocket
  imports Memory Profiles
begin

text \<open>
  \<open>websocket.ts\<close>: control and one audio channel over one socket.  The platform socket is an interface:
  what it delivers and how its calls settle are events of the transport.  Writes go through a chain of
  promises, so that one is under way at a time; the transport keeps a log of the writes it accepts,
  of those it hands to the socket and of the calls of the socket's \<open>close\<close>.
\<close>

section \<open>State\<close>

datatype ws_message = TextMessage string | BinaryMessage "byte list"

datatype ws_write = WriteText string | WriteBinary "byte list" | WritePing string

text \<open>The tail of the chain: its first write is under way, or the transport waits for the socket to close after a failed one.\<close>

datatype ws_tail = Writing | Finishing

text \<open>Where \<open>close\<close> is: it waits for the writes, for the socket, or is settled.\<close>

datatype ws_close = CloseIdle | CloseDraining | CloseSocket | CloseDone "unit result"

record socket_media =
  sm_format :: "media_format option"
  sm_closed :: bool

record ws =
  ws_controls :: "received_control queue"
  ws_binary :: "byte list queue"
  ws_pongs :: "string queue"
  ws_media :: socket_media
  ws_profile :: string
  ws_supportsKeepalive :: bool
  ws_listening :: bool
  ws_closed :: bool
  ws_chain :: "(nat \<times> ws_write) list"
  ws_tail :: ws_tail
  ws_closing :: ws_close
  ws_accepted :: "ws_write list"
  ws_wire :: "ws_write list"
  ws_socketCloses :: nat
  ws_settled :: "(nat \<times> unit result) list"

datatype ws_effect =
    ControlWake "received_control effect"
  | BinaryWake "byte list effect"
  | PongWake "string effect"

record ws_config =
  wc_protocol :: string
  wc_ping :: bool
  wc_onPong :: bool
  wc_audioFormat :: "media_format option"
  wc_inboundCapacity :: "js_number option"

abbreviation websocket_closed :: thrown where
  "websocket_closed \<equiv> session_error ''closed'' ''WebSocket transport is closed''"

section \<open>The media channel\<close>

definition media_format_of :: "socket_media \<Rightarrow> media_format result" where
  "media_format_of m = (case sm_format m of
     None \<Rightarrow> Inl (session_error ''media_unbound'' ''WebSocket audio format is not configured'') | Some f \<Rightarrow> Inr f)"

definition configure :: "media_format \<Rightarrow> socket_media \<Rightarrow> socket_media result" where
  "configure format m = bindR (mediaFrameBytes format) (\<lambda>_.
     case sm_format m of
       Some current \<Rightarrow>
         if encoding current \<noteq> encoding format \<or> \<not> num_eq (sampleRate current) (sampleRate format)
            \<or> \<not> num_eq (bitDepth current) (bitDepth format) \<or> \<not> num_eq (channels current) (channels format)
            \<or> \<not> num_eq (packetTimeMs current) (packetTimeMs format)
         then Inl (session_error ''media_format'' ''WebSocket audio format is already configured'')
         else Inr m
     | None \<Rightarrow> Inr (m\<lparr>sm_format := Some format\<rparr>))"

definition media_frame_bytes :: "socket_media \<Rightarrow> nat result" where
  "media_frame_bytes m = bindR (media_format_of m) mediaFrameBytes"

section \<open>Construction and the listeners\<close>

definition new_websocket :: "ws_config \<Rightarrow> ws result" where
  "new_websocket cfg =
     bindR (new_queue (case wc_inboundCapacity cfg of None \<Rightarrow> jsInt 256 | Some c \<Rightarrow> c)) (\<lambda>controls.
     bindR (new_queue (case wc_inboundCapacity cfg of None \<Rightarrow> jsInt 256 | Some c \<Rightarrow> c)) (\<lambda>binary.
     bindR (case wc_audioFormat cfg of None \<Rightarrow> Inr \<lparr>sm_format = None, sm_closed = False\<rparr>
            | Some f \<Rightarrow> configure f \<lparr>sm_format = None, sm_closed = False\<rparr>) (\<lambda>media.
     Inr \<lparr>ws_controls = controls, ws_binary = binary,
          ws_pongs = \<lparr>capacity = 64, items = [], readers = [], writers = [], closed = False\<rparr>, ws_media = media,
          ws_profile = (if wc_protocol cfg = [] then HEADERLESS_PROFILE else wc_protocol cfg),
          ws_supportsKeepalive = (wc_ping cfg \<and> wc_onPong cfg), ws_listening = True, ws_closed = False,
          ws_chain = [], ws_tail = Writing, ws_closing = CloseIdle, ws_accepted = [], ws_wire = [], ws_socketCloses = 0,
          ws_settled = []\<rparr>)))"

definition finishQueues :: "ws \<Rightarrow> ws \<times> ws_effect list" where
  "finishQueues t =
     (case (close (ws_controls t), close (ws_binary t), close (ws_pongs t)) of
        ((c, ce), (b, be), (p, pe)) \<Rightarrow>
          (t\<lparr>ws_closed := True, ws_controls := c, ws_binary := b, ws_pongs := p, ws_listening := False\<rparr>,
           map ControlWake ce @ map BinaryWake be @ map PongWake pe))"

definition ws_finish :: "ws \<Rightarrow> ws \<times> ws_effect list" where
  "ws_finish t =
     (if ws_closed t then (t, [])
      else (case finishQueues (t\<lparr>ws_closed := True\<rparr>) of (t1, es) \<Rightarrow> (t1\<lparr>ws_socketCloses := Suc (ws_socketCloses t1)\<rparr>, es)))"

text \<open>The listeners that the constructor attaches; detached ones are not called.\<close>

definition onMessage :: "ws_message \<Rightarrow> js_number \<Rightarrow> ws \<Rightarrow> ws \<times> ws_effect list" where
  "onMessage msg now t =
     (if \<not> ws_listening t then (t, [])
      else (let (admitted, t1, es) =
              (case msg of
                 TextMessage d \<Rightarrow> (case tryPush \<lparr>rc_data = d, rc_receivedAt = now\<rparr> (ws_controls t) of
                    (ok, q, es) \<Rightarrow> (ok, t\<lparr>ws_controls := q\<rparr>, map ControlWake es))
               | BinaryMessage d \<Rightarrow> (case tryPush d (ws_binary t) of
                    (ok, q, es) \<Rightarrow> (ok, t\<lparr>ws_binary := q\<rparr>, map BinaryWake es)))
            in if admitted then (t1, es) else (case ws_finish t1 of (t2, fs) \<Rightarrow> (t2, es @ fs))))"

definition onClose :: "ws \<Rightarrow> ws \<times> ws_effect list" where
  "onClose t = (if ws_listening t then finishQueues t else (t, []))"

definition onPong :: "string \<Rightarrow> ws \<Rightarrow> ws \<times> ws_effect list" where
  "onPong d t =
     (if \<not> ws_listening t then (t, [])
      else (case tryPush d (ws_pongs t) of (_, q, es) \<Rightarrow> (t\<lparr>ws_pongs := q\<rparr>, map PongWake es)))"

section \<open>Writing\<close>

text \<open>The next write of the chain is handed to the socket; an empty chain lets \<open>close\<close> go on.\<close>

definition start_write :: "ws \<Rightarrow> ws" where
  "start_write t =
     (case ws_chain t of
        (w, x) # _ \<Rightarrow> t\<lparr>ws_tail := Writing, ws_wire := ws_wire t @ [x]\<rparr>
      | [] \<Rightarrow>
          if ws_closing t = CloseDraining
          then t\<lparr>ws_tail := Writing, ws_closing := CloseSocket, ws_socketCloses := Suc (ws_socketCloses t)\<rparr>
          else t\<lparr>ws_tail := Writing\<rparr>)"

definition enqueue_write :: "nat \<Rightarrow> ws_write \<Rightarrow> ws \<Rightarrow> unit outcome \<times> ws" where
  "enqueue_write w x t =
     (if ws_closed t then (Threw websocket_closed, t)
      else (let t1 = t\<lparr>ws_chain := ws_chain t @ [(w, x)], ws_accepted := ws_accepted t @ [x]\<rparr>
            in (Waiting w, if ws_chain t = [] then start_write t1 else t1)))"

text \<open>
  The write under way settles.  A failed one finishes the transport, and unless it was closed before,
  the chain goes on when the socket has closed.
\<close>

definition write_settled :: "unit result \<Rightarrow> ws \<Rightarrow> ws \<times> ws_effect list" where
  "write_settled r t =
     (case ws_chain t of
        [] \<Rightarrow> (t, [])
      | (w, x) # rest \<Rightarrow>
          if ws_tail t = Finishing then (t, [])
          else (let t1 = t\<lparr>ws_settled := ws_settled t @ [(w, r)]\<rparr> in
            case r of
              Inr _ \<Rightarrow> (start_write (t1\<lparr>ws_chain := rest\<rparr>), [])
            | Inl _ \<Rightarrow>
                if ws_closed t1 then (start_write (t1\<lparr>ws_chain := rest\<rparr>), [])
                else (case ws_finish t1 of (t2, es) \<Rightarrow> (t2\<lparr>ws_tail := Finishing\<rparr>, es))))"

text \<open>The socket has closed after a failed write, however it did.\<close>

definition finish_settled :: "ws \<Rightarrow> ws" where
  "finish_settled t =
     (if ws_tail t = Finishing then start_write (t\<lparr>ws_chain := tl (ws_chain t)\<rparr>) else t)"

definition sendText :: "nat \<Rightarrow> string \<Rightarrow> signal \<Rightarrow> ws \<Rightarrow> unit outcome \<times> ws" where
  "sendText w d sig t =
     (case throwIfAborted sig of Inl e \<Rightarrow> (Threw e, t) | Inr _ \<Rightarrow> enqueue_write w (WriteText d) t)"

definition ws_writeFrame :: "nat \<Rightarrow> media_frame \<Rightarrow> signal \<Rightarrow> ws \<Rightarrow> unit outcome \<times> ws" where
  "ws_writeFrame w frame sig t =
     (if sm_closed (ws_media t) then (Threw (session_error ''closed'' ''media channel is closed''), t)
      else (case bindR (throwIfAborted sig) (\<lambda>_. media_frame_bytes (ws_media t)) of
          Inl e \<Rightarrow> (Threw e, t)
        | Inr n \<Rightarrow>
            if length (frame_data frame) \<noteq> n then (Threw (session_error ''media_frame'' ''media frame has the wrong byte length''), t)
            else enqueue_write w (WriteBinary (frame_data frame)) t))"

section \<open>Reading\<close>

definition receiveControl :: "nat \<Rightarrow> signal \<Rightarrow> ws \<Rightarrow> received_control outcome \<times> ws \<times> ws_effect list" where
  "receiveControl w sig t = (case shift w sig (ws_controls t) of (out, q, es) \<Rightarrow> (out, t\<lparr>ws_controls := q\<rparr>, map ControlWake es))"

definition receiveBinary :: "nat \<Rightarrow> signal \<Rightarrow> ws \<Rightarrow> byte list outcome \<times> ws \<times> ws_effect list" where
  "receiveBinary w sig t = (case shift w sig (ws_binary t) of (out, q, es) \<Rightarrow> (out, t\<lparr>ws_binary := q\<rparr>, map BinaryWake es))"

text \<open>What \<open>readFrame\<close> makes of the bytes it has awaited.\<close>

definition frame_read :: "byte list \<Rightarrow> ws \<Rightarrow> media_frame result" where
  "frame_read d t = bindR (media_frame_bytes (ws_media t)) (\<lambda>n.
     bindR (guardR (length d = n) (session_error ''media_frame'' ''received media frame has the wrong byte length'')) (\<lambda>_.
     Inr \<lparr>frame_data = d, frame_ptsMs = None\<rparr>))"

definition ws_readFrame :: "nat \<Rightarrow> signal \<Rightarrow> ws \<Rightarrow> media_frame outcome \<times> ws \<times> ws_effect list" where
  "ws_readFrame w sig t =
     (if sm_closed (ws_media t) then (Threw (session_error ''closed'' ''media channel is closed''), t, [])
      else (case receiveBinary w sig t of
          (Returned d, t1, es) \<Rightarrow> (case frame_read d t1 of Inl e \<Rightarrow> Threw e | Inr f \<Rightarrow> Returned f, t1, es)
        | (Threw e, t1, es) \<Rightarrow> (Threw e, t1, es)
        | (Waiting n, t1, es) \<Rightarrow> (Waiting n, t1, es)))"

definition clearBinary :: "ws \<Rightarrow> nat result \<times> ws \<times> ws_effect list" where
  "clearBinary t =
     (case media_frame_bytes (ws_media t) of
        Inl e \<Rightarrow> (Inl e, t, [])
      | Inr n \<Rightarrow> (case clear (ws_binary t) of (q, es) \<Rightarrow>
          (Inr (length_queue (ws_binary t) * n), t\<lparr>ws_binary := q\<rparr>, map BinaryWake es)))"

section \<open>Media and close\<close>

definition ws_openMedia :: "string \<Rightarrow> media_format \<Rightarrow> signal \<Rightarrow> ws \<Rightarrow> unit result \<times> ws" where
  "ws_openMedia i format sig t =
     (case bindR (throwIfAborted sig) (\<lambda>_.
           bindR (guardR (i = ''audio'') (session_error ''media_unsupported'' (''unsupported media channel '' @ quoted i))) (\<lambda>_.
           configure format (ws_media t))) of
        Inl e \<Rightarrow> (Inl e, t) | Inr m \<Rightarrow> (Inr (), t\<lparr>ws_media := m\<rparr>))"

definition ws_acceptMedia :: "signal \<Rightarrow> ws \<Rightarrow> unit result" where
  "ws_acceptMedia sig t = bindR (throwIfAborted sig) (\<lambda>_. bindR (media_format_of (ws_media t)) (\<lambda>_. Inr ()))"

definition media_close :: "ws \<Rightarrow> ws" where
  "media_close t = t\<lparr>ws_media := (ws_media t)\<lparr>sm_closed := True\<rparr>\<rparr>"

text \<open>\<open>close\<close> up to its \<open>await\<close>s; a second call waits for the same promise.\<close>

definition close_start :: "ws \<Rightarrow> ws" where
  "close_start t =
     (if ws_closing t \<noteq> CloseIdle then t
      else if ws_chain t = []
      then t\<lparr>ws_closed := True, ws_closing := CloseSocket, ws_socketCloses := Suc (ws_socketCloses t)\<rparr>
      else t\<lparr>ws_closed := True, ws_closing := CloseDraining\<rparr>)"

definition socket_closed :: "unit result \<Rightarrow> ws \<Rightarrow> ws \<times> ws_effect list" where
  "socket_closed r t =
     (if ws_closing t \<noteq> CloseSocket then (t, [])
      else (case r of
          Inl e \<Rightarrow> (t\<lparr>ws_closing := CloseDone (Inl e)\<rparr>, [])
        | Inr _ \<Rightarrow> (case finishQueues t of (t1, es) \<Rightarrow> (t1\<lparr>ws_closing := CloseDone (Inr ())\<rparr>, es))))"

end
