(* ===== verification/Websocket_Runs.thy ===== *)
theory Websocket_Runs
  imports Websocket
begin

text \<open>
  Runs of a WebSocket transport: what the socket delivers, how its calls settle and what the users of the
  transport call, in any order.  Writes reach the socket in the order they were accepted, close waits for them,
  and an open transport loses no inbound message.
\<close>

section \<open>Runs\<close>

datatype ws_op =
    WsMessage ws_message js_number
  | WsSocketGone
  | WsPong string
  | WsSend string signal
  | WsWriteFrame media_frame signal
  | WsPing string
  | WsWriteSettled "unit result"
  | WsFinishSettled
  | WsReceive signal
  | WsReadFrame signal
  | WsClear
  | WsOpenMedia string media_format signal
  | WsMediaClose
  | WsClose
  | WsSocketClosed "unit result"
  | WsAbort nat thrown

text \<open>
  The run keeps the text messages that the socket delivered, the ones the control queue admitted and
  the ones that \<open>receive\<close> returned.
\<close>

record ws_run =
  wr_ws :: ws
  wr_next :: nat
  wr_offered :: "received_control list"
  wr_admitted :: "received_control list"
  wr_received :: "received_control list"

definition control_wakes :: "ws_effect list \<Rightarrow> received_control effect list" where
  "control_wakes es = concat (map (\<lambda>e. case e of ControlWake x \<Rightarrow> [x] | _ \<Rightarrow> []) es)"

definition ws_abort :: "nat \<Rightarrow> thrown \<Rightarrow> ws \<Rightarrow> ws \<times> ws_effect list" where
  "ws_abort s e t =
     (case (on_abort s e (ws_controls t), on_abort s e (ws_binary t), on_abort s e (ws_pongs t)) of
        ((c, ce), (b, be), (p, pe)) \<Rightarrow>
          (t\<lparr>ws_controls := c, ws_binary := b, ws_pongs := p\<rparr>, map ControlWake ce @ map BinaryWake be @ map PongWake pe))"

definition text_of :: "ws_op \<Rightarrow> received_control list" where
  "text_of x = (case x of WsMessage (TextMessage d) now \<Rightarrow> [\<lparr>rc_data = d, rc_receivedAt = now\<rparr>] | _ \<Rightarrow> [])"

definition admits_text :: "ws_op \<Rightarrow> ws \<Rightarrow> bool" where
  "admits_text x t = (case x of WsMessage (TextMessage d) now \<Rightarrow>
     ws_listening t \<and> fst (tryPush \<lparr>rc_data = d, rc_receivedAt = now\<rparr> (ws_controls t)) | _ \<Rightarrow> False)"

fun exec_ws :: "nat \<Rightarrow> ws_op \<Rightarrow> ws \<Rightarrow> received_control list \<times> ws \<times> ws_effect list" where
  "exec_ws w (WsMessage m now) t = ([], onMessage m now t)"
| "exec_ws w WsSocketGone t = ([], onClose t)"
| "exec_ws w (WsPong d) t = ([], onPong d t)"
| "exec_ws w (WsSend d sig) t = ([], snd (sendText w d sig t), [])"
| "exec_ws w (WsWriteFrame f sig) t = ([], snd (ws_writeFrame w f sig t), [])"
| "exec_ws w (WsPing d) t = ([], snd (enqueue_write w (WritePing d) t), [])"
| "exec_ws w (WsWriteSettled r) t = ([], write_settled r t)"
| "exec_ws w WsFinishSettled t = ([], finish_settled t, [])"
| "exec_ws w (WsReceive sig) t =
     (case receiveControl w sig t of (out, u) \<Rightarrow> (case out of Returned v \<Rightarrow> [v] | _ \<Rightarrow> [], u))"
| "exec_ws w (WsReadFrame sig) t = ([], snd (ws_readFrame w sig t))"
| "exec_ws w WsClear t = ([], snd (clearBinary t))"
| "exec_ws w (WsOpenMedia i f sig) t = ([], snd (ws_openMedia i f sig t), [])"
| "exec_ws w WsMediaClose t = ([], media_close t, [])"
| "exec_ws w WsClose t = ([], close_start t, [])"
| "exec_ws w (WsSocketClosed r) t = ([], socket_closed r t)"
| "exec_ws w (WsAbort s e) t = ([], ws_abort s e t)"

definition ws_step :: "ws_run \<Rightarrow> ws_op \<Rightarrow> ws_run" where
  "ws_step r x =
     (case exec_ws (wr_next r) x (wr_ws r) of
        (out, t, es) \<Rightarrow>
          \<lparr>wr_ws = t, wr_next = Suc (wr_next r), wr_offered = wr_offered r @ text_of x,
           wr_admitted = wr_admitted r @ (if admits_text x (wr_ws r) then text_of x else []),
           wr_received = wr_received r @ out @ delivered_by (control_wakes es)\<rparr>)"

definition ws_start :: "ws \<Rightarrow> ws_run" where
  "ws_start t = \<lparr>wr_ws = t, wr_next = 0, wr_offered = [], wr_admitted = [], wr_received = []\<rparr>"

definition run_ws :: "ws \<Rightarrow> ws_op list \<Rightarrow> ws_run" where
  "run_ws t xs = foldl ws_step (ws_start t) xs"

section \<open>The chain of writes\<close>

text \<open>Writes whose promise is not settled.\<close>

definition unsettled :: "ws \<Rightarrow> nat list" where
  "unsettled t = map fst (if ws_tail t = Finishing then tl (ws_chain t) else ws_chain t)"

definition chain_ok :: "ws \<Rightarrow> bool" where
  "chain_ok t \<longleftrightarrow>
     ws_accepted t = ws_wire t @ map snd (tl (ws_chain t))
     \<and> (ws_tail t = Finishing \<longrightarrow> ws_chain t \<noteq> [] \<and> ws_closed t)
     \<and> (ws_closing t \<noteq> CloseIdle \<longrightarrow> ws_closed t)
     \<and> (ws_closing t = CloseDraining \<longrightarrow> ws_chain t \<noteq> [])
     \<and> (ws_closing t = CloseSocket \<or> (\<exists>r. ws_closing t = CloseDone r) \<longrightarrow> ws_chain t = [])
     \<and> (ws_listening t \<or> ws_closed t)"

text \<open>The fields that the chain depends on.\<close>

definition chain_core where
  "chain_core t = (ws_accepted t, ws_wire t, ws_chain t, ws_tail t, ws_closing t, ws_settled t)"

lemma chain_ok_cong:
  "chain_ok s \<Longrightarrow> chain_core t = chain_core s \<Longrightarrow> (ws_closed s \<Longrightarrow> ws_closed t) \<Longrightarrow> ws_listening t \<or> ws_closed t \<Longrightarrow> chain_ok t"
  by (auto simp: chain_ok_def chain_core_def)

lemma finishQueues_core [simp]:
  "chain_core (fst (finishQueues t)) = chain_core t" "ws_closed (fst (finishQueues t))"
  by (simp_all add: finishQueues_def chain_core_def split: prod.split)

lemma ws_finish_core [simp]: "chain_core (fst (ws_finish t)) = chain_core t" "ws_closed (fst (ws_finish t))"
proof -
  obtain u es where u: "finishQueues (t\<lparr>ws_closed := True\<rparr>) = (u, es)" by (metis prod.exhaust)
  then have "chain_core u = chain_core t" "ws_closed u"
    using finishQueues_core [of "t\<lparr>ws_closed := True\<rparr>"] by (simp_all add: chain_core_def)
  then show "chain_core (fst (ws_finish t)) = chain_core t" "ws_closed (fst (ws_finish t))"
    by (simp_all add: ws_finish_def u chain_core_def)
qed

lemma onMessage_core:
  "chain_core (fst (onMessage m now t)) = chain_core t"
  "ws_closed t \<or> ws_listening t \<Longrightarrow> ws_listening (fst (onMessage m now t)) \<or> ws_closed (fst (onMessage m now t))"
  "ws_closed t \<Longrightarrow> ws_closed (fst (onMessage m now t))"
proof -
  have "chain_core (t\<lparr>ws_controls := q\<rparr>) = chain_core t" "chain_core (t\<lparr>ws_binary := b\<rparr>) = chain_core t" for q b
    by (simp_all add: chain_core_def)
  then show "chain_core (fst (onMessage m now t)) = chain_core t"
    "ws_closed t \<or> ws_listening t \<Longrightarrow> ws_listening (fst (onMessage m now t)) \<or> ws_closed (fst (onMessage m now t))"
    "ws_closed t \<Longrightarrow> ws_closed (fst (onMessage m now t))"
    using ws_finish_core [of "t\<lparr>ws_controls := q\<rparr>" for q] ws_finish_core [of "t\<lparr>ws_binary := q\<rparr>" for q]
    by (auto simp: onMessage_def split_beta Let_def split: ws_message.split)
qed

lemma start_write_ok:
  assumes "chain_ok t" "ws_chain t \<noteq> []" "ws_closing t \<noteq> CloseSocket"
  shows "chain_ok (start_write (t\<lparr>ws_chain := tl (ws_chain t)\<rparr>))"
  using assms by (auto simp: chain_ok_def start_write_def split: list.splits)

lemma enqueue_ok: "chain_ok t \<Longrightarrow> chain_ok (snd (enqueue_write w x t))"
  by (auto simp: chain_ok_def enqueue_write_def start_write_def Let_def split: list.splits)

lemma write_settled_ok:
  assumes "chain_ok t"
  shows "chain_ok (fst (write_settled r t))"
proof (cases "ws_chain t = [] \<or> ws_tail t = Finishing")
  case True
  then show ?thesis using assms by (auto simp: write_settled_def split: list.split)
next
  case False
  then obtain w x rest where c: "ws_chain t = (w, x) # rest" by (metis list.exhaust surj_pair)
  let ?t = "t\<lparr>ws_settled := ws_settled t @ [(w, r)]\<rparr>"
  have "chain_ok ?t" using assms by (simp add: chain_ok_def)
  moreover have "ws_closing ?t \<noteq> CloseSocket" using assms c by (auto simp: chain_ok_def)
  ultimately have go: "chain_ok (start_write (?t\<lparr>ws_chain := rest\<rparr>))" using start_write_ok [of ?t] c by simp
  obtain u es where u: "ws_finish ?t = (u, es)" by (metis prod.exhaust)
  then have "chain_core u = chain_core ?t" "ws_closed u" using ws_finish_core [of ?t] by simp_all
  then have "chain_ok (u\<lparr>ws_tail := Finishing\<rparr>)" using assms c by (auto simp: chain_ok_def chain_core_def)
  then show ?thesis using False c go u by (auto simp: write_settled_def Let_def split: sum.split)
qed

lemma finish_settled_ok: "chain_ok t \<Longrightarrow> chain_ok (finish_settled t)"
  using start_write_ok [of t] by (auto simp: finish_settled_def chain_ok_def [of t])

lemma chain_core_simps [simp]:
  "chain_core (t\<lparr>ws_controls := c\<rparr>) = chain_core t" "chain_core (t\<lparr>ws_binary := b\<rparr>) = chain_core t"
  "chain_core (t\<lparr>ws_pongs := p\<rparr>) = chain_core t" "chain_core (t\<lparr>ws_media := m\<rparr>) = chain_core t"
  by (simp_all add: chain_core_def)

lemma chain_ok_update [simp]:
  "chain_ok (t\<lparr>ws_controls := c\<rparr>) = chain_ok t" "chain_ok (t\<lparr>ws_binary := b\<rparr>) = chain_ok t"
  "chain_ok (t\<lparr>ws_pongs := p\<rparr>) = chain_ok t" "chain_ok (t\<lparr>ws_media := m\<rparr>) = chain_ok t"
  by (simp_all add: chain_ok_def)

lemma close_ok: "chain_ok t \<Longrightarrow> chain_ok (close_start t)" "chain_ok t \<Longrightarrow> chain_ok (fst (socket_closed r t))"
proof -
  show "chain_ok t \<Longrightarrow> chain_ok (close_start t)" by (auto simp: close_start_def chain_ok_def)
  obtain u es where u: "finishQueues t = (u, es)" by (metis prod.exhaust)
  have "chain_core u = chain_core t" "ws_closed u" using finishQueues_core [of t] u by simp_all
  then show "chain_ok t \<Longrightarrow> chain_ok (fst (socket_closed r t))"
    using u by (auto simp: socket_closed_def chain_ok_def chain_core_def split: sum.split)
qed

lemma exec_ws_chain_ok:
  assumes "chain_ok t"
  shows "chain_ok (fst (snd (exec_ws w x t)))"
proof -
  have l: "ws_closed t \<or> ws_listening t" using assms by (auto simp: chain_ok_def)
  show ?thesis
  proof (cases x)
    case (WsMessage m now)
    then show ?thesis using chain_ok_cong [OF assms onMessage_core(1) onMessage_core(3) onMessage_core(2) [OF l]] by simp
  next
    case WsSocketGone
    then show ?thesis using chain_ok_cong [OF assms finishQueues_core(1)] assms by (simp add: onClose_def)
  qed (use assms in \<open>simp_all add: onPong_def sendText_def ws_writeFrame_def enqueue_ok write_settled_ok finish_settled_ok
      receiveControl_def ws_readFrame_def receiveBinary_def clearBinary_def ws_openMedia_def media_close_def close_ok ws_abort_def
      split: prod.split sum.split outcome.split\<close>)
qed

lemma new_websocket_ok: "new_websocket cfg = Inr t \<Longrightarrow> chain_ok t"
  by (auto simp: new_websocket_def bindR_Inr_iff chain_ok_def)

lemma run_ws_chain_ok:
  assumes "new_websocket cfg = Inr t"
  shows "chain_ok (wr_ws (run_ws t xs))"
proof (induction xs rule: rev_induct)
  case Nil
  show ?case using new_websocket_ok [OF assms] by (simp add: run_ws_def ws_start_def)
next
  case (snoc x xs)
  then show ?case
    using exec_ws_chain_ok [of "wr_ws (run_ws t xs)" "wr_next (run_ws t xs)" x]
    by (simp add: run_ws_def ws_step_def split_beta)
qed

text \<open>
  Claim C22.  Control texts, media frames and pings share the socket in the order in which the transport accepted
  them: at any time the socket has been handed exactly the accepted writes but those still in the
  chain behind the one under way.  Once \<open>close\<close> calls the socket, every accepted write has been handed over and
  has settled.
\<close>

theorem websocket_writes_in_order:
  assumes "new_websocket cfg = Inr t0" "t = wr_ws (run_ws t0 xs)"
  shows "ws_accepted t = ws_wire t @ map snd (tl (ws_chain t))
    \<and> (ws_closing t = CloseSocket \<or> (\<exists>r. ws_closing t = CloseDone r) \<longrightarrow> ws_wire t = ws_accepted t \<and> ws_chain t = [])"
  using run_ws_chain_ok [OF assms(1), of xs] assms(2) by (auto simp: chain_ok_def)

section \<open>The control queue\<close>

text \<open>
  Values that a queue without blocked writers took in and gave out on its way from one state to another;
  the transport never blocks a writer.
\<close>

definition moved :: "'v queue \<Rightarrow> 'v list \<Rightarrow> 'v list \<Rightarrow> 'v queue \<Rightarrow> bool" where
  "moved q acc out q' \<longleftrightarrow>
     (queue_inv q \<and> writers q = [] \<longrightarrow> queue_inv q' \<and> writers q' = [] \<and> items q @ acc = out @ items q')"

lemma moved_refl [simp]: "moved q [] [] q"
  by (simp add: moved_def)

lemma moved_trans: "moved q a x q1 \<Longrightarrow> moved q1 b y q2 \<Longrightarrow> moved q (a @ b) (x @ y) q2"
  unfolding moved_def by (metis append.assoc)

lemma unblocked_op:
  assumes "exec_op w opn q = (acc, out, q', es)" "writers q = []" "\<forall>v sig. opn \<noteq> Push v sig" "queue_inv q"
  shows "writers q' = [] \<and> accepted_by es = []"
  using assms
  by (cases opn) (auto simp: tryPush_def shift_def admitWriter_def closeReaders_def close_def clear_eq on_abort_def Let_def
      split: list.splits sum.splits if_splits)

lemma moved_op:
  assumes "exec_op w opn q = (acc, out, q', es)" "\<forall>v sig. opn \<noteq> Push v sig"
  shows "moved q acc (out @ delivered_by es) q'"
  using exec_op_keeps [of q w opn] unblocked_op [OF assms(1) _ assms(2)] assms(1) by (auto simp: moved_def op_keeps_def)

lemma control_wakes_simps [simp]:
  "control_wakes [] = []" "control_wakes (es @ fs) = control_wakes es @ control_wakes fs"
  "control_wakes (map ControlWake xs) = xs" "control_wakes (map BinaryWake ys) = []" "control_wakes (map PongWake zs) = []"
  by (simp_all add: control_wakes_def o_def)

definition wakes_moved :: "ws \<Rightarrow> received_control list \<Rightarrow> received_control list \<Rightarrow> ws \<times> ws_effect list \<Rightarrow> bool" where
  "wakes_moved t acc out = (\<lambda>(t', es).
     moved (ws_controls t) acc (out @ delivered_by (control_wakes es)) (ws_controls t'))"

lemma wakes_moved_refl: "ws_controls t' = ws_controls t \<Longrightarrow> control_wakes es = [] \<Longrightarrow> wakes_moved t [] [] (t', es)"
  by (simp add: wakes_moved_def)

lemma finishQueues_moved: "wakes_moved t [] [] (finishQueues t)"
  using moved_op [of 0 Close "ws_controls t"] by (simp add: finishQueues_def wakes_moved_def split_beta)

lemma ws_finish_moved: "wakes_moved t [] [] (ws_finish t)"
  using finishQueues_moved [of "t\<lparr>ws_closed := True\<rparr>"] by (simp add: ws_finish_def wakes_moved_def split_beta)

lemma onMessage_moved:
  "wakes_moved t (if admits_text (WsMessage m now) t then text_of (WsMessage m now) else []) [] (onMessage m now t)"
proof (cases "ws_listening t")
  case True
  show ?thesis
  proof (cases m)
    case (TextMessage d)
    obtain ok q es where p: "tryPush \<lparr>rc_data = d, rc_receivedAt = now\<rparr> (ws_controls t) = (ok, q, es)" by (metis prod.exhaust)
    have mv: "moved (ws_controls t) (if ok then [\<lparr>rc_data = d, rc_receivedAt = now\<rparr>] else []) (delivered_by es) q"
      using moved_op [of 0 "TryPush \<lparr>rc_data = d, rc_receivedAt = now\<rparr>" "ws_controls t"] p by simp
    moreover have "wakes_moved (t\<lparr>ws_controls := q\<rparr>) [] [] (ws_finish (t\<lparr>ws_controls := q\<rparr>))" by (rule ws_finish_moved)
    ultimately show ?thesis
      using True TextMessage p moved_trans [OF mv]
      by (auto simp: onMessage_def wakes_moved_def admits_text_def text_of_def split_beta)
  next
    case (BinaryMessage d)
    show ?thesis
      using True BinaryMessage ws_finish_moved [of "t\<lparr>ws_binary := q\<rparr>" for q]
      by (auto simp: onMessage_def wakes_moved_def admits_text_def split_beta)
  qed
qed (auto simp: onMessage_def wakes_moved_def admits_text_def split: ws_message.split)

lemma chain_ops_controls [simp]:
  "ws_controls (start_write t) = ws_controls t" "ws_controls (snd (enqueue_write w x t)) = ws_controls t"
  "ws_controls (finish_settled t) = ws_controls t" "ws_controls (close_start t) = ws_controls t"
  by (simp_all add: start_write_def enqueue_write_def finish_settled_def close_start_def Let_def split: list.split)

lemma write_settled_moved: "wakes_moved t [] [] (write_settled r t)"
  using ws_finish_moved [of "t\<lparr>ws_settled := x\<rparr>" for x]
  by (auto simp: write_settled_def wakes_moved_def Let_def split_beta split: list.split sum.split)

lemma socket_closed_moved: "wakes_moved t [] [] (socket_closed r t)"
  using finishQueues_moved [of t] by (auto simp: socket_closed_def wakes_moved_def split_beta split: sum.split)

lemma exec_ws_moved:
  assumes "exec_ws w x t = (out, r)"
  shows "wakes_moved t (if admits_text x t then text_of x else []) out r"
proof (cases x)
  case (WsMessage m now)
  then show ?thesis using assms onMessage_moved [of t m now] by (simp split: if_splits)
next
  case (WsReceive sig)
  then show ?thesis
    using assms moved_op [of w "Shift sig" "ws_controls t"]
    by (auto simp: receiveControl_def wakes_moved_def admits_text_def split: prod.splits)
next
  case (WsAbort s e)
  then show ?thesis
    using assms moved_op [of 0 "Abort s e" "ws_controls t"]
    by (auto simp: ws_abort_def wakes_moved_def admits_text_def split_beta)
qed (use assms finishQueues_moved [of t] write_settled_moved [of t] socket_closed_moved [of t] in
    \<open>auto simp: admits_text_def onClose_def onPong_def sendText_def ws_writeFrame_def ws_readFrame_def receiveBinary_def
      clearBinary_def ws_openMedia_def media_close_def intro!: wakes_moved_refl split: prod.splits sum.splits outcome.splits\<close>)

lemma closed_monotone: "ws_closed t \<Longrightarrow> ws_closed (fst (snd (exec_ws w x t)))"
  by (cases x) (auto simp: onMessage_core(3) onClose_def onPong_def sendText_def ws_writeFrame_def enqueue_write_def write_settled_def
      start_write_def finish_settled_def receiveControl_def ws_readFrame_def receiveBinary_def clearBinary_def ws_openMedia_def
      media_close_def close_start_def socket_closed_def ws_abort_def Let_def split_beta split: sum.split list.split outcome.split)

text \<open>A text message is admitted or closes the transport.\<close>

lemma text_admitted:
  assumes "ws_listening t" "\<not> ws_closed (fst (snd (exec_ws w x t)))"
  shows "(if admits_text x t then text_of x else []) = text_of x"
proof (cases "text_of x = []")
  case False
  then obtain d now where x: "x = WsMessage (TextMessage d) now"
    by (auto simp: text_of_def split: ws_op.splits ws_message.splits)
  then show ?thesis
    using assms ws_finish_core(2) [of "t\<lparr>ws_controls := q\<rparr>" for q]
    by (auto simp: onMessage_def admits_text_def split_beta split: if_splits)
qed simp

definition inbound_ok :: "ws_run \<Rightarrow> bool" where
  "inbound_ok r \<longleftrightarrow> chain_ok (wr_ws r) \<and> queue_inv (ws_controls (wr_ws r)) \<and> writers (ws_controls (wr_ws r)) = []
     \<and> wr_admitted r = wr_received r @ items (ws_controls (wr_ws r))
     \<and> (\<not> ws_closed (wr_ws r) \<longrightarrow> wr_offered r = wr_admitted r)"

lemma inbound_step:
  assumes "inbound_ok r"
  shows "inbound_ok (ws_step r x)"
proof -
  let ?t = "wr_ws r"
  obtain out t' es where ex: "exec_ws (wr_next r) x ?t = (out, t', es)" by (metis prod.exhaust)
  have ok: "chain_ok ?t" "queue_inv (ws_controls ?t)" "writers (ws_controls ?t) = []" "wr_admitted r = wr_received r @ items (ws_controls ?t)"
    using assms by (auto simp: inbound_ok_def)
  have "chain_ok t'" using exec_ws_chain_ok [OF ok(1), of "wr_next r" x] ex by simp
  moreover have "queue_inv (ws_controls t') \<and> writers (ws_controls t') = []
      \<and> items (ws_controls ?t) @ (if admits_text x ?t then text_of x else []) = (out @ delivered_by (control_wakes es)) @ items (ws_controls t')"
    using exec_ws_moved [OF ex] ok(2,3) by (simp add: wakes_moved_def moved_def)
  moreover have "wr_offered r = wr_admitted r \<and> (if admits_text x ?t then text_of x else []) = text_of x" if "\<not> ws_closed t'"
  proof -
    have "\<not> ws_closed ?t" using closed_monotone [of ?t "wr_next r" x] that ex by auto
    then show ?thesis using text_admitted [of ?t "wr_next r" x] assms ok(1) that ex by (auto simp: inbound_ok_def chain_ok_def)
  qed
  ultimately show ?thesis using ex ok(4) by (auto simp: inbound_ok_def ws_step_def)
qed

lemma run_ws_inbound_ok:
  assumes "new_websocket cfg = Inr t"
  shows "inbound_ok (run_ws t xs)"
proof (induction xs rule: rev_induct)
  case Nil
  have "queue_inv (ws_controls t)" "writers (ws_controls t) = []" "items (ws_controls t) = []"
    using assms by (auto simp: new_websocket_def bindR_Inr_iff new_queue_def queue_inv_def positive_safe_Some_iff split: option.splits)
  then show ?case using new_websocket_ok [OF assms] by (simp add: run_ws_def ws_start_def inbound_ok_def)
next
  case (snoc x xs)
  then show ?case by (simp add: run_ws_def inbound_step)
qed

text \<open>
  An open WebSocket transport loses no control message: the texts that the socket delivered are, in
  that order, the ones that \<open>receive\<close> returned followed by the ones that wait; a text that finds the
  queue full closes the transport.  After that the texts admitted before are still received in order.
\<close>

theorem websocket_inbound_in_order:
  assumes "new_websocket cfg = Inr t0" "r = run_ws t0 xs"
  shows "wr_admitted r = wr_received r @ items (ws_controls (wr_ws r))
    \<and> (\<not> ws_closed (wr_ws r) \<longrightarrow> wr_offered r = wr_received r @ items (ws_controls (wr_ws r)))"
  using run_ws_inbound_ok [OF assms(1), of xs] assms(2) by (auto simp: inbound_ok_def)

section \<open>A sample transport\<close>

definition sample_ws_config :: ws_config where
  "sample_ws_config = \<lparr>wc_protocol = ''rtvbp.v1'', wc_ping = True, wc_onPong = True, wc_audioFormat = None, wc_inboundCapacity = Some (jsInt 1)\<rparr>"

definition sample_ws :: ws where
  "sample_ws = projr (new_websocket sample_ws_config)"

lemma sample_ws: "new_websocket sample_ws_config = Inr sample_ws"
proof -
  have "isl (new_websocket sample_ws_config) = False" by code_simp
  then show ?thesis by (simp add: sample_ws_def)
qed

theorem websocket_writes_in_order_witness:
  "ws_wire (wr_ws (run_ws sample_ws [WsSend ''a'' NoSignal, WsSend ''b'' NoSignal, WsClose, WsWriteSettled (Inr ()), WsWriteSettled (Inr ())]))
   = [WriteText ''a'', WriteText ''b'']"
proof -
  let ?t = "wr_ws (run_ws sample_ws [WsSend ''a'' NoSignal, WsSend ''b'' NoSignal, WsClose, WsWriteSettled (Inr ()), WsWriteSettled (Inr ())])"
  have "ws_accepted ?t = [WriteText ''a'', WriteText ''b'']" "ws_closing ?t = CloseSocket" by code_simp+
  then show ?thesis using websocket_writes_in_order [OF sample_ws refl, of "[WsSend ''a'' NoSignal, WsSend ''b'' NoSignal, WsClose, WsWriteSettled (Inr ()), WsWriteSettled (Inr ())]"] by metis
qed

theorem websocket_inbound_in_order_witness:
  "wr_received (run_ws sample_ws [WsMessage (TextMessage ''a'') (Fin 0), WsMessage (TextMessage ''b'') (Fin 0), WsReceive NoSignal])
     @ items (ws_controls (wr_ws (run_ws sample_ws [WsMessage (TextMessage ''a'') (Fin 0), WsMessage (TextMessage ''b'') (Fin 0), WsReceive NoSignal])))
   = [\<lparr>rc_data = ''a'', rc_receivedAt = Fin 0\<rparr>]"
proof -
  have "wr_admitted (run_ws sample_ws [WsMessage (TextMessage ''a'') (Fin 0), WsMessage (TextMessage ''b'') (Fin 0), WsReceive NoSignal])
      = [\<lparr>rc_data = ''a'', rc_receivedAt = Fin 0\<rparr>]" by code_simp
  then show ?thesis using websocket_inbound_in_order [OF sample_ws refl] by metis
qed

end
