(* ===== verification/Websocket_Audio.thy ===== *)
theory Websocket_Audio
  imports Websocket_Runs
begin

text \<open>
  The audio stream of a session over a WebSocket: the static media channel as an instance of the interface
  that the stream writes to.
\<close>

section \<open>The channel as a media sink\<close>

text \<open>
  A write of the stream waits for its frame: the frame is enqueued behind no other write, handed to the
  socket, and settles as the socket says.  \<open>res\<close> gives the outcome of the n-th write of the transport.
\<close>

definition ws_frame_write ::
  "(nat \<Rightarrow> unit result) \<Rightarrow> media_frame \<Rightarrow> ws \<Rightarrow> ws \<times> unit result" where
  "ws_frame_write res f t =
     (let n = length (ws_wire t) in
      case ws_writeFrame n f NoSignal t of
        (Threw e, t1) \<Rightarrow> (t1, Inl e)
      | (_, t1) \<Rightarrow> (finish_settled (fst (write_settled (res n) t1)), res n))"

definition ws_env :: "(nat \<Rightarrow> unit result) \<Rightarrow> ws media_env" where
  "ws_env res =
     \<lparr>env_writeFrame = ws_frame_write res,
      env_clear = Some (\<lambda>t. case clearBinary t of (r, t1, _) \<Rightarrow> (t1, case r of Inr n \<Rightarrow> n | Inl _ \<Rightarrow> 0)),
      env_close = (\<lambda>t. (media_close t, Inr ())), env_observe = (\<lambda>ob t. (t, Inr ())), env_now = (\<lambda>_. Fin 0), env_signal = (\<lambda>_. NoSignal)\<rparr>"

text \<open>The binary messages that the socket has taken.\<close>

definition binary_sent :: "ws \<Rightarrow> byte list list" where
  "binary_sent t = concat (map (\<lambda>(x, _, r). case (x, r) of (WriteBinary d, Inr _) \<Rightarrow> [d] | _ \<Rightarrow> []) (zip (ws_wire t) (ws_settled t)))"

definition quiet_chain :: "ws \<Rightarrow> bool" where
  "quiet_chain t \<longleftrightarrow> ws_chain t = [] \<and> ws_tail t = Writing \<and> length (ws_settled t) = length (ws_wire t) \<and> ws_closing t = CloseIdle"

lemma ws_finish_sel [simp]:
  "ws_wire (fst (ws_finish t)) = ws_wire t" "ws_settled (fst (ws_finish t)) = ws_settled t" "ws_chain (fst (ws_finish t)) = ws_chain t"
  "ws_closing (fst (ws_finish t)) = ws_closing t" "ws_tail (fst (ws_finish t)) = ws_tail t"
  using ws_finish_core(1) [of t] by (simp_all add: chain_core_def)

lemma enqueue_quiet:
  "quiet_chain t \<Longrightarrow> (\<exists>e. enqueue_write w x t = (Threw e, t))
     \<or> enqueue_write w x t = (Waiting w, t\<lparr>ws_chain := [(w, x)], ws_accepted := ws_accepted t @ [x], ws_tail := Writing, ws_wire := ws_wire t @ [x]\<rparr>)"
  by (simp add: enqueue_write_def start_write_def quiet_chain_def)

lemma writeFrame_quiet:
  assumes "quiet_chain t"
  shows "(\<exists>e. ws_writeFrame w f sig t = (Threw e, t))
     \<or> ws_writeFrame w f sig t = (Waiting w, t\<lparr>ws_chain := [(w, WriteBinary (frame_data f))],
          ws_accepted := ws_accepted t @ [WriteBinary (frame_data f)], ws_tail := Writing, ws_wire := ws_wire t @ [WriteBinary (frame_data f)]\<rparr>)"
  using enqueue_quiet [OF assms, of w "WriteBinary (frame_data f)"]
  by (cases "bindR (throwIfAborted sig) (\<lambda>_. media_frame_bytes (ws_media t))") (simp_all add: ws_writeFrame_def)

lemma ws_frame_write_facts:
  assumes "quiet_chain t" "ws_frame_write res f t = (t', r)"
  shows "quiet_chain t'" "binary_sent t' = binary_sent t @ (case r of Inr _ \<Rightarrow> [frame_data f] | Inl _ \<Rightarrow> [])"
proof -
  let ?n = "length (ws_wire t)"
  consider (threw) e where "ws_writeFrame ?n f NoSignal t = (Threw e, t)"
    | (queued) t1 where "ws_writeFrame ?n f NoSignal t = (Waiting ?n, t1)"
        "t1 = t\<lparr>ws_chain := [(?n, WriteBinary (frame_data f))], ws_accepted := ws_accepted t @ [WriteBinary (frame_data f)],
          ws_tail := Writing, ws_wire := ws_wire t @ [WriteBinary (frame_data f)]\<rparr>"
    using writeFrame_quiet [OF assms(1), of ?n f NoSignal] by blast
  then have "quiet_chain t' \<and> binary_sent t' = binary_sent t @ (case r of Inr _ \<Rightarrow> [frame_data f] | Inl _ \<Rightarrow> [])"
  proof cases
    case threw
    then show ?thesis using assms by (auto simp: ws_frame_write_def)
  next
    case (queued t1)
    have "r = res ?n" "t' = finish_settled (fst (write_settled (res ?n) t1))" using assms(2) queued(1) by (auto simp: ws_frame_write_def Let_def)
    then show ?thesis
      using assms(1) queued(2)
      by (cases "res ?n") (auto simp: write_settled_def finish_settled_def start_write_def quiet_chain_def binary_sent_def Let_def split_beta)
  qed
  then show "quiet_chain t'" "binary_sent t' = binary_sent t @ (case r of Inr _ \<Rightarrow> [frame_data f] | Inl _ \<Rightarrow> [])" by simp_all
qed

lemma websocket_sink: "media_sink (ws_env res) binary_sent quiet_chain"
  using ws_frame_write_facts [of _ res] by unfold_locales (fastforce simp: ws_env_def)+

interpretation websocket_media: media_sink "ws_env res" binary_sent quiet_chain for res
  by (rule websocket_sink)

lemma new_websocket_quiet: "new_websocket cfg = Inr t \<Longrightarrow> quiet_chain t \<and> binary_sent t = [] \<and> \<not> ws_closed t"
  by (auto simp: new_websocket_def bindR_Inr_iff quiet_chain_def binary_sent_def)

text \<open>
  Claim C24.  Audio leaves a WebSocket transport unchanged: after a sequence of successful writes of an audio stream
  bound to its channel, the binary messages that the socket has taken are whole frames, and their data
  followed by the bytes kept for the next frame are the bytes kept before followed by the bytes written.
\<close>

theorem audio_over_websocket:
  assumes "new_websocket cfg = Inr t" "requireChannel a = Inr ch" "mediaFrameBytes (channel_format ch) = Inr fb"
    and "write_all (ws_env res) ds (a, t) = Some (a', t')"
  shows "concat (binary_sent t') @ au_partial a' = au_partial a @ concat ds \<and> (\<forall>m \<in> set (binary_sent t'). length m = fb)"
proof -
  have t: "quiet_chain t" "binary_sent t = []" using new_websocket_quiet [OF assms(1)] by auto
  from write_all_sent [OF websocket_sink assms(2,3,4) t(1)] show ?thesis by (auto simp: t(2))
qed

definition tiny_ws :: ws where
  "tiny_ws = sample_ws\<lparr>ws_media := \<lparr>sm_format = Some tiny_format, sm_closed = False\<rparr>\<rparr>"

lemma new_websocket_format:
  "new_websocket cfg = Inr t \<Longrightarrow> wc_audioFormat cfg = None \<Longrightarrow> mediaFrameBytes f = Inr n
   \<Longrightarrow> new_websocket (cfg\<lparr>wc_audioFormat := Some f\<rparr>) = Inr (t\<lparr>ws_media := \<lparr>sm_format = Some f, sm_closed = False\<rparr>\<rparr>)"
  by (auto simp: new_websocket_def configure_def bindR_Inr_iff)

lemma tiny_ws: "new_websocket (sample_ws_config\<lparr>wc_audioFormat := Some tiny_format\<rparr>) = Inr tiny_ws"
  using new_websocket_format [OF sample_ws _ bound_audio_channel(2)] by (simp add: tiny_ws_def sample_ws_config_def)

lemma tiny_ws_write:
  "quiet_chain t \<Longrightarrow> ws_media t = ws_media tiny_ws \<Longrightarrow> \<not> ws_closed t \<Longrightarrow> length (frame_data f) = 2
   \<Longrightarrow> \<exists>t'. ws_frame_write (\<lambda>_. Inr ()) f t = (t', Inr ()) \<and> quiet_chain t' \<and> ws_media t' = ws_media tiny_ws \<and> \<not> ws_closed t'"
  using bound_audio_channel(2)
  by (simp add: ws_frame_write_def ws_writeFrame_def enqueue_write_def start_write_def write_settled_def finish_settled_def quiet_chain_def
      tiny_ws_def media_frame_bytes_def media_format_of_def bindR_def Let_def)

theorem audio_over_websocket_witness:
  "\<exists>a' t'. write_all (ws_env (\<lambda>_. Inr ())) [[1, 2, 3], [4]] (bound_audio [], tiny_ws) = Some (a', t')
     \<and> concat (binary_sent t') @ au_partial a' = [1, 2, 3, 4]"
proof -
  let ?e = "ws_env (\<lambda>_. Inr ())"
  have env: "env_signal ?e c = NoSignal" "env_writeFrame ?e = ws_frame_write (\<lambda>_. Inr ())" "env_observe ?e ob c = (c, Inr ())" for c ob
    by (simp_all add: ws_env_def)
  have bound: "audio_write ?e id d (bound_audio p, c) =
     (if d = [] then ((bound_audio p, c), Inr 0)
      else case write_frames ?e 2 (p @ d) c of
          (c', Inl x) \<Rightarrow> ((bound_audio p, c'), Inl x)
        | (c', Inr rest) \<Rightarrow> ((bound_audio rest, c'), Inr (length d)))" for d p c
    using bound_audio_channel by (auto simp: audio_write_def env split: prod.splits sum.splits)
  have t0: "quiet_chain tiny_ws" "\<not> ws_closed tiny_ws" using new_websocket_quiet [OF tiny_ws] by auto
  obtain t1 where t1: "ws_frame_write (\<lambda>_. Inr ()) \<lparr>frame_data = [1, 2], frame_ptsMs = Some (env_now ?e tiny_ws)\<rparr> tiny_ws = (t1, Inr ())"
    "quiet_chain t1" "ws_media t1 = ws_media tiny_ws" "\<not> ws_closed t1"
    using tiny_ws_write [OF t0(1) refl t0(2), of "\<lparr>frame_data = [1, 2], frame_ptsMs = Some (env_now ?e tiny_ws)\<rparr>"] by auto
  obtain t2 where t2: "ws_frame_write (\<lambda>_. Inr ()) \<lparr>frame_data = [3, 4], frame_ptsMs = Some (env_now ?e t1)\<rparr> t1 = (t2, Inr ())"
    using tiny_ws_write [OF t1(2,3,4), of "\<lparr>frame_data = [3, 4], frame_ptsMs = Some (env_now ?e t1)\<rparr>"] by auto
  have w: "write_all ?e [[1, 2, 3], [4]] (bound_audio [], tiny_ws) = Some (bound_audio [], t2)"
    using t1(1) t2 by (simp add: bound write_frames.simps env)
  from audio_over_websocket [OF tiny_ws bound_audio_channel(1) _ w] bound_audio_channel(2) w show ?thesis by auto
qed

end
