(* ===== verification/Websocket_Keepalive.thy ===== *)
theory Websocket_Keepalive
  imports Websocket_Runs
begin

text \<open>
  \<open>monitorKeepalive\<close> of \<open>websocket.ts\<close>, cut at its \<open>await\<close>s: the delay, the ping, the wait for a pong.  The
  clock, the signal and what the transport does with a ping are arguments of the continuations.  A log that
  the code does not have records what goes out and what comes in: the payload of each ping, the newest
  first, with the payloads of the pongs that the monitor took from their queue before its next ping.
\<close>

section \<open>The monitor\<close>

datatype ka_phase = KaDelay | KaPing | KaWait | KaEnded "unit result"

record keepalive_monitor =
  ka_misses :: nat
  ka_serial :: nat
  ka_deadline :: int
  ka_phase :: ka_phase
  ka_log :: "(string \<times> string list) list"

text \<open>The policy after \<open>validateKeepalive\<close>: positive integers.\<close>

record ka_policy =
  kp_timeoutMs :: nat
  kp_maxMisses :: nat

abbreviation keepalive_timed_out :: thrown where
  "keepalive_timed_out \<equiv> session_error ''keepalive_timeout'' ''WebSocket keepalive timed out''"

definition ka_expected :: "keepalive_monitor \<Rightarrow> string" where
  "ka_expected k = ''rtvbp:'' @ nat_text 10 (ka_serial k)"

definition ka_end :: "unit result \<Rightarrow> keepalive_monitor \<Rightarrow> keepalive_monitor" where
  "ka_end r k = k\<lparr>ka_phase := KaEnded r\<rparr>"

definition ka_loop :: "signal \<Rightarrow> keepalive_monitor \<Rightarrow> keepalive_monitor" where
  "ka_loop sig k = (case throwIfAborted sig of Inl _ \<Rightarrow> ka_end (Inr ()) k | Inr _ \<Rightarrow> k\<lparr>ka_phase := KaDelay\<rparr>)"

definition ka_start :: "ws \<Rightarrow> signal \<Rightarrow> keepalive_monitor" where
  "ka_start t sig =
     (let k = \<lparr>ka_misses = 0, ka_serial = 0, ka_deadline = 0, ka_phase = KaDelay, ka_log = []\<rparr> in
      if \<not> ws_supportsKeepalive t
      then ka_end (Inl (session_error ''keepalive_unsupported'' ''platform cannot send native WebSocket Ping frames'')) k
      else ka_loop sig k)"

text \<open>The end of a round.\<close>

definition ka_round :: "ka_policy \<Rightarrow> bool \<Rightarrow> signal \<Rightarrow> keepalive_monitor \<Rightarrow> keepalive_monitor" where
  "ka_round p matched sig k =
     (let n = (if matched then 0 else ka_misses k + 1); k1 = k\<lparr>ka_misses := n\<rparr>
      in if kp_maxMisses p \<le> n then ka_end (Inl keepalive_timed_out) k1 else ka_loop sig k1)"

text \<open>The head of the inner loop; \<open>withTimeout\<close> refuses an aborted signal.\<close>

definition ka_await :: "ka_policy \<Rightarrow> int \<Rightarrow> signal \<Rightarrow> keepalive_monitor \<Rightarrow> keepalive_monitor" where
  "ka_await p now sig k =
     (if ka_deadline k \<le> now then ka_round p False sig k
      else (case throwIfAborted sig of Inl e \<Rightarrow> ka_end (Inl e) k | Inr _ \<Rightarrow> k\<lparr>ka_phase := KaWait\<rparr>))"

definition ka_delay_over :: "nat \<Rightarrow> ws \<Rightarrow> keepalive_monitor \<Rightarrow> ws \<times> keepalive_monitor" where
  "ka_delay_over w t k =
     (if ka_phase k \<noteq> KaDelay then (t, k)
      else (let k1 = k\<lparr>ka_serial := ka_serial k + 1\<rparr> in
        case enqueue_write w (WritePing (ka_expected k1)) t of
          (Threw e, t1) \<Rightarrow> (t1, ka_end (Inl e) k1)
        | (_, t1) \<Rightarrow> (t1, k1\<lparr>ka_phase := KaPing, ka_log := (ka_expected k1, []) # ka_log k1\<rparr>)))"

definition ka_pinged :: "ka_policy \<Rightarrow> unit result \<Rightarrow> int \<Rightarrow> int \<Rightarrow> signal \<Rightarrow> keepalive_monitor \<Rightarrow> keepalive_monitor" where
  "ka_pinged p r now later_now sig k =
     (if ka_phase k \<noteq> KaPing then k
      else (case r of Inl e \<Rightarrow> ka_end (Inl e) k
          | Inr _ \<Rightarrow> ka_await p later_now sig (k\<lparr>ka_deadline := now + int (kp_timeoutMs p)\<rparr>)))"

definition log_pong :: "string \<Rightarrow> keepalive_monitor \<Rightarrow> keepalive_monitor" where
  "log_pong d k = k\<lparr>ka_log := (case ka_log k of [] \<Rightarrow> [] | (s, ds) # rs \<Rightarrow> (s, d # ds) # rs)\<rparr>"

definition ka_pong :: "ka_policy \<Rightarrow> string \<Rightarrow> int \<Rightarrow> signal \<Rightarrow> keepalive_monitor \<Rightarrow> keepalive_monitor" where
  "ka_pong p d now sig k =
     (if ka_phase k \<noteq> KaWait then k
      else if d = ka_expected k then ka_round p True sig (log_pong d k)
      else ka_await p now sig (log_pong d k))"

text \<open>The wait fails: the abort of the signal comes first, a timeout ends the round, other errors end the monitor.\<close>

definition ka_wait_failed :: "ka_policy \<Rightarrow> thrown \<Rightarrow> signal \<Rightarrow> keepalive_monitor \<Rightarrow> keepalive_monitor" where
  "ka_wait_failed p e sig k =
     (if ka_phase k \<noteq> KaWait then k
      else (case throwIfAborted sig of
          Inl a \<Rightarrow> ka_end (Inl a) k
        | Inr _ \<Rightarrow> if session_code e = Some ''keepalive_timeout'' then ka_round p False sig k else ka_end (Inl e) k))"

definition ka_delay_aborted :: "signal \<Rightarrow> keepalive_monitor \<Rightarrow> keepalive_monitor" where
  "ka_delay_aborted sig k =
     (if ka_phase k \<noteq> KaDelay then k else (case throwIfAborted sig of Inl e \<Rightarrow> ka_end (Inl e) k | Inr _ \<Rightarrow> k))"

section \<open>Runs\<close>

datatype ka_event =
    KaDelayOver nat ws
  | KaDelayAborted signal
  | KaPinged "unit result" int int signal
  | KaPong string int signal
  | KaWaitFailed thrown signal

fun ka_step :: "ka_policy \<Rightarrow> keepalive_monitor \<Rightarrow> ka_event \<Rightarrow> keepalive_monitor" where
  "ka_step p k (KaDelayOver w t) = snd (ka_delay_over w t k)"
| "ka_step p k (KaDelayAborted sig) = ka_delay_aborted sig k"
| "ka_step p k (KaPinged r now now' sig) = ka_pinged p r now now' sig k"
| "ka_step p k (KaPong d now sig) = ka_pong p d now sig k"
| "ka_step p k (KaWaitFailed e sig) = ka_wait_failed p e sig k"

definition run_ka :: "ka_policy \<Rightarrow> ws \<Rightarrow> signal \<Rightarrow> ka_event list \<Rightarrow> keepalive_monitor" where
  "run_ka p t sig es = foldl (ka_step p) (ka_start t sig) es"

section \<open>What the monitor detects\<close>

text \<open>The pings since the last one that was answered before the next ping.\<close>

definition unanswered :: "(string \<times> string list) list \<Rightarrow> nat" where
  "unanswered rs = length (takeWhile (\<lambda>(s, ds). s \<notin> set ds) rs)"

lemma unanswered_Cons: "unanswered ((s, ds) # rs) = (if s \<in> set ds then 0 else Suc (unanswered rs))"
  by (simp add: unanswered_def)

text \<open>A ping of the platform does not fail with the error of the monitor itself.\<close>

fun foreign :: "ka_event \<Rightarrow> bool" where
  "foreign (KaPinged (Inl e) _ _ _) = (e \<noteq> keepalive_timed_out)"
| "foreign _ = True"

text \<open>The round of the last ping is open: its answer has not come.\<close>

definition ka_open :: "ka_policy \<Rightarrow> keepalive_monitor \<Rightarrow> bool" where
  "ka_open p k \<longleftrightarrow> (\<exists>ds rs. ka_log k = (ka_expected k, ds) # rs \<and> ka_expected k \<notin> set ds \<and> ka_misses k = unanswered rs)
     \<and> ka_misses k < kp_maxMisses p"

definition ka_ok :: "ka_policy \<Rightarrow> keepalive_monitor \<Rightarrow> bool" where
  "ka_ok p k \<longleftrightarrow>
     (case ka_phase k of
        KaDelay \<Rightarrow> ka_misses k = unanswered (ka_log k) \<and> ka_misses k < kp_maxMisses p
      | KaEnded r \<Rightarrow> r = Inl keepalive_timed_out \<longrightarrow> unanswered (ka_log k) = kp_maxMisses p
      | _ \<Rightarrow> ka_open p k)"

lemma aborted_not_timeout: "throwIfAborted sig = Inl e \<Longrightarrow> e \<noteq> keepalive_timed_out"
  by (cases sig) auto

lemma ka_end_ok: "r \<noteq> Inl keepalive_timed_out \<Longrightarrow> ka_ok p (ka_end r k)"
  by (simp add: ka_ok_def ka_end_def)

lemma ka_missed_ok: "ka_open p k \<Longrightarrow> ka_ok p (ka_round p False sig k)"
  by (auto simp: ka_open_def ka_ok_def ka_round_def ka_loop_def ka_end_def unanswered_Cons Let_def split: sum.split)

lemma ka_matched_ok: "ka_open p k \<Longrightarrow> ka_ok p (ka_round p True sig (log_pong (ka_expected k) k))"
  by (auto simp: ka_open_def ka_ok_def ka_round_def ka_loop_def ka_end_def log_pong_def unanswered_Cons Let_def split: sum.split)

lemma ka_stale_open: "ka_open p k \<Longrightarrow> d \<noteq> ka_expected k \<Longrightarrow> ka_open p (log_pong d k)"
  by (auto simp: ka_open_def log_pong_def ka_expected_def)

lemma ka_await_ok: "ka_open p k \<Longrightarrow> ka_ok p (ka_await p now sig k)"
  using ka_missed_ok [of p k sig] aborted_not_timeout [of sig]
  by (auto simp: ka_await_def ka_ok_def ka_end_def ka_open_def ka_expected_def split: sum.split)

lemma ka_step_ok:
  assumes "ka_ok p k" "foreign e"
  shows "ka_ok p (ka_step p k e)"
proof -
  have wait: "ka_open p k" if "ka_phase k = KaWait \<or> ka_phase k = KaPing" using assms(1) that by (auto simp: ka_ok_def)
  show ?thesis
  proof (cases e)
    case (KaDelayOver w t)
    then show ?thesis
      using assms(1)
      by (cases "ka_phase k = KaDelay") (auto simp: ka_delay_over_def ka_ok_def ka_end_def ka_open_def ka_expected_def enqueue_write_def Let_def)
  next
    case (KaDelayAborted sig)
    then show ?thesis
      using assms(1) aborted_not_timeout [of sig] by (auto simp: ka_delay_aborted_def intro!: ka_end_ok split: sum.split)
  next
    case (KaPinged r now now' sig)
    have "ka_open p (k\<lparr>ka_deadline := n\<rparr>)" if "ka_phase k = KaPing" for n
      using wait that by (auto simp: ka_open_def ka_expected_def)
    then show ?thesis
      using KaPinged assms by (cases r) (auto simp: ka_pinged_def intro: ka_end_ok ka_await_ok)
  next
    case (KaPong d now sig)
    then show ?thesis
      using assms(1) wait by (auto simp: ka_pong_def intro: ka_await_ok ka_stale_open ka_matched_ok)
  next
    case (KaWaitFailed x sig)
    then show ?thesis
      using assms(1) wait aborted_not_timeout [of sig]
      by (auto simp: ka_wait_failed_def intro: ka_end_ok ka_missed_ok split: sum.split)
  qed
qed

lemma ka_start_ok: "0 < kp_maxMisses p \<Longrightarrow> ka_ok p (ka_start t sig)"
  by (auto simp: ka_start_def ka_loop_def ka_end_def ka_ok_def unanswered_def Let_def split: sum.split)

lemma run_ka_ok: "0 < kp_maxMisses p \<Longrightarrow> list_all foreign es \<Longrightarrow> ka_ok p (run_ka p t sig es)"
  by (induction es rule: rev_induct) (simp_all add: run_ka_def ka_start_ok ka_step_ok)

text \<open>The pings are numbered.\<close>

definition ping_payloads :: "nat \<Rightarrow> string list" where
  "ping_payloads n = map (\<lambda>i. ''rtvbp:'' @ nat_text 10 i) (rev [1..<Suc n])"

lemma ping_payloads_0: "ping_payloads 0 = []"
  by (simp add: ping_payloads_def)

lemma ping_payloads_Suc: "ka_serial k = Suc n \<Longrightarrow> ka_expected k # ping_payloads n = ping_payloads (ka_serial k)"
  unfolding ping_payloads_def ka_expected_def by simp

definition ka_numbered :: "keepalive_monitor \<Rightarrow> bool" where
  "ka_numbered k \<longleftrightarrow> (\<exists>n \<le> ka_serial k. map fst (ka_log k) = ping_payloads n \<and> ((\<forall>r. ka_phase k \<noteq> KaEnded r) \<longrightarrow> n = ka_serial k))"

lemma ka_round_same [simp]: "ka_log (ka_round p b sig k) = ka_log k" "ka_serial (ka_round p b sig k) = ka_serial k"
  by (simp_all add: ka_round_def ka_loop_def ka_end_def Let_def split: sum.split)

lemma ka_await_same [simp]: "ka_log (ka_await p now sig k) = ka_log k" "ka_serial (ka_await p now sig k) = ka_serial k"
  by (simp_all add: ka_await_def ka_end_def split: sum.split)

lemma log_pong_same [simp]: "map fst (ka_log (log_pong d k)) = map fst (ka_log k)" "ka_serial (log_pong d k) = ka_serial k"
  by (simp_all add: log_pong_def split: list.split)

lemma ka_step_same:
  assumes "\<And>w t. e \<noteq> KaDelayOver w t"
  shows "map fst (ka_log (ka_step p k e)) = map fst (ka_log k) \<and> ka_serial (ka_step p k e) = ka_serial k"
proof (cases e)
  case (KaDelayOver w t)
  then show ?thesis using assms by blast
qed (simp_all add: ka_delay_aborted_def ka_pinged_def ka_pong_def ka_wait_failed_def ka_end_def split: sum.split)

lemma ka_step_ended: "ka_phase k = KaEnded r \<Longrightarrow> ka_step p k e = k"
  by (cases e) (simp_all add: ka_delay_over_def ka_delay_aborted_def ka_pinged_def ka_pong_def ka_wait_failed_def)

lemma ka_step_numbered:
  assumes "ka_numbered k"
  shows "ka_numbered (ka_step p k e)"
proof (cases "\<exists>r. ka_phase k = KaEnded r")
  case True
  then show ?thesis using assms ka_step_ended by metis
next
  case False
  then have n: "map fst (ka_log k) = ping_payloads (ka_serial k)" using assms by (auto simp: ka_numbered_def)
  show ?thesis
  proof (cases "\<exists>w t. e = KaDelayOver w t")
    case True
    then obtain w t where "e = KaDelayOver w t" by blast
    moreover have "ka_expected (k\<lparr>ka_serial := Suc (ka_serial k)\<rparr>) # map fst (ka_log k) = ping_payloads (Suc (ka_serial k))"
      using ping_payloads_Suc [of "k\<lparr>ka_serial := Suc (ka_serial k)\<rparr>"] n by simp
    ultimately show ?thesis
      using assms n by (cases "ka_phase k"; cases "enqueue_write w (WritePing (ka_expected (k\<lparr>ka_serial := Suc (ka_serial k)\<rparr>))) t")
        (auto simp: ka_numbered_def ka_delay_over_def ka_end_def Let_def split: outcome.split intro: exI [of _ "ka_serial k"])
  next
    case False
    then show ?thesis using ka_step_same [of e p k] n by (auto simp: ka_numbered_def)
  qed
qed

lemma run_ka_numbered: "ka_numbered (run_ka p t sig es)"
proof (induction es rule: rev_induct)
  case Nil
  then show ?case
    by (simp add: run_ka_def ka_start_def ka_loop_def ka_end_def ka_numbered_def ping_payloads_0 Let_def split: sum.split)
next
  case (snoc e es)
  then show ?case by (simp add: run_ka_def ka_step_numbered)
qed

text \<open>
  Claim C23.  The keepalive monitor gives a connection up exactly when the configured number of its pings in a row
  went unanswered, told from what it sends and gets: its pings carry the payloads \<open>rtvbp:1\<close>, \<open>rtvbp:2\<close> and so on, and a ping is
  answered when a pong with the same payload is taken from the queue of pongs before the next ping goes out,
  so a late answer to an earlier ping does not count.  When the monitor ends with the keepalive timeout, exactly
  the last \<open>maxMisses\<close> pings are unanswered; while it goes on, fewer are, not counting the ping whose answer
  it waits for.
\<close>

theorem keepalive_detects_misses:
  assumes "0 < kp_maxMisses p" "list_all foreign es" "k = run_ka p t sig es"
  shows "map fst (ka_log k) = ping_payloads (length (ka_log k))
    \<and> (ka_phase k = KaEnded (Inl keepalive_timed_out) \<longrightarrow> unanswered (ka_log k) = kp_maxMisses p)
    \<and> (ka_phase k = KaDelay \<longrightarrow> unanswered (ka_log k) < kp_maxMisses p)
    \<and> (ka_phase k \<in> {KaPing, KaWait} \<longrightarrow> unanswered (tl (ka_log k)) < kp_maxMisses p)"
proof -
  have "length (ping_payloads n) = n" for n by (simp add: ping_payloads_def)
  then have "map fst (ka_log k) = ping_payloads (length (ka_log k))"
    using run_ka_numbered [of p t sig es] unfolding assms(3) ka_numbered_def by (metis length_map)
  then show ?thesis using run_ka_ok [OF assms(1,2), of t sig] assms(3) by (auto simp: ka_ok_def ka_open_def)
qed

theorem keepalive_detects_misses_witness:
  "unanswered (ka_log (run_ka \<lparr>kp_timeoutMs = 5, kp_maxMisses = 2\<rparr> sample_ws NoSignal
     [KaDelayOver 0 sample_ws, KaPinged (Inr ()) 0 1 NoSignal, KaPong ''rtvbp:1'' 2 NoSignal,
      KaDelayOver 1 sample_ws, KaPinged (Inr ()) 10 11 NoSignal, KaPong ''rtvbp:1'' 20 NoSignal,
      KaDelayOver 2 sample_ws, KaPinged (Inr ()) 30 31 NoSignal, KaPong ''rtvbp:2'' 32 NoSignal,
      KaWaitFailed (session_error ''keepalive_timeout'' ''x'') NoSignal])) = 2"
proof -
  let ?es = "[KaDelayOver 0 sample_ws, KaPinged (Inr ()) 0 1 NoSignal, KaPong ''rtvbp:1'' 2 NoSignal,
      KaDelayOver 1 sample_ws, KaPinged (Inr ()) 10 11 NoSignal, KaPong ''rtvbp:1'' 20 NoSignal,
      KaDelayOver 2 sample_ws, KaPinged (Inr ()) 30 31 NoSignal, KaPong ''rtvbp:2'' 32 NoSignal,
      KaWaitFailed (session_error ''keepalive_timeout'' ''x'') NoSignal]"
  have "ka_phase (run_ka \<lparr>kp_timeoutMs = 5, kp_maxMisses = 2\<rparr> sample_ws NoSignal ?es) = KaEnded (Inl keepalive_timed_out)" by code_simp
  then show ?thesis
    using keepalive_detects_misses [of "\<lparr>kp_timeoutMs = 5, kp_maxMisses = 2\<rparr>" ?es _ sample_ws NoSignal, OF _ _ refl] by simp
qed

end
