(* ===== verification/Browser_Auth.thy ===== *)
theory Browser_Auth
  imports Errors "HOL-Library.Word"
begin

text \<open>
  \<open>browser_auth.ts\<close>: the access token of a browser deployment as a subprotocol value.  The bit operations
  act on numbers below 256, where those of JavaScript are the ones of the natural numbers.
\<close>

unbundle bit_operations_syntax

section \<open>Encoding\<close>

definition BASE64URL :: string where
  "BASE64URL = ''ABCDEFGHIJKLMNOPQRSTUVWXYZabcdefghijklmnopqrstuvwxyz0123456789-_''"

text \<open>The loop takes three bytes at a time; absent ones count as zero and yield no character of their own.\<close>

fun base64Url :: "8 word list \<Rightarrow> string" where
  "base64Url [] = []"
| "base64Url [a] =
     [BASE64URL ! drop_bit 2 (unat a), BASE64URL ! (push_bit 4 (unat a AND 3) OR drop_bit 4 0)]"
| "base64Url [a, b] =
     [BASE64URL ! drop_bit 2 (unat a), BASE64URL ! (push_bit 4 (unat a AND 3) OR drop_bit 4 (unat b)),
      BASE64URL ! (push_bit 2 (unat b AND 15) OR drop_bit 6 0)]"
| "base64Url (a # b # c # bs) =
     [BASE64URL ! drop_bit 2 (unat a), BASE64URL ! (push_bit 4 (unat a AND 3) OR drop_bit 4 (unat b)),
      BASE64URL ! (push_bit 2 (unat b AND 15) OR drop_bit 6 (unat c)), BASE64URL ! (unat c AND 63)] @ base64Url bs"

text \<open>\<open>TextEncoder\<close> on the characters of the model, whose codes are below 256.\<close>

definition utf8_char :: "char \<Rightarrow> 8 word list" where
  "utf8_char c =
     (let n = (of_char c :: nat) in
      if n < 128 then [of_nat n] else [of_nat (192 OR drop_bit 6 n), of_nat (128 OR (n AND 63))])"

definition utf8 :: "string \<Rightarrow> 8 word list" where
  "utf8 s = concat (map utf8_char s)"

definition babelforceBearerSubprotocol :: "string \<Rightarrow> string result" where
  "babelforceBearerSubprotocol accessToken =
     (if accessToken = [] then Inl (session_error ''authentication'' ''babelforce OAuth access token must not be empty'')
      else Inr (''bearer.'' @ base64Url (utf8 accessToken)))"

definition babelforceBearerSubprotocols :: "string \<Rightarrow> string \<Rightarrow> string list result" where
  "babelforceBearerSubprotocols profile accessToken =
     (if profile = [] then Inl (session_error ''configuration'' ''profile token must not be empty'')
      else bindR (babelforceBearerSubprotocol accessToken) (\<lambda>b. Inr [profile, b]))"

section \<open>Decoding\<close>

text \<open>What a server does with the value: characters to numbers below 64, four of them to three bytes.\<close>

definition base64_value :: "char \<Rightarrow> nat option" where
  "base64_value c = (if c \<in> set BASE64URL then Some (length (takeWhile (\<lambda>d. d \<noteq> c) BASE64URL)) else None)"

fun sextets_bytes :: "nat list \<Rightarrow> 8 word list option" where
  "sextets_bytes [] = Some []"
| "sextets_bytes [_] = None"
| "sextets_bytes [s, t] = Some [of_nat (s * 4 + t div 16)]"
| "sextets_bytes [s, t, u] = Some [of_nat (s * 4 + t div 16), of_nat ((t mod 16) * 16 + u div 4)]"
| "sextets_bytes (s # t # u # v # rest) =
     map_option (\<lambda>bs. of_nat (s * 4 + t div 16) # of_nat ((t mod 16) * 16 + u div 4) # of_nat ((u mod 4) * 64 + v) # bs)
       (sextets_bytes rest)"

definition base64Url_decode :: "string \<Rightarrow> 8 word list option" where
  "base64Url_decode s = Option.bind (those (map base64_value s)) sextets_bytes"

section \<open>The encoding is invertible\<close>

lemma BASE64URL_length [simp]: "length BASE64URL = 64"
  by (simp add: BASE64URL_def)

lemma base64_values: "map base64_value BASE64URL = map Some [0..<64]"
  by code_simp

lemma base64_value_nth [simp]: "i < 64 \<Longrightarrow> base64_value (BASE64URL ! i) = Some i"
  using arg_cong [OF base64_values, of "\<lambda>xs. xs ! i"] by simp

lemma or_push_bit:
  assumes "y < 2 ^ n"
  shows "push_bit n x OR y = x * 2 ^ n + (y :: nat)"
proof -
  have "\<not> bit y m" if "n \<le> m" for m
  proof -
    have "y < 2 ^ m" using assms that by (meson less_le_trans one_le_numeral power_increasing)
    then show ?thesis by (simp add: bit_iff_odd)
  qed
  then have "push_bit n x AND y = 0" by (intro bit_eqI) (auto simp: bit_and_iff bit_push_bit_iff)
  then have "push_bit n x + y = push_bit n x OR y" by (rule disjunctive_add_eq_or)
  then show ?thesis by (simp add: push_bit_eq_mult)
qed

lemma and_nat_mod: "x AND 3 = (x :: nat) mod 4" "x AND 15 = (x :: nat) mod 16" "x AND 63 = (x :: nat) mod 64"
  using take_bit_eq_mask [of 2 x] take_bit_eq_mask [of 4 x] take_bit_eq_mask [of 6 x]
  by (simp_all add: mask_eq_exp_minus_1 take_bit_eq_mod)

text \<open>The numbers of a group of bytes, by division.\<close>

lemma sextets:
  fixes a b c :: "8 word"
  shows "drop_bit 2 (unat a) = unat a div 4" "drop_bit 2 (unat a) < 64"
    "push_bit 4 (unat a AND 3) OR drop_bit 4 (unat b) = (unat a mod 4) * 16 + unat b div 16"
    "push_bit 4 (unat a AND 3) OR drop_bit 4 0 = (unat a mod 4) * 16"
    "push_bit 2 (unat b AND 15) OR drop_bit 6 (unat c) = (unat b mod 16) * 4 + unat c div 64"
    "push_bit 2 (unat b AND 15) OR drop_bit 6 0 = (unat b mod 16) * 4"
    "unat c AND 63 = unat c mod 64"
proof -
  have lt: "unat x < 256" for x :: "8 word" using unsigned_less [of x] by simp
  show "drop_bit 2 (unat a) = unat a div 4" "drop_bit 2 (unat a) < 64" using lt [of a] by (simp_all add: drop_bit_eq_div)
  show "push_bit 4 (unat a AND 3) OR drop_bit 4 (unat b) = (unat a mod 4) * 16 + unat b div 16"
    using or_push_bit [of "drop_bit 4 (unat b)" 4 "unat a AND 3"] lt [of b] by (simp add: drop_bit_eq_div and_nat_mod)
  show "push_bit 2 (unat b AND 15) OR drop_bit 6 (unat c) = (unat b mod 16) * 4 + unat c div 64"
    using or_push_bit [of "drop_bit 6 (unat c)" 2 "unat b AND 15"] lt [of c] by (simp add: drop_bit_eq_div and_nat_mod)
qed (simp_all add: push_bit_eq_mult and_nat_mod)

lemma regroup_nat:
  fixes a b c :: nat
  assumes "a < 256" "b < 256" "c < 256"
  shows "a div 4 * 4 + (a mod 4 * 16 + b div 16) div 16 = a" "a div 4 * 4 + a mod 4 * 16 div 16 = a"
    "(a mod 4 * 16 + b div 16) mod 16 * 16 + (b mod 16 * 4 + c div 64) div 4 = b"
    "(a mod 4 * 16 + b div 16) mod 16 * 16 + b mod 16 * 4 div 4 = b"
    "(b mod 16 * 4 + c div 64) mod 4 * 64 + c mod 64 = c"
  using assms by (simp_all add: div_less_iff_less_mult)

lemma regroup:
  fixes a b c :: "8 word"
  shows "of_nat (unat a div 4 * 4 + (unat a mod 4 * 16 + unat b div 16) div 16) = a"
    "of_nat (unat a div 4 * 4 + unat a mod 4 * 16 div 16) = a"
    "of_nat ((unat a mod 4 * 16 + unat b div 16) mod 16 * 16 + (unat b mod 16 * 4 + unat c div 64) div 4) = b"
    "of_nat ((unat a mod 4 * 16 + unat b div 16) mod 16 * 16 + unat b mod 16 * 4 div 4) = b"
    "of_nat ((unat b mod 16 * 4 + unat c div 64) mod 4 * 64 + unat c mod 64) = c"
proof -
  have lt: "unat x < 256" for x :: "8 word" using unsigned_less [of x] by simp
  note n = regroup_nat [OF lt [of a] lt [of b] lt [of c]]
  show "of_nat (unat a div 4 * 4 + (unat a mod 4 * 16 + unat b div 16) div 16) = a"
    "of_nat (unat a div 4 * 4 + unat a mod 4 * 16 div 16) = a"
    "of_nat ((unat a mod 4 * 16 + unat b div 16) mod 16 * 16 + (unat b mod 16 * 4 + unat c div 64) div 4) = b"
    "of_nat ((unat a mod 4 * 16 + unat b div 16) mod 16 * 16 + unat b mod 16 * 4 div 4) = b"
    "of_nat ((unat b mod 16 * 4 + unat c div 64) mod 4 * 64 + unat c mod 64) = c"
    unfolding n by simp_all
qed

lemma sextet_bounds:
  fixes a b c :: "8 word"
  shows "unat a div 4 < 64" "unat a mod 4 * 16 + unat b div 16 < 64" "unat a mod 4 * 16 < 64"
    "unat b mod 16 * 4 + unat c div 64 < 64" "unat b mod 16 * 4 < 64" "unat c mod 64 < 64"
proof -
  have lt: "unat x < 256" for x :: "8 word" using unsigned_less [of x] by simp
  show "unat a div 4 < 64" "unat a mod 4 * 16 + unat b div 16 < 64" "unat a mod 4 * 16 < 64"
    "unat b mod 16 * 4 + unat c div 64 < 64" "unat b mod 16 * 4 < 64" "unat c mod 64 < 64"
    using lt [of a] mod_less_divisor [of 4 "unat a"] lt [of b] mod_less_divisor [of 16 "unat b"] lt [of c] mod_less_divisor [of 64 "unat c"]
    by (simp_all add: div_less_iff_less_mult flip: ring_distribs)
qed

fun sextets_of :: "8 word list \<Rightarrow> nat list" where
  "sextets_of [] = []"
| "sextets_of [a] = [unat a div 4, unat a mod 4 * 16]"
| "sextets_of [a, b] = [unat a div 4, unat a mod 4 * 16 + unat b div 16, unat b mod 16 * 4]"
| "sextets_of (a # b # c # bs) =
     [unat a div 4, unat a mod 4 * 16 + unat b div 16, unat b mod 16 * 4 + unat c div 64, unat c mod 64] @ sextets_of bs"

lemma base64Url_sextets: "base64Url bs = map ((!) BASE64URL) (sextets_of bs)"
proof (induction bs rule: base64Url.induct)
  case (4 a b c bs)
  show ?case unfolding base64Url.simps sextets_of.simps sextets map_append 4 by simp
qed (simp_all only: base64Url.simps sextets_of.simps sextets list.map)

lemma sextets_of_bound: "s \<in> set (sextets_of bs) \<Longrightarrow> s < 64"
  by (induction bs rule: sextets_of.induct) (auto simp: sextet_bounds)

lemma sextets_of_bytes: "sextets_bytes (sextets_of bs) = Some bs"
proof (induction bs rule: sextets_of.induct)
  case (4 a b c bs)
  then show ?case by (simp only: sextets_of.simps append.simps sextets_bytes.simps regroup option.map)
qed (simp_all only: sextets_of.simps sextets_bytes.simps regroup)

lemma those_values: "\<forall>s \<in> set ss. s < 64 \<Longrightarrow> those (map base64_value (map ((!) BASE64URL) ss)) = Some ss"
  by (induction ss) simp_all

lemma decode_base64Url: "base64Url_decode (base64Url bs) = Some bs"
  using those_values [of "sextets_of bs"] sextets_of_bound [of _ bs]
  by (simp add: base64Url_decode_def base64Url_sextets sextets_of_bytes)

lemma base64Url_chars: "set (base64Url bs) \<subseteq> set BASE64URL"
  using sextets_of_bound [of _ bs] by (auto simp: base64Url_sextets intro!: nth_mem)

text \<open>The characters of a token of an HTTP header that occur.\<close>

definition token_chars :: string where
  "token_chars = ''ABCDEFGHIJKLMNOPQRSTUVWXYZabcdefghijklmnopqrstuvwxyz0123456789-_.''"

lemma token_chars_base64: "set BASE64URL \<subseteq> set token_chars" "set ''bearer.'' \<subseteq> set token_chars"
  by (simp_all add: BASE64URL_def token_chars_def)

lemma utf8_char_div:
  "utf8_char c = (let n = (of_char c :: nat) in if n < 128 then [of_nat n] else [of_nat (192 + n div 64), of_nat (128 + n mod 64)])"
proof -
  have "192 OR drop_bit 6 n = 192 + n div 64" if "n < 256" for n :: nat
    using or_push_bit [of "n div 64" 6 3] that by (simp add: drop_bit_eq_div push_bit_eq_mult div_less_iff_less_mult)
  moreover have "128 OR (n AND 63) = 128 + n mod 64" for n :: nat
    using or_push_bit [of "n mod 64" 7 1] mod_less_divisor [of 64 n] by (simp add: push_bit_eq_mult and_nat_mod)
  moreover have "of_char c < (256 :: nat)" by simp
  ultimately show ?thesis unfolding utf8_char_def by (simp add: Let_def)
qed

lemma of_nat_byte_eq: "m < 256 \<Longrightarrow> n < 256 \<Longrightarrow> (of_nat m :: 8 word) = of_nat n \<longleftrightarrow> m = n"
  by (simp add: unsigned_word_eqI word_of_nat_eq_iff take_bit_nat_eq_self)

lemma utf8_char_inj: "utf8_char c @ r = utf8_char d @ s \<Longrightarrow> c = d \<and> r = s"
proof -
  assume eq: "utf8_char c @ r = utf8_char d @ s"
  let ?m = "of_char c :: nat" and ?n = "of_char d :: nat"
  have lt: "?m < 256" "?n < 256" by simp_all
  have b: "192 + ?m div 64 < 256" "192 + ?n div 64 < 256" "128 + ?m mod 64 < 256" "128 + ?n mod 64 < 256"
    using lt less_mult_imp_div_less [of ?m 4 64] less_mult_imp_div_less [of ?n 4 64] mod_less_divisor [of 64 ?m] mod_less_divisor [of 64 ?n]
    by linarith+
  have "?m = ?n \<and> r = s"
  proof (cases "?m < 128"; cases "?n < 128")
    assume "\<not> ?m < 128" "\<not> ?n < 128"
    then have "?m div 64 = ?n div 64" "?m mod 64 = ?n mod 64" "r = s"
      using eq of_nat_byte_eq [OF b(1,2)] of_nat_byte_eq [OF b(3,4)] by (simp_all add: utf8_char_div Let_def del: of_nat_add)
    then show ?thesis by (metis div_mult_mod_eq)
  next
    assume "?m < 128" "\<not> ?n < 128"
    then show ?thesis using eq of_nat_byte_eq [OF lt(1) b(2)] by (simp add: utf8_char_div Let_def del: of_nat_add)
  next
    assume "\<not> ?m < 128" "?n < 128"
    then show ?thesis using eq of_nat_byte_eq [OF b(1) lt(2)] by (simp add: utf8_char_div Let_def del: of_nat_add)
  next
    assume "?m < 128" "?n < 128"
    then show ?thesis using eq of_nat_byte_eq [OF lt] by (simp add: utf8_char_div Let_def)
  qed
  then show ?thesis by (metis of_char_eq_iff)
qed

lemma utf8_inj: "utf8 s = utf8 t \<Longrightarrow> s = t"
proof (induction s arbitrary: t)
  case Nil
  then show ?case by (cases t) (auto simp: utf8_def utf8_char_def Let_def split: if_splits)
next
  case (Cons c s)
  then show ?case
  proof (cases t)
    case Nil
    then show ?thesis using Cons.prems by (auto simp: utf8_def utf8_char_def Let_def split: if_splits)
  next
    case (Cons d u)
    then show ?thesis using Cons.prems Cons.IH [of u] utf8_char_inj [of c "utf8 s" d "utf8 u"] by (auto simp: utf8_def)
  qed
qed

text \<open>
  Claim C25.  The subprotocol value carries the access token: it is \<open>bearer.\<close> followed by characters that a header
  token allows, from which the bytes of the token are recovered, and different tokens have different
  values.
\<close>

theorem bearer_subprotocol_roundtrip:
  assumes "babelforceBearerSubprotocol token = Inr v"
  shows "take 7 v = ''bearer.'' \<and> base64Url_decode (drop 7 v) = Some (utf8 token) \<and> set v \<subseteq> set token_chars
    \<and> (babelforceBearerSubprotocol token' = Inr v \<longrightarrow> token' = token)"
proof -
  have v: "v = ''bearer.'' @ base64Url (utf8 token)" using assms by (simp add: babelforceBearerSubprotocol_def split: if_splits)
  have "set v \<subseteq> set token_chars"
    unfolding v set_append using token_chars_base64(2) subset_trans [OF base64Url_chars token_chars_base64(1)] by (rule Un_least)
  moreover have "token' = token" if "babelforceBearerSubprotocol token' = Inr v"
  proof -
    have "base64Url (utf8 token') = base64Url (utf8 token)" using that v by (simp add: babelforceBearerSubprotocol_def split: if_splits)
    then have "base64Url_decode (base64Url (utf8 token')) = base64Url_decode (base64Url (utf8 token))" by simp
    then have "utf8 token' = utf8 token" by (simp only: decode_base64Url option.inject)
    then show ?thesis by (rule utf8_inj)
  qed
  moreover have "take 7 v = ''bearer.''" "drop 7 v = base64Url (utf8 token)" by (simp_all add: v)
  ultimately show ?thesis by (simp add: decode_base64Url)
qed

theorem bearer_subprotocol_roundtrip_witness:
  "babelforceBearerSubprotocol ''hi!'' = Inr ''bearer.aGkh'' \<and> base64Url_decode ''aGkh'' = Some (utf8 ''hi!'')"
proof -
  have v: "babelforceBearerSubprotocol ''hi!'' = Inr ''bearer.aGkh''" by code_simp
  have "drop 7 ''bearer.aGkh'' = ''aGkh''" by simp
  with bearer_subprotocol_roundtrip [OF v, THEN conjunct2, THEN conjunct1] v show ?thesis by (simp only: simp_thms)
qed

end
