(* ===== verification/Browser_Audio.thy ===== *)
theory Browser_Audio
  imports Js_Arith Errors "HOL-Library.Word"
begin

text \<open>
  The sample formats of \<open>browser_audio.ts\<close>: samples of a \<open>Float32Array\<close> to L16 bytes and back.  A product
  or quotient is rounded to binary64, an element of a \<open>Float32Array\<close> to binary32.
\<close>

unbundle bit_operations_syntax

section \<open>Conversions\<close>

text \<open>\<open>Math.max(-1, Math.min(1, x))\<close>.\<close>

fun clamp :: "js_number \<Rightarrow> js_number" where
  "clamp NaN = NaN"
| "clamp PosInf = Fin 1"
| "clamp NegInf = Fin (- 1)"
| "clamp NegZero = NegZero"
| "clamp (Fin r) = Fin (max (- 1) (min 1 r))"

text \<open>A product with a positive integer constant and the integer that \<open>Math.round\<close> gives \<open>setInt16\<close>.\<close>

fun times :: "js_number \<Rightarrow> rat \<Rightarrow> js_number" where
  "times (Fin r) c = to_double (r * c)"
| "times x c = x"

fun round_int :: "js_number \<Rightarrow> int" where
  "round_int (Fin r) = \<lfloor>r + 1 / 2\<rfloor>"
| "round_int _ = 0"

definition sample_int :: "js_number \<Rightarrow> int" where
  "sample_int x =
     (let s = clamp x in if num_less s (Fin 0) then round_int (times s 32768) else round_int (times s 32767))"

definition int16_bytes :: "int \<Rightarrow> 8 word list" where
  "int16_bytes i = (let w = (word_of_int i :: 16 word) in [ucast w, ucast (drop_bit 8 w)])"

definition floatToL16 :: "js_number list \<Rightarrow> 8 word list" where
  "floatToL16 xs = concat (map (\<lambda>x. int16_bytes (sample_int x)) xs)"

definition bytes_int16 :: "8 word \<Rightarrow> 8 word \<Rightarrow> int" where
  "bytes_int16 lo hi = sint ((ucast lo :: 16 word) + push_bit 8 (ucast hi))"

fun as_single :: "js_number \<Rightarrow> js_number" where
  "as_single (Fin r) = to_single r"
| "as_single x = x"

definition int_sample :: "int \<Rightarrow> js_number" where
  "int_sample v = as_single (if v < 0 then to_double (of_int v / 32768) else to_double (of_int v / 32767))"

fun l16_samples :: "8 word list \<Rightarrow> js_number list" where
  "l16_samples (lo # hi # bs) = int_sample (bytes_int16 lo hi) # l16_samples bs"
| "l16_samples _ = []"

definition l16ToFloat :: "8 word list \<Rightarrow> js_number list result" where
  "l16ToFloat bs =
     (if length bs mod 2 \<noteq> 0 then Inl (session_error ''media_frame'' ''L16 audio has an odd byte length'')
      else Inr (l16_samples bs))"

section \<open>Rounding is close\<close>

lemma round_to_close:
  assumes "\<bar>x\<bar> < 2 powi (k + 1)" "emin \<le> k - int prec + 1"
  shows "\<bar>round_to prec emin x - x\<bar> \<le> 2 powi (k - int prec)"
proof (cases "x = 0")
  case True
  then show ?thesis by (simp add: round_to_def)
next
  case False
  have "ilog2 \<bar>x\<bar> \<le> k" using assms(1) False by (intro ilog2_less) auto
  then have "ulp_exp prec emin x \<le> k - int prec + 1" using assms(2) by (simp add: ulp_exp_def)
  then have "(2 :: rat) powi ulp_exp prec emin x \<le> 2 powi (k - int prec + 1)" by (intro power_int_increasing) auto
  also have "\<dots> = 2 * 2 powi (k - int prec)" by (simp add: power_int_add)
  finally show ?thesis using round_to_error [OF False, of prec emin] by linarith
qed

lemma round_ieee_close:
  assumes "\<bar>x\<bar> < 2 powi (k + 1)" "emin \<le> k - int prec + 1" "k + 2 \<le> emax" "0 < prec"
  shows "\<exists>r. round_ieee prec emin emax x = Fin r \<and> \<bar>r - x\<bar> \<le> 2 powi (k - int prec)"
proof -
  let ?r = "round_to prec emin x"
  have err: "\<bar>?r - x\<bar> \<le> 2 powi (k - int prec)" by (rule round_to_close [OF assms(1,2)])
  have "(2 :: rat) powi (k - int prec) \<le> 2 powi (k + 1)" using assms(4) by (intro power_int_increasing) auto
  moreover have "(2 :: rat) powi (k + 1) + 2 powi (k + 1) = 2 powi (k + 2)" by (simp add: power_int_add)
  moreover have "(2 :: rat) powi (k + 2) \<le> 2 powi emax" using assms(3) by (intro power_int_increasing) auto
  ultimately have "\<bar>?r\<bar> < 2 powi emax" using err assms(1) by linarith
  then have "?r < 2 powi emax" "- (2 powi emax) < ?r" by linarith+
  then show ?thesis using err by (auto simp: round_ieee_def Let_def)
qed

lemma to_double_close: "\<bar>x\<bar> < 2 powi (k + 1) \<Longrightarrow> - 1000 \<le> k \<Longrightarrow> k \<le> 1000 \<Longrightarrow> \<exists>r. to_double x = Fin r \<and> \<bar>r - x\<bar> \<le> 2 powi (k - 53)"
  using round_ieee_close [of x k "- 1074" 53 1024] by (simp add: to_double_def)

lemma to_single_close: "\<bar>x\<bar> < 2 powi (k + 1) \<Longrightarrow> - 100 \<le> k \<Longrightarrow> k \<le> 100 \<Longrightarrow> \<exists>r. to_single x = Fin r \<and> \<bar>r - x\<bar> \<le> 2 powi (k - 24)"
  using round_ieee_close [of x k "- 149" 24 128] by (simp add: to_single_def)

section \<open>One sample\<close>

lemma int_sample_nonneg:
  assumes "0 \<le> v" "v \<le> 32767"
  shows "\<exists>s. int_sample v = Fin s \<and> \<bar>s - of_int v / 32767\<bar> \<le> 1 / 2 ^ 22"
proof -
  let ?x = "of_int v / 32767 :: rat"
  have x: "0 \<le> ?x" "?x \<le> 1" using assms by (simp_all add: divide_le_eq_1)
  then obtain d where d: "to_double ?x = Fin d" "\<bar>d - ?x\<bar> \<le> 2 powi (0 - 53)" using to_double_close [of ?x 0] by auto
  have e: "(2 :: rat) powi (0 - 53) \<le> 1 / 2 ^ 24" by (simp add: power_int_minus power_int_def divide_simps)
  then have "\<bar>d - ?x\<bar> \<le> 1 / 2 ^ 24" using d(2) by linarith
  moreover have "1 / 2 ^ 24 < (1 :: rat)" by simp
  ultimately have "\<bar>d\<bar> < 2" using x by linarith
  then have "\<bar>d\<bar> < 2 powi (0 + 1)" by simp
  then obtain s where s: "to_single d = Fin s" "\<bar>s - d\<bar> \<le> 2 powi (0 - 24)" using to_single_close [of d 0] by auto
  have "(2 :: rat) powi (0 - 24) = 1 / 2 ^ 24" by (simp add: power_int_minus power_int_def divide_simps)
  moreover have "1 / 2 ^ 24 + 1 / 2 ^ 24 \<le> (1 / 2 ^ 22 :: rat)" by simp
  ultimately have "\<bar>s - ?x\<bar> \<le> 1 / 2 ^ 22" using d(2) s(2) e by linarith
  then show ?thesis using assms d(1) s(1) by (simp add: int_sample_def)
qed

lemma int_sample_neg:
  assumes "v < 0" "- 32768 \<le> v"
  shows "int_sample v = Fin (of_int v / 32768)"
proof -
  have v: "\<bar>v\<bar> < 2 ^ 24" "\<bar>v\<bar> < 2 ^ 53" using assms by auto
  have "to_double (of_int v / 2 ^ 15) = Fin (of_int v / 2 ^ 15)" using v by (intro to_double_dyadic) auto
  moreover have "to_single (of_int v / 2 ^ 15) = Fin (of_int v / 2 ^ 15)"
  proof -
    have "round_to 24 (- 149) (of_int v / 2 ^ 15) = of_int v / 2 ^ 15" using v(1) by (intro round_to_dyadic) auto
    moreover have "\<bar>of_int v / 2 ^ 15 :: rat\<bar> \<le> 1" using assms by (simp add: abs_divide divide_le_eq_1 flip: of_int_abs)
    moreover have "(1 :: rat) < 2 powi 128" by (simp add: power_int_def)
    ultimately show ?thesis by (auto simp: to_single_def round_ieee_def Let_def abs_le_iff)
  qed
  ultimately show ?thesis using assms(1) by (simp add: int_sample_def)
qed

lemma round_near: "\<bar>r - of_int v\<bar> < 1 / 2 \<Longrightarrow> \<lfloor>r + 1 / 2 :: rat\<rfloor> = v"
  unfolding floor_eq_iff by linarith

lemma floor_half [simp]: "\<lfloor>1 / 2 :: rat\<rfloor> = 0"
  by (simp add: floor_eq_iff)

lemma sample_roundtrip_nonneg:
  assumes "0 < v" "v \<le> 32767"
  shows "sample_int (int_sample v) = v"
proof -
  let ?x = "of_int v / 32767 :: rat"
  obtain s where s: "int_sample v = Fin s" "\<bar>s - ?x\<bar> \<le> 1 / 2 ^ 22" using int_sample_nonneg [of v] assms by auto
  let ?c = "max (- 1) (min 1 s)"
  have "1 / 2 ^ 22 < (1 / 32767 :: rat)" by simp
  moreover have "1 / 32767 \<le> ?x" using assms(1) by (simp add: divide_right_mono)
  moreover have "?x \<le> 1" using assms by (simp add: divide_le_eq_1)
  ultimately have c: "0 < ?c" "?c \<le> 1" "\<bar>?c - ?x\<bar> \<le> 1 / 2 ^ 22" using s(2) by linarith+
  have "\<bar>?c * 32767\<bar> < 2 powi (15 + 1)" using c(1,2) by (simp add: abs_mult)
  then obtain r where r: "to_double (?c * 32767) = Fin r" "\<bar>r - ?c * 32767\<bar> \<le> 2 powi (15 - 53)"
    using to_double_close [of "?c * 32767" 15] by auto
  have "(2 :: rat) powi (15 - 53) \<le> 1 / 100" by (simp add: power_int_minus power_int_def divide_simps)
  moreover have "\<bar>?c * 32767 - of_int v\<bar> \<le> 32767 * (1 / 2 ^ 22)" using c(3) by (simp add: abs_le_iff field_simps)
  moreover have "32767 * (1 / 2 ^ 22) \<le> (1 / 100 :: rat)" by simp
  ultimately have "\<bar>r - of_int v\<bar> < 1 / 2" using r(2) by linarith
  moreover have "\<not> min 1 s < 0" using c(1) by (simp add: max_def split: if_splits)
  ultimately show ?thesis using s(1) r(1) round_near [of r v] by (simp add: sample_int_def Let_def)
qed

lemma sample_roundtrip:
  assumes "- 32768 \<le> v" "v \<le> 32767"
  shows "sample_int (int_sample v) = v"
proof -
  consider "v < 0" | "v = 0" | "0 < v" by linarith
  then show ?thesis
  proof cases
    case 1
    let ?x = "of_int v / 32768 :: rat"
    have "- 1 \<le> ?x" "?x < 0" using assms(1) 1 by (simp_all add: le_divide_eq divide_less_0_iff)
    moreover have "to_double (of_int v) = jsInt v" using assms by (intro to_double_int) auto
    ultimately show ?thesis using int_sample_neg [OF 1 assms(1)] by (simp add: sample_int_def Let_def)
  next
    case 2
    then show ?thesis by (simp add: int_sample_def to_double_def to_single_def round_ieee_def round_to_def sample_int_def Let_def)
  next
    case 3
    then show ?thesis using assms(2) by (rule sample_roundtrip_nonneg)
  qed
qed

section \<open>Bytes\<close>

lemma bytes_int16_range: "- 32768 \<le> bytes_int16 lo hi \<and> bytes_int16 lo hi \<le> 32767"
  using sint_ge [of "(ucast lo :: 16 word) + push_bit 8 (ucast hi)"] sint_lt [of "(ucast lo :: 16 word) + push_bit 8 (ucast hi)"]
  by (simp add: bytes_int16_def)

lemma bytes_roundtrip: "int16_bytes (bytes_int16 lo hi) = [lo, hi]"
proof -
  let ?w = "(ucast lo :: 16 word) + push_bit 8 (ucast hi)"
  have "ucast lo AND push_bit 8 (ucast hi) = (0 :: 16 word)"
    by (rule bit_word_eqI) (auto simp: bit_simps dest: bit_imp_le_length)
  then have w: "?w = ucast lo OR push_bit 8 (ucast hi)" by (rule disjunctive_add_eq_or)
  have "ucast ?w = lo" unfolding w by (rule bit_word_eqI) (auto simp: bit_simps)
  moreover have "ucast (drop_bit 8 ?w) = hi" unfolding w
    by (rule bit_word_eqI) (auto simp: bit_simps dest: bit_imp_le_length)
  ultimately show ?thesis by (simp add: int16_bytes_def bytes_int16_def)
qed

lemma l16_samples_roundtrip: "even (length bs) \<Longrightarrow> floatToL16 (l16_samples bs) = bs"
proof (induction bs rule: l16_samples.induct)
  case (1 lo hi bs)
  then show ?case
    using bytes_int16_range [of lo hi]
    by (simp add: floatToL16_def sample_roundtrip bytes_roundtrip)
qed (simp_all add: floatToL16_def)

lemma length_l16_samples: "length (l16_samples bs) = length bs div 2"
  by (induction bs rule: l16_samples.induct) auto

lemma length_floatToL16: "length (floatToL16 xs) = 2 * length xs"
  by (induction xs) (auto simp: floatToL16_def int16_bytes_def Let_def)

text \<open>
  Converting L16 audio to samples and back is the identity: for bytes of even length \<open>l16ToFloat\<close>
  succeeds with one sample for two bytes and \<open>floatToL16\<close> of the samples gives the same bytes, although each
  sample was divided and rounded to binary32 and multiplied by the scale again; an odd length is refused with
  \<open>media_frame\<close>.
\<close>

theorem l16_roundtrip:
  "if even (length bs)
   then \<exists>xs. l16ToFloat bs = Inr xs \<and> 2 * length xs = length bs \<and> floatToL16 xs = bs
   else l16ToFloat bs = Inl (session_error ''media_frame'' ''L16 audio has an odd byte length'')"
  by (auto simp: l16ToFloat_def l16_samples_roundtrip length_l16_samples even_iff_mod_2_eq_zero)

end
