(* ===== verification/Browser_Resampler.thy ===== *)
theory Browser_Resampler
  imports Browser_Audio
begin

text \<open>
  \<open>StatefulLinearResampler\<close> of \<open>browser_audio.ts\<close>: linear interpolation that goes on across chunks.  Positions are
  binary64 numbers to which the step is added with rounding.  The loop of \<open>process\<close> has fuel; the count of input
  samples is below \<open>2 ^ 53\<close> and kept as a natural number.
\<close>

section \<open>Arithmetic\<close>

fun num_neg :: "js_number \<Rightarrow> js_number" where
  "num_neg NaN = NaN"
| "num_neg PosInf = NegInf"
| "num_neg NegInf = PosInf"
| "num_neg NegZero = Fin 0"
| "num_neg (Fin r) = (if r = 0 then NegZero else Fin (- r))"

fun num_add :: "js_number \<Rightarrow> js_number \<Rightarrow> js_number" where
  "num_add NaN _ = NaN"
| "num_add _ NaN = NaN"
| "num_add PosInf y = (if y = NegInf then NaN else PosInf)"
| "num_add NegInf y = (if y = PosInf then NaN else NegInf)"
| "num_add _ PosInf = PosInf"
| "num_add _ NegInf = NegInf"
| "num_add NegZero y = y"
| "num_add x NegZero = x"
| "num_add (Fin a) (Fin b) = to_double (a + b)"

definition num_sub :: "js_number \<Rightarrow> js_number \<Rightarrow> js_number" where
  "num_sub x y = num_add x (num_neg y)"

fun negative :: "js_number \<Rightarrow> bool" where
  "negative NegInf = True"
| "negative NegZero = True"
| "negative (Fin r) = (r < 0)"
| "negative _ = False"

definition num_mul :: "js_number \<Rightarrow> js_number \<Rightarrow> js_number" where
  "num_mul x y =
     (if x = NaN \<or> y = NaN then NaN
      else case (num_value x, num_value y) of
        (Some a, Some b) \<Rightarrow>
          (case to_double (a * b) of Fin r \<Rightarrow> if r = 0 \<and> negative x \<noteq> negative y then NegZero else Fin r | z \<Rightarrow> z)
      | _ \<Rightarrow>
          if num_value x = Some 0 \<or> num_value y = Some 0 then NaN
          else if negative x = negative y then PosInf else NegInf)"

section \<open>The resampler\<close>

record resampler =
  rs_inputRate :: js_number
  rs_outputRate :: js_number
  rs_next :: js_number
  rs_offset :: nat
  rs_previous :: "js_number option"

definition new_resampler :: "js_number \<Rightarrow> js_number \<Rightarrow> resampler result" where
  "new_resampler inputRate outputRate =
     (if \<not> isFinite inputRate \<or> num_le inputRate (Fin 0) \<or> \<not> isFinite outputRate \<or> num_le outputRate (Fin 0)
      then Inl (session_error ''media_format'' ''resampler rates must be positive'')
      else Inr \<lparr>rs_inputRate = inputRate, rs_outputRate = outputRate, rs_next = Fin 0, rs_offset = 0, rs_previous = None\<rparr>)"

definition EPSILON :: js_number where
  "EPSILON = Fin (1 / 2 ^ 52)"

text \<open>The quotient of the rates, which the constructor has found positive and finite.\<close>

definition rs_step :: "resampler \<Rightarrow> js_number" where
  "rs_step r = (case (num_value (rs_inputRate r), num_value (rs_outputRate r)) of
     (Some a, Some b) \<Rightarrow> to_double (a / b) | _ \<Rightarrow> NaN)"

definition interpolate :: "js_number \<Rightarrow> js_number \<Rightarrow> js_number \<Rightarrow> js_number" where
  "interpolate first second fraction = num_add first (num_mul (num_sub second first) fraction)"

text \<open>The output at a position, or \<^term>\<open>None\<close> where the loop breaks.  \<open>xs[i] ?? d\<close> is \<^term>\<open>d\<close> out of range.\<close>

definition sample_or :: "js_number \<Rightarrow> js_number list \<Rightarrow> int \<Rightarrow> js_number" where
  "sample_or d xs i = (if 0 \<le> i \<and> i < int (length xs) then xs ! nat i else d)"

definition output_at :: "js_number list \<Rightarrow> int \<Rightarrow> js_number option \<Rightarrow> rat \<Rightarrow> js_number option" where
  "output_at xs start previous p =
     (let lower = \<lfloor>p\<rfloor>; fraction = to_double (p - of_int lower); last = start + int (length xs) - 1
      in if lower < start
         then (case previous of None \<Rightarrow> None | Some first \<Rightarrow> Some (interpolate first (sample_or first xs 0) fraction))
         else (let first = sample_or (Fin 0) xs (lower - start)
               in if lower + 1 > last
                  then (if num_less EPSILON fraction then None else Some (interpolate first first fraction))
                  else Some (interpolate first (sample_or first xs (lower + 1 - start)) fraction)))"

text \<open>The loop, for positions that are not negative.\<close>

fun resample_loop :: "nat \<Rightarrow> js_number list \<Rightarrow> int \<Rightarrow> js_number option \<Rightarrow> js_number \<Rightarrow> js_number \<Rightarrow> (js_number list \<times> js_number) option" where
  "resample_loop 0 xs start previous step pos = None"
| "resample_loop (Suc n) xs start previous step pos =
     (case pos of
        Fin p \<Rightarrow>
          if p \<le> of_int (start + int (length xs) - 1)
          then (case output_at xs start previous p of
                  None \<Rightarrow> Some ([], pos)
                | Some v \<Rightarrow> map_option (\<lambda>(out, q). (v # out, q)) (resample_loop n xs start previous step (num_add pos step)))
          else Some ([], pos)
      | _ \<Rightarrow> Some ([], pos))"

definition rs_process :: "nat \<Rightarrow> js_number list \<Rightarrow> resampler \<Rightarrow> (js_number list \<times> resampler) option" where
  "rs_process n xs r =
     (if xs = [] then Some ([], r)
      else map_option (\<lambda>(out, q). (map as_single out,
             r\<lparr>rs_next := q, rs_previous := Some (last xs), rs_offset := rs_offset r + length xs\<rparr>))
           (resample_loop n xs (int (rs_offset r)) (rs_previous r) (rs_step r) (rs_next r)))"

definition rs_reset :: "resampler \<Rightarrow> resampler" where
  "rs_reset r = r\<lparr>rs_next := Fin 0, rs_offset := 0, rs_previous := None\<rparr>"

section \<open>Exact values\<close>

lemma ulp_exp_mono: "prec' \<le> prec \<Longrightarrow> emin \<le> emin' \<Longrightarrow> ulp_exp prec emin x \<le> ulp_exp prec' emin' x"
  unfolding ulp_exp_def by (rule max.mono) auto

text \<open>A value of a coarser format is a value of a finer one.\<close>

lemma round_to_coarser:
  assumes "round_to prec' emin' x = x" "prec' \<le> prec" "emin \<le> emin'"
  shows "round_to prec emin x = x"
proof (cases "x = 0")
  case False
  let ?e' = "ulp_exp prec' emin' x" and ?e = "ulp_exp prec emin x"
  have le: "?e \<le> ?e'" using assms(2,3) by (rule ulp_exp_mono)
  let ?k = "round_even (x / 2 powi ?e')"
  have "x = of_int ?k * 2 powi ?e'" using assms(1) False by (simp add: round_to_def)
  also have "\<dots> = of_int ?k * (2 powi (?e' - ?e) * 2 powi ?e)" by (simp flip: power_int_add)
  also have "(2 :: rat) powi (?e' - ?e) = of_int (2 ^ nat (?e' - ?e))" using le by (simp add: power_int_def)
  finally have "x = of_int (?k * 2 ^ nat (?e' - ?e)) * 2 powi ?e" by (simp add: mult.assoc)
  then show ?thesis by (rule round_to_multiple)
qed (simp add: round_to_def)

definition sample32 :: "js_number \<Rightarrow> bool" where
  "sample32 x \<longleftrightarrow> (case x of Fin r \<Rightarrow> to_single r = Fin r | _ \<Rightarrow> False)"

lemma sample32_double:
  assumes "sample32 x"
  obtains r where "x = Fin r" "to_double r = Fin r" "\<bar>r\<bar> < 2 powi 128"
proof -
  obtain r where r: "x = Fin r" "to_single r = Fin r" using assms by (auto simp: sample32_def split: js_number.splits)
  have "round_to 24 (- 149) r = r" "r < 2 powi 128" "- (2 powi 128) < r"
    using r(2) by (auto simp: to_single_def round_ieee_def Let_def split: if_splits)
  then have "round_to 53 (- 1074) r = r" "\<bar>r\<bar> < 2 powi 128" by (auto intro: round_to_coarser)
  moreover have "(2 :: rat) powi 128 < 2 powi 1024" by (intro power_int_strict_increasing) auto
  ultimately have "to_double r = Fin r" by (auto simp: to_double_def round_ieee_def Let_def)
  with r(1) \<open>\<bar>r\<bar> < 2 powi 128\<close> that show ?thesis by blast
qed

text \<open>Where the fraction is zero the second sample does not matter.\<close>

lemma interpolate_zero:
  assumes "sample32 a" "sample32 b"
  shows "interpolate a b (Fin 0) = a"
proof -
  obtain x where x: "a = Fin x" "to_double x = Fin x" "\<bar>x\<bar> < 2 powi 128" using assms(1) by (rule sample32_double)
  obtain y where y: "b = Fin y" "to_double y = Fin y" "\<bar>y\<bar> < 2 powi 128" using assms(2) by (rule sample32_double)
  have "(2 :: rat) powi 128 + 2 powi 128 = 2 powi (128 + 1)" by (simp add: power_int_add)
  then have "\<bar>y - x\<bar> < 2 powi (128 + 1)" using x(3) y(3) by linarith
  then obtain d where "to_double (y - x) = Fin d" using to_double_close [of "y - x" 128] by auto
  then have "\<exists>d. num_sub b a = Fin d" using x y by (auto simp: num_sub_def)
  then obtain d where d: "num_sub b a = Fin d" ..
  have zero: "to_double 0 = Fin 0" using to_double_int [of 0] by simp
  have "num_mul (num_sub b a) (Fin 0) \<in> {Fin 0, NegZero}" by (auto simp: num_mul_def d zero)
  then show ?thesis using x by (auto simp: interpolate_def)
qed

section \<open>Positions\<close>

lemma to_double_ge_int:
  assumes "of_int n \<le> z" "0 \<le> n" "n \<le> 2 ^ 53" "to_double z = Fin q"
  shows "of_int n \<le> q"
proof (cases "ulp_exp 53 (- 1074) z \<le> 0 \<or> z = 0")
  case True
  let ?e = "ulp_exp 53 (- 1074) z"
  have q: "q = round_to 53 (- 1074) z" using assms(4) by (auto simp: to_double_def round_ieee_def Let_def split: if_splits)
  show ?thesis
  proof (cases "z = 0")
    case True
    then show ?thesis using assms(1) q by (simp add: round_to_def)
  next
    case False
    then have e: "?e \<le> 0" using True by simp
    let ?k = "n * 2 ^ nat (- ?e)"
    have k: "of_int ?k * 2 powi ?e = (of_int n :: rat)" using e by (simp add: power_int_def power_one_over)
    have "of_int ?k * 2 powi ?e \<le> z" unfolding k by (rule assms(1))
    then have "of_int ?k \<le> z / 2 powi ?e" by (simp add: le_divide_eq)
    then have "?k \<le> round_even (z / 2 powi ?e)" by (rule round_even_ge)
    then have "(of_int ?k :: rat) * 2 powi ?e \<le> of_int (round_even (z / 2 powi ?e)) * 2 powi ?e"
      by (intro mult_right_mono) (simp_all only: of_int_le_iff, simp)
    then show ?thesis unfolding k using False q by (simp add: round_to_def)
  qed
next
  case False
  then have "53 \<le> ilog2 \<bar>z\<bar>" "z \<noteq> 0" by (auto simp: ulp_exp_def)
  have "0 \<le> z" using assms(1,2) by (meson of_int_0_le_iff order_trans)
  have "(2 :: rat) powi 53 \<le> 2 powi ilog2 \<bar>z\<bar>" using \<open>53 \<le> ilog2 \<bar>z\<bar>\<close> by (intro power_int_increasing) auto
  also have "\<dots> \<le> z" using ilog2_bounds [of "\<bar>z\<bar>"] \<open>z \<noteq> 0\<close> \<open>0 \<le> z\<close> by simp
  finally have "(2 :: rat) ^ 53 \<le> z" by (simp add: power_int_def)
  then have "2 ^ 53 \<le> q" using to_double_ge [of 53 z] assms(4) by auto
  moreover have "(of_int n :: rat) \<le> 2 ^ 53" using assms(3) by (metis of_int_le_iff of_int_numeral of_int_power)
  ultimately show ?thesis by simp
qed

definition step_ok :: "js_number \<Rightarrow> bool" where
  "step_ok x \<longleftrightarrow> (case x of Fin s \<Rightarrow> 0 \<le> s | _ \<Rightarrow> True)"

lemma advance:
  assumes "num_add (Fin p) step = Fin q" "step_ok step" "of_int n \<le> p" "0 \<le> n" "n \<le> 2 ^ 53"
  shows "of_int n \<le> q"
proof (cases step)
  case (Fin s)
  then have s: "0 \<le> s" "to_double (p + s) = Fin q" using assms(1,2) by (simp_all add: step_ok_def)
  have "of_int n \<le> p + s" using assms(3) s(1) by linarith
  then show ?thesis using assms(4,5) s(2) by (rule to_double_ge_int)
qed (use assms(1,3) in simp_all)

lemma advance_nonneg: "num_add (Fin p) step = Fin q \<Longrightarrow> step_ok step \<Longrightarrow> 0 \<le> p \<Longrightarrow> 0 \<le> q"
  using advance [of p step q 0] by simp

section \<open>Chunks\<close>

lemma resample_loop_mono: "resample_loop n xs start prev step pos = Some r \<Longrightarrow> resample_loop (n + k) xs start prev step pos = Some r"
proof (induction n arbitrary: pos r)
  case (Suc n)
  then show ?case by (auto split: js_number.splits if_splits option.splits)
qed simp

text \<open>From the last sample of a chunk on, the next chunk gives what the joined chunks give.\<close>

lemma output_at_next:
  assumes "xs \<noteq> []" "ys \<noteq> []" "start + int (length xs) - 1 \<le> \<lfloor>p\<rfloor>"
  shows "output_at ys (start + int (length xs)) (Some (last xs)) p = output_at (xs @ ys) start prev p"
proof (cases "\<lfloor>p\<rfloor> = start + int (length xs) - 1")
  case True
  have i: "nat (int (length xs) - 1) = length xs - 1" by simp
  have "sample_or (Fin 0) (xs @ ys) (\<lfloor>p\<rfloor> - start) = last xs"
    using assms(1) True i by (simp add: sample_or_def nth_append last_conv_nth)
  moreover have "sample_or (last xs) (xs @ ys) (\<lfloor>p\<rfloor> + 1 - start) = sample_or (last xs) ys 0"
    using True by (simp add: sample_or_def nth_append)
  moreover have "\<not> \<lfloor>p\<rfloor> < start" "\<not> start + int (length (xs @ ys)) - 1 < \<lfloor>p\<rfloor> + 1" "\<lfloor>p\<rfloor> < start + int (length xs)"
    using assms(1,2) True by (cases xs; cases ys; simp)+
  ultimately show ?thesis by (simp add: output_at_def Let_def)
next
  case False
  then have f: "start + int (length xs) \<le> \<lfloor>p\<rfloor>" using assms(3) by simp
  have "sample_or d (xs @ ys) (\<lfloor>p\<rfloor> - start) = sample_or d ys (\<lfloor>p\<rfloor> - (start + int (length xs)))"
    "sample_or d (xs @ ys) (\<lfloor>p\<rfloor> + 1 - start) = sample_or d ys (\<lfloor>p\<rfloor> + 1 - (start + int (length xs)))" for d
    using f by (auto simp: sample_or_def nth_append nat_diff_distrib nat_add_distrib algebra_simps intro!: arg_cong [of _ _ "nth ys"])
  then show ?thesis using f by (simp add: output_at_def Let_def add.assoc)
qed

lemma resample_next:
  assumes "xs \<noteq> []" "ys \<noteq> []" "step_ok step" "0 \<le> start" "start + int (length xs) - 1 \<le> 2 ^ 53"
  shows "(\<And>p. pos = Fin p \<Longrightarrow> of_int (start + int (length xs) - 1) \<le> p)
    \<Longrightarrow> resample_loop m ys (start + int (length xs)) (Some (last xs)) step pos = resample_loop m (xs @ ys) start prev step pos"
proof (induction m arbitrary: pos)
  case (Suc m)
  show ?case
  proof (cases pos)
    case (Fin p)
    then have p: "of_int (start + int (length xs) - 1) \<le> p" using Suc.prems by auto
    then have "start + int (length xs) - 1 \<le> \<lfloor>p\<rfloor>" by (simp add: le_floor_iff)
    then have out: "output_at ys (start + int (length xs)) (Some (last xs)) p = output_at (xs @ ys) start prev p"
      by (rule output_at_next [OF assms(1,2)])
    have "0 \<le> start + int (length xs) - 1" using assms(1,4) by (cases xs) auto
    then have "resample_loop m ys (start + int (length xs)) (Some (last xs)) step (num_add pos step)
        = resample_loop m (xs @ ys) start prev step (num_add pos step)"
      using advance [OF _ assms(3) p _ assms(5)] Fin by (intro Suc.IH) auto
    then show ?thesis using Fin out by (simp add: add.assoc del: of_int_add of_int_diff split: option.split)
  qed auto
qed simp

lemma sample_or_in: "0 \<le> i \<Longrightarrow> i < int (length xs) \<Longrightarrow> sample_or d xs i \<in> set xs"
  by (auto simp: sample_or_def nat_less_iff intro!: nth_mem)

text \<open>What a chunk gives, the joined chunks give too.\<close>

lemma output_at_first:
  assumes "output_at xs start prev p = Some v" "xs \<noteq> []" "ys \<noteq> []"
    "p \<le> of_int (start + int (length xs) - 1)" "list_all sample32 (xs @ ys)"
  shows "output_at (xs @ ys) start prev p = Some v"
proof -
  have floor: "\<lfloor>p\<rfloor> \<le> start + int (length xs) - 1" using assms(4) by (metis floor_mono floor_of_int)
  have s0: "sample_or d (xs @ ys) 0 = sample_or d xs 0" for d using assms(2) by (cases xs) (auto simp: sample_or_def)
  have s: "sample_or d (xs @ ys) i = sample_or d xs i" if "i < int (length xs)" for d i
    using that by (auto simp: sample_or_def nth_append nat_less_iff)
  consider "\<lfloor>p\<rfloor> < start" | "start \<le> \<lfloor>p\<rfloor>" "\<lfloor>p\<rfloor> + 1 \<le> start + int (length xs) - 1" | "start \<le> \<lfloor>p\<rfloor>" "\<lfloor>p\<rfloor> = start + int (length xs) - 1"
    using floor by linarith
  then show ?thesis
  proof cases
    case 1
    then show ?thesis using assms(1) by (auto simp: output_at_def Let_def s0 split: option.splits)
  next
    case 2
    then show ?thesis using assms(1) by (auto simp: output_at_def Let_def s)
  next
    case 3
    let ?f = "to_double (p - of_int \<lfloor>p\<rfloor>)" and ?a = "sample_or (Fin 0) xs (\<lfloor>p\<rfloor> - start)"
    have v: "v = interpolate ?a ?a ?f" using assms(1) 3 by (auto simp: output_at_def Let_def split: if_splits)
    have "p \<le> of_int \<lfloor>p\<rfloor>" using assms(4) 3 by simp
    then have "p - of_int \<lfloor>p\<rfloor> = 0" by linarith
    then have f: "?f = Fin 0" using to_double_int [of 0] by simp
    have "?a \<in> set xs" using 3 assms(2) by (intro sample_or_in) auto
    then have a: "sample32 ?a" using assms(5) by (simp add: list_all_iff)
    have "sample_or ?a (xs @ ys) (\<lfloor>p\<rfloor> + 1 - start) \<in> set (xs @ ys)" using 3 assms(3) by (intro sample_or_in) (cases ys; simp)+
    then have "sample32 (sample_or ?a (xs @ ys) (\<lfloor>p\<rfloor> + 1 - start))" using assms(5) by (simp only: list_all_iff)
    then have "v = interpolate ?a (sample_or ?a (xs @ ys) (\<lfloor>p\<rfloor> + 1 - start)) ?f" using a v f by (simp add: interpolate_zero)
    moreover have "start + int (length (xs @ ys)) - 1 \<ge> \<lfloor>p\<rfloor> + 1" using 3 assms(3) by (cases ys) auto
    ultimately show ?thesis using 3 by (simp add: output_at_def Let_def s)
  qed
qed

lemma resample_join:
  assumes "xs \<noteq> []" "ys \<noteq> []" "step_ok step" "0 \<le> start" "start + int (length xs) - 1 \<le> 2 ^ 53"
    "list_all sample32 (xs @ ys)" "prev = None \<Longrightarrow> start = 0"
    "resample_loop m ys (start + int (length xs)) (Some (last xs)) step q = Some (o2, q2)"
  shows "resample_loop n xs start prev step pos = Some (o1, q) \<Longrightarrow> (\<And>p. pos = Fin p \<Longrightarrow> 0 \<le> p)
    \<Longrightarrow> resample_loop (n + m) (xs @ ys) start prev step pos = Some (o1 @ o2, q2)"
proof (induction n arbitrary: pos o1)
  case (Suc n)
  have stop: ?case if "o1 = []" "q = pos" "\<And>p. pos = Fin p \<Longrightarrow> of_int (start + int (length xs) - 1) \<le> p"
  proof -
    have "resample_loop m (xs @ ys) start prev step pos = Some (o2, q2)"
      using resample_next [OF assms(1-5), of pos m prev] assms(8) that(2,3) by metis
    from resample_loop_mono [OF this, of "Suc n"] that(1) show ?thesis by (simp only: add.commute append_Nil)
  qed
  show ?case
  proof (cases pos)
    case (Fin p)
    have p: "0 \<le> p" using Suc.prems(2) Fin .
    show ?thesis
    proof (cases "p \<le> of_int (start + int (length xs) - 1)")
      case le: True
      show ?thesis
      proof (cases "output_at xs start prev p")
        case None
        have "\<not> \<lfloor>p\<rfloor> < start" using None assms(7) p by (auto simp: output_at_def Let_def split: option.splits)
        then have "start + int (length xs) - 1 \<le> \<lfloor>p\<rfloor>" using None by (auto simp: output_at_def Let_def split: if_splits)
        then have "of_int (start + int (length xs) - 1) \<le> p" by (simp add: le_floor_iff)
        then show ?thesis using Suc.prems(1) le None Fin by (intro stop) auto
      next
        case (Some v)
        obtain out where out: "resample_loop n xs start prev step (num_add pos step) = Some (out, q)" "o1 = v # out"
          using Suc.prems(1) le Some Fin by (auto simp del: of_int_add of_int_diff)
        have "0 \<le> r" if "num_add pos step = Fin r" for r
          using advance_nonneg [of p step r] that p assms(3) Fin by simp
        with Suc.IH [OF out(1)] have "resample_loop (n + m) (xs @ ys) start prev step (num_add pos step) = Some (out @ o2, q2)" .
        moreover have "output_at (xs @ ys) start prev p = Some v" using Some assms(1,2) le assms(6) by (rule output_at_first)
        moreover have "p \<le> of_int (start + int (length (xs @ ys)) - 1)" using le by (rule order_trans) simp
        ultimately show ?thesis using Fin out(2) by (simp del: of_int_add of_int_diff length_append)
      qed
    next
      case False
      then show ?thesis using Suc.prems(1) Fin by (intro stop) auto
    qed
  qed (use Suc.prems(1) in \<open>intro stop; auto\<close>)+
qed simp

section \<open>Resamplers in use\<close>

text \<open>What holds of every resampler in use.\<close>

definition rs_ok :: "resampler \<Rightarrow> bool" where
  "rs_ok r \<longleftrightarrow> (\<forall>p. rs_next r = Fin p \<longrightarrow> 0 \<le> p) \<and> (rs_previous r = None \<longrightarrow> rs_offset r = 0) \<and> step_ok (rs_step r)"

lemma new_resampler_ok:
  assumes "new_resampler a b = Inr r"
  shows "rs_ok r \<and> rs_offset r = 0"
proof -
  have r: "rs_next r = Fin 0" "rs_offset r = 0" "rs_inputRate r = a" "rs_outputRate r = b"
    using assms by (auto simp: new_resampler_def split: if_splits)
  have "0 < x" if "num_value a = Some x \<or> num_value b = Some x" for x
    using assms that by (cases a; cases b) (auto simp: new_resampler_def split: if_splits)
  then have "0 \<le> s" if "num_value a = Some x" "num_value b = Some y" "to_double (x / y) = Fin s" for x y s
    using that to_double_ge_int [of 0 "x / y" s] by (simp add: less_imp_le)
  then have "step_ok (rs_step r)" by (auto simp: rs_step_def step_ok_def r split: option.splits js_number.splits)
  then show ?thesis using r by (simp add: rs_ok_def)
qed

lemma process_mono: "rs_process k xs r = Some z \<Longrightarrow> rs_process (k + j) xs r = Some z"
  by (cases z) (auto simp: rs_process_def dest: resample_loop_mono [of _ _ _ _ _ _ _ j] split: if_splits)

text \<open>Two chunks are as good as the joined one.\<close>

lemma process_join:
  assumes "rs_ok r" "rs_offset r + length xs \<le> 2 ^ 53" "list_all sample32 (xs @ ys)"
    and "rs_process n xs r = Some (o1, r1)" "rs_process m ys r1 = Some (o2, r2)"
  shows "rs_process (n + m) (xs @ ys) r = Some (o1 @ o2, r2)"
proof (cases "xs = [] \<or> ys = []")
  case True
  then consider "xs = []" "o1 = []" "r1 = r" | "ys = []" "o2 = []" "r2 = r1" using assms(4,5) by (auto simp: rs_process_def)
  then show ?thesis
  proof cases
    case 1
    then show ?thesis using process_mono [OF assms(5), of n] by (simp add: add.commute)
  next
    case 2
    then show ?thesis using process_mono [OF assms(4), of m] by simp
  qed
next
  case False
  obtain p1 q1 where 1: "resample_loop n xs (int (rs_offset r)) (rs_previous r) (rs_step r) (rs_next r) = Some (p1, q1)"
    "o1 = map as_single p1" "r1 = r\<lparr>rs_next := q1, rs_previous := Some (last xs), rs_offset := rs_offset r + length xs\<rparr>"
    using assms(4) False by (auto simp: rs_process_def)
  have step: "rs_step r1 = rs_step r" using 1(3) by (simp add: rs_step_def)
  obtain p2 q2 where 2: "resample_loop m ys (int (rs_offset r) + int (length xs)) (Some (last xs)) (rs_step r) q1 = Some (p2, q2)"
    "o2 = map as_single p2" "r2 = r1\<lparr>rs_next := q2, rs_previous := Some (last ys), rs_offset := rs_offset r + length xs + length ys\<rparr>"
    using assms(5) False step 1(3) by (auto simp: rs_process_def)
  have "int (rs_offset r) + int (length xs) - 1 \<le> 2 ^ 53" using assms(2) by auto
  then have "resample_loop (n + m) (xs @ ys) (int (rs_offset r)) (rs_previous r) (rs_step r) (rs_next r) = Some (p1 @ p2, q2)"
    using assms(1) False by (intro resample_join [OF _ _ _ _ _ assms(3) _ 2(1) 1(1)]) (auto simp: rs_ok_def)
  then show ?thesis using False 1 2 by (simp add: rs_process_def)
qed

fun feed :: "nat \<Rightarrow> js_number list list \<Rightarrow> resampler \<Rightarrow> (js_number list \<times> resampler) option" where
  "feed n [] r = Some ([], r)"
| "feed n (xs # xss) r = Option.bind (rs_process n xs r) (\<lambda>(out, r1). map_option (\<lambda>(outs, r2). (out @ outs, r2)) (feed n xss r1))"

lemma feed_join:
  assumes "rs_ok r0"
  shows "rs_process k xs r0 = Some (o1, r) \<Longrightarrow> feed n xss r = Some (o2, r2)
    \<Longrightarrow> rs_offset r0 + length (xs @ concat xss) \<le> 2 ^ 53 \<Longrightarrow> list_all sample32 (xs @ concat xss)
    \<Longrightarrow> rs_process (k + n * length xss) (xs @ concat xss) r0 = Some (o1 @ o2, r2)"
proof (induction xss arbitrary: k xs o1 o2 r)
  case (Cons ys xss)
  obtain p1 r1 p2 where c: "rs_process n ys r = Some (p1, r1)" "feed n xss r1 = Some (p2, r2)" "o2 = p1 @ p2"
    using Cons.prems(2) by (auto simp: bind_eq_Some_conv)
  have "rs_process (k + n) (xs @ ys) r0 = Some (o1 @ p1, r1)"
    using Cons.prems(3,4) by (intro process_join [OF assms _ _ Cons.prems(1) c(1)]) auto
  from Cons.IH [OF this c(2)] show ?case using Cons.prems(3,4) c(3) by (simp add: add.assoc)
qed simp

lemma resampler_feed_chunks:
  assumes "new_resampler inputRate outputRate = Inr r" "feed n xss r = Some (out, r2)"
    and "length (concat xss) < 2 ^ 53" "list_all sample32 (concat xss)"
  shows "rs_process (n * length xss) (concat xss) r = Some (out, r2)"
proof -
  have "rs_ok r" "rs_offset r = 0" using new_resampler_ok [OF assms(1)] by auto
  then show ?thesis using feed_join [of r 0 "[]" "[]" r n xss out r2] assms(2-4) by (simp add: rs_process_def)
qed

text \<open>
  Claim C26.  Resampling does not depend on how the input is cut: for finite binary32 samples other than the negative
  zero, fewer than \<open>2 ^ 53\<close> in all, and whatever the chunks, a resampler that has processed them one by one has
  returned in all what it returns for the concatenated chunks at once, rounding included, and is in the same
  state.  (At the last sample of a chunk the loop is only reached with the fraction zero.)
\<close>

theorem resampler_chunks:
  assumes "new_resampler inputRate outputRate = Inr r" "feed n xss r = Some (out, r2)"
    and "length (concat xss) < 2 ^ 53" "list_all sample32 (concat xss)"
  shows "rs_process (n * length xss) (concat xss) r = Some (out, r2)"
  using assms by (rule resampler_feed_chunks)

section \<open>The loop ends\<close>

text \<open>As long as positions stay below \<open>2 ^ 31\<close>, each step advances by more than half of its size.\<close>

lemma progress:
  assumes "0 \<le> p" "p \<le> 2 ^ 31" "1 / 2 ^ 21 \<le> s" "s \<le> 2 ^ 21"
  shows "\<exists>q. num_add (Fin p) (Fin s) = Fin q \<and> p + s / 2 \<le> q"
proof -
  have "\<bar>p + s\<bar> < 2 powi (31 + 1)" using assms by (simp add: power_int_def)
  then obtain q where q: "to_double (p + s) = Fin q" "\<bar>q - (p + s)\<bar> \<le> 2 powi (31 - 53)"
    using to_double_close [of "p + s" 31] by auto
  have "(2 :: rat) powi (31 - 53) = 1 / 2 ^ 21 / 2" by (simp add: power_int_def power_one_over)
  then have "\<bar>q - (p + s)\<bar> \<le> 1 / 2 ^ 21 / 2" using q(2) by (simp only:)
  moreover have "p + s / 2 \<le> q" if "\<bar>q - (p + s)\<bar> \<le> e / 2" "e \<le> s" for e :: rat using that by linarith
  ultimately have "p + s / 2 \<le> q" using assms(3) by blast
  then show ?thesis using q(1) by simp
qed

lemma resample_loop_ends:
  assumes "1 / 2 ^ 21 \<le> s" "s \<le> 2 ^ 21" "start + int (length xs) - 1 \<le> 2 ^ 31"
  shows "0 \<le> p \<Longrightarrow> of_int (start + int (length xs) - 1) - p < of_nat n * (s / 2)
    \<Longrightarrow> resample_loop (Suc n) xs start prev (Fin s) (Fin p) \<noteq> None"
proof (induction n arbitrary: p)
  case 0
  then show ?case by simp
next
  case (Suc n)
  have "(of_int (start + int (length xs) - 1) :: rat) \<le> of_int (2 ^ 31)" using assms(3) by (simp only: of_int_le_iff)
  moreover have "(of_int (2 ^ 31) :: rat) = 2 ^ 31" by simp
  ultimately have le: "p \<le> 2 ^ 31" if "p \<le> of_int (start + int (length xs) - 1)" using that by linarith
  show ?case
  proof (cases "p \<le> of_int (start + int (length xs) - 1)")
    case True
    obtain q where q: "num_add (Fin p) (Fin s) = Fin q" "p + s / 2 \<le> q" using progress [OF Suc.prems(1) le [OF True] assms(1,2)] by blast
    have "(0 :: rat) < 1 / 2 ^ 21" by simp
    then have "0 < s" using assms(1) by linarith
    then have "0 \<le> q" using q(2) Suc.prems(1) by linarith
    moreover have "of_int (start + int (length xs) - 1) - q < of_nat n * (s / 2)" using Suc.prems(2) q(2) by (simp add: algebra_simps)
    ultimately have "resample_loop (Suc n) xs start prev (Fin s) (Fin q) \<noteq> None" by (rule Suc.IH)
    then show ?thesis using q(1) by (auto simp del: resample_loop.simps num_add.simps simp: resample_loop.simps(2) [of "Suc n"] split: option.split)
  next
    case False
    then show ?thesis by simp
  qed
qed

lemma resample_loop_nonneg:
  "resample_loop n xs start prev step pos = Some (out, q) \<Longrightarrow> step_ok step \<Longrightarrow> (\<And>p. pos = Fin p \<Longrightarrow> 0 \<le> p) \<Longrightarrow> q = Fin z \<Longrightarrow> 0 \<le> z"
proof (induction n arbitrary: pos out)
  case (Suc n)
  have "0 \<le> r" if "num_add (Fin p) step = Fin r" "pos = Fin p" for p r
    using advance_nonneg [of p step r] that Suc.prems(2,3) by simp
  then show ?case using Suc.prems by (auto split: js_number.splits if_splits option.splits intro: Suc.IH)
qed simp

lemma process_ok:
  assumes "rs_ok r" "rs_process n xs r = Some (out, r1)"
  shows "rs_ok r1 \<and> rs_offset r1 = rs_offset r + length xs \<and> rs_step r1 = rs_step r"
proof (cases "xs = []")
  case False
  then obtain p q where 1: "resample_loop n xs (int (rs_offset r)) (rs_previous r) (rs_step r) (rs_next r) = Some (p, q)"
    "r1 = r\<lparr>rs_next := q, rs_previous := Some (last xs), rs_offset := rs_offset r + length xs\<rparr>"
    using assms(2) by (auto simp: rs_process_def)
  then have "rs_step r1 = rs_step r" by (simp add: rs_step_def)
  moreover have "0 \<le> z" if "q = Fin z" for z
    using resample_loop_nonneg [OF 1(1)] assms(1) that by (auto simp: rs_ok_def)
  ultimately show ?thesis using assms(1) 1(2) by (simp add: rs_ok_def)
qed (use assms in \<open>auto simp: rs_process_def\<close>)

lemma process_total:
  assumes "rs_ok r" "rs_step r = Fin s" "1 / 2 ^ 21 \<le> s" "s \<le> 2 ^ 21"
    and "rs_offset r + length xs \<le> 2 ^ 31" "2 * of_nat (rs_offset r + length xs) < of_nat k * s"
  shows "rs_process (Suc k) xs r \<noteq> None"
proof -
  have "of_int (int (rs_offset r) + int (length xs) - 1) - p < of_nat k * (s / 2)" if "0 \<le> p" for p
    using that assms(6) by simp
  then have "resample_loop (Suc k) xs (int (rs_offset r)) (rs_previous r) (Fin s) (Fin p) \<noteq> None" if "0 \<le> p" for p
    using that assms(5) by (intro resample_loop_ends [OF assms(3,4)]) auto
  then show ?thesis using assms(1,2) by (cases "rs_next r") (auto simp: rs_process_def rs_ok_def)
qed

lemma feed_total:
  assumes "rs_step r0 = Fin s" "1 / 2 ^ 21 \<le> s" "s \<le> 2 ^ 21"
  shows "rs_ok r \<Longrightarrow> rs_step r = rs_step r0 \<Longrightarrow> rs_offset r + length (concat xss) \<le> 2 ^ 31
    \<Longrightarrow> 2 * of_nat (rs_offset r + length (concat xss)) < of_nat k * s \<Longrightarrow> \<exists>out r2. feed (Suc k) xss r = Some (out, r2)"
proof (induction xss arbitrary: r)
  case (Cons xs xss)
  have "2 * (of_nat (rs_offset r + length xs) :: rat) \<le> 2 * of_nat (rs_offset r + length (concat (xs # xss)))" by simp
  then have "2 * of_nat (rs_offset r + length xs) < of_nat k * s" using Cons.prems(4) by (rule le_less_trans)
  moreover have "rs_offset r + length xs \<le> 2 ^ 31" using Cons.prems(3) by simp
  ultimately have "rs_process (Suc k) xs r \<noteq> None"
    using process_total [OF Cons.prems(1) _ assms(2,3)] Cons.prems(2) assms(1) by metis
  then obtain out r1 where 1: "rs_process (Suc k) xs r = Some (out, r1)" by auto
  have r1: "rs_ok r1" "rs_offset r1 = rs_offset r + length xs" "rs_step r1 = rs_step r0"
    using process_ok [OF Cons.prems(1) 1] Cons.prems(2) by auto
  then have "\<exists>outs r2. feed (Suc k) xss r1 = Some (outs, r2)" using Cons.prems(3,4) by (intro Cons.IH) (auto simp: add.assoc)
  then show ?case using 1 by (auto simp del: rs_process_def)
qed simp

text \<open>The quotient of integer rates is in the range for which the loop is known to end.\<close>

lemma integer_rates_step:
  assumes "1 \<le> a" "a \<le> 2 ^ 20" "1 \<le> b" "b \<le> 2 ^ 20"
  obtains r s where "new_resampler (Fin (of_nat a)) (Fin (of_nat b)) = Inr r" "rs_step r = Fin s" "1 / (2 * of_nat b) \<le> s" "1 / 2 ^ 21 \<le> s" "s \<le> 2 ^ 21"
proof -
  let ?x = "of_nat a / of_nat b :: rat"
  have ab: "1 \<le> (of_nat a :: rat)" "of_nat a \<le> (2 ^ 20 :: rat)" "1 \<le> (of_nat b :: rat)" "of_nat b \<le> (2 ^ 20 :: rat)"
    using assms(1-4) by (simp_all add: of_nat_le_numeral_power_cancel_iff)
  have x: "1 / of_nat b \<le> ?x" "?x \<le> 2 ^ 20" using ab by (auto simp: divide_right_mono divide_le_eq intro: order_trans)
  have "0 < 1 / (of_nat b :: rat)" using ab(3) by simp
  then have "\<bar>?x\<bar> < 2 powi (20 + 1)" using x by (simp add: power_int_def)
  then obtain s where s: "to_double ?x = Fin s" "\<bar>s - ?x\<bar> \<le> 2 powi (20 - 53)" using to_double_close [of ?x 20] by auto
  have e: "(2 :: rat) powi (20 - 53) = 1 / 2 ^ 33" by (simp add: power_int_def power_one_over)
  have b: "(1 :: rat) / 2 ^ 21 \<le> 1 / (2 * of_nat b)" using ab(3,4) by (simp add: field_simps)
  moreover have "(1 :: rat) / of_nat b = 1 / (2 * of_nat b) + 1 / (2 * of_nat b)" using ab(3) by (simp add: field_simps)
  moreover have "(1 :: rat) / 2 ^ 33 \<le> 1 / 2 ^ 21" by simp
  ultimately have s1: "1 / (2 * of_nat b) \<le> s" using s(2) x(1) e by linarith
  have "(2 :: rat) ^ 20 + 1 / 2 ^ 33 \<le> 2 ^ 21" by simp
  then have s2: "s \<le> 2 ^ 21" using s(2) x(2) e by linarith
  obtain r where r: "new_resampler (Fin (of_nat a)) (Fin (of_nat b)) = Inr r" "rs_inputRate r = Fin (of_nat a)" "rs_outputRate r = Fin (of_nat b)"
    using assms(1,3) by (auto simp: new_resampler_def)
  have "rs_step r = Fin s" using r(2,3) s(1) by (simp add: rs_step_def)
  then show ?thesis using that r(1) s1 s2 b by (meson order_trans)
qed

lemma resampler_feed_total:
  assumes "1 \<le> a" "a \<le> 2 ^ 20" "1 \<le> b" "b \<le> 2 ^ 20"
    and "length (concat xss) \<le> 2 ^ 31" "4 * b * length (concat xss) + 2 \<le> n"
  shows "\<exists>r out r2. new_resampler (Fin (of_nat a)) (Fin (of_nat b)) = Inr r \<and> feed n xss r = Some (out, r2)"
proof -
  let ?L = "length (concat xss)"
  obtain r s where r: "new_resampler (Fin (of_nat a)) (Fin (of_nat b)) = Inr r" "rs_step r = Fin s" "1 / (2 * of_nat b) \<le> s" "1 / 2 ^ 21 \<le> s" "s \<le> 2 ^ 21"
    by (rule integer_rates_step [OF assms(1-4)])
  obtain k where k: "n = Suc k" "4 * b * ?L + 1 \<le> k" using assms(6) by (cases n) auto
  have b: "0 < (of_nat b :: rat)" using assms(3) by simp
  have "2 * (of_nat ?L :: rat) < (4 * of_nat b * of_nat ?L + 1) * (1 / (2 * of_nat b))" using b by (simp add: field_simps)
  also have "\<dots> \<le> of_nat k * s"
  proof (rule mult_mono)
    have "(of_nat (4 * b * ?L + 1) :: rat) \<le> of_nat k" using k(2) by (simp only: of_nat_le_iff)
    then show "4 * of_nat b * of_nat ?L + 1 \<le> (of_nat k :: rat)" by simp
  qed (use r(3) b in auto)
  finally have "\<exists>out r2. feed (Suc k) xss r = Some (out, r2)"
    using new_resampler_ok [OF r(1)] assms(5) by (intro feed_total [OF r(2,4,5)]) auto
  with r(1) k(1) show ?thesis by blast
qed

text \<open>
  Claim C27.  Resampling ends: for all rates that the constructor accepts and whose binary64 quotient \<open>s\<close>, the step,
  is between \<open>2 ^ -21\<close> and \<open>2 ^ 21\<close>, and for at most \<open>2 ^ 31\<close> input samples in all, every call of \<open>process\<close>
  returns, however the input is cut; with \<open>l\<close> samples in all its loop runs no more than \<open>2 l / s + 2\<close> times.  (The
  constructor accepts rates whose quotient rounds to zero as well, for which the loop does not end.)
\<close>

theorem resampler_total:
  assumes "new_resampler a b = Inr r" "rs_step r = Fin s" "1 / 2 ^ 21 \<le> s" "s \<le> 2 ^ 21"
    and "length (concat xss) \<le> 2 ^ 31" "2 * of_nat (length (concat xss)) < of_nat k * s"
  shows "\<exists>out r2. feed (Suc k) xss r = Some (out, r2)"
  using new_resampler_ok [OF assms(1)] assms(5,6) by (intro feed_total [OF assms(2-4)]) auto

lemma resampler_stuck:
  assumes "new_resampler a b = Inr r" "rs_step r = Fin 0" "xs \<noteq> []"
  shows "rs_process n xs r = None"
proof -
  have r: "rs_next r = Fin 0" "rs_offset r = 0" using assms(1) by (auto simp: new_resampler_def split: if_splits)
  have zero: "to_double 0 = Fin 0" using to_double_int [of 0] by simp
  have "output_at xs 0 prev 0 \<noteq> None" for prev by (auto simp: output_at_def Let_def zero EPSILON_def)
  moreover have "0 \<le> (of_int (int (length xs) - 1) :: rat)" using assms(3) by (cases xs) auto
  ultimately have "resample_loop n xs 0 prev (Fin 0) (Fin 0) = None" for prev
    by (induction n) (auto simp: zero split: option.splits)
  then show ?thesis using assms(2,3) r by (simp add: rs_process_def)
qed

text \<open>Two input samples for one output sample: the first chunk has one sample.\<close>

definition halving :: resampler where
  "halving = \<lparr>rs_inputRate = Fin 2, rs_outputRate = Fin 1, rs_next = Fin 0, rs_offset = 0, rs_previous = None\<rparr>"

definition sample_chunks :: "js_number list list" where
  "sample_chunks = [[Fin 0], [Fin 1, Fin (1 / 2), Fin 1, Fin (1 / 4)]]"

lemma small_doubles: "to_double 0 = Fin 0" "to_double 2 = Fin 2" "to_double 4 = Fin 4" "to_double 6 = Fin 6"
  using to_double_int [of 0] to_double_int [of 2] to_double_int [of 4] to_double_int [of 6] by simp_all

lemma dyadic_single:
  assumes "\<bar>m\<bar> < 2 ^ 24" "j \<le> 149"
  shows "to_single (of_int m / 2 ^ j) = Fin (of_int m / 2 ^ j)"
proof -
  let ?x = "of_int m / 2 ^ j :: rat"
  have "\<bar>?x\<bar> \<le> of_int \<bar>m\<bar>" by (simp add: abs_divide field_simps mult_le_cancel_left1)
  also have "\<dots> < (2 :: rat) ^ 24" using assms(1) by (metis of_int_less_iff of_int_numeral of_int_power)
  also have "\<dots> < 2 powi 128" by (simp add: power_int_def)
  finally have "?x < 2 powi 128" "- (2 powi 128) < ?x" by linarith+
  moreover have "round_to 24 (- 149) ?x = ?x" using assms by (intro round_to_dyadic) auto
  ultimately show ?thesis by (simp add: to_single_def round_ieee_def Let_def)
qed

lemma small_singles: "to_single 0 = Fin 0" "to_single 1 = Fin 1" "to_single (1 / 2) = Fin (1 / 2)" "to_single (1 / 4) = Fin (1 / 4)"
  using dyadic_single [of 0 0] dyadic_single [of 1 0] dyadic_single [of 1 1] dyadic_single [of 1 2] by simp_all

theorem resampler_chunks_witness:
  "map_option fst (rs_process (5 * 3) (concat ([] # sample_chunks)) halving) = Some [Fin 0, Fin (1 / 2), Fin (1 / 4)]"
proof -
  have new: "new_resampler (Fin 2) (Fin 1) = Inr halving" by (simp add: new_resampler_def halving_def)
  have s: "sample32 (Fin 0)" "sample32 (Fin 1)" "sample32 (Fin (1 / 2))" "sample32 (Fin (1 / 4))"
    by (simp_all add: sample32_def small_singles)
  have "map_option fst (feed 5 ([] # sample_chunks) halving) = Some [Fin 0, Fin (1 / 2), Fin (1 / 4)]"
    using s by (simp add: sample_chunks_def halving_def rs_process_def rs_step_def output_at_def sample_or_def small_doubles
        small_singles interpolate_zero EPSILON_def numeral_eq_Suc Let_def)
  then obtain r2 where "feed 5 ([] # sample_chunks) halving = Some ([Fin 0, Fin (1 / 2), Fin (1 / 4)], r2)" by auto
  from resampler_chunks [OF new this] s show ?thesis by (simp add: sample_chunks_def)
qed

theorem resampler_total_witness:
  "\<exists>out r2. feed (Suc 6) sample_chunks halving = Some (out, r2)"
proof (rule resampler_total)
  show "new_resampler (Fin 2) (Fin 1) = Inr halving" by (simp add: new_resampler_def halving_def)
  show "rs_step halving = Fin 2" by (simp add: halving_def rs_step_def small_doubles)
qed (simp_all add: sample_chunks_def)

end
