(* ===== verification/Browser_Playback.thy ===== *)
theory Browser_Playback
  imports Browser_Resampler "HOL-Library.Sublist"
begin

text \<open>
  Playback in the browser (\<open>browser_audio.ts\<close>): the audio worklet \<open>RtvbpPlayback\<close>, which is a program of its own that
  the SDK loads into the browser, the playback half of \<open>BrowserAudioDevice\<close>, and both together with the
  messages between them.
\<close>

section \<open>The worklet\<close>

datatype playback_message = ClearMessage | SamplesMessage "js_number list" | OtherMessage

record worklet =
  wk_maxSamples :: int
  wk_queue :: "js_number list list"
  wk_offset :: nat
  wk_queued :: int

text \<open>\<open>x | 0\<close>: the integer part, wrapped to 32 bits.\<close>

fun to_int32 :: "js_number \<Rightarrow> int" where
  "to_int32 (Fin r) = sint (word_of_int (if r < 0 then \<lceil>r\<rceil> else \<lfloor>r\<rfloor>) :: 32 word)"
| "to_int32 _ = 0"

definition new_worklet :: "js_number \<Rightarrow> worklet" where
  "new_worklet maxSamples = \<lparr>wk_maxSamples = max 128 (to_int32 maxSamples), wk_queue = [], wk_offset = 0, wk_queued = 0\<rparr>"

text \<open>The loop that makes room for \<open>n\<close> samples; it reports what it drops.\<close>

function make_room :: "int \<Rightarrow> worklet \<Rightarrow> worklet \<times> int list" where
  "make_room n k =
     (case wk_queue k of
        [] \<Rightarrow> (k, [])
      | first # rest \<Rightarrow>
          if wk_queued k + n > wk_maxSamples k
          then (let dropped = int (length first) - int (wk_offset k);
                    (k1, reports) = make_room n (k\<lparr>wk_queue := rest, wk_queued := wk_queued k - dropped, wk_offset := 0\<rparr>)
                in (k1, dropped # reports))
          else (k, []))"
  by pat_completeness auto
termination by (relation "measure (\<lambda>(n, k). length (wk_queue k))") auto

declare make_room.simps [simp del]

definition worklet_message :: "playback_message \<Rightarrow> worklet \<Rightarrow> worklet \<times> int list" where
  "worklet_message m k =
     (case m of
        ClearMessage \<Rightarrow> (k\<lparr>wk_queue := [], wk_offset := 0, wk_queued := 0\<rparr>, [])
      | OtherMessage \<Rightarrow> (k, [])
      | SamplesMessage xs \<Rightarrow>
          let samples = (if int (length xs) > wk_maxSamples k then drop (length xs - nat (wk_maxSamples k)) xs else xs);
              (k1, reports) = make_room (int (length samples)) k
          in (k1\<lparr>wk_queue := wk_queue k1 @ [samples], wk_queued := wk_queued k1 + int (length samples)\<rparr>, reports))"

text \<open>
  \<open>process\<close> with an output of \<open>n\<close> samples, the loop with what is still to be written.  An offset beyond the
  first chunk does not occur.
\<close>

function write_output :: "nat \<Rightarrow> worklet \<Rightarrow> js_number list \<times> worklet" where
  "write_output n k =
     (case wk_queue k of
        [] \<Rightarrow> ([], k)
      | first # rest \<Rightarrow>
          if n = 0 \<or> length first < wk_offset k then ([], k)
          else (let count = min n (length first - wk_offset k);
                    k1 = k\<lparr>wk_offset := wk_offset k + count, wk_queued := wk_queued k - int count\<rparr>;
                    k2 = (if wk_offset k1 = length first then k1\<lparr>wk_queue := rest, wk_offset := 0\<rparr> else k1);
                    (out, k3) = write_output (n - count) k2
                in (take count (drop (wk_offset k) first) @ out, k3)))"
  by pat_completeness auto
termination
  by (relation "measure (\<lambda>(n, k). n + length (wk_queue k))") (auto split: if_splits)

declare write_output.simps [simp del]

definition worklet_process :: "nat option \<Rightarrow> worklet \<Rightarrow> js_number list \<times> worklet \<times> int list" where
  "worklet_process output k =
     (case output of
        None \<Rightarrow> ([], k, [])
      | Some n \<Rightarrow> (case write_output n k of (out, k1) \<Rightarrow> (out, k1, if out \<noteq> [] then [int (length out)] else [])))"

section \<open>What the worklet holds\<close>

definition wk_pending :: "worklet \<Rightarrow> js_number list" where
  "wk_pending k = drop (wk_offset k) (concat (wk_queue k))"

definition wk_ok :: "worklet \<Rightarrow> bool" where
  "wk_ok k \<longleftrightarrow> wk_queued k = int (length (wk_pending k)) \<and> 128 \<le> wk_maxSamples k
     \<and> (case wk_queue k of [] \<Rightarrow> wk_offset k = 0 | first # _ \<Rightarrow> wk_offset k \<le> length first)"

lemma wk_pending_Cons: "wk_queue k = first # rest \<Longrightarrow> wk_offset k \<le> length first \<Longrightarrow> wk_pending k = drop (wk_offset k) first @ concat rest"
  by (simp add: wk_pending_def)

lemma new_worklet_ok [simp]: "wk_ok (new_worklet n)" "wk_pending (new_worklet n) = []"
  by (simp_all add: new_worklet_def wk_ok_def wk_pending_def)

lemma make_room_ok:
  "wk_ok k \<Longrightarrow> make_room n k = (k1, reports) \<Longrightarrow>
     wk_ok k1 \<and> wk_maxSamples k1 = wk_maxSamples k \<and> wk_pending k1 = drop (nat (sum_list reports)) (wk_pending k)
     \<and> sum_list reports \<le> int (length (wk_pending k)) \<and> list_all (\<lambda>x. 0 \<le> x) reports
     \<and> (n \<le> wk_maxSamples k \<longrightarrow> wk_queued k1 + n \<le> wk_maxSamples k)
     \<and> (wk_queued k + n \<le> wk_maxSamples k \<longrightarrow> k1 = k \<and> reports = [])"
proof (induction n k arbitrary: k1 reports rule: make_room.induct)
  case (1 n k)
  show ?case
  proof (cases "wk_queue k")
    case Nil
    then show ?thesis using 1(2,3) by (auto simp: make_room.simps [of n k] wk_ok_def wk_pending_def)
  next
    case (Cons first rest)
    show ?thesis
    proof (cases "wk_queued k + n > wk_maxSamples k")
      case False
      then show ?thesis using 1(2,3) Cons by (auto simp: make_room.simps [of n k])
    next
      case True
      let ?d = "int (length first) - int (wk_offset k)"
      let ?k = "k\<lparr>wk_queue := rest, wk_queued := wk_queued k - ?d, wk_offset := 0\<rparr>"
      obtain rs where r: "make_room n ?k = (k1, rs)" "reports = ?d # rs"
        using 1(3) Cons True by (auto simp: make_room.simps [of n k] Let_def split: prod.splits)
      have off: "wk_offset k \<le> length first" using 1(2) Cons by (simp add: wk_ok_def)
      have p: "wk_pending k = drop (wk_offset k) first @ wk_pending ?k" using off Cons by (simp add: wk_pending_def)
      have ok: "wk_ok ?k" using 1(2) off p by (auto simp: wk_ok_def wk_pending_def Cons split: list.split)
      note ih = 1(1) [OF Cons True refl ok r(1)]
      have "0 \<le> sum_list rs" using ih by (auto simp: list_all_iff intro: sum_list_nonneg)
      then have "nat (sum_list reports) = (length first - wk_offset k) + nat (sum_list rs)" using r(2) off by simp
      then show ?thesis using ih p off r(2) True by auto
    qed
  qed
qed

lemma write_output_ok:
  "wk_ok k \<Longrightarrow> write_output n k = (out, k1) \<Longrightarrow>
     wk_ok k1 \<and> wk_maxSamples k1 = wk_maxSamples k \<and> out = take n (wk_pending k) \<and> wk_pending k1 = drop n (wk_pending k)"
proof (induction n k arbitrary: out k1 rule: write_output.induct)
  case (1 n k)
  show ?case
  proof (cases "wk_queue k")
    case Nil
    then show ?thesis using 1(2,3) by (auto simp: write_output.simps [of n k] wk_pending_def)
  next
    case (Cons first rest)
    have off: "wk_offset k \<le> length first" using 1(2) Cons by (simp add: wk_ok_def)
    show ?thesis
    proof (cases "n = 0")
      case True
      then show ?thesis using 1(2,3) Cons by (auto simp: write_output.simps [of 0 k])
    next
      case False
      let ?c = "min n (length first - wk_offset k)"
      let ?k1 = "k\<lparr>wk_offset := wk_offset k + ?c, wk_queued := wk_queued k - int ?c\<rparr>"
      let ?k2 = "if wk_offset ?k1 = length first then ?k1\<lparr>wk_queue := rest, wk_offset := 0\<rparr> else ?k1"
      obtain o1 where r: "write_output (n - ?c) ?k2 = (o1, k1)" "out = take ?c (drop (wk_offset k) first) @ o1"
        using 1(3) Cons False off by (auto simp: write_output.simps [of n k] Let_def split: prod.splits)
      have p: "wk_pending k = drop (wk_offset k) first @ concat rest" using Cons off by (rule wk_pending_Cons)
      have p2: "wk_pending ?k2 = drop ?c (wk_pending k)" using p off Cons by (auto simp: wk_pending_def min_def not_le add.commute)
      have "length (wk_pending ?k2) + ?c = length (wk_pending k)" unfolding p2 using p off by auto
      moreover have "wk_queued ?k2 = wk_queued k - int ?c" "wk_maxSamples ?k2 = wk_maxSamples k" by simp_all
      moreover have "case wk_queue ?k2 of [] \<Rightarrow> wk_offset ?k2 = 0 | f # _ \<Rightarrow> wk_offset ?k2 \<le> length f"
        using Cons off by (auto split: list.split)
      ultimately have ok: "wk_ok ?k2" using 1(2) unfolding wk_ok_def by linarith
      have "\<not> (n = 0 \<or> length first < wk_offset k)" using False off by simp
      note ih = 1(1) [OF Cons this refl refl refl ok r(1)]
      have "take ?c (drop (wk_offset k) first) = take ?c (wk_pending k)" using p off by simp
      then have "out = take n (wk_pending k)" using ih r(2) p2 by (simp add: take_add [symmetric])
      then show ?thesis using ih p2 by simp
    qed
  qed
qed

lemma worklet_message_ok:
  assumes "wk_ok k" "worklet_message m k = (k1, reports)"
  shows "wk_ok k1 \<and> wk_maxSamples k1 = wk_maxSamples k \<and> list_all (\<lambda>x. 0 \<le> x) reports
    \<and> (wk_queued k \<le> wk_maxSamples k \<longrightarrow> wk_queued k1 \<le> wk_maxSamples k)
    \<and> (case m of ClearMessage \<Rightarrow> wk_pending k1 = [] \<and> reports = []
       | OtherMessage \<Rightarrow> k1 = k \<and> reports = []
       | SamplesMessage xs \<Rightarrow> wk_queued k + int (length xs) \<le> wk_maxSamples k \<longrightarrow> wk_pending k1 = wk_pending k @ xs \<and> reports = [])"
proof (cases m)
  case (SamplesMessage xs)
  define ys where "ys = (if int (length xs) > wk_maxSamples k then drop (length xs - nat (wk_maxSamples k)) xs else xs)"
  obtain k0 where r: "make_room (int (length ys)) k = (k0, reports)"
    "k1 = k0\<lparr>wk_queue := wk_queue k0 @ [ys], wk_queued := wk_queued k0 + int (length ys)\<rparr>"
    using assms(2) SamplesMessage by (auto simp: worklet_message_def ys_def Let_def split: prod.splits)
  note room = make_room_ok [OF assms(1) r(1)]
  have len: "int (length ys) \<le> wk_maxSamples k" using assms(1) by (auto simp: wk_ok_def ys_def)
  have off: "wk_offset k0 \<le> length (concat (wk_queue k0))" using room by (auto simp: wk_ok_def split: list.splits)
  have p: "wk_pending k1 = wk_pending k0 @ ys" using off r(2) by (simp add: wk_pending_def)
  have "wk_ok k1" using room r(2) p by (auto simp: wk_ok_def split: list.splits)
  moreover have "ys = xs" if "wk_queued k + int (length xs) \<le> wk_maxSamples k"
    using that assms(1) by (auto simp: wk_ok_def ys_def)
  ultimately show ?thesis using room p r(2) len SamplesMessage by auto
qed (use assms in \<open>auto simp: worklet_message_def wk_ok_def wk_pending_def\<close>)

section \<open>The playback half of the device\<close>

text \<open>
  Where \<open>#playAudio\<close> is: it reads from the audio stream in a generation, waits for room for the samples of
  a frame, has been woken, or has ended.  A resampler that does not return leaves it hung.
\<close>

datatype play_phase =
    PlayIdle
  | PlayRead nat
  | PlayWaiting nat nat "js_number list"
  | PlayWoken nat nat "js_number list"
  | PlayEnded "unit result"
  | PlayHung

record player =
  pl_sampleRate :: "js_number option"
  pl_capacityMs :: nat
  pl_buffered :: nat
  pl_generation :: nat
  pl_playedSdkSamples :: nat
  pl_playbackFrames :: nat
  pl_resampler :: "resampler option"
  pl_phase :: play_phase
  pl_outbox :: "playback_message list"

text \<open>\<open>Math.ceil\<close>, and the quotient by a positive constant.\<close>

fun num_ceil :: "js_number \<Rightarrow> js_number" where
  "num_ceil (Fin r) = (if - 1 < r \<and> r < 0 then NegZero else jsInt \<lceil>r\<rceil>)"
| "num_ceil x = x"

fun num_over :: "js_number \<Rightarrow> rat \<Rightarrow> js_number" where
  "num_over (Fin r) c = to_double (r / c)"
| "num_over x c = x"

definition playback_capacity :: "player \<Rightarrow> js_number" where
  "playback_capacity p = num_ceil (num_over (num_mul (the (pl_sampleRate p)) (Fin (of_nat (pl_capacityMs p)))) 1000)"

definition playback_stopped :: "thrown \<Rightarrow> thrown" where
  "playback_stopped reason = SessionError ''aborted'' ''browser audio playback stopped'' (Some reason)"

definition play_loop :: "signal \<Rightarrow> player \<Rightarrow> player" where
  "play_loop sig p =
     p\<lparr>pl_phase := (case throwIfAborted sig of Inl _ \<Rightarrow> PlayEnded (Inr ()) | Inr _ \<Rightarrow> PlayRead (pl_generation p))\<rparr>"

text \<open>What follows the wait for room.\<close>

definition play_post :: "signal \<Rightarrow> nat \<Rightarrow> nat \<Rightarrow> js_number list \<Rightarrow> player \<Rightarrow> player" where
  "play_post sig generation bytes converted p =
     (if generation \<noteq> pl_generation p \<or> isl (throwIfAborted sig) then play_loop sig p
      else play_loop sig (p\<lparr>pl_buffered := pl_buffered p + length converted, pl_playedSdkSamples := pl_playedSdkSamples p + bytes div 2,
             pl_playbackFrames := pl_playbackFrames p + 1, pl_outbox := pl_outbox p @ [SamplesMessage converted]\<rparr>))"

definition waitForPlaybackCapacity :: "signal \<Rightarrow> nat \<Rightarrow> nat \<Rightarrow> js_number list \<Rightarrow> player \<Rightarrow> player" where
  "waitForPlaybackCapacity sig generation bytes converted p =
     (if pl_sampleRate p = None then p\<lparr>pl_phase := PlayEnded (Inl (session_error ''media_device'' ''AudioContext is not initialized''))\<rparr>
      else if num_less (playback_capacity p) (Fin (of_nat (pl_buffered p + length converted)))
      then p\<lparr>pl_phase := (case throwIfAborted sig of Inl e \<Rightarrow> PlayEnded (Inl e) | Inr _ \<Rightarrow> PlayWaiting generation bytes converted)\<rparr>
      else play_post sig generation bytes converted p)"

definition play_converted :: "signal \<Rightarrow> nat \<Rightarrow> js_number list \<Rightarrow> player \<Rightarrow> player" where
  "play_converted sig bytes converted p =
     (case pl_phase p of
        PlayRead generation \<Rightarrow>
          if generation \<noteq> pl_generation p \<or> converted = [] then play_loop sig p
          else waitForPlaybackCapacity sig generation bytes converted p
      | _ \<Rightarrow> p)"

text \<open>The read of the audio stream settles; the bytes of an older generation are not converted.\<close>

definition play_read :: "nat \<Rightarrow> signal \<Rightarrow> 8 word list result \<Rightarrow> player \<Rightarrow> player" where
  "play_read fuel sig res p =
     (case (pl_phase p, res) of
        (PlayRead _, Inl e) \<Rightarrow> p\<lparr>pl_phase := PlayEnded (Inl e)\<rparr>
      | (PlayRead generation, Inr bytes) \<Rightarrow>
          if generation \<noteq> pl_generation p then play_loop sig p
          else (case l16ToFloat bytes of
              Inl e \<Rightarrow> p\<lparr>pl_phase := PlayEnded (Inl e)\<rparr>
            | Inr samples \<Rightarrow>
                (case Option.bind (pl_resampler p) (rs_process fuel samples) of
                   None \<Rightarrow> p\<lparr>pl_phase := PlayHung\<rparr>
                 | Some (converted, r) \<Rightarrow> play_converted sig (length bytes) converted (p\<lparr>pl_resampler := Some r\<rparr>)))
      | _ \<Rightarrow> p)"

definition wakeCapacityWaiters :: "player \<Rightarrow> player" where
  "wakeCapacityWaiters p = (case pl_phase p of PlayWaiting g n xs \<Rightarrow> p\<lparr>pl_phase := PlayWoken g n xs\<rparr> | _ \<Rightarrow> p)"

definition play_resume :: "signal \<Rightarrow> player \<Rightarrow> player" where
  "play_resume sig p = (case pl_phase p of PlayWoken g n xs \<Rightarrow> waitForPlaybackCapacity sig g n xs p | _ \<Rightarrow> p)"

text \<open>The device is closed while the player waits.\<close>

definition play_abort :: "thrown \<Rightarrow> player \<Rightarrow> player" where
  "play_abort reason p =
     (case pl_phase p of PlayWaiting _ _ _ \<Rightarrow> p\<lparr>pl_phase := PlayEnded (Inl (playback_stopped reason))\<rparr> | _ \<Rightarrow> p)"

definition playback_consumed :: "int \<Rightarrow> player \<Rightarrow> player" where
  "playback_consumed n p = wakeCapacityWaiters (p\<lparr>pl_buffered := nat (max 0 (int (pl_buffered p) - n))\<rparr>)"

definition buffered_sdk_samples :: "player \<Rightarrow> int" where
  "buffered_sdk_samples p =
     (case pl_sampleRate p of None \<Rightarrow> 0
      | Some rate \<Rightarrow> (case num_value rate of None \<Rightarrow> 0 | Some r \<Rightarrow> round_int (num_over (to_double (of_nat (pl_buffered p) * 8000)) r)))"

text \<open>\<open>clearPlayback\<close>; \<open>audioBytes\<close> is what the clear of the audio stream returned.\<close>

definition clearPlayback :: "nat \<Rightarrow> bool \<Rightarrow> player \<Rightarrow> int \<times> player" where
  "clearPlayback audioBytes hasNode p =
     (int audioBytes + buffered_sdk_samples p * 2,
      wakeCapacityWaiters (p\<lparr>pl_generation := pl_generation p + 1, pl_buffered := 0,
        pl_outbox := pl_outbox p @ (if hasNode then [ClearMessage] else [])\<rparr>))"

end
