(* ===== verification/Browser_Playback_Link.thy ===== *)
theory Browser_Playback_Link
  imports Browser_Playback
begin

text \<open>
  The player of \<open>BrowserAudioDevice\<close> and its worklet with the messages between them, which arrive in order.  The
  player counts what the worklet has not reported back and waits for room, so that the worklet plays everything it is
  sent; after a clear a report of the samples before it makes the count too small, and the worklet drops audio.
\<close>

section \<open>Runs\<close>

record playback_link =
  lk_player :: player
  lk_worklet :: worklet
  lk_delivered :: nat
  lk_reports :: "int list"
  lk_output :: "js_number list"

datatype link_event =
    LinkConverted signal nat "js_number list"
  | LinkResume signal
  | LinkAbort thrown
  | LinkDeliver
  | LinkProcess "nat option"
  | LinkReport
  | LinkClear nat

fun link_step :: "playback_link \<Rightarrow> link_event \<Rightarrow> playback_link" where
  "link_step l (LinkConverted sig n xs) = l\<lparr>lk_player := play_converted sig n xs (lk_player l)\<rparr>"
| "link_step l (LinkResume sig) = l\<lparr>lk_player := play_resume sig (lk_player l)\<rparr>"
| "link_step l (LinkAbort e) = l\<lparr>lk_player := play_abort e (lk_player l)\<rparr>"
| "link_step l LinkDeliver =
     (if lk_delivered l < length (pl_outbox (lk_player l))
      then (case worklet_message (pl_outbox (lk_player l) ! lk_delivered l) (lk_worklet l) of
              (k, rs) \<Rightarrow> l\<lparr>lk_worklet := k, lk_delivered := lk_delivered l + 1, lk_reports := lk_reports l @ rs\<rparr>)
      else l)"
| "link_step l (LinkProcess n) =
     (case worklet_process n (lk_worklet l) of
        (out, k, rs) \<Rightarrow> l\<lparr>lk_worklet := k, lk_reports := lk_reports l @ rs, lk_output := lk_output l @ out\<rparr>)"
| "link_step l LinkReport =
     (case lk_reports l of [] \<Rightarrow> l | n # ns \<Rightarrow> l\<lparr>lk_player := playback_consumed n (lk_player l), lk_reports := ns\<rparr>)"
| "link_step l (LinkClear n) = l\<lparr>lk_player := snd (clearPlayback n True (lk_player l))\<rparr>"

definition run_link :: "playback_link \<Rightarrow> link_event list \<Rightarrow> playback_link" where
  "run_link l es = foldl link_step l es"

text \<open>A device whose worklets have just started, in a context with the given sample rate.\<close>

definition new_player :: "js_number \<Rightarrow> nat \<Rightarrow> player" where
  "new_player rate ms = \<lparr>pl_sampleRate = Some rate, pl_capacityMs = ms, pl_buffered = 0, pl_generation = 0, pl_playedSdkSamples = 0,
     pl_playbackFrames = 0, pl_resampler = None, pl_phase = PlayRead 0, pl_outbox = []\<rparr>"

definition new_link :: "js_number \<Rightarrow> nat \<Rightarrow> playback_link" where
  "new_link rate ms = \<lparr>lk_player = new_player rate ms, lk_worklet = new_worklet (playback_capacity (new_player rate ms)),
     lk_delivered = 0, lk_reports = [], lk_output = []\<rparr>"

definition message_samples :: "playback_message \<Rightarrow> js_number list" where
  "message_samples m = (case m of SamplesMessage xs \<Rightarrow> xs | _ \<Rightarrow> [])"

definition posted :: "playback_link \<Rightarrow> js_number list" where
  "posted l = concat (map message_samples (pl_outbox (lk_player l)))"

definition in_transit :: "playback_link \<Rightarrow> js_number list" where
  "in_transit l = concat (map message_samples (drop (lk_delivered l) (pl_outbox (lk_player l))))"

section \<open>The capacity\<close>

lemma playback_capacity_int:
  assumes "1 \<le> a" "a \<le> 2 ^ 20" "1 \<le> ms" "ms \<le> 10000"
  shows "\<exists>c. playback_capacity (new_player (Fin (of_nat a)) ms) = jsInt c \<and> 0 \<le> c \<and> c < 2 ^ 31"
proof -
  have le: "a * ms \<le> 2 ^ 20 * 10000" using assms(2,4) by (intro mult_le_mono)
  have pos: "0 < a * ms" using assms by simp
  have "to_double (of_nat (a * ms)) = Fin (of_nat (a * ms))" using le by (intro to_double_nat) simp
  then have mul: "num_mul (Fin (of_nat a)) (Fin (of_nat ms)) = Fin (of_nat (a * ms))" using assms by (simp add: num_mul_def)
  have "a * ms < 2 ^ 53" using le by simp
  from to_double_quotient [OF pos this, of 1000]
  obtain r where r: "to_double (of_nat (a * ms) / 1000) = Fin r" "\<lfloor>r\<rfloor> = int (a * ms div 1000)" by auto
  have "0 \<le> r" using r(2) by (metis of_nat_0_le_iff zero_le_floor)
  moreover have "\<lceil>r\<rceil> \<le> \<lfloor>r\<rfloor> + 1" by linarith
  moreover have "a * ms div 1000 \<le> 10485760" using div_le_mono [OF le, of 1000] by simp
  moreover have "(10485762 :: int) < 2 ^ 31" by simp
  ultimately have "0 \<le> \<lceil>r\<rceil>" "\<lceil>r\<rceil> < 2 ^ 31" using r(2) by linarith+
  then show ?thesis using mul r(1) \<open>0 \<le> r\<close> by (simp add: playback_capacity_def new_player_def del: of_nat_mult)
qed

lemma to_int32_small: "0 \<le> c \<Longrightarrow> c < 2 ^ 31 \<Longrightarrow> to_int32 (jsInt c) = c"
  by (simp add: signed_of_int signed_take_bit_int_eq_self)

section \<open>Everything is played\<close>

text \<open>The player's count: what is on its way, what the worklet holds and what it has not yet reported.\<close>

definition link_ok :: "int \<Rightarrow> playback_link \<Rightarrow> bool" where
  "link_ok c l \<longleftrightarrow> pl_sampleRate (lk_player l) \<noteq> None \<and> playback_capacity (lk_player l) = jsInt c
     \<and> wk_ok (lk_worklet l) \<and> c \<le> wk_maxSamples (lk_worklet l)
     \<and> lk_delivered l \<le> length (pl_outbox (lk_player l)) \<and> list_all (\<lambda>m. \<exists>xs. m = SamplesMessage xs) (pl_outbox (lk_player l))
     \<and> posted l = lk_output l @ wk_pending (lk_worklet l) @ in_transit l
     \<and> list_all (\<lambda>n. 0 \<le> n) (lk_reports l)
     \<and> int (pl_buffered (lk_player l)) = int (length (in_transit l)) + int (length (wk_pending (lk_worklet l))) + sum_list (lk_reports l)
     \<and> int (pl_buffered (lk_player l)) \<le> c"

text \<open>What a turn of the player does to the counters: nothing, or it posts samples for which there is room.\<close>

definition posts :: "player \<Rightarrow> player \<Rightarrow> bool" where
  "posts p p' \<longleftrightarrow> pl_sampleRate p' = pl_sampleRate p \<and> pl_capacityMs p' = pl_capacityMs p \<and>
     (pl_outbox p' = pl_outbox p \<and> pl_buffered p' = pl_buffered p
      \<or> (\<exists>xs. pl_outbox p' = pl_outbox p @ [SamplesMessage xs] \<and> pl_buffered p' = pl_buffered p + length xs
          \<and> \<not> num_less (playback_capacity p) (Fin (of_nat (pl_buffered p + length xs)))))"

lemma posts_loop [simp]: "posts p (play_loop sig p)"
  by (simp add: posts_def play_loop_def)

lemma posts_wait [simp]: "posts p (waitForPlaybackCapacity sig g n xs p)"
  by (auto simp: posts_def waitForPlaybackCapacity_def play_post_def play_loop_def)

lemma posts_converted [simp]: "posts p (play_converted sig n xs p)"
  by (auto simp: play_converted_def split: play_phase.split) (simp_all add: posts_def)

lemma posts_resume [simp]: "posts p (play_resume sig p)"
  by (auto simp: play_resume_def split: play_phase.split) (simp_all add: posts_def)

lemma posts_abort [simp]: "posts p (play_abort e p)"
  by (auto simp: play_abort_def posts_def split: play_phase.split)

lemma link_ok_posts:
  assumes "link_ok c l" "posts (lk_player l) p"
  shows "link_ok c (l\<lparr>lk_player := p\<rparr>)"
proof -
  have cap: "playback_capacity p = playback_capacity (lk_player l)" using assms(2) by (simp add: posts_def playback_capacity_def)
  consider "pl_outbox p = pl_outbox (lk_player l)" "pl_buffered p = pl_buffered (lk_player l)"
    | xs where "pl_outbox p = pl_outbox (lk_player l) @ [SamplesMessage xs]" "pl_buffered p = pl_buffered (lk_player l) + length xs"
      "\<not> num_less (jsInt c) (Fin (of_nat (pl_buffered (lk_player l) + length xs)))"
    using assms by (auto simp: posts_def link_ok_def)
  then show ?thesis
  proof cases
    case 1
    then show ?thesis using assms cap by (simp add: link_ok_def posts_def posted_def in_transit_def)
  next
    case 2
    have "(of_int (int (pl_buffered (lk_player l) + length xs)) :: rat) \<le> of_int c" using 2(3) by simp
    then have "int (pl_buffered (lk_player l) + length xs) \<le> c" by (simp only: of_int_le_iff)
    then show ?thesis using assms cap 2(1,2) by (simp add: link_ok_def posts_def posted_def in_transit_def message_samples_def)
  qed
qed

lemma link_ok_deliver:
  assumes "link_ok c l"
  shows "link_ok c (link_step l LinkDeliver)"
proof (cases "lk_delivered l < length (pl_outbox (lk_player l))")
  case True
  let ?box = "pl_outbox (lk_player l)" and ?k = "lk_worklet l"
  have "\<exists>xs. ?box ! lk_delivered l = SamplesMessage xs" using assms True by (auto simp: link_ok_def list_all_iff)
  then obtain xs where xs: "?box ! lk_delivered l = SamplesMessage xs" ..
  have transit: "in_transit l = xs @ concat (map message_samples (drop (Suc (lk_delivered l)) ?box))"
    using True xs by (simp add: in_transit_def message_samples_def flip: Cons_nth_drop_Suc)
  have "0 \<le> sum_list (lk_reports l)" using assms by (auto simp: link_ok_def list_all_iff intro: sum_list_nonneg)
  then have "int (length xs) + int (length (wk_pending ?k)) \<le> c" using assms transit by (simp add: link_ok_def)
  then have room: "wk_queued ?k + int (length xs) \<le> wk_maxSamples ?k" using assms by (simp add: link_ok_def wk_ok_def)
  obtain k rs where k: "worklet_message (SamplesMessage xs) ?k = (k, rs)" by (rule prod.exhaust)
  have "wk_ok k" "wk_maxSamples k = wk_maxSamples ?k" "wk_pending k = wk_pending ?k @ xs" "rs = []"
    using worklet_message_ok [OF _ k] assms room by (auto simp: link_ok_def)
  then show ?thesis using assms True xs k transit by (simp add: link_ok_def posted_def in_transit_def)
qed (use assms in simp)

lemma link_ok_process:
  assumes "link_ok c l"
  shows "link_ok c (link_step l (LinkProcess n))"
proof (cases n)
  case None
  then show ?thesis using assms by (simp add: worklet_process_def)
next
  case (Some m)
  obtain out k where k: "write_output m (lk_worklet l) = (out, k)" by (rule prod.exhaust)
  have "wk_ok k" "wk_maxSamples k = wk_maxSamples (lk_worklet l)" "wk_pending (lk_worklet l) = out @ wk_pending k"
    using write_output_ok [OF _ k] assms by (auto simp: link_ok_def)
  then show ?thesis using assms k Some by (auto simp: worklet_process_def link_ok_def posted_def in_transit_def)
qed

lemma link_ok_report:
  assumes "link_ok c l"
  shows "link_ok c (link_step l LinkReport)"
proof (cases "lk_reports l")
  case (Cons n ns)
  let ?p = "playback_consumed n (lk_player l)"
  have "pl_sampleRate ?p = pl_sampleRate (lk_player l)" "pl_capacityMs ?p = pl_capacityMs (lk_player l)"
    "pl_outbox ?p = pl_outbox (lk_player l)" "pl_buffered ?p = nat (max 0 (int (pl_buffered (lk_player l)) - n))"
    by (simp_all add: playback_consumed_def wakeCapacityWaiters_def split: play_phase.split)
  moreover have "0 \<le> n" "list_all ((\<le>) 0) ns" "0 \<le> sum_list ns"
    using assms Cons by (auto simp: link_ok_def list_all_iff intro: sum_list_nonneg)
  ultimately show ?thesis using assms Cons by (simp add: link_ok_def posted_def in_transit_def playback_capacity_def)
qed (use assms in simp)

definition clears :: "link_event \<Rightarrow> bool" where
  "clears e \<longleftrightarrow> (case e of LinkClear _ \<Rightarrow> True | _ \<Rightarrow> False)"

lemma run_link_ok: "link_ok c l \<Longrightarrow> \<not> list_ex clears es \<Longrightarrow> link_ok c (run_link l es)"
  unfolding run_link_def
proof (induction es arbitrary: l)
  case (Cons e es)
  have "link_ok c (link_step l e)"
    using Cons.prems by (cases e) (auto simp: clears_def link_ok_posts link_ok_deliver link_ok_process link_ok_report simp del: link_step.simps(4-6))
  then show ?case using Cons by simp
qed simp

text \<open>
  Claim C28.  As long as playback is not cleared, no audio is lost between the device and its worklet: for every
  order in which frames are converted, messages arrive, audio is rendered and the player is woken or aborted,
  the samples posted to the worklet are, in order, the samples rendered, those the worklet holds and those on
  their way; and the device never has more than its capacity outstanding.
\<close>

theorem playback_lossless:
  assumes "1 \<le> rate" "rate \<le> 2 ^ 20" "1 \<le> ms" "ms \<le> 10000" "\<not> list_ex clears es"
    and "l = run_link (new_link (Fin (of_nat rate)) ms) es"
  shows "posted l = lk_output l @ wk_pending (lk_worklet l) @ in_transit l
    \<and> num_le (Fin (of_nat (pl_buffered (lk_player l)))) (playback_capacity (lk_player l))
    \<and> length (wk_pending (lk_worklet l)) + length (in_transit l) \<le> pl_buffered (lk_player l)"
proof -
  obtain c where c: "playback_capacity (new_player (Fin (of_nat rate)) ms) = jsInt c" "0 \<le> c" "c < 2 ^ 31"
    using playback_capacity_int [OF assms(1-4)] by blast
  then have "wk_maxSamples (new_worklet (jsInt c)) = max 128 c" by (simp add: new_worklet_def to_int32_small del: to_int32.simps)
  moreover have "pl_sampleRate (new_player r n) \<noteq> None" "pl_outbox (new_player r n) = []" "pl_buffered (new_player r n) = 0" for r n
    by (simp_all add: new_player_def)
  ultimately have "link_ok c (new_link (Fin (of_nat rate)) ms)"
    using c by (simp add: link_ok_def new_link_def posted_def in_transit_def)
  then have ok: "link_ok c l" using run_link_ok assms(5,6) by blast
  then have "0 \<le> sum_list (lk_reports l)" by (auto simp: link_ok_def list_all_iff intro: sum_list_nonneg)
  moreover have "int (pl_buffered (lk_player l)) \<le> c" using ok unfolding link_ok_def by blast
  then have "(of_int (int (pl_buffered (lk_player l))) :: rat) \<le> of_int c" by (simp only: of_int_le_iff)
  ultimately show ?thesis using ok by (simp add: link_ok_def)
qed

theorem playback_lossless_witness:
  "posted (run_link (new_link (Fin (of_nat 8000)) 20) [LinkConverted NoSignal 4 [Fin 0, Fin 1], LinkDeliver, LinkProcess (Some 1)])
   = lk_output (run_link (new_link (Fin (of_nat 8000)) 20) [LinkConverted NoSignal 4 [Fin 0, Fin 1], LinkDeliver, LinkProcess (Some 1)])
     @ wk_pending (lk_worklet (run_link (new_link (Fin (of_nat 8000)) 20) [LinkConverted NoSignal 4 [Fin 0, Fin 1], LinkDeliver, LinkProcess (Some 1)]))
     @ in_transit (run_link (new_link (Fin (of_nat 8000)) 20) [LinkConverted NoSignal 4 [Fin 0, Fin 1], LinkDeliver, LinkProcess (Some 1)])"
  using playback_lossless [of 8000 20 "[LinkConverted NoSignal 4 [Fin 0, Fin 1], LinkDeliver, LinkProcess (Some 1)]", OF _ _ _ _ _ refl]
  by (simp add: clears_def del: link_step.simps)

section \<open>A report that is too late\<close>

lemma capacity_160:
  assumes "pl_sampleRate p = Some (Fin 8000)" "pl_capacityMs p = 20"
  shows "playback_capacity p = Fin 160"
proof -
  have "to_double 160000 = Fin 160000" "to_double 160 = Fin 160" using to_double_int [of 160000] to_double_int [of 160] by simp_all
  then show ?thesis using assms by (simp add: playback_capacity_def num_mul_def)
qed

definition before_clear :: "link_event list" where
  "before_clear = [LinkConverted NoSignal 320 (replicate 160 (Fin 0)), LinkDeliver, LinkProcess (Some 128)]"

definition after_clear :: "link_event list" where
  "after_clear = [LinkConverted NoSignal 320 [], LinkConverted NoSignal 320 (replicate 160 (Fin 0)), LinkDeliver, LinkDeliver, LinkReport,
     LinkConverted NoSignal 256 (replicate 128 (Fin 1)), LinkDeliver]"

lemmas player_turns = play_converted_def waitForPlaybackCapacity_def capacity_160 play_post_def play_loop_def
lemmas worklet_turns = worklet_message_def make_room.simps write_output.simps worklet_process_def

lemma late_report_before:
  "run_link (new_link (Fin 8000) 20) before_clear =
     \<lparr>lk_player = (new_player (Fin 8000) 20)\<lparr>pl_buffered := 160, pl_playedSdkSamples := 160, pl_playbackFrames := 1,
        pl_outbox := [SamplesMessage (replicate 160 (Fin 0))]\<rparr>,
      lk_worklet = \<lparr>wk_maxSamples = 160, wk_queue = [replicate 160 (Fin 0)], wk_offset = 128, wk_queued = 32\<rparr>,
      lk_delivered = 1, lk_reports = [128], lk_output = replicate 128 (Fin 0)\<rparr>"
  by (simp add: run_link_def before_clear_def new_link_def new_player_def player_turns worklet_turns new_worklet_def Let_def)

lemma late_report_after:
  "run_link (run_link (new_link (Fin 8000) 20) before_clear) (LinkClear 0 # after_clear) =
     \<lparr>lk_player = (new_player (Fin 8000) 20)\<lparr>pl_buffered := 160, pl_generation := 1, pl_playedSdkSamples := 448, pl_playbackFrames := 3,
        pl_phase := PlayRead 1,
        pl_outbox := [SamplesMessage (replicate 160 (Fin 0)), ClearMessage, SamplesMessage (replicate 160 (Fin 0)), SamplesMessage (replicate 128 (Fin 1))]\<rparr>,
      lk_worklet = \<lparr>wk_maxSamples = 160, wk_queue = [replicate 128 (Fin 1)], wk_offset = 0, wk_queued = 128\<rparr>,
      lk_delivered = 4, lk_reports = [160], lk_output = replicate 128 (Fin 0)\<rparr>"
  unfolding late_report_before
  by (simp add: run_link_def after_clear_def new_player_def player_turns worklet_turns clearPlayback_def playback_consumed_def
      wakeCapacityWaiters_def Let_def)

text \<open>
  After a clear the worklet may drop audio that the device found room for: a report of samples rendered
  before the clear that arrives after it is subtracted from the count that the clear has reset.  There is a
  run with one clear after which nothing is rendered and everything posted has been delivered, and yet the
  worklet holds fewer samples than were posted after the clear, although the device never posted beyond its capacity.
\<close>

theorem late_report_drops_audio:
  "\<exists>es fs. \<not> list_ex clears es \<and> \<not> list_ex clears fs \<and> (\<forall>n. LinkProcess n \<notin> set fs)
     \<and> (let l1 = run_link (new_link (Fin 8000) 20) es; l2 = run_link l1 (LinkClear 0 # fs)
        in in_transit l2 = [] \<and> lk_output l2 = lk_output l1
         \<and> num_le (Fin (of_nat (pl_buffered (lk_player l2)))) (playback_capacity (lk_player l2))
         \<and> length (wk_pending (lk_worklet l2)) < length (posted l2) - length (posted l1))"
proof (intro exI conjI)
  show "\<not> list_ex clears before_clear" "\<not> list_ex clears after_clear" "\<forall>n. LinkProcess n \<notin> set after_clear"
    by (simp_all add: before_clear_def after_clear_def clears_def)
  show "let l1 = run_link (new_link (Fin 8000) 20) before_clear; l2 = run_link l1 (LinkClear 0 # after_clear)
        in in_transit l2 = [] \<and> lk_output l2 = lk_output l1
         \<and> num_le (Fin (of_nat (pl_buffered (lk_player l2)))) (playback_capacity (lk_player l2))
         \<and> length (wk_pending (lk_worklet l2)) < length (posted l2) - length (posted l1)"
    unfolding Let_def late_report_after unfolding late_report_before
    by (simp add: in_transit_def posted_def message_samples_def wk_pending_def new_player_def capacity_160)
qed

end
