(* ===== verification/Browser_Capture.thy ===== *)
theory Browser_Capture
  imports Browser_Resampler
begin

text \<open>
  The capture half of \<open>BrowserAudioDevice\<close> (\<open>browser_audio.ts\<close>): chunks of microphone samples are resampled to the
  rate of the session, converted to L16 and written to its audio stream.  The writes form a chain of
  promises: one runs at a time, and after a failed one none runs.
\<close>

section \<open>Capturing\<close>

record capture =
  cp_resampler :: resampler
  cp_written :: "8 word list list"
  cp_capturedSdkSamples :: nat
  cp_captureFrames :: nat
  cp_tail :: "unit result"
  cp_errors :: "thrown list"
  cp_hung :: bool

definition new_capture :: "resampler \<Rightarrow> capture" where
  "new_capture r = \<lparr>cp_resampler = r, cp_written = [], cp_capturedSdkSamples = 0, cp_captureFrames = 0, cp_tail = Inr (), cp_errors = [], cp_hung = False\<rparr>"

text \<open>\<open>write\<close> says how the write to the audio stream settles.\<close>

definition writeCapture :: "nat \<Rightarrow> bool \<Rightarrow> (8 word list \<Rightarrow> unit result) \<Rightarrow> js_number list \<Rightarrow> capture \<Rightarrow> unit result \<times> capture" where
  "writeCapture fuel isAborted write samples c =
     (if isAborted then (Inr (), c)
      else (case rs_process fuel samples (cp_resampler c) of
          None \<Rightarrow> (Inr (), c\<lparr>cp_hung := True\<rparr>)
        | Some (converted, r) \<Rightarrow>
            (let c1 = c\<lparr>cp_resampler := r\<rparr> in
             if converted = [] then (Inr (), c1)
             else (let bytes = floatToL16 converted in
               case write bytes of
                 Inl e \<Rightarrow> (Inl e, c1)
               | Inr _ \<Rightarrow> (Inr (), c1\<lparr>cp_written := cp_written c1 @ [bytes],
                   cp_capturedSdkSamples := cp_capturedSdkSamples c1 + length converted, cp_captureFrames := cp_captureFrames c1 + 1\<rparr>)))))"

text \<open>The message listener of the capture node: one more link of the chain, whose failure is reported.\<close>

definition capture_message :: "nat \<Rightarrow> bool \<Rightarrow> (8 word list \<Rightarrow> unit result) \<Rightarrow> js_number list \<Rightarrow> capture \<Rightarrow> capture" where
  "capture_message fuel isAborted write samples c =
     (let (tail, c1) = (case cp_tail c of Inl e \<Rightarrow> (Inl e, c) | Inr _ \<Rightarrow> writeCapture fuel isAborted write samples c)
      in c1\<lparr>cp_tail := tail, cp_errors := cp_errors c1 @ (case tail of Inl e \<Rightarrow> [asSessionError e ''media_capture''] | Inr _ \<Rightarrow> [])\<rparr>)"

definition capture_all :: "nat \<Rightarrow> (8 word list \<Rightarrow> unit result) \<Rightarrow> js_number list list \<Rightarrow> capture \<Rightarrow> capture" where
  "capture_all fuel write xss c = foldl (\<lambda>c xs. capture_message fuel False write xs c) c xss"

section \<open>What is captured\<close>

lemma floatToL16_append: "floatToL16 (xs @ ys) = floatToL16 xs @ floatToL16 ys"
  by (simp add: floatToL16_def)

lemma floatToL16_Nil [simp]: "floatToL16 [] = []"
  by (simp add: floatToL16_def)

lemma capture_feed:
  assumes "\<And>bytes. write bytes = Inr ()"
  shows "cp_tail c = Inr () \<Longrightarrow> feed n xss (cp_resampler c) = Some (out, r) \<Longrightarrow>
    (let d = capture_all n write xss c in concat (cp_written d) = concat (cp_written c) @ floatToL16 out
      \<and> cp_capturedSdkSamples d = cp_capturedSdkSamples c + length out \<and> cp_tail d = Inr () \<and> cp_errors d = cp_errors c \<and> cp_hung d = cp_hung c)"
  unfolding capture_all_def
proof (induction xss arbitrary: c out)
  case (Cons xs xss)
  obtain o1 r1 o2 where f: "rs_process n xs (cp_resampler c) = Some (o1, r1)" "feed n xss r1 = Some (o2, r)" "out = o1 @ o2"
    using Cons.prems(2) by (auto simp: bind_eq_Some_conv)
  let ?c = "capture_message n False write xs c"
  have c: "cp_resampler ?c = r1" "cp_tail ?c = Inr ()" "concat (cp_written ?c) = concat (cp_written c) @ floatToL16 o1"
    "cp_capturedSdkSamples ?c = cp_capturedSdkSamples c + length o1" "cp_errors ?c = cp_errors c" "cp_hung ?c = cp_hung c"
    using Cons.prems(1) f(1) assms by (auto simp: capture_message_def writeCapture_def Let_def)
  from Cons.IH [OF c(2), of o2] f(2,3) show ?case by (simp add: c floatToL16_append Let_def)
qed simp

text \<open>
  The audio that leaves the microphone does not depend on how the browser cuts it: when every write to
  the audio stream succeeds, the bytes written are the L16 form of the whole recording resampled at
  once, in order, for any chunks; the sample counter counts them.
\<close>

theorem capture_stream:
  assumes "1 \<le> rate" "rate \<le> 2 ^ 20" "new_resampler (Fin (of_nat rate)) (Fin 8000) = Inr r"
    and "length (concat xss) \<le> 2 ^ 31" "list_all sample32 (concat xss)"
    and "4 * 8000 * length (concat xss) + 2 \<le> n" "\<And>bytes. write bytes = Inr ()"
  shows "\<exists>out r2. rs_process (n * length xss) (concat xss) r = Some (out, r2)
    \<and> concat (cp_written (capture_all n write xss (new_capture r))) = floatToL16 out
    \<and> cp_capturedSdkSamples (capture_all n write xss (new_capture r)) = length out"
proof -
  obtain out r2 where f: "feed n xss r = Some (out, r2)"
    using resampler_feed_total [of rate 8000 xss n] assms by auto
  have "rs_process (n * length xss) (concat xss) r = Some (out, r2)"
    using resampler_feed_chunks [OF assms(3) f _ assms(5)] assms(4) by simp
  moreover have "cp_tail (new_capture r) = Inr ()" "cp_resampler (new_capture r) = r" by (simp_all add: new_capture_def)
  ultimately show ?thesis
    using capture_feed [OF assms(7), of "new_capture r" n xss out r2] f by (simp add: new_capture_def Let_def del: feed.simps)
qed

definition sample_resampler :: resampler where
  "sample_resampler = projr (new_resampler (Fin (of_nat 16000)) (Fin 8000))"

theorem capture_stream_witness:
  "\<exists>out r2. rs_process (96002 * 1) [Fin 0, Fin 1, Fin (1 / 2)] sample_resampler = Some (out, r2)
     \<and> concat (cp_written (capture_all 96002 (\<lambda>_. Inr ()) [[Fin 0, Fin 1, Fin (1 / 2)]] (new_capture sample_resampler))) = floatToL16 out"
proof -
  have "new_resampler (Fin (of_nat 16000)) (Fin 8000) = Inr sample_resampler"
    by (simp add: sample_resampler_def new_resampler_def)
  from capture_stream [OF _ _ this, of "[[Fin 0, Fin 1, Fin (1 / 2)]]" 96002 "\<lambda>_. Inr ()"] show ?thesis
    by (auto simp: sample32_def small_singles)
qed

text \<open>After a failed write nothing more is captured, and every further chunk reports the failure again.\<close>

lemma capture_after_failure:
  assumes "cp_tail c = Inl e"
  shows "cp_written (capture_all n write xss c) = cp_written c
    \<and> cp_errors (capture_all n write xss c) = cp_errors c @ replicate (length xss) (asSessionError e ''media_capture'')"
  using assms unfolding capture_all_def
proof (induction xss arbitrary: c)
  case (Cons xs xss)
  let ?c = "capture_message n False write xs c"
  have c: "cp_tail ?c = Inl e" "cp_written ?c = cp_written c" "cp_errors ?c = cp_errors c @ [asSessionError e ''media_capture'']"
    using Cons.prems by (simp_all add: capture_message_def Let_def)
  from Cons.IH [OF c(1)] show ?case by (simp add: c)
qed simp

end
