(* ===== verification/Browser_Device.thy ===== *)
theory Browser_Device
  imports Browser_Playback Browser_Capture Profiles
begin

text \<open>
  \<open>BrowserAudioDevice\<close> of \<open>browser_audio.ts\<close>: acquiring the microphone and the audio context, attaching a session or a
  remote track, and closing.  The calls that are under way are kept with what they wait for; how the promises of the
  browser settle are arguments of the continuations.  The nodes of the audio graph are kept as far as the
  device tests or disconnects them.  An injected stream is known by the number of its audio tracks, an audio
  context by its sample rate.
\<close>

section \<open>State\<close>

datatype device_state = DevInactive | DevStarting | DevActive | DevFailed | DevClosed

record device_config =
  dc_stream :: "nat option"
  dc_audioContext :: "js_number option"
  dc_playbackBufferMs :: "js_number option"
  dc_workletModuleUrl :: "string option"

text \<open>Why a call needs the microphone: a session's audio stream, a WebRTC track to send, a remote track.\<close>

datatype call_kind = AttachWebSocket nat | PrepareWebRtc | AttachRemote

text \<open>
  What a call waits for: the core promise (the caller that created it cleans up when it fails), its turn
  after it has settled, the close of the context in that clean-up, the worklet module, the resumption of the
  context, and in \<open>close\<close> the capture and playback tasks and then the context.
\<close>

datatype device_call =
    OnCore call_kind bool
  | CoreOver call_kind bool "unit result"
  | CleaningUp call_kind thrown
  | OnModule nat
  | OnRemoteResume
  | Closing
  | ClosingContext

datatype core_state = CoreIdle | CoreMedia | CoreResume | CoreSettled "unit result"

datatype device_event = StateChanged device_state | ErrorReported thrown

record device =
  dv_config :: device_config
  dv_state :: device_state
  dv_abort :: "thrown option"
  dv_core :: core_state
  dv_stream :: "nat option"
  dv_ownsStream :: bool
  dv_context :: "js_number option"
  dv_ownsContext :: bool
  dv_nodes :: bool
  dv_remoteSource :: bool
  dv_remoteProbe :: "nat option"
  dv_audio :: "nat option"
  dv_player :: player
  dv_capture :: "capture option"
  dv_calls :: "(nat \<times> device_call) list"
  dv_results :: "(nat \<times> unit result) list"
  dv_log :: "device_event list"
  dv_microphone :: bool
  dv_contextOpen :: bool
  dv_probes :: "nat list"
  dv_nextProbe :: nat

definition device_closed :: thrown where
  "device_closed = session_error ''closed'' ''browser audio device is closed''"

definition mediaFailure :: "thrown \<Rightarrow> thrown" where
  "mediaFailure e =
     (if session_code e \<noteq> None then e
      else case e of
        DOMException name _ \<Rightarrow>
          if name = ''NotAllowedError'' \<or> name = ''SecurityError''
          then SessionError ''media_permission'' ''microphone access was denied; grant permission from a secure browser context'' (Some e)
          else if name = ''NotFoundError'' \<or> name = ''OverconstrainedError''
          then SessionError ''media_device'' ''no microphone matches the requested constraints'' (Some e)
          else asSessionError e ''media_device''
      | _ \<Rightarrow> asSessionError e ''media_device'')"

definition new_device :: "device_config \<Rightarrow> device result" where
  "new_device cfg =
     (let capacity = (case dc_playbackBufferMs cfg of None \<Rightarrow> jsInt 500 | Some c \<Rightarrow> c) in
      if \<not> isSafeInteger capacity \<or> num_less capacity (jsInt 20) \<or> num_less (jsInt 10000) capacity
      then Inl (session_error ''configuration'' ''playback buffer must be between 20ms and 10s'')
      else Inr \<lparr>dv_config = cfg, dv_state = DevInactive, dv_abort = None, dv_core = CoreIdle, dv_stream = None, dv_ownsStream = False,
        dv_context = None, dv_ownsContext = False, dv_nodes = False, dv_remoteSource = False, dv_remoteProbe = None, dv_audio = None,
        dv_player = \<lparr>pl_sampleRate = None, pl_capacityMs = nat \<lfloor>the (num_value capacity)\<rfloor>, pl_buffered = 0, pl_generation = 0,
          pl_playedSdkSamples = 0, pl_playbackFrames = 0, pl_resampler = None, pl_phase = PlayIdle, pl_outbox = []\<rparr>,
        dv_capture = None, dv_calls = [], dv_results = [], dv_log = [], dv_microphone = False, dv_contextOpen = False,
        dv_probes = [], dv_nextProbe = 0\<rparr>)"

definition setState :: "device_state \<Rightarrow> device \<Rightarrow> device" where
  "setState s d = (if dv_state d = s then d else d\<lparr>dv_state := s, dv_log := dv_log d @ [StateChanged s]\<rparr>)"

definition device_fail :: "thrown \<Rightarrow> device \<Rightarrow> device" where
  "device_fail e d = (let d1 = (if dv_state d \<noteq> DevClosed then setState DevFailed d else d)
     in d1\<lparr>dv_log := dv_log d1 @ [ErrorReported e]\<rparr>)"

definition set_call :: "nat \<Rightarrow> device_call \<Rightarrow> device \<Rightarrow> device" where
  "set_call n c d = d\<lparr>dv_calls := filter (\<lambda>x. fst x \<noteq> n) (dv_calls d) @ [(n, c)]\<rparr>"

definition settle_call :: "nat \<Rightarrow> unit result \<Rightarrow> device \<Rightarrow> device" where
  "settle_call n r d = d\<lparr>dv_calls := filter (\<lambda>x. fst x \<noteq> n) (dv_calls d), dv_results := dv_results d @ [(n, r)]\<rparr>"

definition call_of :: "nat \<Rightarrow> device \<Rightarrow> device_call option" where
  "call_of n d = map_of (dv_calls d) n"

definition set_context :: "js_number \<Rightarrow> bool \<Rightarrow> device \<Rightarrow> device" where
  "set_context rate owned d = d\<lparr>dv_context := Some rate, dv_ownsContext := dv_ownsContext d \<or> owned,
     dv_contextOpen := dv_contextOpen d \<or> owned, dv_player := (dv_player d)\<lparr>pl_sampleRate := Some rate\<rparr>\<rparr>"

section \<open>The core\<close>

text \<open>A call that fails in its \<open>try\<close> block reports the failure; \<open>attachRemoteTrack\<close> has none.\<close>

definition call_failed :: "nat \<Rightarrow> call_kind \<Rightarrow> thrown \<Rightarrow> device \<Rightarrow> device" where
  "call_failed n kind e d =
     (case kind of
        AttachRemote \<Rightarrow> settle_call n (Inl e) d
      | _ \<Rightarrow> settle_call n (Inl (mediaFailure e)) (device_fail (mediaFailure e) d))"

definition core_over :: "unit result \<Rightarrow> device_call \<Rightarrow> device_call" where
  "core_over r c = (case c of OnCore kind owner \<Rightarrow> CoreOver kind owner r | _ \<Rightarrow> c)"

definition core_settle :: "unit result \<Rightarrow> device \<Rightarrow> device" where
  "core_settle r d = d\<lparr>dv_core := CoreSettled r, dv_calls := map (\<lambda>(n, c). (n, core_over r c)) (dv_calls d)\<rparr>"

text \<open>The core promise once it has the stream; \<open>ctx\<close> is what creating a context gives.\<close>

definition core_stream :: "signal \<Rightarrow> js_number result \<Rightarrow> nat \<Rightarrow> device \<Rightarrow> device" where
  "core_stream sig ctx tracks d =
     (case throwIfAborted sig of
        Inl e \<Rightarrow> core_settle (Inl e) d
      | Inr _ \<Rightarrow>
          if tracks \<noteq> 1 then core_settle (Inl (session_error ''media_device'' ''microphone stream must contain exactly one audio track'')) d
          else (case dc_audioContext (dv_config d) of
              Some rate \<Rightarrow> (set_context rate False d)\<lparr>dv_core := CoreResume\<rparr>
            | None \<Rightarrow> (case ctx of
                  Inl e \<Rightarrow> core_settle (Inl e) d
                | Inr rate \<Rightarrow> (set_context rate True d)\<lparr>dv_core := CoreResume\<rparr>)))"

definition ensureCore :: "nat \<Rightarrow> call_kind \<Rightarrow> signal \<Rightarrow> js_number result \<Rightarrow> device \<Rightarrow> device" where
  "ensureCore n kind sig ctx d =
     (case throwIfAborted sig of
        Inl e \<Rightarrow> call_failed n kind e d
      | Inr _ \<Rightarrow>
          if dv_state d = DevClosed then call_failed n kind device_closed d
          else (case dv_core d of
              CoreSettled r \<Rightarrow> set_call n (CoreOver kind False r) d
            | CoreIdle \<Rightarrow>
                (let d1 = set_call n (OnCore kind True) (setState DevStarting d) in
                 case dc_stream (dv_config d) of
                   Some tracks \<Rightarrow> core_stream sig ctx tracks (d1\<lparr>dv_stream := Some tracks\<rparr>)
                 | None \<Rightarrow> d1\<lparr>dv_core := CoreMedia\<rparr>)
            | _ \<Rightarrow> set_call n (OnCore kind False) d))"

text \<open>\<open>getUserMedia\<close> settles; \<open>sig\<close> is the signal of the call that created the core promise.\<close>

definition device_media :: "nat result \<Rightarrow> signal \<Rightarrow> js_number result \<Rightarrow> device \<Rightarrow> device" where
  "device_media r sig ctx d =
     (if dv_core d \<noteq> CoreMedia then d
      else (case r of
          Inl e \<Rightarrow> core_settle (Inl e) d
        | Inr tracks \<Rightarrow> core_stream sig ctx tracks (d\<lparr>dv_stream := Some tracks, dv_ownsStream := True, dv_microphone := True\<rparr>)))"

definition device_resumed :: "unit result \<Rightarrow> device \<Rightarrow> device" where
  "device_resumed r d =
     (if dv_core d \<noteq> CoreResume then d
      else core_settle (case r of
          Inl e \<Rightarrow> Inl (SessionError ''media_autoplay'' ''browser blocked audio startup; call the adapter from a user gesture'' (Some e))
        | Inr _ \<Rightarrow> Inr ()) d)"

definition stop_stream :: "device \<Rightarrow> device" where
  "stop_stream d = (if dv_ownsStream d then d\<lparr>dv_microphone := False\<rparr> else d)"

section \<open>Attaching\<close>

text \<open>\<open>#startWorklets\<close> up to the module; \<open>hasWorklet\<close> and \<open>created\<close> are what the browser offers.\<close>

definition startWorklets :: "nat \<Rightarrow> nat \<Rightarrow> bool \<Rightarrow> string result \<Rightarrow> device \<Rightarrow> device" where
  "startWorklets n audio hasWorklet created d =
     (case bindR (guardR (dv_context d \<noteq> None) (session_error ''media_device'' ''AudioContext is not initialized'')) (\<lambda>_.
           bindR (guardR hasWorklet (session_error ''media_worklet'' ''this browser does not expose AudioWorklet'')) (\<lambda>_.
           bindR (case dc_workletModuleUrl (dv_config d) of Some url \<Rightarrow> Inr url | None \<Rightarrow> created) (\<lambda>url.
           guardR (url \<noteq> []) (session_error ''media_worklet'' ''AudioWorklet module URL must not be empty'')))) of
        Inl e \<Rightarrow> call_failed n (AttachWebSocket audio) e d
      | Inr _ \<Rightarrow> set_call n (OnModule audio) d)"

definition attach_done :: "nat \<Rightarrow> nat \<Rightarrow> device \<Rightarrow> device" where
  "attach_done n audio d = settle_call n (Inr ()) (setState DevActive (d\<lparr>dv_audio := Some audio\<rparr>))"

definition abort_signal :: "device \<Rightarrow> signal" where
  "abort_signal d = (case dv_abort d of None \<Rightarrow> LiveSignal 0 | Some e \<Rightarrow> AbortedSignal e)"

text \<open>\<open>#startWorklets\<close> after the module: nodes, resamplers, the playback task; then the end of \<open>attachWebSocket\<close>.\<close>

definition module_loaded :: "nat \<Rightarrow> unit result \<Rightarrow> device \<Rightarrow> device" where
  "module_loaded n r d =
     (case call_of n d of
        Some (OnModule audio) \<Rightarrow>
          (case r of
             Inl e \<Rightarrow> call_failed n (AttachWebSocket audio)
               (SessionError ''media_worklet'' ''AudioWorklet module loading failed; provide workletModuleUrl-compatible CSP policy'' (Some e)) d
           | Inr _ \<Rightarrow>
               (let d1 = d\<lparr>dv_nodes := True\<rparr>; rate = the (dv_context d) in
                case bindR (new_resampler rate (Fin 8000)) (\<lambda>c. bindR (new_resampler (Fin 8000) rate) (\<lambda>p. Inr (c, p))) of
                  Inl e \<Rightarrow> call_failed n (AttachWebSocket audio) e d1
                | Inr (c, p) \<Rightarrow>
                    attach_done n audio (d1\<lparr>dv_capture := Some (new_capture c), dv_audio := Some audio,
                      dv_player := play_loop (abort_signal d) ((dv_player d)\<lparr>pl_resampler := Some p\<rparr>)\<rparr>)))
      | _ \<Rightarrow> d)"

definition attach_remote :: "nat \<Rightarrow> device \<Rightarrow> device" where
  "attach_remote n d =
     (if dv_context d = None then settle_call n (Inl (session_error ''media_device'' ''AudioContext is not initialized'')) d
      else set_call n OnRemoteResume (d\<lparr>dv_remoteSource := True, dv_remoteProbe := Some (dv_nextProbe d),
             dv_probes := dv_probes d @ [dv_nextProbe d], dv_nextProbe := dv_nextProbe d + 1\<rparr>))"

definition core_ready :: "nat \<Rightarrow> call_kind \<Rightarrow> bool \<Rightarrow> string result \<Rightarrow> device \<Rightarrow> device" where
  "core_ready n kind hasWorklet created d =
     (case kind of
        AttachWebSocket audio \<Rightarrow> if dv_nodes d then attach_done n audio d else startWorklets n audio hasWorklet created d
      | PrepareWebRtc \<Rightarrow>
          if dv_stream d = None \<or> dv_stream d = Some 0
          then call_failed n kind (session_error ''media_device'' ''microphone stream has no audio track'') d
          else settle_call n (Inr ()) (setState DevActive d)
      | AttachRemote \<Rightarrow> attach_remote n d)"

text \<open>The turn of a call after the core promise has settled.\<close>

definition call_continue :: "nat \<Rightarrow> bool \<Rightarrow> string result \<Rightarrow> device \<Rightarrow> device" where
  "call_continue n hasWorklet created d =
     (case call_of n d of
        Some (CoreOver kind owner (Inr _)) \<Rightarrow> core_ready n kind hasWorklet created d
      | Some (CoreOver kind True (Inl e)) \<Rightarrow>
          (let d1 = stop_stream d in
           if dv_ownsContext d1 then set_call n (CleaningUp kind e) d1
           else call_failed n kind e (d1\<lparr>dv_core := CoreIdle\<rparr>))
      | Some (CoreOver kind False (Inl e)) \<Rightarrow> call_failed n kind e d
      | _ \<Rightarrow> d)"

definition cleaned_up :: "nat \<Rightarrow> device \<Rightarrow> device" where
  "cleaned_up n d =
     (case call_of n d of
        Some (CleaningUp kind e) \<Rightarrow> call_failed n kind e (d\<lparr>dv_core := CoreIdle, dv_contextOpen := False\<rparr>)
      | _ \<Rightarrow> d)"

definition attachWebSocket :: "nat \<Rightarrow> nat \<Rightarrow> media_format option \<Rightarrow> signal \<Rightarrow> js_number result \<Rightarrow> device \<Rightarrow> device" where
  "attachWebSocket n audio format sig ctx d =
     (case bindR (throwIfAborted sig) (\<lambda>_.
           bindR (guardR (dv_audio d = None \<or> dv_audio d = Some audio) (session_error ''media_duplicate'' ''browser audio device is already attached'')) (\<lambda>_.
           case format of
             None \<Rightarrow> Inl (session_error ''media_unbound'' ''session audio is not negotiated'')
           | Some f \<Rightarrow> bindR (profileMediaFormat PROFILE_RTVBP_V1 ''audio'') (\<lambda>own.
               guardR (sameMediaFormat f own) (session_error ''media_format'' ''browser WebSocket audio requires L16/8000/16-bit/mono/20ms'')))) of
        Inl e \<Rightarrow> settle_call n (Inl e) d
      | Inr _ \<Rightarrow> ensureCore n (AttachWebSocket audio) sig ctx d)"

definition prepareWebRtc :: "nat \<Rightarrow> signal \<Rightarrow> js_number result \<Rightarrow> device \<Rightarrow> device" where
  "prepareWebRtc n sig ctx d = ensureCore n PrepareWebRtc sig ctx d"

definition attachRemoteTrack :: "nat \<Rightarrow> string \<Rightarrow> js_number result \<Rightarrow> device \<Rightarrow> device" where
  "attachRemoteTrack n kind ctx d =
     (if kind \<noteq> ''audio'' then settle_call n (Inl (session_error ''media_channel'' ''remote WebRTC track is not audio'')) d
      else ensureCore n AttachRemote NoSignal ctx d)"

definition remote_resumed :: "nat \<Rightarrow> unit result \<Rightarrow> device \<Rightarrow> device" where
  "remote_resumed n r d =
     (case call_of n d of
        Some OnRemoteResume \<Rightarrow>
          settle_call n (case r of
              Inl e \<Rightarrow> Inl (SessionError ''media_autoplay'' ''browser blocked audio playback; resume it from a user gesture'' (Some e))
            | Inr _ \<Rightarrow> Inr ()) d
      | _ \<Rightarrow> d)"

definition detachRemoteTrack :: "device \<Rightarrow> device" where
  "detachRemoteTrack d =
     d\<lparr>dv_probes := (case dv_remoteProbe d of None \<Rightarrow> dv_probes d | Some p \<Rightarrow> filter (\<lambda>q. q \<noteq> p) (dv_probes d)),
       dv_remoteProbe := None, dv_remoteSource := False\<rparr>"

section \<open>Closing\<close>

definition device_clear :: "nat \<Rightarrow> device \<Rightarrow> int \<times> device" where
  "device_clear audioBytes d =
     (case clearPlayback audioBytes (dv_nodes d) (dv_player d) of (n, p) \<Rightarrow> (n, d\<lparr>dv_player := p\<rparr>))"

definition device_close :: "nat \<Rightarrow> nat \<Rightarrow> device \<Rightarrow> device" where
  "device_close n audioBytes d =
     (if dv_state d = DevClosed then settle_call n (Inr ()) d
      else (let d1 = d\<lparr>dv_abort := Some (case dv_abort d of None \<Rightarrow> device_closed | Some e \<Rightarrow> e)\<rparr>;
                d2 = (if dv_abort d = None then d1\<lparr>dv_player := play_abort device_closed (dv_player d1)\<rparr> else d1);
                d3 = detachRemoteTrack (snd (device_clear audioBytes d2))
            in set_call n Closing d3))"

text \<open>The capture and playback tasks are over.\<close>

definition close_drained :: "nat \<Rightarrow> device \<Rightarrow> device" where
  "close_drained n d =
     (case (call_of n d, pl_phase (dv_player d)) of
        (Some Closing, phase) \<Rightarrow>
          if (case phase of PlayIdle \<Rightarrow> True | PlayEnded _ \<Rightarrow> True | _ \<Rightarrow> False)
          then (let d1 = stop_stream d in
                if dv_ownsContext d1 then set_call n ClosingContext d1
                else settle_call n (Inr ()) (setState DevClosed d1))
          else d
      | _ \<Rightarrow> d)"

definition close_done :: "nat \<Rightarrow> device \<Rightarrow> device" where
  "close_done n d =
     (case call_of n d of
        Some ClosingContext \<Rightarrow> settle_call n (Inr ()) (setState DevClosed (d\<lparr>dv_contextOpen := False\<rparr>))
      | _ \<Rightarrow> d)"

section \<open>Capture and playback\<close>

text \<open>The message listener of the capture node, with the report of a failed link of the chain.\<close>

definition device_capture :: "nat \<Rightarrow> (8 word list \<Rightarrow> unit result) \<Rightarrow> js_number list \<Rightarrow> device \<Rightarrow> device" where
  "device_capture fuel write xs d =
     (case dv_capture d of
        None \<Rightarrow> d
      | Some c \<Rightarrow>
          (let c1 = capture_message fuel (dv_abort d \<noteq> None) write xs c; d1 = d\<lparr>dv_capture := Some c1\<rparr> in
           case cp_tail c1 of Inl e \<Rightarrow> device_fail (asSessionError e ''media_capture'') d1 | Inr _ \<Rightarrow> d1))"

text \<open>A step of the playback task; when it fails, and the device has not been closed, the failure is reported.\<close>

definition device_play :: "(player \<Rightarrow> player) \<Rightarrow> device \<Rightarrow> device" where
  "device_play f d =
     (let q = f (dv_player d); d1 = d\<lparr>dv_player := q\<rparr> in
      case (pl_phase (dv_player d), pl_phase q) of
        (PlayEnded _, _) \<Rightarrow> d1
      | (_, PlayEnded (Inl e)) \<Rightarrow> if dv_abort d = None then device_fail (asSessionError e ''media_playback'') d1 else d1
      | _ \<Rightarrow> d1)"

end
