(* ===== verification/Browser_Device_Runs.thy ===== *)
theory Browser_Device_Runs
  imports Browser_Device
begin

text \<open>
  Runs of a \<open>BrowserAudioDevice\<close>: calls of its methods and the promises of the browser settle in any order.
  A device that is closed while nothing starts stays closed with the microphone off, and one that is
  closed while \<open>prepareWebRtc\<close> acquires the microphone comes back to life.
\<close>

section \<open>Runs\<close>

datatype device_op =
    DoAttach nat nat "media_format option" signal "js_number result"
  | DoPrepare nat signal "js_number result"
  | DoAttachRemote nat string "js_number result"
  | DoMedia "nat result" signal "js_number result"
  | DoResumed "unit result"
  | DoContinue nat bool "string result"
  | DoCleaned nat
  | DoModule nat "unit result"
  | DoRemoteResumed nat "unit result"
  | DoDetach
  | DoClear nat
  | DoCapture nat "8 word list \<Rightarrow> unit result" "js_number list"
  | DoRead nat "8 word list result"
  | DoWoken
  | DoConsumed int
  | DoClose nat nat
  | DoDrained nat
  | DoContextClosed nat

fun device_step :: "device \<Rightarrow> device_op \<Rightarrow> device" where
  "device_step d (DoAttach n a f sig ctx) = attachWebSocket n a f sig ctx d"
| "device_step d (DoPrepare n sig ctx) = prepareWebRtc n sig ctx d"
| "device_step d (DoAttachRemote n kind ctx) = attachRemoteTrack n kind ctx d"
| "device_step d (DoMedia r sig ctx) = device_media r sig ctx d"
| "device_step d (DoResumed r) = device_resumed r d"
| "device_step d (DoContinue n w u) = call_continue n w u d"
| "device_step d (DoCleaned n) = cleaned_up n d"
| "device_step d (DoModule n r) = module_loaded n r d"
| "device_step d (DoRemoteResumed n r) = remote_resumed n r d"
| "device_step d DoDetach = detachRemoteTrack d"
| "device_step d (DoClear n) = snd (device_clear n d)"
| "device_step d (DoCapture fuel write xs) = device_capture fuel write xs d"
| "device_step d (DoRead fuel r) = device_play (play_read fuel (abort_signal d) r) d"
| "device_step d DoWoken = device_play (play_resume (abort_signal d)) d"
| "device_step d (DoConsumed n) = d\<lparr>dv_player := playback_consumed n (dv_player d)\<rparr>"
| "device_step d (DoClose n k) = device_close n k d"
| "device_step d (DoDrained n) = close_drained n d"
| "device_step d (DoContextClosed n) = close_done n d"

definition run_device :: "device \<Rightarrow> device_op list \<Rightarrow> device" where
  "run_device d ops = foldl device_step d ops"

lemmas device_defs = attachWebSocket_def prepareWebRtc_def attachRemoteTrack_def ensureCore_def core_stream_def call_failed_def device_fail_def
  settle_call_def set_call_def setState_def device_media_def device_resumed_def call_continue_def core_ready_def startWorklets_def
  attach_done_def attach_remote_def cleaned_up_def module_loaded_def remote_resumed_def detachRemoteTrack_def device_clear_def
  device_close_def close_drained_def close_done_def core_settle_def set_context_def stop_stream_def

text \<open>Capture and playback leave alone what the device acquires; a failure does not reopen a closed device.\<close>

lemma fail_same [simp]:
  "dv_calls (device_fail e d) = dv_calls d" "dv_core (device_fail e d) = dv_core d" "dv_microphone (device_fail e d) = dv_microphone d"
  "dv_contextOpen (device_fail e d) = dv_contextOpen d" "dv_state d = DevClosed \<Longrightarrow> dv_state (device_fail e d) = DevClosed"
  by (simp_all add: device_fail_def setState_def Let_def)

lemma streams_same [simp]:
  "dv_calls (device_capture fuel write xs d) = dv_calls d" "dv_calls (device_play f d) = dv_calls d"
  "dv_core (device_capture fuel write xs d) = dv_core d" "dv_core (device_play f d) = dv_core d"
  "dv_microphone (device_capture fuel write xs d) = dv_microphone d" "dv_microphone (device_play f d) = dv_microphone d"
  "dv_contextOpen (device_capture fuel write xs d) = dv_contextOpen d" "dv_contextOpen (device_play f d) = dv_contextOpen d"
  "dv_state d = DevClosed \<Longrightarrow> dv_state (device_capture fuel write xs d) = DevClosed"
  "dv_state d = DevClosed \<Longrightarrow> dv_state (device_play f d) = DevClosed"
  by (simp_all add: device_capture_def device_play_def Let_def split: option.split sum.split play_phase.split)

section \<open>Closed devices\<close>

definition core_starting :: "core_state \<Rightarrow> bool" where
  "core_starting c \<longleftrightarrow> c = CoreMedia \<or> c = CoreResume"

text \<open>A device acquires only what it owns.\<close>

definition owns_ok :: "device \<Rightarrow> bool" where
  "owns_ok d \<longleftrightarrow> (dv_microphone d \<longrightarrow> dv_ownsStream d) \<and> (dv_contextOpen d \<longrightarrow> dv_ownsContext d)"

lemma owns_same [simp]:
  "owns_ok (settle_call n r d) = owns_ok d" "owns_ok (set_call n c d) = owns_ok d" "owns_ok (setState s d) = owns_ok d"
  "owns_ok (device_fail e d) = owns_ok d" "owns_ok (core_settle r d) = owns_ok d"
  "owns_ok (d\<lparr>dv_core := cs\<rparr>) = owns_ok d" "owns_ok (d\<lparr>dv_player := p\<rparr>) = owns_ok d" "owns_ok (d\<lparr>dv_stream := m\<rparr>) = owns_ok d"
  "owns_ok (d\<lparr>dv_audio := a\<rparr>) = owns_ok d" "owns_ok (d\<lparr>dv_capture := k\<rparr>) = owns_ok d" "owns_ok (d\<lparr>dv_nodes := b\<rparr>) = owns_ok d"
  "owns_ok (d\<lparr>dv_abort := x\<rparr>) = owns_ok d"
  by (simp_all add: owns_ok_def settle_call_def set_call_def setState_def device_fail_def core_settle_def Let_def)

lemma owns_call_failed [simp]: "owns_ok (call_failed n kind e d) = owns_ok d"
  by (simp add: call_failed_def split: call_kind.split)

lemma owns_context [simp]: "owns_ok d \<Longrightarrow> owns_ok (set_context rate b d)"
  by (auto simp: owns_ok_def set_context_def)

lemma owns_stop [simp]: "owns_ok d \<Longrightarrow> owns_ok (stop_stream d)"
  by (auto simp: owns_ok_def stop_stream_def)

lemma owns_core_stream [simp]: "owns_ok d \<Longrightarrow> owns_ok (core_stream sig ctx tracks d)"
  by (simp add: core_stream_def split: sum.split option.split)

lemma owns_ensureCore [simp]: "owns_ok d \<Longrightarrow> owns_ok (ensureCore n kind sig ctx d)"
  by (simp add: ensureCore_def Let_def split: sum.split option.split core_state.split)

lemma owns_detach [simp]: "owns_ok (detachRemoteTrack d) = owns_ok d"
  by (simp add: owns_ok_def detachRemoteTrack_def)

lemma owns_clear [simp]: "owns_ok (snd (device_clear n d)) = owns_ok d"
  by (simp add: owns_ok_def device_clear_def split: prod.split)

lemma owns_core_ready [simp]: "owns_ok d \<Longrightarrow> owns_ok (core_ready n kind w u d)"
  by (simp add: core_ready_def startWorklets_def attach_done_def attach_remote_def split: call_kind.split sum.split)
    (simp add: owns_ok_def)

lemma owns_continue [simp]: "owns_ok d \<Longrightarrow> owns_ok (call_continue n w u d)"
  by (simp add: call_continue_def Let_def split: option.split device_call.split sum.split bool.split)

lemma owns_module [simp]: "owns_ok d \<Longrightarrow> owns_ok (module_loaded n r d)"
  by (simp add: module_loaded_def attach_done_def Let_def split: option.split device_call.split sum.split prod.split)

lemma owns_closing [simp]:
  "owns_ok d \<Longrightarrow> owns_ok (device_close n k d)" "owns_ok d \<Longrightarrow> owns_ok (close_drained n d)" "owns_ok d \<Longrightarrow> owns_ok (close_done n d)"
  "owns_ok d \<Longrightarrow> owns_ok (cleaned_up n d)"
  by (simp_all add: device_close_def close_drained_def close_done_def cleaned_up_def Let_def split: option.split device_call.split)
    (simp_all add: owns_ok_def)

lemma owns_media [simp]: "owns_ok d \<Longrightarrow> owns_ok (device_media r sig ctx d)"
proof -
  assume "owns_ok d"
  then have "owns_ok (d\<lparr>dv_stream := Some t, dv_ownsStream := True, dv_microphone := True\<rparr>)" for t by (simp add: owns_ok_def)
  then show ?thesis using \<open>owns_ok d\<close> by (simp add: device_media_def split: sum.split)
qed

lemma owns_streams [simp]: "owns_ok (device_capture fuel write xs d) = owns_ok d" "owns_ok (device_play f d) = owns_ok d"
  by (simp_all add: device_capture_def device_play_def Let_def split: option.split sum.split play_phase.split)

lemma owns_step: "owns_ok d \<Longrightarrow> owns_ok (device_step d x)"
  by (cases x) (simp_all add: attachWebSocket_def prepareWebRtc_def attachRemoteTrack_def device_resumed_def remote_resumed_def
      split: sum.split option.split device_call.split)

lemma new_device_owns: "new_device cfg = Inr d \<Longrightarrow> owns_ok d"
  by (auto simp: new_device_def owns_ok_def Let_def split: if_splits)

lemma run_device_owns: "owns_ok d \<Longrightarrow> owns_ok (run_device d xs)"
  unfolding run_device_def by (induction xs arbitrary: d) (auto simp: owns_step simp del: device_step.simps)

definition released :: "device \<Rightarrow> bool" where
  "released d \<longleftrightarrow> dv_state d = DevClosed \<and> dv_calls d = [] \<and> \<not> core_starting (dv_core d) \<and> \<not> dv_microphone d \<and> \<not> dv_contextOpen d"

lemma released_step: "released d \<Longrightarrow> released (device_step d x)"
  by (cases x) (auto simp: released_def core_starting_def call_of_def device_defs Let_def split: sum.splits option.splits call_kind.splits prod.splits)

lemma run_device_released: "released d \<Longrightarrow> released (run_device d xs)"
  unfolding run_device_def by (induction xs arbitrary: d) (auto simp: released_step simp del: device_step.simps)

text \<open>The operations that start a call.\<close>

definition starts :: "device_op \<Rightarrow> bool" where
  "starts x \<longleftrightarrow> (case x of DoAttach _ _ _ _ _ \<Rightarrow> True | DoPrepare _ _ _ \<Rightarrow> True | DoAttachRemote _ _ _ \<Rightarrow> True | DoClose _ _ \<Rightarrow> True | _ \<Rightarrow> False)"

text \<open>A device on its way to being closed with nothing else under way.\<close>

definition winding_down :: "nat \<Rightarrow> device \<Rightarrow> bool" where
  "winding_down n d \<longleftrightarrow> owns_ok d \<and> \<not> core_starting (dv_core d) \<and>
     (dv_calls d = [(n, Closing)]
      \<or> dv_calls d = [(n, ClosingContext)] \<and> \<not> dv_microphone d
      \<or> released d)"

lemma winding_down_step:
  assumes "winding_down n d" "\<not> starts x"
  shows "winding_down n (device_step d x)"
proof -
  have own: "owns_ok (device_step d x)" using assms(1) owns_step by (simp add: winding_down_def)
  consider "dv_calls d = [(n, Closing)]" | "dv_calls d = [(n, ClosingContext)]" "\<not> dv_microphone d" | "released d"
    using assms(1) by (auto simp: winding_down_def)
  then show ?thesis
  proof cases
    case 1
    then show ?thesis using assms own unfolding winding_down_def
      by (cases x) (auto simp: released_def core_starting_def starts_def owns_ok_def call_of_def device_defs Let_def
          split: sum.splits option.splits play_phase.splits prod.splits if_splits)
  next
    case 2
    then show ?thesis using assms own unfolding winding_down_def
      by (cases x) (auto simp: released_def core_starting_def starts_def owns_ok_def call_of_def device_defs Let_def
          split: sum.splits option.splits play_phase.splits prod.splits if_splits)
  next
    case 3
    then show ?thesis using own released_step [OF 3] by (auto simp: winding_down_def released_def)
  qed
qed

lemma run_winding_down: "winding_down n d \<Longrightarrow> \<not> list_ex starts xs \<Longrightarrow> winding_down n (run_device d xs)"
  unfolding run_device_def by (induction xs arbitrary: d) (auto simp: winding_down_step simp del: device_step.simps)

text \<open>
  Claim C29.  Closing releases the microphone and the audio context for good: when \<open>close\<close> is called while no other
  call is under way and the microphone is not being acquired, and no call starts before it has settled, then
  from that moment on, whatever is called and whatever the browser reports, the device is closed, the
  microphone and the context it acquired are off, and nothing is under way.
\<close>

theorem closed_device_stays_closed:
  assumes "new_device cfg = Inr d0" "d = run_device d0 xs" "dv_calls d = []" "\<not> core_starting (dv_core d)" "dv_state d \<noteq> DevClosed"
    and "e = run_device d (DoClose n k # ys)" "\<not> list_ex starts ys" "dv_calls e = []"
  shows "released (run_device e zs)"
proof -
  have own: "owns_ok d" using run_device_owns [OF new_device_owns [OF assms(1)]] assms(2) by simp
  let ?c = "device_step d (DoClose n k)"
  have "owns_ok ?c" using own by (rule owns_step)
  moreover have "dv_calls ?c = [(n, Closing)]" "dv_core ?c = dv_core d"
    using assms(3,5) by (auto simp: device_defs Let_def split: prod.splits)
  ultimately have "winding_down n ?c" using assms(4) by (simp add: winding_down_def)
  moreover have "e = run_device ?c ys" using assms(6) by (simp add: run_device_def)
  ultimately have "winding_down n e" using run_winding_down assms(7) by blast
  then have "released e" using assms(8) by (auto simp: winding_down_def)
  then show ?thesis by (rule run_device_released)
qed

section \<open>Closing too early\<close>

definition plain_config :: device_config where
  "plain_config = \<lparr>dc_stream = None, dc_audioContext = None, dc_playbackBufferMs = None, dc_workletModuleUrl = None\<rparr>"

definition plain_device :: device where
  "plain_device = projr (new_device plain_config)"

lemma plain_device: "new_device plain_config = Inr plain_device"
proof -
  have "isl (new_device plain_config) = False" by code_simp
  then show ?thesis by (simp add: plain_device_def)
qed

text \<open>The call \<open>n\<close> of \<open>prepareWebRtc\<close> has asked for the microphone and the browser has not answered yet.\<close>

definition awaits_microphone :: "nat \<Rightarrow> device \<Rightarrow> bool" where
  "awaits_microphone n d \<longleftrightarrow> dv_core d = CoreMedia \<and> call_of n d = Some (OnCore PrepareWebRtc True)"

lemma map_of_filter_other: "n \<noteq> k \<Longrightarrow> map_of (filter (\<lambda>x. fst x \<noteq> k) xs) n = map_of xs n"
  by (induction xs) auto

lemma map_of_filter_same: "map_of (filter (\<lambda>x. fst x \<noteq> k) xs) k = None"
  by (induction xs) auto

lemma map_of_core_over: "map_of (map (\<lambda>(n, c). (n, core_over r c)) cs) n = map_option (core_over r) (map_of cs n)"
  by (induction cs) auto

text \<open>\<open>close\<close> settles while the browser has not answered: it does not see the request for the microphone.\<close>

lemma close_while_awaiting:
  assumes "awaits_microphone n d" "dv_state d \<noteq> DevClosed" "\<not> dv_ownsContext d" "pl_phase (dv_player d) = PlayIdle" "k \<noteq> n"
  shows "let c = run_device d [DoClose k b, DoDrained k]
    in dv_state c = DevClosed \<and> (k, Inr ()) \<in> set (dv_results c) \<and> awaits_microphone n c"
proof -
  let ?c = "device_close k b d"
  have c: "call_of k ?c = Some Closing" "call_of n ?c = call_of n d" "dv_ownsContext ?c = dv_ownsContext d" "dv_core ?c = dv_core d"
    "pl_phase (dv_player ?c) = PlayIdle" "dv_state ?c \<noteq> DevClosed"
    using assms(2,4,5)
    by (auto simp: device_close_def set_call_def call_of_def detachRemoteTrack_def device_clear_def clearPlayback_def wakeCapacityWaiters_def
        play_abort_def map_add_def map_of_filter_other map_of_filter_same Let_def split: option.splits play_phase.splits)
  then show ?thesis
    using assms(1,3,5)
    by (auto simp: run_device_def close_drained_def awaits_microphone_def settle_call_def setState_def stop_stream_def call_of_def
        map_of_filter_other Let_def)
qed

lemma microphone_arrives:
  assumes "awaits_microphone n c" "dv_state c = DevClosed" "throwIfAborted sig = Inr ()"
  shows "let m = device_step c (DoMedia (Inr 1) sig (Inr rate)) in dv_state m = DevClosed \<and> dv_microphone m
    \<and> (let e = run_device m [DoResumed (Inr ()), DoContinue n w u] in dv_state e = DevActive \<and> dv_microphone e \<and> (n, Inr ()) \<in> set (dv_results e))"
proof -
  let ?m = "device_media (Inr 1) sig (Inr rate) c"
  have m: "dv_core ?m = CoreResume" "dv_microphone ?m" "dv_state ?m = DevClosed" "dv_calls ?m = dv_calls c" "dv_stream ?m = Some 1"
    using assms by (auto simp: awaits_microphone_def device_media_def core_stream_def set_context_def split: option.split)
  let ?r = "device_resumed (Inr ()) ?m"
  have over: "core_over (Inr ()) (OnCore PrepareWebRtc True) = CoreOver PrepareWebRtc True (Inr ())" by (simp add: core_over_def)
  have r: "call_of n ?r = Some (CoreOver PrepareWebRtc True (Inr ()))" "dv_microphone ?r" "dv_stream ?r = Some 1" "dv_state ?r = DevClosed"
    using m assms(1)
    by (simp_all add: device_resumed_def core_settle_def call_of_def map_of_core_over awaits_microphone_def over)
  have e: "call_continue n w u ?r = settle_call n (Inr ()) (setState DevActive ?r)"
    using r by (simp add: call_continue_def core_ready_def)
  have "dv_state (call_continue n w u ?r) = DevActive \<and> dv_microphone (call_continue n w u ?r) \<and> (n, Inr ()) \<in> set (dv_results (call_continue n w u ?r))"
    unfolding e using r(2,4) by (simp add: settle_call_def setState_def)
  then show ?thesis using m(2,3) by (simp add: run_device_def Let_def)
qed

text \<open>
  Claim C30.  Closing a device while the microphone is being acquired does not last.  Take any device that is not closed,
  has no context of its own and has not played yet, and on which \<open>prepareWebRtc\<close> waits for \<open>getUserMedia\<close>: \<open>close\<close> settles
  and the state is closed, but the request for the microphone stays open.  When the browser then grants it, the
  microphone is switched on although the device is closed, and when the context resumes the
  pending \<open>prepareWebRtc\<close> succeeds and the device is active again.
\<close>

theorem close_during_start_is_undone:
  assumes "awaits_microphone n d" "dv_state d \<noteq> DevClosed" "\<not> dv_ownsContext d" "pl_phase (dv_player d) = PlayIdle"
    and "k \<noteq> n" "throwIfAborted sig = Inr ()"
  shows "let c = run_device d [DoClose k b, DoDrained k];
             m = device_step c (DoMedia (Inr 1) sig (Inr rate));
             e = run_device m [DoResumed (Inr ()), DoContinue n w u]
    in dv_state c = DevClosed \<and> (k, Inr ()) \<in> set (dv_results c) \<and> awaits_microphone n c
      \<and> dv_state m = DevClosed \<and> dv_microphone m
      \<and> dv_state e = DevActive \<and> dv_microphone e \<and> (n, Inr ()) \<in> set (dv_results e)"
  using close_while_awaiting [OF assms(1-5)] microphone_arrives [OF _ _ assms(6)] unfolding Let_def by blast

theorem close_during_start_is_undone_witness:
  "let d = run_device plain_device [DoPrepare 0 NoSignal (Inr (Fin 48000))];
       c = run_device d [DoClose 1 0, DoDrained 1];
       m = device_step c (DoMedia (Inr 1) NoSignal (Inr (Fin 48000)))
   in dv_state c = DevClosed \<and> dv_state m = DevClosed \<and> dv_microphone m"
proof -
  let ?d = "run_device plain_device [DoPrepare 0 NoSignal (Inr (Fin 48000))]"
  have "awaits_microphone 0 ?d" "dv_state ?d \<noteq> DevClosed" "\<not> dv_ownsContext ?d" "pl_phase (dv_player ?d) = PlayIdle"
    "(1 :: nat) \<noteq> 0" "throwIfAborted NoSignal = Inr ()" by code_simp+
  from close_during_start_is_undone [OF this, of 0 "Fin 48000" True "Inr ''blob:''"] show ?thesis unfolding Let_def by blast
qed

theorem closed_device_stays_closed_witness:
  "released (run_device (run_device plain_device [DoClose 1 0, DoDrained 1]) [DoPrepare 2 NoSignal (Inr (Fin 48000)), DoMedia (Inr 1) NoSignal (Inr (Fin 48000))])"
proof (rule closed_device_stays_closed [OF plain_device, where xs = "[]" and ys = "[DoDrained 1]"])
  show "plain_device = run_device plain_device []" by (simp add: run_device_def)
  show "dv_calls plain_device = []" "\<not> core_starting (dv_core plain_device)" "dv_state plain_device \<noteq> DevClosed" "\<not> list_ex starts [DoDrained 1]"
    "dv_calls (run_device plain_device [DoClose 1 0, DoDrained 1]) = []"
    by code_simp+
qed simp

end
