(* ===== verification/Socket_Spec.thy ===== *)
theory Socket_Spec
  imports Websocket
begin

text \<open>
  The contract of the platform sockets below a WebSocket transport (\<open>WebSocketPlatformSocket\<close> of \<open>websocket.ts\<close>), as
  the adapters of the browser and of Node keep it: a step hands at most one message to the native
  socket, and only when that socket is ready for it; what was handed over is never taken back.
\<close>

locale platform_socket =
  fixes step :: "'s \<Rightarrow> 'op \<Rightarrow> 's"
    and wire :: "'s \<Rightarrow> ws_write list"
    and ready :: "'s \<Rightarrow> bool"
  assumes step_wire: "wire (step s x) = wire s \<or> (\<exists>m. wire (step s x) = wire s @ [m]) \<and> ready s"
begin

definition run :: "'s \<Rightarrow> 'op list \<Rightarrow> 's" where
  "run s xs = foldl step s xs"

lemma run_simps [simp]: "run s [] = s" "run s (x # xs) = run (step s x) xs" "run s (xs @ ys) = run (run s xs) ys"
  by (simp_all add: run_def)

lemma wire_grows: "\<exists>ms. wire (run s xs) = wire s @ ms"
proof (induction xs arbitrary: s)
  case (Cons x xs)
  from Cons.IH [of "step s x"] step_wire [of s x] show ?case by auto
qed simp

text \<open>Each message of the wire was handed over by a step from a ready state.\<close>

lemma written_when_ready:
  assumes "length (wire s) \<le> k" "k < length (wire (run s xs))"
  shows "\<exists>ys x zs. xs = ys @ x # zs \<and> ready (run s ys) \<and> length (wire (run s ys)) = k \<and> wire (run s (ys @ [x])) = take (Suc k) (wire (run s xs))"
  using assms
proof (induction xs arbitrary: s)
  case (Cons x xs)
  show ?case
  proof (cases "length (wire (step s x)) \<le> k")
    case True
    from Cons.IH [OF True] Cons.prems(2) obtain ys y zs where
      "xs = ys @ y # zs" "ready (run (step s x) ys)" "length (wire (run (step s x) ys)) = k"
      "wire (run (step s x) (ys @ [y])) = take (Suc k) (wire (run s (x # xs)))" by auto
    then have "x # xs = (x # ys) @ y # zs \<and> ready (run s (x # ys)) \<and> length (wire (run s (x # ys))) = k
        \<and> wire (run s ((x # ys) @ [y])) = take (Suc k) (wire (run s (x # xs)))" by simp
    then show ?thesis by blast
  next
    case False
    then obtain m where m: "wire (step s x) = wire s @ [m]" "ready s" using step_wire [of s x] Cons.prems(1) by auto
    with False Cons.prems(1) have k: "k = length (wire s)" by simp
    obtain ms where "wire (run (step s x) xs) = wire (step s x) @ ms" using wire_grows by blast
    then have "x # xs = [] @ x # xs \<and> ready (run s []) \<and> length (wire (run s [])) = k
        \<and> wire (run s ([] @ [x])) = take (Suc k) (wire (run s (x # xs)))" using m k by simp
    then show ?thesis by blast
  qed
qed simp

end

section \<open>Letters\<close>

text \<open>\<open>toLowerCase\<close> on characters below 256: the capitals of ASCII and of Latin-1.\<close>

definition toLowerCase :: "string \<Rightarrow> string" where
  "toLowerCase = map (\<lambda>c. let n = (of_char c :: nat) in
     if 65 \<le> n \<and> n \<le> 90 \<or> 192 \<le> n \<and> n \<le> 222 \<and> n \<noteq> 215 then char_of (n + 32) else c)"

section \<open>Waiting for a connection\<close>

text \<open>
  Both adapters wait for a native socket to open in the same way: five listeners of which the first that is called
  settles the promise and removes all of them.  They differ in the error of a failed connection.
\<close>

datatype open_event = EvOpen | EvError thrown | EvClose | EvAbort thrown | EvTimeout

record open_wait =
  ow_result :: "unit result option"
  ow_attached :: bool
  ow_kills :: nat

abbreviation connect_error :: "string \<Rightarrow> thrown" where
  "connect_error m \<equiv> session_error ''websocket_connect'' m"

definition open_finish :: "unit result \<Rightarrow> open_wait \<Rightarrow> open_wait" where
  "open_finish r w = (if ow_result w \<noteq> None then w else w\<lparr>ow_result := Some r, ow_attached := False\<rparr>)"

definition open_kill :: "open_wait \<Rightarrow> open_wait" where
  "open_kill w = w\<lparr>ow_kills := ow_kills w + 1\<rparr>"

definition open_step :: "(thrown \<Rightarrow> thrown) \<Rightarrow> open_wait \<Rightarrow> open_event \<Rightarrow> open_wait" where
  "open_step failure w ev =
     (if \<not> ow_attached w then w
      else case ev of
        EvOpen \<Rightarrow> open_finish (Inr ()) w
      | EvError e \<Rightarrow> open_finish (Inl (failure e)) w
      | EvClose \<Rightarrow> open_finish (Inl (connect_error ''WebSocket closed while connecting'')) w
      | EvAbort reason \<Rightarrow> open_finish (Inl (aborted (AbortedSignal reason))) (open_kill w)
      | EvTimeout \<Rightarrow> open_finish (Inl (connect_error ''WebSocket connection timed out'')) (open_kill w))"

definition open_start :: "bool \<Rightarrow> signal \<Rightarrow> open_wait" where
  "open_start isOpen sig =
     (case throwIfAborted sig of
        Inl e \<Rightarrow> \<lparr>ow_result = Some (Inl e), ow_attached = False, ow_kills = 0\<rparr>
      | Inr _ \<Rightarrow>
          if isOpen then \<lparr>ow_result = Some (Inr ()), ow_attached = False, ow_kills = 0\<rparr>
          else \<lparr>ow_result = None, ow_attached = True, ow_kills = 0\<rparr>)"

definition open_run :: "(thrown \<Rightarrow> thrown) \<Rightarrow> bool \<Rightarrow> signal \<Rightarrow> open_event list \<Rightarrow> open_wait" where
  "open_run failure isOpen sig evs = foldl (open_step failure) (open_start isOpen sig) evs"

lemma open_settled: "\<not> ow_attached w \<Longrightarrow> foldl (open_step failure) w evs = w"
  by (induction evs) (simp_all add: open_step_def)

lemma open_run_first:
  "\<not> isOpen \<Longrightarrow> throwIfAborted sig = Inr () \<Longrightarrow> open_run failure isOpen sig (ev # evs) =
     \<lparr>ow_result = Some (case ev of EvOpen \<Rightarrow> Inr () | EvError e \<Rightarrow> Inl (failure e)
        | EvClose \<Rightarrow> Inl (connect_error ''WebSocket closed while connecting'')
        | EvAbort reason \<Rightarrow> Inl (aborted (AbortedSignal reason))
        | EvTimeout \<Rightarrow> Inl (connect_error ''WebSocket connection timed out'')),
      ow_attached = False, ow_kills = (case ev of EvAbort _ \<Rightarrow> 1 | EvTimeout \<Rightarrow> 1 | _ \<Rightarrow> 0)\<rparr>"
  by (cases ev) (simp_all add: open_run_def open_start_def open_step_def open_finish_def open_kill_def open_settled)

lemma open_run_at_once:
  "isOpen \<or> isl (throwIfAborted sig) \<Longrightarrow> open_run failure isOpen sig evs = open_start isOpen sig"
  unfolding open_run_def by (rule open_settled) (auto simp: open_start_def split: sum.splits)

end
