(* ===== verification/Browser_Socket.thy ===== *)
theory Browser_Socket
  imports Socket_Spec
begin

text \<open>
  \<open>browser_socket.ts\<close>: the adapter from the WebSocket of the browser to the socket of a transport.  The ready state and
  the buffered amount of the native socket change by themselves; the adapter polls them with timers.
\<close>

section \<open>The adapter\<close>

text \<open>The ready states of the DOM.\<close>

datatype ready_state = Connecting0 | Open1 | Closing2 | Closed3

datatype adapter_closing = AcIdle | AcDraining | AcAwaiting | AcDone

datatype socket_data = DataText string | DataBuffer "byte list" | DataView "byte list" | DataBlob "byte list" | DataOther

record browser_adapter =
  ba_readyState :: ready_state
  ba_bufferedAmount :: nat
  ba_highWaterMark :: nat
  ba_polling :: "(nat \<times> ws_write) list"
  ba_close :: adapter_closing
  ba_blobs :: "byte list list"
  ba_sent :: "ws_write list"
  ba_settled :: "(nat \<times> unit result) list"
  ba_messages :: "ws_message list"
  ba_closed :: "thrown option list"
  ba_nativeCloses :: nat

abbreviation not_open :: thrown where
  "not_open \<equiv> session_error ''closed'' ''WebSocket is not open''"

definition new_adapter :: "ready_state \<Rightarrow> nat \<Rightarrow> browser_adapter" where
  "new_adapter rs highWaterMark = \<lparr>ba_readyState = rs, ba_bufferedAmount = 0, ba_highWaterMark = highWaterMark, ba_polling = [], ba_close = AcIdle,
     ba_blobs = [], ba_sent = [], ba_settled = [], ba_messages = [], ba_closed = [], ba_nativeCloses = 0\<rparr>"

section \<open>Sending\<close>

text \<open>\<open>#send\<close>: the head of its loop, which the timer comes back to.\<close>

definition adapter_try :: "nat \<Rightarrow> ws_write \<Rightarrow> browser_adapter \<Rightarrow> browser_adapter" where
  "adapter_try w x a =
     (if ba_highWaterMark a \<le> ba_bufferedAmount a then a\<lparr>ba_polling := ba_polling a @ [(w, x)]\<rparr>
      else a\<lparr>ba_sent := ba_sent a @ [x], ba_settled := ba_settled a @ [(w, Inr ())]\<rparr>)"

definition adapter_send :: "nat \<Rightarrow> ws_write \<Rightarrow> browser_adapter \<Rightarrow> browser_adapter" where
  "adapter_send w x a =
     (if ba_readyState a \<noteq> Open1 then a\<lparr>ba_settled := ba_settled a @ [(w, Inl not_open)]\<rparr> else adapter_try w x a)"

text \<open>The timer of the oldest waiting call.\<close>

definition send_timer :: "browser_adapter \<Rightarrow> browser_adapter" where
  "send_timer a =
     (case ba_polling a of
        [] \<Rightarrow> a
      | (w, x) # rest \<Rightarrow>
          let a1 = a\<lparr>ba_polling := rest\<rparr> in
          if ba_readyState a \<noteq> Open1 then a1\<lparr>ba_settled := ba_settled a1 @ [(w, Inl not_open)]\<rparr> else adapter_try w x a1)"

section \<open>Receiving\<close>

definition adapter_message :: "socket_data \<Rightarrow> browser_adapter \<Rightarrow> browser_adapter" where
  "adapter_message d a =
     (case d of
        DataText s \<Rightarrow> a\<lparr>ba_messages := ba_messages a @ [TextMessage s]\<rparr>
      | DataBuffer bs \<Rightarrow> a\<lparr>ba_messages := ba_messages a @ [BinaryMessage bs]\<rparr>
      | DataView bs \<Rightarrow> a\<lparr>ba_messages := ba_messages a @ [BinaryMessage bs]\<rparr>
      | DataBlob bs \<Rightarrow> a\<lparr>ba_blobs := ba_blobs a @ [bs]\<rparr>
      | DataOther \<Rightarrow> a)"

text \<open>The bytes of a blob have been read.\<close>

definition blob_read :: "browser_adapter \<Rightarrow> browser_adapter" where
  "blob_read a = (case ba_blobs a of [] \<Rightarrow> a | bs # rest \<Rightarrow> a\<lparr>ba_blobs := rest, ba_messages := ba_messages a @ [BinaryMessage bs]\<rparr>)"

definition adapter_error :: "browser_adapter \<Rightarrow> browser_adapter" where
  "adapter_error a =
     (if ba_readyState a \<noteq> Closed3 then a
      else a\<lparr>ba_closed := ba_closed a @ [Some (session_error ''websocket'' ''WebSocket failed'')]\<rparr>)"

section \<open>Closing\<close>

definition close_head :: "browser_adapter \<Rightarrow> browser_adapter" where
  "close_head a =
     (if ba_readyState a = Open1 \<and> 0 < ba_bufferedAmount a then a\<lparr>ba_close := AcDraining\<rparr>
      else if ba_readyState a = Closed3 then a\<lparr>ba_close := AcDone\<rparr>
      else a\<lparr>ba_close := AcAwaiting, ba_nativeCloses := ba_nativeCloses a + 1\<rparr>)"

definition adapter_close :: "browser_adapter \<Rightarrow> browser_adapter" where
  "adapter_close a =
     (if ba_close a \<noteq> AcIdle then a
      else if ba_readyState a = Closed3 then a\<lparr>ba_close := AcDone\<rparr> else close_head a)"

definition close_timer :: "browser_adapter \<Rightarrow> browser_adapter" where
  "close_timer a = (if ba_close a = AcDraining then close_head a else a)"

text \<open>The close event of the native socket.\<close>

definition adapter_onclose :: "browser_adapter \<Rightarrow> browser_adapter" where
  "adapter_onclose a = a\<lparr>ba_closed := ba_closed a @ [None], ba_close := (if ba_close a = AcAwaiting then AcDone else ba_close a)\<rparr>"

section \<open>Runs\<close>

datatype adapter_op =
    OpSend nat ws_write
  | OpSendTimer
  | OpMessage socket_data
  | OpBlobRead
  | OpError
  | OpCloseCall
  | OpCloseTimer
  | OpCloseEvent
  | OpNative ready_state nat

fun adapter_step :: "browser_adapter \<Rightarrow> adapter_op \<Rightarrow> browser_adapter" where
  "adapter_step a (OpSend w x) = adapter_send w x a"
| "adapter_step a OpSendTimer = send_timer a"
| "adapter_step a (OpMessage d) = adapter_message d a"
| "adapter_step a OpBlobRead = blob_read a"
| "adapter_step a OpError = adapter_error a"
| "adapter_step a OpCloseCall = adapter_close a"
| "adapter_step a OpCloseTimer = close_timer a"
| "adapter_step a OpCloseEvent = adapter_onclose a"
| "adapter_step a (OpNative rs n) = a\<lparr>ba_readyState := rs, ba_bufferedAmount := n\<rparr>"

definition run_adapter :: "browser_adapter \<Rightarrow> adapter_op list \<Rightarrow> browser_adapter" where
  "run_adapter a ops = foldl adapter_step a ops"

definition adapter_ready :: "browser_adapter \<Rightarrow> bool" where
  "adapter_ready a \<longleftrightarrow> ba_readyState a = Open1 \<and> ba_bufferedAmount a < ba_highWaterMark a"

interpretation browser_socket: platform_socket adapter_step ba_sent adapter_ready
proof
  fix s :: browser_adapter and x
  show "ba_sent (adapter_step s x) = ba_sent s \<or> (\<exists>m. ba_sent (adapter_step s x) = ba_sent s @ [m]) \<and> adapter_ready s"
    by (cases x) (auto simp: adapter_send_def adapter_try_def send_timer_def adapter_message_def blob_read_def adapter_error_def
        adapter_close_def close_timer_def close_head_def adapter_onclose_def adapter_ready_def Let_def split: list.split socket_data.split)
qed

lemma browser_run [simp]: "browser_socket.run = run_adapter"
  by (intro ext) (simp add: browser_socket.run_def run_adapter_def)

lemma adapter_highWaterMark [simp]: "ba_highWaterMark (run_adapter a xs) = ba_highWaterMark a"
proof -
  have "ba_highWaterMark (adapter_step b x) = ba_highWaterMark b" for b x
    by (cases x) (auto simp: adapter_send_def adapter_try_def send_timer_def adapter_message_def blob_read_def adapter_error_def
        adapter_close_def close_timer_def close_head_def adapter_onclose_def Let_def split: list.split socket_data.split)
  then show ?thesis unfolding run_adapter_def by (induction xs arbitrary: a) auto
qed

text \<open>
  Claim C31.  The browser adapter respects backpressure: in every run, each message that reached the native socket was
  handed over in a state in which the socket was open and its buffered amount below the high-water mark.
\<close>

theorem browser_backpressure:
  assumes "k < length (ba_sent (run_adapter (new_adapter rs mark) xs))"
  shows "\<exists>ys x zs. xs = ys @ x # zs \<and> length (ba_sent (run_adapter (new_adapter rs mark) ys)) = k
    \<and> ba_readyState (run_adapter (new_adapter rs mark) ys) = Open1 \<and> ba_bufferedAmount (run_adapter (new_adapter rs mark) ys) < mark
    \<and> ba_sent (run_adapter (new_adapter rs mark) (ys @ [x])) = take (Suc k) (ba_sent (run_adapter (new_adapter rs mark) xs))"
proof -
  have "length (ba_sent (new_adapter rs mark)) \<le> k" by (simp add: new_adapter_def)
  from browser_socket.written_when_ready [OF this, of xs] assms show ?thesis
    by (auto simp: adapter_ready_def) (auto simp: new_adapter_def)
qed

theorem browser_backpressure_witness:
  "\<exists>ys x zs. [OpNative Open1 5, OpSend 0 (WriteText ''a''), OpNative Open1 0, OpSendTimer] = ys @ x # zs
    \<and> ba_bufferedAmount (run_adapter (new_adapter Connecting0 5) ys) < 5"
proof -
  have "0 < length (ba_sent (run_adapter (new_adapter Connecting0 5) [OpNative Open1 5, OpSend 0 (WriteText ''a''), OpNative Open1 0, OpSendTimer]))"
    by code_simp
  from browser_backpressure [OF this] show ?thesis by blast
qed

section \<open>Opening\<close>

record browser_ws_config =
  bw_url :: string
  bw_protocols :: "string list option"
  bw_audioFormat :: "media_format option"
  bw_connectTimeoutMs :: "js_number option"
  bw_highWaterMarkBytes :: "js_number option"
  bw_headers :: "(string \<times> string) list option"
  bw_hasFactory :: bool

text \<open>The native socket that is asked for: through the injected factory or by the constructor of the browser.\<close>

datatype socket_request =
    FromFactory string "string list option" "(string \<times> string) list option"
  | FromBrowser string "string list option"

definition browserSocket :: "browser_ws_config \<Rightarrow> socket_request result" where
  "browserSocket cfg =
     (let protocols = (case bw_protocols cfg of None \<Rightarrow> [DEFAULT_PROFILE] | Some ps \<Rightarrow> ps);
          offered = (if protocols = [] then None else Some protocols)
      in if bw_hasFactory cfg then Inr (FromFactory (bw_url cfg) offered (bw_headers cfg))
         else if bw_headers cfg \<noteq> None \<and> bw_headers cfg \<noteq> Some []
         then Inl (session_error ''browser_headers_unsupported''
           ''native browser WebSocket cannot set Upgrade headers; use subprotocol, query, or cookie deployment policy'')
         else Inr (FromBrowser (bw_url cfg) offered))"

definition waitForOpen :: "ready_state \<Rightarrow> signal \<Rightarrow> open_event list \<Rightarrow> open_wait" where
  "waitForOpen rs sig evs =
     open_run (\<lambda>_. connect_error ''WebSocket connection failed'') (rs = Open1) sig evs"

text \<open>\<open>openBrowserWebSocket\<close> up to its \<open>await\<close>: the request, the connect timeout and the high-water mark.\<close>

definition open_request :: "browser_ws_config \<Rightarrow> (socket_request \<times> nat \<times> nat) result" where
  "open_request cfg =
     bindR (guardR (bw_url cfg \<noteq> []) (session_error ''configuration'' ''WebSocket URL is required'')) (\<lambda>_.
     case positive_safe (case bw_connectTimeoutMs cfg of None \<Rightarrow> jsInt 10000 | Some x \<Rightarrow> x) of
       None \<Rightarrow> Inl (session_error ''configuration'' ''WebSocket connect timeout must be positive'')
     | Some timeout \<Rightarrow>
         (case positive_safe (case bw_highWaterMarkBytes cfg of None \<Rightarrow> jsInt (1024 * 1024) | Some x \<Rightarrow> x) of
            None \<Rightarrow> Inl (session_error ''configuration'' ''WebSocket high-water mark must be positive'')
          | Some mark \<Rightarrow> bindR (browserSocket cfg) (\<lambda>request. Inr (request, timeout, mark))))"

text \<open>
  What follows the wait, with the subprotocol the server has chosen: the transport, or a failure, after which
  the adapter is closed.  The adapter of the browser cannot ping.
\<close>

definition open_result :: "browser_ws_config \<Rightarrow> string \<Rightarrow> unit result \<Rightarrow> ws result \<times> bool" where
  "open_result cfg protocol r =
     (case bindR r (\<lambda>_. new_websocket \<lparr>wc_protocol = protocol, wc_ping = False, wc_onPong = False,
          wc_audioFormat = bw_audioFormat cfg, wc_inboundCapacity = None\<rparr>) of
        Inl e \<Rightarrow> (Inl e, True) | Inr t \<Rightarrow> (Inr t, False))"

definition openBrowserWebSocket :: "browser_ws_config \<Rightarrow> string \<Rightarrow> ready_state \<Rightarrow> signal \<Rightarrow> open_event list \<Rightarrow> ws result option \<times> nat \<times> bool" where
  "openBrowserWebSocket cfg protocol rs sig evs =
     (case open_request cfg of
        Inl e \<Rightarrow> (Some (Inl e), 0, False)
      | Inr _ \<Rightarrow>
          (let w = waitForOpen rs sig evs in
           case ow_result w of
             None \<Rightarrow> (None, ow_kills w, False)
           | Some r \<Rightarrow> (case open_result cfg protocol r of (res, failed) \<Rightarrow> (Some res, ow_kills w, failed))))"

lemma default_queue: "new_queue (jsInt 256) = Inr \<lparr>capacity = 256, items = [], readers = [], writers = [], closed = False\<rparr>"
  by (simp add: new_queue_def positive_safe_def is_int_rat_def MAX_SAFE_INTEGER_def)

text \<open>
  Opening a browser socket is decided by the first thing that happens: for a valid configuration and a live
  signal, after at least one event it has settled, later events change nothing; it is a transport exactly when
  that event is the open event and the audio format is valid, with the subprotocol of the server as its profile and
  without keepalive; otherwise it is an error and the adapter is closed.  The socket is closed at once
  exactly on an abort or a timeout.
\<close>

theorem browser_open_settles:
  assumes "open_request cfg = Inr q" "throwIfAborted sig = Inr ()" "rs \<noteq> Open1"
  shows "openBrowserWebSocket cfg protocol rs sig (ev # evs) = openBrowserWebSocket cfg protocol rs sig [ev]
    \<and> (\<exists>res kills failed. openBrowserWebSocket cfg protocol rs sig [ev] = (Some res, kills, failed)
         \<and> failed = isl res \<and> (kills = 1 \<longleftrightarrow> ev = EvTimeout \<or> (\<exists>reason. ev = EvAbort reason))
         \<and> (\<not> isl res \<longleftrightarrow> ev = EvOpen \<and> (\<forall>f. bw_audioFormat cfg = Some f \<longrightarrow> \<not> isl (mediaFrameBytes f)))
         \<and> (\<forall>t. res = Inr t \<longrightarrow> ws_profile t = (if protocol = [] then HEADERLESS_PROFILE else protocol) \<and> \<not> ws_supportsKeepalive t))"
proof -
  have first: "waitForOpen rs sig (ev # evs) = waitForOpen rs sig [ev]" for evs
    using assms(2,3) by (simp add: waitForOpen_def open_run_first)
  have ok: "isl (new_websocket \<lparr>wc_protocol = protocol, wc_ping = False, wc_onPong = False, wc_audioFormat = bw_audioFormat cfg, wc_inboundCapacity = None\<rparr>)
      \<longleftrightarrow> (\<exists>f. bw_audioFormat cfg = Some f \<and> isl (mediaFrameBytes f))"
    by (auto simp: new_websocket_def default_queue [simplified] configure_def bindR_def split: option.splits sum.splits)
  have prof: "ws_profile t = (if protocol = [] then HEADERLESS_PROFILE else protocol) \<and> \<not> ws_supportsKeepalive t"
    if "new_websocket \<lparr>wc_protocol = protocol, wc_ping = False, wc_onPong = False, wc_audioFormat = bw_audioFormat cfg, wc_inboundCapacity = None\<rparr> = Inr t" for t
    using that by (auto simp: new_websocket_def bindR_Inr_iff)
  show ?thesis
    using assms ok prof
    by (cases ev) (auto simp: openBrowserWebSocket_def first, auto simp: waitForOpen_def open_run_first open_result_def Let_def split: sum.splits)
qed

definition plain_ws_config :: browser_ws_config where
  "plain_ws_config = \<lparr>bw_url = ''wss://x'', bw_protocols = None, bw_audioFormat = None, bw_connectTimeoutMs = None, bw_highWaterMarkBytes = None,
     bw_headers = None, bw_hasFactory = False\<rparr>"

lemma plain_request: "open_request plain_ws_config = Inr (FromBrowser ''wss://x'' (Some [DEFAULT_PROFILE]), 10000, 1048576)"
  by (simp add: open_request_def plain_ws_config_def browserSocket_def guardR_def positive_safe_def is_int_rat_def MAX_SAFE_INTEGER_def)

theorem browser_open_settles_witness:
  "\<exists>t kills failed. openBrowserWebSocket plain_ws_config ''rtvbp.v1'' Connecting0 NoSignal [EvOpen, EvClose] = (Some (Inr t), kills, failed)
     \<and> ws_profile t = ''rtvbp.v1''"
proof -
  have live: "throwIfAborted NoSignal = Inr ()" and "Connecting0 \<noteq> Open1" by simp_all
  note settles = browser_open_settles [OF plain_request this, of "''rtvbp.v1''" EvOpen "[EvClose]"]
  then obtain res kills failed where res: "openBrowserWebSocket plain_ws_config ''rtvbp.v1'' Connecting0 NoSignal [EvOpen] = (Some res, kills, failed)"
    "\<not> isl res" "\<And>t. res = Inr t \<Longrightarrow> ws_profile t = ''rtvbp.v1''"
    by (auto simp: plain_ws_config_def)
  from res(2) obtain t where "res = Inr t" by (cases res) auto
  with res settles [THEN conjunct1] show ?thesis by auto
qed

end
