(* ===== verification/Node_Socket.thy ===== *)
theory Node_Socket
  imports Browser_Socket
begin

text \<open>
  The client half of \<open>node.ts\<close>: the adapter from a socket of the \<open>ws\<close> package to the socket of a transport.  The
  package settles each send by a callback.  \<open>decode\<close> is the \<open>TextDecoder\<close> of the platform.
\<close>

section \<open>Raw data\<close>

datatype raw_data = RawParts "byte list list" | RawBuffer "byte list" | RawView "byte list"

text \<open>\<open>result.set(part, offset)\<close>.\<close>

definition set_bytes :: "byte list \<Rightarrow> nat \<Rightarrow> byte list \<Rightarrow> byte list" where
  "set_bytes part offset buf = take offset buf @ part @ drop (offset + length part) buf"

definition rawBytes :: "raw_data \<Rightarrow> byte list" where
  "rawBytes d =
     (case d of
        RawParts parts \<Rightarrow>
          fst (foldl (\<lambda>(buf, offset) part. (set_bytes part offset buf, offset + length part))
            (replicate (foldl (\<lambda>total part. total + length part) 0 parts) 0, 0) parts)
      | RawBuffer bs \<Rightarrow> bs
      | RawView bs \<Rightarrow> bs)"

lemma fill_parts:
  "foldl (\<lambda>(buf, offset) part. (set_bytes part offset buf, offset + length part)) (xs @ replicate (length (concat parts)) 0, length xs) parts
   = (xs @ concat parts, length xs + length (concat parts))"
proof (induction parts arbitrary: xs)
  case (Cons p ps)
  have "set_bytes p (length xs) (xs @ replicate (length (concat (p # ps))) 0) = (xs @ p) @ replicate (length (concat ps)) 0"
    by (simp add: set_bytes_def)
  then show ?case using Cons.IH [of "xs @ p"] by (simp del: append_assoc)
qed simp

lemma total_length: "foldl (\<lambda>total part. total + length part) n parts = n + length (concat parts)"
  by (induction parts arbitrary: n) auto

lemma rawBytes_simps: "rawBytes (RawParts parts) = concat parts" "rawBytes (RawBuffer bs) = bs" "rawBytes (RawView bs) = bs"
  using fill_parts [of "[]" parts] by (simp_all add: rawBytes_def total_length)

section \<open>The adapter\<close>

datatype native_call = NativeClose | NativeTerminate

text \<open>
  The three sets of listeners, \<open>#messages\<close>, \<open>#closed\<close> and \<open>#pongs\<close>: a listener is known by a number.  What the
  listeners are called with is logged.
\<close>

datatype node_channel = OnMessage | OnClose | OnPong

datatype node_note = GotMessage ws_message | GotClosed "thrown option" | GotPong string

record node_adapter =
  na_readyState :: ready_state
  na_sending :: "nat list"
  na_close :: adapter_closing
  na_sent :: "ws_write list"
  na_settled :: "(nat \<times> unit result) list"
  na_listeners :: "(node_channel \<times> nat) list"
  na_heard :: "(node_channel \<times> nat \<times> node_note) list"
  na_native :: "native_call list"

definition new_node_adapter :: "ready_state \<Rightarrow> node_adapter" where
  "new_node_adapter rs = \<lparr>na_readyState = rs, na_sending = [], na_close = AcIdle, na_sent = [], na_settled = [], na_listeners = [], na_heard = [],
     na_native = []\<rparr>"

text \<open>\<open>onMessage\<close>, \<open>onClose\<close> and \<open>onPong\<close>, and the functions they return.\<close>

definition node_on :: "node_channel \<Rightarrow> nat \<Rightarrow> node_adapter \<Rightarrow> node_adapter" where
  "node_on ch l a = (if (ch, l) \<in> set (na_listeners a) then a else a\<lparr>na_listeners := na_listeners a @ [(ch, l)]\<rparr>)"

definition node_off :: "node_channel \<Rightarrow> nat \<Rightarrow> node_adapter \<Rightarrow> node_adapter" where
  "node_off ch l a = a\<lparr>na_listeners := removeAll (ch, l) (na_listeners a)\<rparr>"

text \<open>An event calls the listeners that are subscribed at that moment, in the order in which they subscribed.\<close>

definition node_emit :: "node_channel \<Rightarrow> node_note \<Rightarrow> node_adapter \<Rightarrow> node_adapter" where
  "node_emit ch note a =
     a\<lparr>na_heard := na_heard a @ map (\<lambda>(c, l). (c, l, note)) (filter (\<lambda>(c, l). c = ch) (na_listeners a))\<rparr>"

text \<open>\<open>#send\<close> and \<open>ping\<close>.\<close>

definition node_send :: "nat \<Rightarrow> ws_write \<Rightarrow> node_adapter \<Rightarrow> node_adapter" where
  "node_send w x a =
     (if na_readyState a \<noteq> Open1 then a\<lparr>na_settled := na_settled a @ [(w, Inl not_open)]\<rparr>
      else a\<lparr>na_sent := na_sent a @ [x], na_sending := na_sending a @ [w]\<rparr>)"

definition node_callback :: "nat \<Rightarrow> thrown option \<Rightarrow> node_adapter \<Rightarrow> node_adapter" where
  "node_callback w e a =
     (if w \<in> set (na_sending a)
      then a\<lparr>na_sending := removeAll w (na_sending a), na_settled := na_settled a @ [(w, case e of None \<Rightarrow> Inr () | Some x \<Rightarrow> Inl x)]\<rparr>
      else a)"

definition node_message :: "(byte list \<Rightarrow> string) \<Rightarrow> raw_data \<Rightarrow> bool \<Rightarrow> node_adapter \<Rightarrow> node_adapter" where
  "node_message decode d isBinary a =
     node_emit OnMessage (GotMessage (if isBinary then BinaryMessage (rawBytes d) else TextMessage (decode (rawBytes d)))) a"

definition node_pong :: "(byte list \<Rightarrow> string) \<Rightarrow> byte list \<Rightarrow> node_adapter \<Rightarrow> node_adapter" where
  "node_pong decode d a = node_emit OnPong (GotPong (decode d)) a"

definition node_close :: "node_adapter \<Rightarrow> node_adapter" where
  "node_close a =
     (if na_close a \<noteq> AcIdle then a
      else if na_readyState a = Closed3 then a\<lparr>na_close := AcDone\<rparr>
      else a\<lparr>na_close := AcAwaiting, na_native := na_native a @ [if na_readyState a = Connecting0 then NativeTerminate else NativeClose]\<rparr>)"

text \<open>The close and the error event: the listeners of the transport, and the promise of \<open>close\<close>.\<close>

definition node_gone :: "thrown option \<Rightarrow> node_adapter \<Rightarrow> node_adapter" where
  "node_gone e a = (node_emit OnClose (GotClosed e) a)\<lparr>na_close := (if na_close a = AcAwaiting then AcDone else na_close a)\<rparr>"

datatype node_op =
    NodeSend nat ws_write
  | NodeCallback nat "thrown option"
  | NodeMessage raw_data bool
  | NodePong "byte list"
  | NodeClose
  | NodeGone "thrown option"
  | NodeOn node_channel nat
  | NodeOff node_channel nat
  | NodeNative ready_state

fun node_step :: "(byte list \<Rightarrow> string) \<Rightarrow> node_adapter \<Rightarrow> node_op \<Rightarrow> node_adapter" where
  "node_step decode a (NodeSend w x) = node_send w x a"
| "node_step decode a (NodeCallback w e) = node_callback w e a"
| "node_step decode a (NodeMessage d b) = node_message decode d b a"
| "node_step decode a (NodePong d) = node_pong decode d a"
| "node_step decode a NodeClose = node_close a"
| "node_step decode a (NodeGone e) = node_gone e a"
| "node_step decode a (NodeOn ch l) = node_on ch l a"
| "node_step decode a (NodeOff ch l) = node_off ch l a"
| "node_step decode a (NodeNative rs) = a\<lparr>na_readyState := rs\<rparr>"

definition run_node :: "(byte list \<Rightarrow> string) \<Rightarrow> node_adapter \<Rightarrow> node_op list \<Rightarrow> node_adapter" where
  "run_node decode a ops = foldl (node_step decode) a ops"

lemmas node_defs = node_send_def node_callback_def node_message_def node_pong_def node_close_def node_gone_def node_on_def node_off_def node_emit_def

interpretation node_socket: platform_socket "node_step decode" na_sent "\<lambda>a. na_readyState a = Open1" for decode
proof
  fix s :: node_adapter and x
  show "na_sent (node_step decode s x) = na_sent s \<or> (\<exists>m. na_sent (node_step decode s x) = na_sent s @ [m]) \<and> na_readyState s = Open1"
    by (cases x) (auto simp: node_defs)
qed

section \<open>What a run gives\<close>

text \<open>What a native event carries, fragments joined.\<close>

definition node_event :: "(byte list \<Rightarrow> string) \<Rightarrow> node_op \<Rightarrow> (node_channel \<times> node_note) option" where
  "node_event decode x =
     (case x of
        NodeMessage (RawParts ps) b \<Rightarrow> Some (OnMessage, GotMessage (if b then BinaryMessage (concat ps) else TextMessage (decode (concat ps))))
      | NodeMessage (RawBuffer bs) b \<Rightarrow> Some (OnMessage, GotMessage (if b then BinaryMessage bs else TextMessage (decode bs)))
      | NodeMessage (RawView bs) b \<Rightarrow> Some (OnMessage, GotMessage (if b then BinaryMessage bs else TextMessage (decode bs)))
      | NodePong d \<Rightarrow> Some (OnPong, GotPong (decode d))
      | NodeGone e \<Rightarrow> Some (OnClose, GotClosed e)
      | _ \<Rightarrow> None)"

text \<open>Whether a listener is subscribed after some operations, and the events of its channel while it was.\<close>

definition subscribes :: "node_channel \<Rightarrow> nat \<Rightarrow> bool \<Rightarrow> node_op \<Rightarrow> bool" where
  "subscribes ch l b x = (if x = NodeOn ch l then True else if x = NodeOff ch l then False else b)"

fun events_for :: "(byte list \<Rightarrow> string) \<Rightarrow> node_channel \<Rightarrow> nat \<Rightarrow> bool \<Rightarrow> node_op list \<Rightarrow> node_note list" where
  "events_for decode ch l b [] = []"
| "events_for decode ch l b (x # xs) =
     (case node_event decode x of Some (c, note) \<Rightarrow> if b \<and> c = ch then [note] else [] | None \<Rightarrow> [])
     @ events_for decode ch l (subscribes ch l b x) xs"

definition heard_by :: "node_channel \<Rightarrow> nat \<Rightarrow> node_adapter \<Rightarrow> node_note list" where
  "heard_by ch l a = concat (map (\<lambda>(c, k, note). if c = ch \<and> k = l then [note] else []) (na_heard a))"

lemma emit_heard:
  assumes "distinct (na_listeners a)"
  shows "heard_by ch l (node_emit c note a) = heard_by ch l a @ (if c = ch \<and> (ch, l) \<in> set (na_listeners a) then [note] else [])"
proof -
  have "concat (map ((\<lambda>(c, k, n). if c = ch \<and> k = l then [n] else []) \<circ> (\<lambda>(c, k). (c, k, note))) (filter (\<lambda>(d, k). d = c) xs))
      = (if c = ch \<and> (ch, l) \<in> set xs then [note] else [])" if "distinct xs" for xs :: "(node_channel \<times> nat) list"
    using that by (induction xs) (auto split: prod.splits)
  then show ?thesis using assms by (simp add: heard_by_def node_emit_def)
qed

lemma heard_same [simp]:
  "heard_by ch l (a\<lparr>na_close := c\<rparr>) = heard_by ch l a" "heard_by ch l (node_on d k a) = heard_by ch l a" "heard_by ch l (node_off d k a) = heard_by ch l a"
  "heard_by ch l (node_send w x a) = heard_by ch l a" "heard_by ch l (node_callback w e a) = heard_by ch l a" "heard_by ch l (node_close a) = heard_by ch l a"
  "heard_by ch l (a\<lparr>na_readyState := rs\<rparr>) = heard_by ch l a"
  by (simp_all add: heard_by_def node_on_def node_off_def node_send_def node_callback_def node_close_def)

lemma node_step_heard:
  assumes "distinct (na_listeners a)"
  shows "heard_by ch l (node_step decode a x) = heard_by ch l a
    @ (case node_event decode x of Some (c, note) \<Rightarrow> if (ch, l) \<in> set (na_listeners a) \<and> c = ch then [note] else [] | None \<Rightarrow> [])"
  using assms
  by (cases x) (auto simp: node_event_def node_message_def node_pong_def node_gone_def emit_heard rawBytes_simps split: raw_data.split)

lemma node_step_listeners:
  "distinct (na_listeners a) \<Longrightarrow> distinct (na_listeners (node_step decode a x))
    \<and> ((ch, l) \<in> set (na_listeners (node_step decode a x)) \<longleftrightarrow> subscribes ch l ((ch, l) \<in> set (na_listeners a)) x)"
  by (cases x) (auto simp: node_defs subscribes_def distinct_removeAll)

lemma run_node_heard:
  "distinct (na_listeners a) \<Longrightarrow>
   heard_by ch l (run_node decode a xs) = heard_by ch l a @ events_for decode ch l ((ch, l) \<in> set (na_listeners a)) xs"
proof (induction xs arbitrary: a)
  case (Cons x xs)
  have "run_node decode a (x # xs) = run_node decode (node_step decode a x) xs" by (simp add: run_node_def)
  then show ?case
    using Cons.IH [of "node_step decode a x"] node_step_listeners [OF Cons.prems, of decode x ch l] node_step_heard [OF Cons.prems, of ch l decode x]
    by (simp only: events_for.simps append_assoc)
qed (simp add: run_node_def)

text \<open>The promises of sends: those settled and those under way.\<close>

definition node_promises :: "node_adapter \<Rightarrow> nat list" where
  "node_promises a = map fst (na_settled a) @ na_sending a"

definition send_ids :: "node_op list \<Rightarrow> nat list" where
  "send_ids ops = concat (map (\<lambda>x. case x of NodeSend w _ \<Rightarrow> [w] | _ \<Rightarrow> []) ops)"

lemma node_step_promises:
  "distinct (node_promises a) \<Longrightarrow> mset (node_promises (node_step decode a x)) = mset (node_promises a) + mset (send_ids [x])"
proof (cases x)
  case (NodeCallback w e)
  assume d: "distinct (node_promises a)"
  show ?thesis
  proof (cases "w \<in> set (na_sending a)")
    case True
    then have "mset (na_sending a) = add_mset w (mset (removeAll w (na_sending a)))"
      using d by (metis distinct_append distinct_remove1_removeAll insert_DiffM mset_remove1 node_promises_def set_mset_mset)
    then show ?thesis using True NodeCallback by (simp add: node_callback_def node_promises_def send_ids_def)
  qed (simp add: NodeCallback node_callback_def send_ids_def)
qed (auto simp: node_promises_def send_ids_def node_defs)

lemma run_node_promises:
  "distinct (send_ids xs) \<Longrightarrow> mset (node_promises (run_node decode (new_node_adapter rs) xs)) = mset (send_ids xs)"
proof (induction xs rule: rev_induct)
  case Nil
  then show ?case by (simp add: run_node_def new_node_adapter_def node_promises_def send_ids_def)
next
  case (snoc x xs)
  let ?b = "run_node decode (new_node_adapter rs) xs"
  have step: "run_node decode (new_node_adapter rs) (xs @ [x]) = node_step decode ?b x" by (simp add: run_node_def)
  have ids: "send_ids (xs @ [x]) = send_ids xs @ send_ids [x]" by (simp add: send_ids_def)
  have m: "mset (node_promises ?b) = mset (send_ids xs)" and "distinct (send_ids xs)" using snoc ids by auto
  then have "distinct (node_promises ?b)" by (metis mset_eq_imp_distinct_iff)
  from node_step_promises [OF this] show ?case using m by (simp only: step ids mset_append)
qed

text \<open>
  Claim C32.  The Node adapter passes events on to whoever is subscribed and settles each send once.  In every run, each
  listener of messages, pongs or the end of the connection has been called exactly with the native
  events of its kind that came while it was subscribed, in order, fragments joined; what comes while nobody is
  subscribed is lost.  When the sends have distinct identities, each of them is settled once or still waits for
  its callback, and what reached the native socket did so while it was open.
\<close>

theorem node_adapter_faithful:
  assumes "distinct (send_ids ops)" "a = run_node decode (new_node_adapter rs) ops"
  shows "heard_by ch l a = events_for decode ch l False ops \<and> distinct (node_promises a) \<and> set (node_promises a) = set (send_ids ops)
    \<and> (\<forall>k < length (na_sent a). \<exists>xs x ys. ops = xs @ x # ys \<and> length (na_sent (run_node decode (new_node_adapter rs) xs)) = k
         \<and> na_readyState (run_node decode (new_node_adapter rs) xs) = Open1)"
proof -
  have run: "node_socket.run decode = run_node decode" by (intro ext) (simp add: node_socket.run_def run_node_def)
  have "\<exists>xs x ys. ops = xs @ x # ys \<and> length (na_sent (run_node decode (new_node_adapter rs) xs)) = k
      \<and> na_readyState (run_node decode (new_node_adapter rs) xs) = Open1" if "k < length (na_sent a)" for k
    using node_socket.written_when_ready [of "new_node_adapter rs" k decode ops] that assms(2) unfolding run by (auto simp: new_node_adapter_def)
  moreover have "heard_by ch l a = events_for decode ch l False ops"
    using run_node_heard [of "new_node_adapter rs" ch l decode ops] assms(2) by (simp add: new_node_adapter_def heard_by_def)
  moreover have "mset (node_promises a) = mset (send_ids ops)" using run_node_promises assms by simp
  ultimately show ?thesis using assms(1) by (metis mset_eq_imp_distinct_iff mset_eq_setD)
qed

theorem node_adapter_faithful_witness:
  "heard_by OnMessage 7 (run_node (map (\<lambda>_. CHR ''x'')) (new_node_adapter Open1)
     [NodeMessage (RawBuffer [9]) True, NodeOn OnMessage 7, NodeSend 0 (WriteText ''a''), NodeMessage (RawParts [[1], [2, 3]]) True,
      NodeCallback 0 None, NodeMessage (RawBuffer [7]) False])
   = [GotMessage (BinaryMessage [1, 2, 3]), GotMessage (TextMessage ''x'')]"
proof -
  let ?ops = "[NodeMessage (RawBuffer [9]) True, NodeOn OnMessage 7, NodeSend 0 (WriteText ''a''), NodeMessage (RawParts [[1], [2, 3]]) True,
      NodeCallback 0 None, NodeMessage (RawBuffer [7]) False]"
  have "distinct (send_ids ?ops)" by (simp add: send_ids_def)
  from node_adapter_faithful [OF this refl, of OnMessage 7 "map (\<lambda>_. CHR ''x'')" Open1] show ?thesis
    by (simp add: node_event_def subscribes_def)
qed

section \<open>Connecting\<close>

definition waitForNodeOpen :: "ready_state \<Rightarrow> signal \<Rightarrow> open_event list \<Rightarrow> open_wait" where
  "waitForNodeOpen rs sig evs = open_run (\<lambda>e. e) (rs = Open1) sig evs"

record node_client_config =
  nc_url :: string
  nc_protocols :: "string list option"
  nc_headers :: "(string \<times> string) list"
  nc_audioFormat :: "media_format option"

text \<open>\<open>nodeWebSocketTransport\<close>: its checks and the subprotocols that the factory offers.\<close>

definition node_request :: "node_client_config \<Rightarrow> (string \<times> string list \<times> (string \<times> string) list) result" where
  "node_request cfg =
     (if nc_url cfg = [] then Inl (session_error ''configuration'' ''WebSocket URL is required'')
      else if list_ex (\<lambda>(name, _). toLowerCase name = ''sec-websocket-protocol'') (nc_headers cfg)
      then Inl (session_error ''configuration'' ''configure WebSocket profiles through protocols'')
      else Inr (nc_url cfg, case nc_protocols cfg of None \<Rightarrow> [DEFAULT_PROFILE] | Some ps \<Rightarrow> ps, nc_headers cfg))"

text \<open>The outcome of the factory after the wait; the adapter is closed when it fails.\<close>

definition node_transport :: "node_client_config \<Rightarrow> string \<Rightarrow> unit result \<Rightarrow> ws result \<times> bool" where
  "node_transport cfg protocol r =
     (case bindR r (\<lambda>_. new_websocket \<lparr>wc_protocol = protocol, wc_ping = True, wc_onPong = True,
          wc_audioFormat = nc_audioFormat cfg, wc_inboundCapacity = None\<rparr>) of
        Inl e \<Rightarrow> (Inl e, True) | Inr t \<Rightarrow> (Inr t, False))"

end
