(* ===== verification/Node_Server.thy ===== *)
theory Node_Server
  imports Node_Socket
begin

text \<open>
  The server half of \<open>node.ts\<close>: authentication, the choice of a profile, one session per connection and the close
  of the server.  Connections and sessions are known by numbers; the handler factory, the callback
  \<open>onSession\<close>, the run of a session and the native server settle through events.  The callback \<open>onSessionError\<close> is taken
  to return.
\<close>

section \<open>Handshake\<close>

text \<open>\<open>verifyClient\<close>: without an authenticator every client passes; a rejected promise refuses.\<close>

definition verifyClient :: "bool result option \<Rightarrow> bool \<times> (nat \<times> string) option" where
  "verifyClient outcome =
     (case outcome of
        None \<Rightarrow> (True, None)
      | Some (Inr True) \<Rightarrow> (True, None)
      | Some (Inr False) \<Rightarrow> (False, Some (401, ''Unauthorized''))
      | Some (Inl _) \<Rightarrow> (False, Some (401, ''Unauthorized'')))"

fun handleProtocols :: "string list \<Rightarrow> string set \<Rightarrow> string option" where
  "handleProtocols [] offered = None"
| "handleProtocols (preferred # supported) offered = (if preferred \<in> offered then Some preferred else handleProtocols supported offered)"

section \<open>The server\<close>

record server_config =
  sc_host :: "string option"
  sc_path :: "string option"
  sc_supportedProfiles :: "string list option"
  sc_allowHeaderless :: "bool option"
  sc_audioFormat :: "media_format option"

datatype server_effect =
    SocketClosed nat nat string
  | SessionShown nat nat
  | SessionStarted nat nat string
  | SessionErrored nat thrown
  | SessionCloseCalled nat

datatype server_closing = SvOpen | SvClosingSessions "nat list" | SvClosingNative

record server =
  sv_config :: server_config
  sv_server :: bool
  sv_port :: "nat option"
  sv_creating :: "(nat \<times> string) list"
  sv_sessions :: "(nat \<times> nat) list"
  sv_running :: "nat list"
  sv_nextSession :: nat
  sv_closing :: server_closing
  sv_effects :: "server_effect list"

definition new_server :: "server_config \<Rightarrow> server" where
  "new_server cfg = \<lparr>sv_config = cfg, sv_server = False, sv_port = None, sv_creating = [], sv_sessions = [], sv_running = [], sv_nextSession = 0,
     sv_closing = SvOpen, sv_effects = []\<rparr>"

definition supported_profiles :: "server \<Rightarrow> string list" where
  "supported_profiles s = (case sc_supportedProfiles (sv_config s) of None \<Rightarrow> SERVER_PREFERENCE | Some ps \<Rightarrow> ps)"

abbreviation server_inactive :: thrown where
  "server_inactive \<equiv> session_error ''inactive'' ''server is not listening''"

definition requireServer :: "server \<Rightarrow> unit result" where
  "requireServer s = (if sv_server s then Inr () else Inl server_inactive)"

definition server_url :: "server \<Rightarrow> string result" where
  "server_url s = bindR (requireServer s) (\<lambda>_.
     case sv_port s of
       None \<Rightarrow> Inl server_inactive
     | Some port \<Rightarrow> Inr (''ws://'' @ (case sc_host (sv_config s) of None \<Rightarrow> ''127.0.0.1'' | Some h \<Rightarrow> h) @ '':'' @ nat_text 10 port
         @ (case sc_path (sv_config s) of None \<Rightarrow> ''/'' | Some p \<Rightarrow> p)))"

definition server_listen :: "server \<Rightarrow> unit result \<times> server" where
  "server_listen s =
     (if sv_server s then (Inl (session_error ''already_run'' ''server has already started''), s) else (Inr (), s\<lparr>sv_server := True\<rparr>))"

definition server_listening :: "nat \<Rightarrow> server \<Rightarrow> server" where
  "server_listening port s = (if sv_server s then s\<lparr>sv_port := Some port\<rparr> else s)"

section \<open>Connections\<close>

definition server_log :: "server_effect \<Rightarrow> server \<Rightarrow> server" where
  "server_log e s = s\<lparr>sv_effects := sv_effects s @ [e]\<rparr>"

text \<open>\<open>#accept\<close> up to the handler factory.\<close>

definition server_accept :: "nat \<Rightarrow> string \<Rightarrow> server \<Rightarrow> server" where
  "server_accept conn protocol s =
     (if protocol = [] \<and> sc_allowHeaderless (sv_config s) = Some False then server_log (SocketClosed conn 1002 ''WebSocket profile required'') s
      else s\<lparr>sv_creating := sv_creating s @ [(conn, protocol)]\<rparr>)"

definition connection_profile :: "string \<Rightarrow> string" where
  "connection_profile protocol = (if protocol = [] then HEADERLESS_PROFILE else protocol)"

text \<open>
  \<open>#accept\<close> after the handler factory; the transport refuses an invalid audio format.  The session is listed
  and shown to \<open>onSession\<close>, which may throw (\<open>shown\<close>), before it runs.
\<close>

definition setup_failed :: "nat \<Rightarrow> thrown \<Rightarrow> server \<Rightarrow> server" where
  "setup_failed conn e s = server_log (SocketClosed conn 1011 ''Session setup failed'') (server_log (SessionErrored conn e) s)"

definition handler_created :: "nat \<Rightarrow> unit result \<Rightarrow> unit result \<Rightarrow> server \<Rightarrow> server" where
  "handler_created conn r shown s =
     (case map_of (sv_creating s) conn of
        None \<Rightarrow> s
      | Some protocol \<Rightarrow>
          let s1 = s\<lparr>sv_creating := filter (\<lambda>c. fst c \<noteq> conn) (sv_creating s)\<rparr>; i = sv_nextSession s in
          (case bindR r (\<lambda>_. new_websocket \<lparr>wc_protocol = protocol, wc_ping = True, wc_onPong = True,
               wc_audioFormat = sc_audioFormat (sv_config s), wc_inboundCapacity = None\<rparr>) of
             Inl e \<Rightarrow> setup_failed conn e s1
           | Inr _ \<Rightarrow>
               (let s2 = server_log (SessionShown conn i) (s1\<lparr>sv_sessions := sv_sessions s @ [(i, conn)], sv_nextSession := i + 1\<rparr>) in
                case shown of
                  Inl e \<Rightarrow> setup_failed conn e s2
                | Inr _ \<Rightarrow> server_log (SessionStarted conn i (connection_profile protocol)) (s2\<lparr>sv_running := sv_running s @ [i]\<rparr>))))"

text \<open>The promise of \<open>run\<close> settles.\<close>

definition session_over :: "nat \<Rightarrow> unit result \<Rightarrow> server \<Rightarrow> server" where
  "session_over i r s =
     (if i \<notin> set (sv_running s) then s
      else (let s1 = s\<lparr>sv_sessions := filter (\<lambda>x. fst x \<noteq> i) (sv_sessions s), sv_running := removeAll i (sv_running s)\<rparr> in
        case (r, map_of (sv_sessions s) i) of
          (Inl e, Some conn) \<Rightarrow> server_log (SessionErrored conn e) s1
        | _ \<Rightarrow> s1))"

section \<open>Closing\<close>

text \<open>Every session is asked to close; the native server closes when those calls have settled.\<close>

definition server_close :: "server \<Rightarrow> unit result \<times> server" where
  "server_close s =
     (case requireServer s of
        Inl e \<Rightarrow> (Inl e, s)
      | Inr _ \<Rightarrow> (Inr (), s\<lparr>sv_closing := SvClosingSessions (map fst (sv_sessions s)),
          sv_effects := sv_effects s @ map (\<lambda>(i, _). SessionCloseCalled i) (sv_sessions s)\<rparr>))"

definition server_session_closed :: "nat \<Rightarrow> server \<Rightarrow> server" where
  "server_session_closed i s =
     (case sv_closing s of SvClosingSessions is \<Rightarrow> s\<lparr>sv_closing := SvClosingSessions (removeAll i is)\<rparr> | _ \<Rightarrow> s)"

definition sessions_closed :: "server \<Rightarrow> server" where
  "sessions_closed s = (if sv_closing s = SvClosingSessions [] then s\<lparr>sv_closing := SvClosingNative\<rparr> else s)"

definition native_closed :: "server \<Rightarrow> server" where
  "native_closed s = (if sv_closing s = SvClosingNative then s\<lparr>sv_closing := SvOpen, sv_server := False, sv_port := None\<rparr> else s)"

section \<open>Runs\<close>

datatype server_op =
    SvListen
  | SvListening nat
  | SvConnection nat string
  | SvHandler nat "unit result" "unit result"
  | SvSessionOver nat "unit result"
  | SvClose
  | SvSessionClosed nat
  | SvSessionsClosed
  | SvNativeClosed

fun server_step :: "server \<Rightarrow> server_op \<Rightarrow> server" where
  "server_step s SvListen = snd (server_listen s)"
| "server_step s (SvListening p) = server_listening p s"
| "server_step s (SvConnection c p) = server_accept c p s"
| "server_step s (SvHandler c r shown) = handler_created c r shown s"
| "server_step s (SvSessionOver i r) = session_over i r s"
| "server_step s SvClose = snd (server_close s)"
| "server_step s (SvSessionClosed i) = server_session_closed i s"
| "server_step s SvSessionsClosed = sessions_closed s"
| "server_step s SvNativeClosed = native_closed s"

definition run_server :: "server \<Rightarrow> server_op list \<Rightarrow> server" where
  "run_server s ops = foldl server_step s ops"

section \<open>The choice of a profile\<close>

text \<open>
  The server picks the profile it prefers: the chosen subprotocol is offered by the client and supported
  by the server, and every profile that the server prefers to it is not offered; it picks none exactly when
  none of its profiles is offered.
\<close>

theorem handleProtocols_preferred:
  "case handleProtocols supported offered of
     Some p \<Rightarrow> \<exists>better worse. supported = better @ p # worse \<and> p \<in> offered \<and> set better \<inter> offered = {}
   | None \<Rightarrow> set supported \<inter> offered = {}"
proof (induction supported)
  case (Cons q qs)
  consider "q \<in> offered" | "q \<notin> offered" "handleProtocols qs offered = None" | p where "q \<notin> offered" "handleProtocols qs offered = Some p" by (cases "handleProtocols qs offered") auto
  then show ?case
  proof cases
    case 1
    then show ?thesis by (simp, intro exI [of _ "[]"]) simp
  next
    case 2
    then show ?thesis using Cons.IH by simp
  next
    case 3
    then obtain better worse where "qs = better @ p # worse" "p \<in> offered" "set better \<inter> offered = {}" using Cons.IH by auto
    then show ?thesis using 3 by (simp, intro exI [of _ "q # better"]) simp
  qed
qed simp

section \<open>Sessions\<close>

definition started :: "server \<Rightarrow> (nat \<times> nat \<times> string) list" where
  "started s = concat (map (\<lambda>e. case e of SessionStarted c i p \<Rightarrow> [(i, c, p)] | _ \<Rightarrow> []) (sv_effects s))"

definition shown :: "server \<Rightarrow> (nat \<times> nat) list" where
  "shown s = concat (map (\<lambda>e. case e of SessionShown c i \<Rightarrow> [(i, c)] | _ \<Rightarrow> []) (sv_effects s))"

text \<open>The connections that the server has closed, and those of them after a failed set-up.\<close>

definition refused :: "server \<Rightarrow> nat list" where
  "refused s = concat (map (\<lambda>e. case e of SocketClosed c k m \<Rightarrow> [c] | _ \<Rightarrow> []) (sv_effects s))"

definition failed_setups :: "server \<Rightarrow> nat list" where
  "failed_setups s = concat (map (\<lambda>e. case e of SocketClosed c k m \<Rightarrow> if k = 1011 then [c] else [] | _ \<Rightarrow> []) (sv_effects s))"

definition reported :: "server \<Rightarrow> nat list" where
  "reported s = concat (map (\<lambda>e. case e of SessionErrored c e \<Rightarrow> [c] | _ \<Rightarrow> []) (sv_effects s))"

definition connections :: "server_op list \<Rightarrow> (nat \<times> string) list" where
  "connections ops = concat (map (\<lambda>x. case x of SvConnection c p \<Rightarrow> [(c, p)] | _ \<Rightarrow> []) ops)"

text \<open>The sessions whose promise of \<open>run\<close> settled after they had started.\<close>

definition finished :: "server_config \<Rightarrow> server_op list \<Rightarrow> nat set" where
  "finished cfg ops = {i. \<exists>xs r ys. ops = xs @ SvSessionOver i r # ys \<and> i \<in> fst ` set (started (run_server (new_server cfg) xs))}"

lemma finished_Nil: "finished cfg [] = {}"
  by (simp add: finished_def)

lemma finished_snoc:
  "finished cfg (ops @ [x]) = finished cfg ops
     \<union> (case x of SvSessionOver i r \<Rightarrow> {i} \<inter> fst ` set (started (run_server (new_server cfg) ops)) | _ \<Rightarrow> {})"
proof -
  have "(\<exists>ys. ops @ [x] = xs @ y # ys) \<longleftrightarrow> (\<exists>ys. ops = xs @ y # ys) \<or> xs = ops \<and> y = x" for xs y
    by (auto simp: append_eq_append_conv2 Cons_eq_append_conv append_eq_Cons_conv)
  note split = this
  have "i \<in> finished cfg (ops @ [x]) \<longleftrightarrow> i \<in> finished cfg ops \<or> (\<exists>r. x = SvSessionOver i r) \<and> i \<in> fst ` set (started (run_server (new_server cfg) ops))" for i
    unfolding finished_def mem_Collect_eq using split [of _ "SvSessionOver i _"] by blast
  then show ?thesis by (cases x) auto
qed

lemmas effect_lists = started_def shown_def refused_def failed_setups_def reported_def

text \<open>The effects of the steps.\<close>

lemma effects_log [simp]:
  "started (server_log e s) = started s @ (case e of SessionStarted c i p \<Rightarrow> [(i, c, p)] | _ \<Rightarrow> [])"
  "shown (server_log e s) = shown s @ (case e of SessionShown c i \<Rightarrow> [(i, c)] | _ \<Rightarrow> [])"
  "refused (server_log e s) = refused s @ (case e of SocketClosed c k m \<Rightarrow> [c] | _ \<Rightarrow> [])"
  "failed_setups (server_log e s) = failed_setups s @ (case e of SocketClosed c k m \<Rightarrow> if k = 1011 then [c] else [] | _ \<Rightarrow> [])"
  "reported (server_log e s) = reported s @ (case e of SessionErrored c e \<Rightarrow> [c] | _ \<Rightarrow> [])"
  by (simp_all add: effect_lists server_log_def)

lemma log_same [simp]:
  "sv_creating (server_log e s) = sv_creating s" "sv_sessions (server_log e s) = sv_sessions s" "sv_nextSession (server_log e s) = sv_nextSession s"
  "sv_config (server_log e s) = sv_config s" "sv_running (server_log e s) = sv_running s"
  by (simp_all add: server_log_def)

lemma effects_updates [simp]:
  "started (s\<lparr>sv_creating := x\<rparr>) = started s" "started (s\<lparr>sv_sessions := y\<rparr>) = started s" "started (s\<lparr>sv_nextSession := n\<rparr>) = started s"
  "started (s\<lparr>sv_running := z\<rparr>) = started s"
  "shown (s\<lparr>sv_creating := x\<rparr>) = shown s" "shown (s\<lparr>sv_sessions := y\<rparr>) = shown s" "shown (s\<lparr>sv_nextSession := n\<rparr>) = shown s"
  "shown (s\<lparr>sv_running := z\<rparr>) = shown s"
  "refused (s\<lparr>sv_creating := x\<rparr>) = refused s" "refused (s\<lparr>sv_sessions := y\<rparr>) = refused s" "refused (s\<lparr>sv_nextSession := n\<rparr>) = refused s"
  "refused (s\<lparr>sv_running := z\<rparr>) = refused s"
  "failed_setups (s\<lparr>sv_creating := x\<rparr>) = failed_setups s" "failed_setups (s\<lparr>sv_sessions := y\<rparr>) = failed_setups s"
  "failed_setups (s\<lparr>sv_nextSession := n\<rparr>) = failed_setups s" "failed_setups (s\<lparr>sv_running := z\<rparr>) = failed_setups s"
  "reported (s\<lparr>sv_creating := x\<rparr>) = reported s" "reported (s\<lparr>sv_sessions := y\<rparr>) = reported s" "reported (s\<lparr>sv_nextSession := n\<rparr>) = reported s"
  "reported (s\<lparr>sv_running := z\<rparr>) = reported s"
  by (simp_all add: effect_lists)

text \<open>
  Each connection is being set up, closed or has a session (\<open>K\<close> are the connections so far); each session that was
  shown is listed until it is finished (\<open>F\<close>).
\<close>

definition connections_ok :: "(nat \<times> string) list \<Rightarrow> server \<Rightarrow> bool" where
  "connections_ok K s \<longleftrightarrow>
     mset (map fst K) = mset (map fst (sv_creating s)) + mset (refused s) + mset (map (fst \<circ> snd) (started s))
     \<and> set (failed_setups s) \<subseteq> set (reported s)"

definition profiles_ok :: "(nat \<times> string) list \<Rightarrow> server \<Rightarrow> bool" where
  "profiles_ok K s \<longleftrightarrow> (let ok = (\<lambda>c q. (c, q) \<in> set K \<and> (sc_allowHeaderless (sv_config s) = Some False \<longrightarrow> q \<noteq> [])) in
     (\<forall>(c, q) \<in> set (sv_creating s). ok c q) \<and> (\<forall>(i, c, p) \<in> set (started s). \<exists>q. ok c q \<and> p = connection_profile q))"

definition listed_ok :: "nat set \<Rightarrow> server \<Rightarrow> bool" where
  "listed_ok F s \<longleftrightarrow> distinct (map fst (shown s)) \<and> (\<forall>i \<in> fst ` set (shown s). i < sv_nextSession s)
     \<and> (\<forall>(i, c) \<in> set (shown s). (\<exists>p. (i, c, p) \<in> set (started s)) \<or> c \<in> set (failed_setups s))
     \<and> fst ` set (started s) \<subseteq> fst ` set (shown s) \<and> F \<subseteq> fst ` set (started s)
     \<and> set (sv_running s) = fst ` set (started s) - F \<and> set (sv_sessions s) = {x \<in> set (shown s). fst x \<notin> F}"

definition server_ok :: "(nat \<times> string) list \<Rightarrow> nat set \<Rightarrow> server \<Rightarrow> bool" where
  "server_ok K F s \<longleftrightarrow> connections_ok K s \<and> profiles_ok K s \<and> listed_ok F s"

lemma server_same:
  assumes "server_ok K F s" "started s' = started s" "shown s' = shown s" "refused s' = refused s" "failed_setups s' = failed_setups s"
    "reported s' = reported s" "sv_creating s' = sv_creating s" "sv_config s' = sv_config s"
    "sv_sessions s' = sv_sessions s" "sv_running s' = sv_running s" "sv_nextSession s' = sv_nextSession s"
  shows "server_ok K F s'"
  using assms by (simp add: server_ok_def connections_ok_def profiles_ok_def listed_ok_def)

lemma accept_ok:
  assumes "server_ok K F s"
  shows "server_ok (K @ [(c, q)]) F (server_accept c q s)"
proof (cases "q = [] \<and> sc_allowHeaderless (sv_config s) = Some False")
  case True
  then show ?thesis using assms by (auto simp: server_accept_def server_ok_def connections_ok_def profiles_ok_def listed_ok_def Let_def)
next
  case False
  then have "server_accept c q s = s\<lparr>sv_creating := sv_creating s @ [(c, q)]\<rparr>" by (simp only: server_accept_def if_False)
  moreover have "profiles_ok (K @ [(c, q)]) (s\<lparr>sv_creating := sv_creating s @ [(c, q)]\<rparr>)"
    using assms False by (auto simp: server_ok_def profiles_ok_def Let_def)
  ultimately show ?thesis using assms by (simp add: server_ok_def connections_ok_def listed_ok_def)
qed

text \<open>Taking a connection from those that are being set up.\<close>

lemma remove_creating:
  assumes "distinct (map fst cr)" "map_of cr c = Some q"
  shows "mset (map fst cr) = add_mset c (mset (map fst (filter (\<lambda>x. fst x \<noteq> c) cr)))"
  using assms
proof (induction cr)
  case (Cons x cr)
  show ?case
  proof (cases "fst x = c")
    case True
    then have "filter (\<lambda>y. fst y \<noteq> c) cr = cr" using Cons.prems(1) by (auto simp: filter_id_conv image_iff)
    then show ?thesis using True by simp
  next
    case False
    then show ?thesis using Cons by (cases x) auto
  qed
qed simp

lemma creating_distinct: "connections_ok K s \<Longrightarrow> distinct (map fst K) \<Longrightarrow> distinct (map fst (sv_creating s))"
  unfolding connections_ok_def by (metis distinct_append mset_append mset_eq_imp_distinct_iff)

lemma setup_failed_ok:
  assumes "server_ok K F s" "distinct (map fst K)" "map_of (sv_creating s) c = Some q"
  shows "server_ok K F (setup_failed c e (s\<lparr>sv_creating := filter (\<lambda>x. fst x \<noteq> c) (sv_creating s)\<rparr>))"
  using assms remove_creating [OF creating_distinct assms(3)]
  by (auto simp: server_ok_def setup_failed_def connections_ok_def profiles_ok_def listed_ok_def Let_def)

text \<open>A session is created: \<open>onSession\<close> throws, or it starts.\<close>

lemma session_created_ok:
  assumes "server_ok K F s" "distinct (map fst K)" "map_of (sv_creating s) c = Some q"
    and s2: "s2 = server_log (SessionShown c (sv_nextSession s))
      (s\<lparr>sv_creating := filter (\<lambda>x. fst x \<noteq> c) (sv_creating s), sv_sessions := sv_sessions s @ [(sv_nextSession s, c)], sv_nextSession := sv_nextSession s + 1\<rparr>)"
  shows "server_ok K F (setup_failed c e s2)"
    and "server_ok K F (server_log (SessionStarted c (sv_nextSession s) (connection_profile q)) (s2\<lparr>sv_running := sv_running s @ [sv_nextSession s]\<rparr>))"
proof -
  let ?i = "sv_nextSession s"
  have s: "connections_ok K s" "profiles_ok K s" "listed_ok F s" using assms(1) by (simp_all add: server_ok_def)
  note m = remove_creating [OF creating_distinct [OF s(1) assms(2)] assms(3)]
  have q: "(c, q) \<in> set (sv_creating s)" using assms(3) by (rule map_of_SomeD)
  have new: "?i \<notin> fst ` set (shown s)" "?i \<notin> F" "?i \<notin> fst ` set (started s)"
  proof -
    show "?i \<notin> fst ` set (shown s)" using s(3) unfolding listed_ok_def by (metis less_irrefl)
    then show "?i \<notin> fst ` set (started s)" using s(3) unfolding listed_ok_def by blast
    then show "?i \<notin> F" using s(3) unfolding listed_ok_def by blast
  qed
  show "server_ok K F (setup_failed c e s2)"
    using s m new unfolding s2
    by (auto simp: server_ok_def setup_failed_def connections_ok_def profiles_ok_def listed_ok_def Let_def)
  have "connections_ok K (server_log (SessionStarted c ?i (connection_profile q)) (s2\<lparr>sv_running := sv_running s @ [?i]\<rparr>))"
    using s(1) m unfolding s2 by (simp add: connections_ok_def)
  moreover have "profiles_ok K (server_log (SessionStarted c ?i (connection_profile q)) (s2\<lparr>sv_running := sv_running s @ [?i]\<rparr>))"
    using s(2) q unfolding s2 by (auto simp: profiles_ok_def Let_def)
  moreover have "listed_ok F (server_log (SessionStarted c ?i (connection_profile q)) (s2\<lparr>sv_running := sv_running s @ [?i]\<rparr>))"
    using s(3) new unfolding s2 by (auto simp: listed_ok_def)
  ultimately show "server_ok K F (server_log (SessionStarted c ?i (connection_profile q)) (s2\<lparr>sv_running := sv_running s @ [?i]\<rparr>))"
    by (simp add: server_ok_def)
qed

lemma handler_ok:
  assumes "server_ok K F s" "distinct (map fst K)"
  shows "server_ok K F (handler_created c r sh s)"
proof (cases "map_of (sv_creating s) c")
  case (Some q)
  then show ?thesis
    using setup_failed_ok [OF assms Some] session_created_ok [OF assms Some refl]
    by (simp add: handler_created_def Let_def split: sum.split)
qed (use assms in \<open>simp add: handler_created_def\<close>)

lemma over_ok:
  assumes "server_ok K F s"
  shows "server_ok K (F \<union> ({i} \<inter> fst ` set (started s))) (session_over i r s)"
proof (cases "i \<in> set (sv_running s)")
  case True
  then have i: "i \<in> fst ` set (started s)" "i \<notin> F" using assms by (auto simp: server_ok_def listed_ok_def)
  let ?s1 = "s\<lparr>sv_sessions := filter (\<lambda>x. fst x \<noteq> i) (sv_sessions s), sv_running := removeAll i (sv_running s)\<rparr>"
  have "connections_ok K ?s1" "profiles_ok K ?s1" using assms by (simp_all add: server_ok_def connections_ok_def profiles_ok_def)
  moreover have "listed_ok (insert i F) ?s1" using assms i by (auto simp: server_ok_def listed_ok_def)
  ultimately have ok: "server_ok K (insert i F) ?s1" by (simp add: server_ok_def)
  then have "server_ok K (insert i F) (server_log (SessionErrored c e) ?s1)" for c e
    by (auto simp: server_ok_def connections_ok_def profiles_ok_def listed_ok_def Let_def)
  then show ?thesis using ok True i by (simp add: session_over_def Let_def split: sum.split option.split)
next
  case False
  then have "{i} \<inter> fst ` set (started s) \<subseteq> F" using assms by (auto simp: server_ok_def listed_ok_def)
  then have "F \<union> ({i} \<inter> fst ` set (started s)) = F" by blast
  then show ?thesis using False assms by (simp add: session_over_def)
qed

lemma server_close_ok: "server_ok K F s \<Longrightarrow> server_ok K F (snd (server_close s))"
  by (erule server_same) (simp_all add: server_close_def effect_lists comp_def split_beta concat_eq_Nil_conv split: sum.split)

lemma server_step_config [simp]: "sv_config (server_step s x) = sv_config s"
  by (cases x) (simp_all add: server_listen_def server_listening_def server_accept_def handler_created_def setup_failed_def session_over_def server_close_def
      server_session_closed_def sessions_closed_def native_closed_def Let_def split: option.split sum.split server_closing.split)

lemma run_server_ok:
  "distinct (map fst (connections ops)) \<Longrightarrow> server_ok (connections ops) (finished cfg ops) (run_server (new_server cfg) ops)
   \<and> sv_config (run_server (new_server cfg) ops) = cfg"
proof (induction ops rule: rev_induct)
  case Nil
  then show ?case
    by (simp add: run_server_def server_ok_def connections_ok_def profiles_ok_def listed_ok_def effect_lists new_server_def connections_def finished_Nil Let_def)
next
  case (snoc x ops)
  let ?s = "run_server (new_server cfg) ops"
  have run: "run_server (new_server cfg) (ops @ [x]) = server_step ?s x" by (simp add: run_server_def)
  have conn: "connections (ops @ [x]) = connections ops @ connections [x]" by (simp add: connections_def)
  have d: "distinct (map fst (connections ops))" using snoc.prems conn by simp
  have ok: "server_ok (connections ops) (finished cfg ops) ?s" "sv_config ?s = cfg" using snoc.IH d by auto
  have same: "server_ok (connections (ops @ [x])) (finished cfg (ops @ [x])) s'"
    if "connections [x] = []" "\<And>i r. x \<noteq> SvSessionOver i r" "sv_effects s' = sv_effects ?s" "sv_creating s' = sv_creating ?s" "sv_config s' = sv_config ?s"
      "sv_sessions s' = sv_sessions ?s" "sv_running s' = sv_running ?s" "sv_nextSession s' = sv_nextSession ?s" for s'
  proof -
    have "finished cfg (ops @ [x]) = finished cfg ops" using that(2) by (auto simp: finished_snoc split: server_op.split)
    moreover have "server_ok (connections ops) (finished cfg ops) s'"
      by (rule server_same [OF ok(1)]) (simp_all only: effect_lists that(3-8))
    ultimately show ?thesis using that(1) by (simp add: conn)
  qed
  have "server_ok (connections (ops @ [x])) (finished cfg (ops @ [x])) (server_step ?s x)"
  proof (cases x)
    case (SvConnection c q)
    then show ?thesis using accept_ok [OF ok(1)] by (simp add: finished_snoc conn) (simp add: connections_def)
  next
    case (SvSessionOver i r)
    then show ?thesis using over_ok [OF ok(1)] by (simp add: finished_snoc conn) (simp add: connections_def)
  next
    case (SvHandler c r sh)
    then show ?thesis using handler_ok [OF ok(1) d] by (simp add: finished_snoc conn) (simp add: connections_def)
  next
    case SvClose
    then show ?thesis using server_close_ok [OF ok(1)] by (simp add: finished_snoc conn) (simp add: connections_def)
  qed (rule same; simp add: connections_def server_listen_def server_listening_def server_session_closed_def sessions_closed_def
      native_closed_def split: server_closing.split)+
  then show ?case unfolding run using ok(2) by simp
qed

text \<open>
  Claim C33.  The connections and sessions of a server are accounted for, when connections have distinct numbers.  Every
  connection is in exactly one of three places: it is being set up, or the server has closed its socket, or exactly
  one session has been started for it; a set-up that failed has been reported.  A session runs with the profile
  negotiated for its connection, which is not headerless when \<open>allowHeaderless\<close> is false.  The server lists exactly
  the sessions it has created and whose run has not settled since: a finished session is removed.  A session
  that never starts, because \<open>onSession\<close> throws, stays listed and its socket is closed.
\<close>

theorem server_sessions_accounted:
  assumes "distinct (map fst (connections ops))" "s = run_server (new_server cfg) ops"
  shows "mset (map fst (connections ops)) = mset (map fst (sv_creating s)) + mset (refused s) + mset (map (fst \<circ> snd) (started s))
    \<and> set (failed_setups s) \<subseteq> set (reported s)
    \<and> (\<forall>(i, c, p) \<in> set (started s). \<exists>q. (c, q) \<in> set (connections ops) \<and> p = connection_profile q \<and> (sc_allowHeaderless cfg = Some False \<longrightarrow> q \<noteq> []))
    \<and> distinct (map fst (shown s)) \<and> fst ` set (started s) \<subseteq> fst ` set (shown s)
    \<and> set (sv_sessions s) = {x \<in> set (shown s). fst x \<notin> finished cfg ops}
    \<and> (\<forall>(i, c) \<in> set (shown s). (\<exists>p. (i, c, p) \<in> set (started s)) \<or> c \<in> set (failed_setups s))"
proof -
  have ok: "connections_ok (connections ops) s" "profiles_ok (connections ops) s" "listed_ok (finished cfg ops) s" "sv_config s = cfg"
    using run_server_ok [OF assms(1)] assms(2) by (auto simp: server_ok_def)
  have "\<forall>(i, c, p) \<in> set (started s). \<exists>q. (c, q) \<in> set (connections ops) \<and> p = connection_profile q \<and> (sc_allowHeaderless cfg = Some False \<longrightarrow> q \<noteq> [])"
    using ok(2,4) unfolding profiles_ok_def Let_def by blast
  then show ?thesis using ok(1,3) unfolding connections_ok_def listed_ok_def by simp
qed

definition strict_config :: server_config where
  "strict_config = \<lparr>sc_host = None, sc_path = None, sc_supportedProfiles = None, sc_allowHeaderless = Some False, sc_audioFormat = None\<rparr>"

theorem server_sessions_accounted_witness:
  "let s = run_server (new_server strict_config) [SvListen, SvConnection 0 [], SvConnection 1 ''rtvbp.v1'', SvConnection 2 ''rtvbp.v1'',
       SvHandler 0 (Inr ()) (Inr ()), SvHandler 1 (Inr ()) (Inr ()), SvHandler 2 (Inr ()) (Inl (JsError ''no'')), SvSessionOver 0 (Inr ())]
   in started s = [(0, 1, ''rtvbp.v1'')] \<and> refused s = [0, 2] \<and> set (sv_sessions s) = {(1, 2)}"
proof -
  let ?ops = "[SvListen, SvConnection 0 [], SvConnection 1 ''rtvbp.v1'', SvConnection 2 ''rtvbp.v1'',
       SvHandler 0 (Inr ()) (Inr ()), SvHandler 1 (Inr ()) (Inr ()), SvHandler 2 (Inr ()) (Inl (JsError ''no'')), SvSessionOver 0 (Inr ())]"
  let ?s = "run_server (new_server strict_config) ?ops"
  have d: "distinct (map fst (connections ?ops))" by (simp add: connections_def)
  have s: "started ?s = [(0, 1, ''rtvbp.v1'')]" "refused ?s = [0, 2]" "shown ?s = [(0, 1), (1, 2)]" by code_simp+
  have "started (run_server (new_server strict_config) (butlast ?ops)) = [(0, 1, ''rtvbp.v1'')]" by code_simp
  then have "finished strict_config ?ops = {0}"
    using finished_snoc [of strict_config "butlast ?ops" "last ?ops"]
    by (auto simp: finished_def Cons_eq_append_conv)
  with server_sessions_accounted [OF d refl, of strict_config] s show ?thesis by (auto simp: Let_def)
qed

end
