(* ===== verification/Webrtc_Signaling.thy ===== *)
theory Webrtc_Signaling
  imports Node_Socket Browser_Auth Serialization
begin

text \<open>
  \<open>browser_webrtc.ts\<close>: how the offerer of the WebRTC profile connects.  The peer connection, the microphone and the
  control channel are known by the outcomes of their calls, which \<open>peer_env\<close> collects; the envelope is a
  pair of functions.
\<close>

section \<open>Session descriptions\<close>

definition MAX_SIGNAL_BYTES :: nat where "MAX_SIGNAL_BYTES = 1048576"
definition MAX_SDP_BYTES :: nat where "MAX_SDP_BYTES = 524288"

definition text_bytes :: "string \<Rightarrow> nat" where
  "text_bytes s = length (utf8 s)"

lemma text_bytes_0 [simp]: "text_bytes s = 0 \<longleftrightarrow> s = []"
  by (cases s) (simp_all add: text_bytes_def utf8_def utf8_char_def Let_def)

text \<open>\<open>None\<close> is \<open>undefined\<close>.\<close>

definition validateSdp :: "json option \<Rightarrow> string result" where
  "validateSdp v =
     (case v of
        Some (JStr s) \<Rightarrow>
          if s = [] \<or> text_bytes s > MAX_SDP_BYTES then Inl (session_error ''webrtc_sdp'' ''WebRTC SDP size is invalid'') else Inr s
      | _ \<Rightarrow> Inl (session_error ''webrtc_sdp'' ''WebRTC SDP size is invalid''))"

definition sdp_ok :: "string \<Rightarrow> bool" where
  "sdp_ok s \<longleftrightarrow> s \<noteq> [] \<and> text_bytes s \<le> MAX_SDP_BYTES"

lemma validateSdp_Inr_iff: "validateSdp v = Inr s \<longleftrightarrow> v = Some (JStr s) \<and> sdp_ok s"
  by (auto simp: validateSdp_def sdp_ok_def split: option.splits json.splits)

section \<open>The peer connection\<close>

datatype ice_event = IceState bool | IceAbort thrown

text \<open>
  \<open>waitForIceGathering\<close>: \<open>IceState gathered\<close> is a change of the gathering state; the first event that settles the
  promise removes both listeners.
\<close>

fun ice_wait :: "ice_event list \<Rightarrow> unit result option" where
  "ice_wait [] = None"
| "ice_wait (IceState gathered # evs) = (if gathered then Some (Inr ()) else ice_wait evs)"
| "ice_wait (IceAbort reason # evs) = Some (Inl (aborted (AbortedSignal reason)))"

definition waitForIceGathering :: "bool \<Rightarrow> signal \<Rightarrow> ice_event list \<Rightarrow> unit result option" where
  "waitForIceGathering gathered sig evs =
     (case throwIfAborted sig of
        Inl e \<Rightarrow> Some (Inl e)
      | Inr _ \<Rightarrow> if gathered then Some (Inr ()) else ice_wait evs)"

record peer_env =
  pe_createOffer :: "unit result"
  pe_setLocal :: "unit result"
  pe_iceComplete :: bool
  pe_iceEvents :: "ice_event list"
  pe_localSdp :: "string option"
  pe_uuid :: "string option"
  pe_send :: "string \<Rightarrow> unit result"
  pe_receive :: "string \<Rightarrow> string result"
  pe_setRemote :: "string \<Rightarrow> unit result"

definition signalId :: "string option \<Rightarrow> string result" where
  "signalId uuid = (case uuid of
     None \<Rightarrow> Inl (session_error ''webrtc_signaling'' ''secure browser randomness is unavailable'') | Some u \<Rightarrow> Inr u)"

section \<open>Offer and answer\<close>

definition offer_frame :: "string \<Rightarrow> string \<Rightarrow> wire_value control_frame" where
  "offer_frame i sdp = Request i SIGNALING_TRANSPORT_WEBRTC_OFFER (Some (embed (JObj [(''sdp'', JStr sdp)])))"

definition offer_text :: "(wire_value control_frame \<Rightarrow> string result) \<Rightarrow> string option \<Rightarrow> string option \<Rightarrow> (string \<times> string) result" where
  "offer_text encode localSdp uuid =
     bindR (validateSdp (map_option JStr localSdp)) (\<lambda>sdp.
     bindR (signalId uuid) (\<lambda>i.
     bindR (encode (offer_frame i sdp)) (\<lambda>encoded.
     bindR (guardR (text_bytes encoded \<le> MAX_SIGNAL_BYTES)
       (session_error ''webrtc_signaling'' ''encoded WebRTC offer exceeds signaling limit'')) (\<lambda>_.
     Inr (i, encoded)))))"

definition answer_sdp :: "(string \<Rightarrow> json control_frame result) \<Rightarrow> string \<Rightarrow> string \<Rightarrow> string result" where
  "answer_sdp decode i received =
     bindR (guardR (text_bytes received \<noteq> 0 \<and> text_bytes received \<le> MAX_SIGNAL_BYTES)
       (session_error ''webrtc_signaling'' ''WebRTC answer frame size is invalid'')) (\<lambda>_.
     bindR (decode received) (\<lambda>frame.
     case frame of
       Response c r err \<Rightarrow>
         if c \<noteq> i then Inl (session_error ''webrtc_signaling'' ''received an unexpected WebRTC answer frame'')
         else (case err of
             Some e \<Rightarrow> Inl (session_error ''webrtc_rejected'' (''WebRTC offer was rejected ('' @ number_text (err_code e) @ '')''))
           | None \<Rightarrow> (case r of Some (JObj ps) \<Rightarrow> validateSdp (prop_of ps ''sdp'') | _ \<Rightarrow> validateSdp None))
     | _ \<Rightarrow> Inl (session_error ''webrtc_signaling'' ''received an unexpected WebRTC answer frame'')))"

text \<open>What a negotiation hands to the control channel and sets as the remote description, and how it ends (\<open>None\<close>: it waits).\<close>

record negotiation =
  ng_sent :: "string list"
  ng_remote :: "string list"
  ng_outcome :: "unit result option"

abbreviation ng_failed :: "thrown \<Rightarrow> negotiation" where
  "ng_failed e \<equiv> \<lparr>ng_sent = [], ng_remote = [], ng_outcome = Some (Inl e)\<rparr>"

definition exchange :: "(string \<Rightarrow> json control_frame result) \<Rightarrow> peer_env \<Rightarrow> string \<Rightarrow> string \<Rightarrow> negotiation" where
  "exchange decode env i encoded =
     (case bindR (pe_send env encoded) (\<lambda>_. bindR (pe_receive env encoded) (answer_sdp decode i)) of
        Inl e \<Rightarrow> \<lparr>ng_sent = [encoded], ng_remote = [], ng_outcome = Some (Inl e)\<rparr>
      | Inr answer \<Rightarrow> \<lparr>ng_sent = [encoded], ng_remote = [answer], ng_outcome = Some (pe_setRemote env answer)\<rparr>)"

definition negotiateOffer ::
  "(wire_value control_frame \<Rightarrow> string result) \<Rightarrow> (string \<Rightarrow> json control_frame result) \<Rightarrow> signal \<Rightarrow> peer_env \<Rightarrow> negotiation" where
  "negotiateOffer encode decode sig env =
     (case bindR (pe_createOffer env) (\<lambda>_. pe_setLocal env) of
        Inl e \<Rightarrow> ng_failed e
      | Inr _ \<Rightarrow>
          (case waitForIceGathering (pe_iceComplete env) sig (pe_iceEvents env) of
             None \<Rightarrow> \<lparr>ng_sent = [], ng_remote = [], ng_outcome = None\<rparr>
           | Some (Inl e) \<Rightarrow> ng_failed e
           | Some (Inr _) \<Rightarrow>
               (case offer_text encode (pe_localSdp env) (pe_uuid env) of
                  Inl e \<Rightarrow> ng_failed e
                | Inr (i, encoded) \<Rightarrow> exchange decode env i encoded)))"

section \<open>What the envelope must do\<close>

text \<open>The offer and its answer reach the other side as they are.\<close>

definition answer_frame :: "string \<Rightarrow> string \<Rightarrow> wire_value control_frame" where
  "answer_frame i sdp = Response i (Some (embed (JObj [(''sdp'', JStr sdp)]))) None"

locale signaling = envelope_codec +
  assumes encoded_text: "encode f = Inr s \<Longrightarrow> s \<noteq> []"
    and offer_encodes: "i \<noteq> [] \<Longrightarrow> \<exists>s. encode (offer_frame i sdp) = Inr s"
    and answer_encodes: "i \<noteq> [] \<Longrightarrow> \<exists>s. encode (answer_frame i sdp) = Inr s"
    and offer_delivered: "deliverable (offer_frame i sdp)"
      "delivered (offer_frame i sdp) = Request i SIGNALING_TRANSPORT_WEBRTC_OFFER (Some (JObj [(''sdp'', JStr sdp)]))"
    and answer_delivered: "deliverable (answer_frame i sdp)"
      "delivered (answer_frame i sdp) = Response i (Some (JObj [(''sdp'', JStr sdp)])) None"
begin

lemma offer_received: "encode (offer_frame i sdp) = Inr s \<Longrightarrow>
    decode s = Inr (Request i SIGNALING_TRANSPORT_WEBRTC_OFFER (Some (JObj [(''sdp'', JStr sdp)])))"
  using roundtrip offer_delivered by metis

lemma answer_accepted:
  assumes "encode (answer_frame i sdp) = Inr s" "sdp_ok sdp" "text_bytes s \<le> MAX_SIGNAL_BYTES"
  shows "answer_sdp decode i s = Inr sdp"
  using roundtrip [OF assms(1)] answer_delivered assms(2,3) encoded_text [OF assms(1)]
  by (simp add: answer_sdp_def guardR_def validateSdp_Inr_iff)

end

lemma classic_frames:
  "frameSpec CLASSIC_V1_DESCRIPTOR KRequest = Inr (classic_shape KRequest)"
  "frameSpec CLASSIC_V1_DESCRIPTOR KResponse = Inr (classic_shape KResponse)"
  "frameSpec CLASSIC_V1_DESCRIPTOR KEvent = Inr (classic_shape KEvent)"
  by code_simp+

lemma sdp_object: "json_of (embed (JObj [(''sdp'', JStr sdp)])) = JObj [(''sdp'', JStr sdp)]"
  by (simp add: json_of_embed_obj own_order_def)

lemma sdp_entries: "plain_entries True [(''sdp'', Data (WStr sdp))] = Inr [(''sdp'', WStr sdp)]"
  by (simp add: plain_entries_def own_order_def array_index_def)

sublocale json_library \<subseteq> webrtc: signaling "encode_frame CLASSIC_V1_DESCRIPTOR"
  "decode_frame parse isSafeNumber CLASSIC_V1_DESCRIPTOR" frame_transportable classic_delivered
proof
  fix i sdp
  show "s \<noteq> []" if "encode_frame CLASSIC_V1_DESCRIPTOR f = Inr s" for f s
    using that by (auto simp: encode_frame_def bindR_Inr_iff wireObject_def encode_members_def)
  show "\<exists>s. encode_frame CLASSIC_V1_DESCRIPTOR (offer_frame i sdp) = Inr s" if "i \<noteq> []"
    using that by (simp add: encode_frame_def frameSpec_def offer_frame_def CLASSIC_V1_DESCRIPTOR_def call_entries_def SIGNALING_TRANSPORT_WEBRTC_OFFER_def
        constant_entries_def optional_entry_def wireObject_def encode_members_def sdp_entries)
  show "\<exists>s. encode_frame CLASSIC_V1_DESCRIPTOR (answer_frame i sdp) = Inr s" if "i \<noteq> []"
    using that by (simp add: encode_frame_def frameSpec_def answer_frame_def CLASSIC_V1_DESCRIPTOR_def response_entries_def
        constant_entries_def optional_entry_def wireObject_def encode_members_def sdp_entries)
  show "frame_transportable (offer_frame i sdp)" "frame_transportable (answer_frame i sdp)"
    by (simp_all add: offer_frame_def answer_frame_def transportable_def sdp_object del: embed.simps)
  show "classic_delivered (offer_frame i sdp) = Request i SIGNALING_TRANSPORT_WEBRTC_OFFER (Some (JObj [(''sdp'', JStr sdp)]))"
    "classic_delivered (answer_frame i sdp) = Response i (Some (JObj [(''sdp'', JStr sdp)])) None"
    by (simp_all add: offer_frame_def answer_frame_def classic_delivered_def decoded_field_def sdp_object del: embed.simps)
qed

section \<open>The factory\<close>

record rtp_codec =
  cd_mimeType :: string
  cd_clockRate :: js_number
  cd_channels :: "js_number option"

definition is_pcmu :: "rtp_codec \<Rightarrow> bool" where
  "is_pcmu c \<longleftrightarrow> toLowerCase (cd_mimeType c) = ''audio/pcmu'' \<and> num_eq (cd_clockRate c) (Fin 8000)
     \<and> (case cd_channels c of None \<Rightarrow> True | Some n \<Rightarrow> num_eq n (Fin 1))"

text \<open>The capabilities are those of the configuration or of the browser; \<open>None\<close> is \<open>null\<close>.\<close>

definition pcmuCodec :: "rtp_codec list option \<Rightarrow> rtp_codec result" where
  "pcmuCodec capabilities =
     (case Option.bind capabilities (find is_pcmu) of
        None \<Rightarrow> Inl (session_error ''webrtc_codec'' ''browser does not expose mandatory PCMU/8000/1 WebRTC audio'')
      | Some c \<Rightarrow> Inr c)"

definition codec_policy :: "rtp_codec list option \<Rightarrow> (rtp_codec \<Rightarrow> unit result) \<Rightarrow> unit result" where
  "codec_policy capabilities setPreferences =
     (case bindR (pcmuCodec capabilities) setPreferences of
        Inl e \<Rightarrow> Inl (SessionError ''webrtc_codec'' ''browser refused the PCMU-only codec policy'' (Some e))
      | Inr _ \<Rightarrow> Inr ())"

definition webrtc_positiveTimeout :: "js_number \<Rightarrow> string \<Rightarrow> nat result" where
  "webrtc_positiveTimeout v name =
     (case positive_safe v of
        None \<Rightarrow> Inl (session_error ''configuration'' (name @ '' must be a positive safe integer''))
      | Some n \<Rightarrow> Inr n)"

record webrtc_config =
  rc_socket :: browser_ws_config
  rc_negotiationTimeoutMs :: "js_number option"
  rc_connectionTimeoutMs :: "js_number option"

text \<open>\<open>browserWebRtcTransport\<close> itself: the subprotocols it will offer and the negotiation timeout.\<close>

definition webrtc_setup :: "webrtc_config \<Rightarrow> (string list \<times> nat) result" where
  "webrtc_setup cfg =
     (let protocols = (case bw_protocols (rc_socket cfg) of None \<Rightarrow> [PROFILE_RTVBP_WEBRTC_V1] | Some ps \<Rightarrow> ps) in
      bindR (guardR (protocols \<noteq> [] \<and> hd protocols = PROFILE_RTVBP_WEBRTC_V1) (session_error ''configuration''
        (''browser WebRTC protocols must start with '' @ quoted PROFILE_RTVBP_WEBRTC_V1))) (\<lambda>_.
      bindR (webrtc_positiveTimeout (case rc_negotiationTimeoutMs cfg of None \<Rightarrow> jsInt 15000 | Some x \<Rightarrow> x) ''WebRTC negotiation timeout'') (\<lambda>timeout.
      bindR (webrtc_positiveTimeout (case rc_connectionTimeoutMs cfg of None \<Rightarrow> jsInt 15000 | Some x \<Rightarrow> x) ''WebRTC connection timeout'') (\<lambda>_.
      Inr (protocols, timeout)))))"

definition webrtc_socket :: "webrtc_config \<Rightarrow> string list \<Rightarrow> browser_ws_config" where
  "webrtc_socket cfg protocols = (rc_socket cfg)\<lparr>bw_protocols := Some protocols, bw_audioFormat := None\<rparr>"

text \<open>
  The factory once the socket is open.  \<open>created\<close> is the peer connection, \<open>prepared\<close> the microphone track, when a
  device is configured, \<open>early\<close> what reaches the timeout before the negotiation settles.  The result with what the
  clean-up closes: the peer connection and the socket.
\<close>

record connect_env =
  ce_created :: "unit result"
  ce_prepared :: "unit result option"
  ce_transceiver :: "unit result"
  ce_capabilities :: "rtp_codec list option"
  ce_setPreferences :: "rtp_codec \<Rightarrow> unit result"
  ce_peer :: peer_env
  ce_early :: "unit race_event list"

record connected =
  cn_result :: "unit result option"
  cn_peerClosed :: bool
  cn_baseClosed :: bool
  cn_negotiation :: "negotiation option"

definition negotiation_events :: "negotiation \<Rightarrow> unit race_event list" where
  "negotiation_events ng = (case ng_outcome ng of None \<Rightarrow> [] | Some (Inl e) \<Rightarrow> [PromiseRejects e] | Some (Inr _) \<Rightarrow> [PromiseResolves ()])"

definition connect_prelude :: "string \<Rightarrow> connect_env \<Rightarrow> unit result" where
  "connect_prelude protocol env =
     bindR (guardR (protocol = PROFILE_RTVBP_WEBRTC_V1) (session_error ''unsupported_subprotocol''
       (''server selected '' @ quoted protocol @ '', expected '' @ quoted PROFILE_RTVBP_WEBRTC_V1))) (\<lambda>_.
     bindR (ce_created env) (\<lambda>_.
     bindR (case ce_prepared env of None \<Rightarrow> Inr () | Some r \<Rightarrow> r) (\<lambda>_.
     bindR (ce_transceiver env) (\<lambda>_.
     codec_policy (ce_capabilities env) (ce_setPreferences env)))))"

definition webrtc_connect ::
  "(wire_value control_frame \<Rightarrow> string result) \<Rightarrow> (string \<Rightarrow> json control_frame result) \<Rightarrow> nat \<Rightarrow> string \<Rightarrow> signal \<Rightarrow> connect_env \<Rightarrow> connected" where
  "webrtc_connect encode decode timeout protocol sig env =
     (let made = (protocol = PROFILE_RTVBP_WEBRTC_V1 \<and> \<not> isl (ce_created env)) in
      case connect_prelude protocol env of
        Inl e \<Rightarrow> \<lparr>cn_result = Some (Inl e), cn_peerClosed = made, cn_baseClosed = True, cn_negotiation = None\<rparr>
      | Inr _ \<Rightarrow>
          (let ng = negotiateOffer encode decode sig (ce_peer env) in
           case withTimeout (jsInt (int timeout)) ''webrtc_negotiation_timeout'' ''WebRTC offer/answer did not complete before its deadline''
                  sig (ce_early env @ negotiation_events ng) of
             Inl e \<Rightarrow> \<lparr>cn_result = Some (Inl e), cn_peerClosed = made, cn_baseClosed = True, cn_negotiation = Some ng\<rparr>
           | Inr race \<Rightarrow> \<lparr>cn_result = outcome_of race, cn_peerClosed = made \<and> (case outcome_of race of Some (Inl _) \<Rightarrow> True | _ \<Rightarrow> False),
               cn_baseClosed = (case outcome_of race of Some (Inl _) \<Rightarrow> True | _ \<Rightarrow> False), cn_negotiation = Some ng\<rparr>))"

section \<open>Properties\<close>

text \<open>The other side of an offer: it reads the frame and answers with a description of its own.\<close>

definition answerer ::
  "(wire_value control_frame \<Rightarrow> string result) \<Rightarrow> (string \<Rightarrow> json control_frame result) \<Rightarrow> (string \<Rightarrow> string) \<Rightarrow> string \<Rightarrow> string result" where
  "answerer encode decode respond text =
     bindR (decode text) (\<lambda>frame.
     case frame of
       Request i m (Some (JObj ps)) \<Rightarrow>
         (case (m = SIGNALING_TRANSPORT_WEBRTC_OFFER, prop_of ps ''sdp'') of
            (True, Some (JStr sdp)) \<Rightarrow> encode (answer_frame i (respond sdp))
          | _ \<Rightarrow> Inl (EnvelopeError ''not an offer''))
     | _ \<Rightarrow> Inl (EnvelopeError ''not an offer''))"

context signaling
begin

lemma negotiation_settles:
  assumes "bindR (pe_createOffer env) (\<lambda>_. pe_setLocal env) = Inr ()"
    and "waitForIceGathering (pe_iceComplete env) sig (pe_iceEvents env) = Some (Inr ())"
    and "pe_localSdp env = Some sdp" "sdp_ok sdp" "pe_uuid env = Some i" "i \<noteq> []"
    and "encode (offer_frame i sdp) = Inr text" "text_bytes text \<le> MAX_SIGNAL_BYTES" "pe_send env text = Inr ()"
    and "pe_receive env text = answerer encode decode respond text" "sdp_ok (respond sdp)"
    and "\<And>reply. encode (answer_frame i (respond sdp)) = Inr reply \<Longrightarrow> text_bytes reply \<le> MAX_SIGNAL_BYTES"
  shows "negotiateOffer encode decode sig env =
    \<lparr>ng_sent = [text], ng_remote = [respond sdp], ng_outcome = Some (pe_setRemote env (respond sdp))\<rparr>"
proof -
  have offer: "offer_text encode (pe_localSdp env) (pe_uuid env) = Inr (i, text)"
    using assms(3,4,5,7,8) by (simp add: offer_text_def signalId_def guardR_def validateSdp_Inr_iff [THEN iffD2])
  obtain reply where reply: "encode (answer_frame i (respond sdp)) = Inr reply" using answer_encodes [OF assms(6)] by blast
  then have "pe_receive env text = Inr reply"
    using assms(10) offer_received [OF assms(7)] by (simp add: answerer_def)
  with answer_accepted [OF reply assms(11) assms(12) [OF reply]]
  have "exchange decode env i text = \<lparr>ng_sent = [text], ng_remote = [respond sdp], ng_outcome = Some (pe_setRemote env (respond sdp))\<rparr>"
    using assms(9) by (simp add: exchange_def)
  with assms(1,2) offer show ?thesis by (simp add: negotiateOffer_def)
qed

end

context json_library
begin

lemmas classic_signaling = webrtc.signaling_axioms

end

text \<open>
  Claim C34.  Offer and answer reach the other side as they are: when the peer connection gives a description of legal size
  and the frames stay below the signalling limit, the one frame sent is the offer, an answerer that speaks the
  classic envelope reads exactly the offered description in it, and the description that it answers is
  the one that is set; the negotiation ends as that last call ends.
\<close>

theorem webrtc_negotiation_end_to_end:
  assumes "json_library parse isSafeNumber"
    and "bindR (pe_createOffer env) (\<lambda>_. pe_setLocal env) = Inr ()"
    and "waitForIceGathering (pe_iceComplete env) sig (pe_iceEvents env) = Some (Inr ())"
    and "pe_localSdp env = Some sdp" "sdp_ok sdp" "pe_uuid env = Some i" "i \<noteq> []"
    and "encode_frame CLASSIC_V1_DESCRIPTOR (offer_frame i sdp) = Inr text" "text_bytes text \<le> MAX_SIGNAL_BYTES"
    and "pe_send env text = Inr ()"
    and "pe_receive env text = answerer (encode_frame CLASSIC_V1_DESCRIPTOR) (decode_frame parse isSafeNumber CLASSIC_V1_DESCRIPTOR) respond text"
    and "sdp_ok (respond sdp)"
    and "\<And>reply. encode_frame CLASSIC_V1_DESCRIPTOR (answer_frame i (respond sdp)) = Inr reply \<Longrightarrow> text_bytes reply \<le> MAX_SIGNAL_BYTES"
  shows "negotiateOffer (encode_frame CLASSIC_V1_DESCRIPTOR) (decode_frame parse isSafeNumber CLASSIC_V1_DESCRIPTOR) sig env =
    \<lparr>ng_sent = [text], ng_remote = [respond sdp], ng_outcome = Some (pe_setRemote env (respond sdp))\<rparr>"
  by (rule signaling.negotiation_settles [OF json_library.classic_signaling [OF assms(1)] assms(2-)])

definition plain_peer :: peer_env where
  "plain_peer = \<lparr>pe_createOffer = Inr (), pe_setLocal = Inr (), pe_iceComplete = False, pe_iceEvents = [IceState False, IceState True],
     pe_localSdp = Some ''v=0'', pe_uuid = Some ''u1'', pe_send = (\<lambda>_. Inr ()),
     pe_receive = answerer (encode_frame CLASSIC_V1_DESCRIPTOR) (decode_frame reference_parse reference_isSafeNumber CLASSIC_V1_DESCRIPTOR) (\<lambda>_. ''v=1''),
     pe_setRemote = (\<lambda>_. Inr ())\<rparr>"

lemma plain_frames:
  "\<exists>text. encode_frame CLASSIC_V1_DESCRIPTOR (offer_frame ''u1'' ''v=0'') = Inr text \<and> text_bytes text \<le> MAX_SIGNAL_BYTES"
  "\<exists>text. encode_frame CLASSIC_V1_DESCRIPTOR (answer_frame ''u1'' ''v=1'') = Inr text \<and> text_bytes text \<le> MAX_SIGNAL_BYTES"
proof -
  have "case encode_frame CLASSIC_V1_DESCRIPTOR (offer_frame ''u1'' ''v=0'') of Inl _ \<Rightarrow> False | Inr text \<Rightarrow> text_bytes text \<le> 1000"
    by code_simp
  then show "\<exists>text. encode_frame CLASSIC_V1_DESCRIPTOR (offer_frame ''u1'' ''v=0'') = Inr text \<and> text_bytes text \<le> MAX_SIGNAL_BYTES"
    by (auto simp: MAX_SIGNAL_BYTES_def split: sum.splits)
  have "case encode_frame CLASSIC_V1_DESCRIPTOR (answer_frame ''u1'' ''v=1'') of Inl _ \<Rightarrow> False | Inr text \<Rightarrow> text_bytes text \<le> 1000"
    by code_simp
  then show "\<exists>text. encode_frame CLASSIC_V1_DESCRIPTOR (answer_frame ''u1'' ''v=1'') = Inr text \<and> text_bytes text \<le> MAX_SIGNAL_BYTES"
    by (auto simp: MAX_SIGNAL_BYTES_def split: sum.splits)
qed

lemma plain_sdp: "sdp_ok ''v=0''" "sdp_ok ''v=1''"
  by (simp_all add: sdp_ok_def MAX_SDP_BYTES_def text_bytes_def utf8_def utf8_char_def)

theorem webrtc_negotiation_end_to_end_witness:
  "\<exists>text. negotiateOffer (encode_frame CLASSIC_V1_DESCRIPTOR) (decode_frame reference_parse reference_isSafeNumber CLASSIC_V1_DESCRIPTOR) NoSignal plain_peer =
     \<lparr>ng_sent = [text], ng_remote = [''v=1''], ng_outcome = Some (Inr ())\<rparr>"
proof -
  obtain t where t: "encode_frame CLASSIC_V1_DESCRIPTOR (offer_frame ''u1'' ''v=0'') = Inr t" "text_bytes t \<le> MAX_SIGNAL_BYTES"
    using plain_frames(1) by blast
  have "negotiateOffer (encode_frame CLASSIC_V1_DESCRIPTOR) (decode_frame reference_parse reference_isSafeNumber CLASSIC_V1_DESCRIPTOR) NoSignal plain_peer =
     \<lparr>ng_sent = [t], ng_remote = [''v=1''], ng_outcome = Some (pe_setRemote plain_peer ''v=1'')\<rparr>"
    by (rule webrtc_negotiation_end_to_end [where respond = "\<lambda>_. ''v=1''", OF reference_json.json_library_axioms _ _ _ plain_sdp(1) _ _ t])
      (use plain_frames(2) plain_sdp(2) in \<open>auto simp: plain_peer_def waitForIceGathering_def\<close>)
  then show ?thesis by (simp add: plain_peer_def)
qed

text \<open>What every negotiation keeps to, whatever the peer connection and the other side do.\<close>

definition negotiation_legal :: "negotiation \<Rightarrow> bool" where
  "negotiation_legal ng \<longleftrightarrow> length (ng_sent ng) \<le> 1 \<and> list_all (\<lambda>t. text_bytes t \<le> MAX_SIGNAL_BYTES) (ng_sent ng)
     \<and> length (ng_remote ng) \<le> length (ng_sent ng) \<and> list_all sdp_ok (ng_remote ng)"

lemma answer_sdp_ok: "answer_sdp decode i received = Inr sdp \<Longrightarrow> sdp_ok sdp"
proof (cases "decode received")
  case (Inr frame)
  moreover assume "answer_sdp decode i received = Inr sdp"
  ultimately have "\<exists>v. validateSdp v = Inr sdp"
    by (cases frame) (fastforce simp: answer_sdp_def bindR_Inr_iff split: if_split_asm option.split_asm json.split_asm)+
  then show ?thesis by (auto simp: validateSdp_Inr_iff)
qed (simp add: answer_sdp_def bindR_def split: sum.split_asm)

lemma negotiation_legal: "negotiation_legal (negotiateOffer encode decode sig env)"
proof (cases "offer_text encode (pe_localSdp env) (pe_uuid env)")
  case (Inr offer)
  then have "text_bytes (snd offer) \<le> MAX_SIGNAL_BYTES"
    by (auto simp: offer_text_def bindR_Inr_iff guardR_def split: if_splits)
  with Inr show ?thesis
    by (cases offer) (auto simp: negotiateOffer_def negotiation_legal_def exchange_def bindR_Inr_iff answer_sdp_ok split: sum.splits option.splits)
qed (auto simp: negotiateOffer_def negotiation_legal_def split: sum.splits option.splits)

lemma negotiation_succeeded:
  "ng_outcome (negotiateOffer encode decode sig env) = Some (Inr ()) \<Longrightarrow>
     \<exists>t sdp. ng_sent (negotiateOffer encode decode sig env) = [t] \<and> ng_remote (negotiateOffer encode decode sig env) = [sdp]"
  by (auto simp: negotiateOffer_def exchange_def split: sum.splits option.splits)

definition from_outside :: "unit race_event \<Rightarrow> bool" where
  "from_outside ev = (case ev of TimerFires \<Rightarrow> True | SignalAborts _ \<Rightarrow> True | _ \<Rightarrow> False)"

lemma race_outside:
  assumes "list_all from_outside evs" "outcome_of s \<noteq> Some (Inr ())"
  shows "outcome_of (foldl (race_step code msg) s evs) \<noteq> Some (Inr ())"
  using assms by (induction evs arbitrary: s) (auto simp: race_step_def finish_def from_outside_def split: race_event.splits)

lemma race_success:
  assumes "list_all from_outside evs" "withTimeout timeout code msg sig (evs @ negotiation_events ng) = Inr race" "outcome_of race = Some (Inr ())"
  shows "ng_outcome ng = Some (Inr ())"
proof -
  obtain s0 where s0: "withTimeout_start timeout sig = Inr s0" "outcome_of s0 \<noteq> Some (Inr ())"
    and race: "race = foldl (race_step code msg) (foldl (race_step code msg) s0 evs) (negotiation_events ng)"
    using assms(2) by (auto simp: withTimeout_def withTimeout_start_def bindR_Inr_iff split: if_splits)
  from race_outside [OF assms(1) s0(2)] assms(3) race show ?thesis
    by (auto simp: negotiation_events_def race_step_def finish_def split: option.splits sum.splits if_splits)
qed

text \<open>
  Claim C35.  Connecting leaves nothing open behind a failure and pretends nothing: if the factory rejects, the socket is closed,
  and the peer connection too, once there is one; if it resolves, neither is closed, one offer was sent and one
  answer set, and the microphone and the codec policy were accepted.  In every case at most one offer is sent, no
  frame exceeds the signalling limit and only a description of legal size is set.
\<close>

theorem webrtc_connect_settled:
  assumes "list_all from_outside (ce_early env)" "webrtc_connect encode decode timeout protocol sig env = c"
  shows "(\<forall>e. cn_result c = Some (Inl e) \<longrightarrow> cn_baseClosed c
      \<and> (cn_peerClosed c \<longleftrightarrow> protocol = PROFILE_RTVBP_WEBRTC_V1 \<and> ce_created env = Inr ()))
    \<and> (cn_result c = Some (Inr ()) \<longrightarrow> \<not> cn_baseClosed c \<and> \<not> cn_peerClosed c \<and> protocol = PROFILE_RTVBP_WEBRTC_V1
      \<and> ce_prepared env \<in> {None, Some (Inr ())} \<and> codec_policy (ce_capabilities env) (ce_setPreferences env) = Inr ()
      \<and> (\<exists>ng t sdp. cn_negotiation c = Some ng \<and> ng_sent ng = [t] \<and> ng_remote ng = [sdp] \<and> ng_outcome ng = Some (Inr ())))
    \<and> pred_option negotiation_legal (cn_negotiation c)"
proof -
  have prelude: "connect_prelude protocol env = Inr () \<Longrightarrow> protocol = PROFILE_RTVBP_WEBRTC_V1 \<and> ce_created env = Inr ()
      \<and> ce_prepared env \<in> {None, Some (Inr ())} \<and> codec_policy (ce_capabilities env) (ce_setPreferences env) = Inr ()"
    by (auto simp: connect_prelude_def bindR_Inr_iff guardR_def split: if_splits option.splits)
  have ok: "ng_outcome (negotiateOffer encode decode sig (ce_peer env)) = Some (Inr ())"
    if "withTimeout (jsInt (int timeout)) code msg sig (ce_early env @ negotiation_events (negotiateOffer encode decode sig (ce_peer env))) = Inr race"
      "outcome_of race = Some (Inr ())" for code msg race
    using race_success [OF assms(1) that] .
  show ?thesis
  proof (cases "connect_prelude protocol env")
    case (Inl e)
    with assms(2) show ?thesis by (cases "ce_created env") (auto simp: webrtc_connect_def Let_def)
  next
    case (Inr u)
    then have "connect_prelude protocol env = Inr ()" by simp
    from prelude [OF this] Inr assms(2) ok negotiation_succeeded [of encode decode sig "ce_peer env"] show ?thesis
      by (cases "ce_created env") (auto simp: webrtc_connect_def Let_def negotiation_legal split: sum.splits option.splits)
  qed
qed

definition plain_connect :: connect_env where
  "plain_connect = \<lparr>ce_created = Inr (), ce_prepared = None, ce_transceiver = Inr (),
     ce_capabilities = Some [\<lparr>cd_mimeType = ''audio/PCMU'', cd_clockRate = Fin 8000, cd_channels = None\<rparr>],
     ce_setPreferences = (\<lambda>_. Inr ()), ce_peer = plain_peer\<lparr>pe_receive := (\<lambda>_. Inr [])\<rparr>, ce_early = []\<rparr>"

text \<open>An empty answer: the factory rejects and both ends are closed.\<close>

theorem webrtc_connect_settled_witness:
  "\<exists>e c. webrtc_connect (\<lambda>_. Inr ''offer'') (\<lambda>_. Inl e) 15000 PROFILE_RTVBP_WEBRTC_V1 NoSignal plain_connect = c
     \<and> cn_result c = Some (Inl (session_error ''webrtc_signaling'' ''WebRTC answer frame size is invalid''))
     \<and> cn_baseClosed c \<and> cn_peerClosed c"
proof (intro exI conjI)
  let ?e = "EnvelopeError []"
  let ?c = "webrtc_connect (\<lambda>_. Inr ''offer'') (\<lambda>_. Inl ?e) 15000 PROFILE_RTVBP_WEBRTC_V1 NoSignal plain_connect"
  show "?c = ?c" by simp
  have codec: "toLowerCase ''audio/PCMU'' = ''audio/pcmu''" by code_simp
  have small: "text_bytes ''offer'' \<le> MAX_SIGNAL_BYTES"
    by (simp add: MAX_SIGNAL_BYTES_def text_bytes_def utf8_def utf8_char_def)
  show r: "cn_result ?c = Some (Inl (session_error ''webrtc_signaling'' ''WebRTC answer frame size is invalid''))"
    using codec small plain_sdp
    by (simp add: webrtc_connect_def plain_connect_def plain_peer_def connect_prelude_def guardR_def codec_policy_def pcmuCodec_def is_pcmu_def
        negotiateOffer_def waitForIceGathering_def offer_text_def signalId_def validateSdp_Inr_iff [THEN iffD2] exchange_def answer_sdp_def
        withTimeout_def withTimeout_start_def negotiation_events_def race_step_def finish_def)
  show "cn_baseClosed ?c" "cn_peerClosed ?c"
    using webrtc_connect_settled [of plain_connect "\<lambda>_. Inr ''offer''" "\<lambda>_. Inl ?e" 15000 PROFILE_RTVBP_WEBRTC_V1 NoSignal ?c, THEN conjunct1] r
    by (simp_all add: plain_connect_def)
qed

end
