(* ===== verification/Webrtc_Transport.thy ===== *)
theory Webrtc_Transport
  imports Webrtc_Signaling
begin

text \<open>
  \<open>browser_webrtc.ts\<close>: the composite transport.  Control goes over the WebSocket transport below; audio is one
  native track, so that opening the media channel means to wait until the peer connection is connected.
  Callers that wait are kept with what they wait for; a waiter that was woken runs later, in a turn of its own.
\<close>

section \<open>The media channel\<close>

definition native_requireOpen :: "bool \<Rightarrow> unit result" where
  "native_requireOpen isClosed = guardR (\<not> isClosed) (session_error ''closed'' ''browser WebRTC media channel is closed'')"

definition native_writeFrame :: "bool \<Rightarrow> signal \<Rightarrow> unit result" where
  "native_writeFrame isClosed sig =
     bindR (throwIfAborted sig) (\<lambda>_. bindR (native_requireOpen isClosed) (\<lambda>_. Inl (session_error ''media_native''
       ''WebRTC audio uses a native browser track; attach BrowserAudioDevice instead of writing frames'')))"

definition native_readFrame :: "bool \<Rightarrow> signal \<Rightarrow> media_frame result" where
  "native_readFrame isClosed sig =
     bindR (throwIfAborted sig) (\<lambda>_. bindR (native_requireOpen isClosed) (\<lambda>_. Inl (session_error ''media_native''
       ''WebRTC audio uses a native browser track; attach BrowserAudioDevice instead of reading frames'')))"

definition native_clear :: nat where "native_clear = 0"

section \<open>State\<close>

datatype peer_state = PeerNew | PeerConnecting | PeerConnected | PeerDisconnected | PeerFailed | PeerClosed

datatype waiter_kind = ClaimWaiter | MonitorWaiter

record rtc_waiter =
  rw_id :: nat
  rw_kind :: waiter_kind
  rw_woken :: bool
  rw_aborted :: "thrown option"

datatype rtc_closing = RtcOpen | RtcClosingBase | RtcDone "unit result"

datatype rtc_value = MediaBound | Done

record rtc =
  rt_peer :: peer_state
  rt_listening :: bool
  rt_mediaClosed :: bool
  rt_connectionTimeoutMs :: js_number
  rt_claimed :: bool
  rt_remoteTrackSeen :: bool
  rt_failure :: "thrown option"
  rt_closing :: bool
  rt_closed :: bool
  rt_closePromise :: rtc_closing
  rt_closers :: "nat list"
  rt_waiters :: "rtc_waiter list"
  rt_attaching :: nat
  rt_detaches :: nat
  rt_next :: nat
  rt_settled :: "(nat \<times> rtc_value result) list"

definition new_rtc :: "js_number option \<Rightarrow> peer_state \<Rightarrow> rtc" where
  "new_rtc timeout s = \<lparr>rt_peer = s, rt_listening = True, rt_mediaClosed = False,
     rt_connectionTimeoutMs = (case timeout of None \<Rightarrow> jsInt 15000 | Some x \<Rightarrow> x),
     rt_claimed = False, rt_remoteTrackSeen = False, rt_failure = None, rt_closing = False, rt_closed = False,
     rt_closePromise = RtcOpen, rt_closers = [], rt_waiters = [], rt_attaching = 0, rt_detaches = 0, rt_next = 0, rt_settled = []\<rparr>"

definition rtc_settle :: "nat \<Rightarrow> rtc_value result \<Rightarrow> rtc \<Rightarrow> rtc" where
  "rtc_settle n r t = t\<lparr>rt_waiters := filter (\<lambda>w. rw_id w \<noteq> n) (rt_waiters t), rt_settled := rt_settled t @ [(n, r)]\<rparr>"

definition replaceLocalTrack :: "string option \<Rightarrow> unit result \<Rightarrow> unit result" where
  "replaceLocalTrack kind replaced =
     (if kind \<noteq> None \<and> kind \<noteq> Some ''audio'' then Inl (session_error ''media_channel'' ''local WebRTC track is not audio'') else replaced)"

section \<open>Waiting for the peer connection\<close>

text \<open>The loops of \<open>#waitConnected\<close> and \<open>monitor\<close>: how they end, or \<open>None\<close> when they wait for a change.\<close>

definition waitConnected :: "rtc \<Rightarrow> unit result option" where
  "waitConnected t =
     (if rt_peer t = PeerConnected then Some (Inr ())
      else (case rt_failure t of
          Some e \<Rightarrow> Some (Inl e)
        | None \<Rightarrow>
            if rt_peer t = PeerClosed then Some (Inl (session_error ''closed'' ''WebRTC peer connection closed before media connected''))
            else None))"

definition monitor_check :: "signal \<Rightarrow> rtc \<Rightarrow> thrown option" where
  "monitor_check sig t =
     (case throwIfAborted sig of
        Inl e \<Rightarrow> Some e
      | Inr _ \<Rightarrow>
          (case rt_failure t of
             Some e \<Rightarrow> Some e
           | None \<Rightarrow> if rt_closed t then Some (session_error ''closed'' ''WebRTC peer connection closed'') else None))"

definition waitStateChange :: "nat \<Rightarrow> waiter_kind \<Rightarrow> rtc \<Rightarrow> rtc" where
  "waitStateChange n kind t = t\<lparr>rt_waiters := filter (\<lambda>w. rw_id w \<noteq> n) (rt_waiters t)
     @ [\<lparr>rw_id = n, rw_kind = kind, rw_woken = False, rw_aborted = None\<rparr>]\<rparr>"

definition wakeStateWaiters :: "rtc \<Rightarrow> rtc" where
  "wakeStateWaiters t = t\<lparr>rt_waiters := map (rw_woken_update (\<lambda>_. True)) (rt_waiters t)\<rparr>"

definition claim_end :: "nat \<Rightarrow> unit result \<Rightarrow> rtc \<Rightarrow> rtc" where
  "claim_end n r t =
     (case r of
        Inl e \<Rightarrow> rtc_settle n (Inl e) (t\<lparr>rt_claimed := False\<rparr>)
      | Inr _ \<Rightarrow> rtc_settle n (Inr MediaBound) t)"

definition claim_loop :: "nat \<Rightarrow> rtc \<Rightarrow> rtc" where
  "claim_loop n t = (case waitConnected t of Some r \<Rightarrow> claim_end n r t | None \<Rightarrow> waitStateChange n ClaimWaiter t)"

definition claimAndWait :: "nat \<Rightarrow> signal \<Rightarrow> rtc \<Rightarrow> rtc" where
  "claimAndWait n sig t =
     (if rt_claimed t then rtc_settle n (Inl (session_error ''media_duplicate'' ''browser WebRTC audio is already bound'')) t
      else (let t1 = t\<lparr>rt_claimed := True\<rparr> in
            case (withTimeout_start (rt_connectionTimeoutMs t) sig :: unit race result) of
              Inl e \<Rightarrow> claim_end n (Inl e) t1
            | Inr _ \<Rightarrow> claim_loop n t1))"

definition rtc_openMedia :: "nat \<Rightarrow> string \<Rightarrow> media_format \<Rightarrow> signal \<Rightarrow> rtc \<Rightarrow> rtc" where
  "rtc_openMedia n i format sig t =
     (case bindR (throwIfAborted sig) (\<lambda>_.
           bindR (guardR (i = ''audio'') (session_error ''media_unsupported'' (''unsupported media channel '' @ quoted i))) (\<lambda>_.
           bindR (profileMediaFormat PROFILE_RTVBP_WEBRTC_V1 ''audio'') (\<lambda>own.
           guardR (sameMediaFormat format own)
             (session_error ''media_format'' ''browser WebRTC requires L16/8000/16-bit/mono/20ms at the SDK boundary'')))) of
        Inl e \<Rightarrow> rtc_settle n (Inl e) t
      | Inr _ \<Rightarrow> claimAndWait n sig t)"

definition rtc_acceptMedia :: "nat \<Rightarrow> signal \<Rightarrow> rtc \<Rightarrow> rtc" where
  "rtc_acceptMedia n sig t =
     (case throwIfAborted sig of Inl e \<Rightarrow> rtc_settle n (Inl e) t | Inr _ \<Rightarrow> claimAndWait n sig t)"

definition rtc_monitor :: "nat \<Rightarrow> signal \<Rightarrow> rtc \<Rightarrow> rtc" where
  "rtc_monitor n sig t =
     (case monitor_check sig t of Some e \<Rightarrow> rtc_settle n (Inl e) t | None \<Rightarrow> waitStateChange n MonitorWaiter t)"

definition waiter_of :: "nat \<Rightarrow> rtc \<Rightarrow> rtc_waiter option" where
  "waiter_of n t = find (\<lambda>w. rw_id w = n) (rt_waiters t)"

text \<open>The turn of a woken waiter.\<close>

definition rtc_turn :: "nat \<Rightarrow> rtc \<Rightarrow> rtc" where
  "rtc_turn n t =
     (case waiter_of n t of
        None \<Rightarrow> t
      | Some w \<Rightarrow>
          if \<not> rw_woken w then t
          else (case rw_kind w of
              ClaimWaiter \<Rightarrow> claim_loop n t
            | MonitorWaiter \<Rightarrow> rtc_monitor n (case rw_aborted w of None \<Rightarrow> NoSignal | Some reason \<Rightarrow> AbortedSignal reason) t))"

text \<open>
  The signal of a waiter is aborted.  A claim ends at once through its timeout's listener; a monitor that was
  already woken has no listener and sees the signal in its turn.
\<close>

definition rtc_abort :: "nat \<Rightarrow> thrown \<Rightarrow> rtc \<Rightarrow> rtc" where
  "rtc_abort n reason t =
     (case waiter_of n t of
        None \<Rightarrow> t
      | Some w \<Rightarrow>
          (case rw_kind w of
             ClaimWaiter \<Rightarrow> claim_end n (Inl (aborted (AbortedSignal reason))) t
           | MonitorWaiter \<Rightarrow>
               if \<not> rw_woken w then rtc_settle n (Inl (aborted (AbortedSignal reason))) t
               else t\<lparr>rt_waiters := map (\<lambda>v. if rw_id v = n then v\<lparr>rw_aborted := Some reason\<rparr> else v) (rt_waiters t)\<rparr>))"

definition rtc_timeout :: "nat \<Rightarrow> rtc \<Rightarrow> rtc" where
  "rtc_timeout n t =
     (case waiter_of n t of
        Some w \<Rightarrow>
          if rw_kind w = ClaimWaiter
          then claim_end n (Inl (session_error ''webrtc_connect_timeout'' ''WebRTC audio did not connect before its deadline'')) t
          else t
      | None \<Rightarrow> t)"

section \<open>The listeners\<close>

text \<open>
  The callback \<open>onConnectionStateChange\<close> of the page, which the code calls first, is taken to return: one that throws would keep
  the failure from being recorded and the waiting calls from being woken.
\<close>

definition handleConnectionState :: "rtc \<Rightarrow> rtc" where
  "handleConnectionState t =
     wakeStateWaiters
       (case rt_peer t of
          PeerFailed \<Rightarrow> t\<lparr>rt_failure := Some (session_error ''webrtc_failed'' ''WebRTC peer connection failed'')\<rparr>
        | PeerClosed \<Rightarrow>
            t\<lparr>rt_closed := True, rt_failure := (if rt_closing t then rt_failure t
                else Some (session_error ''webrtc_closed'' ''WebRTC peer connection closed unexpectedly''))\<rparr>
        | _ \<Rightarrow> t)"

text \<open>The browser changes the state of the peer connection; a closed one stays closed.\<close>

definition peer_changes :: "peer_state \<Rightarrow> rtc \<Rightarrow> rtc" where
  "peer_changes s t =
     (if rt_peer t = PeerClosed then t
      else (let t1 = t\<lparr>rt_peer := s\<rparr> in if rt_listening t then handleConnectionState t1 else t1))"

definition handleTrack :: "string \<Rightarrow> rtc \<Rightarrow> rtc" where
  "handleTrack kind t =
     (if \<not> rt_listening t then t
      else if kind \<noteq> ''audio'' \<or> rt_remoteTrackSeen t
      then wakeStateWaiters (t\<lparr>rt_failure := Some (session_error ''media_channel'' ''WebRTC v1 permits exactly one remote audio track'')\<rparr>)
      else t\<lparr>rt_remoteTrackSeen := True, rt_attaching := rt_attaching t + 1\<rparr>)"

text \<open>The device and \<open>onRemoteTrack\<close> have taken the track, or one of them failed.\<close>

definition track_attached :: "unit result \<Rightarrow> rtc \<Rightarrow> rtc" where
  "track_attached r t =
     (if rt_attaching t = 0 then t
      else (let t1 = t\<lparr>rt_attaching := rt_attaching t - 1\<rparr> in
            case r of
              Inr _ \<Rightarrow> t1
            | Inl e \<Rightarrow> wakeStateWaiters (t1\<lparr>rt_failure := Some (asSessionError e ''media_playback'')\<rparr>)))"

section \<open>Closing\<close>

definition rtc_close :: "nat \<Rightarrow> rtc \<Rightarrow> rtc" where
  "rtc_close n t =
     (case rt_closePromise t of
        RtcDone r \<Rightarrow> rtc_settle n (map_sum id (\<lambda>_. Done) r) t
      | RtcClosingBase \<Rightarrow> t\<lparr>rt_closers := rt_closers t @ [n]\<rparr>
      | RtcOpen \<Rightarrow> t\<lparr>rt_closing := True, rt_listening := False, rt_detaches := rt_detaches t + 1, rt_mediaClosed := True,
            rt_peer := PeerClosed, rt_closePromise := RtcClosingBase, rt_closers := [n]\<rparr>)"

text \<open>The WebSocket transport below has closed.\<close>

definition base_closed :: "unit result \<Rightarrow> rtc \<Rightarrow> rtc" where
  "base_closed r t =
     (if rt_closePromise t \<noteq> RtcClosingBase then t
      else (let t1 = (case r of Inl _ \<Rightarrow> t | Inr _ \<Rightarrow> wakeStateWaiters (t\<lparr>rt_closed := True\<rparr>)) in
            t1\<lparr>rt_closePromise := RtcDone r, rt_closers := [],
               rt_settled := rt_settled t1 @ map (\<lambda>n. (n, map_sum id (\<lambda>_. Done) r)) (rt_closers t)\<rparr>))"

section \<open>Runs\<close>

text \<open>A call gets a promise of its own.\<close>

definition rtc_call :: "(nat \<Rightarrow> rtc \<Rightarrow> rtc) \<Rightarrow> rtc \<Rightarrow> rtc" where
  "rtc_call f t = f (rt_next t) (t\<lparr>rt_next := rt_next t + 1\<rparr>)"

datatype rtc_op =
    RtcOpenMedia string media_format signal
  | RtcAcceptMedia signal
  | RtcMonitor signal
  | RtcTurn nat
  | RtcAbort nat thrown
  | RtcTimeout nat
  | RtcPeer peer_state
  | RtcTrack string
  | RtcAttached "unit result"
  | RtcClose
  | RtcBaseClosed "unit result"

fun rtc_step :: "rtc \<Rightarrow> rtc_op \<Rightarrow> rtc" where
  "rtc_step t (RtcOpenMedia i format sig) = rtc_call (\<lambda>n. rtc_openMedia n i format sig) t"
| "rtc_step t (RtcAcceptMedia sig) = rtc_call (\<lambda>n. rtc_acceptMedia n sig) t"
| "rtc_step t (RtcMonitor sig) = rtc_call (\<lambda>n. rtc_monitor n sig) t"
| "rtc_step t (RtcTurn n) = rtc_turn n t"
| "rtc_step t (RtcAbort n reason) = rtc_abort n reason t"
| "rtc_step t (RtcTimeout n) = rtc_timeout n t"
| "rtc_step t (RtcPeer s) = peer_changes s t"
| "rtc_step t (RtcTrack kind) = handleTrack kind t"
| "rtc_step t (RtcAttached r) = track_attached r t"
| "rtc_step t RtcClose = rtc_call rtc_close t"
| "rtc_step t (RtcBaseClosed r) = base_closed r t"

definition run_rtc :: "rtc \<Rightarrow> rtc_op list \<Rightarrow> rtc" where
  "run_rtc t ops = foldl rtc_step t ops"

section \<open>Invariant\<close>

text \<open>When a waiter may sleep.\<close>

definition must_wait :: "waiter_kind \<Rightarrow> rtc \<Rightarrow> bool" where
  "must_wait kind t \<longleftrightarrow> rt_failure t = None \<and> \<not> rt_closed t
     \<and> (kind = ClaimWaiter \<longrightarrow> rt_peer t \<noteq> PeerConnected \<and> (rt_peer t = PeerClosed \<longrightarrow> rt_closing t))"

definition waiters_ok :: "rtc \<Rightarrow> bool" where
  "waiters_ok t \<longleftrightarrow> (\<forall>w \<in> set (rt_waiters t). \<not> rw_woken w \<longrightarrow> must_wait (rw_kind w) t)"

definition waiter_ids_ok :: "rtc \<Rightarrow> bool" where
  "waiter_ids_ok t \<longleftrightarrow> distinct (map rw_id (rt_waiters t)) \<and> list_all (\<lambda>w. rw_id w < rt_next t) (rt_waiters t)"

definition close_ok :: "rtc \<Rightarrow> bool" where
  "close_ok t \<longleftrightarrow> (rt_closed t \<longrightarrow> rt_peer t = PeerClosed) \<and> (rt_closing t \<longrightarrow> rt_peer t = PeerClosed \<and> \<not> rt_listening t)
     \<and> (\<not> rt_closing t \<longrightarrow> rt_listening t \<and> (rt_peer t = PeerClosed \<longrightarrow> rt_closed t))
     \<and> (rt_closing t \<longleftrightarrow> rt_closePromise t \<noteq> RtcOpen) \<and> (rt_closePromise t = RtcDone (Inr ()) \<longrightarrow> rt_closed t)"

definition claims :: "rtc \<Rightarrow> nat" where
  "claims t = length (filter (\<lambda>w. rw_kind w = ClaimWaiter) (rt_waiters t))
     + length (filter (\<lambda>x. snd x = Inr MediaBound) (rt_settled t))"

definition claims_ok :: "rtc \<Rightarrow> bool" where
  "claims_ok t \<longleftrightarrow> claims t = (if rt_claimed t then 1 else 0)"

definition rtc_ok :: "rtc \<Rightarrow> bool" where
  "rtc_ok t \<longleftrightarrow> waiters_ok t \<and> waiter_ids_ok t \<and> close_ok t \<and> claims_ok t"

lemmas rtc_ok_defs = rtc_ok_def waiters_ok_def waiter_ids_ok_def close_ok_def claims_ok_def claims_def

lemma new_rtc_ok: "s \<noteq> PeerClosed \<Longrightarrow> rtc_ok (new_rtc timeout s)"
  by (simp add: rtc_ok_defs new_rtc_def)

lemma filter_other: "list_all (\<lambda>w. rw_id w < n) ws \<Longrightarrow> filter (\<lambda>w. rw_id w \<noteq> n) ws = ws"
  by (induction ws) auto

lemma waiter_of_Some: "waiter_of n t = Some w \<Longrightarrow> w \<in> set (rt_waiters t) \<and> rw_id w = n"
  by (auto simp: waiter_of_def find_Some_iff)

lemma count_others:
  "distinct (map rw_id ws) \<Longrightarrow> w \<in> set ws \<Longrightarrow>
     length (filter P ws) = of_bool (P w) + length (filter P (filter (\<lambda>v. rw_id v \<noteq> rw_id w) ws))"
proof (induction ws)
  case (Cons a ws)
  show ?case
  proof (cases "a = w")
    case True
    with Cons.prems have "filter (\<lambda>v. rw_id v \<noteq> rw_id w) ws = ws" by (auto simp: filter_id_conv image_iff)
    with True show ?thesis by simp
  next
    case False
    with Cons.prems have "rw_id a \<noteq> rw_id w" by (auto simp: image_iff)
    with False Cons show ?thesis by auto
  qed
qed simp

text \<open>Waking, settling and going back to sleep keep the invariant.\<close>

lemma wake_ok:
  assumes "waiter_ids_ok t" "close_ok t" "claims_ok t"
  shows "rtc_ok (wakeStateWaiters t)"
  using assms by (auto simp: rtc_ok_defs wakeStateWaiters_def o_def filter_map list_all_iff)

lemma settle_error_ok:
  assumes "rtc_ok t" "\<And>w. w \<in> set (rt_waiters t) \<Longrightarrow> rw_id w = n \<Longrightarrow> rw_kind w = MonitorWaiter"
  shows "rtc_ok (rtc_settle n (Inl e) t)"
proof -
  have "length (filter (\<lambda>w. rw_kind w = ClaimWaiter) (filter (\<lambda>w. rw_id w \<noteq> n) (rt_waiters t)))
      = length (filter (\<lambda>w. rw_kind w = ClaimWaiter) (rt_waiters t))"
    using assms(2) by (auto intro!: arg_cong [where f = length] filter_cong)
  with assms(1) show ?thesis
    by (auto simp: rtc_ok_defs rtc_settle_def must_wait_def list_all_iff intro: distinct_map_filter)
qed

text \<open>A claim that holds the channel: besides its own waiter there is no other.\<close>

definition others :: "nat \<Rightarrow> rtc \<Rightarrow> rtc" where
  "others n t = t\<lparr>rt_waiters := filter (\<lambda>w. rw_id w \<noteq> n) (rt_waiters t)\<rparr>"

definition holds_claim :: "nat \<Rightarrow> rtc \<Rightarrow> bool" where
  "holds_claim n t \<longleftrightarrow> waiters_ok t \<and> waiter_ids_ok t \<and> close_ok t \<and> rt_claimed t \<and> n < rt_next t \<and> claims (others n t) = 0"

lemma claim_end_ok: "holds_claim n t \<Longrightarrow> rtc_ok (claim_end n r t)"
  by (cases r) (auto simp: holds_claim_def rtc_ok_defs claim_end_def rtc_settle_def others_def must_wait_def list_all_iff intro: distinct_map_filter)

lemma sleep_ok:
  assumes "waiters_ok t" "waiter_ids_ok t" "close_ok t" "n < rt_next t" "must_wait kind t"
    and "claims (others n t) + of_bool (kind = ClaimWaiter) = (if rt_claimed t then 1 else 0)"
  shows "rtc_ok (waitStateChange n kind t)"
  unfolding rtc_ok_def
proof (intro conjI)
  have same: "must_wait k (waitStateChange n kind t) = must_wait k t" for k by (simp add: must_wait_def waitStateChange_def)
  show "waiters_ok (waitStateChange n kind t)"
    using assms(1,5) unfolding waiters_ok_def same by (simp add: waitStateChange_def)
  show "waiter_ids_ok (waitStateChange n kind t)"
    using assms(2,4) by (auto simp: waiter_ids_ok_def waitStateChange_def list_all_iff distinct_map_filter)
  show "close_ok (waitStateChange n kind t)" using assms(3) by (simp add: close_ok_def waitStateChange_def)
  show "claims_ok (waitStateChange n kind t)" using assms(6) by (cases kind) (auto simp: claims_ok_def claims_def waitStateChange_def others_def split: if_splits)
qed

lemma claim_loop_ok: "holds_claim n t \<Longrightarrow> rtc_ok (claim_loop n t)"
proof (cases "waitConnected t")
  case None
  moreover assume h: "holds_claim n t"
  ultimately have "must_wait ClaimWaiter t"
    by (auto simp: waitConnected_def must_wait_def holds_claim_def close_ok_def split: if_splits option.splits)
  with h None show ?thesis by (auto simp: claim_loop_def holds_claim_def intro!: sleep_ok)
qed (simp add: claim_loop_def claim_end_ok)

definition fresh :: "nat \<Rightarrow> rtc \<Rightarrow> bool" where
  "fresh n t \<longleftrightarrow> n < rt_next t \<and> n \<notin> rw_id ` set (rt_waiters t)"

lemma others_fresh: "fresh n t \<Longrightarrow> others n t = t"
proof -
  assume "fresh n t"
  then have "filter (\<lambda>w. rw_id w \<noteq> n) (rt_waiters t) = rt_waiters t" by (auto simp: fresh_def filter_id_conv)
  then show ?thesis by (simp add: others_def)
qed

lemma claimAndWait_ok:
  assumes "rtc_ok t" "fresh n t"
  shows "rtc_ok (claimAndWait n sig t)"
proof (cases "rt_claimed t")
  case True
  with assms show ?thesis by (auto simp: claimAndWait_def fresh_def intro!: settle_error_ok)
next
  case False
  have "others n (t\<lparr>rt_claimed := True\<rparr>) = t\<lparr>rt_claimed := True\<rparr>"
    using others_fresh [of n "t\<lparr>rt_claimed := True\<rparr>"] assms(2) by (simp add: fresh_def)
  with assms False have "holds_claim n (t\<lparr>rt_claimed := True\<rparr>)"
    by (auto simp: holds_claim_def rtc_ok_defs fresh_def must_wait_def)
  with False show ?thesis by (auto simp: claimAndWait_def Let_def claim_end_ok claim_loop_ok split: sum.splits)
qed

lemma monitor_ok:
  assumes "rtc_ok t" "n < rt_next t" "claims (others n t) = claims t"
    and "\<And>w. w \<in> set (rt_waiters t) \<Longrightarrow> rw_id w = n \<Longrightarrow> rw_kind w = MonitorWaiter"
  shows "rtc_ok (rtc_monitor n sig t)"
proof (cases "monitor_check sig t")
  case None
  then have "must_wait MonitorWaiter t" by (auto simp: monitor_check_def must_wait_def split: sum.splits option.splits if_splits)
  with assms(1-3) have "rtc_ok (waitStateChange n MonitorWaiter t)"
    by (intro sleep_ok) (simp_all add: rtc_ok_def claims_ok_def)
  with None show ?thesis by (simp add: rtc_monitor_def)
next
  case (Some e)
  with settle_error_ok [OF assms(1,4)] show ?thesis by (simp add: rtc_monitor_def)
qed

lemma claim_waiter_holds:
  assumes "rtc_ok t" "waiter_of n t = Some w" "rw_kind w = ClaimWaiter"
  shows "holds_claim n t"
proof -
  have w: "w \<in> set (rt_waiters t)" "rw_id w = n" using waiter_of_Some [OF assms(2)] by auto
  with assms(1) have n: "n < rt_next t" by (auto simp: rtc_ok_defs list_all_iff)
  have "claims t = Suc (claims (others n t))"
    using count_others [of "rt_waiters t" w "\<lambda>w. rw_kind w = ClaimWaiter"] w assms(1,3)
    by (simp add: claims_def others_def rtc_ok_def waiter_ids_ok_def)
  with assms(1) n show ?thesis by (auto simp: holds_claim_def rtc_ok_def claims_ok_def split: if_splits)
qed

lemma monitor_waiter_only:
  assumes "rtc_ok t" "waiter_of n t = Some w" "rw_kind w = MonitorWaiter"
  shows "claims (others n t) = claims t" "v \<in> set (rt_waiters t) \<Longrightarrow> rw_id v = n \<Longrightarrow> v = w" "n < rt_next t"
proof -
  have w: "w \<in> set (rt_waiters t)" "rw_id w = n" using waiter_of_Some [OF assms(2)] by auto
  have d: "distinct (map rw_id (rt_waiters t))" using assms(1) by (simp add: rtc_ok_defs)
  show "v = w" if "v \<in> set (rt_waiters t)" "rw_id v = n" using d w that by (auto simp: distinct_map inj_on_def)
  show "claims (others n t) = claims t"
    using count_others [OF d w(1), of "\<lambda>w. rw_kind w = ClaimWaiter"] w(2) assms(3) by (simp add: claims_def others_def)
  show "n < rt_next t" using assms(1) w by (auto simp: rtc_ok_defs list_all_iff)
qed

lemma turn_ok:
  assumes "rtc_ok t"
  shows "rtc_ok (rtc_turn n t)"
proof (cases "waiter_of n t")
  case (Some w)
  show ?thesis
  proof (cases "rw_kind w")
    case ClaimWaiter
    with claim_waiter_holds [OF assms Some] assms show ?thesis by (simp add: rtc_turn_def Some claim_loop_ok)
  next
    case MonitorWaiter
    note only = monitor_waiter_only [OF assms Some MonitorWaiter]
    have "rtc_ok (rtc_monitor n sig t)" for sig
      by (rule monitor_ok [OF assms only(3,1)]) (use only(2) MonitorWaiter in blast)
    with MonitorWaiter assms show ?thesis by (simp add: rtc_turn_def Some)
  qed
qed (simp add: rtc_turn_def assms)

lemma timeout_ok: "rtc_ok t \<Longrightarrow> rtc_ok (rtc_timeout n t)"
  using claim_waiter_holds [of t n] by (auto simp: rtc_timeout_def claim_end_ok split: option.splits)

lemma abort_noted_ok:
  assumes "rtc_ok t"
  shows "rtc_ok (t\<lparr>rt_waiters := map (\<lambda>v. if rw_id v = n then v\<lparr>rw_aborted := Some reason\<rparr> else v) (rt_waiters t)\<rparr>)"
proof -
  let ?f = "\<lambda>v. if rw_id v = n then v\<lparr>rw_aborted := Some reason\<rparr> else v"
  have ids: "rw_id \<circ> ?f = rw_id" by auto
  have "length (filter (\<lambda>w. rw_kind w = ClaimWaiter) (map ?f (rt_waiters t))) = length (filter (\<lambda>w. rw_kind w = ClaimWaiter) (rt_waiters t))"
    by (auto simp: filter_map o_def intro!: arg_cong [where f = length] filter_cong)
  then have "claims_ok (t\<lparr>rt_waiters := map ?f (rt_waiters t)\<rparr>)" using assms by (simp add: rtc_ok_def claims_ok_def claims_def)
  moreover have "waiter_ids_ok (t\<lparr>rt_waiters := map ?f (rt_waiters t)\<rparr>)"
    using assms by (auto simp: rtc_ok_def waiter_ids_ok_def ids list_all_iff)
  moreover have "waiters_ok (t\<lparr>rt_waiters := map ?f (rt_waiters t)\<rparr>)"
    using assms by (auto simp: rtc_ok_def waiters_ok_def must_wait_def)
  ultimately show ?thesis using assms by (simp add: rtc_ok_def close_ok_def)
qed

lemma abort_ok:
  assumes "rtc_ok t"
  shows "rtc_ok (rtc_abort n reason t)"
proof (cases "waiter_of n t")
  case (Some w)
  show ?thesis
  proof (cases "rw_kind w")
    case ClaimWaiter
    with claim_waiter_holds [OF assms Some] show ?thesis by (simp add: rtc_abort_def Some claim_end_ok)
  next
    case MonitorWaiter
    have "rtc_ok (rtc_settle n (Inl e) t)" for e
      using monitor_waiter_only(2) [OF assms Some MonitorWaiter] MonitorWaiter by (intro settle_error_ok [OF assms]) blast
    with abort_noted_ok [OF assms] MonitorWaiter show ?thesis by (simp add: rtc_abort_def Some)
  qed
qed (simp add: rtc_abort_def assms)

lemma call_ok: "rtc_ok t \<Longrightarrow> rtc_ok (t\<lparr>rt_next := rt_next t + 1\<rparr>) \<and> fresh (rt_next t) (t\<lparr>rt_next := rt_next t + 1\<rparr>)"
  by (auto simp: rtc_ok_defs must_wait_def fresh_def list_all_iff)

lemma calls_ok:
  assumes "rtc_ok t" "fresh n t"
  shows "rtc_ok (rtc_openMedia n i format sig t)" "rtc_ok (rtc_acceptMedia n sig t)" "rtc_ok (rtc_monitor n sig t)"
proof -
  have err: "rtc_ok (rtc_settle n (Inl e) t)" for e using assms by (auto simp: fresh_def intro: settle_error_ok)
  with claimAndWait_ok [OF assms] show "rtc_ok (rtc_openMedia n i format sig t)" "rtc_ok (rtc_acceptMedia n sig t)"
    by (simp_all add: rtc_openMedia_def rtc_acceptMedia_def split: sum.split)
  show "rtc_ok (rtc_monitor n sig t)" using assms by (intro monitor_ok) (auto simp: others_fresh, auto simp: fresh_def)
qed

lemma frame_ok [simp]:
  "rtc_ok (t\<lparr>rt_remoteTrackSeen := b\<rparr>) = rtc_ok t" "rtc_ok (t\<lparr>rt_attaching := k\<rparr>) = rtc_ok t"
  "waiter_ids_ok (t\<lparr>rt_failure := e\<rparr>) = waiter_ids_ok t" "close_ok (t\<lparr>rt_failure := e\<rparr>) = close_ok t" "claims_ok (t\<lparr>rt_failure := e\<rparr>) = claims_ok t"
  "waiter_ids_ok (t\<lparr>rt_attaching := k\<rparr>) = waiter_ids_ok t" "close_ok (t\<lparr>rt_attaching := k\<rparr>) = close_ok t" "claims_ok (t\<lparr>rt_attaching := k\<rparr>) = claims_ok t"
  "waiter_ids_ok (t\<lparr>rt_peer := s\<rparr>) = waiter_ids_ok t" "claims_ok (t\<lparr>rt_peer := s\<rparr>) = claims_ok t"
  "waiter_ids_ok (t\<lparr>rt_closed := b\<rparr>) = waiter_ids_ok t" "claims_ok (t\<lparr>rt_closed := b\<rparr>) = claims_ok t"
  by (simp_all add: rtc_ok_defs must_wait_def)

lemma rtc_okD: "rtc_ok t \<Longrightarrow> waiter_ids_ok t \<and> close_ok t \<and> claims_ok t"
  by (simp add: rtc_ok_def)

lemma fail_ok: "rtc_ok t \<Longrightarrow> rtc_ok (wakeStateWaiters (t\<lparr>rt_failure := e\<rparr>))"
  by (intro wake_ok) (simp_all add: rtc_okD)

lemma track_ok: "rtc_ok t \<Longrightarrow> rtc_ok (handleTrack kind t)"
  by (simp add: handleTrack_def fail_ok)

lemma attached_ok: "rtc_ok t \<Longrightarrow> rtc_ok (track_attached r t)"
  by (simp add: track_attached_def Let_def fail_ok split: sum.split)

lemma peer_ok:
  assumes "rtc_ok t"
  shows "rtc_ok (peer_changes s t)"
proof (cases "rt_peer t = PeerClosed")
  case False
  with assms have listening: "rt_listening t" "\<not> rt_closing t" "\<not> rt_closed t" by (auto simp: rtc_ok_def close_ok_def)
  have "close_ok (t\<lparr>rt_peer := s, rt_closed := (s = PeerClosed)\<rparr>)"
    using assms listening by (auto simp: rtc_ok_def close_ok_def)
  with listening rtc_okD [OF assms] False show ?thesis
    by (cases s) (simp_all add: peer_changes_def handleConnectionState_def Let_def wake_ok close_ok_def)
qed (simp add: peer_changes_def assms)

lemma close_ok_step:
  assumes "rtc_ok t" "fresh n t"
  shows "rtc_ok (rtc_close n t)"
proof (cases "rt_closePromise t")
  case RtcOpen
  with assms have "\<not> rt_closing t" by (simp add: rtc_ok_def close_ok_def)
  with RtcOpen assms show ?thesis
    by (auto simp: rtc_close_def rtc_ok_defs must_wait_def)
next
  case RtcClosingBase
  with assms show ?thesis by (simp add: rtc_close_def rtc_ok_defs must_wait_def)
next
  case (RtcDone r)
  have "filter (\<lambda>w. rw_id w \<noteq> n) (rt_waiters t) = rt_waiters t" using assms(2) by (auto simp: fresh_def filter_id_conv)
  with RtcDone assms(1) show ?thesis
    by (cases r) (auto simp: rtc_close_def rtc_ok_defs must_wait_def rtc_settle_def)
qed

lemma closers_settled:
  "length (filter (\<lambda>x. snd x = Inr MediaBound) (xs @ map (\<lambda>n. (n, map_sum id (\<lambda>_. Done) r)) ns))
     = length (filter (\<lambda>x. snd x = Inr MediaBound) xs)"
  by (cases r) (simp_all add: filter_map o_def)

lemma base_closed_ok:
  assumes "rtc_ok t"
  shows "rtc_ok (base_closed r t)"
proof (cases "rt_closePromise t = RtcClosingBase")
  case True
  with assms have closing: "rt_closing t" "rt_peer t = PeerClosed" by (auto simp: rtc_ok_def close_ok_def)
  have woken: "rtc_ok (wakeStateWaiters (t\<lparr>rt_closed := True\<rparr>))"
    using rtc_okD [OF assms] closing by (intro wake_ok) (simp_all add: close_ok_def)
  have final: "rtc_ok (u\<lparr>rt_closePromise := RtcDone r, rt_closers := [],
      rt_settled := rt_settled u @ map (\<lambda>n. (n, map_sum id (\<lambda>_. Done) r)) (rt_closers t)\<rparr>)"
    if "rtc_ok u" "rt_closing u" "r = Inr () \<longrightarrow> rt_closed u" for u
  proof -
    have "rtc_ok (u\<lparr>rt_closePromise := RtcDone r\<rparr>)" using that by (auto simp: rtc_ok_defs must_wait_def)
    then show ?thesis
      unfolding rtc_ok_def waiters_ok_def waiter_ids_ok_def close_ok_def claims_ok_def claims_def
      by (simp add: must_wait_def closers_settled del: filter_append map_sum.simps)
  qed
  show ?thesis
  proof (cases r)
    case (Inl e)
    with True final [OF assms closing(1)] show ?thesis by (simp add: base_closed_def)
  next
    case (Inr u)
    have "rt_closing (wakeStateWaiters (t\<lparr>rt_closed := True\<rparr>))" "rt_closed (wakeStateWaiters (t\<lparr>rt_closed := True\<rparr>))"
      using closing(1) by (simp_all add: wakeStateWaiters_def)
    with True Inr final [OF woken] show ?thesis by (simp add: base_closed_def Let_def)
  qed
qed (simp add: base_closed_def assms)

lemma step_ok: "rtc_ok t \<Longrightarrow> rtc_ok (rtc_step t x)"
  using call_ok [of t]
  by (cases x) (simp_all add: rtc_call_def calls_ok turn_ok abort_ok timeout_ok peer_ok track_ok attached_ok close_ok_step base_closed_ok)

lemma run_ok: "rtc_ok t \<Longrightarrow> rtc_ok (run_rtc t ops)"
  unfolding run_rtc_def by (induction ops arbitrary: t) (simp_all add: step_ok)

lemma settle_turn:
  "rt_closed (rtc_settle n r t) = rt_closed t" "rt_waiters (rtc_settle n r t) = filter (\<lambda>w. rw_id w \<noteq> n) (rt_waiters t)"
  "rt_settled (rtc_settle n r t) = rt_settled t @ [(n, r)]"
  by (simp_all add: rtc_settle_def)

lemma closed_turn:
  assumes "rtc_ok t" "rt_closed t" "w \<in> set (rt_waiters t)"
  shows "\<exists>r. rt_closed (rtc_turn (rw_id w) t) \<and> rt_waiters (rtc_turn (rw_id w) t) = filter (\<lambda>v. rw_id v \<noteq> rw_id w) (rt_waiters t)
    \<and> rt_settled (rtc_turn (rw_id w) t) = rt_settled t @ [(rw_id w, r)]"
proof -
  obtain v where v: "waiter_of (rw_id w) t = Some v" "rw_woken v"
  proof (cases "waiter_of (rw_id w) t")
    case None
    with assms(3) show ?thesis by (auto simp: waiter_of_def find_None_iff)
  next
    case (Some v)
    moreover have "rw_woken v" using waiter_of_Some [OF Some] assms(1,2) by (auto simp: rtc_ok_def waiters_ok_def must_wait_def)
    ultimately show ?thesis using that by blast
  qed
  have "rt_peer t = PeerClosed" using assms(1,2) by (simp add: rtc_ok_def close_ok_def)
  then have claim: "\<exists>e. waitConnected t = Some (Inl e)" by (auto simp: waitConnected_def split: option.splits)
  have monitor: "\<exists>e. monitor_check sig t = Some e" for sig
    using assms(2) by (auto simp: monitor_check_def split: sum.splits option.splits)
  show ?thesis
  proof (cases "rw_kind v")
    case ClaimWaiter
    with v claim assms(2) show ?thesis by (auto simp: rtc_turn_def claim_loop_def claim_end_def settle_turn)
  next
    case MonitorWaiter
    have "\<exists>e. rtc_monitor n sig t = rtc_settle n (Inl e) t" for n sig
      using monitor [of sig] by (auto simp: rtc_monitor_def)
    then obtain e where "rtc_turn (rw_id w) t = rtc_settle (rw_id w) (Inl e) t"
      using v MonitorWaiter by (fastforce simp: rtc_turn_def)
    with assms(2) show ?thesis by (simp add: settle_turn)
  qed
qed

lemma closed_turns:
  assumes "rtc_ok t" "rt_closed t" "rt_waiters t = ws"
  shows "rt_waiters (run_rtc t (map (RtcTurn \<circ> rw_id) ws)) = []
    \<and> (\<exists>rs. rt_settled (run_rtc t (map (RtcTurn \<circ> rw_id) ws)) = rt_settled t @ rs \<and> map fst rs = map rw_id ws)"
  using assms
proof (induction ws arbitrary: t)
  case (Cons w ws)
  then obtain r where turn: "rt_closed (rtc_turn (rw_id w) t)" "rt_waiters (rtc_turn (rw_id w) t) = filter (\<lambda>v. rw_id v \<noteq> rw_id w) (w # ws)"
    "rt_settled (rtc_turn (rw_id w) t) = rt_settled t @ [(rw_id w, r)]"
    using closed_turn [of t w] by auto
  have "distinct (map rw_id (w # ws))" using Cons.prems(1,3) by (simp add: rtc_ok_def waiter_ids_ok_def)
  then have "filter (\<lambda>v. rw_id v \<noteq> rw_id w) (w # ws) = ws" by (auto simp: filter_id_conv image_iff)
  with Cons.IH [OF turn_ok [OF Cons.prems(1)] turn(1)] turn(2,3) show ?case by (auto simp: run_rtc_def)
qed (simp add: run_rtc_def)

section \<open>Properties\<close>

text \<open>
  Claim C36.  Nobody sleeps through a change: in every reachable state of the transport, a caller of \<open>openMedia\<close> or
  \<open>acceptMedia\<close> that has not been woken waits for a connection that is not there yet, with no failure recorded and
  the peer connection open unless the transport is just closing; a monitor that has not been woken
  has no failure and no close to report.
\<close>

theorem webrtc_no_lost_wakeup:
  assumes "s \<noteq> PeerClosed" "t = run_rtc (new_rtc timeout s) ops" "w \<in> set (rt_waiters t)" "\<not> rw_woken w"
  shows "rt_failure t = None \<and> \<not> rt_closed t
    \<and> (rw_kind w = ClaimWaiter \<longrightarrow> rt_peer t \<noteq> PeerConnected \<and> (rt_peer t = PeerClosed \<longrightarrow> rt_closing t))"
  using run_ok [OF new_rtc_ok [OF assms(1)], of timeout ops] assms(2-4) by (simp add: rtc_ok_def waiters_ok_def must_wait_def)

text \<open>
  The native audio channel is bound at most once: in every reachable state the calls that were given the channel and those that
  still wait for it are together one if the channel is claimed and none if it is not, so that a failed, aborted or
  late claim gives it back.
\<close>

theorem webrtc_media_bound_once:
  assumes "s \<noteq> PeerClosed" "t = run_rtc (new_rtc timeout s) ops"
  shows "length (filter (\<lambda>w. rw_kind w = ClaimWaiter) (rt_waiters t)) + length (filter (\<lambda>x. snd x = Inr MediaBound) (rt_settled t))
    = (if rt_claimed t then 1 else 0)"
  using run_ok [OF new_rtc_ok [OF assms(1)], of timeout ops] assms(2) by (simp add: rtc_ok_def claims_ok_def claims_def)

text \<open>
  Claim C37.  Closing releases everyone: when the transport of a reachable state is closed, by its own \<open>close\<close> or by the browser,
  one turn of every waiter later nobody waits any more and each of them has been settled, once and in their order.
\<close>

theorem webrtc_close_releases:
  assumes "s \<noteq> PeerClosed" "t = run_rtc (new_rtc timeout s) ops" "rt_closed t" "u = run_rtc t (map (RtcTurn \<circ> rw_id) (rt_waiters t))"
  shows "rt_waiters u = [] \<and> (\<exists>rs. rt_settled u = rt_settled t @ rs \<and> map fst rs = map rw_id (rt_waiters t))"
  using closed_turns [OF run_ok [OF new_rtc_ok [OF assms(1)], of timeout ops]] assms(2-4) by simp

definition plain_rtc_ops :: "rtc_op list" where
  "plain_rtc_ops = [RtcAcceptMedia NoSignal, RtcMonitor NoSignal, RtcPeer PeerConnecting, RtcTurn 0]"

lemma plain_rtc_run:
  "rt_waiters (run_rtc (new_rtc None PeerNew) plain_rtc_ops) =
    [\<lparr>rw_id = 1, rw_kind = MonitorWaiter, rw_woken = True, rw_aborted = None\<rparr>, \<lparr>rw_id = 0, rw_kind = ClaimWaiter, rw_woken = False, rw_aborted = None\<rparr>]"
  "rt_settled (run_rtc (new_rtc None PeerNew) plain_rtc_ops) = []"
  by (code_simp)+

theorem webrtc_no_lost_wakeup_witness:
  "\<exists>w \<in> set (rt_waiters (run_rtc (new_rtc None PeerNew) plain_rtc_ops)). \<not> rw_woken w \<and> rw_kind w = ClaimWaiter
     \<and> rt_failure (run_rtc (new_rtc None PeerNew) plain_rtc_ops) = None"
proof -
  let ?w = "\<lparr>rw_id = 0, rw_kind = ClaimWaiter, rw_woken = False, rw_aborted = None\<rparr>"
  have w: "?w \<in> set (rt_waiters (run_rtc (new_rtc None PeerNew) plain_rtc_ops))" "\<not> rw_woken ?w" by (simp_all add: plain_rtc_run)
  from webrtc_no_lost_wakeup [OF _ refl w] w show ?thesis by (intro bexI [of _ ?w]) auto
qed

theorem webrtc_media_bound_once_witness:
  "rt_claimed (run_rtc (new_rtc None PeerNew) plain_rtc_ops)"
  using webrtc_media_bound_once [OF _ refl, of PeerNew None plain_rtc_ops] by (simp add: plain_rtc_run split: if_splits)

theorem webrtc_close_releases_witness:
  "\<exists>rs. rt_settled (run_rtc (new_rtc None PeerNew) (plain_rtc_ops @ [RtcClose, RtcBaseClosed (Inr ()), RtcTurn 1, RtcTurn 0])) = (2, Inr Done) # rs
     \<and> map fst rs = [1, 0]"
proof -
  let ?t = "run_rtc (new_rtc None PeerNew) (plain_rtc_ops @ [RtcClose, RtcBaseClosed (Inr ())])"
  have t: "rt_closed ?t" "map rw_id (rt_waiters ?t) = [1, 0]" "rt_settled ?t = [(2, Inr Done)]" by code_simp+
  have split: "run_rtc ?t [RtcTurn 1, RtcTurn 0] = run_rtc (new_rtc None PeerNew) (plain_rtc_ops @ [RtcClose, RtcBaseClosed (Inr ()), RtcTurn 1, RtcTurn 0])"
    by (simp add: run_rtc_def)
  have turns: "map (RtcTurn \<circ> rw_id) (rt_waiters ?t) = [RtcTurn 1, RtcTurn 0]"
    using t(2) by (auto simp: map_eq_Cons_conv)
  from webrtc_close_releases [OF _ refl t(1) refl] show ?thesis
    unfolding turns split t by simp
qed

end
