(* ===== verification/Catalog_Types.thy ===== *)
theory Catalog_Types
  imports Babelforce_V1 Demo_V1
begin

text \<open>
  The TypeScript interfaces of the generated catalogs, as the types of decoded JSON values, and when what
  a decoder accepts has the type that the decoder promises (\<open>asserts value is X\<close>, \<open>return value as X\<close>).
  Types are structural, so that an interface stands for its fields.
\<close>

section \<open>Types\<close>

datatype presence = Required | Optional

datatype ts_type =
    TString
  | TNumber
  | TNever
  | TWireJson
  | TNullable ts_type
  | TArray ts_type
  | TRecord ts_type
  | TInterface "(string \<times> presence \<times> ts_type) list"

text \<open>
  \<open>WireJsonValue\<close> is every JSON value.  With \<open>exactOptionalPropertyTypes\<close> an optional property is
  absent or of its type.
\<close>

fun has_type :: "ts_type \<Rightarrow> json \<Rightarrow> bool" where
  "has_type TString j = (case j of JStr s \<Rightarrow> True | _ \<Rightarrow> False)"
| "has_type TNumber j = (case j of JNum x \<Rightarrow> True | _ \<Rightarrow> False)"
| "has_type TNever j = False"
| "has_type TWireJson j = True"
| "has_type (TNullable t) j = (j = JNull \<or> has_type t j)"
| "has_type (TArray t) j = (case j of JArr xs \<Rightarrow> list_all (has_type t) xs | _ \<Rightarrow> False)"
| "has_type (TRecord t) j = (case j of JObj ps \<Rightarrow> list_all (\<lambda>(k, v). has_type t v) ps | _ \<Rightarrow> False)"
| "has_type (TInterface fs) j =
     (case j of
        JObj ps \<Rightarrow> list_all (\<lambda>(name, presence, t). case prop_of ps name of None \<Rightarrow> presence = Optional | Some v \<Rightarrow> has_type t v) fs
      | _ \<Rightarrow> False)"

section \<open>The interfaces of \<open>babelforce.v1\<close>\<close>

definition AgentToolCallEvent :: ts_type where
  "AgentToolCallEvent = TInterface [(''name'', Required, TString)]"

definition AppInfo :: ts_type where
  "AppInfo = TInterface [(''id'', Required, TString)]"

definition ApplicationMoveRequest :: ts_type where
  "ApplicationMoveRequest = TInterface [(''reason'', Optional, TString), (''application_id'', Optional, TString)]"

definition ApplicationMoveResponse :: ts_type where
  "ApplicationMoveResponse = TInterface [(''next_application_id'', Optional, TString)]"

definition AudioBufferClearRequest :: ts_type where
  "AudioBufferClearRequest = TRecord TNever"

definition AudioBufferClearResponse :: ts_type where
  "AudioBufferClearResponse = TInterface [(''len'', Required, TNumber)]"

definition AudioCodec :: ts_type where
  "AudioCodec = TInterface [(''id'', Required, TString), (''name'', Required, TString), (''sample_rate'', Required, TNumber), (''bit_depth'', Required, TNumber), (''channels'', Required, TNumber)]"

definition AudioInfoItem :: ts_type where
  "AudioInfoItem = TInterface [(''bytes'', Required, TNumber), (''bytes_per_second'', Required, TNumber), (''bytes_total'', Required, TNumber)]"

definition AudioInfoEvent :: ts_type where
  "AudioInfoEvent = TInterface [(''read'', Required, AudioInfoItem), (''write'', Required, AudioInfoItem)]"

definition AudioSpeechStartedEvent :: ts_type where
  "AudioSpeechStartedEvent = TInterface [(''origin'', Required, TString)]"

definition CallHangupEvent :: ts_type where
  "CallHangupEvent = TInterface [(''reason'', Optional, TString)]"

definition CallHangupRequest :: ts_type where
  "CallHangupRequest = TInterface [(''reason'', Required, TString)]"

definition CallInfo :: ts_type where
  "CallInfo = TInterface [(''id'', Required, TString), (''session_id'', Required, TString), (''from'', Required, TString), (''to'', Required, TString)]"

definition DtmfEvent :: ts_type where
  "DtmfEvent = TInterface [(''seq'', Required, TNumber), (''pressed_at'', Required, TNumber), (''released_at'', Required, TNumber), (''digit'', Required, TString)]"

definition EmptyResponse :: ts_type where
  "EmptyResponse = TRecord TNever"

definition InputTranscriptEvent :: ts_type where
  "InputTranscriptEvent = TInterface [(''delta'', Required, TString)]"

definition OutputTranscriptDeltaEvent :: ts_type where
  "OutputTranscriptDeltaEvent = TInterface [(''delta'', Required, TString)]"

definition OutputTranscriptDoneEvent :: ts_type where
  "OutputTranscriptDoneEvent = TInterface [(''text'', Optional, TString)]"

definition PingRequest :: ts_type where
  "PingRequest = TInterface [(''t0'', Required, TNumber), (''rtt'', Optional, TNumber), (''data'', Optional, TWireJson)]"

definition PingResponse :: ts_type where
  "PingResponse = TInterface [(''t0'', Required, TNumber), (''t1'', Required, TNumber), (''t2'', Required, TNumber), (''owd'', Required, TNumber), (''data'', Optional, TWireJson)]"

definition RecordingStartRequest :: ts_type where
  "RecordingStartRequest = TInterface [(''tags'', Optional, TArray TString)]"

definition RecordingStartResponse :: ts_type where
  "RecordingStartResponse = TInterface [(''id'', Required, TString)]"

definition RecordingStopRequest :: ts_type where
  "RecordingStopRequest = TInterface [(''id'', Required, TString)]"

definition SessionGetRequest :: ts_type where
  "SessionGetRequest = TInterface [(''keys'', Required, TArray TString)]"

definition SessionGetResponse :: ts_type where
  "SessionGetResponse = TRecord TWireJson"

definition SessionInitializeRequest :: ts_type where
  "SessionInitializeRequest = TInterface [(''application'', Required, AppInfo), (''call'', Required, CallInfo), (''audio_codec_offerings'', Required, TArray AudioCodec), (''metadata'', Required, TNullable (TRecord TWireJson))]"

definition SessionInitializeResponse :: ts_type where
  "SessionInitializeResponse = TInterface [(''audio_codec'', Required, TNullable (AudioCodec))]"

definition SessionSetRequest :: ts_type where
  "SessionSetRequest = TInterface [(''data'', Required, TRecord TWireJson)]"

definition SessionTerminateRequest :: ts_type where
  "SessionTerminateRequest = TInterface [(''reason'', Required, TString)]"

definition SessionUpdatedEvent :: ts_type where
  "SessionUpdatedEvent = TInterface [(''audio_codec'', Required, TNullable (AudioCodec))]"

definition BABELFORCE_V1_TYPES :: "(string \<times> ts_type) list" where
  "BABELFORCE_V1_TYPES = [
    (''AgentToolCallEvent'', AgentToolCallEvent),
    (''AppInfo'', AppInfo),
    (''ApplicationMoveRequest'', ApplicationMoveRequest),
    (''ApplicationMoveResponse'', ApplicationMoveResponse),
    (''AudioBufferClearRequest'', AudioBufferClearRequest),
    (''AudioBufferClearResponse'', AudioBufferClearResponse),
    (''AudioCodec'', AudioCodec),
    (''AudioInfoEvent'', AudioInfoEvent),
    (''AudioInfoItem'', AudioInfoItem),
    (''AudioSpeechStartedEvent'', AudioSpeechStartedEvent),
    (''CallHangupEvent'', CallHangupEvent),
    (''CallHangupRequest'', CallHangupRequest),
    (''CallInfo'', CallInfo),
    (''DtmfEvent'', DtmfEvent),
    (''EmptyResponse'', EmptyResponse),
    (''InputTranscriptEvent'', InputTranscriptEvent),
    (''OutputTranscriptDeltaEvent'', OutputTranscriptDeltaEvent),
    (''OutputTranscriptDoneEvent'', OutputTranscriptDoneEvent),
    (''PingRequest'', PingRequest),
    (''PingResponse'', PingResponse),
    (''RecordingStartRequest'', RecordingStartRequest),
    (''RecordingStartResponse'', RecordingStartResponse),
    (''RecordingStopRequest'', RecordingStopRequest),
    (''SessionGetRequest'', SessionGetRequest),
    (''SessionGetResponse'', SessionGetResponse),
    (''SessionInitializeRequest'', SessionInitializeRequest),
    (''SessionInitializeResponse'', SessionInitializeResponse),
    (''SessionSetRequest'', SessionSetRequest),
    (''SessionTerminateRequest'', SessionTerminateRequest),
    (''SessionUpdatedEvent'', SessionUpdatedEvent)]"

section \<open>The interfaces of \<open>demo.v1\<close>\<close>

definition DemoEchoRequest :: ts_type where
  "DemoEchoRequest = TInterface [(''message'', Required, TString)]"

definition DemoEchoResponse :: ts_type where
  "DemoEchoResponse = TInterface [(''message'', Required, TString)]"

definition DemoObservedEvent :: ts_type where
  "DemoObservedEvent = TInterface [(''message'', Required, TString)]"

definition DEMO_V1_TYPES :: "(string \<times> ts_type) list" where
  "DEMO_V1_TYPES = [
    (''DemoEchoRequest'', DemoEchoRequest),
    (''DemoEchoResponse'', DemoEchoResponse),
    (''DemoObservedEvent'', DemoObservedEvent)]"

section \<open>A schema that guarantees a type\<close>

definition allows_null :: "ts_type \<Rightarrow> bool" where
  "allows_null t = (case t of TNullable _ \<Rightarrow> True | TWireJson \<Rightarrow> True | _ \<Rightarrow> False)"

definition without_null :: "ts_type \<Rightarrow> ts_type" where
  "without_null t = (case t of TNullable u \<Rightarrow> u | _ \<Rightarrow> t)"

definition field_fits :: "(schema \<Rightarrow> ts_type \<Rightarrow> bool) \<Rightarrow> schema \<Rightarrow> (string \<times> json) list \<Rightarrow> string \<times> presence \<times> ts_type \<Rightarrow> bool" where
  "field_fits rec schema properties = (\<lambda>(name, presence, t).
     (presence = Optional \<or> name \<in> set (required_names schema))
     \<and> (case prop_of properties name of Some (JObj child) \<Rightarrow> rec child t | _ \<Rightarrow> False))"

definition typed_fits :: "(schema \<Rightarrow> ts_type \<Rightarrow> bool) \<Rightarrow> schema \<Rightarrow> ts_type \<Rightarrow> bool" where
  "typed_fits rec schema t =
     (let kind = prop_of schema ''type'' in
      case t of
        TString \<Rightarrow> kind = Some (JStr ''string'')
      | TNumber \<Rightarrow> kind = Some (JStr ''integer'') \<or> kind = Some (JStr ''number'')
      | TNever \<Rightarrow> False
      | TWireJson \<Rightarrow> True
      | TNullable _ \<Rightarrow> False
      | TArray u \<Rightarrow> kind = Some (JStr ''array'') \<and> (case prop_of schema ''items'' of Some (JObj item) \<Rightarrow> rec item u | _ \<Rightarrow> False)
      | TRecord u \<Rightarrow> kind = Some (JStr ''object'') \<and> u = TWireJson
      | TInterface fs \<Rightarrow> kind = Some (JStr ''object'')
          \<and> (case prop_of schema ''properties'' of Some (JObj properties) \<Rightarrow> list_all (field_fits rec schema properties) fs | _ \<Rightarrow> False))"

text \<open>The fuel bounds the depth of the type and the chain of references.\<close>

fun schema_fits :: "nat \<Rightarrow> registry \<Rightarrow> schema \<Rightarrow> ts_type \<Rightarrow> bool" where
  "schema_fits 0 schemas schema t = False"
| "schema_fits (Suc n) schemas schema t =
     ((acceptsNull schema \<longrightarrow> allows_null t)
      \<and> (case referenceName (prop_of (nonNullSchema schema) ''$ref'') of
            Some referenced \<Rightarrow> (case prop_of schemas referenced of None \<Rightarrow> False | Some target \<Rightarrow> schema_fits n schemas target (without_null t))
          | None \<Rightarrow> typed_fits (schema_fits n schemas) (nonNullSchema schema) (without_null t)))"

lemma typed_fits_mono:
  assumes "\<And>s u. rec s u \<Longrightarrow> rec' s u" "typed_fits rec schema t"
  shows "typed_fits rec' schema t"
proof -
  have "field_fits rec' schema properties f" if "field_fits rec schema properties f" for properties f
    using that assms(1) by (auto simp: field_fits_def split: option.splits json.splits)
  with assms show ?thesis by (cases t) (auto simp: typed_fits_def Let_def list_all_iff split: option.splits json.splits)
qed

lemma schema_fits_mono:
  assumes "map_of R \<subseteq>\<^sub>m map_of S" "schema_fits n R schema t"
  shows "schema_fits n S schema t"
  using assms(2)
proof (induction n arbitrary: schema t)
  case (Suc n)
  show ?case
  proof (cases "referenceName (prop_of (nonNullSchema schema) ''$ref'')")
    case None
    with Suc.prems typed_fits_mono [OF Suc.IH] show ?thesis by simp
  next
    case (Some r)
    with Suc.prems obtain target where "prop_of R r = Some target" "schema_fits n R target (without_null t)" by (auto split: option.splits)
    moreover from this(1) have "prop_of S r = Some target" using assms(1) by (metis domI map_le_def)
    ultimately show ?thesis using Suc.IH Some Suc.prems by simp
  qed
qed simp

lemma has_type_without_null: "has_type (without_null t) j \<Longrightarrow> has_type t j"
  by (cases t) (simp_all add: without_null_def)

lemma array_accepted:
  assumes "array_issues rec schema (embed j) path = Some []" "prop_of schema ''items'' = Some (JObj item)"
  obtains xs where "j = JArr xs" "\<And>x. x \<in> set xs \<Longrightarrow> \<exists>p. rec (embed x) item p = Some []"
proof -
  obtain xs where xs: "j = JArr xs" using assms(1) by (cases j) (simp_all add: array_issues_def)
  have "\<exists>p. rec (embed x) item p = Some []" if "x \<in> set xs" for x
  proof -
    from that obtain i where "i < length xs" "xs ! i = x" by (auto simp: in_set_conv_nth)
    then have "(i, Some (embed x)) \<in> set (enumerate 0 (map (\<lambda>x. Some (embed x)) xs))"
      unfolding in_set_enumerate_eq by simp
    with assms xs show ?thesis by (force simp: array_issues_def collect_Nil)
  qed
  with xs that show thesis by blast
qed

lemma object_accepted:
  assumes "object_issues rec schema (embed j) path = Some []"
  obtains ps where "j = JObj ps"
    "\<And>properties name child. prop_of schema ''properties'' = Some (JObj properties) \<Longrightarrow> prop_of properties name = Some (JObj child) \<Longrightarrow>
       (case prop_of ps name of None \<Rightarrow> name \<notin> set (required_names schema) | Some v \<Rightarrow> rec (embed v) child (at_key path name) = Some [])"
proof -
  obtain ps where ps: "j = JObj ps" using assms by (cases j) (simp_all add: object_issues_def)
  have "case prop_of ps name of None \<Rightarrow> name \<notin> set (required_names schema) | Some v \<Rightarrow> rec (embed v) child (at_key path name) = Some []"
    if "prop_of schema ''properties'' = Some (JObj properties)" "prop_of properties name = Some (JObj child)" for properties name child
  proof -
    have "property_issues rec schema (map (\<lambda>(k, v). (k, Data (embed v))) ps) path (name, JObj child) = Some []"
      using assms ps that(1) map_of_SomeD [OF that(2)] by (auto simp: object_issues_def collect_Nil)
    then show ?thesis by (auto simp: property_issues_def own_value_embed split: option.splits if_splits)
  qed
  with ps that show thesis by blast
qed

lemma typed_sound:
  assumes "typed_issues (validateAt fuel schemas) schema (embed j) path = Some []" "typed_fits (schema_fits n schemas) schema t"
    and rec: "\<And>j s p u. validateAt fuel schemas (embed j) s p = Some [] \<Longrightarrow> schema_fits n schemas s u \<Longrightarrow> has_type u j"
  shows "has_type t j"
proof (cases t)
  case TString
  with assms(1,2) show ?thesis by (cases j) (simp_all add: typed_issues_def typed_fits_def string_issues_def)
next
  case TNumber
  with assms(1,2) show ?thesis
    by (cases j) (auto simp: typed_issues_def typed_fits_def integer_value_def number_value_def Let_def)
next
  case (TArray u)
  with assms(2) obtain item where item: "prop_of schema ''type'' = Some (JStr ''array'')" "prop_of schema ''items'' = Some (JObj item)" "schema_fits n schemas item u"
    by (auto simp: typed_fits_def split: option.splits json.splits)
  then have "array_issues (validateAt fuel schemas) schema (embed j) path = Some []" using assms(1) by (simp add: typed_issues_def)
  then obtain xs where xs: "j = JArr xs" "\<And>x. x \<in> set xs \<Longrightarrow> \<exists>p. validateAt fuel schemas (embed x) item p = Some []"
    by (rule array_accepted [OF _ item(2)]) blast
  then have "has_type u x" if "x \<in> set xs" for x using rec [OF _ item(3)] that by blast
  with TArray xs(1) show ?thesis by (simp add: list_all_iff)
next
  case (TRecord u)
  with assms(2) have "prop_of schema ''type'' = Some (JStr ''object'')" "u = TWireJson" by (simp_all add: typed_fits_def)
  with assms(1) TRecord show ?thesis by (cases j) (simp_all add: typed_issues_def object_issues_def list_all_iff case_prod_beta)
next
  case (TInterface fs)
  with assms(2) obtain properties where ty: "prop_of schema ''type'' = Some (JStr ''object'')" "prop_of schema ''properties'' = Some (JObj properties)"
    "list_all (field_fits (schema_fits n schemas) schema properties) fs"
    by (auto simp: typed_fits_def split: option.splits json.splits)
  then have "object_issues (validateAt fuel schemas) schema (embed j) path = Some []" using assms(1) by (simp add: typed_issues_def)
  then obtain ps where ps: "j = JObj ps"
    "\<And>name child. prop_of properties name = Some (JObj child) \<Longrightarrow>
       (case prop_of ps name of None \<Rightarrow> name \<notin> set (required_names schema) | Some v \<Rightarrow> validateAt fuel schemas (embed v) child (at_key path name) = Some [])"
    by (rule object_accepted) (use ty(2) in blast)
  have "case prop_of ps name of None \<Rightarrow> presence = Optional | Some v \<Rightarrow> has_type u v" if "(name, presence, u) \<in> set fs" for name presence u
  proof -
    from that ty(3) have "field_fits (schema_fits n schemas) schema properties (name, presence, u)" unfolding list_all_iff by (rule bspec [rotated])
    then obtain child where child: "presence = Optional \<or> name \<in> set (required_names schema)" "prop_of properties name = Some (JObj child)" "schema_fits n schemas child u"
      by (auto simp: field_fits_def split: option.splits json.splits)
    from ps(2) [OF child(2)] child(1) rec [OF _ child(3)] show ?thesis by (auto split: option.splits)
  qed
  with TInterface ps(1) show ?thesis by (auto simp: list_all_iff)
qed (use assms(2) in \<open>simp_all add: typed_fits_def\<close>)

lemma validateAt_sound: "validateAt fuel schemas (embed j) schema path = Some [] \<Longrightarrow> schema_fits n schemas schema t \<Longrightarrow> has_type t j"
proof (induction n arbitrary: fuel j schema path t)
  case (Suc n)
  obtain k where k: "fuel = Suc k" using Suc.prems(1) by (cases fuel) simp_all
  show ?case
  proof (cases "embed j = WNull \<and> acceptsNull schema")
    case True
    then have "j = JNull" "allows_null t" using Suc.prems(2) by (cases j; simp)+
    then show ?thesis by (cases t) (simp_all add: allows_null_def)
  next
    case False
    have "has_type (without_null t) j"
    proof (cases "referenceName (prop_of (nonNullSchema schema) ''$ref'')")
      case None
      with False k Suc.prems show ?thesis by (auto intro: typed_sound [OF _ _ Suc.IH])
    next
      case (Some referenced)
      with False k Suc.prems show ?thesis by (auto split: option.splits intro: Suc.IH)
    qed
    then show ?thesis by (rule has_type_without_null)
  qed
qed simp

definition type_depth :: nat where
  "type_depth = 5"

definition sound_type :: "registry \<Rightarrow> string \<Rightarrow> ts_type \<Rightarrow> bool" where
  "sound_type schemas name t = (case prop_of schemas name of None \<Rightarrow> False | Some schema \<Rightarrow> schema_fits type_depth schemas schema t)"

lemma decoded_has_type:
  assumes "sound_type schemas name t" "decode_as (assert_as name schemas) parse isSafeNumber txt = Some (Inr j)"
  shows "has_type t j"
proof -
  from assms(2) obtain z where "assert_as name schemas (embed j) = Some z" "bindR z (\<lambda>_. Inr j) = Inr j"
    by (auto simp: decode_as_def bindR_Inr_iff split: sum.splits)
  then have "assert_as name schemas (embed j) = Some (Inr ())" by (cases z) simp_all
  with assms(1) show ?thesis
    by (auto simp: assert_as_def assertCatalogValue_def validateCatalogValue_def sound_type_def split: option.splits if_splits
        intro: validateAt_sound)
qed

section \<open>The catalogs\<close>

text \<open>The types whose decoder accepts JSON values without the type, each with such a value.\<close>

definition untyped_samples :: "(string \<times> json) list" where
  "untyped_samples = [
    (''ApplicationMoveRequest'', JObj [(''reason'', JNull)]),
    (''ApplicationMoveResponse'', JObj [(''next_application_id'', JNull)]),
    (''AudioBufferClearRequest'', JObj [(''extra'', JNull)]),
    (''CallHangupEvent'', JObj [(''reason'', JNull)]),
    (''EmptyResponse'', JObj [(''extra'', JNull)]),
    (''OutputTranscriptDoneEvent'', JObj [(''text'', JNull)]),
    (''PingRequest'', JObj [(''t0'', JNum (Fin 1)), (''rtt'', JNull)]),
    (''RecordingStartRequest'', JObj [(''tags'', JNull)])]"

definition soundly_typed :: "string \<Rightarrow> bool" where
  "soundly_typed name \<longleftrightarrow> name \<notin> set (map fst untyped_samples)"

text \<open>The only schemas that others refer to.\<close>

definition referenced_schemas :: registry where
  "referenced_schemas = [(''AppInfo'', AppInfo_schema), (''AudioCodec'', AudioCodec_schema), (''AudioInfoItem'', AudioInfoItem_schema), (''CallInfo'', CallInfo_schema)]"

lemma referenced_schemas_le: "map_of referenced_schemas \<subseteq>\<^sub>m map_of BABELFORCE_V1_SCHEMAS"
  by (auto simp: map_le_def referenced_schemas_def BABELFORCE_V1_SCHEMAS_def split: if_splits)

definition fits_all :: "registry \<Rightarrow> (string \<times> ts_type) list \<Rightarrow> registry \<Rightarrow> bool" where
  "fits_all R types schemas \<longleftrightarrow> list_all2 (\<lambda>(name, t) (name', schema). name = name' \<and> (soundly_typed name \<longrightarrow> schema_fits type_depth R schema t)) types schemas"

lemma babelforce_types_fit_referenced: "fits_all referenced_schemas BABELFORCE_V1_TYPES BABELFORCE_V1_SCHEMAS"
  by code_simp

lemma babelforce_types_fit:
  assumes "(name, t) \<in> set BABELFORCE_V1_TYPES" "soundly_typed name"
  shows "sound_type BABELFORCE_V1_SCHEMAS name t"
proof -
  from assms(1) obtain i where i: "i < length BABELFORCE_V1_TYPES" "BABELFORCE_V1_TYPES ! i = (name, t)" by (auto simp: in_set_conv_nth)
  then obtain schema where "BABELFORCE_V1_SCHEMAS ! i = (name, schema)" "i < length BABELFORCE_V1_SCHEMAS" and fits: "schema_fits type_depth referenced_schemas schema t"
    using babelforce_types_fit_referenced assms(2) by (cases "BABELFORCE_V1_SCHEMAS ! i") (auto simp: fits_all_def list_all2_conv_all_nth)
  then have "(name, schema) \<in> set BABELFORCE_V1_SCHEMAS" by (metis nth_mem)
  moreover have "distinct (map fst BABELFORCE_V1_SCHEMAS)" by (simp add: BABELFORCE_V1_SCHEMAS_def)
  ultimately have "prop_of BABELFORCE_V1_SCHEMAS name = Some schema" by simp
  with schema_fits_mono [OF referenced_schemas_le fits] show ?thesis by (simp add: sound_type_def)
qed

lemma demo_types_fit: "list_all (\<lambda>(name, t). sound_type DEMO_V1_SCHEMAS name t) DEMO_V1_TYPES"
  by code_simp

text \<open>
  Claim C17.  A decoder keeps the promise of its TypeScript type: whatever text it is given, what the decoder of a type of the
  catalog \<open>babelforce.v1\<close> returns has that type, field by field, for every type but the eight of
  \<open>untyped_samples\<close>.
\<close>

theorem decoded_value_has_its_type:
  assumes "(name, t) \<in> set BABELFORCE_V1_TYPES" "soundly_typed name"
    and "decode_as (assert_as name BABELFORCE_V1_SCHEMAS) parse isSafeNumber txt = Some (Inr j)"
  shows "has_type t j"
  by (rule decoded_has_type [OF babelforce_types_fit [OF assms(1,2)] assms(3)])

lemma recording_decodes: "decodeRecordingStopRequest reference_parse reference_isSafeNumber ''{\"id\":\"r\"}'' = Some (Inr (JObj [(''id'', JStr ''r'')]))"
  by code_simp

theorem decoded_value_has_its_type_witness:
  "decodeRecordingStopRequest reference_parse reference_isSafeNumber ''{\"id\":\"r\"}'' = Some (Inr (JObj [(''id'', JStr ''r'')]))
   \<and> has_type RecordingStopRequest (JObj [(''id'', JStr ''r'')])"
proof
  show d: "decodeRecordingStopRequest reference_parse reference_isSafeNumber ''{\"id\":\"r\"}'' = Some (Inr (JObj [(''id'', JStr ''r'')]))"
    by (rule recording_decodes)
  have "(''RecordingStopRequest'', RecordingStopRequest) \<in> set BABELFORCE_V1_TYPES" "soundly_typed ''RecordingStopRequest''"
    by (simp add: BABELFORCE_V1_TYPES_def, code_simp)
  from decoded_value_has_its_type [OF this d [unfolded decodeRecordingStopRequest_def assertRecordingStopRequest_def]]
  show "has_type RecordingStopRequest (JObj [(''id'', JStr ''r'')])" .
qed

text \<open>
  The other eight promise too much: each of them accepts a JSON value that does not have its type, an optional
  property that is \<open>null\<close> where the interface allows only an absent one, or a further property where the type says that there
  is none.
\<close>

theorem untyped_values_accepted:
  "list_all (\<lambda>(name, j). assert_as name BABELFORCE_V1_SCHEMAS (embed j) = Some (Inr ())
     \<and> (case map_of BABELFORCE_V1_TYPES name of None \<Rightarrow> False | Some t \<Rightarrow> \<not> has_type t j)) untyped_samples"
  by code_simp

text \<open>All types of \<open>demo.v1\<close> hold.\<close>

theorem decoded_demo_value_has_its_type:
  assumes "(name, t) \<in> set DEMO_V1_TYPES"
    and "decode_as (assert_as name DEMO_V1_SCHEMAS) parse isSafeNumber txt = Some (Inr j)"
  shows "has_type t j"
  using decoded_has_type [OF _ assms(2)] demo_types_fit assms(1) by (auto simp: list_all_iff)

end
