(* ===== verification/Lab_Lifecycle.thy ===== *)
theory Lab_Lifecycle
  imports Errors
begin

text \<open>
  \<open>ProtocolLab/controller.ts\<close> of the documentation site: how the lab starts, hangs up and releases a call.  Sessions, audio
  runtimes, devices, microphone tracks and timers are known by numbers; the state keeps which of them the
  controller refers to and which are open.  A call of the controller is cut at its \<open>await\<close>s.  \<open>start\<close> of
  \<open>ProtocolLab/index.tsx\<close>, which closes the controller when a start fails, is part of a start here.  The statistics and the timeline
  entries that these functions also give to the page are left out; \<open>Lab_Stats\<close> and \<open>Lab_Timeline\<close> have the others.  The promises
  that \<open>closeResources\<close> awaits fulfil: all but that of \<open>audio.close()\<close> have a \<open>catch\<close>, and the bodies of \<open>close\<close> of the two audio
  runtimes stop and disconnect only what they have started and connected and catch a failing close of the context.
\<close>

section \<open>State\<close>

datatype lab_state = LabIdle | LabConnecting | LabConnected | LabEnded | LabFailed

datatype lab_profile = ProfileWebRtc | ProfileWebSocket

text \<open>What follows \<open>closeResources\<close>.\<close>

datatype after_close = ThenSimulation lab_profile | ThenLive string | ThenEnded | ThenNothing

datatype lab_call =
    CloseSessions after_close
  | CloseRuns after_close
  | CloseAudio after_close
  | CloseDevice after_close
  | SimulationReady lab_profile
  | SimulationInitialized lab_profile
  | SimulationUpdated lab_profile
  | SimulationAudio lab_profile
  | SimulationMedia
  | SimulationDelta
  | SimulationTranscript
  | LiveMedia string
  | LiveReady
  | LiveInitialized
  | LiveStats
  | HangupAnswered

record lab =
  lb_voiceSession :: "nat option"
  lb_applicationSession :: "nat option"
  lb_audio :: "nat option"
  lb_browserDevice :: "nat option"
  lb_liveTransport :: bool
  lb_liveTrack :: "nat option"
  lb_mediaAbort :: "nat option"
  lb_statsTimer :: "nat option"
  lb_stopping :: bool
  lb_state :: lab_state
  lb_history :: "lab_state list"
  lb_calls :: "(nat \<times> lab_call) list"
  lb_next :: nat
  lb_open :: "nat list"
  lb_abandoned :: "nat list"

definition new_lab :: lab where
  "new_lab = \<lparr>lb_voiceSession = None, lb_applicationSession = None, lb_audio = None, lb_browserDevice = None, lb_liveTransport = False,
     lb_liveTrack = None, lb_mediaAbort = None, lb_statsTimer = None, lb_stopping = False, lb_state = LabIdle, lb_history = [],
     lb_calls = [], lb_next = 0, lb_open = [], lb_abandoned = []\<rparr>"

definition lab_callback :: "lab_state \<Rightarrow> lab \<Rightarrow> lab" where
  "lab_callback st s = s\<lparr>lb_state := st, lb_history := lb_history s @ [st]\<rparr>"

definition release :: "nat option \<Rightarrow> lab \<Rightarrow> lab" where
  "release r s = (case r of None \<Rightarrow> s | Some x \<Rightarrow> s\<lparr>lb_open := filter (\<lambda>y. y \<noteq> x) (lb_open s)\<rparr>)"

text \<open>A resource that has just been created.\<close>

definition acquire :: "lab \<Rightarrow> nat \<times> lab" where
  "acquire s = (lb_next s, s\<lparr>lb_next := lb_next s + 1, lb_open := lb_open s @ [lb_next s]\<rparr>)"

text \<open>An audio context that its creator loses before it has returned it: it stays open, and nothing refers to it.\<close>

definition abandon :: "lab \<Rightarrow> lab" where
  "abandon s = s\<lparr>lb_next := lb_next s + 1, lb_abandoned := lb_abandoned s @ [lb_next s]\<rparr>"

definition lab_wait :: "nat \<Rightarrow> lab_call \<Rightarrow> lab \<Rightarrow> lab" where
  "lab_wait n c s = s\<lparr>lb_calls := filter (\<lambda>x. fst x \<noteq> n) (lb_calls s) @ [(n, c)]\<rparr>"

definition lab_return :: "nat \<Rightarrow> lab \<Rightarrow> lab" where
  "lab_return n s = s\<lparr>lb_calls := filter (\<lambda>x. fst x \<noteq> n) (lb_calls s)\<rparr>"

section \<open>Starting after the old call is closed\<close>

definition begin_simulation :: "nat \<Rightarrow> lab_profile \<Rightarrow> lab \<Rightarrow> lab" where
  "begin_simulation n profile s =
     (let (v, s1) = acquire (lab_callback LabConnecting (s\<lparr>lb_stopping := False\<rparr>));
          (a, s2) = acquire s1
      in lab_wait n (SimulationReady profile) (s2\<lparr>lb_voiceSession := Some v, lb_applicationSession := Some a\<rparr>))"

definition begin_live :: "nat \<Rightarrow> string \<Rightarrow> lab \<Rightarrow> unit result \<times> lab" where
  "begin_live n endpoint s =
     (let s1 = s\<lparr>lb_stopping := False\<rparr> in
      if take 6 endpoint \<noteq> ''wss://'' then (Inl (JsError ''Live endpoints must use wss://''), s1)
      else (Inr (), lab_wait n (LiveMedia endpoint) (lab_callback LabConnecting s1)))"

section \<open>\<open>closeResources\<close>\<close>

definition close_begin :: "nat \<Rightarrow> after_close \<Rightarrow> lab \<Rightarrow> lab" where
  "close_begin n k s =
     (let s1 = (release (lb_statsTimer s) (s\<lparr>lb_stopping := True\<rparr>))\<lparr>lb_statsTimer := None\<rparr>;
          s2 = (release (lb_mediaAbort s1) s1)\<lparr>lb_mediaAbort := None\<rparr>
      in lab_wait n (CloseSessions k) (release (lb_voiceSession s2) (release (lb_applicationSession s2) s2)))"

text \<open>The end, from the close of the device on.\<close>

definition close_end :: "lab \<Rightarrow> lab" where
  "close_end s =
     (release (lb_liveTrack s) s)\<lparr>lb_voiceSession := None, lb_applicationSession := None, lb_audio := None, lb_browserDevice := None,
        lb_liveTransport := False, lb_liveTrack := None, lb_stopping := False\<rparr>"

text \<open>
  A call after its \<open>closeResources\<close>.  A start that fails is reported and closes the controller, which returns at once when it
  is already stopping.
\<close>

definition start_failed :: "nat \<Rightarrow> lab \<Rightarrow> lab" where
  "start_failed n s =
     (let s1 = lab_callback LabFailed s in
      if lb_stopping s1 then lab_return n s1 else close_begin n ThenNothing s1)"

definition after_closing :: "nat \<Rightarrow> after_close \<Rightarrow> lab \<Rightarrow> lab" where
  "after_closing n k s =
     (case k of
        ThenNothing \<Rightarrow> lab_return n s
      | ThenEnded \<Rightarrow> lab_return n (lab_callback LabEnded s)
      | ThenSimulation profile \<Rightarrow> begin_simulation n profile s
      | ThenLive endpoint \<Rightarrow> (case begin_live n endpoint s of (Inl _, s1) \<Rightarrow> start_failed n s1 | (Inr _, s1) \<Rightarrow> s1))"

definition closeResources :: "nat \<Rightarrow> after_close \<Rightarrow> lab \<Rightarrow> lab" where
  "closeResources n k s = (if lb_stopping s then after_closing n k s else close_begin n k s)"

section \<open>The calls of the page\<close>

definition startSimulation :: "nat \<Rightarrow> lab_profile \<Rightarrow> lab \<Rightarrow> lab" where
  "startSimulation n profile s = closeResources n (ThenSimulation profile) s"

definition startLive :: "nat \<Rightarrow> string \<Rightarrow> lab \<Rightarrow> lab" where
  "startLive n endpoint s = closeResources n (ThenLive endpoint) s"

definition lab_hangup :: "nat \<Rightarrow> lab \<Rightarrow> lab" where
  "lab_hangup n s =
     (if lb_voiceSession s \<noteq> None then lab_wait n HangupAnswered s else closeResources n ThenEnded s)"

definition lab_close :: "nat \<Rightarrow> lab \<Rightarrow> lab" where
  "lab_close n s = closeResources n ThenNothing s"

text \<open>
  What an \<open>await\<close> gives.  The creation of an audio runtime may fail after it has made its audio context (\<open>Left\<close>).
\<close>

datatype lab_outcome = Good | Bad | Left

text \<open>A session that is gone when it is used throws.\<close>

abbreviation no_session :: "nat option \<Rightarrow> bool" where
  "no_session s \<equiv> s = None"

definition audio_made :: "nat \<Rightarrow> lab_profile \<Rightarrow> lab_outcome \<Rightarrow> lab \<Rightarrow> lab" where
  "audio_made n profile r s =
     (case r of
        Bad \<Rightarrow> start_failed n s
      | Left \<Rightarrow> start_failed n (abandon s)
      | Good \<Rightarrow>
          (let (a, s1) = acquire s; s2 = s1\<lparr>lb_audio := Some a\<rparr> in
           case profile of
             ProfileWebRtc \<Rightarrow>
               (let (t, s3) = acquire s2; s4 = s3\<lparr>lb_statsTimer := Some t\<rparr> in
                if no_session (lb_applicationSession s4) then start_failed n s4 else lab_wait n SimulationDelta s4)
           | ProfileWebSocket \<Rightarrow>
               if no_session (lb_voiceSession s2) \<or> no_session (lb_applicationSession s2) then start_failed n s2 else lab_wait n SimulationMedia s2))"

definition media_granted :: "nat \<Rightarrow> lab_outcome \<Rightarrow> lab \<Rightarrow> lab" where
  "media_granted n r s =
     (if r \<noteq> Good then start_failed n s
      else (let (t, s1) = acquire s; (d, s2) = acquire (s1\<lparr>lb_liveTrack := Some t\<rparr>); (v, s3) = acquire (s2\<lparr>lb_browserDevice := Some d\<rparr>)
            in lab_wait n LiveReady (s3\<lparr>lb_voiceSession := Some v\<rparr>)))"

definition lab_settles :: "nat \<Rightarrow> lab_outcome \<Rightarrow> lab \<Rightarrow> lab" where
  "lab_settles n r s =
     (case map_of (lb_calls s) n of
        None \<Rightarrow> s
      | Some (CloseSessions k) \<Rightarrow> lab_wait n (CloseRuns k) s
      | Some (CloseRuns k) \<Rightarrow> lab_wait n (CloseAudio k) (release (lb_audio s) s)
      | Some (CloseAudio k) \<Rightarrow> lab_wait n (CloseDevice k) (release (lb_browserDevice s) s)
      | Some (CloseDevice k) \<Rightarrow> after_closing n k (close_end s)
      | Some (SimulationReady p) \<Rightarrow>
          if r \<noteq> Good \<or> no_session (lb_voiceSession s) then start_failed n s else lab_wait n (SimulationInitialized p) s
      | Some (SimulationInitialized p) \<Rightarrow>
          if r \<noteq> Good \<or> no_session (lb_voiceSession s) then start_failed n s else lab_wait n (SimulationUpdated p) s
      | Some (SimulationUpdated p) \<Rightarrow> if r \<noteq> Good then start_failed n s else lab_wait n (SimulationAudio p) s
      | Some (SimulationAudio p) \<Rightarrow> audio_made n p r s
      | Some SimulationMedia \<Rightarrow>
          if r \<noteq> Good then start_failed n s
          else (let (m, s1) = acquire s; s2 = s1\<lparr>lb_mediaAbort := Some m\<rparr> in
                if no_session (lb_applicationSession s2) then start_failed n s2 else lab_wait n SimulationDelta s2)
      | Some SimulationDelta \<Rightarrow>
          if r \<noteq> Good \<or> no_session (lb_applicationSession s) then start_failed n s else lab_wait n SimulationTranscript s
      | Some SimulationTranscript \<Rightarrow> if r \<noteq> Good then start_failed n s else lab_return n (lab_callback LabConnected s)
      | Some (LiveMedia endpoint) \<Rightarrow> media_granted n r s
      | Some LiveReady \<Rightarrow> if r \<noteq> Good \<or> no_session (lb_voiceSession s) then start_failed n s else lab_wait n LiveInitialized s
      | Some LiveInitialized \<Rightarrow>
          if r \<noteq> Good then start_failed n s
          else (let (t, s1) = acquire s in lab_wait n LiveStats (s1\<lparr>lb_statsTimer := Some t\<rparr>))
      | Some LiveStats \<Rightarrow> if r \<noteq> Good then start_failed n s else lab_return n (lab_callback LabConnected s)
      | Some HangupAnswered \<Rightarrow> closeResources n ThenEnded s)"

text \<open>The frame pump of a simulation stops unexpectedly.\<close>

definition pump_failed :: "lab \<Rightarrow> lab" where
  "pump_failed s = (if lb_mediaAbort s = None then s else lab_callback LabFailed s)"

section \<open>Runs\<close>

datatype lab_op = DoStartSimulation lab_profile | DoStartLive string | DoHangup | DoClose | DoSettles nat lab_outcome | DoTransport | DoPumpFails

definition lab_begin :: "(nat \<Rightarrow> lab \<Rightarrow> lab) \<Rightarrow> lab \<Rightarrow> lab" where
  "lab_begin f s = f (lb_next s) (s\<lparr>lb_next := lb_next s + 1\<rparr>)"

fun lab_step :: "lab \<Rightarrow> lab_op \<Rightarrow> lab" where
  "lab_step s (DoStartSimulation p) = lab_begin (\<lambda>n. startSimulation n p) s"
| "lab_step s (DoStartLive url) = lab_begin (\<lambda>n. startLive n url) s"
| "lab_step s DoHangup = lab_begin lab_hangup s"
| "lab_step s DoClose = lab_begin lab_close s"
| "lab_step s (DoSettles n r) = lab_settles n r s"
| "lab_step s DoTransport = s\<lparr>lb_liveTransport := True\<rparr>"
| "lab_step s DoPumpFails = pump_failed s"

definition run_lab :: "lab \<Rightarrow> lab_op list \<Rightarrow> lab" where
  "run_lab s ops = foldl lab_step s ops"

text \<open>Runs in which a call is made only when no other is under way.\<close>

definition in_turn :: "lab \<Rightarrow> lab_op \<Rightarrow> bool" where
  "in_turn s x = (case x of DoSettles n r \<Rightarrow> True | DoTransport \<Rightarrow> True | DoPumpFails \<Rightarrow> True | _ \<Rightarrow> lb_calls s = [])"

fun sequential :: "lab \<Rightarrow> lab_op list \<Rightarrow> bool" where
  "sequential s [] = True"
| "sequential s (x # xs) = (in_turn s x \<and> sequential (lab_step s x) xs)"

text \<open>The runs that the page offers: its button starts a call that is neither being connected nor connected, and hangs up a connected one.\<close>

definition page_allows :: "lab \<Rightarrow> lab_op \<Rightarrow> bool" where
  "page_allows s x =
     (case x of
        DoStartSimulation _ \<Rightarrow> lb_state s \<noteq> LabConnecting \<and> lb_state s \<noteq> LabConnected
      | DoStartLive endpoint \<Rightarrow> endpoint \<noteq> [] \<and> lb_state s \<noteq> LabConnecting \<and> lb_state s \<noteq> LabConnected
      | DoHangup \<Rightarrow> lb_state s = LabConnected
      | _ \<Rightarrow> True)"

fun offered :: "lab \<Rightarrow> lab_op list \<Rightarrow> bool" where
  "offered s [] = True"
| "offered s (x # xs) = (page_allows s x \<and> offered (lab_step s x) xs)"

section \<open>What may be open\<close>

definition lab_closing :: "lab_call \<Rightarrow> bool" where
  "lab_closing c = (case c of CloseSessions _ \<Rightarrow> True | CloseRuns _ \<Rightarrow> True | CloseAudio _ \<Rightarrow> True | CloseDevice _ \<Rightarrow> True | _ \<Rightarrow> False)"

definition lab_fields :: "lab \<Rightarrow> nat option set" where
  "lab_fields s = {lb_voiceSession s, lb_applicationSession s, lb_audio s, lb_browserDevice s, lb_liveTrack s, lb_mediaAbort s, lb_statsTimer s}"

fun may_open :: "lab_call \<Rightarrow> lab \<Rightarrow> nat option set" where
  "may_open (CloseSessions _) s = {lb_audio s, lb_browserDevice s, lb_liveTrack s}"
| "may_open (CloseRuns _) s = {lb_audio s, lb_browserDevice s, lb_liveTrack s}"
| "may_open (CloseAudio _) s = {lb_browserDevice s, lb_liveTrack s}"
| "may_open (CloseDevice _) s = {lb_liveTrack s}"
| "may_open (SimulationReady _) s = {lb_voiceSession s, lb_applicationSession s}"
| "may_open (SimulationInitialized _) s = {lb_voiceSession s, lb_applicationSession s}"
| "may_open (SimulationUpdated _) s = {lb_voiceSession s, lb_applicationSession s}"
| "may_open (SimulationAudio _) s = {lb_voiceSession s, lb_applicationSession s}"
| "may_open SimulationMedia s = {lb_voiceSession s, lb_applicationSession s, lb_audio s}"
| "may_open (LiveMedia _) s = {}"
| "may_open LiveReady s = {lb_voiceSession s, lb_browserDevice s, lb_liveTrack s}"
| "may_open LiveInitialized s = {lb_voiceSession s, lb_browserDevice s, lb_liveTrack s}"
| "may_open _ s = lab_fields s"

definition lab_ok :: "lab \<Rightarrow> bool" where
  "lab_ok s \<longleftrightarrow>
     (case lb_calls s of
        [] \<Rightarrow> \<not> lb_stopping s \<and> Some ` set (lb_open s) \<subseteq> lab_fields s
      | [(n, c)] \<Rightarrow> lb_stopping s = lab_closing c \<and> Some ` set (lb_open s) \<subseteq> may_open c s
      | _ \<Rightarrow> False)"

lemma release_fields [simp]:
  "lab_fields (release r s) = lab_fields s" "may_open c (release r s) = may_open c s" "lb_calls (release r s) = lb_calls s" "lb_stopping (release r s) = lb_stopping s"
  "lb_voiceSession (release r s) = lb_voiceSession s" "lb_applicationSession (release r s) = lb_applicationSession s" "lb_audio (release r s) = lb_audio s"
  "lb_browserDevice (release r s) = lb_browserDevice s" "lb_liveTrack (release r s) = lb_liveTrack s" "lb_mediaAbort (release r s) = lb_mediaAbort s"
  "lb_statsTimer (release r s) = lb_statsTimer s" "lb_next (release r s) = lb_next s" "lb_state (release r s) = lb_state s" "lb_history (release r s) = lb_history s"
  "lb_abandoned (release r s) = lb_abandoned s"
  by (cases r; cases c; simp add: release_def lab_fields_def)+

lemma release_open [simp]: "Some ` set (lb_open (release r s)) = Some ` set (lb_open s) - {r}"
  by (cases r) (auto simp: release_def)

definition only_call :: "nat \<Rightarrow> lab \<Rightarrow> bool" where
  "only_call n s \<longleftrightarrow> filter (\<lambda>x. fst x \<noteq> n) (lb_calls s) = []"

lemma wait_ok: "only_call n s \<Longrightarrow> lab_ok (lab_wait n c s) \<longleftrightarrow> lb_stopping s = lab_closing c \<and> Some ` set (lb_open s) \<subseteq> may_open c s"
  by (cases c) (simp_all add: lab_ok_def lab_wait_def only_call_def lab_fields_def)

lemma return_ok: "only_call n s \<Longrightarrow> lab_ok (lab_return n s) \<longleftrightarrow> \<not> lb_stopping s \<and> Some ` set (lb_open s) \<subseteq> lab_fields s"
  by (simp add: lab_ok_def lab_return_def only_call_def lab_fields_def)

lemmas lab_simps = wait_ok return_ok lab_callback_def acquire_def only_call_def lab_closing_def lab_fields_def

lemma close_begin_ok: "only_call n s \<Longrightarrow> Some ` set (lb_open s) \<subseteq> lab_fields s \<Longrightarrow> lab_ok (close_begin n k s)"
  by (auto simp: close_begin_def lab_simps Let_def)

lemma lab_start_failed_ok: "only_call n s \<Longrightarrow> \<not> lb_stopping s \<Longrightarrow> Some ` set (lb_open s) \<subseteq> lab_fields s \<Longrightarrow> lab_ok (start_failed n s)"
  unfolding start_failed_def Let_def by (simp add: lab_callback_def) (rule close_begin_ok; simp add: only_call_def lab_fields_def)

lemma after_closing_ok:
  assumes "only_call n s" "lb_open s = []" "\<not> lb_stopping s"
  shows "lab_ok (after_closing n k s)"
proof (cases k)
  case (ThenSimulation profile)
  with assms show ?thesis by (simp add: after_closing_def begin_simulation_def lab_simps)
next
  case (ThenLive endpoint)
  have "lab_ok (start_failed n (s\<lparr>lb_stopping := False\<rparr>))" using assms by (intro lab_start_failed_ok) (simp_all add: only_call_def)
  with ThenLive assms show ?thesis by (simp add: after_closing_def begin_live_def lab_simps Let_def)
qed (use assms in \<open>simp_all add: after_closing_def lab_simps\<close>)

lemma closeResources_ok:
  assumes "lab_ok s" "only_call n s" "\<not> lb_stopping s" "Some ` set (lb_open s) \<subseteq> lab_fields s"
  shows "lab_ok (closeResources n k s)"
  using assms close_begin_ok [OF assms(2,4)] by (simp add: closeResources_def)

lemma begun_ok:
  assumes "lab_ok s" "lb_calls s = []"
  shows "lab_ok (s\<lparr>lb_next := n\<rparr>)" "only_call m (s\<lparr>lb_next := n\<rparr>)" "\<not> lb_stopping (s\<lparr>lb_next := n\<rparr>)"
    "Some ` set (lb_open (s\<lparr>lb_next := n\<rparr>)) \<subseteq> lab_fields (s\<lparr>lb_next := n\<rparr>)"
  using assms by (simp_all add: lab_ok_def only_call_def lab_fields_def)

lemma may_open_fields: "may_open c s \<subseteq> lab_fields s"
  by (cases c) (auto simp: lab_fields_def)

lemma audio_made_ok:
  assumes "only_call n s" "\<not> lb_stopping s" "Some ` set (lb_open s) \<subseteq> {lb_voiceSession s, lb_applicationSession s}"
  shows "lab_ok (audio_made n p r s)"
proof -
  have "Some ` set (lb_open s) \<subseteq> lab_fields s" using assms(3) by (auto simp: lab_fields_def)
  moreover from this have "lab_ok (start_failed n (abandon s))"
    using assms(1,2) by (intro lab_start_failed_ok) (simp_all add: abandon_def only_call_def lab_fields_def)
  ultimately show ?thesis
    using assms lab_start_failed_ok [OF assms(1,2)]
    by (cases r; cases p) (auto simp: audio_made_def Let_def acquire_def intro!: lab_start_failed_ok, auto simp: lab_simps)
qed

lemma settles_ok:
  assumes "lab_ok s"
  shows "lab_ok (lab_settles m r s)"
proof (cases "map_of (lb_calls s) m")
  case (Some c)
  obtain x xs where x: "lb_calls s = x # xs" using Some by (cases "lb_calls s") auto
  moreover have "xs = []" using assms(1) x by (cases xs; cases x) (simp_all add: lab_ok_def)
  ultimately have calls: "lb_calls s = [(m, c)]" using Some by (cases x) (simp split: if_splits)
  then have own: "only_call m s" and ok: "lb_stopping s = lab_closing c" "Some ` set (lb_open s) \<subseteq> may_open c s"
    using assms(1) by (simp_all add: only_call_def lab_ok_def)
  have fail: "\<not> lab_closing c \<Longrightarrow> lab_ok (start_failed m s)"
    using lab_start_failed_ok [OF own] ok may_open_fields [of c s] by auto
  show ?thesis
  proof (cases c)
    case (CloseDevice k)
    have "Some ` set (lb_open (release (lb_liveTrack s) s)) = {}" unfolding release_open using ok CloseDevice by auto
    then have "lb_open (release (lb_liveTrack s) s) = []" by (simp only: image_is_empty set_empty)
    then have "lab_ok (after_closing m k (close_end s))"
      using own by (intro after_closing_ok) (simp_all add: close_end_def only_call_def)
    with Some CloseDevice show ?thesis by (simp add: lab_settles_def)
  next
    case (SimulationAudio p)
    with Some audio_made_ok [OF own] ok show ?thesis by (simp add: lab_settles_def lab_closing_def)
  next
    case HangupAnswered
    with Some closeResources_ok [OF assms(1) own] ok show ?thesis by (simp add: lab_settles_def lab_closing_def)
  next
    case SimulationMedia
    have "lab_ok (start_failed m ((snd (acquire s))\<lparr>lb_mediaAbort := Some (lb_next s)\<rparr>))"
      using ok own SimulationMedia by (intro lab_start_failed_ok) (auto simp: acquire_def only_call_def lab_closing_def lab_fields_def)
    with fail SimulationMedia ok calls show ?thesis by (auto simp: lab_settles_def lab_simps Let_def)
  next
    case (LiveMedia e)
    with fail ok calls show ?thesis by (auto simp: lab_settles_def media_granted_def lab_simps)
  qed (use fail ok calls in \<open>auto simp: lab_settles_def lab_simps\<close>)
qed (simp add: lab_settles_def assms)

lemma may_open_frame [simp]:
  "may_open c (s\<lparr>lb_liveTransport := b\<rparr>) = may_open c s" "may_open c (lab_callback st s) = may_open c s"
  by (cases c; simp add: lab_fields_def lab_callback_def)+

lemma hangup_ok:
  assumes "lab_ok s" "lb_calls s = []"
  shows "lab_ok (lab_begin lab_hangup s)"
proof -
  let ?s = "s\<lparr>lb_next := lb_next s + 1\<rparr>"
  note begun = begun_ok [OF assms, where n = "lb_next s + 1"]
  have "lab_ok (closeResources (lb_next s) ThenEnded ?s)" by (rule closeResources_ok [OF begun])
  moreover have "lab_ok (lab_wait (lb_next s) HangupAnswered ?s)" unfolding wait_ok [OF begun(2)] using begun(3,4) by (simp add: lab_closing_def)
  ultimately show ?thesis by (simp add: lab_begin_def lab_hangup_def)
qed

lemma quiet_ok: "lab_ok s \<Longrightarrow> lab_ok (s\<lparr>lb_liveTransport := b\<rparr>)" "lab_ok s \<Longrightarrow> lab_ok (lab_callback st s)"
  unfolding lab_ok_def by (auto simp: lab_fields_def lab_callback_def [of st s] may_open_frame(2) [unfolded lab_callback_def] split: list.splits)

lemma lab_step_ok: "lab_ok s \<Longrightarrow> in_turn s x \<Longrightarrow> lab_ok (lab_step s x)"
  using closeResources_ok [OF begun_ok, of s] hangup_ok [of s]
  by (cases x) (simp_all add: in_turn_def settles_ok lab_begin_def startSimulation_def startLive_def lab_close_def quiet_ok pump_failed_def)

lemma lab_run_ok: "lab_ok s \<Longrightarrow> sequential s ops \<Longrightarrow> lab_ok (run_lab s ops)"
  unfolding run_lab_def by (induction ops arbitrary: s) (simp_all add: lab_step_ok)

lemma new_lab_ok: "lab_ok new_lab"
  by (simp add: new_lab_def lab_ok_def)

text \<open>From the start of \<open>closeResources\<close> four awaits later everything is released.\<close>

definition settle_all :: "nat \<Rightarrow> nat \<Rightarrow> lab_op list" where
  "settle_all n k = replicate k (DoSettles n Good)"

lemma closing_run:
  assumes "lab_ok s" "lb_calls s = [(n, CloseSessions k)]"
  shows "run_lab s (settle_all n 4) = after_closing n k (close_end (lab_wait n (CloseDevice k) (release (lb_browserDevice s) (release (lb_audio s) s))))
    \<and> lb_open (close_end (release (lb_browserDevice s) (release (lb_audio s) s))) = []"
proof
  have "Some ` set (lb_open s) \<subseteq> {lb_audio s, lb_browserDevice s, lb_liveTrack s}" using assms by (simp add: lab_ok_def)
  then have "Some ` set (lb_open (release (lb_liveTrack s) (release (lb_browserDevice s) (release (lb_audio s) s)))) = {}"
    unfolding release_open by auto
  then show "lb_open (close_end (release (lb_browserDevice s) (release (lb_audio s) s))) = []"
    by (simp add: close_end_def del: release_open)
  show "run_lab s (settle_all n 4) = after_closing n k (close_end (lab_wait n (CloseDevice k) (release (lb_browserDevice s) (release (lb_audio s) s))))"
    using assms(2) by (simp add: run_lab_def settle_all_def numeral_eq_Suc lab_settles_def lab_wait_def release_def split: option.split)
qed

lemma run_lab_append: "run_lab s (xs @ ys) = run_lab (run_lab s xs) ys"
  by (simp add: run_lab_def)

lemma ended_run:
  assumes "lab_ok s" "lb_calls s = [(n, CloseSessions ThenEnded)]" "t = run_lab s (settle_all n 4)"
  shows "lb_open t = [] \<and> lb_abandoned t = lb_abandoned s \<and> lb_calls t = [] \<and> lb_state t = LabEnded \<and> lb_voiceSession t = None \<and> lb_liveTrack t = None"
  using closing_run [OF assms(1,2)] assms(2,3)
  by (simp add: after_closing_def lab_return_def lab_callback_def close_end_def lab_wait_def release_def split: option.splits)

lemma close_begin_call: "only_call n s \<Longrightarrow> lb_calls (close_begin n k s) = [(n, CloseSessions k)]"
  by (simp add: close_begin_def lab_wait_def only_call_def Let_def)

text \<open>Only an audio start that fails halfway abandons a context.\<close>

lemma close_begin_abandoned [simp]: "lb_abandoned (close_begin n k s) = lb_abandoned s"
  by (simp add: close_begin_def lab_wait_def Let_def)

lemma start_failed_abandoned [simp]: "lb_abandoned (start_failed n s) = lb_abandoned s"
  by (simp add: start_failed_def lab_callback_def lab_return_def Let_def)

lemma closeResources_abandoned [simp]: "lb_abandoned (closeResources n k s) = lb_abandoned s"
  by (auto simp: closeResources_def after_closing_def begin_simulation_def begin_live_def acquire_def lab_wait_def lab_return_def lab_callback_def Let_def
      split: after_close.split)

lemma settles_abandoned: "r \<noteq> Left \<Longrightarrow> lb_abandoned (lab_settles n r s) = lb_abandoned s"
  by (cases r) (auto simp: lab_settles_def audio_made_def media_granted_def after_closing_def close_end_def begin_simulation_def begin_live_def acquire_def
      lab_wait_def lab_return_def lab_callback_def Let_def split: option.split lab_call.split lab_profile.split after_close.split)

lemma step_abandoned: "(\<And>n. x \<noteq> DoSettles n Left) \<Longrightarrow> lb_abandoned (lab_step s x) = lb_abandoned s"
  by (cases x) (auto simp: settles_abandoned lab_begin_def startSimulation_def startLive_def lab_hangup_def lab_close_def lab_wait_def pump_failed_def lab_callback_def)

lemma run_abandoned: "(\<And>n. DoSettles n Left \<notin> set ops) \<Longrightarrow> lb_abandoned (run_lab s ops) = lb_abandoned s"
proof (induction ops arbitrary: s)
  case (Cons x xs)
  then have "lb_abandoned (lab_step s x) = lb_abandoned s" by (intro step_abandoned) auto
  then show ?case using Cons by (simp add: run_lab_def)
qed (simp add: run_lab_def)

section \<open>Properties\<close>

text \<open>
  Claim C38.  Hanging up releases everything that the controller refers to: after any run in which the calls of the page
  did not overlap, whatever fails in it, a hang-up that runs to its end leaves no session, audio runtime, device,
  microphone track, timer or frame pump open, and the lab shows the call as ended.  What a start
  has abandoned it does not touch: an audio start that fails after it has made its audio context leaves that context
  open for good.  Without such a failure nothing is left.
\<close>

theorem lab_hangup_releases:
  assumes "sequential new_lab ops" "s = run_lab new_lab ops" "lb_calls s = []"
    and "t = run_lab s (DoHangup # settle_all (lb_next s) (if lb_voiceSession s = None then 4 else 5))"
  shows "lb_open t = [] \<and> lb_calls t = [] \<and> lb_state t = LabEnded \<and> lb_voiceSession t = None \<and> lb_liveTrack t = None
    \<and> lb_abandoned t = lb_abandoned s \<and> ((\<forall>n. DoSettles n Left \<notin> set ops) \<longrightarrow> lb_abandoned t = [])"
proof -
  let ?n = "lb_next s" and ?s = "s\<lparr>lb_next := lb_next s + 1\<rparr>"
  have ok: "lab_ok s" using lab_run_ok [OF new_lab_ok assms(1)] assms(2) by simp
  note begun = begun_ok [OF ok assms(3), where n = "lb_next s + 1"]
  have none: "lb_abandoned s = []" if "\<And>n. DoSettles n Left \<notin> set ops" using run_abandoned [OF that, of new_lab] assms(2) by (simp add: new_lab_def)
  show ?thesis
  proof (cases "lb_voiceSession s = None")
    case True
    then have h: "lab_step s DoHangup = close_begin ?n ThenEnded ?s" using begun(3) by (simp add: lab_begin_def lab_hangup_def closeResources_def)
    have "t = run_lab (close_begin ?n ThenEnded ?s) (settle_all ?n 4)" using assms(4) True h by (simp add: run_lab_def)
    from ended_run [OF close_begin_ok [OF begun(2,4)] close_begin_call [OF begun(2)] this] none show ?thesis by simp
  next
    case False
    let ?w = "lab_wait ?n HangupAnswered ?s"
    have h: "lab_step s DoHangup = ?w" using False by (simp add: lab_begin_def lab_hangup_def)
    have w: "only_call ?n ?w" "\<not> lb_stopping ?w" "Some ` set (lb_open ?w) \<subseteq> lab_fields ?w"
      using begun by (simp_all add: lab_wait_def only_call_def lab_fields_def)
    have "map_of (lb_calls ?w) ?n = Some HangupAnswered" using assms(3) by (simp add: lab_wait_def)
    then have "lab_step ?w (DoSettles ?n Good) = close_begin ?n ThenEnded ?w" using w(2) by (simp add: lab_settles_def closeResources_def)
    then have "t = run_lab (close_begin ?n ThenEnded ?w) (settle_all ?n 4)"
      using assms(4) False h by (simp add: run_lab_def settle_all_def numeral_eq_Suc del: lab_step.simps)
    from ended_run [OF close_begin_ok [OF w(1,3)] close_begin_call [OF w(1)] this] none show ?thesis by (simp add: lab_wait_def)
  qed
qed

definition live_call :: "lab_op list" where
  "live_call = DoStartLive ''wss://x'' # settle_all 0 8"

theorem lab_hangup_releases_witness:
  "lb_open (run_lab new_lab live_call) \<noteq> []
   \<and> lb_open (run_lab (run_lab new_lab live_call) (DoHangup # settle_all (lb_next (run_lab new_lab live_call)) 5)) = []
   \<and> lb_abandoned (run_lab (run_lab new_lab live_call) (DoHangup # settle_all (lb_next (run_lab new_lab live_call)) 5)) = []"
proof -
  have "sequential new_lab live_call" "lb_calls (run_lab new_lab live_call) = []" "lb_voiceSession (run_lab new_lab live_call) \<noteq> None"
    "lb_open (run_lab new_lab live_call) \<noteq> []" by code_simp+
  moreover have "DoSettles n Left \<notin> set live_call" for n by (simp add: live_call_def settle_all_def)
  ultimately show ?thesis using lab_hangup_releases [OF _ refl _ refl, of live_call] by (auto simp del: not_None_eq)
qed

text \<open>
  Leaving the page while the browser asks for the microphone does not stop the start: \<open>close\<close> ends with nothing open, and
  when the permission is given afterwards the start goes on and ends connected, with the microphone on and nobody left to release
  it.
\<close>

theorem lab_microphone_after_close:
  "let asked = run_lab new_lab (DoStartLive ''wss://x'' # settle_all 0 4);
       left = run_lab asked (DoClose # settle_all (lb_next asked) 4);
       later = run_lab left (settle_all 0 4)
   in lb_open left = [] \<and> lb_history later = lb_history left @ [LabConnected] \<and> lb_calls later = []
     \<and> (case lb_liveTrack later of None \<Rightarrow> False | Some microphone \<Rightarrow> microphone \<in> set (lb_open later))"
  by code_simp

text \<open>
  The page offers two calls whose sessions are never closed: it offers a new call as soon as a start has failed, while
  that start is still being closed.  The new start does not wait for the close, and the end of the close forgets the new sessions: they stay open,
  and no later hang-up or start closes them.
\<close>

theorem lab_restart_orphans:
  "let ops = DoStartSimulation ProfileWebRtc # settle_all 0 4 @ [DoSettles 0 Bad];
       failed = run_lab new_lab ops;
       again = DoStartSimulation ProfileWebRtc # settle_all 0 4 @ settle_all (lb_next failed) 5;
       forgotten = run_lab failed again;
       next = DoStartSimulation ProfileWebRtc # settle_all (lb_next forgotten) 10;
       ended = DoHangup # settle_all (lb_next (run_lab forgotten next)) 5
   in offered new_lab (ops @ again @ next @ ended) \<and> lb_state failed = LabFailed \<and> lb_state (run_lab forgotten next) = LabConnected
     \<and> lb_state (run_lab (run_lab forgotten next) ended) = LabEnded \<and> lb_calls (run_lab (run_lab forgotten next) ended) = []
     \<and> lb_open (run_lab (run_lab forgotten next) ended) \<noteq> []"
  by code_simp

end
