(* ===== verification/Lab_Timeline.thy ===== *)
theory Lab_Timeline
  imports Envelope
begin

text \<open>
  \<open>ProtocolLab/controller.ts\<close> of the documentation site: the control channel that shows every frame it sends, and the replay
  of generated scenarios (\<open>ProtocolLab/index.tsx\<close>).  A map of the methods of the requests seen so far is shared by
  the channels of both sides, so that a response can be shown with the method of its request.
\<close>

section \<open>Observing a control channel\<close>

record timeline_entry =
  te_from :: string
  te_to :: string
  te_kind :: string
  te_label :: string
  te_detail :: string
  te_raw :: "string option"
  te_reference :: "string option"

record observed =
  ob_methods :: "string \<Rightarrow> string option"
  ob_timeline :: "timeline_entry list"
  ob_wire :: "string list"

definition operation_page :: "string \<Rightarrow> string" where
  "operation_page m = ''/docs/reference/babelforce.v1/operations/'' @ m"

definition event_page :: "string \<Rightarrow> string" where
  "event_page e = ''/docs/reference/babelforce.v1/events/'' @ e"

fun referenceFor :: "'p control_frame \<Rightarrow> (string \<Rightarrow> string option) \<Rightarrow> string option" where
  "referenceFor (Request i m p) methods = Some (operation_page m)"
| "referenceFor (Event i e d) methods = Some (event_page e)"
| "referenceFor (Response c r err) methods = map_option operation_page (methods c)"

fun frame_methods :: "'p control_frame \<Rightarrow> (string \<Rightarrow> string option) \<Rightarrow> string \<Rightarrow> string option" where
  "frame_methods (Request i m p) methods = methods(i \<mapsto> m)"
| "frame_methods _ methods = methods"

fun frame_label :: "'p control_frame \<Rightarrow> (string \<Rightarrow> string option) \<Rightarrow> string" where
  "frame_label (Request i m p) methods = m"
| "frame_label (Event i e d) methods = e"
| "frame_label (Response c r err) methods = (case methods c of None \<Rightarrow> ''response'' | Some m \<Rightarrow> m @ '' response'')"

fun frame_detail :: "'p control_frame \<Rightarrow> string" where
  "frame_detail (Request i m p) = ''request '' @ i"
| "frame_detail (Event i e d) = ''event '' @ i"
| "frame_detail (Response c r err) =
     (case err of None \<Rightarrow> ''correlated with '' @ c | Some e \<Rightarrow> number_text (err_code e) @ '': '' @ err_message e)"

definition frame_entry :: "string \<Rightarrow> string \<Rightarrow> 'p control_frame \<Rightarrow> string \<Rightarrow> (string \<Rightarrow> string option) \<Rightarrow> timeline_entry" where
  "frame_entry from to frame data methods =
     \<lparr>te_from = from, te_to = to, te_kind = kind_text (kind_of frame), te_label = frame_label frame methods, te_detail = frame_detail frame,
      te_raw = Some data, te_reference = referenceFor frame methods\<rparr>"

text \<open>\<open>ObservedControl.send\<close>; \<open>inner\<close> is the outcome of the channel below.\<close>

definition observed_send ::
  "(string \<Rightarrow> json control_frame result) \<Rightarrow> (string \<Rightarrow> unit result) \<Rightarrow> string \<Rightarrow> string \<Rightarrow> string \<Rightarrow> observed \<Rightarrow> unit result \<times> observed" where
  "observed_send decode inner from to data ob =
     (case decode data of
        Inl e \<Rightarrow> (Inl e, ob)
      | Inr frame \<Rightarrow>
          (let methods = frame_methods frame (ob_methods ob) in
           (inner data, ob\<lparr>ob_methods := methods, ob_timeline := ob_timeline ob @ [frame_entry from to frame data methods],
              ob_wire := ob_wire ob @ [data]\<rparr>)))"

definition new_observed :: observed where
  "new_observed = \<lparr>ob_methods = Map.empty, ob_timeline = [], ob_wire = []\<rparr>"

text \<open>Both sides send through channels that share the map and the timeline.\<close>

definition observe_all ::
  "(string \<Rightarrow> json control_frame result) \<Rightarrow> (string \<Rightarrow> unit result) \<Rightarrow> (string \<times> string \<times> string) list \<Rightarrow> observed \<Rightarrow> observed" where
  "observe_all decode inner sends ob = foldl (\<lambda>ob (from, to, data). snd (observed_send decode inner from to data ob)) ob sends"

section \<open>What the timeline shows\<close>

definition asks :: "string \<Rightarrow> 'p control_frame \<Rightarrow> bool" where
  "asks c f = (case f of Request i m p \<Rightarrow> i = c | _ \<Rightarrow> False)"

text \<open>The method of the last request with a given id.\<close>

definition asked_method :: "'p control_frame list \<Rightarrow> string \<Rightarrow> string option" where
  "asked_method fs c = (case find (asks c) (rev fs) of Some (Request i m p) \<Rightarrow> Some m | _ \<Rightarrow> None)"

lemma asked_method_snoc: "asked_method (fs @ [f]) = frame_methods f (asked_method fs)"
  by (cases f) (auto simp: asked_method_def asks_def)

fun same_frame :: "wire_value control_frame \<Rightarrow> json control_frame \<Rightarrow> bool" where
  "same_frame (Request i m p) (Request j n q) = (i = j \<and> m = n)"
| "same_frame (Event i m p) (Event j n q) = (i = j \<and> m = n)"
| "same_frame (Response c r e) (Response d s g) = (c = d \<and> map_option (\<lambda>x. (err_code x, err_message x)) e = map_option (\<lambda>x. (err_code x, err_message x)) g)"
| "same_frame _ _ = False"

lemma same_frame_shown:
  assumes "same_frame f g"
  shows "frame_methods g ms = frame_methods f ms" "frame_entry a b g t ms = frame_entry a b f t ms"
  using assms by (cases f; cases g; auto simp: frame_entry_def split: option.splits)+

lemma decoded_same_frame: "same_frame f (decoded_frame d shape f)"
  by (cases f) (auto simp: decoded_error_def option.map_comp o_def)

text \<open>
  The specification: every frame is shown with its own text, a response under the method of the last
  request before it that has its id.
\<close>

fun shown :: "wire_value control_frame list \<Rightarrow> (string \<times> string \<times> wire_value control_frame) list \<Rightarrow> string list \<Rightarrow> timeline_entry list" where
  "shown earlier ((from, to, f) # fs) (txt # ts) = frame_entry from to f txt (asked_method (earlier @ [f])) # shown (earlier @ [f]) fs ts"
| "shown earlier _ _ = []"

definition sends :: "(string \<times> string \<times> wire_value control_frame) list \<Rightarrow> string list \<Rightarrow> (string \<times> string \<times> string) list" where
  "sends fs ts = map2 (\<lambda>(from, to, f) txt. (from, to, txt)) fs ts"

lemma observe_all_shown:
  assumes "list_all2 (\<lambda>(from, to, f) txt. \<exists>g. decode txt = Inr g \<and> same_frame f g) fs ts" "ob_methods ob = asked_method earlier"
  shows "ob_wire (observe_all decode inner (sends fs ts) ob) = ob_wire ob @ ts
    \<and> ob_timeline (observe_all decode inner (sends fs ts) ob) = ob_timeline ob @ shown earlier fs ts"
  using assms
proof (induction fs ts arbitrary: ob earlier rule: list_all2_induct)
  case Nil
  then show ?case by (simp add: observe_all_def sends_def)
next
  case (Cons x fs t ts)
  obtain src dst f where x: "x = (src, dst, f)" by (cases x) auto
  with Cons.hyps(1) obtain g where g: "decode t = Inr g" "same_frame f g" by auto
  let ?ob = "snd (observed_send decode inner src dst t ob)"
  have step: "ob_methods ?ob = asked_method (earlier @ [f])" "ob_wire ?ob = ob_wire ob @ [t]"
    "ob_timeline ?ob = ob_timeline ob @ [frame_entry src dst f t (asked_method (earlier @ [f]))]"
    using g(1) Cons.prems same_frame_shown [OF g(2)] by (simp_all add: observed_send_def Let_def asked_method_snoc)
  have "observe_all decode inner (sends (x # fs) (t # ts)) ob = observe_all decode inner (sends fs ts) ?ob"
    by (simp add: observe_all_def sends_def x)
  with Cons.IH [OF step(1)] step(2,3) x show ?case by simp
qed

text \<open>
  Observation changes nothing and shows the truth: for frames that the classic envelope encodes, sent by either side in any
  order, the channel below is handed exactly their texts in that order, and the timeline has one entry for each with its
  own text, a response labelled and linked with the method of the last request before it that has its id.
\<close>

theorem lab_timeline_faithful:
  assumes "json_library parse isSafeNumber"
    and "list_all2 (\<lambda>(from, to, f) txt. encode_frame CLASSIC_V1_DESCRIPTOR f = Inr txt \<and> frame_transportable f) fs ts"
    and "ob = observe_all (decode_frame parse isSafeNumber CLASSIC_V1_DESCRIPTOR) inner (sends fs ts) new_observed"
  shows "ob_wire ob = ts \<and> ob_timeline ob = shown [] fs ts"
proof -
  have "list_all2 (\<lambda>(from, to, f) txt. \<exists>g. decode_frame parse isSafeNumber CLASSIC_V1_DESCRIPTOR txt = Inr g \<and> same_frame f g) fs ts"
    using assms(2) by (rule list_all2_mono) (use decode_encoded_frame [OF assms(1) CLASSIC_V1_wf] decoded_same_frame in blast)
  from observe_all_shown [OF this, of new_observed "[]" inner] show ?thesis
    using assms(3) by (simp add: new_observed_def asked_method_def fun_eq_iff)
qed

definition ping_exchange :: "(string \<times> string \<times> wire_value control_frame) list" where
  "ping_exchange =
     [(''Voice'', ''Application'', Request ''1'' ''ping'' None),
      (''Application'', ''Voice'', Response ''1'' None (Some \<lparr>err_code = Fin 400, err_message = ''bad'', err_data = None\<rparr>))]"

lemma ping_exchange_texts:
  "\<exists>a b. encode_frame CLASSIC_V1_DESCRIPTOR (Request ''1'' ''ping'' None) = Inr a
     \<and> encode_frame CLASSIC_V1_DESCRIPTOR (Response ''1'' None (Some \<lparr>err_code = Fin 400, err_message = ''bad'', err_data = None\<rparr>)) = Inr b"
  by (simp add: encode_frame_def frameSpec_def CLASSIC_V1_DESCRIPTOR_def call_entries_def response_entries_def error_entries_def
      constant_entries_def optional_entry_def wireObject_def encode_members_def MAX_SAFE_INTEGER_def)

theorem lab_timeline_faithful_witness:
  "\<exists>a b. let ob = observe_all (decode_frame reference_parse reference_isSafeNumber CLASSIC_V1_DESCRIPTOR) (\<lambda>_. Inr ())
                 (sends ping_exchange [a, b]) new_observed
     in ob_wire ob = [a, b] \<and> map te_label (ob_timeline ob) = [''ping'', ''ping response'']
       \<and> map te_raw (ob_timeline ob) = [Some a, Some b]"
proof -
  obtain a b where t: "encode_frame CLASSIC_V1_DESCRIPTOR (Request ''1'' ''ping'' None) = Inr a"
    "encode_frame CLASSIC_V1_DESCRIPTOR (Response ''1'' None (Some \<lparr>err_code = Fin 400, err_message = ''bad'', err_data = None\<rparr>)) = Inr b"
    using ping_exchange_texts by blast
  have "list_all2 (\<lambda>(from, to, f) txt. encode_frame CLASSIC_V1_DESCRIPTOR f = Inr txt \<and> frame_transportable f) ping_exchange [a, b]"
    using t by (simp add: ping_exchange_def)
  note shown = lab_timeline_faithful [OF reference_json.json_library_axioms this refl, of "\<lambda>_. Inr ()"]
  have "map te_label (shown [] ping_exchange [a, b]) = [''ping'', ''ping response'']"
    "map te_raw (shown [] ping_exchange [a, b]) = [Some a, Some b]"
    by (simp_all add: ping_exchange_def frame_entry_def asked_method_def asks_def)
  with shown show ?thesis by (metis (no_types, lifting))
qed

end
