(* ===== verification/Lab_Roles.thy ===== *)
theory Lab_Roles
  imports Babelforce_Roles Catalog_Types
begin

text \<open>
  \<open>ProtocolLab/controller.ts\<close> of the documentation site: the handlers with which the lab plays the voice and the application
  role, and what they answer.  The time and the number of bytes that clearing the audio removes are arguments.
\<close>

section \<open>Handlers\<close>

abbreviation plain_record :: "(string \<times> wire_value) list \<Rightarrow> wire_value" where
  "plain_record ps \<equiv> WObject (PlainObject True (map (\<lambda>(k, v). (k, Data v)) ps))"

definition AUDIO_CODEC :: wire_value where
  "AUDIO_CODEC = plain_record
     [(''id'', WStr ''L16/8000/1''), (''name'', WStr ''L16''), (''sample_rate'', WNum (Fin 8000)), (''bit_depth'', WNum (Fin 16)),
      (''channels'', WNum (Fin 1))]"

abbreviation undefined_value :: wire_value where
  "undefined_value \<equiv> WPrim (POther ''undefined'')"

text \<open>Reading a property of a request; one that is absent is \<open>undefined\<close>.\<close>

definition read_field :: "wire_value \<Rightarrow> string \<Rightarrow> wire_value" where
  "read_field v name =
     (case record_of v of None \<Rightarrow> undefined_value | Some ps \<Rightarrow> (case own_value ps name of None \<Rightarrow> undefined_value | Some x \<Rightarrow> x))"

definition pingResponse :: "js_number \<Rightarrow> wire_value \<Rightarrow> wire_value" where
  "pingResponse now request = plain_record
     ([(''t0'', read_field request ''t0''), (''t1'', WNum now), (''t2'', WNum now), (''owd'', WNum (Fin 0))]
      @ (if read_field request ''data'' = undefined_value then [] else [(''data'', read_field request ''data'')]))"

definition lab_voiceHandler :: "js_number \<Rightarrow> nat \<Rightarrow> 's voice_handler" where
  "lab_voiceHandler now cleared = \<lparr>
     voice_applicationMove = (\<lambda>request s. (s, Inr (plain_record [(''next_application_id'', read_field request ''application_id'')]))),
     voice_audioBufferClear = (\<lambda>request s. (s, Inr (plain_record [(''len'', WNum (Fin (of_nat cleared)))]))),
     voice_callHangup = (\<lambda>request s. (s, Inr (plain_record []))),
     voice_ping = (\<lambda>request s. (s, Inr (pingResponse now request))),
     voice_recordingStart = (\<lambda>request s. (s, Inr (plain_record [(''id'', WStr ''recording-protocol-lab'')]))),
     voice_recordingStop = (\<lambda>request s. (s, Inr (plain_record []))),
     voice_sessionGet = (\<lambda>request s. (s, Inr (plain_record [(''mode'', WStr ''protocol-lab'')]))),
     voice_sessionSet = (\<lambda>request s. (s, Inr (plain_record [])))\<rparr>"

definition lab_voiceEventHandler :: "'s voice_event_handler" where
  "lab_voiceEventHandler = \<lparr>
     voice_on_agentToolCall = (\<lambda>data s. (s, Inr ())),
     voice_on_audioSpeechStarted = (\<lambda>data s. (s, Inr ())),
     voice_on_inputTranscript = (\<lambda>data s. (s, Inr ())),
     voice_on_outputTranscriptDelta = (\<lambda>data s. (s, Inr ())),
     voice_on_outputTranscriptDone = (\<lambda>data s. (s, Inr ()))\<rparr>"

definition lab_applicationHandler :: "js_number \<Rightarrow> 's application_handler" where
  "lab_applicationHandler now = \<lparr>
     app_ping = (\<lambda>request s. (s, Inr (pingResponse now request))),
     app_sessionInitialize = (\<lambda>request s. (s, Inr (plain_record [(''audio_codec'', AUDIO_CODEC)]))),
     app_sessionTerminate = (\<lambda>request s. (s, Inr (plain_record [])))\<rparr>"

definition lab_applicationEventHandler :: "'s application_event_handler" where
  "lab_applicationEventHandler = \<lparr>
     app_on_audioInfo = (\<lambda>data s. (s, Inr ())),
     app_on_callHangup = (\<lambda>data s. (s, Inr ())),
     app_on_dtmf = (\<lambda>data s. (s, Inr ())),
     app_on_sessionUpdated = (\<lambda>data s. (s, Inr ()))\<rparr>"

abbreviation no_hooks :: "'s unknown_hooks" where
  "no_hooks \<equiv> \<lparr>unknown_request = None, unknown_event = None\<rparr>"

definition lab_voice :: "js_number \<Rightarrow> nat \<Rightarrow> 's handler result" where
  "lab_voice now cleared = new_handler (Some (voiceAdapter (lab_voiceHandler now cleared) lab_voiceEventHandler no_hooks)) None None"

definition lab_application :: "js_number \<Rightarrow> 's handler result" where
  "lab_application now = new_handler (Some (applicationAdapter (lab_applicationHandler now) lab_applicationEventHandler no_hooks)) None None"

section \<open>What they answer\<close>

definition time_stamp :: "js_number \<Rightarrow> bool" where
  "time_stamp now \<longleftrightarrow> isSafeInteger now \<and> num_less (Fin 0) now"

lemma response_accepted:
  assumes "prop_of BABELFORCE_V1_SCHEMAS name = Some schema" "json_ok j" "validate_as name BABELFORCE_V1_SCHEMAS (embed j) = Some []"
  shows "\<exists>w. settled (serialize_as name BABELFORCE_V1_SCHEMAS (embed j)) = Inr w"
  using serialize_valid [OF BABELFORCE_V1_wf assms(2,1,3)] by (auto simp: settled_def)

lemmas schema_reading = acceptsNull_def has_null_variant_def nonNullSchema_def single_variant_def referenceName_def typed_issues_def

lemma integer_schema:
  "validateAt (Suc k) schemas (WNum (Fin 0)) [(''type'', JStr ''integer''), (''format'', f), (''description'', d)] p = Some []"
  by (simp add: schema_reading integer_value_def final_issues_def number_issues_def number_keyword_def MAX_SAFE_INTEGER_def is_int_rat_def)

lemma any_schema: "validateAt (Suc k) schemas v [(''description'', d)] p = Some (validateAny v p)"
  by (simp add: schema_reading)

lemma object_schema:
  "validateAt (Suc k) schemas v ((''type'', JStr ''object'') # (''properties'', ps) # (''required'', r) # [(''description'', d)]) p
    = object_issues (validateAt k schemas) ((''type'', JStr ''object'') # (''properties'', ps) # (''required'', r) # [(''description'', d)]) v p"
  by (simp add: schema_reading)

text \<open>What a valid ping request is.\<close>

definition stamped :: "js_number \<Rightarrow> bool" where
  "stamped x \<longleftrightarrow> isSafeInteger x \<and> x \<noteq> NegZero \<and> \<not> num_eq x (Fin 0)"

lemma stamped_valid:
  assumes "validateAt fuel schemas (embed j) [(''type'', JStr ''integer''), (''format'', f), (''description'', d), (''x-rtvbp-nonzero'', JBool True)] p = Some []"
  obtains x where "j = JNum x" "stamped x"
proof -
  obtain k where "fuel = Suc k" using assms by (cases fuel) simp_all
  then show thesis
    using that assms
    by (cases j) (auto simp: schema_reading
      integer_value_def final_issues_def number_issues_def number_keyword_def stamped_def split: if_splits)
qed

lemma stamped_ok:
  assumes "stamped x"
  shows "validateAt (Suc k) schemas (WNum x) [(''type'', JStr ''integer''), (''format'', f), (''description'', d), (''x-rtvbp-nonzero'', JBool True)] p = Some []"
  using assms
  by (simp add: schema_reading
      integer_value_def final_issues_def number_issues_def number_keyword_def stamped_def)

lemma ping_request_stamped:
  assumes "assertPingRequest (embed j) = Some (Inr ())"
  obtains ps x where "j = JObj ps" "prop_of ps ''t0'' = Some (JNum x)" "stamped x"
proof -
  have "validateAt (value_fuel (embed j)) BABELFORCE_V1_SCHEMAS (embed j) PingRequest_schema ''$'' = Some []"
    using assms by (simp add: assertPingRequest_def assert_as_def assertCatalogValue_def validateCatalogValue_def BABELFORCE_V1_SCHEMAS_def split: if_splits option.splits)
  then obtain fuel where "object_issues (validateAt fuel BABELFORCE_V1_SCHEMAS) PingRequest_schema (embed j) ''$'' = Some []"
    by (cases "value_fuel (embed j)")
      (simp_all add: PingRequest_schema_def schema_reading)
  then obtain ps where ps: "j = JObj ps"
    "\<And>properties name child. prop_of PingRequest_schema ''properties'' = Some (JObj properties) \<Longrightarrow> prop_of properties name = Some (JObj child) \<Longrightarrow>
       (case prop_of ps name of None \<Rightarrow> name \<notin> set (required_names PingRequest_schema) | Some v \<Rightarrow> validateAt fuel BABELFORCE_V1_SCHEMAS (embed v) child (at_key ''$'' name) = Some [])"
    by (rule object_accepted) blast
  let ?child = "[(''type'', JStr ''integer''), (''format'', JStr ''int64''), (''description'', JStr ''Sender timestamp in epoch milliseconds.''), (''x-rtvbp-nonzero'', JBool True)]"
  obtain properties where "prop_of PingRequest_schema ''properties'' = Some (JObj properties)" "prop_of properties ''t0'' = Some (JObj ?child)"
    by (simp add: PingRequest_schema_def)
  note t0 = ps(2) [OF this]
  have "''t0'' \<in> set (required_names PingRequest_schema)" by (simp add: PingRequest_schema_def required_names_def)
  with t0 obtain v where v: "prop_of ps ''t0'' = Some v" "validateAt fuel BABELFORCE_V1_SCHEMAS (embed v) ?child (at_key ''$'' ''t0'') = Some []"
    by (cases "prop_of ps ''t0''") simp_all
  from v(2) obtain x where "v = JNum x" "stamped x" by (rule stamped_valid)
  with ps(1) v(1) that show thesis by blast
qed

text \<open>The answer to a ping, as a JSON value.\<close>

definition ping_answer :: "js_number \<Rightarrow> js_number \<Rightarrow> json option \<Rightarrow> json" where
  "ping_answer x now data = JObj ([(''t0'', JNum x), (''t1'', JNum now), (''t2'', JNum now), (''owd'', JNum (Fin 0))]
     @ (case data of None \<Rightarrow> [] | Some d \<Rightarrow> [(''data'', d)]))"

lemma embed_defined: "embed j \<noteq> undefined_value"
  by (cases j) simp_all

lemma read_field_embed: "read_field (embed (JObj ps)) name = (case prop_of ps name of None \<Rightarrow> undefined_value | Some v \<Rightarrow> embed v)"
  by (simp add: read_field_def own_value_embed split: option.split)

lemma pingResponse_embed:
  assumes "prop_of ps ''t0'' = Some (JNum x)"
  shows "pingResponse now (embed (JObj ps)) = embed (ping_answer x now (prop_of ps ''data''))"
  unfolding pingResponse_def read_field_embed ping_answer_def using assms embed_defined by (auto split: option.splits)

lemma ping_answer_valid:
  assumes "stamped x" "stamped now" "\<And>d. data = Some d \<Longrightarrow> json_ok d"
  shows "validate_as ''PingResponse'' BABELFORCE_V1_SCHEMAS (embed (ping_answer x now data)) = Some []"
proof (rule validate_as_fuel)
  show "flat_registry BABELFORCE_V1_SCHEMAS" using BABELFORCE_V1_wf by (simp add: wf_registry_def)
  have "validateAt 2 BABELFORCE_V1_SCHEMAS (embed (ping_answer x now data)) PingResponse_schema ''$'' = Some []"
    using assms stamped_ok [OF assms(1)] stamped_ok [OF assms(2)]
    by (cases data) (simp_all add: numeral_2_eq_2 ping_answer_def PingResponse_schema_def object_schema object_issues_def collect_Nil property_issues_def
        own_value_def final_issues_def integer_schema any_schema validateAny_embed own_order_id array_index_def required_names_def del: validateAt.simps)
  then show "validateCatalogValue 2 (embed (ping_answer x now data)) ''PingResponse'' BABELFORCE_V1_SCHEMAS = Some []"
    by (simp add: validateCatalogValue_def BABELFORCE_V1_SCHEMAS_def)
qed

lemma ping_answered:
  assumes "assertPingRequest (embed j) = Some (Inr ())" "json_ok j" "time_stamp now"
  shows "\<exists>w. settled (serializePingResponse (pingResponse now (embed j))) = Inr w"
proof -
  obtain ps x where j: "j = JObj ps" "prop_of ps ''t0'' = Some (JNum x)" "stamped x" using assms(1) by (rule ping_request_stamped)
  have now: "stamped now" "json_ok (JNum now)" "json_ok (JNum (Fin 0))"
    using assms(3) by (cases now; auto simp: time_stamp_def stamped_def safe_json_number_def is_int_rat_def MAX_SAFE_INTEGER_def)+
  have data: "json_ok d" if "prop_of ps k = Some d" for k d
    using assms(2) j(1) map_of_SomeD [OF that] by (auto simp: list_all_iff)
  have ok: "json_ok (ping_answer x now (prop_of ps ''data''))"
    using now data data [OF j(2)] by (auto simp: ping_answer_def split: option.splits)
  have "validate_as ''PingResponse'' BABELFORCE_V1_SCHEMAS (embed (ping_answer x now (prop_of ps ''data''))) = Some []"
    by (rule ping_answer_valid [OF j(3) now(1) data])
  moreover have "prop_of BABELFORCE_V1_SCHEMAS ''PingResponse'' = Some PingResponse_schema" by (simp add: BABELFORCE_V1_SCHEMAS_def)
  ultimately have "\<exists>w. settled (serialize_as ''PingResponse'' BABELFORCE_V1_SCHEMAS (embed (ping_answer x now (prop_of ps ''data'')))) = Inr w"
    using ok by (intro response_accepted)
  then show ?thesis by (simp only: serializePingResponse_def j(1) pingResponse_embed [OF j(2)])
qed

lemma cleared_answered:
  assumes "int cleared \<le> MAX_SAFE_INTEGER"
  shows "\<exists>w. settled (serializeAudioBufferClearResponse (plain_record [(''len'', WNum (Fin (of_nat cleared)))])) = Inr w"
proof -
  let ?j = "JObj [(''len'', JNum (Fin (of_nat cleared)))]"
  have n: "isSafeInteger (Fin (of_nat cleared))" "of_int \<lfloor>rat_of_nat cleared\<rfloor> = rat_of_nat cleared" using assms by (simp_all add: is_int_rat_def)
  have "validateAt 2 BABELFORCE_V1_SCHEMAS (embed ?j) AudioBufferClearResponse_schema ''$'' = Some []"
    using n by (simp add: numeral_2_eq_2 AudioBufferClearResponse_schema_def schema_reading object_issues_def property_issues_def own_value_def own_order_id
        array_index_def integer_value_def final_issues_def number_issues_def number_keyword_def)
  then have "validateCatalogValue 2 (embed ?j) ''AudioBufferClearResponse'' BABELFORCE_V1_SCHEMAS = Some []"
    by (simp add: validateCatalogValue_def BABELFORCE_V1_SCHEMAS_def)
  with validate_as_fuel have "validate_as ''AudioBufferClearResponse'' BABELFORCE_V1_SCHEMAS (embed ?j) = Some []"
    using BABELFORCE_V1_wf by (simp add: wf_registry_def)
  moreover have "json_ok ?j" using n by (simp add: safe_json_number_def)
  moreover have "prop_of BABELFORCE_V1_SCHEMAS ''AudioBufferClearResponse'' = Some AudioBufferClearResponse_schema" by (simp add: BABELFORCE_V1_SCHEMAS_def)
  ultimately have "\<exists>w. settled (serialize_as ''AudioBufferClearResponse'' BABELFORCE_V1_SCHEMAS (embed ?j)) = Inr w" by (intro response_accepted)
  then show ?thesis by (simp add: serializeAudioBufferClearResponse_def)
qed

definition is_answer :: "wire_value result option \<Rightarrow> bool" where
  "is_answer r \<longleftrightarrow> (case settled r of Inl _ \<Rightarrow> False | Inr _ \<Rightarrow> True)"

definition refused :: "wire_value result option \<Rightarrow> bool" where
  "refused r \<longleftrightarrow> (case settled r of Inl (ProtocolValidationError _) \<Rightarrow> True | _ \<Rightarrow> False)"

lemma is_answer_iff: "(\<exists>w. settled r = Inr w) \<longleftrightarrow> is_answer r"
  by (auto simp: is_answer_def split: sum.splits)

lemma constants_answered:
  "\<exists>w. settled (serializeEmptyResponse (plain_record [])) = Inr w"
  "\<exists>w. settled (serializeRecordingStartResponse (plain_record [(''id'', WStr ''recording-protocol-lab'')])) = Inr w"
  "\<exists>w. settled (serializeSessionGetResponse (plain_record [(''mode'', WStr ''protocol-lab'')])) = Inr w"
  "\<exists>w. settled (serializeSessionInitializeResponse (plain_record [(''audio_codec'', AUDIO_CODEC)])) = Inr w"
  unfolding is_answer_iff by code_simp+

section \<open>Properties\<close>

definition lab_registrations :: "js_number \<Rightarrow> nat \<Rightarrow> 's request_registration list" where
  "lab_registrations now cleared =
     filter (\<lambda>r. reg_method r \<noteq> METHOD_APPLICATION_MOVE \<and> reg_method r \<noteq> METHOD_SESSION_TERMINATE) (voiceRequestHandlers (lab_voiceHandler now cleared))
     @ applicationRequestHandlers (lab_applicationHandler now)"

definition request_assert :: "string \<Rightarrow> wire_value \<Rightarrow> unit result option" where
  "request_assert m =
     (if m = METHOD_AUDIO_BUFFER_CLEAR then assertAudioBufferClearRequest
      else if m = METHOD_CALL_HANGUP then assertCallHangupRequest
      else if m = METHOD_PING then assertPingRequest
      else if m = METHOD_RECORDING_START then assertRecordingStartRequest
      else if m = METHOD_RECORDING_STOP then assertRecordingStopRequest
      else if m = METHOD_SESSION_GET then assertSessionGetRequest
      else if m = METHOD_SESSION_SET then assertSessionSetRequest
      else if m = METHOD_SESSION_INITIALIZE then assertSessionInitializeRequest
      else assertSessionTerminateRequest)"

lemma lab_answered:
  assumes "time_stamp now" "int cleared \<le> MAX_SAFE_INTEGER" "r \<in> set (lab_registrations now cleared)"
    and "json_ok j" "request_assert (reg_method r) (embed j) = Some (Inr ())"
  shows "\<exists>w. reg_handle r (embed j) s = (s, Inr w)"
  using assms(3,5) ping_answered [OF _ assms(4,1)] cleared_answered [OF assms(2)] constants_answered
  by (auto simp: lab_registrations_def voiceRequestHandlers_def lab_voiceHandler_def applicationRequestHandlers_def lab_applicationHandler_def
      method_names request_assert_def typed_handle_def settled_def)

text \<open>
  The lab answers every valid request: for each operation of its two roles, \<open>application.move\<close> apart and the reverse
  \<open>session.terminate\<close> that the voice role refuses, a request from the wire that the catalog accepts is answered with a
  response that the catalog accepts.
\<close>

theorem lab_answers_valid_requests:
  assumes "time_stamp now" "int cleared \<le> MAX_SAFE_INTEGER" "r \<in> set (lab_registrations now cleared)"
    and "json_ok j" "request_assert (reg_method r) (embed j) = Some (Inr ())"
  shows "\<exists>w. reg_handle r (embed j) s = (s, Inr w)"
  using assms by (rule lab_answered)

definition sample_ping :: json where
  "sample_ping = JObj [(''t0'', JNum (Fin 5)), (''data'', JStr ''x'')]"

theorem lab_answers_valid_requests_witness:
  "\<exists>w. reg_handle (hd (applicationRequestHandlers (lab_applicationHandler (Fin 7)))) (embed sample_ping) () = ((), Inr w)"
proof (rule lab_answers_valid_requests)
  let ?r = "hd (applicationRequestHandlers (lab_applicationHandler (Fin 7))) :: unit request_registration"
  show "time_stamp (Fin 7)" "int 0 \<le> MAX_SAFE_INTEGER" "json_ok sample_ping" by code_simp+
  show "?r \<in> set (lab_registrations (Fin 7) 0)" by (simp add: lab_registrations_def applicationRequestHandlers_def)
  have "assertPingRequest (embed sample_ping) = Some (Inr ())" by code_simp
  then show "request_assert (reg_method ?r) (embed sample_ping) = Some (Inr ())"
    by (simp add: applicationRequestHandlers_def request_assert_def method_names)
qed

text \<open>
  The lab refuses a valid \<open>application.move\<close>: without a target the catalog accepts the request, the handler returns its
  property \<open>next_application_id\<close> as \<open>undefined\<close>, which the catalog does not accept, and the peer is told with code 400 that its request is
  invalid.
\<close>

theorem lab_refuses_plain_move:
  "assertApplicationMoveRequest (embed (JObj [])) = Some (Inr ())
   \<and> (case lab_voice (Fin 7) 0 of
        Inl _ \<Rightarrow> False
      | Inr h \<Rightarrow> (case dispatchRequest h \<lparr>req_method = METHOD_APPLICATION_MOVE, req_payload = embed (JObj [])\<rparr> () of
          (_, Inl (ProtocolHandlerError e)) \<Rightarrow> err_code e = Fin 400 | _ \<Rightarrow> False))"
proof -
  have req: "assertApplicationMoveRequest (embed (JObj [])) = Some (Inr ())" by code_simp
  have "refused (serializeApplicationMoveResponse (plain_record [(''next_application_id'', undefined_value)]))" by code_simp
  then obtain "is" where resp: "settled (serializeApplicationMoveResponse (plain_record [(''next_application_id'', undefined_value)])) = Inl (ProtocolValidationError is)"
    by (auto simp: refused_def split: sum.splits thrown.splits)
  obtain h :: "unit handler" where h: "lab_voice (Fin 7) 0 = Inr h" "h_requests h METHOD_APPLICATION_MOVE = Some (hd (voiceRequestHandlers (lab_voiceHandler (Fin 7) 0)))" "h_middleware h = []"
    by (simp add: lab_voice_def new_handler_iff voiceAdapter_def voiceRequestHandlers_def voiceEventHandlers_def method_names event_names)
  have "reg_handle (hd (voiceRequestHandlers (lab_voiceHandler (Fin 7) 0))) (embed (JObj [])) () = ((), Inl (ProtocolValidationError is))"
    using req resp by (simp add: voiceRequestHandlers_def lab_voiceHandler_def typed_handle_def settled_def read_field_def own_value_def)
  with h req show ?thesis by (simp add: dispatchRequest_def chain_def invoke_def)
qed

end
