(* ===== verification/Lab_Scenarios.thy ===== *)
theory Lab_Scenarios
  imports Lab_Timeline Lab_Roles
begin

text \<open>
  \<open>ProtocolLab/index.tsx\<close> and \<open>encodeScenarioStep\<close> of \<open>ProtocolLab/controller.ts\<close>: the replay of the generated conformance scenarios and
  the timeline of the page.  A step of a scenario has the fields of \<open>ScenarioStep\<close> and those that \<open>encodeScenarioStep\<close> reads; its
  error is a \<open>WireErrorValue\<close>.  \<open>scenarioDocuments\<close> are the four files of \<open>conformance/babelforce.v1/scenarios\<close>.
\<close>

section \<open>Scenarios\<close>

record scenario_step =
  ss_kind :: string
  ss_from :: string
  ss_id :: "string option"
  ss_method :: "string option"
  ss_event :: "string option"
  ss_response :: "string option"
  ss_params :: "json option"
  ss_data :: "json option"
  ss_result :: "json option"
  ss_error :: "wire_error option"

record scenario_case =
  sc_key :: string
  sc_title :: string
  sc_description :: string
  sc_steps :: "scenario_step list"

record scenario_document =
  sd_name :: string
  sd_cases :: "(string \<times> string \<times> scenario_step list) list"

definition scenarios_of :: "scenario_document list \<Rightarrow> scenario_case list" where
  "scenarios_of documents =
     concat (map (\<lambda>d. map (\<lambda>(name, description, steps).
       \<lparr>sc_key = sd_name d @ ''/'' @ name, sc_title = sd_name d @ '' '' @ [CHR 0xB7] @ '' '' @ name, sc_description = description, sc_steps = steps\<rparr>)
       (sd_cases d)) documents)"

section \<open>Frames\<close>

text \<open>\<open>String\<close> of an optional string.\<close>

definition string_of :: "string option \<Rightarrow> string" where
  "string_of x = (case x of None \<Rightarrow> ''undefined'' | Some s \<Rightarrow> s)"

definition scenario_frame :: "scenario_step \<Rightarrow> json control_frame" where
  "scenario_frame step =
     (if ss_kind step = ''request'' then Request (string_of (ss_id step)) (string_of (ss_method step)) (ss_params step)
      else if ss_kind step = ''event'' then Event (string_of (ss_id step)) (string_of (ss_event step)) (ss_data step)
      else Response (string_of (ss_response step)) (ss_result step) (ss_error step))"

definition encodeScenarioStep :: "scenario_step \<Rightarrow> string result" where
  "encodeScenarioStep step = encode_frame CLASSIC_V1_DESCRIPTOR (map_control_frame embed (scenario_frame step))"

section \<open>The page\<close>

text \<open>
  The first character in upper case, for the characters whose upper case is within the strings of the model.
\<close>

definition upper :: "char \<Rightarrow> string" where
  "upper c =
     (let n = of_char c :: nat in
      if (97 \<le> n \<and> n \<le> 122) \<or> (224 \<le> n \<and> n \<le> 254 \<and> n \<noteq> 247) then [char_of (n - 32)]
      else if n = 223 then ''SS'' else [c])"

fun titleCase :: "string \<Rightarrow> string" where
  "titleCase [] = []"
| "titleCase (c # s) = upper c @ s"

definition scenarioLabel :: "scenario_step \<Rightarrow> string" where
  "scenarioLabel step =
     (if ss_kind step = ''request'' then (case ss_method step of None \<Rightarrow> ''request'' | Some m \<Rightarrow> m)
      else if ss_kind step = ''event'' then (case ss_event step of None \<Rightarrow> ''event'' | Some e \<Rightarrow> e)
      else ''correlated response'')"

definition scenarioReference :: "scenario_step \<Rightarrow> string option" where
  "scenarioReference step =
     (if ss_kind step = ''request'' \<and> ss_method step \<noteq> None then Some (operation_page (the (ss_method step)))
      else if ss_kind step = ''event'' \<and> ss_event step \<noteq> None then Some (event_page (the (ss_event step)))
      else None)"

text \<open>
  \<open>setTimeline\<close> is given a function of the list, which React runs when it next renders the page; it may run the first one of a
  batch at once.  The function reads the counter \<open>entryId\<close> when it runs.
\<close>

datatype page_update = Appends js_number timeline_entry | Appended nat js_number timeline_entry | Emptied

record lab_page =
  pg_entryId :: nat
  pg_startedAt :: rat
  pg_timeline :: "(nat \<times> js_number \<times> timeline_entry) list"
  pg_updates :: "page_update list"
  pg_selected :: string
  pg_scenarioStep :: nat

definition elapsed :: "rat \<Rightarrow> lab_page \<Rightarrow> js_number" where
  "elapsed now p = (if pg_startedAt p = 0 then Fin 0 else to_double (max 0 (now - pg_startedAt p)))"

definition pushTimeline :: "bool \<Rightarrow> rat \<Rightarrow> timeline_entry \<Rightarrow> lab_page \<Rightarrow> lab_page" where
  "pushTimeline eager now entry p =
     (let n = pg_entryId p + 1;
          update = (if eager \<and> pg_updates p = [] then Appended n (elapsed now p) entry else Appends (elapsed now p) entry)
      in p\<lparr>pg_entryId := n, pg_updates := pg_updates p @ [update]\<rparr>)"

fun apply_update :: "nat \<Rightarrow> (nat \<times> js_number \<times> timeline_entry) list \<Rightarrow> page_update \<Rightarrow> (nat \<times> js_number \<times> timeline_entry) list" where
  "apply_update n entries (Appends time entry) = entries @ [(n, time, entry)]"
| "apply_update n entries (Appended i time entry) = entries @ [(i, time, entry)]"
| "apply_update n entries Emptied = []"

definition render :: "lab_page \<Rightarrow> lab_page" where
  "render p = p\<lparr>pg_timeline := foldl (apply_update (pg_entryId p)) (pg_timeline p) (pg_updates p), pg_updates := []\<rparr>"

text \<open>The beginning of \<open>start\<close>.\<close>

definition start_page :: "rat \<Rightarrow> lab_page \<Rightarrow> lab_page" where
  "start_page now p = p\<lparr>pg_updates := pg_updates p @ [Emptied], pg_entryId := 0, pg_startedAt := now\<rparr>"

definition selectScenario :: "string \<Rightarrow> lab_page \<Rightarrow> lab_page" where
  "selectScenario key p = p\<lparr>pg_selected := key, pg_scenarioStep := 0\<rparr>"

definition activeScenario :: "scenario_case list \<Rightarrow> lab_page \<Rightarrow> scenario_case" where
  "activeScenario scenarios p = (case find (\<lambda>c. sc_key c = pg_selected p) scenarios of None \<Rightarrow> hd scenarios | Some c \<Rightarrow> c)"

definition correlatedRequest :: "scenario_step list \<Rightarrow> scenario_step \<Rightarrow> scenario_step option" where
  "correlatedRequest steps step =
     (if ss_kind step = ''response'' then find (\<lambda>c. ss_id c = ss_response step \<and> ss_kind c = ''request'') steps else None)"

definition scenario_entry :: "scenario_step list \<Rightarrow> nat \<Rightarrow> scenario_step \<Rightarrow> string \<Rightarrow> timeline_entry" where
  "scenario_entry steps next step raw =
     \<lparr>te_from = titleCase (ss_from step), te_to = (if ss_from step = ''voice'' then ''Application'' else ''Voice''), te_kind = ''scenario'',
      te_label = scenarioLabel step, te_detail = ''generated scenario step '' @ nat_text 10 next @ ''/'' @ nat_text 10 (length steps),
      te_raw = Some raw,
      te_reference = (case scenarioReference step of Some r \<Rightarrow> Some r | None \<Rightarrow> Option.bind (correlatedRequest steps step) scenarioReference)\<rparr>"

text \<open>A scenario without steps makes \<open>steps[0]\<close> \<open>undefined\<close>, and reading its \<open>kind\<close> throws.\<close>

definition replayNext :: "bool \<Rightarrow> rat \<Rightarrow> scenario_case \<Rightarrow> lab_page \<Rightarrow> unit result \<times> lab_page" where
  "replayNext eager now scenario p =
     (let steps = sc_steps scenario; index = (if length steps \<le> pg_scenarioStep p then 0 else pg_scenarioStep p) in
      if steps = [] then (Inl (JsError ''Cannot read properties of undefined (reading kind)''), p)
      else (let step = steps ! index; next = index + 1 in
            case encodeScenarioStep step of
              Inl e \<Rightarrow> (Inl e, p)
            | Inr raw \<Rightarrow>
                (Inr (), (pushTimeline eager now (scenario_entry steps next step raw) p)\<lparr>pg_scenarioStep := (if length steps \<le> next then 0 else next)\<rparr>)))"

definition new_page :: lab_page where
  "new_page = \<lparr>pg_entryId = 0, pg_startedAt = 0, pg_timeline = [], pg_updates = [], pg_selected = [], pg_scenarioStep = 0\<rparr>"

text \<open>The button pressed some times, each press after the page shows the one before.\<close>

definition press :: "bool \<Rightarrow> scenario_case \<Rightarrow> lab_page \<Rightarrow> rat \<Rightarrow> lab_page" where
  "press eager scenario p now = render (snd (replayNext eager now scenario p))"

section \<open>The generated scenarios\<close>

definition request_step :: "string \<Rightarrow> string \<Rightarrow> string \<Rightarrow> json \<Rightarrow> scenario_step" where
  "request_step from i m params = \<lparr>ss_kind = ''request'', ss_from = from, ss_id = Some i, ss_method = Some m, ss_event = None, ss_response = None,
     ss_params = Some params, ss_data = None, ss_result = None, ss_error = None\<rparr>"

definition event_step :: "string \<Rightarrow> string \<Rightarrow> string \<Rightarrow> json \<Rightarrow> scenario_step" where
  "event_step from i e data = \<lparr>ss_kind = ''event'', ss_from = from, ss_id = Some i, ss_method = None, ss_event = Some e, ss_response = None,
     ss_params = None, ss_data = Some data, ss_result = None, ss_error = None\<rparr>"

definition response_step :: "string \<Rightarrow> string \<Rightarrow> json option \<Rightarrow> wire_error option \<Rightarrow> scenario_step" where
  "response_step from i r e = \<lparr>ss_kind = ''response'', ss_from = from, ss_id = None, ss_method = None, ss_event = None, ss_response = Some i,
     ss_params = None, ss_data = None, ss_result = r, ss_error = e\<rparr>"

definition initialize_updated_dtmf_scenario :: scenario_document where
  "initialize_updated_dtmf_scenario = \<lparr>sd_name = ''initialize-updated-dtmf'', sd_cases = [
    (''canonical'', ''The voice peer offers audio, the application selects it, then receives session state and DTMF.'', [
        request_step ''voice'' ''$init'' ''session.initialize'' (JObj [(''application'', JObj [(''id'', JStr ''app-1'')]), (''call'', JObj [(''id'', JStr ''call-1''), (''session_id'', JStr ''session-1''), (''from'', JStr ''+12025550100''), (''to'', JStr ''+12025550101'')]), (''audio_codec_offerings'', JArr [JObj [(''id'', JStr ''L16/8000/1''), (''name'', JStr ''L16''), (''sample_rate'', JNum (Fin 8000)), (''bit_depth'', JNum (Fin 16)), (''channels'', JNum (Fin 1))]]), (''metadata'', JNull)]),
        response_step ''application'' ''$init'' (Some (JObj [(''audio_codec'', JNull)])) None,
        event_step ''voice'' ''$updated'' ''session.updated'' (JObj [(''audio_codec'', JObj [(''id'', JStr ''L16/8000/1''), (''name'', JStr ''L16''), (''sample_rate'', JNum (Fin 8000)), (''bit_depth'', JNum (Fin 16)), (''channels'', JNum (Fin 1))])]),
        event_step ''voice'' ''$dtmf'' ''dtmf'' (JObj [(''seq'', JNum (Fin 7)), (''pressed_at'', JNum (Fin 1700000000000)), (''released_at'', JNum (Fin 1700000000120)), (''digit'', JStr ''5'')])])]\<rparr>"

definition barge_in_scenario :: scenario_document where
  "barge_in_scenario = \<lparr>sd_name = ''barge-in'', sd_cases = [
    (''speech-started-clear-buffer'', ''The application signals speech detection and clears audio queued by the voice peer.'', [
        event_step ''application'' ''$speech'' ''audio.speech.started'' (JObj [(''origin'', JStr ''sender'')]),
        request_step ''application'' ''$clear'' ''audio.buffer.clear'' (JObj []),
        response_step ''voice'' ''$clear'' (Some (JObj [(''len'', JNum (Fin 320))])) None])]\<rparr>"

definition ping_scenario :: scenario_document where
  "ping_scenario = \<lparr>sd_name = ''ping'', sd_cases = [
    (''both-directions'', ''Each peer calls the bidirectional ping operation once.'', [
        request_step ''voice'' ''$voice_ping'' ''ping'' (JObj [(''t0'', JNum (Fin 1700000000000)), (''rtt'', JNum (Fin 42)), (''data'', JObj [(''probe'', JStr ''canonical'')])]),
        response_step ''application'' ''$voice_ping'' (Some (JObj [(''t0'', JNum (Fin 1700000000000)), (''t1'', JNum (Fin 1700000000010)), (''t2'', JNum (Fin 1700000000012)), (''owd'', JNum (Fin 5)), (''data'', JObj [(''probe'', JStr ''canonical'')])])) None,
        request_step ''application'' ''$application_ping'' ''ping'' (JObj [(''t0'', JNum (Fin 1700000000000)), (''rtt'', JNum (Fin 42)), (''data'', JObj [(''probe'', JStr ''canonical'')])]),
        response_step ''voice'' ''$application_ping'' (Some (JObj [(''t0'', JNum (Fin 1700000000000)), (''t1'', JNum (Fin 1700000000010)), (''t2'', JNum (Fin 1700000000012)), (''owd'', JNum (Fin 5)), (''data'', JObj [(''probe'', JStr ''canonical'')])])) None])]\<rparr>"

definition termination_scenario :: scenario_document where
  "termination_scenario = \<lparr>sd_name = ''termination'', sd_cases = [
    (''application-call-hangup'', ''The application asks the voice peer to hang up the telephony call.'', [
        request_step ''application'' ''$hangup'' ''call.hangup'' (JObj [(''reason'', JStr ''caller'')]),
        response_step ''voice'' ''$hangup'' (Some (JObj [])) None]),
    (''voice-session-terminate'', ''The voice peer asks the application to terminate the RTVBP session.'', [
        request_step ''voice'' ''$terminate'' ''session.terminate'' (JObj [(''reason'', JStr ''completed'')]),
        response_step ''application'' ''$terminate'' (Some (JObj [])) None]),
    (''reverse-session-terminate-rejection'', ''The voice role rejects the frozen unsupported reverse session.terminate direction.'', [
        request_step ''application'' ''$reverse'' ''session.terminate'' (JObj [(''reason'', JStr ''completed'')]),
        response_step ''voice'' ''$reverse'' None (Some \<lparr>err_code = Fin 501, err_message = ''session.terminate is not supported. please use application.move or call.hangup instead'', err_data = None\<rparr>)])]\<rparr>"

definition scenarioDocuments :: "scenario_document list" where
  "scenarioDocuments = [initialize_updated_dtmf_scenario, barge_in_scenario, ping_scenario, termination_scenario]"

section \<open>The scenarios against the catalog and the lab's roles\<close>

definition event_assert :: "string \<Rightarrow> wire_value \<Rightarrow> unit result option" where
  "event_assert e =
     (if e = EVENT_AUDIO_SPEECH_STARTED then assertAudioSpeechStartedEvent
      else if e = EVENT_SESSION_UPDATED then assertSessionUpdatedEvent
      else if e = EVENT_DTMF then assertDtmfEvent
      else (\<lambda>_. None))"

definition response_assert :: "string \<Rightarrow> wire_value \<Rightarrow> unit result option" where
  "response_assert m =
     (if m = METHOD_AUDIO_BUFFER_CLEAR then assertAudioBufferClearResponse
      else if m = METHOD_PING then assertPingResponse
      else if m = METHOD_SESSION_INITIALIZE then assertSessionInitializeResponse
      else assertEmptyResponse)"

text \<open>The registration of the lab's role that is addressed.\<close>

definition lab_registration :: "js_number \<Rightarrow> nat \<Rightarrow> scenario_step \<Rightarrow> 's request_registration option" where
  "lab_registration now cleared request =
     find (\<lambda>r. reg_method r = string_of (ss_method request))
       (if ss_from request = ''voice'' then applicationRequestHandlers (lab_applicationHandler now) else voiceRequestHandlers (lab_voiceHandler now cleared))"

definition lab_serves :: "scenario_step \<Rightarrow> bool" where
  "lab_serves request =
     (let m = string_of (ss_method request) in
      if ss_from request = ''voice'' then m \<in> set APPLICATION_HANDLER_METHODS
      else m \<in> set VOICE_HANDLER_METHODS \<and> m \<noteq> METHOD_APPLICATION_MOVE \<and> m \<noteq> METHOD_SESSION_TERMINATE)"

definition lab_refuses :: "scenario_step \<Rightarrow> wire_error \<Rightarrow> bool" where
  "lab_refuses request e \<longleftrightarrow> ss_from request \<noteq> ''voice'' \<and> ss_method request = Some METHOD_SESSION_TERMINATE
     \<and> e = wire_failure 501 ''session.terminate is not supported. please use application.move or call.hangup instead''"

definition payload_ok :: "(wire_value \<Rightarrow> unit result option) \<Rightarrow> json option \<Rightarrow> bool" where
  "payload_ok check p \<longleftrightarrow> p \<noteq> Some JNull \<and> json_ok (or_empty p) \<and> check (embed (or_empty p)) = Some (Inr ())"

definition response_valid :: "scenario_step \<Rightarrow> scenario_step \<Rightarrow> bool" where
  "response_valid request step \<longleftrightarrow> ss_from request \<noteq> ss_from step
     \<and> payload_ok (request_assert (string_of (ss_method request))) (ss_params request)
     \<and> (case ss_error step of
           None \<Rightarrow> payload_ok (response_assert (string_of (ss_method request))) (ss_result step) \<and> lab_serves request
         | Some e \<Rightarrow> ss_result step = None \<and> lab_refuses request e)"

definition step_valid :: "scenario_step list \<Rightarrow> scenario_step \<Rightarrow> bool" where
  "step_valid earlier step =
     (if ss_kind step = ''request'' then payload_ok (request_assert (string_of (ss_method step))) (ss_params step)
      else if ss_kind step = ''event'' then payload_ok (event_assert (string_of (ss_event step))) (ss_data step)
      else (case correlatedRequest earlier step of None \<Rightarrow> False | Some request \<Rightarrow> response_valid request step))"

fun steps_valid :: "scenario_step list \<Rightarrow> scenario_step list \<Rightarrow> bool" where
  "steps_valid earlier [] = True"
| "steps_valid earlier (s # ss) = (step_valid earlier s \<and> steps_valid (earlier @ [s]) ss)"

lemma scenarios_of_Cons: "scenarios_of (d # ds) = scenarios_of [d] @ scenarios_of ds"
  by (simp add: scenarios_of_def)

lemma initialize_updated_dtmf_valid: "list_all (\<lambda>c. steps_valid [] (sc_steps c)) (scenarios_of [initialize_updated_dtmf_scenario])"
  by code_simp

lemma barge_in_valid: "list_all (\<lambda>c. steps_valid [] (sc_steps c)) (scenarios_of [barge_in_scenario])"
  by code_simp

lemma ping_valid: "list_all (\<lambda>c. steps_valid [] (sc_steps c)) (scenarios_of [ping_scenario])"
  by code_simp

lemma termination_valid: "list_all (\<lambda>c. steps_valid [] (sc_steps c)) (scenarios_of [termination_scenario])"
  by code_simp

lemma scenarios_valid: "list_all (\<lambda>c. steps_valid [] (sc_steps c)) (scenarios_of scenarioDocuments)"
  unfolding scenarioDocuments_def scenarios_of_Cons [of _ "_ # _"] list_all_append
  by (intro conjI initialize_updated_dtmf_valid barge_in_valid ping_valid termination_valid)

text \<open>Frames that the classic envelope carries: identifiers and messages that are not empty, and values with safe integers only.\<close>

definition carried :: "json \<Rightarrow> bool" where
  "carried j \<longleftrightarrow> json_ok j \<and> list_all (\<lambda>x. isSafeInteger x \<and> x \<noteq> NegZero) (json_numbers (json_of (embed j))) \<and> no_proto (json_of (embed j))"

definition payload_carried :: "json option \<Rightarrow> bool" where
  "payload_carried p = (case p of None \<Rightarrow> True | Some j \<Rightarrow> carried j)"

definition error_carried :: "wire_error \<Rightarrow> bool" where
  "error_carried e \<longleftrightarrow> isSafeInteger (err_code e) \<and> err_code e \<noteq> NegZero \<and> \<not> num_eq (err_code e) (Fin 0) \<and> err_message e \<noteq> [] \<and> err_data e = None"

fun frame_carried :: "json control_frame \<Rightarrow> bool" where
  "frame_carried (Request i m p) \<longleftrightarrow> i \<noteq> [] \<and> m \<noteq> [] \<and> payload_carried p"
| "frame_carried (Event i m p) \<longleftrightarrow> i \<noteq> [] \<and> m \<noteq> [] \<and> payload_carried p"
| "frame_carried (Response c r e) \<longleftrightarrow> c \<noteq> [] \<and> payload_carried r \<and> (case e of None \<Rightarrow> True | Some err \<Rightarrow> error_carried err)"

lemma carried_transportable: "carried j \<Longrightarrow> transportable (embed j)"
  by (auto simp: carried_def transportable_def list_all_iff intro: safe_integer_double)

lemma encodable_string: "encodable (WStr s)"
  by (simp add: encodable_def)

lemma encodable_error:
  assumes "error_carried e"
  shows "\<exists>es. error_entries CLASSIC_V1_DESCRIPTOR e = Inr es \<and> encodable (WObject (wireObject es))"
proof -
  have "encodable (WNum (err_code e))" using assms by (cases "err_code e") (auto simp: encodable_def error_carried_def)
  then have "encodable (WObject (OrderedObject [(''code'', WNum (err_code e)), (''message'', WStr (err_message e))]))"
    by (intro encodable_ordered) (auto simp: encodable_string)
  with assms show ?thesis by (simp add: error_carried_def error_entries_def CLASSIC_V1_DESCRIPTOR_def optional_entry_def wireObject_def)
qed

lemma classic_encodes:
  assumes "frame_carried f"
  shows "\<exists>s. encode_frame CLASSIC_V1_DESCRIPTOR (map_control_frame embed f) = Inr s"
proof -
  let ?f = "map_control_frame embed f"
  have payload: "encodable (embed j)" if "carried j" for j using that encodable_embed by (simp add: carried_def)
  obtain shape where shape: "frameSpec CLASSIC_V1_DESCRIPTOR (kind_of ?f) = Inr shape" by (cases f) (simp_all add: frameSpec_def CLASSIC_V1_DESCRIPTOR_def)
  have "\<exists>es. frame_entries CLASSIC_V1_DESCRIPTOR shape ?f = Inr es \<and> distinct (map fst es) \<and> (\<forall>(k, v) \<in> set es. encodable v)"
  proof (cases f)
    case (Response c r e)
    show ?thesis
    proof (cases e)
      case None
      with Response assms shape payload encodable_string show ?thesis
        by (cases r) (auto simp: frameSpec_def CLASSIC_V1_DESCRIPTOR_def response_entries_def constant_entries_def optional_entry_def payload_carried_def)
    next
      case (Some err)
      then obtain es where "error_entries CLASSIC_V1_DESCRIPTOR err = Inr es" "encodable (WObject (wireObject es))"
        using encodable_error [of err] Response assms by auto
      with Some Response assms shape payload encodable_string show ?thesis
        by (cases r) (auto simp: frameSpec_def CLASSIC_V1_DESCRIPTOR_def response_entries_def constant_entries_def optional_entry_def payload_carried_def)
    qed
  qed (use assms shape payload encodable_string in
      \<open>auto simp: frameSpec_def CLASSIC_V1_DESCRIPTOR_def call_entries_def constant_entries_def optional_entry_def payload_carried_def split: option.splits\<close>)
  then obtain es where es: "frame_entries CLASSIC_V1_DESCRIPTOR shape ?f = Inr es" "encodable (WObject (OrderedObject es))"
    using encodable_ordered by blast
  then obtain s where "encode_tree (WObject (OrderedObject es)) = Inr s" by (auto simp only: encodable_def)
  with es(1) shape show ?thesis by (simp add: encode_frame_def wireObject_def)
qed

lemma initialize_updated_dtmf_carried: "list_all (\<lambda>c. list_all (\<lambda>s. frame_carried (scenario_frame s)) (sc_steps c)) (scenarios_of [initialize_updated_dtmf_scenario])"
  by code_simp

lemma barge_in_carried: "list_all (\<lambda>c. list_all (\<lambda>s. frame_carried (scenario_frame s)) (sc_steps c)) (scenarios_of [barge_in_scenario])"
  by code_simp

lemma ping_carried: "list_all (\<lambda>c. list_all (\<lambda>s. frame_carried (scenario_frame s)) (sc_steps c)) (scenarios_of [ping_scenario])"
  by code_simp

lemma termination_carried: "list_all (\<lambda>c. list_all (\<lambda>s. frame_carried (scenario_frame s)) (sc_steps c)) (scenarios_of [termination_scenario])"
  by code_simp

lemma scenarios_carried: "list_all (\<lambda>c. list_all (\<lambda>s. frame_carried (scenario_frame s)) (sc_steps c)) (scenarios_of scenarioDocuments)"
  unfolding scenarioDocuments_def scenarios_of_Cons [of _ "_ # _"] list_all_append
  by (intro conjI initialize_updated_dtmf_carried barge_in_carried ping_carried termination_carried)

lemma frame_carried_transportable: "frame_carried f \<Longrightarrow> frame_transportable (map_control_frame embed f)"
  by (cases f) (auto simp: payload_carried_def error_carried_def carried_transportable split: option.splits)

lemma scenario_decodes:
  assumes "json_library parse isSafeNumber" "frame_carried (scenario_frame step)"
  shows "\<exists>raw f. encodeScenarioStep step = Inr raw \<and> decode_frame parse isSafeNumber CLASSIC_V1_DESCRIPTOR raw = Inr f
    \<and> same_frame (map_control_frame embed (scenario_frame step)) f"
proof -
  let ?f = "map_control_frame embed (scenario_frame step)"
  obtain raw where raw: "encode_frame CLASSIC_V1_DESCRIPTOR ?f = Inr raw" using classic_encodes [OF assms(2)] by blast
  from decode_encoded_frame [OF assms(1) CLASSIC_V1_wf frame_carried_transportable [OF assms(2)] raw] decoded_same_frame [of ?f] raw
  show ?thesis by (auto simp: encodeScenarioStep_def)
qed

lemma registration_found:
  assumes "lab_serves request"
  shows "\<exists>r :: 's request_registration. lab_registration now cleared request = Some r \<and> r \<in> set (lab_registrations now cleared) \<and> reg_method r = string_of (ss_method request)"
proof -
  let ?m = "string_of (ss_method request)"
  let ?rs = "if ss_from request = ''voice'' then applicationRequestHandlers (lab_applicationHandler now) else voiceRequestHandlers (lab_voiceHandler now cleared) :: 's request_registration list"
  have "?m \<in> reg_method ` set ?rs"
    using assms by (auto simp: lab_serves_def Let_def APPLICATION_HANDLER_METHODS_def VOICE_HANDLER_METHODS_def
      applicationRequestHandlers_def voiceRequestHandlers_def)
  then have "find (\<lambda>r. reg_method r = ?m) ?rs \<noteq> None" unfolding find_None_iff by force
  then obtain r where r: "find (\<lambda>r. reg_method r = ?m) ?rs = Some r" by blast
  then have "r \<in> set ?rs" "reg_method r = ?m" by (auto simp: find_Some_iff)
  with r assms show ?thesis by (auto simp: lab_registration_def lab_registrations_def lab_serves_def Let_def split: if_splits)
qed

lemma refusal_found:
  assumes "lab_refuses request e"
  shows "\<exists>r. lab_registration now cleared request = Some r \<and> reg_handle r v s = (s, Inl (ProtocolHandlerError e))"
  using assms by (auto simp: lab_refuses_def lab_registration_def string_of_def voiceRequestHandlers_def method_names)

lemma steps_valid_append: "steps_valid earlier (xs @ y # ys) \<Longrightarrow> step_valid (earlier @ xs) y"
  by (induction xs arbitrary: earlier) fastforce+

section \<open>Properties\<close>

text \<open>
  The generated scenarios are what the SDK speaks: in each of them every request, event and result passes the validation of
  its type in the catalog, every response answers a request of the other side before it, and every step encodes to a text that the
  classic envelope decodes to the same frame.
\<close>

theorem generated_scenarios_conform:
  assumes "json_library parse isSafeNumber" "c \<in> set (scenarios_of scenarioDocuments)"
  shows "steps_valid [] (sc_steps c)
    \<and> list_all (\<lambda>step. \<exists>raw f. encodeScenarioStep step = Inr raw \<and> decode_frame parse isSafeNumber CLASSIC_V1_DESCRIPTOR raw = Inr f
         \<and> same_frame (map_control_frame embed (scenario_frame step)) f) (sc_steps c)"
  using scenarios_valid scenarios_carried assms(2) scenario_decodes [OF assms(1)] by (auto simp: list_all_iff)

theorem generated_scenarios_conform_witness:
  "\<exists>raw f. encodeScenarioStep (hd (sc_steps (hd (scenarios_of scenarioDocuments)))) = Inr raw
     \<and> decode_frame reference_parse reference_isSafeNumber CLASSIC_V1_DESCRIPTOR raw = Inr f"
proof -
  let ?c = "hd (scenarios_of scenarioDocuments)"
  have "?c \<in> set (scenarios_of scenarioDocuments)" "sc_steps ?c \<noteq> []"
    by (simp_all add: scenarios_of_def scenarioDocuments_def initialize_updated_dtmf_scenario_def)
  with generated_scenarios_conform [OF reference_json.json_library_axioms this(1)] show ?thesis by (cases "sc_steps ?c") auto
qed

text \<open>
  Claim C39.  The lab plays the generated scenarios: the role that a request of a scenario addresses answers it as the scenario says,
  with a result where the scenario shows a result and otherwise with exactly the error that it shows.
\<close>

theorem lab_plays_scenarios:
  fixes s :: 's
  assumes "time_stamp now" "int cleared \<le> MAX_SAFE_INTEGER" "c \<in> set (scenarios_of scenarioDocuments)"
    and "sc_steps c = earlier @ step # later" "ss_kind step = ''response''"
  shows "\<exists>request r. correlatedRequest earlier step = Some request \<and> lab_registration now cleared request = Some r
    \<and> (case ss_error step of
          None \<Rightarrow> \<exists>w. reg_handle r (embed (or_empty (ss_params request))) s = (s, Inr w)
        | Some e \<Rightarrow> reg_handle r (embed (or_empty (ss_params request))) s = (s, Inl (ProtocolHandlerError e)))"
proof -
  have "step_valid earlier step" using scenarios_valid assms(3,4) steps_valid_append [of "[]" earlier step later] by (auto simp: list_all_iff)
  then obtain request where request: "correlatedRequest earlier step = Some request" "response_valid request step"
    using assms(5) by (auto simp: step_valid_def split: option.splits)
  show ?thesis
  proof (cases "ss_error step")
    case None
    with request(2) have "lab_serves request" by (simp add: response_valid_def)
    then obtain r :: "'s request_registration" where r: "lab_registration now cleared request = Some r" "r \<in> set (lab_registrations now cleared)" "reg_method r = string_of (ss_method request)"
      using registration_found by blast
    with request(2) lab_answered [OF assms(1,2) r(2), of "or_empty (ss_params request)" s] have "\<exists>w. reg_handle r (embed (or_empty (ss_params request))) s = (s, Inr w)"
      by (auto simp: response_valid_def payload_ok_def)
    with None r(1) request(1) show ?thesis by simp
  next
    case (Some e)
    with request(2) have "lab_refuses request e" by (simp add: response_valid_def)
    from refusal_found [OF this, of now cleared "embed (or_empty (ss_params request))" s] Some request(1) show ?thesis by auto
  qed
qed

theorem lab_plays_scenarios_witness:
  "\<exists>r request. lab_registration (Fin 7) 0 request = Some r \<and> ss_method request = Some ''session.terminate''
     \<and> (\<exists>e. reg_handle r (embed (or_empty (ss_params request))) () = ((), Inl (ProtocolHandlerError e)) \<and> err_code e = Fin 501)"
proof -
  let ?c = "last (scenarios_of scenarioDocuments)" and ?e = "hd (sc_steps (last (scenarios_of scenarioDocuments)))"
  let ?s = "last (sc_steps (last (scenarios_of scenarioDocuments)))"
  note defs = scenarios_of_def scenarioDocuments_def termination_scenario_def request_step_def response_step_def
  have c: "?c \<in> set (scenarios_of scenarioDocuments)" by (simp add: defs)
  have steps: "sc_steps ?c = [?e] @ ?s # []" "ss_kind ?s = ''response''" by (simp_all add: defs)
  have e: "ss_error ?s = Some (wire_failure 501 ''session.terminate is not supported. please use application.move or call.hangup instead'')"
    "correlatedRequest [?e] ?s = Some ?e" "ss_method ?e = Some ''session.terminate''" by (simp_all add: defs correlatedRequest_def)
  have "time_stamp (Fin 7)" "int 0 \<le> MAX_SAFE_INTEGER" by code_simp+
  from lab_plays_scenarios [OF this c steps, of "()"] e(1,2) obtain r :: "unit request_registration"
    where "lab_registration (Fin 7) 0 ?e = Some r"
      "reg_handle r (embed (or_empty (ss_params ?e))) () = ((), Inl (ProtocolHandlerError (wire_failure 501 ''session.terminate is not supported. please use application.move or call.hangup instead'')))"
    by auto
  with e(3) show ?thesis by (intro exI [of _ r] exI [of _ ?e]) simp
qed

section \<open>Replaying a scenario\<close>

definition shown_step :: "scenario_case \<Rightarrow> string list \<Rightarrow> lab_page \<Rightarrow> rat list \<Rightarrow> nat \<Rightarrow> nat \<times> js_number \<times> timeline_entry" where
  "shown_step c raws p nows i =
     (let k = i mod length (sc_steps c) in
      (pg_entryId p + i + 1, elapsed (nows ! i) p, scenario_entry (sc_steps c) (k + 1) (sc_steps c ! k) (raws ! k)))"

lemma press_step:
  assumes "pg_updates p = []" "pg_scenarioStep p = k" "k < length (sc_steps c)" "encodeScenarioStep (sc_steps c ! k) = Inr raw"
  shows "press eager c p now = p\<lparr>pg_entryId := pg_entryId p + 1, pg_updates := [], pg_scenarioStep := (k + 1) mod length (sc_steps c),
    pg_timeline := pg_timeline p @ [(pg_entryId p + 1, elapsed now p, scenario_entry (sc_steps c) (k + 1) (sc_steps c ! k) raw)]\<rparr>"
proof -
  have "(if length (sc_steps c) \<le> k + 1 then 0 else k + 1) = (k + 1) mod length (sc_steps c)" using assms(3) by (cases "k + 1 = length (sc_steps c)") auto
  moreover have "sc_steps c \<noteq> []" using assms(3) by auto
  ultimately show ?thesis
    using assms by (cases "length (sc_steps c) \<le> k + 1") (simp_all add: press_def replayNext_def render_def pushTimeline_def Let_def)
qed

lemma replay_run:
  assumes "traverse encodeScenarioStep (sc_steps c) = Inr raws" "sc_steps c \<noteq> []" "pg_updates p = []" "pg_scenarioStep p = 0"
  shows "foldl (press eager c) p nows = p\<lparr>pg_entryId := pg_entryId p + length nows, pg_updates := [], pg_scenarioStep := length nows mod length (sc_steps c),
    pg_timeline := pg_timeline p @ map (shown_step c raws p nows) [0..<length nows]\<rparr>"
proof (induction nows rule: rev_induct)
  case Nil
  then show ?case using assms(3,4) by simp
next
  case (snoc now nows)
  let ?n = "length (sc_steps c)" and ?q = "foldl (press eager c) p nows"
  let ?k = "length nows mod ?n"
  have k: "?k < ?n" using assms(2) by simp
  have enc: "encodeScenarioStep (sc_steps c ! ?k) = Inr (raws ! ?k)" using assms(1) k by (auto simp: traverse_Inr_iff list_all2_conv_all_nth)
  have "press eager c ?q now = ?q\<lparr>pg_entryId := pg_entryId ?q + 1, pg_updates := [], pg_scenarioStep := (?k + 1) mod ?n,
    pg_timeline := pg_timeline ?q @ [(pg_entryId ?q + 1, elapsed now ?q, scenario_entry (sc_steps c) (?k + 1) (sc_steps c ! ?k) (raws ! ?k))]\<rparr>"
    using k enc by (intro press_step) (simp_all add: snoc.IH)
  moreover have "map (shown_step c raws p (nows @ [now])) [0..<length nows] = map (shown_step c raws p nows) [0..<length nows]"
    by (simp add: shown_step_def nth_append)
  moreover have "elapsed now ?q = elapsed now p" by (simp add: snoc.IH elapsed_def)
  ultimately show ?case by (simp add: snoc.IH shown_step_def Let_def mod_Suc_eq)
qed

text \<open>
  Replaying shows a scenario step by step and over again: the presses of the button, each after the page has shown the one before,
  add one entry each, the \<open>i\<close>-th with the text and the direction of step \<open>i\<close> modulo the number of steps, and their numbers are
  consecutive.
\<close>

theorem replay_shows_steps:
  assumes "traverse encodeScenarioStep (sc_steps c) = Inr raws" "sc_steps c \<noteq> []" "pg_updates p = []" "pg_scenarioStep p = 0"
  shows "pg_timeline (foldl (press eager c) p nows) = pg_timeline p @ map (shown_step c raws p nows) [0..<length nows]
    \<and> pg_scenarioStep (foldl (press eager c) p nows) = length nows mod length (sc_steps c)"
  unfolding replay_run [OF assms] by simp

definition spoken :: scenario_case where
  "spoken = \<lparr>sc_key = ''a/b'', sc_title = ''a'', sc_description = [], sc_steps = [request_step ''voice'' ''1'' ''ping'' (JObj []), response_step ''application'' ''1'' (Some (JObj [])) None]\<rparr>"

theorem replay_shows_steps_witness:
  "\<exists>a b. map (\<lambda>(i, t, e). (i, te_from e, te_raw e)) (pg_timeline (foldl (press True spoken) new_page [1, 2, 3]))
     = [(1, ''Voice'', Some a), (2, ''Application'', Some b), (3, ''Voice'', Some a)]"
proof -
  have "list_all (\<lambda>s. frame_carried (scenario_frame s)) (sc_steps spoken)" by code_simp
  then have "\<forall>s \<in> set (sc_steps spoken). \<exists>raw. encodeScenarioStep s = Inr raw"
    using classic_encodes by (auto simp: list_all_iff encodeScenarioStep_def)
  then obtain a b where t: "traverse encodeScenarioStep (sc_steps spoken) = Inr [a, b]" by (auto simp: spoken_def)
  have "sc_steps spoken \<noteq> []" "pg_updates new_page = []" "pg_scenarioStep new_page = 0" by (simp_all add: spoken_def new_page_def)
  from replay_shows_steps [OF t this, of True "[1, 2, 3]"]
  have shown: "map (\<lambda>(i, t, e). (i, te_from e, te_raw e)) (pg_timeline (foldl (press True spoken) new_page [1, 2, 3]))
      = [(1, titleCase ''voice'', Some a), (2, titleCase ''application'', Some b), (3, titleCase ''voice'', Some a)]"
    by (simp add: upt_rec shown_step_def spoken_def new_page_def scenario_entry_def request_step_def response_step_def Let_def del: titleCase.simps)
  have "titleCase ''voice'' = ''Voice''" "titleCase ''application'' = ''Application''" by code_simp+
  with shown show ?thesis by auto
qed

text \<open>
  Entries of one batch get the same number: of three entries that are added before the page is rendered again, whether or not React
  runs the first update at once, the last two have the same number, which the page uses as their key.
\<close>

theorem batched_entries_share_number:
  "map fst (drop 1 (pg_timeline (render (pushTimeline eager t3 c (pushTimeline eager t2 b (pushTimeline eager t1 a new_page)))))) = [3, 3]"
  by (simp add: pushTimeline_def render_def new_page_def Let_def)

end
