(* ===== verification/Lab_Stats.thy ===== *)
theory Lab_Stats
  imports Browser_Playback Number_Text
begin

text \<open>
  \<open>ProtocolLab/controller.ts\<close> of the documentation site: the summary of a WebRTC statistics report that the lab shows.  A report is the
  list of its entries in the order of \<open>forEach\<close>; an entry has its id and type and the other fields that the browser gives it.
\<close>

section \<open>Reports\<close>

datatype stat_value = StatNumber js_number | StatString string | StatBool bool | StatOther

record rtc_stats =
  rst_id :: string
  rst_type :: string
  rst_fields :: "(string \<times> stat_value) list"

definition statNumber :: "rtc_stats option \<Rightarrow> string \<Rightarrow> js_number option" where
  "statNumber report name =
     (case report of
        None \<Rightarrow> None
      | Some r \<Rightarrow> (case map_of (rst_fields r) name of Some (StatNumber x) \<Rightarrow> if isFinite x then Some x else None | _ \<Rightarrow> None))"

definition statString :: "rtc_stats option \<Rightarrow> string \<Rightarrow> string option" where
  "statString report name =
     (case report of None \<Rightarrow> None | Some r \<Rightarrow> (case map_of (rst_fields r) name of Some (StatString s) \<Rightarrow> Some s | _ \<Rightarrow> None))"

section \<open>The summary\<close>

text \<open>Two texts of the page have an arrow between the two candidate types.\<close>

datatype pair_text = PairText string | PairTypes string string

record lab_stats =
  ls_codec :: string
  ls_connection :: string
  ls_ice :: string
  ls_candidatePair :: pair_text
  ls_bitrateKbps :: "js_number option"
  ls_rttMs :: "js_number option"
  ls_jitterMs :: "js_number option"
  ls_packetsLost :: "js_number option"

definition EMPTY_STATS :: lab_stats where
  "EMPTY_STATS = \<lparr>ls_codec = ''Not started'', ls_connection = ''Idle'', ls_ice = ''Idle'', ls_candidatePair = PairText ''Not selected'',
     ls_bitrateKbps = None, ls_rttMs = None, ls_jitterMs = None, ls_packetsLost = None\<rparr>"

record stats_scan =
  sn_inbound :: "rtc_stats option"
  sn_outbound :: "rtc_stats option"
  sn_pair :: "rtc_stats option"
  sn_byId :: "string \<Rightarrow> rtc_stats option"

definition media_kind :: "rtc_stats \<Rightarrow> string option" where
  "media_kind entry = (case statString (Some entry) ''kind'' of Some k \<Rightarrow> Some k | None \<Rightarrow> statString (Some entry) ''mediaType'')"

definition audio_entry :: "string \<Rightarrow> rtc_stats \<Rightarrow> bool" where
  "audio_entry t entry \<longleftrightarrow> rst_type entry = t \<and> media_kind entry = Some ''audio''"

definition succeeded :: "rtc_stats \<Rightarrow> bool" where
  "succeeded entry \<longleftrightarrow> rst_type entry = ''candidate-pair'' \<and> statString (Some entry) ''state'' = Some ''succeeded''"

definition nominated :: "rtc_stats \<Rightarrow> bool" where
  "nominated entry \<longleftrightarrow> map_of (rst_fields entry) ''nominated'' = Some (StatBool True)"

definition scan_entry :: "stats_scan \<Rightarrow> rtc_stats \<Rightarrow> stats_scan" where
  "scan_entry sn entry = \<lparr>
     sn_inbound = (if audio_entry ''inbound-rtp'' entry then Some entry else sn_inbound sn),
     sn_outbound = (if audio_entry ''outbound-rtp'' entry then Some entry else sn_outbound sn),
     sn_pair = (if succeeded entry \<and> (nominated entry \<or> sn_pair sn = None) then Some entry else sn_pair sn),
     sn_byId = (sn_byId sn)(rst_id entry \<mapsto> entry)\<rparr>"

definition scan_report :: "rtc_stats list \<Rightarrow> stats_scan" where
  "scan_report report = foldl scan_entry \<lparr>sn_inbound = None, sn_outbound = None, sn_pair = None, sn_byId = Map.empty\<rparr> report"

definition lower :: "char \<Rightarrow> char" where
  "lower c = (let n = of_char c :: nat in if 65 \<le> n \<and> n \<le> 90 then char_of (n + 32) else c)"

text \<open>\<open>mime.replace(/^audio\//i, "")\<close>.\<close>

definition codec_name :: "string \<Rightarrow> string" where
  "codec_name mime = (if map lower (take 6 mime) = ''audio/'' then drop 6 mime else mime)"

definition codec_text :: "string option \<Rightarrow> js_number option \<Rightarrow> string" where
  "codec_text mime clock =
     (case mime of
        None \<Rightarrow> ''PCMU / 8 kHz''
      | Some m \<Rightarrow> codec_name m @ '' / '' @ number_text (jsInt (round_int (num_over (case clock of None \<Rightarrow> Fin 8000 | Some x \<Rightarrow> x) 1000))) @ '' kHz'')"

text \<open>The quotient by a duration, which is positive where it is used.\<close>

definition per_ms :: "js_number \<Rightarrow> js_number \<Rightarrow> js_number" where
  "per_ms x duration = (case duration of Fin d \<Rightarrow> num_over x d | _ \<Rightarrow> NaN)"

definition bitrate :: "js_number option \<Rightarrow> (js_number \<times> rat) option \<Rightarrow> rat \<Rightarrow> js_number option" where
  "bitrate bytes previous now =
     (case (bytes, previous) of
        (Some b, Some (before, at_ms)) \<Rightarrow>
          if now \<le> at_ms then None
          else Some (per_ms (num_mul (num_sub b before) (Fin 8)) (num_sub (Fin now) (Fin at_ms)))
      | _ \<Rightarrow> None)"

definition at_least_zero :: "js_number \<Rightarrow> js_number" where
  "at_least_zero x = (if x = NaN then NaN else if num_less (Fin 0) x then x else Fin 0)"

definition candidate_text :: "(string \<Rightarrow> rtc_stats option) \<Rightarrow> rtc_stats option \<Rightarrow> pair_text" where
  "candidate_text byId pair =
     (let candidate = (\<lambda>name. Option.bind (statString pair name) (\<lambda>i. statString (byId i) ''candidateType'')) in
      case (candidate ''localCandidateId'', candidate ''remoteCandidateId'') of
        (Some l, Some r) \<Rightarrow> PairTypes l r
      | _ \<Rightarrow> PairText ''Selected local pair'')"

definition summarizeStats ::
  "rtc_stats list \<Rightarrow> string \<times> string \<Rightarrow> (js_number \<times> rat) option \<Rightarrow> rat \<Rightarrow> lab_stats \<times> (js_number \<times> rat) option" where
  "summarizeStats report connection previous now =
     (let sn = scan_report report;
          codec = Option.bind (statString (sn_inbound sn) ''codecId'') (sn_byId sn);
          bytes = statNumber (sn_outbound sn) ''bytesSent''
      in (\<lparr>ls_codec = codec_text (statString codec ''mimeType'') (statNumber codec ''clockRate''),
           ls_connection = fst connection,
           ls_ice = snd connection,
           ls_candidatePair = candidate_text (sn_byId sn) (sn_pair sn),
           ls_bitrateKbps = map_option at_least_zero (bitrate bytes previous now),
           ls_rttMs = map_option (\<lambda>x. num_mul x (Fin 1000)) (statNumber (sn_pair sn) ''currentRoundTripTime''),
           ls_jitterMs = map_option (\<lambda>x. num_mul x (Fin 1000)) (statNumber (sn_inbound sn) ''jitter''),
           ls_packetsLost = statNumber (sn_inbound sn) ''packetsLost''\<rparr>,
          map_option (\<lambda>b. (b, now)) bytes))"

text \<open>One turn of \<open>startStatsPolling\<close>: the sample of a turn is the previous one of the next.\<close>

definition poll_stats :: "string \<times> string \<Rightarrow> (js_number \<times> rat) option \<times> lab_stats list \<Rightarrow> rtc_stats list \<times> rat \<Rightarrow> (js_number \<times> rat) option \<times> lab_stats list" where
  "poll_stats connection = (\<lambda>(previous, shown) (report, now).
     (case summarizeStats report connection previous now of (stats, sample) \<Rightarrow> (sample, shown @ [stats])))"

text \<open>\<open>pollLiveStats\<close>, with the connection state of the transport.\<close>

definition pollLiveStats :: "(rtc_stats list \<times> string) option \<Rightarrow> rat \<Rightarrow> lab_stats option" where
  "pollLiveStats transport now =
     (case transport of
        None \<Rightarrow> None
      | Some (report, state) \<Rightarrow>
          Some (fst (summarizeStats report (state, if state = ''connected'' then ''connected'' else ''checking'') None now)))"

section \<open>Properties\<close>

text \<open>The fields that a summary may depend on; addresses, ports and descriptions are not among them.\<close>

definition read_fields :: "string list" where
  "read_fields = [''kind'', ''mediaType'', ''state'', ''nominated'', ''codecId'', ''mimeType'', ''clockRate'', ''bytesSent'', ''localCandidateId'',
     ''remoteCandidateId'', ''candidateType'', ''currentRoundTripTime'', ''jitter'', ''packetsLost'']"

definition redact :: "rtc_stats \<Rightarrow> rtc_stats" where
  "redact entry = entry\<lparr>rst_fields := filter (\<lambda>(name, v). name \<in> set read_fields) (rst_fields entry)\<rparr>"

lemma map_of_filter_key: "P k \<Longrightarrow> map_of (filter (\<lambda>(k, v). P k) xs) k = map_of xs k"
  by (induction xs) auto

lemma map_of_redact: "name \<in> set read_fields \<Longrightarrow> map_of (rst_fields (redact r)) name = map_of (rst_fields r) name"
  unfolding redact_def by (simp add: map_of_filter_key)

lemma stat_redact:
  "name \<in> set read_fields \<Longrightarrow> statString (map_option redact r) name = statString r name"
  "name \<in> set read_fields \<Longrightarrow> statNumber (map_option redact r) name = statNumber r name"
  by (cases r; simp add: statString_def statNumber_def map_of_redact)+

definition redact_scan :: "stats_scan \<Rightarrow> stats_scan" where
  "redact_scan sn = \<lparr>sn_inbound = map_option redact (sn_inbound sn), sn_outbound = map_option redact (sn_outbound sn),
     sn_pair = map_option redact (sn_pair sn), sn_byId = map_option redact \<circ> sn_byId sn\<rparr>"

lemma read_fields_simps [simp]:
  "''kind'' \<in> set read_fields" "''mediaType'' \<in> set read_fields" "''state'' \<in> set read_fields" "''nominated'' \<in> set read_fields"
  "''codecId'' \<in> set read_fields" "''mimeType'' \<in> set read_fields" "''clockRate'' \<in> set read_fields" "''bytesSent'' \<in> set read_fields"
  "''localCandidateId'' \<in> set read_fields" "''remoteCandidateId'' \<in> set read_fields" "''candidateType'' \<in> set read_fields"
  "''currentRoundTripTime'' \<in> set read_fields" "''jitter'' \<in> set read_fields" "''packetsLost'' \<in> set read_fields"
  by (simp_all add: read_fields_def)

lemma entry_redact:
  "audio_entry t (redact e) = audio_entry t e" "succeeded (redact e) = succeeded e" "nominated (redact e) = nominated e" "rst_id (redact e) = rst_id e"
proof -
  have own: "rst_id (redact e) = rst_id e" "rst_type (redact e) = rst_type e" by (simp_all add: redact_def)
  have "statString (Some (redact e)) name = statString (Some e) name" if "name \<in> set read_fields" for name
    using stat_redact(1) [OF that, of "Some e"] by simp
  then show "audio_entry t (redact e) = audio_entry t e" "succeeded (redact e) = succeeded e" "nominated (redact e) = nominated e" "rst_id (redact e) = rst_id e"
    using own by (simp_all add: audio_entry_def media_kind_def succeeded_def nominated_def map_of_redact cong: option.case_cong)
qed

lemma scan_redact: "scan_entry (redact_scan sn) (redact e) = redact_scan (scan_entry sn e)"
  by (cases "sn_pair sn") (simp_all add: scan_entry_def redact_scan_def entry_redact fun_eq_iff)

lemma scan_report_redact: "scan_report (map redact report) = redact_scan (scan_report report)"
proof -
  have "foldl scan_entry (redact_scan sn) (map redact report) = redact_scan (foldl scan_entry sn report)" for sn
    by (induction report arbitrary: sn) (simp_all add: scan_redact)
  from this [of "\<lparr>sn_inbound = None, sn_outbound = None, sn_pair = None, sn_byId = Map.empty\<rparr>"] show ?thesis
    by (simp add: scan_report_def redact_scan_def o_def)
qed

lemma candidate_text_redact: "candidate_text (map_option redact \<circ> byId) (map_option redact pair) = candidate_text byId pair"
  by (simp add: candidate_text_def stat_redact cong: option.case_cong)

text \<open>
  Claim C40.  Candidate addresses are never displayed: what the lab shows of a report does not depend on any field outside the fourteen that
  it reads, so that two reports that differ only in addresses, ports, user names or descriptions have the same summary.
\<close>

theorem lab_stats_hide_addresses:
  "summarizeStats (map redact report) connection previous now = summarizeStats report connection previous now"
proof -
  have "Option.bind x (map_option redact \<circ> f) = map_option redact (Option.bind x f)" for x :: "string option" and f
    by (cases x) simp_all
  then show ?thesis
    unfolding summarizeStats_def scan_report_redact
    by (simp add: redact_scan_def stat_redact candidate_text_redact Let_def)
qed

text \<open>The reference: the last nominated pair, and without one the first pair that succeeded.\<close>

definition best_pair :: "rtc_stats list \<Rightarrow> rtc_stats option" where
  "best_pair report =
     (case filter (\<lambda>e. succeeded e \<and> nominated e) report of [] \<Rightarrow> find succeeded report | es \<Rightarrow> Some (last es))"

lemma find_snoc: "find P (xs @ [x]) = (case find P xs of None \<Rightarrow> if P x then Some x else None | Some y \<Rightarrow> Some y)"
  by (induction xs) auto

text \<open>
  The pair whose candidates and round-trip time are shown is the right one: the scan of a report ends with the last pair
  that succeeded and is nominated, and, when there is none, with the first that succeeded.
\<close>

theorem lab_selected_pair: "sn_pair (scan_report report) = best_pair report"
proof (induction report rule: rev_induct)
  case (snoc e report)
  have "sn_pair (scan_report (report @ [e])) = (if succeeded e \<and> (nominated e \<or> best_pair report = None) then Some e else best_pair report)"
    using snoc by (cases "best_pair report") (simp_all add: scan_report_def scan_entry_def)
  then show ?case
    by (cases "filter (\<lambda>e. succeeded e \<and> nominated e) report") (auto simp: best_pair_def find_snoc split: option.splits)
qed (simp add: scan_report_def best_pair_def)

text \<open>A bit rate that is shown is no negative number, also when the counter of the browser goes back.\<close>

lemma shown_bitrate_not_negative:
  "ls_bitrateKbps (fst (summarizeStats report connection previous now)) = Some x \<Longrightarrow> \<not> num_less x (Fin 0)"
  by (auto simp: summarizeStats_def Let_def at_least_zero_def split: if_splits) (cases x; simp)

end
