(* ===== verification/Lab_Calls.thy ===== *)
theory Lab_Calls
  imports Lab_Roles Browser_Resampler
begin

text \<open>
  \<open>ProtocolLab/controller.ts\<close> of the documentation site: what the controls of a running call do, and the wait of the local WebRTC loopback.
  A session is given by how it notifies and requests; \<open>None\<close> is a session that is not there.
\<close>

section \<open>Controls\<close>

record lab_media =
  lm_muted :: "bool option"
  lm_liveTransport :: bool
  lm_enabled :: "bool option"

text \<open>\<open>setMuted\<close>: of the audio of a simulation and of the microphone track of a live call.\<close>

definition setMuted :: "bool \<Rightarrow> lab_media \<Rightarrow> lab_media" where
  "setMuted muted m =
     (let m1 = m\<lparr>lm_muted := map_option (\<lambda>_. muted) (lm_muted m)\<rparr> in
      if lm_liveTransport m1 then m1\<lparr>lm_enabled := map_option (\<lambda>_. \<not> muted) (lm_enabled m1)\<rparr> else m1)"

definition dtmf_data :: "nat \<Rightarrow> js_number \<Rightarrow> string \<Rightarrow> wire_value" where
  "dtmf_data n pressed digit = plain_record
     [(''seq'', WNum (Fin (of_nat n))), (''pressed_at'', WNum pressed), (''released_at'', WNum (num_add pressed (Fin 120))), (''digit'', WStr digit)]"

definition sendDtmf :: "'s notifier option \<Rightarrow> js_number \<Rightarrow> string \<Rightarrow> nat \<times> 's \<Rightarrow> (nat \<times> 's) \<times> unit result" where
  "sendDtmf voice pressed digit = (\<lambda>(sequence, s).
     (case voice of
        None \<Rightarrow> ((sequence, s), Inr ())
      | Some notifier \<Rightarrow>
          (let n = sequence + 1 in
           case VoiceEvents_dtmf notifier (dtmf_data n pressed digit) s of (s', r) \<Rightarrow> ((n, s'), r))))"

definition bargeIn :: "('s notifier \<times> 's requester) option \<Rightarrow> ('s, unit) action" where
  "bargeIn application s =
     (case application of
        None \<Rightarrow> (s, Inr ())
      | Some (notifier, requester) \<Rightarrow>
          (case ApplicationEvents_audioSpeechStarted notifier (plain_record [(''origin'', WStr ''sender'')]) s of
             (s1, Inl e) \<Rightarrow> (s1, Inl e)
           | (s1, Inr _) \<Rightarrow>
               (case VoicePeer_audioBufferClear requester (plain_record []) s1 of
                  (s2, Inl e) \<Rightarrow> (s2, Inl e)
                | (s2, Inr _) \<Rightarrow> (s2, Inr ()))))"

text \<open>\<open>clearPlayback\<close> of the device, where there is one, is the second argument.\<close>

definition clearBuffer :: "'s requester option \<Rightarrow> ('s \<Rightarrow> 's) option \<Rightarrow> ('s, unit) action" where
  "clearBuffer application clearPlayback s =
     (case application of
        Some requester \<Rightarrow>
          (case VoicePeer_audioBufferClear requester (plain_record []) s of (s1, Inl e) \<Rightarrow> (s1, Inl e) | (s1, Inr _) \<Rightarrow> (s1, Inr ()))
      | None \<Rightarrow> (case clearPlayback of None \<Rightarrow> (s, Inr ()) | Some clear \<Rightarrow> (clear s, Inr ())))"

section \<open>The loopback\<close>

text \<open>
  One turn looks at the clock and, before the deadline, at the states of the peers; the \<open>i\<close>-th turn sees \<open>clock i\<close> and \<open>states i\<close>.
  Without fuel the wait is still going on.
\<close>

fun wait_turns :: "nat \<Rightarrow> nat \<Rightarrow> rat \<Rightarrow> (nat \<Rightarrow> rat) \<Rightarrow> (nat \<Rightarrow> string list) \<Rightarrow> unit result option" where
  "wait_turns 0 i deadline clock states = None"
| "wait_turns (Suc fuel) i deadline clock states =
     (if deadline \<le> clock i then Some (Inl (JsError ''local WebRTC loopback did not connect''))
      else if list_all (\<lambda>s. s = ''connected'') (states i) then Some (Inr ())
      else if list_ex (\<lambda>s. s = ''failed'') (states i) then Some (Inl (JsError ''local WebRTC loopback failed''))
      else wait_turns fuel (i + 1) deadline clock states)"

definition waitForConnected :: "nat \<Rightarrow> rat \<Rightarrow> (nat \<Rightarrow> rat) \<Rightarrow> (nat \<Rightarrow> string list) \<Rightarrow> unit result option" where
  "waitForConnected fuel start clock states = wait_turns fuel 0 (start + 7000) clock states"

section \<open>Properties\<close>

lemma wait_turns_end:
  assumes "\<And>j. clock (Suc j) \<ge> clock j + 50" "deadline \<le> clock i + 50 * of_nat fuel"
  shows "\<exists>r. wait_turns (Suc fuel) i deadline clock states = Some r"
  using assms(2)
proof (induction fuel arbitrary: i)
  case (Suc fuel)
  have "deadline \<le> clock (i + 1) + 50 * of_nat fuel" using Suc.prems assms(1) [of i] by (simp add: algebra_simps)
  from Suc.IH [OF this] show ?case by simp
qed simp

text \<open>
  The wait for the local loopback ends: where every turn takes at least the 50 milliseconds of its timer, at most 141 turns
  decide it, and it reports success only when every peer was connected at a turn before the deadline.
\<close>

theorem loopback_wait_ends:
  assumes "start \<le> clock 0" "\<And>j. clock (Suc j) \<ge> clock j + 50"
  shows "\<exists>r. waitForConnected 141 start clock states = Some r
    \<and> (r = Inr () \<longrightarrow> (\<exists>i. clock i < start + 7000 \<and> list_all (\<lambda>s. s = ''connected'') (states i)))"
proof -
  have "start + 7000 \<le> clock 0 + 50 * of_nat 140" using assms(1) by simp
  moreover have "Suc 140 = 141" by simp
  ultimately obtain r where r: "wait_turns 141 0 (start + 7000) clock states = Some r"
    using wait_turns_end [of clock "start + 7000" 0 140 states, OF assms(2)] by metis
  have "\<exists>i. clock i < deadline \<and> list_all (\<lambda>s. s = ''connected'') (states i)"
    if "wait_turns fuel k deadline clock states = Some (Inr ())" for fuel k deadline
    using that by (induction fuel k deadline clock states rule: wait_turns.induct) (auto simp: not_le split: if_splits)
  with r show ?thesis unfolding waitForConnected_def by blast
qed

theorem loopback_wait_ends_witness: "\<exists>r. waitForConnected 141 0 (\<lambda>i. 50 * of_nat i) (\<lambda>i. [''new'']) = Some r"
  using loopback_wait_ends [of 0 "\<lambda>i. 50 * of_nat i" "\<lambda>i. [''new'']"] by auto

lemma dtmf_data_embed:
  "dtmf_data n pressed digit = embed (JObj [(''seq'', JNum (Fin (of_nat n))), (''pressed_at'', JNum pressed), (''released_at'', JNum (num_add pressed (Fin 120))), (''digit'', JStr digit)])"
  by (simp add: dtmf_data_def)

definition pressable :: "nat \<Rightarrow> nat \<Rightarrow> string \<Rightarrow> bool" where
  "pressable n t digit \<longleftrightarrow> int n \<le> MAX_SAFE_INTEGER \<and> int t + 120 \<le> MAX_SAFE_INTEGER \<and> digit \<noteq> []"

lemma released_at:
  assumes "pressable n t digit"
  shows "num_add (Fin (of_nat t)) (Fin 120) = Fin (of_nat (t + 120))"
  using assms to_double_nat [of "t + 120"] by (simp add: pressable_def MAX_SAFE_INTEGER_def)

lemma safe_int_nat: "int n \<le> MAX_SAFE_INTEGER \<Longrightarrow> safe_int (Fin (of_nat n))"
  by (simp add: safe_int_def is_int_rat_def)

lemma dtmf_data_valid:
  assumes "pressable n t digit"
  shows "validateDtmfEvent (dtmf_data n (Fin (of_nat t)) digit) = Some []"
  unfolding dtmf_data_embed validateDtmfEvent_iff
  using assms released_at [OF assms] safe_int_nat [of n] safe_int_nat [of t] safe_int_nat [of "t + 120"]
  by (auto simp: pressable_def simp del: of_nat_add)

lemma dtmf_serialized:
  assumes "pressable n t digit"
  shows "serializeDtmfEvent (dtmf_data n (Fin (of_nat t)) digit)
    = Some (Inr (WObject (wireObject [(''seq'', WNum (Fin (of_nat n))), (''pressed_at'', WNum (Fin (of_nat t))), (''released_at'', WNum (Fin (of_nat (t + 120)))),
        (''digit'', WStr digit)])))"
proof -
  obtain k where "value_fuel (dtmf_data n (Fin (of_nat t)) digit) = Suc (Suc k)" by (simp add: value_fuel_def)
  moreover from this have "assertCatalogValue (Suc (Suc k)) (dtmf_data n (Fin (of_nat t)) digit) ''DtmfEvent'' BABELFORCE_V1_SCHEMAS = Some (Inr ())"
    using dtmf_data_valid [OF assms] by (simp add: validateDtmfEvent_def validate_as_def assertCatalogValue_def)
  ultimately show ?thesis
    using released_at [OF assms]
    by (simp add: serializeDtmfEvent_def serialize_as_def serializeCatalogValue_def DtmfEvent_lookup DtmfEvent_schema_def dtmf_data_def
        nonNullSchema_def single_variant_def referenceName_def serialize_typed_def serialize_record_def declared_properties_def own_order_def array_index_def is_digit_def
        own_value_def del: of_nat_add)
qed

text \<open>A session that takes every event.\<close>

definition takes :: "(string \<times> json) list notifier" where
  "takes e w s = (s @ [(e, json_of w)], Inr ())"

definition press_keys :: "(nat \<times> string) list \<Rightarrow> nat \<times> (string \<times> json) list \<Rightarrow> nat \<times> (string \<times> json) list" where
  "press_keys keys st = foldl (\<lambda>st (t, digit). fst (sendDtmf (Some takes) (Fin (of_nat t)) digit st)) st keys"

definition dtmf_event :: "nat \<Rightarrow> nat \<times> string \<Rightarrow> string \<times> json" where
  "dtmf_event n = (\<lambda>(t, digit). (EVENT_DTMF,
     JObj [(''seq'', JNum (Fin (of_nat n))), (''pressed_at'', JNum (Fin (of_nat t))), (''released_at'', JNum (Fin (of_nat (t + 120)))), (''digit'', JStr digit)]))"

lemma sendDtmf_takes:
  assumes "pressable (n + 1) t digit"
  shows "sendDtmf (Some takes) (Fin (of_nat t)) digit (n, s) = ((n + 1, s @ [dtmf_event (n + 1) (t, digit)]), Inr ())"
  using dtmf_serialized [OF assms]
  by (simp add: sendDtmf_def VoiceEvents_dtmf_def peer_notify_def settled_def takes_def dtmf_event_def wireObject_def del: of_nat_add of_nat_Suc)

text \<open>
  Keys become events in order: every key pressed in a call becomes one \<open>dtmf\<close> event that passes the catalog's validation, with
  consecutive sequence numbers, its digit, and a release 120 milliseconds after the press.
\<close>

theorem lab_keys_numbered:
  assumes "list_all (\<lambda>(t, digit). pressable (n + length keys) t digit) keys"
  shows "press_keys keys (n, s) = (n + length keys, s @ map2 dtmf_event [n + 1..<n + length keys + 1] keys)"
  using assms
proof (induction keys arbitrary: n s)
  case Nil
  then show ?case by (simp add: press_keys_def)
next
  case (Cons k keys)
  obtain t digit where k: "k = (t, digit)" by (cases k)
  with Cons.prems have first: "pressable (n + 1) t digit" and rest: "list_all (\<lambda>(t, digit). pressable (n + 1 + length keys) t digit) keys"
    by (auto simp: pressable_def list_all_iff)
  have "press_keys (k # keys) (n, s) = press_keys keys (n + 1, s @ [dtmf_event (n + 1) k])"
    using sendDtmf_takes [OF first] k by (simp add: press_keys_def)
  moreover have "[n + 1..<n + length (k # keys) + 1] = (n + 1) # [n + 1 + 1..<n + 1 + length keys + 1]" by (simp add: upt_conv_Cons del: upt_Suc)
  ultimately show ?case unfolding Cons.IH [OF rest] by simp
qed

theorem lab_keys_numbered_witness:
  "press_keys [(5, ''1''), (9, ''#'')] (0, []) = (2, [dtmf_event 1 (5, ''1''), dtmf_event 2 (9, ''#'')])"
  using lab_keys_numbered [of 0 "[(5, ''1''), (9, ''#'')]" "[]"] by (simp add: pressable_def MAX_SAFE_INTEGER_def upt_rec numeral_2_eq_2)

end
