(* ===== verification/Spec2Isabelle.thy ===== *)
theory Spec2Isabelle
  imports Memory Profiles Role_Calls Demo_Roles Session_Call Websocket_Audio Websocket_Keepalive
    Browser_Auth Browser_Playback_Link Browser_Device_Runs Node_Server Webrtc_Transport Catalog_Types
    Lab_Lifecycle Lab_Scenarios Lab_Stats Lab_Calls
begin

text \<open>
  Verification of the TypeScript SDK of the RTVBP protocol (\<open>src/sdk/typescript/src\<close>; file names below are
  relative to it) and of the protocol lab of its documentation site (\<open>src/website/src/components/ProtocolLab\<close>).

  \<^bold>\<open>The program.\<close>  RTVBP connects a telephony platform and a voice application.  A \<^emph>\<open>session\<close>
  (\<open>session.ts\<close>) runs over a \<^emph>\<open>transport\<close> (\<open>transport.ts\<close>) that has a control channel for texts and media
  channels for audio frames.  Control texts are frames of an \<^emph>\<open>envelope\<close> (\<open>envelope.ts\<close>): requests,
  responses and events, written as JSON without silent coercion (\<open>wire.ts\<close>).  Their payloads are values of a
  generated \<^emph>\<open>catalog\<close>, checked and serialised against JSON schemas (\<open>validation.ts\<close>).  A \<^emph>\<open>handler\<close>
  (\<open>handler.ts\<close>) dispatches inbound frames to the registrations of the local role through middleware;
  generated role files give typed clients, emitters and registrations.  The audio of a session is a
  byte stream (\<open>audio.ts\<close>) that is cut into frames for the media channel.  Transports are a pair in memory
  (\<open>memory.ts\<close>) and one over a WebSocket (\<open>websocket.ts\<close>).  Inside, everything that waits waits on
  the bounded queue of \<open>async.ts\<close>.  The lab is a page that plays both ends of a call with the SDK, shows every frame, and
  can call a live endpoint from the browser.

  \<^bold>\<open>How code becomes definitions.\<close>  Between two \<open>await\<close>s JavaScript runs without interruption, so a function
  is cut at its \<open>await\<close>s and each piece is one function on an explicit state; what happens in
  between is any sequence of other pieces.  A promise is a number: an operation returns
  \<open>Returned\<close>, \<open>Threw\<close> or \<open>Waiting n\<close>, and settles waiting promises through effects.  Thrown values are the type
  \<open>thrown\<close> of \<open>Errors\<close>, fallible code returns \<open>thrown + 'a\<close>.  A JavaScript number is \<open>js_number\<close>:
  a rational, negative zero, an infinity or NaN; sums, products and quotients are rounded as binary64
  (\<open>Js_Arith\<close>).  A string is a list of characters with codes below 256.  Third-party code is a
  parameter: the JSON library (locale \<open>json_library\<close>, interpreted on the reference parser of \<open>Json_Text\<close>), the
  handlers of the user, the platform socket.

  \<^bold>\<open>Theories.\<close>
  \<^item> \<open>Js_Prelude\<close>, \<open>Js_Arith\<close>, \<open>Number_Text\<close>, \<open>Json_Text\<close>: the language.  Results, JSON, numbers and their
    rounding, the shortest text of a number and that it reads back, JSON text.
  \<^item> \<open>Errors\<close> (\<open>errors.ts\<close>, error classes of \<open>protocol.ts\<close> and \<open>validation.ts\<close>).
  \<^item> \<open>Fifo_Spec\<close>, \<open>Async_Queue\<close> (\<open>async.ts\<close>): the contract of a channel as locale \<open>fifo\<close>, the queue with
    its waiting readers and writers and the interpretation; \<open>withTimeout\<close> as a race of events.  Values leave in order
    and once, nobody waits in vain, a promise settles once, the capacity holds as long as nobody calls \<open>clear\<close>.
  \<^item> \<open>Transport\<close>, \<open>Profiles\<close> (\<open>transport.ts\<close>, \<open>profiles.ts\<close> and the generated registry): frame sizes, keepalive policy,
    the media format of a profile.
  \<^item> \<open>Wire\<close>, \<open>Envelope\<close> (\<open>wire.ts\<close>, \<open>envelope.ts\<close>): an encoder over a heap of objects with its cycle check, which
    refines an encoder of trees; the codec of a descriptor and its round trip.
  \<^item> \<open>Validation\<close>, \<open>Serialization\<close>, \<open>Catalog\<close>, \<open>Babelforce_V1\<close>, \<open>Demo_V1\<close>: schemas.  Validation is
    recursive over references, so it has fuel; twice the depth of the value plus two is enough on a registry
    without chains of references, which both catalogs are.  A valid value is delivered and valid again.
  \<^item> \<open>Handler\<close>, \<open>Babelforce_Roles\<close>, \<open>Demo_Roles\<close>, \<open>Role_Calls\<close>: dispatch through middleware, the generated registrations and
    clients; every client method of \<open>babelforce.v1\<close> reaches the handler function of its name through the dispatch.
  \<^item> \<open>Catalog_Types\<close>: the generated TypeScript interfaces as types of decoded JSON values, a check that a schema
    guarantees a type, and which types of the catalogs the decoders guarantee.
  \<^item> \<open>Audio\<close>, \<open>Audio_Reader\<close> (\<open>audio.ts\<close>): writer and reader of the stream over any channel (locale \<open>media_sink\<close>).
  \<^item> \<open>Memory\<close> (\<open>memory.ts\<close>): both transports of a link over one store; it interprets \<open>media_sink\<close>.
  \<^item> \<open>Session\<close>, \<open>Session_Run\<close> (\<open>session.ts\<close>): the state of a session, its operations and the turns of its supervisor
    and workers.  \<open>Session_Invariants\<close> and \<open>Session_Lifecycle\<close> state, as locales \<open>worker_invariant\<close>,
    \<open>session_invariant\<close> and \<open>core_invariant\<close>, what a property must satisfy to hold in every run;
    \<open>Session_History\<close>, \<open>Session_Requests\<close> and \<open>Session_Replies\<close> interpret them: states in order, requests settled once,
    requests of the peer answered, and only once, a stopped session ends.  \<open>Session_Call\<close> joins two sessions with a memory link;
    the theorem below follows a call through all of them.
  \<^item> \<open>Websocket\<close>, \<open>Websocket_Runs\<close>, \<open>Websocket_Keepalive\<close>, \<open>Websocket_Audio\<close> (\<open>websocket.ts\<close>): listeners, the chain of
    writes, close, the keepalive monitor with the log of its pings and the pongs it takes, and the media channel (another
    \<open>media_sink\<close>).
  \<^item> \<open>Browser_Auth\<close> (\<open>browser_auth.ts\<close>): base64url and the bearer subprotocols, with the decoder that shows what
    they carry.
  \<^item> \<open>Browser_Audio\<close>, \<open>Browser_Resampler\<close>, \<open>Browser_Capture\<close>, \<open>Browser_Playback\<close>, \<open>Browser_Playback_Link\<close>,
    \<open>Browser_Device\<close>, \<open>Browser_Device_Runs\<close> (\<open>browser_audio.ts\<close>): conversions between samples and L16 bytes; the
    resampler, whose output does not depend on how the stream is cut; the two tasks of the device; the playback
    worklet and the messages between it and the device; the device with its calls, cut at their \<open>await\<close>s.
  \<^item> \<open>Socket_Spec\<close>, \<open>Browser_Socket\<close>, \<open>Node_Socket\<close>, \<open>Node_Server\<close> (\<open>browser_socket.ts\<close>, \<open>node.ts\<close>): the contract of a
    platform socket as locale \<open>platform_socket\<close>, both adapters that interpret it (the one of Node with its sets of
    listeners: an event that nobody listens to is lost), how a connection opens, and the
    server with the connections and sessions it accounts for.
  \<^item> \<open>Webrtc_Signaling\<close>, \<open>Webrtc_Transport\<close> (\<open>browser_webrtc.ts\<close>): offer and answer over an envelope (locale \<open>signaling\<close>, a
    sublocale of \<open>json_library\<close> through the classic codec), the factory and its clean-up, and the composite transport
    with those who wait for its peer connection.
  \<^item> \<open>Lab_Lifecycle\<close>, \<open>Lab_Timeline\<close>, \<open>Lab_Roles\<close>, \<open>Lab_Scenarios\<close>, \<open>Lab_Stats\<close>, \<open>Lab_Calls\<close>
    (\<open>ProtocolLab/controller.ts\<close>, \<open>ProtocolLab/index.tsx\<close>): how a call of the lab starts, ends and is released; the
    control channel that shows what it sends; the handlers of both roles; the generated conformance scenarios, which the
    handlers answer as the scenarios say, and their replay; the summary of WebRTC statistics; the controls of a call.

  \<^bold>\<open>Bounds and abstractions.\<close>  Handlers of the user run by turns: a handler is a list of calls of the session with
  an outcome.  \<open>#respond\<close> runs as one piece.  A turn that is not enabled changes nothing.  A run
  over the WebSocket writes audio one frame at a time.  Loops have termination proofs, except for
  schema references (fuel, above), the resampler, whose fuel bounds the samples of one call (\<open>resampler_total\<close> gives a
  number that is enough for steps between \<open>2 ^ -21\<close> and \<open>2 ^ 21\<close>), and the lab's wait for its loopback
  (\<open>loopback_wait_ends\<close>: 141 turns of 50 milliseconds pass its limit of seven seconds).  The platform below
  (the browser's sockets, audio nodes and peer connection, the \<open>ws\<close> package) is what it is asked to do and
  the events that it reports.  Creating the audio nodes is assumed to succeed once the worklet module is loaded; the
  level meter of the microphone and the energy probe of the remote track only feed displays and are left out.
  Steps that are separated only by the microtasks of one promise run as one piece.  The callbacks of the page that
  report errors, states and levels (\<open>onSessionError\<close>, \<open>onConnectionStateChange\<close>, \<open>onCaptureLevel\<close>) are taken to return;
  \<open>onSession\<close> and \<open>createHandler\<close> may throw.  The \<open>close\<close> of an audio runtime of the lab is taken to settle without
  an error, as its two bodies do once their audio context exists.

  \<^bold>\<open>Not modelled.\<close>  Re-exports and type-only declarations other than the catalogs' interfaces; of the lab, the Web Audio
  and peer connection graphs with their tones and level meters, whose behaviour is the browser's, the methods that only
  forward, and the markup; the configuration and the static pages of the documentation site; the Go and Rust SDKs and
  the generator, which are other programs.
\<close>

text \<open>
  Claim C1.  A call crosses two sessions and the link between them: the text of a request that a session hands to
  an idle memory link reaches the other session as it is, that session runs its handler on the params as the JSON
  value of what was passed and sends one answer, the link carries it back, and the promise that \<open>request\<close> returned is
  resolved with the JSON value of what the handler returned, whatever the calling session did in the meantime.
\<close>

theorem session_call_over_memory:
  assumes "json_library parse isSafeNumber" "speaks_classic parse isSafeNumber cfg" "speaks_classic parse isSafeNumber cfg'"
    and "well_behaved cfg" "reachable cfg a" "request cfg m p opts a = (a1, Waiting n)" "s_sent a1 = s_sent a @ [q]" "transportable p"
    and "i = s_id a @ ''-'' @ nat_text 36 (s_sequence a1)" "idle_link l" "waiting_for_work b"
    and "dispatchRequest (cf_handler cfg') \<lparr>req_method = m, req_payload = embed (or_empty (Some (json_of p)))\<rparr>
           (asked_context i (received b (Request i m (Some (json_of p))))) = (c, Inr (Some d))"
    and "s_replies (cx_session c) = s_replies b @ [\<lparr>rp_requestId = i, rp_status = Unclaimed\<rparr>]"
    and "s_state (cx_session c) = Active" "s_aborted (cx_session c) = None" "s_connected (cx_session c)"
    and "cf_encode cfg' (Response i (Some (disp_result d)) None) = Inr r" "cf_send cfg' (length (s_sent (cx_session c))) r = Inr ()"
    and "transportable (disp_result d)"
    and "(session_step cfg)\<^sup>*\<^sup>* a1 a2" "n \<in> set (pending_promises a2)" "s_reader a2 = Running"
  shows "\<exists>q' r' l1 l2. carry w now s q l = Some (q', l1) \<and> s_sent (serve cfg' q' b) = s_sent (cx_session c) @ [r]
    \<and> carry w' now' (other s) r l1 = Some (r', l2)
    \<and> s_settled (receive_text cfg r' a2) = s_settled a2 @ [(n, Inr (Some (json_of (disp_result d))))]"
proof -
  have "cf_encode cfg (Request i m (Some p)) = Inr q" using request_text [OF assms(6,7)] assms(9) by simp
  then have "cf_decode cfg' q = Inr (Request i m (Some (json_of p)))" by (rule classic_request [OF assms(1-3) _ assms(8)])
  then have sent: "s_sent (serve cfg' q b) = s_sent (cx_session c) @ [r]" by (rule serve_sends [OF assms(11) _ assms(12-18)])
  have "cf_decode cfg r = Inr (Response i (Some (json_of (disp_result d))) None)" by (rule classic_response [OF assms(1,3,2,17,19)])
  then have "s_settled (receive_text cfg r a2) = s_settled a2 @ [(n, Inr (Some (json_of (disp_result d))))]"
    using response_settles [OF assms(4-6,20-22)] assms(9) by simp
  with sent carry_idle [OF assms(10)] show ?thesis by blast
qed

theorem session_call_over_memory_witness:
  "\<exists>l q r q' r' l1 l2. pair None = Inr l \<and> s_sent (fst echo_request) = [q] \<and> carry 0 (Fin 0) Side0 q l = Some (q', l1)
     \<and> s_sent (serve echo_config q' echo_server) = [r] \<and> carry 2 (Fin 0) Side1 r l1 = Some (r', l2)
     \<and> s_settled (receive_text echo_config r' (fst echo_request)) = [(0, Inr (Some (JStr ''hi'')))]"
proof -
  obtain l where l: "pair None = Inr l" "idle_link l" using pair_idle by blast
  obtain q where q: "s_sent (fst echo_request) = [q]" using echo_state(3) by (auto simp: length_Suc_conv)
  obtain r where r: "cf_encode echo_config (Response (''s'' @ ''-'' @ nat_text 36 1) (Some (WStr ''hi'')) None) = Inr r" using echo_answer by blast
  let ?i = "''s'' @ ''-'' @ nat_text 36 1"
  let ?c = "asked_context ?i (received echo_server (Request ?i ''ping'' (Some (JStr ''hi''))))"
  have req: "request echo_config ''ping'' (WStr ''hi'') plain_request echo_caller = (fst echo_request, Waiting 0)"
    using echo_state(2) by (simp add: echo_request_def prod_eq_iff)
  have c: "s_replies (cx_session ?c) = s_replies echo_server @ [\<lparr>rp_requestId = ?i, rp_status = Unclaimed\<rparr>]"
    "s_state (cx_session ?c) = Active" "s_aborted (cx_session ?c) = None" "s_connected (cx_session ?c)" "s_sent (cx_session ?c) = []"
    using echo_state(9-11,13) by (simp_all add: asked_context_def received_def)
  have "\<exists>q' r' l1 l2. carry 0 (Fin 0) Side0 q l = Some (q', l1) \<and> s_sent (serve echo_config q' echo_server) = s_sent (cx_session ?c) @ [r]
    \<and> carry 2 (Fin 0) (other Side0) r l1 = Some (r', l2)
    \<and> s_settled (receive_text echo_config r' (fst echo_request)) = s_settled (fst echo_request) @ [(0, Inr (Some (json_of (disp_result \<lparr>disp_result = WStr ''hi'', disp_terminal = False\<rparr>))))]"
  proof (rule session_call_over_memory [OF reference_json.json_library_axioms echo_speaks echo_speaks echo_well_behaved _ req _ _ _ l(2) echo_state(1)])
    show "reachable echo_config echo_caller" unfolding echo_caller_def by (rule reachable_sample)
    show "s_sent (fst echo_request) = s_sent echo_caller @ [q]" using q echo_state(4) by simp
    show "?i = s_id echo_caller @ ''-'' @ nat_text 36 (s_sequence (fst echo_request))" using echo_state(7,8) by simp
    show "dispatchRequest (cf_handler echo_config) \<lparr>req_method = ''ping'', req_payload = embed (or_empty (Some (json_of (WStr ''hi''))))\<rparr>
        (asked_context ?i (received echo_server (Request ?i ''ping'' (Some (json_of (WStr ''hi'')))))) = (?c, Inr (Some \<lparr>disp_result = WStr ''hi'', disp_terminal = False\<rparr>))"
      by (simp add: echo_dispatch)
    show "(session_step echo_config)\<^sup>*\<^sup>* (fst echo_request) (fst echo_request)" by simp
    show "0 \<in> set (pending_promises (fst echo_request))" "s_reader (fst echo_request) = Running" using echo_state(5,6) by simp_all
    show "cf_send echo_config (length (s_sent (cx_session ?c))) r = Inr ()" by (simp add: echo_config_def mute_config_def sample_config_def)
  qed (use c r in simp_all)
  with l(1) q c(5) echo_state(12) show ?thesis by auto
qed

end
